(* ===== verification/Prelude.thy ===== *)
theory Prelude
  imports Main "HOL-Library.Multiset" "HOL-Library.AList"
begin

text \<open>
  Shared vocabulary of the development: Python exceptions as values, the decoded JSON values the
  federation layer exchanges, Python truthiness of those values, and the generic lemmas on
  association lists (insertion-ordered dicts) and stable sorting that several components share.

  A Python \<open>dict\<close> whose order matters is an association list with distinct keys; the library's
  \<^const>\<open>AList.update\<close> replaces in place or appends, \<^const>\<open>AList.delete\<close> removes, exactly as
  \<open>d[k] = v\<close> and \<open>d.pop(k, None)\<close> do.
\<close>

named_theorems step_simps \<open>unfolding rules of handlers and pipeline steps\<close>
named_theorems inv_intros \<open>preservation of component invariants\<close>

section \<open>Python exceptions\<close>

text \<open>
  \<open>WrongTypeError\<close> derives from both \<open>TypeError\<close> and \<open>ValueError\<close>, and
  \<open>UnpairedPeerRefusedError\<close> from \<open>ValueError\<close> (domain/errors.py, federation/inbound_validator.py).
\<close>

datatype exn =
    ValueError
  | WrongTypeError
  | UnpairedPeerRefusedError
  | PyTypeError
  | PyOtherError

definition is_value_error :: "exn \<Rightarrow> bool" where
  "is_value_error e \<longleftrightarrow> e \<in> {ValueError, WrongTypeError, UnpairedPeerRefusedError}"

lemma is_value_error_simps [simp]:
  "is_value_error ValueError"
  "is_value_error WrongTypeError"
  "is_value_error UnpairedPeerRefusedError"
  "\<not> is_value_error PyTypeError"
  "\<not> is_value_error PyOtherError"
  by (simp_all add: is_value_error_def)

section \<open>Decoded JSON\<close>

datatype json =
    JNull
  | JBool bool
  | JNum int
  | JStr string
  | JList "json list"
  | JObj "(string \<times> json) list"

type_synonym jobj = "(string \<times> json) list"

fun is_jstr :: "json \<Rightarrow> bool" where
  "is_jstr (JStr s) = True"
| "is_jstr _ = False"

text \<open>Python truthiness: \<open>None\<close>, \<open>False\<close>, \<open>0\<close>, and empty containers are false.\<close>

fun truthy :: "json \<Rightarrow> bool" where
  "truthy JNull = False"
| "truthy (JBool b) = b"
| "truthy (JNum n) = (n \<noteq> 0)"
| "truthy (JStr s) = (s \<noteq> [])"
| "truthy (JList xs) = (xs \<noteq> [])"
| "truthy (JObj kvs) = (kvs \<noteq> [])"

definition jget :: "jobj \<Rightarrow> string \<Rightarrow> json" where
  "jget d k = (case map_of d k of None \<Rightarrow> JNull | Some v \<Rightarrow> v)"

text \<open>\<open>str(v)\<close>: a string is itself; \<open>py_str\<close> renders every other value.\<close>

definition json_str :: "(json \<Rightarrow> string) \<Rightarrow> json \<Rightarrow> string" where
  "json_str py_str v = (case v of JStr s \<Rightarrow> s | _ \<Rightarrow> py_str v)"

lemma json_str_JStr [simp]: "json_str py_str (JStr s) = s"
  by (simp add: json_str_def)

text \<open>\<open>str(v or "")\<close>.\<close>

definition str_or_empty :: "(json \<Rightarrow> string) \<Rightarrow> json \<Rightarrow> string" where
  "str_or_empty py_str v = (if truthy v then json_str py_str v else [])"

text \<open>\<open>int(v)\<close> of a JSON value; \<open>None\<close> stands for \<open>ValueError\<close> or \<open>TypeError\<close>, which the caller catches alike.\<close>

fun py_int :: "(string \<Rightarrow> int option) \<Rightarrow> json \<Rightarrow> int option" where
  "py_int int_of_str (JNum n) = Some n"
| "py_int int_of_str (JBool b) = Some (if b then 1 else 0)"
| "py_int int_of_str (JStr s) = int_of_str s"
| "py_int int_of_str _ = None"

section \<open>Results\<close>

text \<open>A Python computation that may raise: \<open>Inl\<close> the exception, \<open>Inr\<close> the value.\<close>

definition res_bind :: "'e + 'a \<Rightarrow> ('a \<Rightarrow> 'e + 'b) \<Rightarrow> 'e + 'b" where
  "res_bind r f = (case r of Inl e \<Rightarrow> Inl e | Inr x \<Rightarrow> f x)"

lemma res_bind_simps [simp]: "res_bind (Inl e) f = Inl e" "res_bind (Inr x) f = f x"
  by (simp_all add: res_bind_def)

lemma res_bind_Inr: "res_bind r f = Inr y \<longleftrightarrow> (\<exists>x. r = Inr x \<and> f x = Inr y)"
  by (cases r) auto

text \<open>\<open>if not b: raise e\<close>, a check repeated over a list, and a list comprehension whose element may raise.\<close>

definition ensure :: "bool \<Rightarrow> 'e \<Rightarrow> 'e + unit" where
  "ensure b e = (if b then Inr () else Inl e)"

fun each :: "('a \<Rightarrow> 'e + unit) \<Rightarrow> 'a list \<Rightarrow> 'e + unit" where
  "each f [] = Inr ()"
| "each f (x # xs) = res_bind (f x) (\<lambda>_. each f xs)"

fun traverse :: "('a \<Rightarrow> 'e + 'b) \<Rightarrow> 'a list \<Rightarrow> 'e + 'b list" where
  "traverse f [] = Inr []"
| "traverse f (x # xs) = res_bind (f x) (\<lambda>y. res_bind (traverse f xs) (\<lambda>ys. Inr (y # ys)))"

definition checked :: "'e + 'a \<Rightarrow> bool" where
  "checked r \<longleftrightarrow> (\<exists>x. r = Inr x)"

lemma checked_simps [simp]: "checked (Inr x)" "\<not> checked (Inl e)"
  by (simp_all add: checked_def)

lemma ensure_Inr [simp]: "ensure b e = Inr u \<longleftrightarrow> b" "ensure b e = Inl e' \<longleftrightarrow> \<not> b \<and> e' = e"
  by (auto simp: ensure_def)

lemma ensure_simps [simp]: "ensure True e = Inr ()" "ensure False e = Inl e"
  by (simp_all add: ensure_def)

lemma each_Inr: "each f xs = Inr u \<longleftrightarrow> (\<forall>x \<in> set xs. f x = Inr ())"
  by (induction xs) (auto simp: res_bind_Inr)

lemma traverse_Inr: "traverse f xs = Inr ys \<longleftrightarrow> list_all2 (\<lambda>x y. f x = Inr y) xs ys"
  by (induction xs arbitrary: ys) (auto simp: res_bind_Inr list_all2_Cons1)

lemma traverse_map: "(\<And>x. x \<in> set xs \<Longrightarrow> f (g x) = Inr x) \<Longrightarrow> traverse f (map g xs) = Inr xs"
  by (induction xs) auto

section \<open>Datetimes\<close>

text \<open>
  An instant in seconds since the epoch, with or without a UTC offset attached.  Subtracting a naive
  datetime from an aware one raises \<open>TypeError\<close>; the code normalises with \<open>replace(tzinfo=UTC)\<close>.
\<close>

datatype py_datetime = Aware int | Naive int

fun instant :: "py_datetime \<Rightarrow> int" where
  "instant (Aware t) = t"
| "instant (Naive t) = t"

fun minus_aware :: "int \<Rightarrow> py_datetime \<Rightarrow> exn + int" where
  "minus_aware now (Aware t) = Inr (now - t)"
| "minus_aware now (Naive t) = Inl PyTypeError"

section \<open>Strings\<close>

text \<open>The \<open>str\<close> methods the code uses: \<open>startswith\<close>, \<open>endswith\<close>, \<open>strip(c)\<close>, \<open>split(c)\<close>, \<open>partition(c)\<close>, and \<open>p in s\<close>.\<close>

fun has_prefix :: "string \<Rightarrow> string \<Rightarrow> bool" where
  "has_prefix [] s = True"
| "has_prefix (c # cs) [] = False"
| "has_prefix (c # cs) (d # ds) = (c = d \<and> has_prefix cs ds)"

definition has_suffix :: "string \<Rightarrow> string \<Rightarrow> bool" where
  "has_suffix suf s = has_prefix (rev suf) (rev s)"

fun is_substring :: "string \<Rightarrow> string \<Rightarrow> bool" where
  "is_substring p [] = (p = [])"
| "is_substring p (c # s) = (has_prefix p (c # s) \<or> is_substring p s)"

definition ascii_upper :: "string \<Rightarrow> string" where
  "ascii_upper s = map (\<lambda>c. if 97 \<le> (of_char c :: nat) \<and> (of_char c :: nat) \<le> 122 then char_of (of_char c - 32 :: nat) else c) s"

definition ascii_lower :: "string \<Rightarrow> string" where
  "ascii_lower s = map (\<lambda>c. if 65 \<le> (of_char c :: nat) \<and> (of_char c :: nat) \<le> 90 then char_of (of_char c + 32 :: nat) else c) s"

definition strip_char :: "char \<Rightarrow> string \<Rightarrow> string" where
  "strip_char c s = rev (dropWhile (\<lambda>x. x = c) (rev (dropWhile (\<lambda>x. x = c) s)))"

fun split_char :: "char \<Rightarrow> string \<Rightarrow> string list" where
  "split_char c [] = [[]]"
| "split_char c (x # s) = (if x = c then [] # split_char c s
     else case split_char c s of [] \<Rightarrow> [[x]] | w # ws \<Rightarrow> (x # w) # ws)"

fun join_with :: "string \<Rightarrow> string list \<Rightarrow> string" where
  "join_with sep [] = []"
| "join_with sep [w] = w"
| "join_with sep (w # ws) = w @ sep @ join_with sep ws"

fun partition_char :: "char \<Rightarrow> string \<Rightarrow> string \<times> string \<times> string" where
  "partition_char c [] = ([], [], [])"
| "partition_char c (x # s) = (if x = c then ([], [c], s)
     else case partition_char c s of (a, b, d) \<Rightarrow> (x # a, b, d))"

text \<open>\<open>str.strip()\<close> removes Python's white space, of which these are the 8-bit characters.\<close>

definition is_py_space :: "char \<Rightarrow> bool" where
  "is_py_space c \<longleftrightarrow> (of_char c :: nat) \<in> {9, 10, 11, 12, 13, 28, 29, 30, 31, 32, 133, 160}"

definition strip_ws :: "string \<Rightarrow> string" where
  "strip_ws s = rev (dropWhile is_py_space (rev (dropWhile is_py_space s)))"

section \<open>Association lists\<close>

lemma map_of_alist_update [simp]: "map_of (AList.update k v m) = (map_of m)(k \<mapsto> v)"
  by (simp add: update_conv')

lemma map_of_alist_delete [simp]: "map_of (AList.delete k m) = (map_of m)(k := None)"
  by (simp add: delete_conv')

lemma map_of_fold_delete:
  "map_of (fold AList.delete ks m) = (\<lambda>k. if k \<in> set ks then None else map_of m k)"
  by (induction ks arbitrary: m) (auto simp: fun_eq_iff)

lemma distinct_fold_delete: "distinct (map fst m) \<Longrightarrow> distinct (map fst (fold AList.delete ks m))"
  by (induction ks arbitrary: m) (auto simp: distinct_delete)

lemma map_of_rev_distinct: "distinct (map fst m) \<Longrightarrow> map_of (rev m) = map_of m"
proof (induction m)
  case (Cons x m)
  then have "map_of m (fst x) = None" by (simp add: map_of_eq_None_iff)
  with Cons show ?case by (auto simp: map_of_append map_add_def fun_eq_iff split: option.split)
qed simp

lemma length_alist_update: "length (AList.update k v m) \<le> Suc (length m)"
  by (induction m) auto

lemma sum_list_alist_filter:
  "sum_list (map f (filter P xs)) + sum_list (map f (filter (\<lambda>x. \<not> P x) xs)) = sum_list (map f xs)"
  for f :: "'a \<Rightarrow> int"
  by (induction xs) auto

section \<open>Lists\<close>

lemma length_filter_mono:
  "(\<And>x. x \<in> set xs \<Longrightarrow> P x \<Longrightarrow> Q x) \<Longrightarrow> length (filter P xs) \<le> length (filter Q xs)"
  by (induction xs) (auto simp: le_Suc_eq)

lemma sorted_le_last: "sorted xs \<Longrightarrow> x \<in> set xs \<Longrightarrow> x \<le> last xs"
  for xs :: "'a :: linorder list"
  by (induction xs) auto

text \<open>A symmetric relation that holds between all pairs of a list does so in every order of it.\<close>

lemma pairwise_mset:
  assumes "\<And>a b. R a b = R b a" "mset xs = mset ys" "sorted_wrt R xs"
  shows "sorted_wrt R ys"
  using assms(2,3)
proof (induction xs arbitrary: ys)
  case (Cons x xs)
  from Cons.prems(1) obtain a b where ys: "ys = a @ x # b"
    by (metis in_set_conv_decomp list.set_intros(1) set_mset_mset)
  with Cons.prems(1) have "mset xs = mset (a @ b)" by simp
  moreover from this have "set xs = set (a @ b)" by (metis set_mset_mset)
  ultimately have "sorted_wrt R (a @ b)" "\<forall>y \<in> set (a @ b). R x y" using Cons.IH Cons.prems(2) by auto
  with ys assms(1) show ?case by (auto simp: sorted_wrt_append)
qed simp

section \<open>Stable sorting\<close>

text \<open>\<^const>\<open>sort_key\<close> is Python's \<open>sorted(key=...)\<close>: sorted by key, stable.\<close>

lemma sort_key_is_sorted_and_stable:
  "sorted (map f (sort_key f xs)) \<and> filter (\<lambda>y. f y = k) (sort_key f xs) = filter (\<lambda>y. f y = k) xs"
  by (simp add: stable_sort_key_sort_key [unfolded stable_sort_key_def])

end
