(* ===== verification/Bounded_Hold.thy ===== *)
theory Bounded_Hold
  imports Prelude
begin

text \<open>
  The bounded, expiring, keyed hold of federation/bounded_hold.py: the bookkeeping both inbound
  wait buffers share. A held entry carries its sender, its size and the time it expires; the hold
  is capped in entries, entries per key, entries and bytes per sending household, and total bytes.
  The monotonic clock is read by each operation, so its readings are arguments (in ticks): \<open>purge\<close>
  reads it once, \<open>hold\<close> once for the purge and once for the new entry's expiry.

  The interface the wait buffers rely on is the locale \<open>hold_buffer\<close>: what is handed back was put
  in, under one of the keys asked for, and leaves the buffer. It is interpreted on the model below.
\<close>

section \<open>State\<close>

text \<open>\<open>HoldKey\<close>: the space, the kind of state waited for, and its id.\<close>

datatype hold_key = HoldKey (hk_space: string) (hk_kind: string) (hk_id: string)

record ('a, 't) held =
  h_entry :: 'a
  h_token :: 't
  h_sender :: string
  h_size :: nat
  h_expires_at :: int

type_synonym ('a, 't) buckets = "(hold_key \<times> ('a, 't) held list) list"

record ('a, 't) bounded_hold =
  bh_by_key :: "('a, 't) buckets"
  bh_ttl :: int
  bh_max_entries :: nat
  bh_max_per_key :: nat
  bh_max_per_sender :: nat
  bh_max_bytes :: int
  bh_max_bytes_per_sender :: "int option"
  bh_max_entry_bytes :: "int option"
  bh_bytes :: int

definition bh_new ::
  "int \<Rightarrow> nat \<Rightarrow> nat \<Rightarrow> nat \<Rightarrow> int \<Rightarrow> int option \<Rightarrow> int option \<Rightarrow> ('a, 't) bounded_hold" where
  "bh_new ttl max_entries max_per_key max_per_sender max_bytes max_bytes_per_sender max_entry_bytes =
     \<lparr>bh_by_key = [], bh_ttl = ttl, bh_max_entries = max_entries, bh_max_per_key = max_per_key,
      bh_max_per_sender = max_per_sender, bh_max_bytes = max_bytes,
      bh_max_bytes_per_sender = max_bytes_per_sender, bh_max_entry_bytes = max_entry_bytes,
      bh_bytes = 0\<rparr>"

section \<open>Operations\<close>

definition bh_all :: "('a, 't) buckets \<Rightarrow> ('a, 't) held list" where
  "bh_all bs = concat (map snd bs)"

definition bh_len :: "('a, 't) bounded_hold \<Rightarrow> nat" where
  "bh_len b = sum_list (map (length \<circ> snd) (bh_by_key b))"

fun bh_held_from_loop :: "string \<Rightarrow> ('a, 't) held list \<Rightarrow> nat \<times> int \<Rightarrow> nat \<times> int" where
  "bh_held_from_loop sender [] (entries, nbytes) = (entries, nbytes)"
| "bh_held_from_loop sender (h # hs) (entries, nbytes) =
     (if h_sender h = sender then bh_held_from_loop sender hs (entries + 1, nbytes + int (h_size h))
      else bh_held_from_loop sender hs (entries, nbytes))"

definition bh_held_from :: "('a, 't) bounded_hold \<Rightarrow> string \<Rightarrow> nat \<times> int" where
  "bh_held_from b sender = bh_held_from_loop sender (bh_all (bh_by_key b)) (0, 0)"

text \<open>
  \<open>purge\<close> goes over a snapshot of the keys; each round only touches its own key, so the rebuilt
  dict is computed bucket by bucket, with the bytes still held and the entries \<open>on_expire\<close> is told
  about.
\<close>

fun bh_purge_loop ::
  "int \<Rightarrow> ('a, 't) buckets \<Rightarrow> int \<Rightarrow> ('a, 't) buckets \<times> int \<times> (hold_key \<times> 'a) list" where
  "bh_purge_loop now [] bytes = ([], bytes, [])"
| "bh_purge_loop now ((k, bucket) # bs) bytes =
     (let live = filter (\<lambda>h. now < h_expires_at h) bucket;
          dead = filter (\<lambda>h. h_expires_at h \<le> now) bucket;
          (bs', bytes', expired) = bh_purge_loop now bs (bytes - sum_list (map (int \<circ> h_size) dead))
      in (if live = [] then bs' else (k, live) # bs', bytes', map (\<lambda>h. (k, h_entry h)) dead @ expired))"

definition bh_purge :: "int \<Rightarrow> ('a, 't) bounded_hold \<Rightarrow> ('a, 't) bounded_hold" where
  "bh_purge now b =
     (case bh_purge_loop now (bh_by_key b) (bh_bytes b) of
        (bs, bytes, _) \<Rightarrow> b\<lparr>bh_by_key := bs, bh_bytes := bytes\<rparr>)"

definition bh_bucket :: "('a, 't) buckets \<Rightarrow> hold_key \<Rightarrow> ('a, 't) held list" where
  "bh_bucket bs key = (case map_of bs key of None \<Rightarrow> [] | Some l \<Rightarrow> l)"

definition bh_over_bounds ::
  "('a, 't) bounded_hold \<Rightarrow> ('a, 't) held list \<Rightarrow> string \<Rightarrow> nat \<Rightarrow> bool" where
  "bh_over_bounds b bucket sender nbytes =
     (case bh_held_from b sender of (sender_entries, sender_bytes) \<Rightarrow>
        bh_max_per_sender b \<le> sender_entries
        \<or> (case bh_max_bytes_per_sender b of None \<Rightarrow> False | Some m \<Rightarrow> m < sender_bytes + int nbytes)
        \<or> bh_max_entries b \<le> bh_len b
        \<or> bh_max_per_key b \<le> length bucket
        \<or> bh_max_bytes b < bh_bytes b + int nbytes)"

definition bh_hold ::
  "int \<Rightarrow> int \<Rightarrow> hold_key \<Rightarrow> 'a \<Rightarrow> 't \<Rightarrow> string \<Rightarrow> nat \<Rightarrow> ('a, 't) bounded_hold
    \<Rightarrow> ('a, 't) bounded_hold \<times> bool" where
  "bh_hold now_purge now_store key entry token sender nbytes b0 =
     (let b = bh_purge now_purge b0;
          bucket = bh_bucket (bh_by_key b) key
      in if (\<exists>h \<in> set bucket. h_token h = token) then (b, True)
         else if (case bh_max_entry_bytes b of None \<Rightarrow> False | Some m \<Rightarrow> m < int nbytes) then (b, False)
         else if bh_over_bounds b bucket sender nbytes then (b, False)
         else (b\<lparr>bh_by_key := AList.update key
                    (bucket @ [\<lparr>h_entry = entry, h_token = token, h_sender = sender,
                                h_size = nbytes, h_expires_at = now_store + bh_ttl b\<rparr>])
                    (bh_by_key b),
                 bh_bytes := bh_bytes b + int nbytes\<rparr>, True))"

fun bh_pop_keys ::
  "hold_key list \<Rightarrow> ('a, 't) buckets \<Rightarrow> ('a, 't) buckets \<times> ('a, 't) held list" where
  "bh_pop_keys [] bs = (bs, [])"
| "bh_pop_keys (k # ks) bs =
     (case bh_pop_keys ks (AList.delete k bs) of (bs', out) \<Rightarrow> (bs', bh_bucket bs k @ out))"

definition bh_release ::
  "int \<Rightarrow> hold_key list \<Rightarrow> ('a, 't) bounded_hold \<Rightarrow> ('a, 't) bounded_hold \<times> ('a, 't) held list" where
  "bh_release now keys b0 =
     (let b = bh_purge now b0
      in case bh_pop_keys keys (bh_by_key b) of (bs, out) \<Rightarrow>
           (b\<lparr>bh_by_key := bs, bh_bytes := bh_bytes b - sum_list (map (int \<circ> h_size) out)\<rparr>,
            sort_key h_expires_at out))"

section \<open>Basic facts\<close>

lemma bh_all_simps [simp]:
  "bh_all [] = []" "bh_all ((k, l) # bs) = l @ bh_all bs"
  by (simp_all add: bh_all_def)

lemma bh_len_all: "bh_len b = length (bh_all (bh_by_key b))"
  by (simp add: bh_len_def bh_all_def length_concat comp_def)

lemma bh_held_from_loop_eq:
  "bh_held_from_loop s hs (n, z) =
     (n + length (filter (\<lambda>h. h_sender h = s) hs),
      z + sum_list (map (int \<circ> h_size) (filter (\<lambda>h. h_sender h = s) hs)))"
  by (induction hs arbitrary: n z) auto

lemma bh_held_from_eq:
  "bh_held_from b s =
     (length (filter (\<lambda>h. h_sender h = s) (bh_all (bh_by_key b))),
      sum_list (map (int \<circ> h_size) (filter (\<lambda>h. h_sender h = s) (bh_all (bh_by_key b)))))"
  by (simp add: bh_held_from_def bh_held_from_loop_eq)

section \<open>Content and invariant\<close>

text \<open>
  The abstraction of a hold is the multiset of its \<open>(key, record)\<close> pairs. Every bound the code
  promises is a bound on a part of that multiset, so it survives any removal; \<open>bh_caps\<close> states them
  all, the tokens' uniqueness under a key included.
\<close>

definition bh_pairs :: "('a, 't) buckets \<Rightarrow> (hold_key \<times> ('a, 't) held) multiset" where
  "bh_pairs bs = sum_list (map (\<lambda>(k, l). image_mset (Pair k) (mset l)) bs)"

definition bh_content :: "('a, 't) bounded_hold \<Rightarrow> (hold_key \<times> ('a, 't) held) multiset" where
  "bh_content b = bh_pairs (bh_by_key b)"

definition pairs_size :: "(hold_key \<times> ('a, 't) held) multiset \<Rightarrow> nat" where
  "pairs_size M = sum_mset (image_mset (\<lambda>p. h_size (snd p)) M)"

definition from_sender :: "string \<Rightarrow> (hold_key \<times> ('a, 't) held) multiset \<Rightarrow> (hold_key \<times> ('a, 't) held) multiset" where
  "from_sender s M = filter_mset (\<lambda>p. h_sender (snd p) = s) M"

definition under_key :: "hold_key \<Rightarrow> (hold_key \<times> ('a, 't) held) multiset \<Rightarrow> (hold_key \<times> ('a, 't) held) multiset" where
  "under_key k M = filter_mset (\<lambda>p. fst p = k) M"

fun opt_le :: "int \<Rightarrow> int option \<Rightarrow> bool" where
  "opt_le n None = True"
| "opt_le n (Some m) = (n \<le> m)"

definition bh_caps :: "('a, 't) bounded_hold \<Rightarrow> (hold_key \<times> ('a, 't) held) multiset \<Rightarrow> bool" where
  "bh_caps b M \<longleftrightarrow>
     size M \<le> bh_max_entries b
     \<and> int (pairs_size M) \<le> bh_max_bytes b
     \<and> (\<forall>k. size (under_key k M) \<le> bh_max_per_key b)
     \<and> (\<forall>s. size (from_sender s M) \<le> bh_max_per_sender b)
     \<and> (\<forall>s. opt_le (int (pairs_size (from_sender s M))) (bh_max_bytes_per_sender b))
     \<and> (\<forall>p. p \<in># M \<longrightarrow> opt_le (int (h_size (snd p))) (bh_max_entry_bytes b))
     \<and> (\<forall>k t. size (filter_mset (\<lambda>p. h_token (snd p) = t) (under_key k M)) \<le> 1)"

definition wf_buckets :: "('a, 't) buckets \<Rightarrow> bool" where
  "wf_buckets bs \<longleftrightarrow> distinct (map fst bs) \<and> list_all (\<lambda>kl. snd kl \<noteq> []) bs"

definition bh_inv :: "('a, 't) bounded_hold \<Rightarrow> bool" where
  "bh_inv b \<longleftrightarrow> wf_buckets (bh_by_key b)
     \<and> bh_bytes b = int (pairs_size (bh_content b))
     \<and> bh_caps b (bh_content b)"

subsection \<open>Measures of the content\<close>

lemma pairs_size_simps [simp]:
  "pairs_size {#} = 0"
  "pairs_size (add_mset p M) = h_size (snd p) + pairs_size M"
  "pairs_size (M + N) = pairs_size M + pairs_size N"
  by (simp_all add: pairs_size_def)

lemma from_sender_simps [simp]:
  "from_sender s {#} = {#}"
  "from_sender s (M + N) = from_sender s M + from_sender s N"
  "from_sender s (add_mset p M) = (if h_sender (snd p) = s then add_mset p (from_sender s M) else from_sender s M)"
  by (simp_all add: from_sender_def)

lemma under_key_simps [simp]:
  "under_key k {#} = {#}"
  "under_key k (M + N) = under_key k M + under_key k N"
  "under_key k (add_mset p M) = (if fst p = k then add_mset p (under_key k M) else under_key k M)"
  by (simp_all add: under_key_def)

lemma pairs_size_mono: "M \<subseteq># N \<Longrightarrow> pairs_size M \<le> pairs_size N"
  by (auto simp: mset_subset_eq_exists_conv)

lemma opt_le_mono: "opt_le n m \<Longrightarrow> k \<le> n \<Longrightarrow> opt_le k m"
  by (cases m) auto

lemma from_sender_mono: "M \<subseteq># N \<Longrightarrow> from_sender s M \<subseteq># from_sender s N"
  by (simp add: from_sender_def multiset_filter_mono)

lemma under_key_mono: "M \<subseteq># N \<Longrightarrow> under_key k M \<subseteq># under_key k N"
  by (simp add: under_key_def multiset_filter_mono)

lemma bh_caps_mono:
  assumes c: "bh_caps b N" and sub: "M \<subseteq># N"
  shows "bh_caps b M"
proof -
  have le: "size (under_key k M) \<le> size (under_key k N)"
    "size (from_sender s M) \<le> size (from_sender s N)"
    "int (pairs_size (from_sender s M)) \<le> int (pairs_size (from_sender s N))"
    "size (filter_mset P (under_key k M)) \<le> size (filter_mset P (under_key k N))"
    "size M \<le> size N" "int (pairs_size M) \<le> int (pairs_size N)" for k s P
    using sub
    by (simp_all add: size_mset_mono pairs_size_mono from_sender_mono under_key_mono multiset_filter_mono)
  have inN: "p \<in># N" if "p \<in># M" for p
    using sub that by (rule mset_subset_eqD)
  show ?thesis
    unfolding bh_caps_def
    using c [unfolded bh_caps_def] le inN
    by (intro conjI; elim conjE) (meson le_trans order_trans opt_le_mono)+
qed

lemma bh_capsD:
  assumes "bh_caps b M"
  shows "size M \<le> bh_max_entries b"
    and "int (pairs_size M) \<le> bh_max_bytes b"
    and "size (under_key k M) \<le> bh_max_per_key b"
    and "size (from_sender s M) \<le> bh_max_per_sender b"
    and "opt_le (int (pairs_size (from_sender s M))) (bh_max_bytes_per_sender b)"
    and "p \<in># M \<Longrightarrow> opt_le (int (h_size (snd p))) (bh_max_entry_bytes b)"
    and "size (filter_mset (\<lambda>p. h_token (snd p) = t) (under_key k M)) \<le> 1"
  using assms unfolding bh_caps_def by blast+

lemma bh_caps_cong:
  assumes "bh_max_entries b' = bh_max_entries b" "bh_max_bytes b' = bh_max_bytes b"
    "bh_max_per_key b' = bh_max_per_key b" "bh_max_per_sender b' = bh_max_per_sender b"
    "bh_max_bytes_per_sender b' = bh_max_bytes_per_sender b"
    "bh_max_entry_bytes b' = bh_max_entry_bytes b"
  shows "bh_caps b' M = bh_caps b M"
  using assms by (simp add: bh_caps_def)

subsection \<open>The buckets as a multiset of pairs\<close>

lemma bh_pairs_simps [simp]:
  "bh_pairs [] = {#}"
  "bh_pairs ((k, l) # bs) = image_mset (Pair k) (mset l) + bh_pairs bs"
  by (simp_all add: bh_pairs_def)

lemma under_key_image_Pair:
  "under_key k (image_mset (Pair k') (mset l)) = (if k = k' then image_mset (Pair k) (mset l) else {#})"
  by (induction l) auto

lemma under_key_notin: "k \<notin> fst ` set bs \<Longrightarrow> under_key k (bh_pairs bs) = {#}"
  by (induction bs) (auto simp: under_key_image_Pair)

lemma under_key_bucket:
  "distinct (map fst bs) \<Longrightarrow> under_key k (bh_pairs bs) = image_mset (Pair k) (mset (bh_bucket bs k))"
  by (induction bs) (auto simp: under_key_image_Pair under_key_notin bh_bucket_def)

lemma bh_pairs_delete:
  "distinct (map fst bs) \<Longrightarrow>
     bh_pairs bs = image_mset (Pair k) (mset (bh_bucket bs k)) + bh_pairs (AList.delete k bs)"
proof (induction bs)
  case Nil
  then show ?case by (simp add: bh_bucket_def)
next
  case (Cons p bs)
  show ?case
  proof (cases "fst p = k")
    case True
    with Cons.prems have "k \<notin> fst ` set bs" by auto
    then have "AList.delete k bs = bs" by (simp add: delete_idem)
    with True show ?thesis by (cases p) (simp add: bh_bucket_def)
  next
    case False
    with Cons show ?thesis by (cases p) (simp add: bh_bucket_def)
  qed
qed

lemma bh_pairs_append_entry:
  "distinct (map fst bs) \<Longrightarrow>
     bh_pairs (AList.update k (bh_bucket bs k @ [h]) bs) = add_mset (k, h) (bh_pairs bs)"
proof (induction bs)
  case Nil
  then show ?case by (simp add: bh_bucket_def)
next
  case (Cons p bs)
  then show ?case by (cases p) (auto simp: bh_bucket_def split: option.splits)
qed

lemma list_all_update:
  "list_all (\<lambda>kl. snd kl \<noteq> []) bs \<Longrightarrow> l \<noteq> [] \<Longrightarrow> list_all (\<lambda>kl. snd kl \<noteq> []) (AList.update k l bs)"
  by (induction bs) auto

lemma wf_buckets_update: "wf_buckets bs \<Longrightarrow> l \<noteq> [] \<Longrightarrow> wf_buckets (AList.update k l bs)"
  by (simp add: wf_buckets_def distinct_update list_all_update)

lemma wf_buckets_delete: "wf_buckets bs \<Longrightarrow> wf_buckets (AList.delete k bs)"
  by (auto simp: wf_buckets_def AList.delete_eq list_all_iff distinct_map_filter)

section \<open>What each operation does to the content\<close>

lemma bucket_bytes_split:
  "sum_list (map (int \<circ> h_size) (filter (\<lambda>h. h_expires_at h \<le> now) l))
     + int (pairs_size (image_mset (Pair k) (mset (filter (\<lambda>h. now < h_expires_at h) l))))
   = int (pairs_size (image_mset (Pair k) (mset l)))"
  by (induction l) auto

lemma bucket_live_filter:
  "filter_mset (\<lambda>p. now < h_expires_at (snd p)) (image_mset (Pair k) (mset l))
     = image_mset (Pair k) (mset (filter (\<lambda>h. now < h_expires_at h) l))"
  by (induction l) auto

lemma bh_purge_loop_pairs:
  "bh_purge_loop now bs z = (bs', z', ex) \<Longrightarrow>
     bh_pairs bs' = filter_mset (\<lambda>p. now < h_expires_at (snd p)) (bh_pairs bs)
     \<and> z' - int (pairs_size (bh_pairs bs')) = z - int (pairs_size (bh_pairs bs))"
proof (induction bs arbitrary: z bs' z' ex)
  case Nil
  then show ?case by simp
next
  case (Cons p bs)
  obtain k l where p: "p = (k, l)" by (cases p)
  let ?live = "filter (\<lambda>h. now < h_expires_at h) l"
  let ?dead = "filter (\<lambda>h. h_expires_at h \<le> now) l"
  obtain bs1 z1 ex1 where r: "bh_purge_loop now bs (z - sum_list (map (int \<circ> h_size) ?dead)) = (bs1, z1, ex1)"
    by (metis prod_cases3)
  note IH = Cons.IH [OF r]
  from Cons.prems p r have "bs' = (if ?live = [] then bs1 else (k, ?live) # bs1)" and "z' = z1"
    by (auto simp: Let_def)
  then have "bh_pairs bs' = image_mset (Pair k) (mset ?live) + bh_pairs bs1"
    by (auto simp del: mset_filter)
  then have eq: "bh_pairs bs' = image_mset (Pair k) (mset ?live) + bh_pairs bs1" .
  have "bh_pairs bs' = filter_mset (\<lambda>p. now < h_expires_at (snd p)) (bh_pairs (p # bs))"
    unfolding eq using IH p by (simp add: bucket_live_filter del: mset_filter)
  moreover have "z' - int (pairs_size (bh_pairs bs')) = z - int (pairs_size (bh_pairs (p # bs)))"
    unfolding eq using conjunct2 [OF IH] p \<open>z' = z1\<close> bucket_bytes_split [of now l k]
    by (simp del: mset_filter)
  ultimately show ?case by blast
qed

lemma bh_purge_loop_wf:
  "bh_purge_loop now bs z = (bs', z', ex) \<Longrightarrow> wf_buckets bs \<Longrightarrow> wf_buckets bs' \<and> fst ` set bs' \<subseteq> fst ` set bs"
proof (induction bs arbitrary: z bs' z' ex)
  case Nil
  then show ?case by simp
next
  case (Cons p bs)
  obtain k l where p: "p = (k, l)" by (cases p)
  let ?dead = "filter (\<lambda>h. h_expires_at h \<le> now) l"
  obtain bs1 z1 ex1 where r: "bh_purge_loop now bs (z - sum_list (map (int \<circ> h_size) ?dead)) = (bs1, z1, ex1)"
    by (metis prod_cases3)
  from Cons.prems(2) p have "wf_buckets bs" and new: "k \<notin> fst ` set bs"
    by (auto simp: wf_buckets_def)
  with Cons.IH [OF r] have IH: "wf_buckets bs1" "fst ` set bs1 \<subseteq> fst ` set bs"
    by auto
  from Cons.prems(1) p r
  have "bs' = bs1 \<or> (bs' = (k, filter (\<lambda>h. now < h_expires_at h) l) # bs1 \<and> filter (\<lambda>h. now < h_expires_at h) l \<noteq> [])"
    by (auto simp: Let_def split: if_splits)
  moreover have "k \<notin> fst ` set bs1" using IH(2) new by blast
  ultimately show ?case using IH p
    by (elim disjE conjE) (simp_all add: wf_buckets_def subset_insertI2 insert_mono)
qed

definition bh_live :: "int \<Rightarrow> hold_key \<times> ('a, 't) held \<Rightarrow> bool" where
  "bh_live now p \<longleftrightarrow> now < h_expires_at (snd p)"

lemma bh_live_abs: "bh_live now = (\<lambda>p. now < h_expires_at (snd p))"
  by (simp add: bh_live_def fun_eq_iff)

lemma bh_content_purge: "bh_content (bh_purge now b) = filter_mset (bh_live now) (bh_content b)"
  using bh_purge_loop_pairs [of now "bh_by_key b" "bh_bytes b"]
  by (cases "bh_purge_loop now (bh_by_key b) (bh_bytes b)") (simp add: bh_purge_def bh_content_def bh_live_abs)

lemma bh_purge_config [simp]:
  "bh_ttl (bh_purge now b) = bh_ttl b"
  "bh_max_entries (bh_purge now b) = bh_max_entries b"
  "bh_max_per_key (bh_purge now b) = bh_max_per_key b"
  "bh_max_per_sender (bh_purge now b) = bh_max_per_sender b"
  "bh_max_bytes (bh_purge now b) = bh_max_bytes b"
  "bh_max_bytes_per_sender (bh_purge now b) = bh_max_bytes_per_sender b"
  "bh_max_entry_bytes (bh_purge now b) = bh_max_entry_bytes b"
  by (simp_all add: bh_purge_def split: prod.splits)

lemma bh_purge_bytes:
  assumes "bh_bytes b = int (pairs_size (bh_content b))"
  shows "bh_bytes (bh_purge now b) = int (pairs_size (bh_content (bh_purge now b)))"
proof -
  obtain bs z ex where r: "bh_purge_loop now (bh_by_key b) (bh_bytes b) = (bs, z, ex)"
    by (metis prod_cases3)
  with bh_purge_loop_pairs [OF r] assms show ?thesis
    by (simp add: bh_purge_def bh_content_def)
qed

lemma bh_purge_wf: "wf_buckets (bh_by_key b) \<Longrightarrow> wf_buckets (bh_by_key (bh_purge now b))"
  using bh_purge_loop_wf [of now "bh_by_key b" "bh_bytes b"]
  by (cases "bh_purge_loop now (bh_by_key b) (bh_bytes b)") (simp add: bh_purge_def)

lemma bh_caps_purge [simp]: "bh_caps (bh_purge now b) M = bh_caps b M"
  by (rule bh_caps_cong) simp_all

lemma bh_inv_purge [inv_intros]: "bh_inv b \<Longrightarrow> bh_inv (bh_purge now b)"
  by (auto simp: bh_inv_def bh_purge_bytes bh_purge_wf
      intro: bh_caps_mono [where N = "bh_content b"] simp: bh_content_purge)

lemma bh_all_content: "mset (bh_all bs) = image_mset snd (bh_pairs bs)"
  by (induction bs) (auto simp: image_mset.compositionality comp_def simp del: split_paired_All)

lemma bh_len_content: "bh_len b = size (bh_content b)"
  unfolding bh_len_all bh_content_def by (metis bh_all_content size_image_mset size_mset)

lemma pairs_size_list:
  "sum_list (map (int \<circ> h_size) l) = int (pairs_size (image_mset (Pair k) (mset l)))"
  by (induction l) auto

lemma pairs_size_image: "pairs_size M = sum_mset (image_mset h_size (image_mset snd M))"
  by (simp add: pairs_size_def image_mset.compositionality comp_def)

lemma sum_sizes_list: "int (sum_mset (image_mset h_size (mset l))) = sum_list (map (int \<circ> h_size) l)"
  by (induction l) auto

lemma pairs_size_snd: "image_mset snd M = mset l \<Longrightarrow> int (pairs_size M) = sum_list (map (int \<circ> h_size) l)"
  by (simp only: pairs_size_image sum_sizes_list)

lemma bh_held_from_content:
  "bh_held_from b s = (size (from_sender s (bh_content b)), int (pairs_size (from_sender s (bh_content b))))"
proof -
  have eq: "image_mset snd (from_sender s (bh_content b)) = mset (filter (\<lambda>h. h_sender h = s) (bh_all (bh_by_key b)))"
    unfolding from_sender_def bh_content_def mset_filter bh_all_content filter_mset_image_mset
    by (simp add: comp_def)
  from eq have "size (from_sender s (bh_content b)) = length (filter (\<lambda>h. h_sender h = s) (bh_all (bh_by_key b)))"
    by (metis size_image_mset size_mset)
  with pairs_size_snd [OF eq] show ?thesis
    by (simp add: bh_held_from_eq)
qed

lemma bh_hold_cases:
  obtains (duplicate) "snd (bh_hold n1 n2 k e t s z b)" "fst (bh_hold n1 n2 k e t s z b) = bh_purge n1 b"
      "\<exists>h \<in> set (bh_bucket (bh_by_key (bh_purge n1 b)) k). h_token h = t"
  | (refused) "\<not> snd (bh_hold n1 n2 k e t s z b)" "fst (bh_hold n1 n2 k e t s z b) = bh_purge n1 b"
      "\<not> (\<exists>h \<in> set (bh_bucket (bh_by_key (bh_purge n1 b)) k). h_token h = t)"
      "\<not> opt_le (int z) (bh_max_entry_bytes b)
        \<or> bh_over_bounds (bh_purge n1 b) (bh_bucket (bh_by_key (bh_purge n1 b)) k) s z"
  | (stored) "snd (bh_hold n1 n2 k e t s z b)"
      "\<not> (\<exists>h \<in> set (bh_bucket (bh_by_key (bh_purge n1 b)) k). h_token h = t)"
      "opt_le (int z) (bh_max_entry_bytes b)"
      "\<not> bh_over_bounds (bh_purge n1 b) (bh_bucket (bh_by_key (bh_purge n1 b)) k) s z"
      "fst (bh_hold n1 n2 k e t s z b) = (bh_purge n1 b)
        \<lparr>bh_by_key := AList.update k (bh_bucket (bh_by_key (bh_purge n1 b)) k
            @ [\<lparr>h_entry = e, h_token = t, h_sender = s, h_size = z, h_expires_at = n2 + bh_ttl b\<rparr>])
            (bh_by_key (bh_purge n1 b)),
         bh_bytes := bh_bytes (bh_purge n1 b) + int z\<rparr>"
proof -
  have le: "(case m of None \<Rightarrow> False | Some v \<Rightarrow> v < int z) \<longleftrightarrow> \<not> opt_le (int z) m" for m
    by (cases m) auto
  let ?p = "bh_purge n1 b"
  let ?bk = "bh_bucket (bh_by_key ?p) k"
  consider "\<exists>h \<in> set ?bk. h_token h = t"
    | "\<not> (\<exists>h \<in> set ?bk. h_token h = t)" "\<not> opt_le (int z) (bh_max_entry_bytes b) \<or> bh_over_bounds ?p ?bk s z"
    | "\<not> (\<exists>h \<in> set ?bk. h_token h = t)" "opt_le (int z) (bh_max_entry_bytes b)" "\<not> bh_over_bounds ?p ?bk s z"
    by blast
  then show ?thesis
  proof cases
    case 1
    then show ?thesis by (intro duplicate) (simp_all add: bh_hold_def Let_def)
  next
    case 2
    then show ?thesis by (intro refused) (auto simp: bh_hold_def Let_def le)
  next
    case 3
    then show ?thesis by (intro stored) (simp_all add: bh_hold_def Let_def le)
  qed
qed

lemma bh_over_bounds_iff:
  assumes "wf_buckets (bh_by_key b)" and "bh_bytes b = int (pairs_size (bh_content b))"
  shows "bh_over_bounds b (bh_bucket (bh_by_key b) k) s z \<longleftrightarrow>
    \<not> (size (from_sender s (bh_content b)) < bh_max_per_sender b
      \<and> opt_le (int (pairs_size (from_sender s (bh_content b))) + int z) (bh_max_bytes_per_sender b)
      \<and> size (bh_content b) < bh_max_entries b
      \<and> size (under_key k (bh_content b)) < bh_max_per_key b
      \<and> int (pairs_size (bh_content b)) + int z \<le> bh_max_bytes b)"
proof -
  have "size (under_key k (bh_content b)) = length (bh_bucket (bh_by_key b) k)"
    using assms(1) by (simp add: bh_content_def under_key_bucket wf_buckets_def)
  moreover have "(case m of None \<Rightarrow> False | Some v \<Rightarrow> v < y) \<longleftrightarrow> \<not> opt_le y m" for m y
    by (cases m) auto
  ultimately show ?thesis
    by (auto simp: bh_over_bounds_def bh_held_from_content bh_len_content assms(2))
qed

text \<open>The whole effect of \<open>hold\<close> on the content, on every branch.\<close>

definition bh_accepts :: "('a, 't) bounded_hold \<Rightarrow> hold_key \<Rightarrow> string \<Rightarrow> nat \<Rightarrow> bool" where
  "bh_accepts b k s z \<longleftrightarrow>
     opt_le (int z) (bh_max_entry_bytes b)
     \<and> size (from_sender s (bh_content b)) < bh_max_per_sender b
     \<and> opt_le (int (pairs_size (from_sender s (bh_content b))) + int z) (bh_max_bytes_per_sender b)
     \<and> size (bh_content b) < bh_max_entries b
     \<and> size (under_key k (bh_content b)) < bh_max_per_key b
     \<and> int (pairs_size (bh_content b)) + int z \<le> bh_max_bytes b"

definition bh_waiting :: "('a, 't) bounded_hold \<Rightarrow> hold_key \<Rightarrow> 't \<Rightarrow> bool" where
  "bh_waiting b k t \<longleftrightarrow> (\<exists>h. (k, h) \<in># bh_content b \<and> h_token h = t)"

lemma bh_waiting_bucket:
  assumes "wf_buckets (bh_by_key b)"
  shows "bh_waiting b k t \<longleftrightarrow> (\<exists>h \<in> set (bh_bucket (bh_by_key b) k). h_token h = t)"
proof -
  have "bh_content b = bh_pairs (bh_by_key b)" by (simp add: bh_content_def)
  moreover have "under_key k (bh_pairs (bh_by_key b)) = image_mset (Pair k) (mset (bh_bucket (bh_by_key b) k))"
    using assms by (simp add: under_key_bucket wf_buckets_def)
  ultimately have "set_mset (under_key k (bh_content b)) = Pair k ` set (bh_bucket (bh_by_key b) k)"
    by simp
  moreover have "(k, h) \<in># bh_content b \<longleftrightarrow> (k, h) \<in># under_key k (bh_content b)" for h
    by (simp add: under_key_def)
  ultimately show ?thesis by (auto simp: bh_waiting_def)
qed

lemma bh_hold_outcome:
  assumes inv: "bh_inv b" and p_def: "p = bh_purge n1 b"
    and new_def: "new = \<lparr>h_entry = e, h_token = t, h_sender = s, h_size = z, h_expires_at = n2 + bh_ttl b\<rparr>"
  shows "snd (bh_hold n1 n2 k e t s z b) \<longleftrightarrow> bh_waiting p k t \<or> bh_accepts p k s z"
    and "bh_content (fst (bh_hold n1 n2 k e t s z b)) =
      (if \<not> bh_waiting p k t \<and> bh_accepts p k s z then add_mset (k, new) (bh_content p) else bh_content p)"
proof -
  have ip: "bh_inv p" unfolding p_def using inv by (rule bh_inv_purge)
  then have wf: "wf_buckets (bh_by_key p)" and bytes: "bh_bytes p = int (pairs_size (bh_content p))"
    by (simp_all add: bh_inv_def)
  note ob = bh_over_bounds_iff [OF wf bytes]
  note w = bh_waiting_bucket [OF wf]
  have eb: "bh_max_entry_bytes p = bh_max_entry_bytes b" by (simp add: p_def)
  have "(snd (bh_hold n1 n2 k e t s z b) \<longleftrightarrow> bh_waiting p k t \<or> bh_accepts p k s z)
    \<and> bh_content (fst (bh_hold n1 n2 k e t s z b)) =
      (if \<not> bh_waiting p k t \<and> bh_accepts p k s z then add_mset (k, new) (bh_content p) else bh_content p)"
  proof (cases rule: bh_hold_cases [of n1 n2 k e t s z b])
    case duplicate
    then show ?thesis by (simp add: w flip: p_def)
  next
    case refused
    then have "\<not> bh_accepts p k s z"
      by (auto simp: bh_accepts_def ob eb simp flip: p_def)
    with refused show ?thesis by (simp add: w flip: p_def)
  next
    case stored
    then have "bh_accepts p k s z"
      by (auto simp: bh_accepts_def ob eb simp flip: p_def)
    with stored wf show ?thesis
      by (simp add: w bh_content_def bh_pairs_append_entry wf_buckets_def new_def flip: p_def)
  qed
  then show "snd (bh_hold n1 n2 k e t s z b) \<longleftrightarrow> bh_waiting p k t \<or> bh_accepts p k s z"
    and "bh_content (fst (bh_hold n1 n2 k e t s z b)) =
      (if \<not> bh_waiting p k t \<and> bh_accepts p k s z then add_mset (k, new) (bh_content p) else bh_content p)"
    by blast+
qed

subsection \<open>Invariant of \<open>hold\<close>\<close>

lemma under_key_eq_filter: "under_key k M = {#p \<in># M. fst p = k#}"
  by (simp add: under_key_def)

lemma token_free:
  assumes "\<not> bh_waiting b k t"
  shows "filter_mset (\<lambda>p. h_token (snd p) = t) (under_key k (bh_content b)) = {#}"
  using assms by (force simp: bh_waiting_def under_key_def filter_mset_eq_conv filter_mset_eq_mempty_iff)

lemma bh_caps_add:
  assumes caps: "bh_caps b (bh_content b)" and acc: "bh_accepts b k (h_sender h) (h_size h)"
    and free: "\<not> bh_waiting b k (h_token h)"
  shows "bh_caps b (add_mset (k, h) (bh_content b))"
proof -
  have tok: "size (filter_mset (\<lambda>p. h_token (snd p) = t) (under_key k' (add_mset (k, h) (bh_content b)))) \<le> 1" for k' t
    using bh_capsD(7) [OF caps, of t k'] token_free [OF free] by auto
  have ent: "opt_le (int (h_size (snd p))) (bh_max_entry_bytes b)" if "p \<in># add_mset (k, h) (bh_content b)" for p
    using that bh_capsD(6) [OF caps, of p] acc by (auto simp: bh_accepts_def)
  have "size (under_key k' (add_mset (k, h) (bh_content b))) \<le> bh_max_per_key b"
    and "size (from_sender s (add_mset (k, h) (bh_content b))) \<le> bh_max_per_sender b"
    and "opt_le (int (pairs_size (from_sender s (add_mset (k, h) (bh_content b))))) (bh_max_bytes_per_sender b)" for k' s
    using bh_capsD(3) [OF caps, of k'] bh_capsD(4,5) [OF caps, of s] acc
    by (auto simp: bh_accepts_def add.commute)
  moreover have "size (add_mset (k, h) (bh_content b)) \<le> bh_max_entries b"
    and "int (pairs_size (add_mset (k, h) (bh_content b))) \<le> bh_max_bytes b"
    using acc by (simp_all add: bh_accepts_def)
  ultimately show ?thesis
    unfolding bh_caps_def using tok ent by blast
qed

lemma bh_inv_hold [inv_intros]:
  assumes "bh_inv b"
  shows "bh_inv (fst (bh_hold n1 n2 k e t s z b))"
proof -
  let ?p = "bh_purge n1 b"
  have ip: "bh_inv ?p" using assms by (rule bh_inv_purge)
  note content = bh_hold_outcome(2) [OF assms refl refl, of n1 n2 k e t s z]
  show ?thesis
  proof (cases rule: bh_hold_cases [of n1 n2 k e t s z b])
    case stored
    let ?h = "\<lparr>h_entry = e, h_token = t, h_sender = s, h_size = z, h_expires_at = n2 + bh_ttl b\<rparr>"
    let ?b' = "fst (bh_hold n1 n2 k e t s z b)"
    from ip have wf: "wf_buckets (bh_by_key ?p)" and bytes: "bh_bytes ?p = int (pairs_size (bh_content ?p))"
      and caps: "bh_caps ?p (bh_content ?p)" by (simp_all add: bh_inv_def)
    have free: "\<not> bh_waiting ?p k t"
      using stored(2) bh_waiting_bucket [OF wf] by simp
    have acc: "bh_accepts ?p k s z"
      using stored(3,4) by (simp add: bh_accepts_def bh_over_bounds_iff [OF wf bytes])
    have c: "bh_content ?b' = add_mset (k, ?h) (bh_content ?p)"
      using content free acc by simp
    have "bh_caps ?p (bh_content ?b')"
      unfolding c using caps acc free by (intro bh_caps_add) simp_all
    moreover have "bh_caps ?b' M = bh_caps ?p M" for M
      using stored(5) by (intro bh_caps_cong) simp_all
    moreover have "wf_buckets (bh_by_key ?b')"
      using stored(5) wf by (simp add: wf_buckets_update)
    moreover have "bh_bytes ?b' = int (pairs_size (bh_content ?b'))"
      unfolding c using stored(5) bytes by simp
    ultimately show ?thesis by (simp add: bh_inv_def)
  qed (use ip in simp_all)
qed

subsection \<open>\<open>release\<close>\<close>

lemma bh_pairs_alist_delete: "bh_pairs (AList.delete k bs) = filter_mset (\<lambda>p. fst p \<noteq> k) (bh_pairs bs)"
proof (induction bs)
  case Nil
  then show ?case by simp
next
  case (Cons p bs)
  have "filter_mset (\<lambda>p. fst p \<noteq> k) (image_mset (Pair k') (mset l)) = (if k' = k then {#} else image_mset (Pair k') (mset l))" for k' and l :: "('a, 'b) held list"
    by (induction l) auto
  with Cons show ?case by (cases p) simp
qed

lemma bh_pop_keys_spec:
  "bh_pop_keys ks bs = (bs', out) \<Longrightarrow> wf_buckets bs \<Longrightarrow>
     wf_buckets bs'
     \<and> bh_pairs bs' = filter_mset (\<lambda>p. fst p \<notin> set ks) (bh_pairs bs)
     \<and> mset out = image_mset snd (filter_mset (\<lambda>p. fst p \<in> set ks) (bh_pairs bs))"
proof (induction ks arbitrary: bs bs' out)
  case Nil
  then show ?case by simp
next
  case (Cons k ks)
  obtain out1 where r: "bh_pop_keys ks (AList.delete k bs) = (bs', out1)" and out: "out = bh_bucket bs k @ out1"
    using Cons.prems(1) by (auto split: prod.splits)
  note IH = Cons.IH [OF r wf_buckets_delete [OF Cons.prems(2)]]
  have b: "mset (bh_bucket bs k) = image_mset snd (under_key k (bh_pairs bs))"
    using Cons.prems(2) by (simp add: under_key_bucket wf_buckets_def image_mset.compositionality comp_def)
  have split: "filter_mset (\<lambda>p. fst p \<in> set (k # ks)) M
      = under_key k M + filter_mset (\<lambda>p. fst p \<in> set ks) (filter_mset (\<lambda>p. fst p \<noteq> k) M)" for M :: "(hold_key \<times> ('a, 'b) held) multiset"
    by (induction M) (auto simp: under_key_def)
  show ?case
    using IH b out unfolding split bh_pairs_alist_delete
    by (simp add: filter_filter_mset conj_commute)
qed

lemma bh_release_spec:
  assumes inv: "bh_inv b" and r: "bh_release now ks b = (b', out)"
  shows "bh_inv b'"
    and "bh_content b' = filter_mset (\<lambda>p. bh_live now p \<and> fst p \<notin> set ks) (bh_content b)"
    and "mset out = image_mset snd (filter_mset (\<lambda>p. bh_live now p \<and> fst p \<in> set ks) (bh_content b))"
    and "sorted (map h_expires_at out)"
proof -
  let ?p = "bh_purge now b"
  have ip: "bh_inv ?p" using inv by (rule bh_inv_purge)
  then have wf: "wf_buckets (bh_by_key ?p)" and caps: "bh_caps ?p (bh_content ?p)"
    and bytes: "bh_bytes ?p = int (pairs_size (bh_content ?p))" by (simp_all add: bh_inv_def)
  obtain bs out0 where pop: "bh_pop_keys ks (bh_by_key ?p) = (bs, out0)" by force
  from r pop have b': "b' = ?p\<lparr>bh_by_key := bs, bh_bytes := bh_bytes ?p - sum_list (map (int \<circ> h_size) out0)\<rparr>"
    and out: "out = sort_key h_expires_at out0" by (simp_all add: bh_release_def Let_def)
  note spec = bh_pop_keys_spec [OF pop wf]
  have c': "bh_content b' = filter_mset (\<lambda>p. fst p \<notin> set ks) (bh_content ?p)"
    using spec by (simp add: b' bh_content_def)
  have "bh_content ?p = bh_content b' + filter_mset (\<lambda>p. fst p \<in> set ks) (bh_content ?p)"
    unfolding c' using multiset_partition [of "bh_content ?p" "\<lambda>p. fst p \<in> set ks"] by (simp add: add.commute)
  then have "int (pairs_size (bh_content ?p)) = int (pairs_size (bh_content b')) + sum_list (map (int \<circ> h_size) out0)"
    using spec pairs_size_snd [of "filter_mset (\<lambda>p. fst p \<in> set ks) (bh_content ?p)" out0]
    by (metis (no_types, lifting) bh_content_def of_nat_add pairs_size_simps(3))
  moreover have "bh_caps b' M = bh_caps ?p M" for M by (rule bh_caps_cong) (simp_all add: b')
  moreover have "bh_caps ?p (bh_content b')" using caps c' by (metis bh_caps_mono multiset_filter_subset)
  ultimately show "bh_inv b'" using spec bytes by (simp add: bh_inv_def b')
  show "bh_content b' = filter_mset (\<lambda>p. bh_live now p \<and> fst p \<notin> set ks) (bh_content b)"
    unfolding c' bh_content_purge by (simp add: filter_filter_mset conj_commute)
  show "mset out = image_mset snd (filter_mset (\<lambda>p. bh_live now p \<and> fst p \<in> set ks) (bh_content b))"
    using spec unfolding out bh_content_def [symmetric] bh_content_purge
    by (simp add: filter_filter_mset conj_commute)
  show "sorted (map h_expires_at out)" by (simp add: out)
qed

section \<open>The interface of a hold, and what follows from it\<close>

text \<open>
  What a wait buffer needs from a hold: storing adds at most the one record it was given, taking
  hands back records that were stored under one of the keys asked for and removes them, and both
  may only lose records otherwise (expiry). Everything a client can conclude about a whole session
  follows: nothing is handed back that was not accepted, and nothing twice.
\<close>

locale hold_buffer =
  fixes inv :: "'b \<Rightarrow> bool"
    and content :: "'b \<Rightarrow> ('k \<times> 'e) multiset"
    and put :: "'arg \<Rightarrow> 'k \<Rightarrow> 'b \<Rightarrow> 'b \<times> bool"
    and made :: "'arg \<Rightarrow> 'b \<Rightarrow> 'e"
    and take_out :: "int \<Rightarrow> 'k list \<Rightarrow> 'b \<Rightarrow> 'b \<times> 'e list"
  assumes put_inv: "inv b \<Longrightarrow> inv (fst (put a k b))"
    and take_inv: "inv b \<Longrightarrow> inv (fst (take_out n ks b))"
    and put_accepted: "inv b \<Longrightarrow> snd (put a k b) \<Longrightarrow> content (fst (put a k b)) \<subseteq># add_mset (k, made a b) (content b)"
    and put_refused: "inv b \<Longrightarrow> \<not> snd (put a k b) \<Longrightarrow> content (fst (put a k b)) \<subseteq># content b"
    and take_content: "inv b \<Longrightarrow> \<exists>R. content (fst (take_out n ks b)) + R \<subseteq># content b
        \<and> image_mset snd R = mset (snd (take_out n ks b)) \<and> (\<forall>p. p \<in># R \<longrightarrow> fst p \<in> set ks)"

datatype ('arg, 'k) hold_op = Put 'arg 'k | Take int "'k list"

context hold_buffer
begin

lemma put_size: "inv b \<Longrightarrow> size (content (fst (put a k b))) \<le> Suc (size (content b))"
  using size_mset_mono [OF put_accepted [of b a k]] size_mset_mono [OF put_refused [of b a k]]
  by (cases "snd (put a k b)") auto

lemma take_size:
  assumes "inv b"
  shows "size (content (fst (take_out n ks b))) + length (snd (take_out n ks b)) \<le> size (content b)"
proof -
  from take_content [OF assms, of n ks]
  obtain R where "content (fst (take_out n ks b)) + R \<subseteq># content b"
    and "image_mset snd R = mset (snd (take_out n ks b))" by blast
  moreover from this(2) have "size R = length (snd (take_out n ks b))" by (metis size_image_mset size_mset)
  ultimately show ?thesis using size_mset_mono by fastforce
qed

text \<open>A session: the final buffer, what was accepted, and what was handed back.\<close>

fun session :: "('arg, 'k) hold_op list \<Rightarrow> 'b \<Rightarrow> 'b \<times> ('k \<times> 'e) multiset \<times> 'e multiset" where
  "session [] b = (b, {#}, {#})"
| "session (Put a k # ops) b =
     (case session ops (fst (put a k b)) of (b', acc, out) \<Rightarrow>
        (b', (if snd (put a k b) then add_mset (k, made a b) acc else acc), out))"
| "session (Take n ks # ops) b =
     (case session ops (fst (take_out n ks b)) of (b', acc, out) \<Rightarrow>
        (b', acc, mset (snd (take_out n ks b)) + out))"

lemma session_inv: "inv b \<Longrightarrow> inv (fst (session ops b))"
  by (induction ops b rule: session.induct) (auto simp: put_inv take_inv split: prod.splits)

lemma session_conservation:
  "inv b \<Longrightarrow> session ops b = (b', acc, out) \<Longrightarrow>
     \<exists>R. content b' + R \<subseteq># content b + acc \<and> image_mset snd R = out"
proof (induction ops b arbitrary: b' acc out rule: session.induct)
  case (1 b)
  then show ?case by (auto intro: exI [of _ "{#}"])
next
  case (2 a k ops b)
  obtain b1 acc1 out1 where r: "session ops (fst (put a k b)) = (b1, acc1, out1)" by (metis prod_cases3)
  from "2.IH" [OF put_inv [OF "2.prems"(1)] r]
  obtain R where R: "content b1 + R \<subseteq># content (fst (put a k b)) + acc1" "image_mset snd R = out1" by blast
  have "content (fst (put a k b)) + acc1 \<subseteq># content b + acc"
    using "2.prems" r put_accepted [OF "2.prems"(1), of a k] put_refused [OF "2.prems"(1), of a k]
    by (auto dest: mset_subset_eq_mono_add_right_cancel [THEN iffD2, of _ _ acc1])
  with R "2.prems"(2) r show ?case by (auto intro: subset_mset.order_trans)
next
  case (3 n ks ops b)
  obtain b1 acc1 out1 where r: "session ops (fst (take_out n ks b)) = (b1, acc1, out1)" by (metis prod_cases3)
  from "3.IH" [OF take_inv [OF "3.prems"(1)] r]
  obtain R where R: "content b1 + R \<subseteq># content (fst (take_out n ks b)) + acc1" "image_mset snd R = out1" by blast
  from take_content [OF "3.prems"(1), of n ks]
  obtain Q where Q: "content (fst (take_out n ks b)) + Q \<subseteq># content b"
    "image_mset snd Q = mset (snd (take_out n ks b))" by blast
  have "content b1 + (R + Q) \<subseteq># content (fst (take_out n ks b)) + acc1 + Q"
    using R(1) by (simp add: add.assoc [symmetric])
  also have "\<dots> = content (fst (take_out n ks b)) + Q + acc1" by (simp add: ac_simps)
  also have "\<dots> \<subseteq># content b + acc1" using Q(1) by simp
  finally have "content b1 + (R + Q) \<subseteq># content b + acc1" .
  moreover have "image_mset snd (R + Q) = mset (snd (take_out n ks b)) + out1"
    using R(2) Q(2) by (simp add: add.commute)
  ultimately show ?case using "3.prems"(2) r by auto
qed

lemma handed_back_were_accepted:
  assumes "inv b" and "session ops b = (b', acc, out)"
  shows "out \<subseteq># image_mset snd (content b + acc)"
proof -
  from session_conservation [OF assms]
  obtain R where "content b' + R \<subseteq># content b + acc" and out: "image_mset snd R = out" by blast
  then have "R \<subseteq># content b + acc" by (meson mset_subset_eq_add_right subset_mset.order_trans)
  then show ?thesis unfolding out [symmetric] by (rule image_mset_subseteq_mono)
qed

end

subsection \<open>The model of bounded_hold.py is such a hold\<close>

type_synonym ('a, 't) hold_arg = "int \<times> int \<times> 'a \<times> 't \<times> string \<times> nat"

fun bh_put :: "('a, 't) hold_arg \<Rightarrow> hold_key \<Rightarrow> ('a, 't) bounded_hold \<Rightarrow> ('a, 't) bounded_hold \<times> bool" where
  "bh_put (n1, n2, e, t, s, z) k b = bh_hold n1 n2 k e t s z b"

fun bh_made :: "('a, 't) hold_arg \<Rightarrow> ('a, 't) bounded_hold \<Rightarrow> ('a, 't) held" where
  "bh_made (n1, n2, e, t, s, z) b =
     \<lparr>h_entry = e, h_token = t, h_sender = s, h_size = z, h_expires_at = n2 + bh_ttl b\<rparr>"

lemma bh_content_put:
  assumes "bh_inv b"
  shows "bh_content (fst (bh_put a k b)) \<subseteq># (if snd (bh_put a k b) then add_mset (k, bh_made a b) (bh_content b) else bh_content b)"
proof -
  obtain n1 n2 e t s z where a: "a = (n1, n2, e, t, s, z)" by (cases a)
  have "bh_content (bh_purge n1 b) \<subseteq># bh_content b" by (simp add: bh_content_purge)
  then show ?thesis
    using bh_hold_outcome [OF assms refl refl, of n1 n2 k e t s z]
    by (auto simp: a intro: subset_mset.order_trans)
qed

lemma bh_release_take:
  assumes "bh_inv b"
  shows "\<exists>R. bh_content (fst (bh_release n ks b)) + R \<subseteq># bh_content b
    \<and> image_mset snd R = mset (snd (bh_release n ks b)) \<and> (\<forall>p. p \<in># R \<longrightarrow> fst p \<in> set ks)"
proof -
  obtain b' out where r: "bh_release n ks b = (b', out)" by force
  let ?R = "filter_mset (\<lambda>p. bh_live n p \<and> fst p \<in> set ks) (bh_content b)"
  have "filter_mset (\<lambda>p. bh_live n p \<and> fst p \<notin> set ks) M + filter_mset (\<lambda>p. bh_live n p \<and> fst p \<in> set ks) M \<subseteq># M"
    for M :: "(hold_key \<times> ('a, 'b) held) multiset"
    by (induction M) (auto intro: subset_mset.order_trans)
  with bh_release_spec [OF assms r] show ?thesis
    by (intro exI [of _ ?R]) (simp add: r)
qed

interpretation bhold: hold_buffer bh_inv bh_content bh_put bh_made bh_release
proof
  fix a k and b :: "('a, 't) bounded_hold"
  assume inv: "bh_inv b"
  show "bh_inv (fst (bh_put a k b))"
    using inv by (cases a) (simp add: bh_inv_hold)
  show "snd (bh_put a k b) \<Longrightarrow> bh_content (fst (bh_put a k b)) \<subseteq># add_mset (k, bh_made a b) (bh_content b)"
    and "\<not> snd (bh_put a k b) \<Longrightarrow> bh_content (fst (bh_put a k b)) \<subseteq># bh_content b"
    using bh_content_put [OF inv, of a k] by simp_all
next
  fix n ks and b :: "('a, 't) bounded_hold"
  assume inv: "bh_inv b"
  show "bh_inv (fst (bh_release n ks b))"
    using inv bh_release_spec(1) [OF inv] by (metis prod.collapse)
  show "\<exists>R. bh_content (fst (bh_release n ks b)) + R \<subseteq># bh_content b
    \<and> image_mset snd R = mset (snd (bh_release n ks b)) \<and> (\<forall>p. p \<in># R \<longrightarrow> fst p \<in> set ks)"
    using inv by (rule bh_release_take)
qed

lemma bh_inv_new:
  assumes "0 \<le> mb" and "opt_le 0 mbs"
  shows "bh_inv (bh_new ttl me mk ms mb mbs meb)"
  using assms by (simp add: bh_inv_def bh_new_def wf_buckets_def bh_content_def bh_caps_def)

end
