(* ===== verification/Federation_Types.thy ===== *)
theory Federation_Types
  imports Prelude
begin

text \<open>
  The federation vocabulary of domain/federation.py. \<open>FederationEventType\<close> is a \<open>str\<close> enum: a member
  is its wire value, so the model keeps the values themselves, in source order, and calling the enum
  on a string is a membership test. The frozen sets of event types the inbound gates consult are the
  same lists the source spells out. Then the pairing status, the instance source, the row of a
  remote instance (the fields the modelled code reads) and the validated event.
\<close>

section \<open>Event types\<close>

type_synonym event_type = string

definition event_types_pairing_to_spaces :: "string list" where
  "event_types_pairing_to_spaces =
    [''pairing_intro'', ''pairing_intro_relay'', ''pairing_intro_auto'',
     ''pairing_intro_auto_ack'', ''instance_capabilities_updated'', ''instance_resync_request'',
     ''pairing_intro_auto_ack_via'', ''pairing_accept'', ''pairing_confirm'',
     ''pairing_peer_accept'', ''pairing_peer_confirm'', ''pairing_abort'', ''unpair'',
     ''url_updated'', ''gfs_relay_probe'', ''gfs_relay_probe_ack'',
     ''local_home_location_changed'', ''users_sync'', ''user_updated'', ''user_removed'',
     ''user_status_updated'', ''user_moved'', ''user_identity_resolve'', ''space_created'',
     ''space_age_gate_updated'', ''space_config_changed'', ''space_config_catch_up'',
     ''space_dissolved'', ''space_instance_left'', ''space_member_joined'', ''space_member_left'',
     ''space_roster_snapshot'', ''space_member_banned'', ''space_member_unbanned'',
     ''space_member_role_changed'', ''space_remote_admin_kick'', ''space_remote_admin_action'',
     ''space_invite_link_forward_result'', ''space_admin_proposal_updated'', ''space_invite'',
     ''space_invite_via'', ''space_accept'', ''space_join_request'', ''space_join_request_via'',
     ''space_join_request_reply_via'', ''space_join_request_approved'',
     ''space_join_request_denied'', ''space_join_request_expired'',
     ''space_join_request_withdrawn'', ''space_invite_token_redeem'',
     ''space_invite_token_redeem_ack'', ''space_invite_token_redeem_deny'']"

definition event_types_space_content :: "string list" where
  "event_types_space_content =
    [''space_invite_bootstrap_redeem'', ''space_invite_bootstrap_redeem_ack'',
     ''space_invite_bootstrap_redeem_deny'', ''space_routed'', ''space_find_route'',
     ''space_route_found'', ''space_route_stale'', ''space_post_created'', ''space_post_updated'',
     ''space_post_deleted'', ''space_media_blob'', ''space_comment_created'',
     ''space_comment_updated'', ''space_comment_deleted'', ''space_member_profile_updated'',
     ''space_page_created'', ''space_page_updated'', ''space_page_deleted'',
     ''space_task_created'', ''space_task_updated'', ''space_task_deleted'',
     ''space_task_list_created'', ''space_task_list_updated'', ''space_task_list_deleted'',
     ''space_poll_created'', ''space_poll_vote_cast'', ''space_poll_closed'',
     ''space_sticky_created'', ''space_sticky_updated'', ''space_sticky_deleted'',
     ''space_calendar_event_created'', ''space_calendar_event_updated'',
     ''space_calendar_event_deleted'', ''space_rsvp_updated'', ''space_rsvp_deleted'',
     ''personal_calendar_event_created'', ''personal_calendar_event_updated'',
     ''personal_calendar_event_deleted'', ''personal_calendar_rsvp_updated'',
     ''personal_calendar_rsvp_deleted'', ''space_schedule_created'',
     ''space_schedule_response_updated'', ''space_schedule_finalized'', ''space_location_updated'',
     ''space_zone_upserted'', ''space_zone_deleted'', ''space_timetable_upserted'',
     ''space_timetable_deleted'', ''space_chat_message_created'', ''space_chat_message_updated'',
     ''space_chat_message_deleted'', ''space_chat_reaction'', ''space_moderation_submitted'',
     ''space_moderation_decided'']"

definition event_types_sync_and_dm :: "string list" where
  "event_types_sync_and_dm =
    [''space_gallery_album_created'', ''space_gallery_album_updated'',
     ''space_gallery_album_deleted'', ''space_gallery_item_created'',
     ''space_gallery_item_deleted'', ''space_gallery_item_updated'', ''bazaar_listing_created'',
     ''bazaar_listing_updated'', ''bazaar_bid_placed'', ''bazaar_offer_accepted'',
     ''bazaar_offer_made'', ''bazaar_offer_updated'', ''bazaar_thread_message'',
     ''bazaar_listing_faq_updated'', ''space_app_table'', ''space_app_session'',
     ''space_key_exchange'', ''space_key_exchange_ack'', ''space_key_exchange_rekey'',
     ''space_admin_key_share'', ''space_authority_rotated'', ''space_session_cleanup'',
     ''space_sync_begin'', ''space_sync_chunk'', ''space_sync_chunk_ack'', ''space_sync_resume'',
     ''space_sync_complete'', ''space_sync_offer'', ''space_sync_answer'', ''space_sync_ice'',
     ''space_sync_direct_ready'', ''space_sync_direct_failed'', ''space_sync_request_more'',
     ''space_sync_rejected'', ''instance_sync_status'', ''space_partition_gap'',
     ''node_partition_catchup'', ''node_partition_gap'', ''dm_user_typing'', ''dm_relay'',
     ''dm_message'', ''dm_media_blob'', ''dm_message_deleted'', ''dm_message_reaction'',
     ''dm_member_added'', ''dm_group_roster'', ''dm_group_leave'']"

definition event_types_social :: "string list" where
  "event_types_social =
    [''dm_history_request'', ''dm_history_chunk'', ''dm_history_chunk_ack'',
     ''dm_history_complete'', ''public_space_advertise'', ''public_space_withdrawn'',
     ''space_directory_sync'', ''space_private_invite'', ''space_private_invite_accept'',
     ''space_private_invite_decline'', ''space_remote_member_removed'',
     ''space_subscriber_key_handoff'', ''space_report'', ''space_report_decided'',
     ''space_report_answered'', ''presence_updated'', ''user_online'', ''user_idle'',
     ''user_offline'', ''call_offer'', ''call_answer'', ''call_decline'', ''call_busy'',
     ''call_hangup'', ''call_end'', ''call_ice'', ''call_ice_candidate'', ''call_quality'',
     ''highlight_created'', ''highlight_frame_appended'', ''highlight_frame_deleted'',
     ''highlight_deleted'', ''highlight_frame_viewed'', ''highlight_frame_reacted'',
     ''highlight_frame_reaction_removed'', ''moment_created'', ''moment_deleted'',
     ''moment_reacted'', ''moment_reaction_removed'', ''moment_reaction_routed'',
     ''moment_reactions_counted'', ''moment_public_follow'', ''moment_public_unfollow'',
     ''network_sync'', ''federation_rtc_offer'', ''federation_rtc_answer'', ''federation_rtc_ice'',
     ''app_session'', ''app_message'']"

definition pairing_events :: "string list" where
  "pairing_events =
    [''pairing_intro'', ''pairing_intro_relay'', ''pairing_intro_auto'',
     ''pairing_intro_auto_ack'', ''pairing_intro_auto_ack_via'', ''pairing_accept'',
     ''pairing_confirm'', ''pairing_peer_accept'', ''pairing_peer_confirm'', ''pairing_abort'',
     ''unpair'', ''local_home_location_changed'']"

definition structural_events :: "string list" where
  "structural_events =
    [''space_created'', ''space_dissolved'', ''space_config_changed'', ''space_member_joined'',
     ''space_member_left'', ''space_member_banned'', ''space_member_unbanned'',
     ''space_member_role_changed'', ''space_key_exchange'', ''space_key_exchange_rekey'',
     ''space_admin_key_share'', ''space_authority_rotated'']"

definition space_session_allowed_core :: "string list" where
  "space_session_allowed_core =
    [''instance_capabilities_updated'', ''space_dissolved'', ''space_instance_left'',
     ''space_config_changed'', ''space_config_catch_up'', ''space_age_gate_updated'',
     ''space_member_joined'', ''space_member_left'', ''space_roster_snapshot'',
     ''space_member_banned'', ''space_member_unbanned'', ''space_member_role_changed'',
     ''space_member_profile_updated'', ''space_remote_member_removed'',
     ''space_admin_proposal_updated'', ''space_remote_admin_kick'', ''space_remote_admin_action'',
     ''space_invite_link_forward_result'', ''space_session_cleanup'', ''space_post_created'',
     ''space_post_updated'', ''space_post_deleted'', ''space_comment_created'',
     ''space_comment_updated'', ''space_comment_deleted'', ''space_page_created'',
     ''space_page_updated'', ''space_page_deleted'', ''space_task_created'',
     ''space_task_updated'', ''space_task_deleted'', ''space_task_list_created'',
     ''space_task_list_updated'', ''space_task_list_deleted'', ''space_poll_created'',
     ''space_poll_vote_cast'', ''space_poll_closed'', ''space_sticky_created'',
     ''space_sticky_updated'', ''space_sticky_deleted'', ''space_calendar_event_created'',
     ''space_calendar_event_updated'', ''space_calendar_event_deleted'', ''space_rsvp_updated'',
     ''space_rsvp_deleted'', ''space_schedule_created'', ''space_schedule_response_updated'',
     ''space_schedule_finalized'', ''space_gallery_album_created'',
     ''space_gallery_album_updated'', ''space_gallery_album_deleted'',
     ''space_gallery_item_created'', ''space_gallery_item_updated'',
     ''space_gallery_item_deleted'', ''bazaar_listing_created'', ''bazaar_listing_updated'',
     ''bazaar_bid_placed'', ''bazaar_offer_accepted'', ''bazaar_offer_made'',
     ''bazaar_offer_updated'', ''bazaar_thread_message'', ''bazaar_listing_faq_updated'',
     ''space_app_table'', ''space_app_session'', ''space_location_updated'',
     ''space_zone_upserted'', ''space_zone_deleted'', ''space_timetable_upserted'',
     ''space_timetable_deleted'', ''space_chat_message_created'', ''space_chat_message_updated'',
     ''space_chat_message_deleted'', ''space_chat_reaction'', ''space_report'',
     ''space_report_decided'', ''space_report_answered'', ''space_moderation_submitted'',
     ''space_moderation_decided'', ''space_media_blob'', ''space_key_exchange'',
     ''space_key_exchange_ack'', ''space_key_exchange_rekey'']"

definition space_session_allowed_rest :: "string list" where
  "space_session_allowed_rest =
    [''space_authority_rotated'', ''space_sync_begin'', ''space_sync_chunk'',
     ''space_sync_chunk_ack'', ''space_sync_resume'', ''space_sync_complete'',
     ''space_sync_request_more'', ''space_sync_rejected'', ''space_partition_gap'',
     ''space_invite_token_redeem'', ''space_invite_token_redeem_ack'',
     ''space_invite_token_redeem_deny'']"

definition space_session_allowed :: "string list" where
  "space_session_allowed = space_session_allowed_core @ space_session_allowed_rest"

definition space_write_types :: "string list" where
  "space_write_types =
    [''space_post_created'', ''space_post_updated'', ''space_post_deleted'', ''space_media_blob'',
     ''space_comment_created'', ''space_comment_updated'', ''space_comment_deleted'',
     ''space_page_created'', ''space_page_updated'', ''space_page_deleted'',
     ''space_task_created'', ''space_task_updated'', ''space_task_deleted'',
     ''space_task_list_created'', ''space_task_list_updated'', ''space_task_list_deleted'',
     ''space_poll_created'', ''space_poll_vote_cast'', ''space_poll_closed'',
     ''space_sticky_created'', ''space_sticky_updated'', ''space_sticky_deleted'',
     ''space_calendar_event_created'', ''space_calendar_event_updated'',
     ''space_calendar_event_deleted'', ''space_rsvp_updated'', ''space_rsvp_deleted'',
     ''space_schedule_created'', ''space_schedule_response_updated'', ''space_schedule_finalized'',
     ''space_gallery_album_created'', ''space_gallery_album_updated'',
     ''space_gallery_album_deleted'', ''space_gallery_item_created'',
     ''space_gallery_item_updated'', ''space_gallery_item_deleted'', ''bazaar_listing_created'',
     ''bazaar_listing_updated'', ''bazaar_bid_placed'', ''bazaar_offer_accepted'',
     ''bazaar_offer_made'', ''bazaar_offer_updated'', ''bazaar_thread_message'',
     ''bazaar_listing_faq_updated'', ''space_app_table'', ''space_app_session'',
     ''space_location_updated'', ''space_zone_upserted'', ''space_zone_deleted'',
     ''space_timetable_upserted'', ''space_timetable_deleted'', ''space_chat_message_created'',
     ''space_chat_message_updated'', ''space_chat_message_deleted'', ''space_chat_reaction'',
     ''space_moderation_submitted'']"

definition archived_allowed_removals :: "string list" where
  "archived_allowed_removals =
    [''space_post_deleted'', ''space_comment_deleted'', ''space_page_deleted'',
     ''space_task_deleted'', ''space_task_list_deleted'', ''space_sticky_deleted'',
     ''space_calendar_event_deleted'', ''space_rsvp_deleted'', ''space_gallery_album_deleted'',
     ''space_gallery_item_deleted'', ''space_zone_deleted'', ''space_timetable_deleted'',
     ''space_chat_message_deleted'']"

definition space_reader_types :: "string list" where
  "space_reader_types =
    [''space_created'', ''space_age_gate_updated'', ''space_config_changed'',
     ''space_config_catch_up'', ''space_dissolved'', ''space_instance_left'',
     ''space_member_joined'', ''space_member_left'', ''space_roster_snapshot'',
     ''space_member_banned'', ''space_member_unbanned'', ''space_member_role_changed'',
     ''space_member_profile_updated'', ''space_remote_member_removed'',
     ''space_remote_admin_kick'', ''space_remote_admin_action'', ''space_admin_proposal_updated'',
     ''space_invite_link_forward_result'', ''space_invite'', ''space_invite_via'',
     ''space_accept'', ''space_join_request'', ''space_join_request_via'',
     ''space_join_request_reply_via'', ''space_join_request_approved'',
     ''space_join_request_denied'', ''space_join_request_expired'',
     ''space_join_request_withdrawn'', ''space_invite_token_redeem'',
     ''space_invite_token_redeem_ack'', ''space_invite_token_redeem_deny'',
     ''space_invite_bootstrap_redeem'', ''space_invite_bootstrap_redeem_ack'',
     ''space_invite_bootstrap_redeem_deny'', ''space_private_invite'',
     ''space_private_invite_accept'', ''space_private_invite_decline'', ''space_routed'',
     ''space_find_route'', ''space_route_found'', ''space_route_stale'', ''space_key_exchange'',
     ''space_key_exchange_ack'', ''space_key_exchange_rekey'', ''space_admin_key_share'',
     ''space_authority_rotated'', ''space_subscriber_key_handoff'', ''space_session_cleanup'',
     ''space_sync_begin'', ''space_sync_chunk'', ''space_sync_chunk_ack'', ''space_sync_resume'',
     ''space_sync_complete'', ''space_sync_offer'', ''space_sync_answer'', ''space_sync_ice'',
     ''space_sync_direct_ready'', ''space_sync_direct_failed'', ''space_sync_request_more'',
     ''space_sync_rejected'', ''space_partition_gap'', ''space_directory_sync'', ''space_report'',
     ''space_report_decided'', ''space_report_answered'', ''space_moderation_decided'']"

definition federation_event_types :: "string list" where
  "federation_event_types = event_types_pairing_to_spaces @ event_types_space_content
     @ event_types_sync_and_dm @ event_types_social"

text \<open>\<open>FederationEventType(v)\<close>: the member with value \<open>v\<close>, or \<open>ValueError\<close>.\<close>

definition federation_event_type :: "string \<Rightarrow> event_type option" where
  "federation_event_type v = (if v \<in> set federation_event_types then Some v else None)"

definition media_https_event_types :: "string list" where
  "media_https_event_types = [''space_media_blob'', ''dm_media_blob'']"

section \<open>Peers\<close>

datatype pairing_status = PENDING_SENT | PENDING_RECEIVED | CONFIRMED | UNPAIRING

datatype instance_source = MANUAL | SPACE_SESSION

record remote_instance =
  ri_id :: string
  ri_remote_identity_pk :: string
  ri_key_self_to_remote :: string
  ri_key_remote_to_self :: string
  ri_local_inbox_id :: string
  ri_status :: pairing_status
  ri_source :: instance_source
  ri_remote_pq_identity_pk :: "string option"
  ri_sig_suite :: string
  ri_gfs_relay :: bool

datatype pending_kind_value = KIND_CODE | KIND_REQUEST | KIND_APPROVAL

fun pending_kind :: "remote_instance \<Rightarrow> pending_kind_value option" where
  "pending_kind inst =
     (if ri_status inst = PENDING_RECEIVED then Some KIND_CODE
      else if ri_status inst = PENDING_SENT
      then (if ri_remote_identity_pk inst \<noteq> [] \<and> ri_key_self_to_remote inst \<noteq> []
            then Some KIND_APPROVAL else Some KIND_REQUEST)
      else None)"

section \<open>Validated events\<close>

text \<open>
  The decrypted payload is whatever JSON the sender encrypted, and the routing \<open>space_id\<close> and \<open>epoch\<close>
  are copied from the envelope without a type check, so all three are JSON values. \<open>fe_oid\<close> is the
  identity of the Python object (\<open>id(event)\<close>), which the seat-wait buffer uses as its token.
\<close>

record federation_event =
  fe_msg_id :: string
  fe_event_type :: event_type
  fe_from_instance :: string
  fe_to_instance :: string
  fe_timestamp :: string
  fe_payload :: json
  fe_space_id :: json
  fe_epoch :: json
  fe_oid :: nat


end
