(* ===== verification/Wait_Buffers.thy ===== *)
theory Wait_Buffers
  imports Bounded_Hold Federation_Types
begin

text \<open>
  The two inbound wait buffers on top of the bounded hold: \<open>PendingSeatBuffer\<close>
  (federation/pending_seat_buffer.py) keeps space writes until the roster seat they need lands;
  \<open>PendingParentBuffer\<close> (federation/pending_parent_buffer.py) keeps items until the post or comment
  they refer to lands, and replays them in an iterative drain.

  The length of a payload's JSON encoding (orjson, a third-party package) is the parameter
  \<open>dumps_len\<close>, with no value where the encoder raises its \<open>JSONEncodeError\<close>, a \<open>TypeError\<close>: it refuses,
  for one, values nested more deeply than its own parser accepts.
\<close>

section \<open>PendingSeatBuffer\<close>

type_synonym seat_buffer = "(federation_event, nat) bounded_hold"

definition ps_new :: seat_buffer where
  "ps_new = bh_new 900 256 32 64 (4 * 1024 * 1024) None None"

definition never_held :: "event_type list" where
  "never_held = [''space_media_blob'']"

definition ps_key :: "string \<Rightarrow> string \<Rightarrow> string \<Rightarrow> hold_key option" where
  "ps_key space_id user_id instance_id =
     (if user_id \<noteq> [] then Some (HoldKey space_id ''user'' user_id)
      else if instance_id \<noteq> [] then Some (HoldKey space_id ''instance'' instance_id)
      else None)"

definition ps_hold ::
  "(json \<Rightarrow> nat option) \<Rightarrow> int \<Rightarrow> int \<Rightarrow> federation_event \<Rightarrow> string \<Rightarrow> string \<Rightarrow> string \<Rightarrow> seat_buffer
    \<Rightarrow> seat_buffer \<times> (exn + bool)" where
  "ps_hold dumps_len now_purge now_store event space_id user_id instance_id b =
     (if fe_event_type event \<in> set never_held \<or> space_id = [] then (b, Inr False)
      else case ps_key space_id user_id instance_id of
        None \<Rightarrow> (b, Inr False)
      | Some key \<Rightarrow>
          (case dumps_len (if truthy (fe_payload event) then fe_payload event else JObj []) of
             None \<Rightarrow> (b, Inl PyTypeError)
           | Some nbytes \<Rightarrow>
               (case bh_hold now_purge now_store key event (fe_oid event) (fe_from_instance event) nbytes b of
                  (b', ok) \<Rightarrow> (b', Inr ok))))"

definition ps_release ::
  "int \<Rightarrow> string \<Rightarrow> string \<Rightarrow> string \<Rightarrow> seat_buffer \<Rightarrow> seat_buffer \<times> federation_event list" where
  "ps_release now space_id instance_id user_id b =
     (case bh_release now [HoldKey space_id ''user'' user_id, HoldKey space_id ''instance'' instance_id] b of
        (b', out) \<Rightarrow> (b', map h_entry out))"

datatype ps_op =
    PS_Hold int int federation_event string string string
  | PS_Release int string string string

fun ps_step :: "(json \<Rightarrow> nat option) \<Rightarrow> ps_op \<Rightarrow> seat_buffer \<Rightarrow> seat_buffer" where
  "ps_step dl (PS_Hold n1 n2 e sid uid iid) b = fst (ps_hold dl n1 n2 e sid uid iid b)"
| "ps_step dl (PS_Release n sid iid uid) b = fst (ps_release n sid iid uid b)"

definition ps_run :: "(json \<Rightarrow> nat option) \<Rightarrow> ps_op list \<Rightarrow> seat_buffer" where
  "ps_run dl ops = fold (ps_step dl) ops ps_new"

definition ps_inv :: "seat_buffer \<Rightarrow> bool" where
  "ps_inv b \<longleftrightarrow> bh_inv b
     \<and> bh_ttl b = bh_ttl ps_new \<and> bh_max_entries b = bh_max_entries ps_new
     \<and> bh_max_per_key b = bh_max_per_key ps_new \<and> bh_max_per_sender b = bh_max_per_sender ps_new
     \<and> bh_max_bytes b = bh_max_bytes ps_new
     \<and> (\<forall>p. p \<in># bh_content b \<longrightarrow> fe_event_type (h_entry (snd p)) \<notin> set never_held
            \<and> h_sender (snd p) = fe_from_instance (h_entry (snd p)))"

lemma ps_inv_new: "ps_inv ps_new"
proof -
  have "bh_inv ps_new" unfolding ps_new_def by (rule bh_inv_new) simp_all
  then show ?thesis by (simp add: ps_inv_def bh_content_def ps_new_def bh_new_def)
qed

lemma bh_hold_config [simp]:
  "bh_ttl (fst (bh_hold n1 n2 k e t s z b)) = bh_ttl b"
  "bh_max_entries (fst (bh_hold n1 n2 k e t s z b)) = bh_max_entries b"
  "bh_max_per_key (fst (bh_hold n1 n2 k e t s z b)) = bh_max_per_key b"
  "bh_max_per_sender (fst (bh_hold n1 n2 k e t s z b)) = bh_max_per_sender b"
  "bh_max_bytes (fst (bh_hold n1 n2 k e t s z b)) = bh_max_bytes b"
  "bh_max_bytes_per_sender (fst (bh_hold n1 n2 k e t s z b)) = bh_max_bytes_per_sender b"
  "bh_max_entry_bytes (fst (bh_hold n1 n2 k e t s z b)) = bh_max_entry_bytes b"
  by (simp_all add: bh_hold_def Let_def)

lemma bh_release_config [simp]:
  "bh_ttl (fst (bh_release n ks b)) = bh_ttl b"
  "bh_max_entries (fst (bh_release n ks b)) = bh_max_entries b"
  "bh_max_per_key (fst (bh_release n ks b)) = bh_max_per_key b"
  "bh_max_per_sender (fst (bh_release n ks b)) = bh_max_per_sender b"
  "bh_max_bytes (fst (bh_release n ks b)) = bh_max_bytes b"
  "bh_max_bytes_per_sender (fst (bh_release n ks b)) = bh_max_bytes_per_sender b"
  "bh_max_entry_bytes (fst (bh_release n ks b)) = bh_max_entry_bytes b"
  by (simp_all add: bh_release_def Let_def split: prod.splits)

lemma bh_hold_member:
  assumes "bh_inv b" and "p \<in># bh_content (fst (bh_hold n1 n2 k e t s z b))"
  shows "p \<in># bh_content b \<or> p = (k, bh_made (n1, n2, e, t, s, z) b)"
  using bhold.put_accepted [OF assms(1), of "(n1, n2, e, t, s, z)" k]
    bhold.put_refused [OF assms(1), of "(n1, n2, e, t, s, z)" k] assms(2)
  by (cases "snd (bh_hold n1 n2 k e t s z b)") (auto dest: mset_subset_eqD)

lemma bh_release_member:
  assumes "bh_inv b" and "p \<in># bh_content (fst (bh_release n ks b))"
  shows "p \<in># bh_content b"
proof -
  obtain b' out where r: "bh_release n ks b = (b', out)" by force
  with assms(2) bh_release_spec(2) [OF assms(1) r] show ?thesis by simp
qed

lemma ps_invD:
  assumes "ps_inv b"
  shows "bh_inv b"
    and "p \<in># bh_content b \<Longrightarrow> fe_event_type (h_entry (snd p)) \<notin> set never_held"
    and "p \<in># bh_content b \<Longrightarrow> h_sender (snd p) = fe_from_instance (h_entry (snd p))"
  using assms unfolding ps_inv_def by blast+

lemma ps_inv_step: "ps_inv b \<Longrightarrow> ps_inv (ps_step dl op b)"
proof (cases op)
  case (PS_Hold n1 n2 e sid uid iid)
  assume inv: "ps_inv b"
  then have bi: "bh_inv b" by (simp add: ps_inv_def)
  show ?thesis
  proof (cases "fe_event_type e \<in> set never_held \<or> sid = [] \<or> ps_key sid uid iid = None
      \<or> dl (if truthy (fe_payload e) then fe_payload e else JObj []) = None")
    case True
    with inv show ?thesis by (auto simp: PS_Hold ps_hold_def split: option.splits)
  next
    case False
    then obtain key z where k: "ps_key sid uid iid = Some key"
      and z: "dl (if truthy (fe_payload e) then fe_payload e else JObj []) = Some z"
      by (metis option.exhaust)
    have s: "ps_step dl op b = fst (bh_hold n1 n2 key e (fe_oid e) (fe_from_instance e) z b)"
      using False k z by (simp add: PS_Hold ps_hold_def case_prod_beta)
    have m: "fe_event_type (h_entry (snd p)) \<notin> set never_held \<and> h_sender (snd p) = fe_from_instance (h_entry (snd p))"
      if "p \<in># bh_content (ps_step dl op b)" for p
      using bh_hold_member [OF bi that [unfolded s]] ps_invD(2,3) [OF inv, of p] False by auto
    show ?thesis
      using inv m unfolding ps_inv_def by (simp add: s bh_inv_hold)
  qed
next
  case (PS_Release n sid iid uid)
  assume inv: "ps_inv b"
  then have bi: "bh_inv b" by (simp add: ps_inv_def)
  have s: "ps_step dl op b = fst (bh_release n [HoldKey sid ''user'' uid, HoldKey sid ''instance'' iid] b)"
    by (simp add: PS_Release ps_release_def split: prod.splits)
  show ?thesis
    using inv bhold.take_inv [OF bi] bh_release_member [OF bi]
    unfolding ps_inv_def s by simp blast
qed

lemma ps_inv_run: "ps_inv (ps_run dl ops)"
proof -
  have "ps_inv b \<Longrightarrow> ps_inv (fold (ps_step dl) ops b)" for b
    by (induction ops arbitrary: b) (simp_all add: ps_inv_step)
  then show ?thesis unfolding ps_run_def using ps_inv_new by blast
qed

text \<open>
  Flood bounds of the seat-wait buffer: after any sequence of holds and releases it keeps at most
  256 writes and 4 MiB, at most 64 from one sending household and 32 waiting on one seat, and never
  media bytes, whatever the senders do.
\<close>

theorem seat_buffer_bounded:
  "size (bh_content (ps_run dl ops)) \<le> 256
   \<and> int (pairs_size (bh_content (ps_run dl ops))) \<le> 4 * 1024 * 1024
   \<and> bh_bytes (ps_run dl ops) = int (pairs_size (bh_content (ps_run dl ops)))
   \<and> size {#p \<in># bh_content (ps_run dl ops). fe_from_instance (h_entry (snd p)) = sender#} \<le> 64
   \<and> size {#p \<in># bh_content (ps_run dl ops). fst p = key#} \<le> 32
   \<and> {#p \<in># bh_content (ps_run dl ops). fe_event_type (h_entry (snd p)) = ''space_media_blob''#} = {#}"
proof -
  let ?b = "ps_run dl ops"
  have inv: "ps_inv ?b" by (rule ps_inv_run)
  then have caps: "bh_caps ?b (bh_content ?b)" and bytes: "bh_bytes ?b = int (pairs_size (bh_content ?b))"
    by (simp_all add: ps_inv_def bh_inv_def)
  have "from_sender sender (bh_content ?b) = {#p \<in># bh_content ?b. fe_from_instance (h_entry (snd p)) = sender#}"
    unfolding from_sender_def using ps_invD(3) [OF inv] by (intro filter_mset_cong) auto
  moreover have "{#p \<in># bh_content ?b. fe_event_type (h_entry (snd p)) = ''space_media_blob''#} = {#}"
    using ps_invD(2) [OF inv] by (auto simp: never_held_def filter_mset_eq_mempty_iff)
  ultimately show ?thesis
    using bh_capsD(1,2) [OF caps] bh_capsD(3) [OF caps, of key] bh_capsD(4) [OF caps, of sender] inv bytes
    by (simp add: ps_inv_def ps_new_def bh_new_def under_key_def)
qed

definition ps_seat_keys :: "string \<Rightarrow> string \<Rightarrow> string \<Rightarrow> hold_key list" where
  "ps_seat_keys space_id instance_id user_id =
     [HoldKey space_id ''user'' user_id, HoldKey space_id ''instance'' instance_id]"

lemma ps_release_spec:
  assumes inv: "ps_inv b" and r: "ps_release n sid iid uid b = (b', out)"
  shows "ps_inv b'"
    and "bh_content b' = filter_mset (\<lambda>p. bh_live n p \<and> fst p \<notin> set (ps_seat_keys sid iid uid)) (bh_content b)"
    and "mset out = image_mset (h_entry \<circ> snd) (filter_mset (\<lambda>p. bh_live n p \<and> fst p \<in> set (ps_seat_keys sid iid uid)) (bh_content b))"
proof -
  obtain out0 where r0: "bh_release n (ps_seat_keys sid iid uid) b = (b', out0)" and out: "out = map h_entry out0"
    using r by (auto simp: ps_release_def ps_seat_keys_def split: prod.splits)
  note spec = bh_release_spec [OF ps_invD(1) [OF inv] r0]
  have "b' = ps_step dl (PS_Release n sid iid uid) b" for dl by (simp add: r)
  then show "ps_inv b'" using ps_inv_step [OF inv] by metis
  show "bh_content b' = filter_mset (\<lambda>p. bh_live n p \<and> fst p \<notin> set (ps_seat_keys sid iid uid)) (bh_content b)"
    by (rule spec(2))
  show "mset out = image_mset (h_entry \<circ> snd) (filter_mset (\<lambda>p. bh_live n p \<and> fst p \<in> set (ps_seat_keys sid iid uid)) (bh_content b))"
    unfolding out mset_map spec(3) by (simp add: image_mset.compositionality)
qed

text \<open>
  C24. A write the seat-wait buffer takes on is handed back by the first report of the seat it waits
  for (before it expires), and that report leaves nothing behind for the seat: a second report of the
  same seat, at any time, hands back nothing.
\<close>

theorem seat_buffer_hands_back_once:
  assumes held: "ps_hold dl n1 n2 e sid uid iid (ps_run dl ops) = (b1, Inr True)"
    and key: "ps_key sid uid iid = Some key"
    and new: "\<not> bh_waiting (bh_purge n1 (ps_run dl ops)) key (fe_oid e)"
    and seat: "key \<in> set (ps_seat_keys sid iid' uid')"
    and in_time: "n3 < n2 + 900"
    and rel: "ps_release n3 sid iid' uid' b1 = (b2, out)"
  shows "e \<in> set out \<and> snd (ps_release n4 sid iid' uid' b2) = []"
proof -
  let ?b = "ps_run dl ops"
  have inv: "ps_inv ?b" by (rule ps_inv_run)
  have "ps_step dl (PS_Hold n1 n2 e sid uid iid) ?b = b1" by (simp add: held)
  with ps_inv_step [OF inv] have inv1: "ps_inv b1" by metis
  obtain z where h: "bh_hold n1 n2 key e (fe_oid e) (fe_from_instance e) z ?b = (b1, True)"
    using held key by (auto simp: ps_hold_def split: if_splits option.splits prod.splits)
  let ?r = "\<lparr>h_entry = e, h_token = fe_oid e, h_sender = fe_from_instance e, h_size = z,
      h_expires_at = n2 + bh_ttl ?b\<rparr>"
  have "(key, ?r) \<in># bh_content b1"
    using bh_hold_outcome [OF ps_invD(1) [OF inv] refl refl, of n1 n2 key e "fe_oid e" "fe_from_instance e" z] new h
    by simp
  moreover have "bh_live n3 (key, ?r)"
    using inv in_time by (simp add: bh_live_def ps_inv_def ps_new_def bh_new_def)
  ultimately have "(key, ?r) \<in># filter_mset (\<lambda>p. bh_live n3 p \<and> fst p \<in> set (ps_seat_keys sid iid' uid')) (bh_content b1)"
    using seat by simp
  then have "(h_entry \<circ> snd) (key, ?r) \<in># mset out"
    unfolding ps_release_spec(3) [OF inv1 rel] set_image_mset by (rule imageI)
  then have "e \<in> set out" by simp
  moreover have "snd (ps_release n4 sid iid' uid' b2) = []"
  proof -
    obtain b3 out3 where r3: "ps_release n4 sid iid' uid' b2 = (b3, out3)" by force
    have "mset out3 = {#}"
      unfolding ps_release_spec(3) [OF ps_release_spec(1) [OF inv1 rel] r3] ps_release_spec(2) [OF inv1 rel]
      by (simp add: filter_filter_mset filter_mset_eq_mempty_iff)
    with r3 show ?thesis by simp
  qed
  ultimately show ?thesis by blast
qed

definition example_write :: federation_event where
  "example_write = \<lparr>fe_msg_id = ''m1'', fe_event_type = ''space_post_created'', fe_from_instance = ''peer'',
     fe_to_instance = ''us'', fe_timestamp = ''t'', fe_payload = JNull, fe_space_id = JStr ''sp'',
     fe_epoch = JNull, fe_oid = 7\<rparr>"

theorem seat_buffer_hands_back_once_witness:
  "\<exists>b1 b2 out. ps_hold (\<lambda>_. Some 2) 0 0 example_write ''sp'' [] ''peer'' (ps_run (\<lambda>_. Some 2) []) = (b1, Inr True)
     \<and> ps_release 10 ''sp'' ''peer'' ''u'' b1 = (b2, out) \<and> example_write \<in> set out
     \<and> snd (ps_release 11 ''sp'' ''peer'' ''u'' b2) = []"
proof -
  let ?b = "ps_run (\<lambda>_. Some 2) []"
  have empty: "bh_content (bh_purge 0 ?b) = {#}"
    by (simp add: ps_run_def bh_content_purge) (simp add: ps_new_def bh_new_def bh_content_def)
  have ok: "snd (ps_hold (\<lambda>_. Some 2) 0 0 example_write ''sp'' [] ''peer'' ?b) = Inr True"
    by (simp add: ps_run_def ps_new_def bh_new_def ps_hold_def ps_key_def never_held_def example_write_def
        bh_hold_def bh_purge_def bh_bucket_def bh_over_bounds_def bh_held_from_def bh_all_def bh_len_def)
  then obtain b1 where h: "ps_hold (\<lambda>_. Some 2) 0 0 example_write ''sp'' [] ''peer'' ?b = (b1, Inr True)"
    by (metis prod.collapse)
  obtain b2 out where r: "ps_release 10 ''sp'' ''peer'' ''u'' b1 = (b2, out)" by force
  have k: "ps_key ''sp'' [] ''peer'' = Some (HoldKey ''sp'' ''instance'' ''peer'')"
    by (simp add: ps_key_def)
  have n: "\<not> bh_waiting (bh_purge 0 ?b) (HoldKey ''sp'' ''instance'' ''peer'') (fe_oid example_write)"
    by (simp add: bh_waiting_def empty)
  have "example_write \<in> set out \<and> snd (ps_release 11 ''sp'' ''peer'' ''u'' b2) = []"
    by (rule seat_buffer_hands_back_once [OF h k n _ _ r]) (simp_all add: ps_seat_keys_def)
  with h r show ?thesis by blast
qed

section \<open>PendingParentBuffer\<close>

text \<open>
  A waiting item is a replay closure. A replay runs arbitrary handlers, but on this buffer it can only
  call \<open>hold\<close> and \<open>release\<close>; what it calls may depend on the rest of the program, so the model takes
  a function \<open>replay\<close> from the closure and an opaque world to the new world and the calls it made
  (before it returned or raised: the drain swallows its exceptions). The buffer counts its readings
  of the clock \<open>clk\<close>. \<open>while self._queue\<close> may in principle run forever, so the drain is a partial
  function, and that it returns is a theorem.
\<close>

record 'r waiting =
  w_replay :: 'r
  w_label :: string

record 'r parent_buffer =
  pb_hold :: "('r waiting, string) bounded_hold"
  pb_queue :: "hold_key list"
  pb_draining :: bool
  pb_ticks :: nat

datatype 'r parent_call =
    PC_Hold string string string string string nat 'r string
  | PC_Release string string string

definition pp_new :: "'r parent_buffer" where
  "pp_new = \<lparr>pb_hold = bh_new 600 512 64 128 (4 * 1024 * 1024) (Some (4 * 1024 * 1024 div 8))
               (Some (64 * 1024 + 512)),
             pb_queue = [], pb_draining = False, pb_ticks = 0\<rparr>"

definition pp_hold ::
  "(nat \<Rightarrow> int) \<Rightarrow> string \<Rightarrow> string \<Rightarrow> string \<Rightarrow> string \<Rightarrow> string \<Rightarrow> nat \<Rightarrow> 'r \<Rightarrow> string
    \<Rightarrow> 'r parent_buffer \<Rightarrow> 'r parent_buffer \<times> bool" where
  "pp_hold clk space_id kind parent_id token sender nbytes replay label b =
     (if space_id = [] \<or> parent_id = [] \<or> kind \<notin> {''post'', ''comment''} then (b, False)
      else case bh_hold (clk (pb_ticks b)) (clk (Suc (pb_ticks b))) (HoldKey space_id kind parent_id)
                  \<lparr>w_replay = replay, w_label = label\<rparr> token sender (nbytes + 512) (pb_hold b) of
             (h, ok) \<Rightarrow> (b\<lparr>pb_hold := h, pb_ticks := pb_ticks b + 2\<rparr>, ok))"

fun pp_call :: "(nat \<Rightarrow> int) \<Rightarrow> 'r parent_call \<Rightarrow> 'r parent_buffer \<Rightarrow> 'r parent_buffer" where
  "pp_call clk (PC_Hold sid kind pid token sender nbytes replay label) b =
     fst (pp_hold clk sid kind pid token sender nbytes replay label b)"
| "pp_call clk (PC_Release sid kind pid) b = b\<lparr>pb_queue := pb_queue b @ [HoldKey sid kind pid]\<rparr>"

fun pp_replay_all ::
  "(nat \<Rightarrow> int) \<Rightarrow> ('r \<Rightarrow> 'w \<Rightarrow> 'w \<times> 'r parent_call list) \<Rightarrow> 'r waiting list
    \<Rightarrow> 'r parent_buffer \<Rightarrow> 'w \<Rightarrow> 'r parent_buffer \<times> 'w" where
  "pp_replay_all clk replay [] b w = (b, w)"
| "pp_replay_all clk replay (x # xs) b w =
     (case replay (w_replay x) w of
        (w', calls) \<Rightarrow> pp_replay_all clk replay xs (fold (pp_call clk) calls b) w')"

definition pp_pop :: "(nat \<Rightarrow> int) \<Rightarrow> 'r parent_buffer \<Rightarrow> 'r parent_buffer \<times> 'r waiting list" where
  "pp_pop clk b =
     (case bh_release (clk (pb_ticks b)) [hd (pb_queue b)] (pb_hold b) of
        (h, out) \<Rightarrow> (b\<lparr>pb_hold := h, pb_queue := tl (pb_queue b), pb_ticks := Suc (pb_ticks b)\<rparr>,
                     map h_entry out))"

partial_function (option) pp_drain ::
  "(nat \<Rightarrow> int) \<Rightarrow> ('r \<Rightarrow> 'w \<Rightarrow> 'w \<times> 'r parent_call list) \<Rightarrow> 'r parent_buffer \<Rightarrow> 'w \<Rightarrow> nat
    \<Rightarrow> ('r parent_buffer \<times> 'w \<times> nat) option" where
  "pp_drain clk replay b w replayed =
     (if pb_queue b = [] then Some (b, w, replayed)
      else pp_drain clk replay
             (fst (pp_replay_all clk replay (snd (pp_pop clk b)) (fst (pp_pop clk b)) w))
             (snd (pp_replay_all clk replay (snd (pp_pop clk b)) (fst (pp_pop clk b)) w))
             (replayed + length (snd (pp_pop clk b))))"

definition pp_release ::
  "(nat \<Rightarrow> int) \<Rightarrow> ('r \<Rightarrow> 'w \<Rightarrow> 'w \<times> 'r parent_call list) \<Rightarrow> string \<Rightarrow> string \<Rightarrow> string
    \<Rightarrow> 'r parent_buffer \<Rightarrow> 'w \<Rightarrow> ('r parent_buffer \<times> 'w \<times> nat) option" where
  "pp_release clk replay space_id kind parent_id b w =
     (let b0 = b\<lparr>pb_queue := pb_queue b @ [HoldKey space_id kind parent_id]\<rparr>
      in if pb_draining b then Some (b0, w, 0)
         else case pp_drain clk replay (b0\<lparr>pb_draining := True\<rparr>) w 0 of
                None \<Rightarrow> None
              | Some (b', w', n) \<Rightarrow> Some (b'\<lparr>pb_draining := False\<rparr>, w', n))"

subsection \<open>The drain comes to an end\<close>

definition pp_weight :: "'r parent_buffer \<Rightarrow> nat" where
  "pp_weight b = 2 * size (bh_content (pb_hold b)) + length (pb_queue b)"

lemma pp_hold_effect:
  assumes "bh_inv (pb_hold b)"
  shows "bh_inv (pb_hold (fst (pp_hold clk sid kind pid tok snd' z r l b)))"
    and "size (bh_content (pb_hold (fst (pp_hold clk sid kind pid tok snd' z r l b)))) \<le> Suc (size (bh_content (pb_hold b)))"
    and "pb_queue (fst (pp_hold clk sid kind pid tok snd' z r l b)) = pb_queue b"
proof -
  let ?a = "(clk (pb_ticks b), clk (Suc (pb_ticks b)), \<lparr>w_replay = r, w_label = l\<rparr>, tok, snd', z + 512)"
  let ?put = "bh_put ?a (HoldKey sid kind pid) (pb_hold b)"
  have sz: "size (bh_content (fst ?put)) \<le> Suc (size (bh_content (pb_hold b)))"
    using assms by (rule bhold.put_size)
  show "bh_inv (pb_hold (fst (pp_hold clk sid kind pid tok snd' z r l b)))"
    using assms bhold.put_inv [OF assms, of ?a] by (simp add: pp_hold_def case_prod_beta)
  show "size (bh_content (pb_hold (fst (pp_hold clk sid kind pid tok snd' z r l b)))) \<le> Suc (size (bh_content (pb_hold b)))"
    using sz by (simp add: pp_hold_def case_prod_beta)
  show "pb_queue (fst (pp_hold clk sid kind pid tok snd' z r l b)) = pb_queue b"
    by (simp add: pp_hold_def case_prod_beta)
qed

lemma pp_call_effect:
  assumes "bh_inv (pb_hold b)"
  shows "bh_inv (pb_hold (pp_call clk c b)) \<and> pp_weight (pp_call clk c b) \<le> pp_weight b + 2"
proof (cases c)
  case (PC_Hold sid kind pid tok sndr z r l)
  then show ?thesis
    using pp_hold_effect [OF assms, of clk sid kind pid tok sndr z r l] by (simp add: pp_weight_def)
qed (use assms in \<open>simp add: pp_weight_def\<close>)

lemma pp_calls_effect:
  "bh_inv (pb_hold b) \<Longrightarrow> bh_inv (pb_hold (fold (pp_call clk) cs b))
     \<and> pp_weight (fold (pp_call clk) cs b) \<le> pp_weight b + 2 * length cs"
proof (induction cs arbitrary: b)
  case Nil
  then show ?case by simp
next
  case (Cons c cs)
  note c = pp_call_effect [OF Cons.prems, of clk c]
  from Cons.IH [OF conjunct1 [OF c]] c show ?case by auto
qed

lemma pp_replay_all_effect:
  assumes "\<And>r w. length (snd (replay r w)) \<le> 1" and "bh_inv (pb_hold b)"
  shows "bh_inv (pb_hold (fst (pp_replay_all clk replay xs b w)))
     \<and> pp_weight (fst (pp_replay_all clk replay xs b w)) \<le> pp_weight b + 2 * length xs"
  using assms(2)
proof (induction xs arbitrary: b w)
  case Nil
  then show ?case by simp
next
  case (Cons x xs)
  obtain w' calls where c: "replay (w_replay x) w = (w', calls)" by force
  have "length calls \<le> 1" using assms(1) [of "w_replay x" w] by (simp add: c)
  moreover note pp_calls_effect [OF Cons.prems, of clk calls]
  moreover note Cons.IH [of "fold (pp_call clk) calls b" w']
  ultimately show ?case by (auto simp: c)
qed

lemma pp_pop_effect:
  assumes inv: "bh_inv (pb_hold b)" and q: "pb_queue b \<noteq> []"
  shows "bh_inv (pb_hold (fst (pp_pop clk b)))"
    and "pp_weight (fst (pp_pop clk b)) + 2 * length (snd (pp_pop clk b)) < pp_weight b"
proof -
  let ?n = "clk (pb_ticks b)" and ?ks = "[hd (pb_queue b)]"
  show "bh_inv (pb_hold (fst (pp_pop clk b)))"
    using bhold.take_inv [OF inv, of ?n ?ks] by (simp add: pp_pop_def case_prod_beta)
  show "pp_weight (fst (pp_pop clk b)) + 2 * length (snd (pp_pop clk b)) < pp_weight b"
    using bhold.take_size [OF inv, of ?n ?ks] q
    by (cases "pb_queue b") (auto simp: pp_pop_def pp_weight_def case_prod_beta)
qed

lemma pp_drain_returns:
  assumes calls: "\<And>r w. length (snd (replay r w)) \<le> 1" and inv: "bh_inv (pb_hold b)"
  shows "\<exists>b' w' n. pp_drain clk replay b w k = Some (b', w', n) \<and> pb_queue b' = [] \<and> bh_inv (pb_hold b')"
  using inv
proof (induction "pp_weight b" arbitrary: b w k rule: less_induct)
  case less
  show ?case
  proof (cases "pb_queue b = []")
    case True
    with less.prems show ?thesis by (simp add: pp_drain.simps)
  next
    case False
    let ?p = "fst (pp_pop clk b)" and ?xs = "snd (pp_pop clk b)"
    let ?r = "pp_replay_all clk replay ?xs ?p w"
    note pop = pp_pop_effect [OF less.prems False, of clk]
    note rep = pp_replay_all_effect [where replay = replay and b = ?p and clk = clk and xs = ?xs and w = w, OF calls pop(1)]
    have "pp_weight (fst ?r) < pp_weight b" using pop(2) rep by linarith
    from less.hyps [OF this conjunct1 [OF rep], where w = "snd ?r" and k = "k + length ?xs"] False
    show ?thesis by (simp add: pp_drain.simps [of clk replay b])
  qed
qed

text \<open>
  A parent's landing always finishes its drain: if each replay makes at most one call on the
  buffer (it lands one row, whose own landing is enqueued, or it waits again under another parent),
  then \<open>release\<close> returns, the queue of landed parents is empty and the buffer is open for the next
  drain, with its bounds intact.
\<close>

theorem parent_release_returns:
  assumes calls: "\<And>r w. length (snd (replay r w)) \<le> 1"
    and inv: "bh_inv (pb_hold b)" and idle: "\<not> pb_draining b"
  shows "\<exists>b' w' n. pp_release clk replay sid kind pid b w = Some (b', w', n)
           \<and> pb_queue b' = [] \<and> \<not> pb_draining b' \<and> bh_inv (pb_hold b')"
proof -
  let ?b = "b\<lparr>pb_queue := pb_queue b @ [HoldKey sid kind pid], pb_draining := True\<rparr>"
  have "bh_inv (pb_hold ?b)" using inv by simp
  from pp_drain_returns [where replay = replay and clk = clk and w = w and k = 0, OF calls this] obtain b' w' n
    where "pp_drain clk replay ?b w 0 = Some (b', w', n)" "pb_queue b' = []" "bh_inv (pb_hold b')" by blast
  with idle show ?thesis by (simp add: pp_release_def)
qed

text \<open>A replay that only ever reports its own row as landed, run on a fresh buffer.\<close>

theorem parent_release_returns_witness:
  "\<exists>b' w' n. pp_release int (\<lambda>r w. (w + 1, [PC_Release ''sp'' ''comment'' r])) ''sp'' ''post'' ''p1''
      (pp_new :: string parent_buffer) (0::nat) = Some (b', w', n)
    \<and> pb_queue b' = [] \<and> \<not> pb_draining b' \<and> bh_inv (pb_hold b')"
proof (rule parent_release_returns)
  show "bh_inv (pb_hold (pp_new :: string parent_buffer))"
    unfolding pp_new_def by (simp add: bh_inv_new)
qed (simp_all add: pp_new_def)

end
