(* ===== verification/Event_Classification.thy ===== *)
theory Event_Classification
  imports Federation_Types
begin

text \<open>
  The classification of the space vocabulary is exhaustive and exclusive, as the comments on
  \<open>SPACE_WRITE_EVENT_TYPES\<close> and \<open>SPACE_READER_EVENT_TYPES\<close> promise. The lists are compared by
  position (each entry of one list is looked up in the other at a given index), which keeps the
  evaluation linear in the vocabulary.
\<close>

definition in_space_family :: "event_type \<Rightarrow> bool" where
  "in_space_family v \<longleftrightarrow> has_prefix ''space_'' v \<or> has_prefix ''bazaar_'' v"

lemma space_vocabulary_in_gates:
  "filter in_space_family federation_event_types
     = map ((!) (space_write_types @ space_reader_types))
       [56, 57, 58, 59, 60, 61, 62, 63, 64, 65, 66, 67, 70, 71, 73, 72, 74, 75, 76, 77, 78, 79,
        80, 81, 82, 83, 84, 85, 86, 87, 88, 89, 93, 94, 95, 96, 0, 1, 2, 3, 4, 5, 6, 68, 7, 8,
        9, 10, 11, 12, 13, 14, 15, 16, 17, 18, 19, 20, 21, 22, 23, 24, 25, 26, 27, 28, 29, 46,
        47, 48, 49, 50, 51, 52, 53, 54, 55, 121, 30, 31, 32, 33, 35, 34, 36, 37, 38, 39, 40, 41,
        42, 43, 44, 45, 97, 98, 99, 100, 101, 103, 104, 105, 106, 107, 108, 109, 110, 111, 112,
        113, 114, 115, 116, 117, 90, 91, 92, 69, 102, 118, 119, 120]"
  by code_simp

lemma gates_in_space_vocabulary:
  "space_write_types @ space_reader_types
     = map ((!) (filter in_space_family federation_event_types))
       [36, 37, 38, 39, 40, 41, 42, 44, 45, 46, 47, 48, 49, 50, 51, 52, 53, 54, 55, 56, 57, 58,
        59, 60, 61, 62, 63, 64, 65, 66, 78, 79, 80, 81, 83, 82, 84, 85, 86, 87, 88, 89, 90, 91,
        92, 93, 67, 68, 69, 70, 71, 72, 73, 74, 75, 76, 0, 1, 2, 3, 4, 5, 6, 7, 8, 9, 10, 11,
        43, 117, 12, 13, 15, 14, 16, 17, 18, 19, 20, 21, 22, 23, 24, 25, 26, 27, 28, 29, 30, 31,
        114, 115, 116, 32, 33, 34, 35, 94, 95, 96, 97, 98, 118, 99, 100, 101, 102, 103, 104,
        105, 106, 107, 108, 109, 110, 111, 112, 113, 119, 120, 121, 77]"
  by code_simp

lemma gates_distinct: "distinct (map rev (space_write_types @ space_reader_types))"
  by code_simp

lemma archived_removals_filter:
  "archived_allowed_removals = filter (has_suffix ''_deleted'') space_write_types"
  by code_simp

lemma gates_cover: "set (filter in_space_family federation_event_types) = set (space_write_types @ space_reader_types)"
proof
  have len: "length (filter in_space_family federation_event_types) = 122"
    by (simp add: space_vocabulary_in_gates)
  have len': "length (space_write_types @ space_reader_types) = 122"
    by (simp add: gates_in_space_vocabulary)
  show "set (filter in_space_family federation_event_types) \<subseteq> set (space_write_types @ space_reader_types)"
    unfolding space_vocabulary_in_gates set_map using len' by (intro image_subsetI nth_mem) auto
  show "set (space_write_types @ space_reader_types) \<subseteq> set (filter in_space_family federation_event_types)"
    unfolding gates_in_space_vocabulary set_map using len by (intro image_subsetI nth_mem) auto
qed

lemma gates_disjoint: "set space_write_types \<inter> set space_reader_types = {}"
  using gates_distinct unfolding distinct_map distinct_append by blast

text \<open>
  Every event type of the \<open>space_*\<close> and \<open>bazaar_*\<close> families is classified as exactly one of
  "write" and "reader" vocabulary, and nothing outside those families is classified at all; so the
  follower gate's default for an unclassified space type cannot arise. The removals an archived
  space still takes are exactly the write types named \<open>*_deleted\<close>.
\<close>

theorem space_vocabulary_classified:
  "(v \<in> set federation_event_types \<and> in_space_family v
      \<longleftrightarrow> (v \<in> set space_write_types) \<noteq> (v \<in> set space_reader_types))
   \<and> (v \<in> set archived_allowed_removals
      \<longleftrightarrow> v \<in> set space_write_types \<and> has_suffix ''_deleted'' v)"
proof -
  have "v \<in> set federation_event_types \<and> in_space_family v
      \<longleftrightarrow> v \<in> set space_write_types \<or> v \<in> set space_reader_types"
    using gates_cover by (simp add: set_eq_iff)
  moreover have "\<not> (v \<in> set space_write_types \<and> v \<in> set space_reader_types)"
    using gates_disjoint by blast
  moreover have "v \<in> set archived_allowed_removals \<longleftrightarrow> v \<in> set space_write_types \<and> has_suffix ''_deleted'' v"
    by (subst archived_removals_filter) auto
  ultimately show ?thesis by blast
qed

end
