(* ===== verification/Rate_Limiter.thy ===== *)
theory Rate_Limiter
  imports Prelude Complex_Main
begin

text \<open>
  The in-memory sliding-window limiter of \<open>rate_limiter.py\<close> and the rule selection of its middleware.
  The monotonic clock reading is an argument of each operation (exact rationals; rounding of floats is
  not modelled); the windows are an insertion-ordered dict of time lists.
\<close>

section \<open>The limiter\<close>

type_synonym limiter = "(string \<times> rat list) list"

definition rl_times :: "string \<Rightarrow> limiter \<Rightarrow> rat list" where
  "rl_times key w = (case map_of w key of None \<Rightarrow> [] | Some ts \<Rightarrow> ts)"

definition rl_is_allowed :: "rat \<Rightarrow> string \<Rightarrow> int \<Rightarrow> int \<Rightarrow> limiter \<Rightarrow> bool \<times> limiter" where
  "rl_is_allowed now key limit window_s w =
     (let cutoff = now - of_int window_s;
          times = filter (\<lambda>t. t > cutoff) (rl_times key w)
      in if int (length times) \<ge> limit then (False, AList.update key times w)
         else (True, AList.update key (times @ [now]) w))"

text \<open>\<open>_bucket\<close>: \<open>"{user_id}:{first two path segments}"\<close>.\<close>

definition rl_bucket :: "string \<Rightarrow> string \<Rightarrow> string" where
  "rl_bucket user_id path =
     (let parts = take 2 (split_char (CHR ''/'') (strip_char (CHR ''/'') path))
      in user_id @ '':'' @ join_with ''/'' parts)"

definition rl_check :: "rat \<Rightarrow> string \<Rightarrow> string \<Rightarrow> int \<Rightarrow> int \<Rightarrow> limiter \<Rightarrow> bool \<times> limiter" where
  "rl_check now user_id path limit window_s w =
     (let bucket = rl_bucket user_id path;
          cutoff = now - of_int window_s;
          times = filter (\<lambda>t. t > cutoff) (rl_times bucket w)
      in if int (length times) \<ge> limit then (False, AList.update bucket times w)
         else (True, AList.update bucket (times @ [now]) w))"

definition rl_has_room :: "rat \<Rightarrow> string \<Rightarrow> int \<Rightarrow> int \<Rightarrow> limiter \<Rightarrow> bool" where
  "rl_has_room now key limit window_s w =
     (let cutoff = now - of_int window_s
      in int (sum_list (map (\<lambda>t. if t > cutoff then 1 else 0) (rl_times key w))) < limit)"

definition rl_retry_after_s :: "rat \<Rightarrow> string \<Rightarrow> int \<Rightarrow> limiter \<Rightarrow> int" where
  "rl_retry_after_s now key window_s w =
     (case rl_times key w of
        [] \<Rightarrow> 0
      | t # ts \<Rightarrow> (let remaining = t + of_int window_s - now in max 1 \<lceil>remaining\<rceil>))"

definition rl_prune :: "rat \<Rightarrow> int \<Rightarrow> string \<Rightarrow> limiter \<Rightarrow> limiter" where
  "rl_prune now window_s prefix w =
     (let cutoff = now - of_int window_s;
          idle = map fst (filter (\<lambda>(k, t). has_prefix prefix k \<and> (t = [] \<or> last t \<le> cutoff)) w)
      in fold AList.delete idle w)"

definition rl_reset :: "string option \<Rightarrow> limiter \<Rightarrow> limiter" where
  "rl_reset bucket_or_key w = (case bucket_or_key of None \<Rightarrow> [] | Some k \<Rightarrow> AList.delete k w)"

definition rl_key_count :: "limiter \<Rightarrow> nat" where
  "rl_key_count w = length w"

lemma rl_check_is_allowed: "rl_check now user path limit window w = rl_is_allowed now (rl_bucket user path) limit window w"
  by (simp add: rl_check_def rl_is_allowed_def Let_def)

lemma rl_times_update [simp]: "rl_times k (AList.update k' ts w) = (if k = k' then ts else rl_times k w)"
  by (simp add: rl_times_def)

lemma rl_has_room_count:
  "rl_has_room now key limit window w \<longleftrightarrow> int (length (filter (\<lambda>t. t > now - of_int window) (rl_times key w))) < limit"
proof -
  have "sum_list (map (\<lambda>t. if t > c then 1 else 0) ts) = length (filter (\<lambda>t. t > c) ts)" for c :: rat and ts
    by (induction ts) auto
  then show ?thesis by (simp add: rl_has_room_def Let_def)
qed

lemma rl_times_prune:
  assumes "distinct (map fst w)"
  shows "rl_times k (rl_prune now window prefix w) =
     (if has_prefix prefix k \<and> (rl_times k w = [] \<or> last (rl_times k w) \<le> now - of_int window) then [] else rl_times k w)"
proof -
  have idle: "k \<in> set (map fst (filter (\<lambda>(k, t). has_prefix prefix k \<and> (t = [] \<or> last t \<le> c)) w))
      \<longleftrightarrow> (\<exists>t. map_of w k = Some t \<and> has_prefix prefix k \<and> (t = [] \<or> last t \<le> c))" for c
    using assms by (force simp: image_iff)
  show ?thesis
    by (cases "map_of w k")
      (auto simp: rl_prune_def Let_def map_of_fold_delete idle rl_times_def simp del: set_map set_filter)
qed

lemma rl_distinct [inv_intros]:
  "distinct (map fst w) \<Longrightarrow> distinct (map fst (snd (rl_is_allowed now key limit window w)))"
  "distinct (map fst w) \<Longrightarrow> distinct (map fst (rl_prune now window prefix w))"
  by (simp_all add: rl_is_allowed_def rl_prune_def Let_def distinct_update distinct_fold_delete)

section \<open>Runs of the limiter\<close>

text \<open>
  Every key is used with one configuration, as each rule of the middleware and each caller of
  \<open>is_allowed\<close> does.  A run records the admitted requests in order.
\<close>

datatype limiter_op =
    Request rat string
  | Sweep rat int string

fun op_time :: "limiter_op \<Rightarrow> rat" where
  "op_time (Request now key) = now"
| "op_time (Sweep now window prefix) = now"

fun rl_run :: "(string \<Rightarrow> int \<times> int) \<Rightarrow> limiter_op list \<Rightarrow> limiter \<Rightarrow> limiter \<times> (string \<times> rat) list" where
  "rl_run conf [] w = (w, [])"
| "rl_run conf (Request now key # ops) w =
     (case rl_is_allowed now key (fst (conf key)) (snd (conf key)) w of (ok, w') \<Rightarrow>
        (case rl_run conf ops w' of (w'', admitted) \<Rightarrow>
           (w'', if ok then (key, now) # admitted else admitted)))"
| "rl_run conf (Sweep now window prefix # ops) w = rl_run conf ops (rl_prune now window prefix w)"

text \<open>A sweep may only forget keys whose own window is no longer than the swept one.\<close>

fun sweep_safe :: "(string \<Rightarrow> int \<times> int) \<Rightarrow> limiter_op \<Rightarrow> bool" where
  "sweep_safe conf (Request now key) = True"
| "sweep_safe conf (Sweep now window prefix) = (\<forall>key. has_prefix prefix key \<longrightarrow> snd (conf key) \<le> window)"

definition admitted_within :: "string \<Rightarrow> rat \<Rightarrow> rat \<Rightarrow> (string \<times> rat) list \<Rightarrow> nat" where
  "admitted_within key lo hi adm = length (filter (\<lambda>(k, t). k = key \<and> lo < t \<and> t \<le> hi) adm)"

section \<open>The sliding-window bound\<close>

definition times_of :: "string \<Rightarrow> (string \<times> rat) list \<Rightarrow> rat list" where
  "times_of key adm = map snd (filter (\<lambda>(k, t). k = key) adm)"

lemma times_of_simps [simp]:
  "times_of key [] = []"
  "times_of key (a @ b) = times_of key a @ times_of key b"
  "times_of key [(k, t)] = (if k = key then [t] else [])"
  by (simp_all add: times_of_def)

lemma admitted_within_times: "admitted_within key lo hi adm = length (filter (\<lambda>t. lo < t \<and> t \<le> hi) (times_of key adm))"
  by (induction adm) (auto simp: admitted_within_def times_of_def)

text \<open>The stored lists agree with the history on everything that can still count.\<close>

definition tracks :: "(string \<Rightarrow> int \<times> int) \<Rightarrow> limiter \<Rightarrow> (string \<times> rat) list \<Rightarrow> rat \<Rightarrow> bool" where
  "tracks conf w hist now \<longleftrightarrow> distinct (map fst w)
     \<and> (\<forall>key. sorted (rl_times key w) \<and> (\<forall>t \<in> set (times_of key hist). t \<le> now)
          \<and> (\<forall>t \<ge> now. filter (\<lambda>s. s > t - of_int (snd (conf key))) (rl_times key w)
                      = filter (\<lambda>s. s > t - of_int (snd (conf key))) (times_of key hist)))"

lemma tracksD:
  assumes "tracks conf w hist now"
  shows "distinct (map fst w)" "sorted (rl_times key w)" "t \<in> set (times_of key hist) \<Longrightarrow> t \<le> now"
    "now \<le> t \<Longrightarrow> filter (\<lambda>s. s > t - of_int (snd (conf key))) (rl_times key w)
       = filter (\<lambda>s. s > t - of_int (snd (conf key))) (times_of key hist)"
  using assms by (auto simp: tracks_def)

lemma tracks_later: "tracks conf w hist t0 \<Longrightarrow> t0 \<le> now \<Longrightarrow> tracks conf w hist now"
  unfolding tracks_def by (meson order_trans)

lemma filter_filter_gt:
  fixes c c' :: rat
  assumes "c \<le> c'"
  shows "filter (\<lambda>s. c' < s) (filter (\<lambda>s. c < s) xs) = filter (\<lambda>s. c' < s) xs"
  using assms by (induction xs) auto

lemma rl_prune_tracks:
  assumes "tracks conf w hist now" "sweep_safe conf (Sweep now window prefix)"
  shows "tracks conf (rl_prune now window prefix w) hist now"
proof -
  let ?gone = "\<lambda>key. has_prefix prefix key \<and> (rl_times key w = [] \<or> last (rl_times key w) \<le> now - of_int window)"
  have none: "filter (\<lambda>s. s > t - of_int (snd (conf key))) (rl_times key w) = []" if "?gone key" "now \<le> t" for key t
  proof -
    from assms(2) that have "snd (conf key) \<le> window" by simp
    then have le: "now - of_int window \<le> t - of_int (snd (conf key))" using that(2)
      by (metis diff_mono of_int_le_iff)
    have "s \<le> last (rl_times key w)" if "s \<in> set (rl_times key w)" for s
      using tracksD(2) [OF assms(1)] that by (rule sorted_le_last)
    with that(1) le show ?thesis by (fastforce simp: filter_empty_conv)
  qed
  show ?thesis
    unfolding tracks_def rl_times_prune [OF tracksD(1) [OF assms(1)]]
    using tracksD [OF assms(1)] none rl_distinct(2) [OF tracksD(1) [OF assms(1)]] by auto
qed

lemma rl_allowed_tracks:
  assumes "tracks conf w hist now"
    and "rl_is_allowed now key (fst (conf key)) (snd (conf key)) w = (ok, w')"
  shows "tracks conf w' (if ok then hist @ [(key, now)] else hist) now"
proof -
  let ?live = "filter (\<lambda>t. t > now - of_int (snd (conf key))) (rl_times key w)"
  have d: "distinct (map fst w')" using rl_distinct(1) [OF tracksD(1) [OF assms(1)]] assms(2) by (metis snd_conv)
  have times: "rl_times k w' = (if k = key then (if ok then ?live @ [now] else ?live) else rl_times k w)" for k
    using assms(2) by (auto simp: rl_is_allowed_def Let_def split: if_splits)
  have live: "filter (\<lambda>s. s > t - of_int (snd (conf key))) ?live
      = filter (\<lambda>s. s > t - of_int (snd (conf key))) (times_of key hist)" if "now \<le> t" for t
    using tracksD(4) [OF assms(1), of t key] that by (subst filter_filter_gt) auto
  have sorted: "sorted ?live" using tracksD(2) [OF assms(1)] by (simp add: sorted_wrt_filter)
  have upto: "s \<le> now" if "s \<in> set ?live" for s
  proof -
    have "s \<in> set (filter (\<lambda>t. t > now - of_int (snd (conf key))) (times_of key hist))"
      using that tracksD(4) [OF assms(1) order_refl, of key] by simp
    then show ?thesis using tracksD(3) [OF assms(1)] by auto
  qed
  show ?thesis
    unfolding tracks_def times using d live sorted upto tracksD(2-4) [OF assms(1)]
    by (auto simp: sorted_append simp del: filter_filter)
qed

lemma rl_allowed_bound:
  assumes "tracks conf w hist now" "rl_is_allowed now key (fst (conf key)) (snd (conf key)) w = (True, w')"
    and bound: "int (admitted_within k (t - of_int (snd (conf k))) t hist) \<le> max 0 (fst (conf k))"
  shows "int (admitted_within k (t - of_int (snd (conf k))) t (hist @ [(key, now)])) \<le> max 0 (fst (conf k))"
proof (cases "k = key \<and> t - of_int (snd (conf k)) < now \<and> now \<le> t")
  case True
  then have k: "k = key" and lo: "now - of_int (snd (conf key)) \<le> t - of_int (snd (conf key))" by auto
  let ?h = "times_of key hist"
  have "length (filter (\<lambda>s. t - of_int (snd (conf key)) < s \<and> s \<le> t) ?h)
      \<le> length (filter (\<lambda>s. now - of_int (snd (conf key)) < s) ?h)"
    using lo by (intro length_filter_mono) auto
  moreover have "filter (\<lambda>s. now - of_int (snd (conf key)) < s) ?h
      = filter (\<lambda>s. now - of_int (snd (conf key)) < s) (rl_times key w)"
    using tracksD(4) [OF assms(1) order_refl, of key] by simp
  moreover have "int (length (filter (\<lambda>s. now - of_int (snd (conf key)) < s) (rl_times key w))) < fst (conf key)"
    using assms(2) by (auto simp: rl_is_allowed_def Let_def split: if_splits)
  ultimately have "int (Suc (length (filter (\<lambda>s. t - of_int (snd (conf key)) < s \<and> s \<le> t) ?h))) \<le> fst (conf key)"
    by simp
  with True show ?thesis by (simp add: admitted_within_times)
next
  case False
  then show ?thesis using bound by (auto simp: admitted_within_times)
qed

lemma rl_run_bound:
  assumes "tracks conf w hist t0" "sorted (map op_time ops)" "\<forall>p \<in> set ops. t0 \<le> op_time p" "\<forall>p \<in> set ops. sweep_safe conf p"
    and "\<And>k t. int (admitted_within k (t - of_int (snd (conf k))) t hist) \<le> max 0 (fst (conf k))"
  shows "int (admitted_within k (t - of_int (snd (conf k))) t (hist @ snd (rl_run conf ops w))) \<le> max 0 (fst (conf k))"
  using assms
proof (induction conf ops w arbitrary: hist t0 rule: rl_run.induct)
  case (2 conf now key ops w)
  obtain ok w' where r: "rl_is_allowed now key (fst (conf key)) (snd (conf key)) w = (ok, w')" by fastforce
  let ?h = "if ok then hist @ [(key, now)] else hist"
  have "int (admitted_within k (t - of_int (snd (conf k))) t (?h @ snd (rl_run conf ops w'))) \<le> max 0 (fst (conf k))"
  proof (rule "2.IH" [OF r [symmetric]])
    have now: "tracks conf w hist now" by (rule tracks_later [of _ _ _ t0]) (use 2 in auto)
    show "tracks conf w' ?h now" by (rule rl_allowed_tracks [OF now r])
    show "int (admitted_within k (t - of_int (snd (conf k))) t ?h) \<le> max 0 (fst (conf k))" for k t
      using 2 r rl_allowed_bound [OF now, of key w' k t] by (cases ok) auto
  qed (use 2 in auto)
  then show ?case by (cases ok) (simp_all add: r case_prod_beta)
next
  case (3 conf now window prefix ops w)
  have "tracks conf (rl_prune now window prefix w) hist now"
    by (rule rl_prune_tracks, rule tracks_later [of _ _ _ t0]) (use 3 in auto)
  from "3.IH" [OF this] 3 show ?case by simp
qed auto

section \<open>The middleware\<close>

text \<open>
  \<open>build_rate_limit_middleware\<close>.  \<open>fnm path pattern\<close> is the standard library's \<open>fnmatch.fnmatchcase\<close>,
  a parameter; \<open>remote\<close> is the client address after \<open>client_bucket\<close>.  One clock reading per request.
\<close>

record middleware_conf =
  mc_limits :: "(string \<times> (int \<times> int)) list"
  mc_default :: "int \<times> int"
  mc_signed_rules :: "string list"
  mc_signed_principal :: string

record middleware_state =
  ms_windows :: limiter
  ms_last_sweep :: rat

fun rl_method_rules ::
  "(string \<times> (int \<times> int)) list \<Rightarrow> (string \<times> string list \<times> string \<times> int \<times> int) list" where
  "rl_method_rules [] = []"
| "rl_method_rules ((key, limit, window_s) # limits) =
     (case partition_char (CHR '' '') key of (methods, sep, pattern) \<Rightarrow>
        if sep \<noteq> [] \<and> has_prefix ''/'' pattern
        then (key, split_char (CHR ''|'') (ascii_upper methods), pattern, limit, window_s) # rl_method_rules limits
        else rl_method_rules limits)"

fun rl_path_limits :: "(string \<times> (int \<times> int)) list \<Rightarrow> (string \<times> (int \<times> int)) list" where
  "rl_path_limits [] = []"
| "rl_path_limits ((key, limit, window_s) # limits) =
     (case partition_char (CHR '' '') key of (methods, sep, pattern) \<Rightarrow>
        if sep \<noteq> [] \<and> has_prefix ''/'' pattern then rl_path_limits limits
        else (key, limit, window_s) # rl_path_limits limits)"

definition is_glob :: "string \<Rightarrow> bool" where
  "is_glob pattern \<longleftrightarrow> CHR ''*'' \<in> set pattern"

fun best_prefix :: "string \<Rightarrow> (string \<times> (int \<times> int)) list \<Rightarrow> string option \<Rightarrow> string option" where
  "best_prefix path [] best = best"
| "best_prefix path ((pattern, lw) # limits) best =
     best_prefix path limits
       (if \<not> is_glob pattern \<and> has_prefix pattern path
           \<and> (case best of None \<Rightarrow> True | Some b \<Rightarrow> length pattern > length b)
        then Some pattern else best)"

definition pick_path :: "(string \<Rightarrow> string \<Rightarrow> bool) \<Rightarrow> int \<times> int \<Rightarrow> (string \<times> (int \<times> int)) list \<Rightarrow> string
    \<Rightarrow> string option \<times> int \<times> int" where
  "pick_path fnm dflt limits path =
     (case find (\<lambda>(pattern, lw). is_glob pattern \<and> fnm path pattern) limits of
        Some (pattern, limit, window_s) \<Rightarrow> (Some pattern, limit, window_s)
      | None \<Rightarrow>
         (case best_prefix path limits None of
            Some best \<Rightarrow> (case map_of limits best of
                Some (limit, window_s) \<Rightarrow> (Some best, limit, window_s)
              | None \<Rightarrow> (None, dflt))
          | None \<Rightarrow> (None, dflt)))"

definition pick_rule :: "(string \<Rightarrow> string \<Rightarrow> bool) \<Rightarrow> middleware_conf \<Rightarrow> string \<Rightarrow> string \<Rightarrow> string option \<times> int \<times> int" where
  "pick_rule fnm mc method path =
     (case find (\<lambda>(key, methods, pattern, lw). ascii_upper method \<in> set methods
              \<and> (if is_glob pattern then fnm path pattern else path = pattern)) (rl_method_rules (mc_limits mc)) of
        Some (key, methods, pattern, limit, window_s) \<Rightarrow> (Some key, limit, window_s)
      | None \<Rightarrow> pick_path fnm (mc_default mc) (rl_path_limits (mc_limits mc)) path)"

definition per_client_window :: "middleware_conf \<Rightarrow> int" where
  "per_client_window mc =
     (case map (\<lambda>r. snd (the (map_of (mc_limits mc) r))) (mc_signed_rules mc) of
        [] \<Rightarrow> 0 | w # ws \<Rightarrow> fold max ws w)"

text \<open>The factory refuses signed rules that are not rules at all.\<close>

definition build_middleware :: "middleware_conf \<Rightarrow> rat \<Rightarrow> limiter \<Rightarrow> exn + middleware_state" where
  "build_middleware mc now w =
     (if set (mc_signed_rules mc) \<subseteq> set (map fst (mc_limits mc)) then Inr \<lparr>ms_windows = w, ms_last_sweep = now\<rparr>
      else Inl ValueError)"

definition middleware_owner :: "middleware_conf \<Rightarrow> string \<Rightarrow> string \<Rightarrow> string \<Rightarrow> string" where
  "middleware_owner mc user_id remote rule =
     (if user_id = mc_signed_principal mc \<and> rule \<in> set (mc_signed_rules mc)
      then (mc_signed_principal mc @ ''@'') @ remote else user_id)"

text \<open>\<open>True\<close>: the handler runs; \<open>False\<close>: 429 \<open>RATE_LIMITED\<close>.\<close>

definition rl_middleware :: "(string \<Rightarrow> string \<Rightarrow> bool) \<Rightarrow> middleware_conf \<Rightarrow> rat \<Rightarrow> string option \<Rightarrow> string \<Rightarrow> string \<Rightarrow> string
    \<Rightarrow> middleware_state \<Rightarrow> bool \<times> middleware_state" where
  "rl_middleware fnm mc now user remote method path s =
     (case user of
        None \<Rightarrow> (True, s)
      | Some user_id \<Rightarrow>
         (case pick_rule fnm mc method path of
            (Some rule, limit, window_s) \<Rightarrow>
              (let signed = (user_id = mc_signed_principal mc \<and> rule \<in> set (mc_signed_rules mc));
                   s = (if signed \<and> now - ms_last_sweep s \<ge> of_int (per_client_window mc)
                        then s\<lparr>ms_last_sweep := now,
                               ms_windows := rl_prune now (per_client_window mc) (mc_signed_principal mc @ ''@'') (ms_windows s)\<rparr>
                        else s);
                   (allowed, w) = rl_is_allowed now (middleware_owner mc user_id remote rule @ '':rule:'' @ rule) limit window_s (ms_windows s)
               in (allowed, s\<lparr>ms_windows := w\<rparr>))
          | (None, limit, window_s) \<Rightarrow>
              (case rl_check now user_id path limit window_s (ms_windows s) of
                 (allowed, w) \<Rightarrow> (allowed, s\<lparr>ms_windows := w\<rparr>))))"

section \<open>Properties\<close>

text \<open>
  C25. The sliding-window bound.  Whatever requests for whatever keys arrive, with idle keys swept in
  between, no key is ever admitted more than its limit within any window of its length.
\<close>

theorem limiter_never_exceeds_limit:
  assumes "sorted (map op_time ops)" "\<forall>p \<in> set ops. sweep_safe conf p" "0 \<le> fst (conf key)"
  shows "int (admitted_within key (t - of_int (snd (conf key))) t (snd (rl_run conf ops []))) \<le> fst (conf key)"
proof (cases ops)
  case (Cons p ps)
  have "tracks conf [] [] (op_time p)" by (simp add: tracks_def rl_times_def)
  from rl_run_bound [OF this assms(1) _ assms(2), of key t] assms(1,3) Cons
  show ?thesis by (auto simp: admitted_within_def)
qed (use assms in \<open>simp add: admitted_within_def\<close>)

theorem limiter_never_exceeds_limit_witness:
  "snd (rl_run (\<lambda>_. (2, 60)) [Request 0 ''u'', Request 1 ''u'', Request 2 ''u'', Sweep 3 60 [], Request 60 ''u''] [])
     = [(''u'', 0), (''u'', 1), (''u'', 60)]
   \<and> int (admitted_within ''u'' (60 - of_int (snd ((\<lambda>_. (2, 60)) ''u'' :: int \<times> int))) 60
        (snd (rl_run (\<lambda>_. (2, 60)) [Request 0 ''u'', Request 1 ''u'', Request 2 ''u'', Sweep 3 60 [], Request 60 ''u''] []))) \<le> 2"
proof
  show "snd (rl_run (\<lambda>_. (2, 60)) [Request 0 ''u'', Request 1 ''u'', Request 2 ''u'', Sweep 3 60 [], Request 60 ''u''] [])
     = [(''u'', 0), (''u'', 1), (''u'', 60)]"
    by (simp add: rl_is_allowed_def rl_prune_def rl_times_def Let_def)
  show "int (admitted_within ''u'' (60 - of_int (snd ((\<lambda>_. (2, 60)) ''u'' :: int \<times> int))) 60
        (snd (rl_run (\<lambda>_. (2, 60)) [Request 0 ''u'', Request 1 ''u'', Request 2 ''u'', Sweep 3 60 [], Request 60 ''u''] []))) \<le> 2"
    using limiter_never_exceeds_limit [of "[Request 0 ''u'', Request 1 ''u'', Request 2 ''u'', Sweep 3 60 [], Request 60 ''u'']"
        "\<lambda>_. (2, 60)" "''u''" 60] by simp
qed

lemma refused_state:
  assumes "rl_is_allowed now key limit window w = (False, w')"
  shows "rl_times key w' = filter (\<lambda>t. t > now - of_int window) (rl_times key w)"
    and "limit \<le> int (length (rl_times key w'))"
  using assms by (auto simp: rl_is_allowed_def Let_def split: if_splits)

lemma allowed_iff: "fst (rl_is_allowed now key limit window w) \<longleftrightarrow> int (length (filter (\<lambda>t. t > now - of_int window) (rl_times key w))) < limit"
  by (simp add: rl_is_allowed_def Let_def)

text \<open>
  C23. \<open>Retry-After\<close> is exact.  After a refusal of a bucket that was full and not over-full, the bucket
  refuses until its oldest live request leaves the window and admits from then on.  The advertised number
  of seconds is the first positive whole number at which the caller succeeds: a caller who waits that long
  or longer is admitted, one who comes back after any smaller whole number of seconds is refused.
\<close>

theorem retry_after_exact:
  assumes "rl_is_allowed now key limit window w = (False, w')" "sorted (rl_times key w)"
    and "int (length (rl_times key w')) = limit" "0 < limit" "now \<le> later"
  shows "1 \<le> rl_retry_after_s now key window w'
    \<and> (\<forall>k \<in> {1..<rl_retry_after_s now key window w'}. \<not> fst (rl_is_allowed (now + of_int k) key limit window w'))
    \<and> (now + of_int (rl_retry_after_s now key window w') \<le> later \<longrightarrow> fst (rl_is_allowed later key limit window w'))
    \<and> (fst (rl_is_allowed later key limit window w') \<longleftrightarrow> hd (rl_times key w') + of_int window \<le> later)"
proof -
  from assms(3,4) obtain t ts where w': "rl_times key w' = t # ts" by (cases "rl_times key w'") auto
  have sorted: "sorted (t # ts)" using assms(2) w' refused_state(1) [OF assms(1)] by (metis sorted_wrt_filter)
  have exact: "fst (rl_is_allowed later key limit window w') \<longleftrightarrow> t + of_int window \<le> later" for later
  proof
    assume "t + of_int window \<le> later"
    then have "length (filter (\<lambda>s. s > later - of_int window) (t # ts)) < length (t # ts)"
      by (intro length_filter_less [of t]) auto
    then show "fst (rl_is_allowed later key limit window w')" using assms(3) by (simp add: allowed_iff w')
  next
    assume "fst (rl_is_allowed later key limit window w')"
    moreover have "filter (\<lambda>s. s > later - of_int window) (t # ts) = t # ts" if "later < t + of_int window"
      using that sorted by (intro filter_True) auto
    ultimately show "t + of_int window \<le> later" using assms(3) by (fastforce simp: allowed_iff w')
  qed
  have ret: "rl_retry_after_s now key window w' = max 1 \<lceil>t + of_int window - now\<rceil>"
    by (simp add: rl_retry_after_s_def w' Let_def)
  have "t + of_int window - now \<le> of_int \<lceil>t + of_int window - now\<rceil>" by (rule le_of_int_ceiling)
  also have "\<dots> \<le> of_int (rl_retry_after_s now key window w')" unfolding ret by (simp only: of_int_le_iff)
  finally have "t + of_int window \<le> now + of_int (rl_retry_after_s now key window w')" by simp
  moreover have "\<not> t + of_int window \<le> now + of_int k" if "k \<in> {1..<rl_retry_after_s now key window w'}" for k
    using that unfolding ret by (auto simp: less_max_iff_disj less_ceiling_iff)
  ultimately show ?thesis using exact ret w' by auto
qed

theorem retry_after_exact_witness:
  "rl_retry_after_s 20 ''k'' 60 [(''k'', [0, 10])] = 40 \<and> fst (rl_is_allowed 60 ''k'' 2 60 [(''k'', [0, 10])])
    \<and> \<not> fst (rl_is_allowed (20 + of_int 39) ''k'' 2 60 [(''k'', [0, 10])])"
  using retry_after_exact [of 20 "''k''" 2 60 "[(''k'', [0, 10])]" "[(''k'', [0, 10])]" 60]
  by (simp add: rl_is_allowed_def rl_times_def rl_retry_after_s_def Let_def)

text \<open>
  \<open>has_room\<close> answers what \<open>is_allowed\<close> would, for every state and limit, and \<open>check\<close> is
  \<open>is_allowed\<close> on the two-segment bucket: the three entry points share one quota rule.
\<close>

theorem has_room_predicts:
  "rl_has_room now (rl_bucket user path) limit window w = fst (rl_check now user path limit window w)
   \<and> rl_has_room now key limit window w = fst (rl_is_allowed now key limit window w)"
  by (simp add: rl_check_is_allowed rl_has_room_count allowed_iff)

lemma prefixes_same_length: "has_prefix a s \<Longrightarrow> has_prefix b s \<Longrightarrow> length a = length b \<Longrightarrow> a = b"
proof (induction a s arbitrary: b rule: has_prefix.induct)
  case (3 c cs d ds)
  then show ?case by (cases b) auto
qed auto

definition prefix_rules :: "string \<Rightarrow> (string \<times> 'a) list \<Rightarrow> string set" where
  "prefix_rules path limits = {p \<in> fst ` set limits. \<not> is_glob p \<and> has_prefix p path}"

lemma prefix_rules_simps:
  "prefix_rules path [] = {}"
  "prefix_rules path ((p, lw) # limits) = (if \<not> is_glob p \<and> has_prefix p path then {p} else {}) \<union> prefix_rules path limits"
  by (auto simp: prefix_rules_def)

lemma best_prefix_longest:
  "(case best_prefix path limits best of
      None \<Rightarrow> best = None \<and> prefix_rules path limits = {}
    | Some b \<Rightarrow> (b \<in> prefix_rules path limits \<or> best = Some b)
        \<and> (\<forall>p \<in> prefix_rules path limits. length p \<le> length b) \<and> (\<forall>p. best = Some p \<longrightarrow> length p \<le> length b))"
proof (induction path limits best rule: best_prefix.induct)
  case (1 path best)
  then show ?case by (cases best) (simp_all add: prefix_rules_simps)
next
  case (2 path pattern lw limits best)
  show ?case
  proof (cases "\<not> is_glob pattern \<and> has_prefix pattern path")
    case True
    show ?thesis
    proof (cases "case best of None \<Rightarrow> True | Some b \<Rightarrow> length pattern > length b")
      case longer: True
      with 2 True show ?thesis by (auto simp: prefix_rules_simps split: option.splits)
    next
      case False
      then obtain b where b: "best = Some b" "length pattern \<le> length b" by (cases best) auto
      with 2 True show ?thesis by (auto simp: prefix_rules_simps split: option.splits)
    qed
  next
    case False
    have step: "(if \<not> is_glob pattern \<and> has_prefix pattern path \<and> (case best of None \<Rightarrow> True | Some b \<Rightarrow> length pattern > length b)
        then Some pattern else best) = best" using False by auto
    have "prefix_rules path ((pattern, lw) # limits) = prefix_rules path limits"
      using False by (auto simp: prefix_rules_simps)
    with 2 show ?thesis by (simp only: best_prefix.simps step)
  qed
qed

text \<open>
  Rule selection does not depend on the order in which literal prefixes are listed: with the same
  rules in any order, and no glob among them, the middleware picks the longest matching prefix.
\<close>

theorem pick_path_order_irrelevant:
  assumes "distinct (map fst limits)" "mset limits' = mset limits" "\<forall>p \<in> fst ` set limits. \<not> is_glob p"
  shows "pick_path fnm dflt limits' path = pick_path fnm dflt limits path
    \<and> (case fst (pick_path fnm dflt limits path) of
         Some best \<Rightarrow> best \<in> prefix_rules path limits \<and> (\<forall>p \<in> prefix_rules path limits. length p \<le> length best)
       | None \<Rightarrow> prefix_rules path limits = {})"
proof -
  have set: "set limits' = set limits" using assms(2) by (metis set_mset_mset)
  have d': "distinct (map fst limits')" using assms(1,2) by (metis mset_map mset_eq_imp_distinct_iff)
  have rules: "prefix_rules path limits' = prefix_rules path limits" by (simp add: prefix_rules_def set)
  have lookup: "map_of limits' k = map_of limits k" for k
    by (metis assms(1) d' set map_of_eq_Some_iff not_None_eq)
  have noglob: "find (\<lambda>(pattern, lw). is_glob pattern \<and> fnm path pattern) l = None" if "set l = set limits" for l
    using assms(3) that by (auto simp: find_None_iff)
  have "best_prefix path limits' None = best_prefix path limits None"
  proof (cases "best_prefix path limits None")
    case None
    then have "prefix_rules path limits' = {}" using best_prefix_longest [where path = path and limits = limits and best = None] rules by simp
    then show ?thesis using best_prefix_longest [where path = path and limits = limits' and best = None] None by (auto split: option.splits)
  next
    case (Some b)
    with best_prefix_longest [where path = path and limits = limits and best = None]
    have b: "b \<in> prefix_rules path limits" "\<forall>p \<in> prefix_rules path limits. length p \<le> length b" by auto
    then obtain b' where b': "best_prefix path limits' None = Some b'" "b' \<in> prefix_rules path limits"
        "\<forall>p \<in> prefix_rules path limits. length p \<le> length b'"
      using best_prefix_longest [where path = path and limits = limits' and best = None] rules by (cases "best_prefix path limits' None") auto
    with b have "length b = length b'" by (meson le_antisym)
    with b b' have "b = b'" using prefixes_same_length by (auto simp: prefix_rules_def)
    with b' Some show ?thesis by simp
  qed
  moreover have "case best_prefix path limits None of
         Some best \<Rightarrow> best \<in> prefix_rules path limits \<and> (\<forall>p \<in> prefix_rules path limits. length p \<le> length best) \<and> map_of limits best \<noteq> None
       | None \<Rightarrow> prefix_rules path limits = {}"
    using best_prefix_longest [where path = path and limits = limits and best = None] by (auto simp: prefix_rules_def map_of_eq_None_iff split: option.splits)
  ultimately show ?thesis
    unfolding pick_path_def noglob [OF set] noglob [OF refl] by (auto simp: lookup split: option.splits)
qed

theorem pick_path_order_irrelevant_witness:
  "pick_path (\<lambda>_ _. False) (60, 60) [(''/api/calls'', 10, 60), (''/api/calls/ice'', 30, 60)] ''/api/calls/ice''
     = (Some ''/api/calls/ice'', 30, 60)
   \<and> pick_path (\<lambda>_ _. False) (60, 60) [(''/api/calls/ice'', 30, 60), (''/api/calls'', 10, 60)] ''/api/calls/ice''
     = (Some ''/api/calls/ice'', 30, 60)"
  using pick_path_order_irrelevant [of "[(''/api/calls'', 10, 60), (''/api/calls/ice'', 30, 60)]"
      "[(''/api/calls/ice'', 30, 60), (''/api/calls'', 10, 60)]" "\<lambda>_ _. False" "(60, 60)" "''/api/calls/ice''"]
  by (simp add: pick_path_def is_glob_def)

end
