(* ===== verification/Space_Domain.thy ===== *)
theory Space_Domain
  imports Prelude "HOL-Library.List_Lexorder" "HOL-Library.Char_ord"
begin

text \<open>
  The pure rules of a space (\<open>domain/space.py\<close>): membership roles and who may change them, the roles a
  remote seat may hold, the feature record with its storage and wire forms, the access decision for
  content writes, and the normalisers of stored or received values.

  Strings are ordered as Python orders them (lexicographically by character).
\<close>

section \<open>Normalisers of stored or received scalars\<close>

definition space_categories :: "string list" where
  "space_categories = [''general'', ''local'', ''community'', ''non_profit'', ''family_parenting'', ''learning'',
     ''books_writing'', ''hobby_crafts'', ''music_arts'', ''food_drink'', ''sports_outdoors'', ''health_wellbeing'',
     ''nature_garden'', ''pets_animals'', ''travel'', ''gaming'', ''tech'', ''faith_spirituality'',
     ''politics_activism'', ''work_career'']"

definition normalize_category :: "string option \<Rightarrow> string" where
  "normalize_category value =
     (case value of None \<Rightarrow> ''general'' | Some v \<Rightarrow> if v \<in> set space_categories then v else ''general'')"

definition valid_min_ages :: "int list" where
  "valid_min_ages = [0, 13, 16, 18]"

text \<open>\<open>int_of_str\<close> is \<open>int(str)\<close>, \<open>None\<close> for \<open>ValueError\<close>.\<close>

definition normalize_min_age :: "(string \<Rightarrow> int option) \<Rightarrow> json \<Rightarrow> int" where
  "normalize_min_age int_of_str value =
     (let coerced = (case value of JNum n \<Rightarrow> Some n | JStr s \<Rightarrow> int_of_str s | _ \<Rightarrow> None)
      in case coerced of None \<Rightarrow> 0 | Some n \<Rightarrow> if n \<in> set valid_min_ages then n else 0)"

section \<open>Membership roles\<close>

datatype space_role = OWNER | ADMIN | MODERATOR | MEMBER | SUBSCRIBER

fun role_value :: "space_role \<Rightarrow> string" where
  "role_value OWNER = ''owner''"
| "role_value ADMIN = ''admin''"
| "role_value MODERATOR = ''moderator''"
| "role_value MEMBER = ''member''"
| "role_value SUBSCRIBER = ''subscriber''"

definition all_roles :: "space_role list" where
  "all_roles = [OWNER, ADMIN, MODERATOR, MEMBER, SUBSCRIBER]"

text \<open>\<open>SpaceRole(value)\<close>: \<open>None\<close> is the \<open>ValueError\<close> of an unknown value.\<close>

definition space_role :: "string \<Rightarrow> space_role option" where
  "space_role v = find (\<lambda>r. role_value r = v) all_roles"

definition settings_authority_roles :: "space_role list" where
  "settings_authority_roles = [OWNER, ADMIN]"

definition content_authority_roles :: "space_role list" where
  "content_authority_roles = [OWNER, ADMIN, MODERATOR]"

definition writer_roles :: "space_role list" where
  "writer_roles = [OWNER, ADMIN, MODERATOR, MEMBER]"

definition role_change_allowed :: "string \<Rightarrow> string \<Rightarrow> string \<Rightarrow> bool" where
  "role_change_allowed actor_role target_current_role new_role =
     (case (space_role actor_role, space_role target_current_role, space_role new_role) of
        (Some actor, Some current, Some new) \<Rightarrow>
          if current = OWNER \<or> new = OWNER then False
          else if actor = OWNER then new \<in> {ADMIN, MODERATOR, MEMBER}
          else if actor = ADMIN then current \<in> {MODERATOR, MEMBER} \<and> new \<in> {MODERATOR, MEMBER}
          else False
      | _ \<Rightarrow> False)"

definition mirrorable_remote_roles :: "string list" where
  "mirrorable_remote_roles = [role_value MEMBER, role_value ADMIN, role_value MODERATOR, role_value SUBSCRIBER]"

definition mirrorable_remote_role :: "(json \<Rightarrow> string) \<Rightarrow> json \<Rightarrow> string" where
  "mirrorable_remote_role py_str raw =
     (let role = (if truthy raw then json_str py_str raw else role_value MEMBER)
      in if role \<in> set mirrorable_remote_roles then role else role_value MEMBER)"

fun remote_role_rank :: "string \<Rightarrow> nat option" where
  "remote_role_rank role =
     map_of [(role_value SUBSCRIBER, 0), (role_value MEMBER, 1), (role_value MODERATOR, 2), (role_value ADMIN, 3)] role"

definition mirrorable_str :: "string \<Rightarrow> string" where
  "mirrorable_str role = mirrorable_remote_role (\<lambda>_. []) (JStr role)"

definition cap_remote_role :: "string \<Rightarrow> string \<Rightarrow> string" where
  "cap_remote_role role ceiling_role =
     (let role = mirrorable_str role; ceiling_role = mirrorable_str ceiling_role
      in if the (remote_role_rank role) \<le> the (remote_role_rank ceiling_role) then role else ceiling_role)"

text \<open>\<open>owner_seat_from_roster\<close>: only an entry on the host's own instance can name the owner.\<close>

fun owner_entry :: "string \<Rightarrow> json \<Rightarrow> json option" where
  "owner_entry host_instance_id (JObj entry) =
     (if jget entry ''role'' = JStr (role_value OWNER) \<and> jget entry ''instance_id'' = JStr host_instance_id
         \<and> truthy (jget entry ''user_id'') then Some (jget entry ''user_id'') else None)"
| "owner_entry host_instance_id _ = None"

fun first_owner :: "string \<Rightarrow> json list \<Rightarrow> json option" where
  "first_owner host_instance_id [] = None"
| "first_owner host_instance_id (entry # roster) =
     (case owner_entry host_instance_id entry of Some u \<Rightarrow> Some u | None \<Rightarrow> first_owner host_instance_id roster)"

definition owner_seat_from_roster :: "(json \<Rightarrow> string) \<Rightarrow> json \<Rightarrow> string \<Rightarrow> string option" where
  "owner_seat_from_roster py_str roster host_instance_id =
     (case roster of
        JList entries \<Rightarrow> if host_instance_id = [] then None
                         else map_option (json_str py_str) (first_owner host_instance_id entries)
      | _ \<Rightarrow> None)"

section \<open>Feature access levels\<close>

datatype feature_access = ACC_OPEN | ACC_MODERATED | ACC_ADMIN_ONLY

fun access_value :: "feature_access \<Rightarrow> string" where
  "access_value ACC_OPEN = ''open''"
| "access_value ACC_MODERATED = ''moderated''"
| "access_value ACC_ADMIN_ONLY = ''admin_only''"

definition feature_access :: "json \<Rightarrow> feature_access option" where
  "feature_access v = find (\<lambda>a. v = JStr (access_value a)) [ACC_OPEN, ACC_MODERATED, ACC_ADMIN_ONLY]"

definition access_features :: "string list" where
  "access_features = [''posts'', ''pages'', ''stickies'', ''calendar'', ''tasks'']"

datatype content_action = CREATE | EDIT | DELETE | LAYOUT

datatype access_decision_value = PROCEED | QUEUE | DENY

datatype location_mode_value = GPS | ZONE_ONLY

datatype publish_mode_value = TRUSTED | STRICT

fun location_mode_str :: "location_mode_value \<Rightarrow> string" where
  "location_mode_str GPS = ''gps''"
| "location_mode_str ZONE_ONLY = ''zone_only''"

fun publish_mode_str :: "publish_mode_value \<Rightarrow> string" where
  "publish_mode_str TRUSTED = ''trusted''"
| "publish_mode_str STRICT = ''strict''"

definition publish_mode :: "json \<Rightarrow> publish_mode_value \<Rightarrow> publish_mode_value" where
  "publish_mode raw dflt =
     (if raw = JStr ''strict'' then STRICT else if raw = JStr ''trusted'' then TRUSTED else dflt)"

definition all_post_types :: "string list" where
  "all_post_types = [''bazaar'', ''event'', ''file'', ''highlight_share'', ''image'', ''location'', ''poll'',
     ''schedule'', ''text'', ''transcript'', ''video'']"

record space_features =
  sf_calendar :: bool
  sf_todo :: bool
  sf_location :: bool
  sf_location_mode :: location_mode_value
  sf_stickies :: bool
  sf_pages :: bool
  sf_gallery :: bool
  sf_bazaar :: bool
  sf_timetable :: bool
  sf_chat :: bool
  sf_posts_access :: feature_access
  sf_pages_access :: feature_access
  sf_stickies_access :: feature_access
  sf_calendar_access :: feature_access
  sf_tasks_access :: feature_access
  sf_allow_subscribers :: bool
  sf_allow_subscriber_comment :: bool
  sf_allow_subscriber_react :: bool
  sf_delegated_admin_authority :: bool
  sf_gfs_publish_mode :: publish_mode_value
  sf_private_gfs :: bool
  sf_allowed_post_types :: "string list"
  sf_allowed_apps :: "string list"

definition default_features :: space_features where
  "default_features = \<lparr>sf_calendar = True, sf_todo = True, sf_location = False, sf_location_mode = GPS,
     sf_stickies = True, sf_pages = True, sf_gallery = True, sf_bazaar = True, sf_timetable = False, sf_chat = True,
     sf_posts_access = ACC_OPEN, sf_pages_access = ACC_OPEN, sf_stickies_access = ACC_OPEN,
     sf_calendar_access = ACC_OPEN, sf_tasks_access = ACC_OPEN, sf_allow_subscribers = False,
     sf_allow_subscriber_comment = False, sf_allow_subscriber_react = False, sf_delegated_admin_authority = False,
     sf_gfs_publish_mode = TRUSTED, sf_private_gfs = False, sf_allowed_post_types = all_post_types,
     sf_allowed_apps = []\<rparr>"

definition new_space_features :: space_features where
  "new_space_features = default_features\<lparr>sf_todo := False, sf_pages := False, sf_gallery := False,
     sf_stickies := False, sf_bazaar := False\<rparr>"

definition sf_allows :: "space_features \<Rightarrow> string \<Rightarrow> bool" where
  "sf_allows f post_type \<longleftrightarrow> post_type \<in> set (sf_allowed_post_types f)"

definition access_level :: "space_features \<Rightarrow> string \<Rightarrow> exn + feature_access" where
  "access_level f feature =
     (if feature = ''posts'' then Inr (sf_posts_access f)
      else if feature = ''pages'' then Inr (sf_pages_access f)
      else if feature = ''stickies'' then Inr (sf_stickies_access f)
      else if feature = ''calendar'' then Inr (sf_calendar_access f)
      else if feature = ''tasks'' then Inr (sf_tasks_access f)
      else Inl ValueError)"

definition access_decision ::
  "space_features \<Rightarrow> string \<Rightarrow> string option \<Rightarrow> content_action \<Rightarrow> bool \<Rightarrow> exn + access_decision_value" where
  "access_decision f feature role action owns_target =
     (case access_level f feature of
        Inl e \<Rightarrow> Inl e
      | Inr level \<Rightarrow> Inr (
          if level = ACC_OPEN then PROCEED
          else case (case role of None \<Rightarrow> None | Some r \<Rightarrow> space_role r) of
            None \<Rightarrow> DENY
          | Some seat \<Rightarrow>
              if seat \<notin> set writer_roles then
                (if level = ACC_MODERATED \<and> owns_target \<and> action \<in> {EDIT, DELETE} then PROCEED else DENY)
              else if level = ACC_ADMIN_ONLY then
                (if seat \<in> set settings_authority_roles then PROCEED else DENY)
              else if seat \<in> set content_authority_roles then PROCEED
              else if action = CREATE then QUEUE
              else if action = LAYOUT \<or> owns_target then PROCEED
              else QUEUE))"

definition restricted_access_changes :: "space_features \<Rightarrow> space_features \<Rightarrow> string list" where
  "restricted_access_changes before after =
     sort (filter (\<lambda>f. access_level after f \<noteq> Inr ACC_OPEN \<and> access_level after f \<noteq> access_level before f)
             access_features)"

section \<open>Lists of app ids and post types\<close>

definition space_allowed_apps_max :: nat where
  "space_allowed_apps_max = 20"

definition ascii_alnum :: "char \<Rightarrow> bool" where
  "ascii_alnum c \<longleftrightarrow> (CHR ''0'' \<le> c \<and> c \<le> CHR ''9'') \<or> (CHR ''A'' \<le> c \<and> c \<le> CHR ''Z'') \<or> (CHR ''a'' \<le> c \<and> c \<le> CHR ''z'')"

text \<open>\<open>_APP_ID_RE.fullmatch\<close>: \<open>[A-Za-z0-9][A-Za-z0-9._-]{0,63}\<close>.\<close>

fun is_app_id :: "string \<Rightarrow> bool" where
  "is_app_id [] = False"
| "is_app_id (c # s) = (ascii_alnum c \<and> length s \<le> 63 \<and> list_all (\<lambda>d. ascii_alnum d \<or> d \<in> {CHR ''.'', CHR ''_'', CHR ''-''}) s)"

text \<open>The loop over the items, with the ids kept so far; \<open>None\<close> is the strict-mode refusal.\<close>

fun collect_apps :: "bool \<Rightarrow> json list \<Rightarrow> string list \<Rightarrow> string list option" where
  "collect_apps strict [] ids = Some ids"
| "collect_apps strict (item # items) ids =
     (case item of
        JStr s \<Rightarrow>
          if is_app_id s then collect_apps strict items (if s \<in> set ids then ids else ids @ [s])
          else if strict then None else collect_apps strict items ids
      | _ \<Rightarrow> if strict then None else collect_apps strict items ids)"

definition normalize_allowed_apps :: "bool \<Rightarrow> json \<Rightarrow> exn + string list" where
  "normalize_allowed_apps strict raw =
     (case raw of
        JList items \<Rightarrow>
          (case collect_apps strict items [] of
             None \<Rightarrow> Inl ValueError
           | Some ids \<Rightarrow>
               if length ids > space_allowed_apps_max then
                 (if strict then Inl ValueError else Inr (sort (take space_allowed_apps_max ids)))
               else Inr (sort ids))
      | _ \<Rightarrow> if strict then Inl ValueError else Inr [])"

fun collect_exempt :: "bool \<Rightarrow> json list \<Rightarrow> string list \<Rightarrow> string list option" where
  "collect_exempt strict [] kept = Some kept"
| "collect_exempt strict (raw # rest) kept =
     (case raw of
        JStr s \<Rightarrow>
          (let item = strip_ws s in
           if item = [] then collect_exempt strict rest kept
           else if item \<notin> set all_post_types then (if strict then None else collect_exempt strict rest kept)
           else collect_exempt strict rest (List.insert item kept))
      | _ \<Rightarrow> if strict then None else collect_exempt strict rest kept)"

definition normalize_retention_exempt_types :: "bool \<Rightarrow> json \<Rightarrow> exn + string list" where
  "normalize_retention_exempt_types strict value =
     (case value of
        JNull \<Rightarrow> Inr []
      | JList items \<Rightarrow>
          (case collect_exempt strict items [] of None \<Rightarrow> Inl ValueError | Some kept \<Rightarrow> Inr (sort kept))
      | _ \<Rightarrow> if strict then Inl ValueError else Inr [])"

section \<open>Storage and wire forms\<close>

definition jbit :: "bool \<Rightarrow> json" where
  "jbit b = JNum (if b then 1 else 0)"

definition jget_or :: "jobj \<Rightarrow> string \<Rightarrow> json \<Rightarrow> json" where
  "jget_or d k v = (case map_of d k of None \<Rightarrow> v | Some x \<Rightarrow> x)"

definition row_flag :: "jobj \<Rightarrow> string \<Rightarrow> int \<Rightarrow> bool" where
  "row_flag row k d = truthy (jget_or row k (JNum d))"

definition wire_flag :: "jobj \<Rightarrow> string \<Rightarrow> bool \<Rightarrow> bool" where
  "wire_flag raw k d = truthy (jget_or raw k (JBool d))"

text \<open>The post-type columns in the order of \<open>from_row\<close>.\<close>

definition post_type_columns :: "(string \<times> string) list" where
  "post_type_columns = [(''text'', ''allow_post_text''), (''image'', ''allow_post_image''),
     (''video'', ''allow_post_video''), (''transcript'', ''allow_post_transcript''), (''poll'', ''allow_post_poll''),
     (''schedule'', ''allow_post_schedule''), (''file'', ''allow_post_file''), (''bazaar'', ''allow_post_bazaar''),
     (''event'', ''allow_post_event''), (''location'', ''allow_post_location''),
     (''highlight_share'', ''allow_post_highlight_share'')]"

text \<open>\<open>dumps\<close> and \<open>loads\<close> are \<open>orjson\<close>'s; \<open>None\<close> is its decode error.\<close>

definition allowed_apps_column :: "(string \<Rightarrow> json option) \<Rightarrow> json \<Rightarrow> string list" where
  "allowed_apps_column loads raw =
     (case raw of
        JStr s \<Rightarrow> if s = [] then []
          else (case loads s of
                  None \<Rightarrow> []
                | Some v \<Rightarrow> (case normalize_allowed_apps False v of Inr apps \<Rightarrow> apps | Inl e \<Rightarrow> []))
      | _ \<Rightarrow> [])"

definition features_from_row :: "(string \<Rightarrow> json option) \<Rightarrow> jobj \<Rightarrow> exn + space_features" where
  "features_from_row loads row =
     (let allowed = sort (map fst (filter (\<lambda>(t, col). row_flag row col 1) post_type_columns));
          acc = (\<lambda>k. feature_access (jget_or row k (JStr ''open'')))
      in case (acc ''posts_access'', acc ''pages_access'', acc ''stickies_access'', acc ''calendar_access'',
               acc ''tasks_access'') of
           (Some p, Some g, Some s, Some c, Some t) \<Rightarrow> Inr
             \<lparr>sf_calendar = row_flag row ''feature_calendar'' 0, sf_todo = row_flag row ''feature_todo'' 1,
              sf_location = row_flag row ''feature_location'' 0,
              sf_location_mode = (if jget_or row ''location_mode'' (JStr ''gps'') = JStr ''zone_only'' then ZONE_ONLY else GPS),
              sf_stickies = row_flag row ''feature_stickies'' 0, sf_pages = row_flag row ''feature_pages'' 1,
              sf_gallery = row_flag row ''feature_gallery'' 1, sf_bazaar = row_flag row ''feature_bazaar'' 1,
              sf_timetable = row_flag row ''feature_timetable'' 0, sf_chat = row_flag row ''feature_chat'' 1,
              sf_posts_access = p, sf_pages_access = g, sf_stickies_access = s, sf_calendar_access = c,
              sf_tasks_access = t, sf_allow_subscribers = row_flag row ''allow_subscribers'' 0,
              sf_allow_subscriber_comment = row_flag row ''allow_subscriber_comment'' 0,
              sf_allow_subscriber_react = row_flag row ''allow_subscriber_react'' 0,
              sf_delegated_admin_authority = row_flag row ''delegated_admin_authority'' 0,
              sf_gfs_publish_mode = publish_mode (jget row ''gfs_publish_mode'') TRUSTED,
              sf_private_gfs = row_flag row ''private_gfs'' 0,
              sf_allowed_post_types = (if allowed = [] then [''text''] else allowed),
              sf_allowed_apps = allowed_apps_column loads (jget row ''allowed_apps'')\<rparr>
         | _ \<Rightarrow> Inl ValueError)"

definition features_to_columns :: "(json \<Rightarrow> string) \<Rightarrow> space_features \<Rightarrow> jobj" where
  "features_to_columns dumps f =
     [(''feature_calendar'', jbit (sf_calendar f)), (''feature_todo'', jbit (sf_todo f)),
      (''feature_location'', jbit (sf_location f)), (''location_mode'', JStr (location_mode_str (sf_location_mode f))),
      (''feature_stickies'', jbit (sf_stickies f)), (''feature_pages'', jbit (sf_pages f)),
      (''feature_gallery'', jbit (sf_gallery f)), (''feature_bazaar'', jbit (sf_bazaar f)),
      (''feature_timetable'', jbit (sf_timetable f)), (''feature_chat'', jbit (sf_chat f)),
      (''posts_access'', JStr (access_value (sf_posts_access f))),
      (''pages_access'', JStr (access_value (sf_pages_access f))),
      (''stickies_access'', JStr (access_value (sf_stickies_access f))),
      (''calendar_access'', JStr (access_value (sf_calendar_access f))),
      (''tasks_access'', JStr (access_value (sf_tasks_access f))),
      (''allow_subscribers'', jbit (sf_allow_subscribers f)),
      (''allow_subscriber_comment'', jbit (sf_allow_subscriber_comment f)),
      (''allow_subscriber_react'', jbit (sf_allow_subscriber_react f)),
      (''delegated_admin_authority'', jbit (sf_delegated_admin_authority f)),
      (''gfs_publish_mode'', JStr (publish_mode_str (sf_gfs_publish_mode f))),
      (''private_gfs'', jbit (sf_private_gfs f))]
     @ map (\<lambda>(t, col). (col, jbit (t \<in> set (sf_allowed_post_types f)))) post_type_columns
     @ [(''allowed_apps'', JStr (dumps (JList (map JStr (sf_allowed_apps f)))))]"

definition features_to_wire :: "space_features \<Rightarrow> jobj" where
  "features_to_wire f =
     [(''calendar'', JBool (sf_calendar f)), (''todo'', JBool (sf_todo f)), (''location'', JBool (sf_location f)),
      (''location_mode'', JStr (location_mode_str (sf_location_mode f))), (''stickies'', JBool (sf_stickies f)),
      (''pages'', JBool (sf_pages f)), (''gallery'', JBool (sf_gallery f)), (''bazaar'', JBool (sf_bazaar f)),
      (''timetable'', JBool (sf_timetable f)), (''chat'', JBool (sf_chat f)),
      (''posts_access'', JStr (access_value (sf_posts_access f))),
      (''pages_access'', JStr (access_value (sf_pages_access f))),
      (''stickies_access'', JStr (access_value (sf_stickies_access f))),
      (''calendar_access'', JStr (access_value (sf_calendar_access f))),
      (''tasks_access'', JStr (access_value (sf_tasks_access f))),
      (''allow_subscribers'', JBool (sf_allow_subscribers f)),
      (''allow_subscriber_comment'', JBool (sf_allow_subscriber_comment f)),
      (''allow_subscriber_react'', JBool (sf_allow_subscriber_react f)),
      (''delegated_admin_authority'', JBool (sf_delegated_admin_authority f)),
      (''gfs_publish_mode'', JStr (publish_mode_str (sf_gfs_publish_mode f))),
      (''private_gfs'', JBool (sf_private_gfs f)),
      (''allowed_post_types'', JList (map JStr (sf_allowed_post_types f))),
      (''allowed_apps'', JList (map JStr (sf_allowed_apps f)))]"

definition wire_access :: "jobj \<Rightarrow> string \<Rightarrow> feature_access \<Rightarrow> feature_access" where
  "wire_access raw name dflt =
     (let v = jget raw name in
      if v = JNull then dflt else case feature_access v of Some a \<Rightarrow> a | None \<Rightarrow> dflt)"

definition features_from_wire :: "(json \<Rightarrow> string) \<Rightarrow> jobj \<Rightarrow> space_features option \<Rightarrow> space_features" where
  "features_from_wire py_str raw dflts =
     (let d = (case dflts of Some f \<Rightarrow> f | None \<Rightarrow> default_features) in
      \<lparr>sf_calendar = wire_flag raw ''calendar'' (sf_calendar d), sf_todo = wire_flag raw ''todo'' (sf_todo d),
       sf_location = wire_flag raw ''location'' (sf_location d),
       sf_location_mode =
         (if jget_or raw ''location_mode'' (JStr (location_mode_str (sf_location_mode d))) = JStr ''zone_only''
          then ZONE_ONLY else GPS),
       sf_stickies = wire_flag raw ''stickies'' (sf_stickies d), sf_pages = wire_flag raw ''pages'' (sf_pages d),
       sf_gallery = wire_flag raw ''gallery'' (sf_gallery d), sf_bazaar = wire_flag raw ''bazaar'' (sf_bazaar d),
       sf_timetable = wire_flag raw ''timetable'' (sf_timetable d), sf_chat = wire_flag raw ''chat'' (sf_chat d),
       sf_posts_access = wire_access raw ''posts_access'' (sf_posts_access d),
       sf_pages_access = wire_access raw ''pages_access'' (sf_pages_access d),
       sf_stickies_access = wire_access raw ''stickies_access'' (sf_stickies_access d),
       sf_calendar_access = wire_access raw ''calendar_access'' (sf_calendar_access d),
       sf_tasks_access = wire_access raw ''tasks_access'' (sf_tasks_access d),
       sf_allow_subscribers = wire_flag raw ''allow_subscribers'' (sf_allow_subscribers d),
       sf_allow_subscriber_comment = wire_flag raw ''allow_subscriber_comment'' (sf_allow_subscriber_comment d),
       sf_allow_subscriber_react = wire_flag raw ''allow_subscriber_react'' (sf_allow_subscriber_react d),
       sf_delegated_admin_authority = wire_flag raw ''delegated_admin_authority'' (sf_delegated_admin_authority d),
       sf_gfs_publish_mode = publish_mode (jget raw ''gfs_publish_mode'') (sf_gfs_publish_mode d),
       sf_private_gfs = wire_flag raw ''private_gfs'' (sf_private_gfs d),
       sf_allowed_post_types =
         (case jget raw ''allowed_post_types'' of
            JList ts \<Rightarrow> if ts = [] then sf_allowed_post_types d else sort (map (json_str py_str) ts)
          | _ \<Rightarrow> sf_allowed_post_types d),
       sf_allowed_apps =
         (case map_of raw ''allowed_apps'' of
            None \<Rightarrow> sf_allowed_apps d
          | Some v \<Rightarrow> (case normalize_allowed_apps False v of Inr apps \<Rightarrow> apps | Inl e \<Rightarrow> []))\<rparr>)"

definition with_allowed_post_types :: "string list \<Rightarrow> space_features \<Rightarrow> exn + space_features" where
  "with_allowed_post_types types f =
     (if types = [] then Inl ValueError else Inr (f\<lparr>sf_allowed_post_types := sort types\<rparr>))"

section \<open>Household features\<close>

record household_features =
  hf_feed :: bool
  hf_pages :: bool
  hf_tasks :: bool
  hf_stickies :: bool
  hf_calendar :: bool
  hf_bazaar :: bool
  hf_allow_text :: bool
  hf_allow_image :: bool
  hf_allow_video :: bool
  hf_allow_file :: bool
  hf_allow_poll :: bool
  hf_allow_schedule :: bool
  hf_allow_bazaar :: bool
  hf_household_name :: json

definition hf_allows_post_type :: "household_features \<Rightarrow> string \<Rightarrow> bool" where
  "hf_allows_post_type h pt =
     (case map_of [(''text'', hf_allow_text h), (''image'', hf_allow_image h), (''video'', hf_allow_video h),
                   (''file'', hf_allow_file h), (''poll'', hf_allow_poll h), (''schedule'', hf_allow_schedule h),
                   (''bazaar'', hf_allow_bazaar h), (''transcript'', True)] pt of
        Some b \<Rightarrow> b | None \<Rightarrow> True)"

definition hf_allows_section :: "household_features \<Rightarrow> string \<Rightarrow> bool" where
  "hf_allows_section h s =
     (case map_of [(''feed'', hf_feed h), (''pages'', hf_pages h), (''tasks'', hf_tasks h),
                   (''stickies'', hf_stickies h), (''calendar'', hf_calendar h), (''bazaar'', hf_bazaar h)] s of
        Some b \<Rightarrow> b | None \<Rightarrow> True)"

definition hf_from_row :: "jobj \<Rightarrow> household_features" where
  "hf_from_row row =
     \<lparr>hf_feed = row_flag row ''feat_feed'' 1, hf_pages = row_flag row ''feat_pages'' 1,
      hf_tasks = row_flag row ''feat_tasks'' 1, hf_stickies = row_flag row ''feat_stickies'' 1,
      hf_calendar = row_flag row ''feat_calendar'' 1, hf_bazaar = row_flag row ''feat_bazaar'' 1,
      hf_allow_text = row_flag row ''allow_text'' 1, hf_allow_image = row_flag row ''allow_image'' 1,
      hf_allow_video = row_flag row ''allow_video'' 1, hf_allow_file = row_flag row ''allow_file'' 1,
      hf_allow_poll = row_flag row ''allow_poll'' 1, hf_allow_schedule = row_flag row ''allow_schedule'' 1,
      hf_allow_bazaar = row_flag row ''allow_bazaar'' 1,
      hf_household_name = jget_or row ''household_name'' (JStr ''Home'')\<rparr>"

definition hf_to_columns :: "household_features \<Rightarrow> jobj" where
  "hf_to_columns h =
     [(''feat_feed'', jbit (hf_feed h)), (''feat_pages'', jbit (hf_pages h)), (''feat_tasks'', jbit (hf_tasks h)),
      (''feat_stickies'', jbit (hf_stickies h)), (''feat_calendar'', jbit (hf_calendar h)),
      (''feat_bazaar'', jbit (hf_bazaar h)), (''allow_text'', jbit (hf_allow_text h)),
      (''allow_image'', jbit (hf_allow_image h)), (''allow_video'', jbit (hf_allow_video h)),
      (''allow_file'', jbit (hf_allow_file h)), (''allow_poll'', jbit (hf_allow_poll h)),
      (''allow_schedule'', jbit (hf_allow_schedule h)), (''allow_bazaar'', jbit (hf_allow_bazaar h)),
      (''household_name'', hf_household_name h)]"

section \<open>Role lemmas\<close>

lemma space_role_value [simp]: "space_role (role_value r) = Some r"
  by (cases r) (simp_all add: space_role_def all_roles_def)

lemma space_role_Some: "space_role v = Some r \<longleftrightarrow> v = role_value r"
proof
  assume "space_role v = Some r"
  then show "v = role_value r" unfolding space_role_def by (auto simp: find_Some_iff)
qed simp

lemma role_value_inj [simp]: "role_value r = role_value s \<longleftrightarrow> r = s"
  by (metis space_role_value option.inject)

lemma space_role_None: "space_role v = None \<longleftrightarrow> v \<notin> range role_value"
  by (metis not_None_eq rangeE rangeI space_role_Some space_role_value)

fun remote_rank :: "space_role \<Rightarrow> nat" where
  "remote_rank SUBSCRIBER = 0"
| "remote_rank MEMBER = 1"
| "remote_rank MODERATOR = 2"
| "remote_rank ADMIN = 3"
| "remote_rank OWNER = 4"

lemma remote_role_rank_value: "r \<noteq> OWNER \<Longrightarrow> remote_role_rank (role_value r) = Some (remote_rank r)"
  by (cases r) simp_all

declare remote_role_rank.simps [simp del] role_value.simps [simp del]

definition mirrored :: "string \<Rightarrow> space_role" where
  "mirrored s = (case space_role s of Some r \<Rightarrow> if r = OWNER then MEMBER else r | None \<Rightarrow> MEMBER)"

lemma mirrored_not_owner [simp]: "mirrored s \<noteq> OWNER"
  by (simp add: mirrored_def split: option.split)

lemma mirrorable_roles_iff: "s \<in> set mirrorable_remote_roles \<longleftrightarrow> (\<exists>r. r \<noteq> OWNER \<and> s = role_value r)"
proof -
  have "(\<exists>r. r \<noteq> OWNER \<and> s = role_value r) \<longleftrightarrow> s \<in> role_value ` {MEMBER, ADMIN, MODERATOR, SUBSCRIBER}"
    using space_role.exhaust by blast
  then show ?thesis by (auto simp: mirrorable_remote_roles_def)
qed

lemma mirrorable_str: "mirrorable_str s = role_value (mirrored s)"
proof (cases "s = []")
  case True
  have "space_role [] = None" by (simp add: space_role_def all_roles_def role_value.simps)
  with True show ?thesis
    by (simp add: mirrorable_str_def mirrorable_remote_role_def Let_def mirrored_def)
next
  case False
  show ?thesis
  proof (cases "space_role s")
    case None
    then have "s \<notin> set mirrorable_remote_roles" by (auto simp: mirrorable_roles_iff space_role_None)
    with None False show ?thesis
      by (simp add: mirrorable_str_def mirrorable_remote_role_def Let_def mirrored_def)
  next
    case (Some r)
    then have "s = role_value r" by (simp add: space_role_Some)
    with Some False show ?thesis
      by (auto simp: mirrorable_str_def mirrorable_remote_role_def Let_def mirrored_def mirrorable_roles_iff)
  qed
qed

lemma cap_remote_role_value:
  "cap_remote_role r c = role_value (if remote_rank (mirrored r) \<le> remote_rank (mirrored c) then mirrored r else mirrored c)"
  by (simp add: cap_remote_role_def Let_def mirrorable_str remote_role_rank_value)

text \<open>
  A space's seats and the two ways a role changes: by a local actor under \<open>role_change_allowed\<close>, and by
  gossip, which the hosting household caps at the seat's present role.
\<close>

datatype role_event =
    Local_change string string string
  | Gossip string string

fun apply_role_event :: "role_event \<Rightarrow> (string \<rightharpoonup> string) \<Rightarrow> (string \<rightharpoonup> string)" where
  "apply_role_event (Local_change actor target new_role) seats =
     (case (seats actor, seats target) of
        (Some a, Some c) \<Rightarrow> if role_change_allowed a c new_role then seats(target \<mapsto> new_role) else seats
      | _ \<Rightarrow> seats)"
| "apply_role_event (Gossip target role) seats =
     (case seats target of
        Some c \<Rightarrow> if c = role_value OWNER then seats else seats(target \<mapsto> cap_remote_role role c)
      | None \<Rightarrow> seats)"

fun by_owner :: "(string \<rightharpoonup> string) \<Rightarrow> role_event \<Rightarrow> bool" where
  "by_owner seats (Local_change actor target new_role) = (seats actor = Some (role_value OWNER))"
| "by_owner seats (Gossip target role) = False"

lemma role_change_allowed_iff:
  "role_change_allowed a c n \<longleftrightarrow>
     (\<exists>ra rc rn. a = role_value ra \<and> c = role_value rc \<and> n = role_value rn \<and> rc \<noteq> OWNER
        \<and> (ra = OWNER \<and> rn \<in> {ADMIN, MODERATOR, MEMBER}
           \<or> ra = ADMIN \<and> rc \<in> {MODERATOR, MEMBER} \<and> rn \<in> {MODERATOR, MEMBER}))"
proof (cases "\<exists>ra rc rn. a = role_value ra \<and> c = role_value rc \<and> n = role_value rn")
  case True
  then obtain ra rc rn where "a = role_value ra" "c = role_value rc" "n = role_value rn" by blast
  then show ?thesis by (auto simp: role_change_allowed_def)
next
  case False
  then have "space_role a = None \<or> space_role c = None \<or> space_role n = None"
    by (simp add: space_role_None image_iff)
  then have "\<not> role_change_allowed a c n" by (auto simp: role_change_allowed_def split: option.split)
  with False show ?thesis by blast
qed

section \<open>Properties\<close>

lemma apply_role_event_owner:
  "(apply_role_event e seats u = Some (role_value OWNER)) = (seats u = Some (role_value OWNER))"
proof (cases e)
  case (Local_change actor target new_role)
  then show ?thesis by (auto simp: role_change_allowed_iff split: option.splits if_splits)
next
  case (Gossip target role)
  have "cap_remote_role role c \<noteq> role_value OWNER" for c
    by (auto simp: cap_remote_role_value)
  with Gossip show ?thesis by (auto split: option.splits)
qed

lemma cap_admin: "cap_remote_role role c = role_value ADMIN \<Longrightarrow> c = role_value ADMIN"
proof -
  assume "cap_remote_role role c = role_value ADMIN"
  then have "3 \<le> remote_rank (mirrored c)" by (auto simp: cap_remote_role_value split: if_splits)
  then have "mirrored c = ADMIN" by (cases "mirrored c") (auto simp: mirrored_def split: option.splits if_splits)
  then show ?thesis by (auto simp: mirrored_def space_role_Some split: option.splits if_splits)
qed

lemma apply_role_event_admin:
  assumes "\<not> by_owner seats e" "apply_role_event e seats u = Some (role_value ADMIN)"
  shows "seats u = Some (role_value ADMIN)"
  using assms by (cases e) (auto simp: role_change_allowed_iff split: option.splits if_splits dest: cap_admin)

text \<open>
  Ownership and the admin circle.  Through any sequence of local role changes and capped roster
  gossip the owner seat stays exactly where it was, and while the owner itself changes no role nobody
  becomes an admin.
\<close>

theorem roles_owner_and_admins_safe:
  assumes "\<forall>v. seats v = Some (role_value OWNER) \<longleftrightarrow> v = owner" "\<forall>t r. Local_change owner t r \<notin> set events"
  shows "(fold apply_role_event events seats u = Some (role_value OWNER) \<longleftrightarrow> u = owner)
    \<and> (fold apply_role_event events seats u = Some (role_value ADMIN) \<longrightarrow> seats u = Some (role_value ADMIN))"
  using assms
proof (induction events arbitrary: seats)
  case (Cons e events)
  have "\<forall>v. apply_role_event e seats v = Some (role_value OWNER) \<longleftrightarrow> v = owner"
    using Cons.prems(1) by (simp add: apply_role_event_owner)
  from Cons.IH [OF this] Cons.prems(2)
  have IH: "(fold apply_role_event (e # events) seats u = Some (role_value OWNER)) = (u = owner)"
    "fold apply_role_event (e # events) seats u = Some (role_value ADMIN) \<Longrightarrow> apply_role_event e seats u = Some (role_value ADMIN)"
    by simp_all
  have "\<not> by_owner seats e" using Cons.prems by (cases e) auto
  with IH apply_role_event_admin show ?case by blast
qed auto

theorem roles_owner_and_admins_safe_witness:
  "fold apply_role_event [Local_change ''adm'' ''bob'' ''moderator'', Gossip ''bob'' ''admin'', Local_change ''adm'' ''adm'' ''owner'']
      [''own'' \<mapsto> ''owner'', ''adm'' \<mapsto> ''admin'', ''bob'' \<mapsto> ''member''] ''bob'' = Some ''moderator''
   \<and> (fold apply_role_event [Local_change ''adm'' ''bob'' ''moderator'', Gossip ''bob'' ''admin'', Local_change ''adm'' ''adm'' ''owner'']
      [''own'' \<mapsto> ''owner'', ''adm'' \<mapsto> ''admin'', ''bob'' \<mapsto> ''member''] ''own'' = Some (role_value OWNER) \<longleftrightarrow> ''own'' = ''own'')"
  using roles_owner_and_admins_safe [of "[''own'' \<mapsto> ''owner'', ''adm'' \<mapsto> ''admin'', ''bob'' \<mapsto> ''member'']" "''own''"
      "[Local_change ''adm'' ''bob'' ''moderator'', Gossip ''bob'' ''admin'', Local_change ''adm'' ''adm'' ''owner'']" "''own''"]
  by (simp add: role_value.simps role_change_allowed_def space_role_def all_roles_def cap_remote_role_def
      mirrorable_str_def mirrorable_remote_role_def mirrorable_remote_roles_def remote_role_rank.simps Let_def)

section \<open>Access decisions\<close>

fun decision_rank :: "access_decision_value \<Rightarrow> nat" where
  "decision_rank DENY = 0"
| "decision_rank QUEUE = 1"
| "decision_rank PROCEED = 2"

lemma remote_rank_roles:
  "r \<in> set writer_roles \<longleftrightarrow> 1 \<le> remote_rank r"
  "r \<in> set content_authority_roles \<longleftrightarrow> 2 \<le> remote_rank r"
  "r \<in> set settings_authority_roles \<longleftrightarrow> 3 \<le> remote_rank r"
  by (cases r; simp add: writer_roles_def content_authority_roles_def settings_authority_roles_def)+

lemma access_decision_role:
  "access_level f feature = Inr level \<Longrightarrow>
   access_decision f feature (Some (role_value r)) action owns = Inr (
     if level = ACC_OPEN then PROCEED
     else if remote_rank r < 1 then (if level = ACC_MODERATED \<and> owns \<and> action \<in> {EDIT, DELETE} then PROCEED else DENY)
     else if level = ACC_ADMIN_ONLY then (if 3 \<le> remote_rank r then PROCEED else DENY)
     else if 2 \<le> remote_rank r then PROCEED
     else if action = CREATE then QUEUE
     else if action = LAYOUT \<or> owns then PROCEED else QUEUE)"
  by (simp add: access_decision_def remote_rank_roles not_le Suc_le_eq)

text \<open>
  Access decisions are monotone in authority and fail closed.  A seat with more authority never gets
  a worse answer than one with less; an unknown or missing role is denied every write on a restricted
  feature; an admin-only feature is written by settings authority alone and never queues.
\<close>

theorem access_decision_monotone:
  assumes level: "access_level f feature = Inr level" and le: "remote_rank r \<le> remote_rank r'"
    and unknown: "role \<notin> Some ` range role_value"
  shows "\<exists>d d'. access_decision f feature (Some (role_value r)) action owns = Inr d
      \<and> access_decision f feature (Some (role_value r')) action owns = Inr d'
      \<and> decision_rank d \<le> decision_rank d'
      \<and> (level \<noteq> ACC_OPEN \<longrightarrow> access_decision f feature role action owns = Inr DENY)
      \<and> (level = ACC_ADMIN_ONLY \<longrightarrow> d = (if r \<in> {OWNER, ADMIN} then PROCEED else DENY))"
proof -
  have none: "(case role of None \<Rightarrow> None | Some r \<Rightarrow> space_role r) = None"
    using unknown by (auto simp: space_role_None split: option.split)
  have deny: "access_decision f feature role action owns = Inr DENY" if "level \<noteq> ACC_OPEN"
    using that level by (simp add: access_decision_def none)
  have rank: "3 \<le> remote_rank r \<longleftrightarrow> r = OWNER \<or> r = ADMIN" by (cases r) simp_all
  show ?thesis
    using le deny by (cases level; cases action) (simp_all add: access_decision_role [OF level] rank [symmetric])
qed

theorem access_decision_monotone_witness:
  "\<exists>d d'. access_decision (default_features\<lparr>sf_pages_access := ACC_MODERATED\<rparr>) ''pages'' (Some (role_value MEMBER)) CREATE True = Inr d
      \<and> access_decision (default_features\<lparr>sf_pages_access := ACC_MODERATED\<rparr>) ''pages'' (Some (role_value MODERATOR)) CREATE True = Inr d'
      \<and> decision_rank d \<le> decision_rank d'
      \<and> access_decision (default_features\<lparr>sf_pages_access := ACC_MODERATED\<rparr>) ''pages'' None CREATE True = Inr DENY"
  using access_decision_monotone [of "default_features\<lparr>sf_pages_access := ACC_MODERATED\<rparr>" "''pages''" ACC_MODERATED MEMBER MODERATOR None CREATE True]
  by (simp add: access_level_def image_iff)

section \<open>Feature forms\<close>

lemma jget_or_Cons: "jget_or ((k, v) # d) k' w = (if k = k' then v else jget_or d k' w)"
  by (simp add: jget_or_def)

lemma jget_Cons: "jget ((k, v) # d) k' = (if k = k' then v else jget d k')"
  by (simp add: jget_def)

lemma truthy_jbit [simp]: "truthy (jbit b) = b"
  by (simp add: jbit_def)

lemma feature_access_value [simp]: "feature_access (JStr (access_value a)) = Some a"
  by (cases a) (simp_all add: feature_access_def)

lemma publish_mode_value [simp]: "publish_mode (JStr (publish_mode_str m)) d = m"
  by (cases m) (simp_all add: publish_mode_def)

lemma location_mode_zone [simp]: "(location_mode_str m = ''zone_only'') = (m = ZONE_ONLY)"
  by (cases m) simp_all

lemma location_mode_if [simp]: "(if m = ZONE_ONLY then ZONE_ONLY else GPS) = m"
  by (cases m) simp_all

text \<open>The normal form every stored feature record has.\<close>

definition apps_normal :: "string list \<Rightarrow> bool" where
  "apps_normal apps \<longleftrightarrow> sorted apps \<and> distinct apps \<and> list_all is_app_id apps \<and> length apps \<le> space_allowed_apps_max"

lemma collect_apps_normal:
  assumes "collect_apps strict items ids = Some out" "distinct ids" "list_all is_app_id ids"
  shows "distinct out \<and> list_all is_app_id out"
  using assms by (induction strict items ids rule: collect_apps.induct) (auto split: json.splits if_splits)

lemma collect_apps_ids:
  assumes "distinct (ids @ apps)" "list_all is_app_id apps"
  shows "collect_apps strict (map JStr apps) ids = Some (ids @ apps)"
  using assms by (induction apps arbitrary: ids) auto

lemma collect_apps_strict: "collect_apps True items ids = Some out \<Longrightarrow> collect_apps False items ids = Some out"
  by (induction items arbitrary: ids) (auto split: json.splits if_splits)

lemma normalize_normal: "apps_normal apps \<Longrightarrow> normalize_allowed_apps strict (JList (map JStr apps)) = Inr apps"
  by (simp add: normalize_allowed_apps_def apps_normal_def collect_apps_ids sorted_sort_id)

text \<open>
  The games list is always in normal form.  Whatever JSON arrives, the lenient normaliser answers a
  sorted, duplicate-free list of at most twenty well-formed app ids; normalising again changes nothing,
  and whatever the strict mode accepts, the lenient mode reads identically.
\<close>

theorem allowed_apps_normal_form:
  shows "\<exists>apps. normalize_allowed_apps False raw = Inr apps \<and> apps_normal apps
      \<and> normalize_allowed_apps strict (JList (map JStr apps)) = Inr apps
      \<and> (case normalize_allowed_apps True raw of Inr apps' \<Rightarrow> apps' = apps | Inl e \<Rightarrow> e = ValueError)"
proof (cases raw)
  case (JList items)
  have "collect_apps False items ids \<noteq> None" for ids
    by (induction items arbitrary: ids) (auto split: json.split)
  then obtain ids where ids: "collect_apps False items [] = Some ids" by blast
  from collect_apps_normal [OF ids] have n: "distinct ids" "list_all is_app_id ids" by simp_all
  then have l: "apps_normal (sort (take n ids))" if "n \<le> space_allowed_apps_max" for n
    using that by (auto simp: apps_normal_def list_all_iff dest: in_set_takeD)
  from n have s: "apps_normal (sort ids)" if "length ids \<le> space_allowed_apps_max"
    using that by (auto simp: apps_normal_def list_all_iff)
  define apps where "apps = (if length ids > space_allowed_apps_max then sort (take space_allowed_apps_max ids) else sort ids)"
  have "normalize_allowed_apps False raw = Inr apps" using JList ids by (simp add: normalize_allowed_apps_def apps_def)
  moreover have "apps_normal apps" using l s by (simp add: apps_def)
  moreover have "case normalize_allowed_apps True raw of Inr apps' \<Rightarrow> apps' = apps | Inl e \<Rightarrow> e = ValueError"
    using JList ids collect_apps_strict [of items "[]"]
    by (auto simp: normalize_allowed_apps_def apps_def split: option.split)
  ultimately show ?thesis using normalize_normal by blast
qed (simp_all add: normalize_allowed_apps_def apps_normal_def)

text \<open>Which records the storage form can hold, and which the wire form can.\<close>

definition features_storable :: "space_features \<Rightarrow> bool" where
  "features_storable f \<longleftrightarrow> sorted (sf_allowed_post_types f) \<and> distinct (sf_allowed_post_types f)
     \<and> set (sf_allowed_post_types f) \<subseteq> set all_post_types \<and> sf_allowed_post_types f \<noteq> [] \<and> apps_normal (sf_allowed_apps f)"

lemma post_type_columns_cover: "set (map fst post_type_columns) = set all_post_types" "distinct (map fst post_type_columns)"
  by code_simp+

lemma columns_post_type:
  assumes "(t, col) \<in> set post_type_columns"
  shows "row_flag (features_to_columns dumps f) col 1 = (t \<in> set (sf_allowed_post_types f))"
proof -
  have "list_all (\<lambda>(t, col). row_flag (features_to_columns dumps f) col 1 = (t \<in> set (sf_allowed_post_types f))) post_type_columns"
    by (simp add: row_flag_def features_to_columns_def jget_or_def post_type_columns_def)
  with assms show ?thesis by (auto simp: list_all_iff)
qed

lemma columns_post_types:
  assumes "features_storable f"
  shows "sort (map fst (filter (\<lambda>(t, col). row_flag (features_to_columns dumps f) col 1) post_type_columns))
     = sf_allowed_post_types f"
proof (rule sorted_distinct_set_unique)
  have f: "filter (\<lambda>(t, col). row_flag (features_to_columns dumps f) col 1) post_type_columns
      = filter (\<lambda>p. fst p \<in> set (sf_allowed_post_types f)) post_type_columns"
    by (rule filter_cong [OF refl]) (auto simp: columns_post_type)
  have "map fst (filter (\<lambda>p. fst p \<in> S) ps) = filter (\<lambda>t. t \<in> S) (map fst ps)" for S :: "string set" and ps :: "(string \<times> string) list"
    by (induction ps) auto
  note f = f this
  show "distinct (sort (map fst (filter (\<lambda>(t, col). row_flag (features_to_columns dumps f) col 1) post_type_columns)))"
    by (simp only: f distinct_sort distinct_filter post_type_columns_cover)
  show "set (sort (map fst (filter (\<lambda>(t, col). row_flag (features_to_columns dumps f) col 1) post_type_columns)))
     = set (sf_allowed_post_types f)"
    using assms by (simp only: f set_sort set_filter post_type_columns_cover) (auto simp: features_storable_def)
qed (use assms in \<open>simp_all add: features_storable_def\<close>)

lemmas form_lookup = jget_or_def jget_def row_flag_def wire_flag_def wire_access_def Let_def

text \<open>
  Storage round trip.  A feature record with at least one known post type and a normal games list is
  read back from its columns exactly as it was written.
\<close>

theorem features_columns_roundtrip:
  assumes "features_storable f"
    and "loads (dumps (JList (map JStr (sf_allowed_apps f)))) = Some (JList (map JStr (sf_allowed_apps f)))"
    and "dumps (JList (map JStr (sf_allowed_apps f))) \<noteq> []"
  shows "features_from_row loads (features_to_columns dumps f) = Inr f"
proof -
  let ?row = "features_to_columns dumps f"
  have apps: "allowed_apps_column loads (jget ?row ''allowed_apps'') = sf_allowed_apps f"
    using assms(1) normalize_normal [of "sf_allowed_apps f" False]
    by (simp add: features_to_columns_def jget_def post_type_columns_def allowed_apps_column_def assms(2,3) features_storable_def)
  have access: "feature_access (jget_or ?row ''posts_access'' v) = Some (sf_posts_access f)"
    "feature_access (jget_or ?row ''pages_access'' v) = Some (sf_pages_access f)"
    "feature_access (jget_or ?row ''stickies_access'' v) = Some (sf_stickies_access f)"
    "feature_access (jget_or ?row ''calendar_access'' v) = Some (sf_calendar_access f)"
    "feature_access (jget_or ?row ''tasks_access'' v) = Some (sf_tasks_access f)" for v
    by (simp_all add: features_to_columns_def jget_or_def)
  have flags: "row_flag ?row ''feature_calendar'' d = sf_calendar f" "row_flag ?row ''feature_todo'' d = sf_todo f"
    "row_flag ?row ''feature_location'' d = sf_location f" "row_flag ?row ''feature_stickies'' d = sf_stickies f"
    "row_flag ?row ''feature_pages'' d = sf_pages f" "row_flag ?row ''feature_gallery'' d = sf_gallery f"
    "row_flag ?row ''feature_bazaar'' d = sf_bazaar f" "row_flag ?row ''feature_timetable'' d = sf_timetable f"
    "row_flag ?row ''feature_chat'' d = sf_chat f" "row_flag ?row ''allow_subscribers'' d = sf_allow_subscribers f"
    "row_flag ?row ''allow_subscriber_comment'' d = sf_allow_subscriber_comment f"
    "row_flag ?row ''allow_subscriber_react'' d = sf_allow_subscriber_react f"
    "row_flag ?row ''delegated_admin_authority'' d = sf_delegated_admin_authority f"
    "row_flag ?row ''private_gfs'' d = sf_private_gfs f" for d
    by (simp_all add: features_to_columns_def row_flag_def jget_or_def)
  have modes: "jget_or ?row ''location_mode'' v = JStr (location_mode_str (sf_location_mode f))"
    "jget ?row ''gfs_publish_mode'' = JStr (publish_mode_str (sf_gfs_publish_mode f))" for v
    by (simp_all add: features_to_columns_def jget_or_def jget_def)
  show ?thesis
    unfolding features_from_row_def Let_def columns_post_types [OF assms(1)] access apps flags modes
    using assms(1) by (simp add: features_storable_def)
qed

theorem features_columns_roundtrip_witness:
  "features_from_row (\<lambda>s. if s = ''[]'' then Some (JList []) else None)
     (features_to_columns (\<lambda>_. ''[]'') (new_space_features\<lparr>sf_allowed_post_types := [''image'', ''text'']\<rparr>))
   = Inr (new_space_features\<lparr>sf_allowed_post_types := [''image'', ''text'']\<rparr>)"
  by (rule features_columns_roundtrip)
    (simp_all add: features_storable_def new_space_features_def default_features_def all_post_types_def apps_normal_def)

text \<open>
  Wire round trip and partial edits.  Parsing the wire form of a record with a normal games list and
  sorted post types gives the record back whatever the defaults, and a dict that names none of the fields
  changes nothing.
\<close>

theorem features_wire_roundtrip:
  assumes "sorted (sf_allowed_post_types f)" "sf_allowed_post_types f \<noteq> []" "apps_normal (sf_allowed_apps f)"
  shows "features_from_wire py_str (features_to_wire f) dflts = f \<and> features_from_wire py_str [] (Some f) = f"
proof
  let ?raw = "features_to_wire f"
  have flags: "wire_flag ?raw ''calendar'' d = sf_calendar f" "wire_flag ?raw ''todo'' d = sf_todo f"
    "wire_flag ?raw ''location'' d = sf_location f" "wire_flag ?raw ''stickies'' d = sf_stickies f"
    "wire_flag ?raw ''pages'' d = sf_pages f" "wire_flag ?raw ''gallery'' d = sf_gallery f"
    "wire_flag ?raw ''bazaar'' d = sf_bazaar f" "wire_flag ?raw ''timetable'' d = sf_timetable f"
    "wire_flag ?raw ''chat'' d = sf_chat f" "wire_flag ?raw ''allow_subscribers'' d = sf_allow_subscribers f"
    "wire_flag ?raw ''allow_subscriber_comment'' d = sf_allow_subscriber_comment f"
    "wire_flag ?raw ''allow_subscriber_react'' d = sf_allow_subscriber_react f"
    "wire_flag ?raw ''delegated_admin_authority'' d = sf_delegated_admin_authority f"
    "wire_flag ?raw ''private_gfs'' d = sf_private_gfs f" for d
    by (simp_all add: features_to_wire_def wire_flag_def jget_or_def)
  have access: "wire_access ?raw ''posts_access'' a = sf_posts_access f"
    "wire_access ?raw ''pages_access'' a = sf_pages_access f"
    "wire_access ?raw ''stickies_access'' a = sf_stickies_access f"
    "wire_access ?raw ''calendar_access'' a = sf_calendar_access f"
    "wire_access ?raw ''tasks_access'' a = sf_tasks_access f" for a
    by (simp_all add: features_to_wire_def wire_access_def jget_def Let_def)
  have rest: "jget_or ?raw ''location_mode'' v = JStr (location_mode_str (sf_location_mode f))"
    "jget ?raw ''gfs_publish_mode'' = JStr (publish_mode_str (sf_gfs_publish_mode f))"
    "jget ?raw ''allowed_post_types'' = JList (map JStr (sf_allowed_post_types f))"
    "map_of ?raw ''allowed_apps'' = Some (JList (map JStr (sf_allowed_apps f)))" for v
    by (simp_all add: features_to_wire_def jget_or_def jget_def)
  have types: "sort (map (json_str py_str) (map JStr (sf_allowed_post_types f))) = sf_allowed_post_types f"
    using assms(1) by (simp add: sorted_sort_id comp_def)
  show "features_from_wire py_str ?raw dflts = f"
    unfolding features_from_wire_def Let_def flags access rest
    using assms(2) types normalize_normal [OF assms(3)] by simp
  show "features_from_wire py_str [] (Some f) = f"
    by (simp add: features_from_wire_def form_lookup publish_mode_def)
qed

theorem features_wire_roundtrip_witness:
  "features_from_wire (\<lambda>_. []) (features_to_wire new_space_features) None = new_space_features
   \<and> features_from_wire (\<lambda>_. []) [] (Some new_space_features) = new_space_features"
proof (rule features_wire_roundtrip)
  show "sorted (sf_allowed_post_types new_space_features)"
    by (simp add: new_space_features_def default_features_def all_post_types_def)
qed (simp_all add: new_space_features_def default_features_def all_post_types_def apps_normal_def)

end
