(* ===== verification/Space_Scope.thy ===== *)
theory Space_Scope
  imports Space_Domain Federation_Types
begin

text \<open>
  Which space an inbound event may write to and who acts as that space's host
  (\<open>federation/space_scope.py\<close>, \<open>federation/host_equivalence.py\<close>).  The repositories are parameters, as
  they are arguments of the Python functions; a lookup may raise.
\<close>

section \<open>Rows\<close>

record space_row =
  sp_id :: string
  sp_owner_instance_id :: string
  sp_identity_public_key :: string
  sp_authority_key_epoch :: int
  sp_dissolved :: bool
  sp_archived :: bool
  sp_archived_reason :: "string option"
  sp_features :: space_features
  sp_owner_statement :: "string option"

record remote_seat =
  seat_instance_id :: string
  seat_user_id :: string
  seat_role :: string
  seat_tombstoned :: bool

record space_repos =
  sr_get :: "string \<Rightarrow> exn + space_row option"
  sr_invited_by :: "string \<Rightarrow> exn + string option"
  sr_invited_by_epoch :: "string \<Rightarrow> exn + int option"
  sr_owner_user_id :: "string \<Rightarrow> exn + string option"
  sr_seats :: "string \<Rightarrow> string \<Rightarrow> exn + remote_seat list"
  sr_seat :: "string \<Rightarrow> string \<Rightarrow> string \<Rightarrow> exn + remote_seat option"

text \<open>\<open>list_for_instance(..., include_tombstoned=...)\<close>.\<close>

definition sr_list_for_instance :: "space_repos \<Rightarrow> string \<Rightarrow> string \<Rightarrow> bool \<Rightarrow> exn + remote_seat list" where
  "sr_list_for_instance repo space_id instance_id include_tombstoned =
     res_bind (sr_seats repo space_id instance_id)
       (\<lambda>seats. Inr (if include_tombstoned then seats else filter (\<lambda>s. \<not> seat_tombstoned s) seats))"

section \<open>The space of an event\<close>

text \<open>\<open>event.payload or {}\<close>, then \<open>.get\<close>: a truthy payload that is no dict raises \<open>AttributeError\<close>.\<close>

definition resolve_space_id :: "(json \<Rightarrow> string) \<Rightarrow> federation_event \<Rightarrow> exn + string option" where
  "resolve_space_id py_str event =
     (let routing = str_or_empty py_str (fe_space_id event) in
      case (if truthy (fe_payload event) then fe_payload event else JObj []) of
        JObj d \<Rightarrow>
          (let payload = str_or_empty py_str (jget d ''space_id'') in
           if routing \<noteq> [] \<and> payload \<noteq> [] \<and> routing \<noteq> payload then Inr None
           else if routing \<noteq> [] then Inr (Some routing)
           else if payload \<noteq> [] then Inr (Some payload)
           else Inr None)
      | _ \<Rightarrow> Inl PyOtherError)"

definition archive_refusal :: "space_row option \<Rightarrow> string \<Rightarrow> string option" where
  "archive_refusal space sender =
     (case space of
        None \<Rightarrow> None
      | Some sp \<Rightarrow>
          if sp_dissolved sp then Some ''dissolved''
          else if \<not> sp_archived sp then None
          else if sp_archived_reason sp \<notin> {None, Some []} then Some (''archived ('' @ the (sp_archived_reason sp) @ '')'')
          else if sender \<noteq> [] \<and> sender = sp_owner_instance_id sp then None
          else Some ''archived'')"

section \<open>Host equivalence\<close>

definition max_statement_age_ms :: int where
  "max_statement_age_ms = 30 * 24 * 60 * 60 * 1000"

record py_lib =
  pl_str :: "json \<Rightarrow> string"
  pl_int_of_str :: "string \<Rightarrow> int option"
  pl_loads :: "string \<Rightarrow> json option"

definition owner_statement_current :: "py_lib \<Rightarrow> space_row \<Rightarrow> int \<Rightarrow> bool" where
  "owner_statement_current lib space now_ms =
     (case sp_owner_statement space of
        None \<Rightarrow> False
      | Some text \<Rightarrow>
          if text = [] then False
          else case pl_loads lib text of
            Some (JObj held) \<Rightarrow>
              (case (map_of held ''issued_at'', map_of held ''authority_pk'', map_of held ''authority_key_epoch'') of
                 (Some issued, Some pk, Some epoch) \<Rightarrow>
                   (case (py_int (pl_int_of_str lib) issued, py_int (pl_int_of_str lib) epoch) of
                      (Some issued_at, Some key_epoch) \<Rightarrow>
                        ascii_lower (json_str (pl_str lib) pk) = ascii_lower (sp_identity_public_key space)
                        \<and> key_epoch = sp_authority_key_epoch space
                        \<and> issued_at \<ge> now_ms - max_statement_age_ms
                    | _ \<Rightarrow> False)
               | _ \<Rightarrow> False)
          | _ \<Rightarrow> False)"

text \<open>\<open>has_seat_repo\<close>: the seat repository argument is not \<open>None\<close>.\<close>

definition is_trusted_inviter ::
  "py_lib \<Rightarrow> space_repos \<Rightarrow> bool \<Rightarrow> int \<Rightarrow> space_row option \<Rightarrow> string \<Rightarrow> exn + bool" where
  "is_trusted_inviter lib repo has_seat_repo now_ms space sender =
     (case space of
        None \<Rightarrow> Inr False
      | Some sp \<Rightarrow>
          if sender = [] \<or> \<not> has_seat_repo \<or> sender = sp_owner_instance_id sp then Inr False
          else if \<not> sf_delegated_admin_authority (sp_features sp) then Inr False
          else res_bind (sr_invited_by repo (sp_id sp)) (\<lambda>inviter.
            if inviter \<noteq> Some sender then Inr False
            else res_bind (sr_invited_by_epoch repo (sp_id sp)) (\<lambda>epoch.
              if epoch \<noteq> Some (sp_authority_key_epoch sp) then Inr False
              else if \<not> owner_statement_current lib sp now_ms then Inr False
              else res_bind (sr_list_for_instance repo (sp_id sp) sender False) (\<lambda>seats.
                Inr (list_ex (\<lambda>seat. seat_role seat = role_value ADMIN) seats)))))"

definition acts_as_host ::
  "py_lib \<Rightarrow> space_repos \<Rightarrow> bool \<Rightarrow> int \<Rightarrow> space_row option \<Rightarrow> string \<Rightarrow> exn + bool" where
  "acts_as_host lib repo has_seat_repo now_ms space sender =
     (case space of
        None \<Rightarrow> Inr False
      | Some sp \<Rightarrow>
          if sender = [] then Inr False
          else if sp_owner_instance_id sp = sender then Inr True
          else is_trusted_inviter lib repo has_seat_repo now_ms space sender)"

definition touches_owner_household ::
  "space_repos \<Rightarrow> bool \<Rightarrow> space_row \<Rightarrow> string \<Rightarrow> string option \<Rightarrow> exn + bool" where
  "touches_owner_household repo has_seat_repo space user_id instance_id =
     (if instance_id \<notin> {None, Some []} \<and> instance_id = Some (sp_owner_instance_id space) then Inr True
      else res_bind (if user_id \<noteq> [] then sr_owner_user_id repo (sp_id space) else Inr None) (\<lambda>owner.
        if user_id \<noteq> [] \<and> Some user_id = owner then Inr True
        else if has_seat_repo \<and> user_id \<noteq> [] then
          res_bind (sr_seat repo (sp_id space) (sp_owner_instance_id space) user_id) (\<lambda>seat. Inr (seat \<noteq> None))
        else Inr False))"

end
