(* ===== verification/Dedup.thy ===== *)
theory Dedup
  imports Prelude
begin

text \<open>
  The two "have we seen this key recently?" stores: the federation replay cache
  (\<open>crypto.py\<close>, \<open>ReplayCache\<close>, keyed by \<open>msg_id\<close>) and the general \<open>IdempotencyCache\<close>
  (\<open>infrastructure/idempotency.py\<close>).  Both are used as an atomic check-and-insert; the locale
  \<open>dedup\<close> states that contract once and is interpreted on both models, and the properties say that a
  key is let through once per window whatever calls come in between.
  Clocks are integers (seconds); the unit does not matter to any statement.
\<close>

section \<open>The replay cache\<close>

record replay_cache =
  rc_window :: int
  rc_seen :: "(string \<times> py_datetime) list"

definition rc_new :: "int \<Rightarrow> replay_cache" where
  "rc_new window = \<lparr>rc_window = window, rc_seen = []\<rparr>"

text \<open>\<open>REPLAY_CACHE_WINDOW = timedelta(hours=25)\<close>.\<close>

definition replay_cache_window :: int where
  "replay_cache_window = 25 * 3600"

text \<open>\<open>_prune\<close>: rows are normalised to aware UTC for the comparison only; strictly older rows go.\<close>

definition rc_prune :: "int \<Rightarrow> replay_cache \<Rightarrow> replay_cache" where
  "rc_prune now c =
     (let cutoff = now - rc_window c;
          stale = map fst (filter (\<lambda>(k, t). instant t < cutoff) (rc_seen c))
      in c\<lparr>rc_seen := fold AList.delete stale (rc_seen c)\<rparr>)"

definition rc_check :: "int \<Rightarrow> string \<Rightarrow> replay_cache \<Rightarrow> bool \<times> replay_cache" where
  "rc_check current msg_id c =
     (let c = rc_prune current c in
      if map_of (rc_seen c) msg_id \<noteq> None then (True, c)
      else (False, c\<lparr>rc_seen := AList.update msg_id (Aware current) (rc_seen c)\<rparr>))"

text \<open>\<open>load\<close>: warm rows; a row whose timestamp does not parse is skipped.\<close>

fun rc_load :: "(string \<Rightarrow> py_datetime option) \<Rightarrow> (string \<times> string) list \<Rightarrow> replay_cache \<Rightarrow> replay_cache" where
  "rc_load fromiso [] c = c"
| "rc_load fromiso ((msg_id, received_at) # rows) c =
     rc_load fromiso rows
       (case fromiso received_at of
          Some t \<Rightarrow> c\<lparr>rc_seen := AList.update msg_id t (rc_seen c)\<rparr>
        | None \<Rightarrow> c)"

definition rc_len :: "replay_cache \<Rightarrow> nat" where
  "rc_len c = length (rc_seen c)"

definition rc_wf :: "replay_cache \<Rightarrow> bool" where
  "rc_wf c \<longleftrightarrow> distinct (map fst (rc_seen c))"

text \<open>The id is remembered at time \<open>t\<close>: its row is not yet stale then.\<close>

definition rc_known :: "replay_cache \<Rightarrow> string \<Rightarrow> int \<Rightarrow> bool" where
  "rc_known c k t \<longleftrightarrow> (case map_of (rc_seen c) k of None \<Rightarrow> False | Some s \<Rightarrow> t \<le> instant s + rc_window c)"

lemma rc_prune_window [simp]: "rc_window (rc_prune now c) = rc_window c"
  by (simp add: rc_prune_def Let_def)

lemma rc_wf_prune [inv_intros]: "rc_wf c \<Longrightarrow> rc_wf (rc_prune now c)"
  by (simp add: rc_wf_def rc_prune_def Let_def distinct_fold_delete)

lemma rc_prune_lookup:
  assumes "rc_wf c"
  shows "map_of (rc_seen (rc_prune now c)) k = (if rc_known c k now then map_of (rc_seen c) k else None)"
proof -
  have stale: "k \<in> set (map fst (filter (\<lambda>(k, t). instant t < now - rc_window c) (rc_seen c)))
      \<longleftrightarrow> (\<exists>s. map_of (rc_seen c) k = Some s \<and> instant s < now - rc_window c)"
    using assms by (force simp: rc_wf_def image_iff)
  show ?thesis
    by (cases "map_of (rc_seen c) k")
      (auto simp: rc_prune_def Let_def map_of_fold_delete stale rc_known_def simp del: set_map set_filter)
qed

lemma rc_check_fresh:
  assumes "rc_wf c"
  shows "fst (rc_check now k c) = rc_known c k now"
  using rc_prune_lookup [OF assms, of now k]
  by (auto simp: rc_check_def Let_def rc_known_def split: option.splits if_splits)

lemma rc_wf_check [inv_intros]: "rc_wf c \<Longrightarrow> rc_wf (snd (rc_check now k c))"
  using rc_wf_prune [of c now] by (auto simp: rc_check_def Let_def rc_wf_def distinct_update)

lemma rc_check_window [simp]: "rc_window (snd (rc_check now k c)) = rc_window c"
  by (simp add: rc_check_def Let_def)

lemma rc_check_lookup:
  assumes "rc_wf c"
  shows "map_of (rc_seen (snd (rc_check now k c))) k' =
     (if rc_known c k' now then map_of (rc_seen c) k' else if k' = k then Some (Aware now) else None)"
  using rc_prune_lookup [OF assms, of now k] rc_prune_lookup [OF assms, of now k']
  by (auto simp: rc_check_def Let_def rc_known_def split: option.splits if_splits)

lemma rc_known_check:
  assumes "rc_wf c"
  shows "rc_known (snd (rc_check now k c)) k' t \<longleftrightarrow>
    (if rc_known c k' now then rc_known c k' t else k' = k \<and> t \<le> now + rc_window c)"
  by (simp add: rc_known_def [of "snd (rc_check now k c)"] rc_check_lookup [OF assms] rc_known_def [of c k' t]
      cong: option.case_cong)

lemma rc_load_window [simp]: "rc_window (rc_load fromiso rows c) = rc_window c"
  by (induction fromiso rows c rule: rc_load.induct) (simp_all split: option.split)

lemma rc_wf_load [inv_intros]: "rc_wf c \<Longrightarrow> rc_wf (rc_load fromiso rows c)"
  by (induction fromiso rows c rule: rc_load.induct) (simp_all add: rc_wf_def distinct_update split: option.split)

lemma rc_load_other: "k \<notin> fst ` set rows \<Longrightarrow> map_of (rc_seen (rc_load fromiso rows c)) k = map_of (rc_seen c) k"
  by (induction fromiso rows c rule: rc_load.induct) (auto split: option.split)

lemma rc_load_lookup:
  assumes "distinct (map fst rows)" "(k, r) \<in> set rows" "fromiso r = Some s"
  shows "map_of (rc_seen (rc_load fromiso rows c)) k = Some s"
  using assms
proof (induction fromiso rows c rule: rc_load.induct)
  case (2 fromiso msg_id received_at rows c)
  show ?case
  proof (cases "(k, r) = (msg_id, received_at)")
    case True
    with 2 show ?thesis by (simp add: rc_load_other)
  next
    case False
    with 2 show ?thesis by auto
  qed
qed simp

section \<open>The idempotency cache\<close>

record 'k idempotency_cache =
  idem_ttl :: int
  idem_max :: nat
  idem_entries :: "('k \<times> int) list"
  idem_index :: "('k \<times> int) list"

definition idem_new :: "int \<Rightarrow> nat \<Rightarrow> exn + 'k idempotency_cache" where
  "idem_new ttl_seconds max_entries =
     (if ttl_seconds \<le> 0 then Inl ValueError
      else Inr \<lparr>idem_ttl = ttl_seconds, idem_max = max_entries, idem_entries = [], idem_index = []\<rparr>)"

text \<open>\<open>_evict\<close>: entries leave from the left; the index row goes only if it has expired too.\<close>

fun idem_evict_loop :: "int \<Rightarrow> ('k \<times> int) list \<Rightarrow> ('k \<times> int) list \<Rightarrow> ('k \<times> int) list \<times> ('k \<times> int) list" where
  "idem_evict_loop now [] index = ([], index)"
| "idem_evict_loop now ((k, expires_at) # entries) index =
     (if expires_at \<le> now then
        idem_evict_loop now entries
          (case map_of index k of
             Some current \<Rightarrow> if current \<le> now then AList.delete k index else index
           | None \<Rightarrow> index)
      else ((k, expires_at) # entries, index))"

definition idem_evict :: "int \<Rightarrow> 'k idempotency_cache \<Rightarrow> 'k idempotency_cache" where
  "idem_evict now c =
     (case idem_evict_loop now (idem_entries c) (idem_index c) of
        (es, ix) \<Rightarrow> c\<lparr>idem_entries := es, idem_index := ix\<rparr>)"

fun idem_cap_loop :: "nat \<Rightarrow> ('k \<times> int) list \<Rightarrow> ('k \<times> int) list \<Rightarrow> ('k \<times> int) list \<times> ('k \<times> int) list" where
  "idem_cap_loop cap [] index = ([], index)"
| "idem_cap_loop cap ((k, expires_at) # entries) index =
     (if length index > cap then idem_cap_loop cap entries (AList.delete k index)
      else ((k, expires_at) # entries, index))"

definition idem_enforce_cap :: "'k idempotency_cache \<Rightarrow> 'k idempotency_cache" where
  "idem_enforce_cap c =
     (case idem_cap_loop (idem_max c) (idem_entries c) (idem_index c) of
        (es, ix) \<Rightarrow> c\<lparr>idem_entries := es, idem_index := ix\<rparr>)"

definition idem_seen :: "int \<Rightarrow> 'k \<Rightarrow> 'k idempotency_cache \<Rightarrow> bool \<times> 'k idempotency_cache" where
  "idem_seen now key c =
     (let c = idem_evict now c in
      (case map_of (idem_index c) key of None \<Rightarrow> False | Some expiry \<Rightarrow> expiry > now, c))"

definition idem_mark_seen :: "int \<Rightarrow> 'k \<Rightarrow> 'k idempotency_cache \<Rightarrow> 'k idempotency_cache" where
  "idem_mark_seen now key c =
     (let c = idem_evict now c;
          expires = now + idem_ttl c;
          c = (if map_of (idem_index c) key \<noteq> None
               then c\<lparr>idem_index := AList.update key expires (idem_index c),
                      idem_entries := idem_entries c @ [(key, expires)]\<rparr>
               else c\<lparr>idem_entries := idem_entries c @ [(key, expires)],
                      idem_index := AList.update key expires (idem_index c)\<rparr>)
      in idem_enforce_cap c)"

text \<open>\<open>check_and_mark\<close> answers \<open>True\<close> for a new key.\<close>

definition idem_check_and_mark :: "int \<Rightarrow> 'k \<Rightarrow> 'k idempotency_cache \<Rightarrow> bool \<times> 'k idempotency_cache" where
  "idem_check_and_mark now key c =
     (case idem_seen now key c of
        (True, c) \<Rightarrow> (False, c)
      | (False, c) \<Rightarrow> (True, idem_mark_seen now key c))"

definition idem_size :: "int \<Rightarrow> 'k idempotency_cache \<Rightarrow> nat \<times> 'k idempotency_cache" where
  "idem_size now c = (let c = idem_evict now c in (length (idem_index c), c))"

definition idem_clear :: "'k idempotency_cache \<Rightarrow> 'k idempotency_cache" where
  "idem_clear c = c\<lparr>idem_entries := [], idem_index := []\<rparr>"

text \<open>Every index row has its deque entry: the eviction loops reach it.\<close>

definition idem_inv :: "'k idempotency_cache \<Rightarrow> bool" where
  "idem_inv c \<longleftrightarrow> distinct (map fst (idem_index c)) \<and> set (idem_index c) \<subseteq> set (idem_entries c)
     \<and> length (idem_index c) \<le> idem_max c"

definition idem_known :: "'k idempotency_cache \<Rightarrow> 'k \<Rightarrow> int \<Rightarrow> bool" where
  "idem_known c k t \<longleftrightarrow> (case map_of (idem_index c) k of None \<Rightarrow> False | Some e \<Rightarrow> e > t)"

lemma idem_evict_loop_props:
  assumes "idem_evict_loop now es ix = (es', ix')" "distinct (map fst ix)" "set ix \<subseteq> set es"
  shows "distinct (map fst ix') \<and> set ix' \<subseteq> set es' \<and> length ix' \<le> length ix
    \<and> (\<forall>k. map_of ix' k = map_of ix k \<or> map_of ix' k = None \<and> (\<exists>e. map_of ix k = Some e \<and> e \<le> now))"
  using assms
proof (induction now es ix rule: idem_evict_loop.induct)
  case (2 now k e es ix)
  define ix1 where "ix1 = (case map_of ix k of Some current \<Rightarrow> if current \<le> now then AList.delete k ix else ix | None \<Rightarrow> ix)"
  show ?case
  proof (cases "e \<le> now")
    case True
    have run: "idem_evict_loop now es ix1 = (es', ix')" using 2 True by (simp add: ix1_def)
    have d: "distinct (map fst ix1)" using 2 by (auto simp: ix1_def distinct_delete split: option.split)
    have s: "set ix1 \<subseteq> set es"
    proof
      fix p assume p: "p \<in> set ix1"
      then have "p \<in> set ix" by (auto simp: ix1_def AList.delete_eq split: option.splits if_splits)
      with 2 have "p = (k, e) \<or> p \<in> set es" by auto
      moreover have "p \<noteq> (k, e)"
      proof
        assume pk: "p = (k, e)"
        with \<open>p \<in> set ix\<close> 2 have "map_of ix k = Some e" by simp
        with True p pk show False by (auto simp: ix1_def AList.delete_eq)
      qed
      ultimately show "p \<in> set es" by blast
    qed
    have IH: "distinct (map fst ix') \<and> set ix' \<subseteq> set es' \<and> length ix' \<le> length ix1
      \<and> (\<forall>k. map_of ix' k = map_of ix1 k \<or> map_of ix' k = None \<and> (\<exists>e. map_of ix1 k = Some e \<and> e \<le> now))"
      using "2.IH" [OF True, folded ix1_def, OF run d s] .
    have "length ix1 \<le> length ix" by (auto simp: ix1_def AList.delete_eq split: option.split)
    moreover have "map_of ix1 j = map_of ix j \<or> map_of ix1 j = None \<and> (\<exists>e. map_of ix j = Some e \<and> e \<le> now)" for j
      by (auto simp: ix1_def split: option.split)
    ultimately show ?thesis using IH by (metis le_trans)
  next
    case False
    with 2 show ?thesis by auto
  qed
qed auto

lemma idem_cap_loop_props:
  assumes "idem_cap_loop cap es ix = (es', ix')" "distinct (map fst ix)" "set ix \<subseteq> set es"
  shows "distinct (map fst ix') \<and> set ix' \<subseteq> set es' \<and> length ix' \<le> cap \<and> set ix' \<subseteq> set ix"
  using assms
proof (induction cap es ix rule: idem_cap_loop.induct)
  case (2 cap k e es ix)
  show ?case
  proof (cases "length ix > cap")
    case True
    have "distinct (map fst (AList.delete k ix))" using 2 by (simp add: distinct_delete)
    moreover have "set (AList.delete k ix) \<subseteq> set es" using 2 by (auto simp: AList.delete_eq)
    moreover have "idem_cap_loop cap es (AList.delete k ix) = (es', ix')" using 2 True by simp
    ultimately have "distinct (map fst ix') \<and> set ix' \<subseteq> set es' \<and> length ix' \<le> cap \<and> set ix' \<subseteq> set (AList.delete k ix)"
      using "2.IH" [OF True] by blast
    then show ?thesis by (auto simp: AList.delete_eq)
  next
    case False
    with 2 show ?thesis by auto
  qed
qed auto

lemma idem_cap_loop_idle: "length ix \<le> cap \<Longrightarrow> idem_cap_loop cap es ix = (es, ix)"
  by (cases "(cap, es, ix)" rule: idem_cap_loop.cases) auto

lemma idem_evict_props:
  assumes "idem_inv c"
  shows "idem_inv (idem_evict now c)"
    and "idem_known c k t \<Longrightarrow> now \<le> t \<Longrightarrow> map_of (idem_index (idem_evict now c)) k = map_of (idem_index c) k"
    and "map_of (idem_index (idem_evict now c)) k \<noteq> None
       \<Longrightarrow> map_of (idem_index (idem_evict now c)) k = map_of (idem_index c) k"
    and "length (idem_index (idem_evict now c)) \<le> length (idem_index c)"
    and "idem_max (idem_evict now c) = idem_max c" "idem_ttl (idem_evict now c) = idem_ttl c"
proof -
  obtain es ix where r: "idem_evict_loop now (idem_entries c) (idem_index c) = (es, ix)" by fastforce
  from assms have "distinct (map fst (idem_index c))" "set (idem_index c) \<subseteq> set (idem_entries c)"
    by (auto simp: idem_inv_def)
  note props = idem_evict_loop_props [OF r this]
  have c': "idem_evict now c = c\<lparr>idem_entries := es, idem_index := ix\<rparr>" by (simp add: idem_evict_def r)
  from props assms show "idem_inv (idem_evict now c)" by (auto simp: c' idem_inv_def)
  have row: "map_of ix k = map_of (idem_index c) k
      \<or> map_of ix k = None \<and> (\<exists>e. map_of (idem_index c) k = Some e \<and> e \<le> now)" using props by blast
  then show "map_of (idem_index (idem_evict now c)) k = map_of (idem_index c) k"
    if "idem_known c k t" "now \<le> t" using that by (auto simp: c' idem_known_def split: option.splits)
  from row show "map_of (idem_index (idem_evict now c)) k = map_of (idem_index c) k"
    if "map_of (idem_index (idem_evict now c)) k \<noteq> None" using that by (auto simp: c')
  show "length (idem_index (idem_evict now c)) \<le> length (idem_index c)" using props by (simp add: c')
  show "idem_max (idem_evict now c) = idem_max c" "idem_ttl (idem_evict now c) = idem_ttl c" by (simp_all add: c')
qed

lemma idem_known_evict:
  assumes "idem_inv c" "now \<le> t"
  shows "idem_known (idem_evict now c) k t = idem_known c k t"
  using idem_evict_props(2) [OF assms(1), of k t now] idem_evict_props(3) [OF assms(1), of now k] assms(2)
  by (cases "map_of (idem_index (idem_evict now c)) k") (auto simp: idem_known_def split: option.splits)

lemma idem_seen_answer:
  assumes "idem_inv c"
  shows "fst (idem_seen now k c) = idem_known c k now" "snd (idem_seen now k c) = idem_evict now c"
  using idem_known_evict [OF assms order.refl] by (simp_all add: idem_seen_def Let_def idem_known_def)

lemma idem_inv_mark [inv_intros]:
  assumes "idem_inv c"
  shows "idem_inv (idem_mark_seen now k c)"
    and "idem_max (idem_mark_seen now k c) = idem_max c" "idem_ttl (idem_mark_seen now k c) = idem_ttl c"
proof -
  define c1 where "c1 = idem_evict now c"
  define ix where "ix = AList.update k (now + idem_ttl c1) (idem_index c1)"
  define es where "es = idem_entries c1 @ [(k, now + idem_ttl c1)]"
  obtain es' ix' where r: "idem_cap_loop (idem_max c1) es ix = (es', ix')" by fastforce
  have m: "idem_mark_seen now k c = c1\<lparr>idem_entries := es', idem_index := ix'\<rparr>"
    by (simp add: idem_mark_seen_def Let_def idem_enforce_cap_def r flip: c1_def ix_def es_def)
  have i1: "idem_inv c1" unfolding c1_def by (rule idem_evict_props(1) [OF assms])
  then have d: "distinct (map fst ix)" by (simp add: ix_def idem_inv_def distinct_update)
  have s: "set ix \<subseteq> set es"
  proof
    fix p assume "p \<in> set ix"
    then have "map_of ix (fst p) = Some (snd p)" using d by simp
    then show "p \<in> set es" using i1
      by (cases p) (auto simp: ix_def es_def idem_inv_def split: if_splits dest: map_of_SomeD)
  qed
  show "idem_inv (idem_mark_seen now k c)"
    using idem_cap_loop_props [OF r d s] by (simp add: m idem_inv_def)
  show "idem_max (idem_mark_seen now k c) = idem_max c" "idem_ttl (idem_mark_seen now k c) = idem_ttl c"
    using idem_evict_props(5,6) [OF assms, of now] by (simp_all add: m c1_def)
qed

text \<open>While the cap is not reached a mark adds exactly the marked key.\<close>

lemma idem_mark_lookup:
  assumes "idem_inv c" "length (idem_index c) < idem_max c"
  shows "map_of (idem_index (idem_mark_seen now k c)) =
           (map_of (idem_index (idem_evict now c)))(k \<mapsto> now + idem_ttl c)"
    and "length (idem_index (idem_mark_seen now k c)) \<le> Suc (length (idem_index c))"
proof -
  define c1 where "c1 = idem_evict now c"
  have c1: "idem_max c1 = idem_max c" "idem_ttl c1 = idem_ttl c" "length (idem_index c1) \<le> length (idem_index c)"
    unfolding c1_def using idem_evict_props(4-6) [OF assms(1)] by auto
  have l: "length (AList.update k e (idem_index c1)) \<le> Suc (length (idem_index c1))" for e
    by (rule length_alist_update)
  have idle: "idem_cap_loop (idem_max c) es (AList.update k e (idem_index c1)) = (es, AList.update k e (idem_index c1))" for es e
    using l [of e] c1 assms(2) by (intro idem_cap_loop_idle) auto
  have m: "idem_index (idem_mark_seen now k c) = AList.update k (now + idem_ttl c) (idem_index c1)"
    by (simp add: idem_mark_seen_def Let_def idem_enforce_cap_def idle c1 flip: c1_def)
  then show "map_of (idem_index (idem_mark_seen now k c)) = (map_of (idem_index (idem_evict now c)))(k \<mapsto> now + idem_ttl c)"
    by (simp add: c1_def)
  show "length (idem_index (idem_mark_seen now k c)) \<le> Suc (length (idem_index c))"
    using l [of "now + idem_ttl c"] c1(3) by (simp add: m)
qed

lemma idem_check_cases:
  assumes "idem_inv c"
  shows "idem_check_and_mark now k c =
    (if idem_known c k now then (False, idem_evict now c) else (True, idem_mark_seen now k (idem_evict now c)))"
  using idem_seen_answer [OF assms, of now k]
  by (cases "idem_seen now k c") (auto simp: idem_check_and_mark_def split: bool.splits)

lemma idem_inv_check [inv_intros]: "idem_inv c \<Longrightarrow> idem_inv (snd (idem_check_and_mark now k c))"
  by (simp add: idem_check_cases idem_evict_props(1) idem_inv_mark(1))

lemma idem_check_params:
  "idem_inv c \<Longrightarrow> idem_ttl (snd (idem_check_and_mark now k c)) = idem_ttl c"
  "idem_inv c \<Longrightarrow> idem_max (snd (idem_check_and_mark now k c)) = idem_max c"
  by (simp_all add: idem_check_cases idem_evict_props idem_inv_mark)

lemma idem_check_known:
  assumes "idem_inv c" "length (idem_index c) < idem_max c" "now \<le> t"
  shows "idem_known (snd (idem_check_and_mark now k c)) k' t \<longleftrightarrow>
     idem_known c k' t \<and> (k' \<noteq> k \<or> idem_known c k now) \<or> k' = k \<and> \<not> idem_known c k now \<and> t < now + idem_ttl c"
proof -
  let ?c = "idem_evict now c"
  have i: "idem_inv ?c" by (rule idem_evict_props(1) [OF assms(1)])
  have "idem_evict now ?c = ?c \<or> idem_known (idem_evict now ?c) k' t = idem_known c k' t"
    using idem_known_evict [OF i assms(3)] idem_known_evict [OF assms(1,3)] by simp
  moreover have l: "length (idem_index ?c) < idem_max ?c"
    using idem_evict_props(4,5) [OF assms(1), of now] assms(2) by simp
  have "idem_known (idem_mark_seen now k ?c) k' t \<longleftrightarrow>
      (if k' = k then t < now + idem_ttl ?c else idem_known (idem_evict now ?c) k' t)"
    using idem_mark_lookup(1) [OF i l, of now k] by (simp add: idem_known_def)
  ultimately show ?thesis
    using idem_known_evict [OF i assms(3), of k'] idem_known_evict [OF assms(1,3), of k'] idem_evict_props(6) [OF assms(1), of now]
    by (auto simp: idem_check_cases [OF assms(1)])
qed

lemma idem_check_length:
  assumes "idem_inv c" "length (idem_index c) < idem_max c"
  shows "length (idem_index (snd (idem_check_and_mark now k c))) \<le> Suc (length (idem_index c))"
proof -
  have i: "idem_inv (idem_evict now c)" by (rule idem_evict_props(1) [OF assms(1)])
  have l: "length (idem_index (idem_evict now c)) < idem_max (idem_evict now c)"
    using idem_evict_props(4,5) [OF assms(1), of now] assms(2) by simp
  show ?thesis
    using idem_evict_props(4) [OF assms(1), of now] idem_mark_lookup(2) [OF i l, of now k]
    by (auto simp: idem_check_cases [OF assms(1)])
qed

section \<open>The contract\<close>

text \<open>
  What a caller of either cache relies on.  \<open>known c k t\<close>: the key would be reported as seen at time
  \<open>t\<close>; \<open>covers c t t'\<close>: a key recorded at \<open>t\<close> is still remembered at \<open>t'\<close>; \<open>room c n\<close>: the cache has
  space for \<open>n\<close> more keys.  \<open>check\<close> answers whether the key was seen and records it otherwise.
\<close>

locale dedup =
  fixes ok :: "'c \<Rightarrow> bool"
    and room :: "'c \<Rightarrow> nat \<Rightarrow> bool"
    and known :: "'c \<Rightarrow> 'k \<Rightarrow> int \<Rightarrow> bool"
    and covers :: "'c \<Rightarrow> int \<Rightarrow> int \<Rightarrow> bool"
    and check :: "int \<Rightarrow> 'k \<Rightarrow> 'c \<Rightarrow> bool \<times> 'c"
  assumes check_ok: "ok c \<Longrightarrow> ok (snd (check t k c))"
    and check_room: "ok c \<Longrightarrow> room c (Suc n) \<Longrightarrow> room (snd (check t k c)) n"
    and check_covers: "ok c \<Longrightarrow> covers (snd (check t k c)) = covers c"
    and check_answer: "ok c \<Longrightarrow> fst (check t k c) = known c k t"
    and check_known: "ok c \<Longrightarrow> room c (Suc n) \<Longrightarrow> t \<le> t' \<Longrightarrow>
       known (snd (check t k c)) k' t' \<longleftrightarrow>
         known c k' t' \<or> k' = k \<and> \<not> known c k t \<and> covers c t t'"
    and known_earlier: "known c k t' \<Longrightarrow> t \<le> t' \<Longrightarrow> known c k t"

context dedup
begin

text \<open>A run of checks: the final cache and the calls that were let through, in order.\<close>

fun run :: "(int \<times> 'k) list \<Rightarrow> 'c \<Rightarrow> 'c \<times> (int \<times> 'k) list" where
  "run [] c = (c, [])"
| "run ((t, k) # calls) c =
     (case check t k c of (was_seen, c') \<Rightarrow>
        (case run calls c' of (c'', passed) \<Rightarrow> (c'', if was_seen then passed else (t, k) # passed)))"

lemma run_Cons:
  "run ((t, k) # calls) c =
     (fst (run calls (snd (check t k c))),
      if fst (check t k c) then snd (run calls (snd (check t k c))) else (t, k) # snd (run calls (snd (check t k c))))"
  by (simp split: prod.split)

lemma run_ok: "ok c \<Longrightarrow> ok (fst (run calls c))"
  by (induction calls c rule: run.induct) (auto simp: check_ok split: prod.splits dest: check_ok [of _ _ _] simp: prod_eq_iff)

lemma passed_subset: "set (snd (run calls c)) \<subseteq> set calls"
proof (induction calls arbitrary: c)
  case (Cons p calls)
  then show ?case by (cases p) (auto simp: run_Cons simp del: run.simps(2))
qed simp

text \<open>A key that is known at a later instant is not let through up to it.\<close>

lemma known_not_passed:
  assumes "ok c" "room c (length calls)" "sorted (map fst calls)" "known c k t'" "(t', k) \<in> set (snd (run calls c))"
  shows False
  using assms
proof (induction calls arbitrary: c)
  case (Cons p calls)
  obtain t j where p: "p = (t, j)" by fastforce
  let ?c = "snd (check t j c)"
  from Cons.prems(5) passed_subset [of "p # calls" c] have le: "t \<le> t'"
    using Cons.prems(3) p by force
  show False
  proof (cases "(t', k) \<in> set (snd (run calls ?c))")
    case True
    show ?thesis
    proof (rule Cons.IH [of ?c])
      show "ok ?c" "room ?c (length calls)" "sorted (map fst calls)" "(t', k) \<in> set (snd (run calls ?c))"
        using Cons.prems True by (auto simp: check_ok intro: check_room)
      show "known ?c k t'"
        using check_known [of c "length calls" t t' j k] Cons.prems le by auto
    qed
  next
    case False
    with Cons.prems(1,4,5) p show ?thesis by (auto simp: run_Cons check_answer simp del: run.simps(2) split: if_splits)
  qed
qed simp

end

context dedup
begin

text \<open>
  Once per window: of two calls let through for the same key, the later one lies outside the
  retention of the earlier one.
\<close>

lemma passed_once:
  assumes "ok c" "room c (length calls)" "sorted (map fst calls)"
  shows "sorted_wrt (\<lambda>(t, k) (t', k'). k = k' \<longrightarrow> \<not> covers c t t') (snd (run calls c))"
  using assms
proof (induction calls arbitrary: c)
  case (Cons p calls)
  obtain t j where p: "p = (t, j)" by fastforce
  let ?c = "snd (check t j c)"
  have prems: "ok ?c" "room ?c (length calls)" "sorted (map fst calls)"
    using Cons.prems by (auto simp: check_ok intro: check_room)
  have IH: "sorted_wrt (\<lambda>(t, k) (t', k'). k = k' \<longrightarrow> \<not> covers c t t') (snd (run calls ?c))"
    using Cons.IH [OF prems] check_covers [of c t j] Cons.prems(1) by simp
  have "\<not> covers c t t'" if fresh: "\<not> known c j t" and late: "(t', j) \<in> set (snd (run calls ?c))" for t'
  proof
    assume cov: "covers c t t'"
    from late passed_subset [of calls ?c] have "t \<le> t'" using Cons.prems(3) p by force
    then have "known ?c j t'" using check_known [of c "length calls" t t' j j] Cons.prems fresh cov by simp
    from known_not_passed [OF prems this late] show False .
  qed
  with IH p Cons.prems(1) show ?case
    by (auto simp: run_Cons check_answer simp del: run.simps(2))
qed simp

text \<open>
  Nothing is lost either: at the end a key is known exactly when it was known before, or was let
  through at an instant whose retention reaches the asking time.
\<close>

lemma known_after_run:
  assumes "ok c" "room c (length calls)" "\<forall>p \<in> set calls. fst p \<le> t'"
  shows "known (fst (run calls c)) k t' \<longleftrightarrow>
    known c k t' \<or> (\<exists>t. (t, k) \<in> set (snd (run calls c)) \<and> covers c t t')"
  using assms
proof (induction calls arbitrary: c)
  case (Cons p calls)
  obtain t j where p: "p = (t, j)" by fastforce
  let ?c = "snd (check t j c)"
  have prems: "ok ?c" "room ?c (length calls)"
    using Cons.prems by (auto simp: check_ok intro: check_room)
  have IH: "known (fst (run calls ?c)) k t' \<longleftrightarrow>
      known ?c k t' \<or> (\<exists>s. (s, k) \<in> set (snd (run calls ?c)) \<and> covers c s t')"
    using Cons.IH [OF prems] check_covers [of c t j] Cons.prems by simp
  have "known ?c k t' \<longleftrightarrow> known c k t' \<or> k = j \<and> \<not> known c j t \<and> covers c t t'"
    using check_known [of c "length calls" t t' j k] Cons.prems p by simp
  with IH p Cons.prems(1) show ?case
    by (auto simp: run_Cons check_answer simp del: run.simps(2))
qed simp

end

interpretation replay: dedup
  where ok = rc_wf and room = "\<lambda>_ _. True" and known = rc_known
    and covers = "\<lambda>c t t'. t' \<le> t + rc_window c" and check = rc_check
  by unfold_locales
    (auto simp: rc_wf_check rc_check_fresh rc_known_check split: if_splits option.splits,
     auto simp: rc_known_def split: option.splits)

interpretation idem: dedup
  where ok = idem_inv and room = "\<lambda>c n. length (idem_index c) + n \<le> idem_max c" and known = idem_known
    and covers = "\<lambda>c t t'. t' < t + idem_ttl c"
    and check = "\<lambda>t k c. map_prod Not id (idem_check_and_mark t k c)"
proof unfold_locales
  fix c :: "'k idempotency_cache" and t t' :: int and k k' :: 'k and n
  assume i: "idem_inv c"
  show "idem_inv (snd (map_prod Not id (idem_check_and_mark t k c)))" using idem_inv_check [OF i] by simp
  show "(\<lambda>s s'. s' < s + idem_ttl (snd (map_prod Not id (idem_check_and_mark t k c)))) = (\<lambda>s s'. s' < s + idem_ttl c)"
    using idem_check_params [OF i] by simp
  show "fst (map_prod Not id (idem_check_and_mark t k c)) = idem_known c k t"
    by (simp add: idem_check_cases [OF i])
  assume r: "length (idem_index c) + Suc n \<le> idem_max c"
  then have l: "length (idem_index c) < idem_max c" by simp
  show "length (idem_index (snd (map_prod Not id (idem_check_and_mark t k c)))) + n
      \<le> idem_max (snd (map_prod Not id (idem_check_and_mark t k c)))"
    using r idem_check_length [OF i l, of t k] idem_check_params [OF i] by simp
  assume "t \<le> t'"
  then show "idem_known (snd (map_prod Not id (idem_check_and_mark t k c))) k' t' =
      (idem_known c k' t' \<or> k' = k \<and> \<not> idem_known c k t \<and> t' < t + idem_ttl c)"
    using idem_check_known [OF i l, of t t' k k'] by (auto simp: idem_known_def split: option.splits)
qed (auto simp: idem_known_def split: option.splits)

section \<open>Properties\<close>

lemma rc_known_load:
  assumes "distinct (map fst rows)"
  shows "rc_known (rc_load fromiso rows (rc_new window)) k t \<longleftrightarrow>
    (\<exists>r s. (k, r) \<in> set rows \<and> fromiso r = Some s \<and> t \<le> instant s + window)"
proof (cases "\<exists>r s. (k, r) \<in> set rows \<and> fromiso r = Some s")
  case True
  then obtain r s where r: "(k, r) \<in> set rows" "fromiso r = Some s" by blast
  then have "map_of (rc_seen (rc_load fromiso rows (rc_new window))) k = Some s"
    by (rule rc_load_lookup [OF assms])
  moreover have "r' = r" if "(k, r') \<in> set rows" for r'
    using assms r(1) that by (metis map_of_eq_Some_iff option.inject)
  ultimately have "(\<exists>r' s'. (k, r') \<in> set rows \<and> fromiso r' = Some s' \<and> t \<le> instant s' + window) \<longleftrightarrow> t \<le> instant s + window"
    using r by (metis option.inject)
  with \<open>map_of (rc_seen (rc_load fromiso rows (rc_new window))) k = Some s\<close> show ?thesis
    by (simp add: rc_known_def) (simp add: rc_new_def)
next
  case False
  have "map_of (rc_seen (rc_load fromiso rows c)) k = map_of (rc_seen c) k"
    if "\<forall>r. (k, r) \<in> set rows \<longrightarrow> fromiso r = None" for c using that
    by (induction fromiso rows c rule: rc_load.induct) (auto split: option.split)
  with False show ?thesis by (auto simp: rc_known_def rc_new_def)
qed

text \<open>
  Replay protection over a whole process life.  A cache warmed from the persisted rows and then
  driven by any sequence of checks reports an id as a replay at a later instant exactly when a warmed
  row for it, or an earlier admitted check of it, is at most the window old.
\<close>

theorem replay_refused_iff:
  assumes "distinct (map fst rows)" "\<forall>p \<in> set calls. fst p \<le> now"
  shows "fst (rc_check now k (fst (replay.run calls (rc_load fromiso rows (rc_new window))))) \<longleftrightarrow>
    (\<exists>r s. (k, r) \<in> set rows \<and> fromiso r = Some s \<and> now \<le> instant s + window) \<or>
    (\<exists>t. (t, k) \<in> set (snd (replay.run calls (rc_load fromiso rows (rc_new window)))) \<and> now \<le> t + window)"
proof -
  let ?c = "rc_load fromiso rows (rc_new window)"
  have wf: "rc_wf ?c" by (rule rc_wf_load) (simp add: rc_wf_def rc_new_def)
  have "rc_wf (fst (replay.run calls ?c))" by (rule replay.run_ok [OF wf])
  then have "fst (rc_check now k (fst (replay.run calls ?c))) = rc_known (fst (replay.run calls ?c)) k now"
    by (rule rc_check_fresh)
  also have "\<dots> \<longleftrightarrow> rc_known ?c k now \<or> (\<exists>t. (t, k) \<in> set (snd (replay.run calls ?c)) \<and> now \<le> t + rc_window ?c)"
    using replay.known_after_run [OF wf TrueI assms(2)] .
  also have "rc_window ?c = window" by (simp add: rc_new_def)
  finally show ?thesis by (simp add: rc_known_load [OF assms(1)])
qed

theorem replay_refused_iff_witness:
  "fst (rc_check 100 ''m1'' (fst (replay.run [(20, ''m1''), (30, ''m2'')]
      (rc_load (\<lambda>r. if r = ''noon'' then Some (Naive 5) else None) [(''m0'', ''noon''), (''m9'', ''bad'')] (rc_new 90)))))"
  by (subst replay_refused_iff) (simp_all add: rc_check_def rc_prune_def rc_new_def Let_def)

text \<open>
  One admission per window.  Two admitted checks of one id are always more than the window apart,
  whatever cache the run starts from.
\<close>

theorem replay_once_per_window:
  assumes "rc_wf c" "sorted (map fst calls)"
  shows "sorted_wrt (\<lambda>(t, k) (t', k'). k = k' \<longrightarrow> t + rc_window c < t') (snd (replay.run calls c))"
  using replay.passed_once [OF assms(1) TrueI assms(2)] by (simp add: not_le)

theorem replay_once_per_window_witness:
  "snd (replay.run [(0, ''m''), (10, ''m''), (11, ''m'')] (rc_new 10)) = [(0, ''m''), (11, ''m'')]
   \<and> sorted_wrt (\<lambda>(t, k) (t', k'). k = k' \<longrightarrow> t + rc_window (rc_new 10) < t')
       (snd (replay.run [(0, ''m''), (10, ''m''), (11, ''m'')] (rc_new 10)))"
proof
  show "snd (replay.run [(0, ''m''), (10, ''m''), (11, ''m'')] (rc_new 10)) = [(0, ''m''), (11, ''m'')]"
    by (simp add: rc_new_def rc_check_def rc_prune_def Let_def)
  show "sorted_wrt (\<lambda>(t, k) (t', k'). k = k' \<longrightarrow> t + rc_window (rc_new 10) < t')
       (snd (replay.run [(0, ''m''), (10, ''m''), (11, ''m'')] (rc_new 10)))"
    by (rule replay_once_per_window) (simp_all add: rc_wf_def rc_new_def)
qed

text \<open>
  The idempotency cache lets a key through once per time-to-live, as long as no more calls are
  made than the cap holds; at the end the cache answers for exactly the admitted, unexpired keys.
\<close>

theorem idempotent_once_per_ttl:
  assumes "idem_new ttl cap = Inr c" "length calls \<le> cap" "sorted (map fst calls)" "\<forall>p \<in> set calls. fst p \<le> now"
  shows "sorted_wrt (\<lambda>(t, k) (t', k'). k = k' \<longrightarrow> t + ttl \<le> t') (snd (idem.run calls c))
    \<and> (fst (idem_seen now key (fst (idem.run calls c))) \<longleftrightarrow>
        (\<exists>t. (t, key) \<in> set (snd (idem.run calls c)) \<and> now < t + ttl))"
proof -
  from assms(1) have c: "idem_inv c" "length (idem_index c) + length calls \<le> idem_max c" "idem_ttl c = ttl"
      "\<not> idem_known c key now"
    using assms(2) by (auto simp: idem_new_def idem_inv_def idem_known_def split: if_splits)
  have "fst (idem_seen now key (fst (idem.run calls c))) = idem_known (fst (idem.run calls c)) key now"
    by (rule idem_seen_answer(1) [OF idem.run_ok [OF c(1)]])
  with idem.passed_once [OF c(1,2) assms(3)] idem.known_after_run [OF c(1,2) assms(4)] c(3,4)
  show ?thesis by (simp add: not_less)
qed

theorem idempotent_once_per_ttl_witness:
  "\<exists>c. idem_new 60 8 = Inr c
     \<and> sorted_wrt (\<lambda>(t, k) (t', k'). k = k' \<longrightarrow> t + 60 \<le> t') (snd (idem.run [(0, ''call''), (59, ''call''), (60, ''call'')] c))
     \<and> (fst (idem_seen 70 ''call'' (fst (idem.run [(0, ''call''), (59, ''call''), (60, ''call'')] c))) \<longleftrightarrow>
         (\<exists>t. (t, ''call'') \<in> set (snd (idem.run [(0, ''call''), (59, ''call''), (60, ''call'')] c)) \<and> 70 < t + 60))"
  by (rule exI [of _ "\<lparr>idem_ttl = 60, idem_max = 8, idem_entries = [], idem_index = []\<rparr>"], rule conjI)
    (simp add: idem_new_def, rule idempotent_once_per_ttl [of 60 8], simp_all add: idem_new_def)

datatype 'k idem_op = ISeen int 'k | IMark int 'k | ICheck int 'k | ISize int | IClear

fun idem_apply :: "'k idem_op \<Rightarrow> 'k idempotency_cache \<Rightarrow> 'k idempotency_cache" where
  "idem_apply (ISeen t k) c = snd (idem_seen t k c)"
| "idem_apply (IMark t k) c = idem_mark_seen t k c"
| "idem_apply (ICheck t k) c = snd (idem_check_and_mark t k c)"
| "idem_apply (ISize t) c = snd (idem_size t c)"
| "idem_apply IClear c = idem_clear c"

lemma idem_apply_inv:
  "idem_inv c \<Longrightarrow> idem_inv (idem_apply op c) \<and> idem_max (idem_apply op c) = idem_max c"
  by (cases op) (simp_all add: idem_seen_answer idem_evict_props idem_inv_mark idem_inv_check idem_check_params
      idem_size_def Let_def, simp add: idem_clear_def idem_inv_def)

lemma idem_fold_inv:
  "idem_inv c \<Longrightarrow> idem_inv (fold idem_apply ops c) \<and> idem_max (fold idem_apply ops c) = idem_max c"
  by (induction ops arbitrary: c) (simp_all add: idem_apply_inv)

text \<open>
  The cap is hard: whatever sequence of marks, checks, reads and clears runs, the cache never holds
  more keys than its maximum.
\<close>

theorem idempotency_cap:
  assumes "idem_new ttl cap = Inr c"
  shows "fst (idem_size now (fold idem_apply ops c)) \<le> cap"
proof -
  from assms have c: "idem_inv c" "idem_max c = cap" by (auto simp: idem_new_def idem_inv_def split: if_splits)
  with idem_fold_inv [OF c(1), of ops] have i: "idem_inv (fold idem_apply ops c)" "idem_max (fold idem_apply ops c) = cap"
    by simp_all
  then show ?thesis
    using idem_evict_props(4) [OF i(1), of now] by (simp add: idem_size_def Let_def idem_inv_def)
qed

theorem idempotency_cap_witness:
  "fst (idem_size 9 (fold idem_apply [IMark 0 ''a'', IMark 1 ''b'', IMark 2 ''c'']
      \<lparr>idem_ttl = 60, idem_max = 2, idem_entries = [], idem_index = []\<rparr>)) \<le> 2"
  by (rule idempotency_cap [of 60]) (simp add: idem_new_def)

text \<open>
  Which key the cap drops.  A full cache that marks a new key forgets the key of the leftmost deque
  entry, even when that key was refreshed since: the refreshed row goes with its outdated entry.
\<close>

theorem cap_drops_refreshed_key:
  assumes "idem_entries c = (k, e) # es" "now < e" "length (idem_index c) = idem_max c"
    "map_of (idem_index c) j = None" "j \<noteq> k" "map_of (idem_index c) k = Some e'"
  shows "map_of (idem_index (idem_mark_seen now j c)) k = None"
proof -
  have ev: "idem_evict now c = c" using assms(1,2) by (simp add: idem_evict_def)
  have grow: "length (AList.update j x m) = Suc (length m)" if "map_of m j = None" for x :: int and m using that
    by (induction m) (auto split: if_splits)
  have len: "length (AList.update j x (idem_index c)) = Suc (idem_max c)" for x
    using grow [OF assms(4)] assms(3) by simp
  have mono: "map_of (snd (idem_cap_loop cap es m)) k = None" if "map_of m k = None" for cap es m using that
    by (induction cap es m rule: idem_cap_loop.induct) auto
  show ?thesis
    using mono [of "AList.delete k (AList.update j (now + idem_ttl c) (idem_index c))"]
    by (simp add: idem_mark_seen_def Let_def ev assms idem_enforce_cap_def len split: prod.split)
      (metis map_of_alist_delete fun_upd_same snd_conv)
qed

theorem cap_drops_refreshed_key_witness:
  "let full = idem_mark_seen 2 ''a'' (idem_mark_seen 1 ''b'' (idem_mark_seen 0 ''a''
        \<lparr>idem_ttl = 60, idem_max = 2, idem_entries = [], idem_index = []\<rparr>));
       next_state = idem_mark_seen 3 ''c'' full
   in idem_known full ''a'' 61 \<and> map_of (idem_index next_state) ''a'' = None \<and> idem_known next_state ''b'' 60"
  using cap_drops_refreshed_key [of "idem_mark_seen 2 ''a'' (idem_mark_seen 1 ''b'' (idem_mark_seen 0 ''a''
        \<lparr>idem_ttl = 60, idem_max = 2, idem_entries = [], idem_index = []\<rparr>))" "''a''" 60 "[(''b'', 61), (''a'', 62)]" 3 "''c''" 62]
  by (simp add: idem_mark_seen_def idem_evict_def idem_enforce_cap_def idem_known_def Let_def)

end
