(* ===== verification/Inbound.thy ===== *)
theory Inbound
  imports Space_Scope Dedup Wait_Buffers
begin

text \<open>
  The inbound validation pipeline of the federation layer (\<open>federation/inbound_validator.py\<close>), the
  suite-aware signature check it calls (\<open>federation/encoder.py\<close>, \<open>federation/crypto_suite.py\<close>), and the
  composition and dispatch of the pipelines in \<open>federation/federation_service.py\<close>.

  A step maps the environment of the call, the mutable state of the service and the context to the new
  state and either an exception or the new context.  The environment holds what the steps call: the JSON
  and ISO parsers, the cryptographic primitives, the repositories and the clock readings of this call.
\<close>

section \<open>Environment, state, context\<close>

text \<open>
  \<open>cl_dumps\<close> and \<open>ie_dumps_len\<close> are \<open>orjson.dumps\<close> and the length of what it returns; no value where it raises
  \<open>JSONEncodeError\<close>, a \<open>TypeError\<close>.
\<close>

record crypto_lib =
  cl_b64 :: "json \<Rightarrow> string option"
  cl_ed :: "string \<Rightarrow> string \<Rightarrow> string \<Rightarrow> bool"
  cl_pq :: "string \<Rightarrow> string \<Rightarrow> string \<Rightarrow> bool"
  cl_fromhex :: "string \<Rightarrow> string option"
  cl_dumps :: "jobj \<Rightarrow> string option"
  cl_session_key :: "string \<Rightarrow> string option"
  cl_decrypt :: "string \<Rightarrow> string \<Rightarrow> string option"

record inbound_env =
  ie_lib :: py_lib
  ie_crypto :: crypto_lib
  ie_fromiso :: "string \<Rightarrow> py_datetime option"
  ie_dumps_len :: "json \<Rightarrow> nat option"
  ie_by_inbox :: "string \<Rightarrow> exn + remote_instance option"
  ie_by_id :: "string \<Rightarrow> exn + remote_instance option"
  ie_unpaired_recently :: "string \<Rightarrow> bool"
  ie_promote :: "remote_instance \<Rightarrow> exn + bool"
  ie_banned :: "string \<Rightarrow> string \<Rightarrow> exn + bool"
  ie_insert_replay :: "string \<Rightarrow> exn + unit"
  ie_remote_user :: "string \<Rightarrow> exn + bool"
  ie_has_user_repo :: bool
  ie_has_space_repo :: bool
  ie_has_seat_repo :: bool
  ie_repos :: space_repos
  ie_now_skew :: int
  ie_now_replay :: int
  ie_now_ms :: int
  ie_monotonic :: int
  ie_monotonic_store :: int

text \<open>
  \<open>ie_remote_user\<close> answers whether the user has a row with \<open>deprovisioned_at\<close> set.  The state records the
  observable effects: replay rows inserted, tombstone contacts, promoted pairings, refused archived
  writes reported to the listeners, and the events handed to the dispatch registry.
\<close>

record inbound_world =
  iw_replay :: replay_cache
  iw_idem :: "(string \<times> string \<times> string) idempotency_cache option"
  iw_pending :: "seat_buffer option"
  iw_replay_rows :: "string list"
  iw_expedited :: "string list"
  iw_confirmed :: "string list"
  iw_refused_writes :: "(federation_event \<times> string) list"
  iw_dispatched :: "federation_event list"
  iw_next_oid :: nat

record inbound_context =
  ic_raw_body :: string
  ic_inbox_id :: string
  ic_instance_id :: string
  ic_envelope :: jobj
  ic_instance :: "remote_instance option"
  ic_event :: "federation_event option"
  ic_early_response :: "jobj option"
  ic_drop_reason :: "string option"
  ic_transport :: string

definition new_context :: "string \<Rightarrow> string \<Rightarrow> string \<Rightarrow> string \<Rightarrow> inbound_context" where
  "new_context raw_body inbox_id instance_id transport =
     \<lparr>ic_raw_body = raw_body, ic_inbox_id = inbox_id, ic_instance_id = instance_id, ic_envelope = [],
      ic_instance = None, ic_event = None, ic_early_response = None, ic_drop_reason = None, ic_transport = transport\<rparr>"

type_synonym inbound_step =
  "inbound_env \<Rightarrow> inbound_world \<Rightarrow> inbound_context \<Rightarrow> inbound_world \<times> (exn + inbound_context)"

definition timestamp_skew_seconds :: int where
  "timestamp_skew_seconds = 300"

definition relay_queue_ttl_seconds :: int where
  "relay_queue_ttl_seconds = 24 * 60 * 60"

definition relay_timestamp_skew_seconds :: int where
  "relay_timestamp_skew_seconds = relay_queue_ttl_seconds + timestamp_skew_seconds"

definition transport_gfs_relay :: string where
  "transport_gfs_relay = ''gfs_relay''"

definition accepted_response :: jobj where
  "accepted_response = [(''status'', JStr ''ok'')]"

definition drop_event :: "string \<Rightarrow> inbound_context \<Rightarrow> inbound_context" where
  "drop_event reason ctx = ctx\<lparr>ic_drop_reason := Some reason, ic_early_response := Some accepted_response\<rparr>"

text \<open>A required string field of a parsed envelope.\<close>

definition env_str :: "jobj \<Rightarrow> string \<Rightarrow> string" where
  "env_str d k = (case jget d k of JStr s \<Rightarrow> s | _ \<Rightarrow> [])"

section \<open>Signature verification\<close>

definition parse_suite :: "string \<Rightarrow> string list option" where
  "parse_suite suite = (if suite = [] then None else Some (split_char (CHR ''+'') suite))"

fun verify_algorithms ::
  "crypto_lib \<Rightarrow> string \<Rightarrow> jobj \<Rightarrow> string \<Rightarrow> string option \<Rightarrow> string list \<Rightarrow> bool" where
  "verify_algorithms cl envelope_bytes signatures ed_pk pq_pk [] = True"
| "verify_algorithms cl envelope_bytes signatures ed_pk pq_pk (algo # algorithms) =
     (case cl_b64 cl (jget signatures algo) of
        None \<Rightarrow> False
      | Some sig_bytes \<Rightarrow>
          if algo = ''ed25519'' then
            cl_ed cl ed_pk envelope_bytes sig_bytes
            \<and> verify_algorithms cl envelope_bytes signatures ed_pk pq_pk algorithms
          else if algo = ''mldsa65'' then
            (case pq_pk of
               None \<Rightarrow> False
             | Some pk \<Rightarrow> cl_pq cl pk envelope_bytes sig_bytes
                 \<and> verify_algorithms cl envelope_bytes signatures ed_pk pq_pk algorithms)
          else False)"

definition verify_signatures_all ::
  "crypto_lib \<Rightarrow> string \<Rightarrow> string \<Rightarrow> jobj \<Rightarrow> string \<Rightarrow> string option \<Rightarrow> bool" where
  "verify_signatures_all cl envelope_bytes suite signatures ed_pk pq_pk =
     (case parse_suite suite of
        None \<Rightarrow> False
      | Some algorithms \<Rightarrow>
          if set algorithms \<noteq> set (map fst signatures) then False
          else verify_algorithms cl envelope_bytes signatures ed_pk pq_pk algorithms)"

section \<open>The steps\<close>

definition required_fields :: "string list" where
  "required_fields = [''msg_id'', ''event_type'', ''from_instance'', ''to_instance'', ''timestamp'',
     ''encrypted_payload'', ''sig_suite'', ''signatures'']"

definition string_fields :: "string list" where
  "string_fields = [''msg_id'', ''event_type'', ''from_instance'', ''to_instance'', ''timestamp'',
     ''encrypted_payload'', ''sig_suite'']"

fun is_jobj :: "json \<Rightarrow> bool" where
  "is_jobj (JObj d) = True"
| "is_jobj _ = False"

text \<open>
  \<open>parse_json\<close>.  The body may decode to something that is no dict: membership then tests list elements
  or substrings, or raises \<open>TypeError\<close> on a scalar, and indexing by name raises \<open>TypeError\<close>.
\<close>

definition parse_json :: inbound_step where
  "parse_json env w ctx = (w,
     case pl_loads (ie_lib env) (ic_raw_body ctx) of
       None \<Rightarrow> Inl ValueError
     | Some (JObj d) \<Rightarrow>
         if \<exists>f \<in> set required_fields. map_of d f = None then Inl ValueError
         else if \<exists>f \<in> set string_fields. \<not> is_jstr (jget d f) then Inl WrongTypeError
         else if \<not> is_jobj (jget d ''signatures'') then Inl WrongTypeError
         else if federation_event_type (env_str d ''event_type'') = None then Inl ValueError
         else Inr (ctx\<lparr>ic_envelope := d\<rparr>)
     | Some (JList xs) \<Rightarrow>
         if \<exists>f \<in> set required_fields. JStr f \<notin> set xs then Inl ValueError else Inl PyTypeError
     | Some (JStr s) \<Rightarrow>
         if \<exists>f \<in> set required_fields. \<not> is_substring f s then Inl ValueError else Inl PyTypeError
     | Some _ \<Rightarrow> Inl PyTypeError)"

definition check_event_types :: "event_type list \<Rightarrow> inbound_step" where
  "check_event_types allowed env w ctx = (w,
     if env_str (ic_envelope ctx) ''event_type'' \<in> set allowed then Inr ctx else Inl ValueError)"

definition lookup_instance :: inbound_step where
  "lookup_instance env w ctx = (w,
     res_bind (ie_by_inbox env (ic_inbox_id ctx)) (\<lambda>inst.
       case inst of
         None \<Rightarrow> Inl ValueError
       | Some i \<Rightarrow> if ri_remote_identity_pk i = [] then Inl ValueError
                   else Inr (ctx\<lparr>ic_instance := Some i\<rparr>)))"

definition lookup_instance_by_id :: inbound_step where
  "lookup_instance_by_id env w ctx = (w,
     res_bind (ie_by_id env (ic_instance_id ctx)) (\<lambda>inst.
       case inst of
         None \<Rightarrow> if ie_unpaired_recently env (ic_instance_id ctx) then Inl UnpairedPeerRefusedError else Inl ValueError
       | Some i \<Rightarrow> if ri_remote_identity_pk i = [] then Inl ValueError
                   else Inr (ctx\<lparr>ic_instance := Some i\<rparr>)))"

definition check_timestamp :: inbound_step where
  "check_timestamp env w ctx = (w,
     case ie_fromiso env (env_str (ic_envelope ctx) ''timestamp'') of
       None \<Rightarrow> Inl ValueError
     | Some envelope_ts \<Rightarrow>
         let max_skew = (if ic_transport ctx = transport_gfs_relay then relay_timestamp_skew_seconds
                         else timestamp_skew_seconds)
         in res_bind (minus_aware (ie_now_skew env) envelope_ts) (\<lambda>skew.
              if \<bar>skew\<bar> > max_skew then Inl ValueError else Inr ctx))"

text \<open>\<open>getattr(ctx.instance, ..., default)\<close>: the steps below read the resolved instance.\<close>

definition check_peer_class :: inbound_step where
  "check_peer_class env w ctx = (w,
     case ic_instance ctx of
       None \<Rightarrow> Inr ctx
     | Some i \<Rightarrow>
         if ri_source i \<noteq> SPACE_SESSION then Inr ctx
         else if env_str (ic_envelope ctx) ''event_type'' \<in> set space_session_allowed then Inr ctx
         else Inl ValueError)"

definition check_relay_opt_in :: inbound_step where
  "check_relay_opt_in env w ctx = (w,
     if ic_transport ctx \<noteq> transport_gfs_relay then Inr ctx
     else case ic_instance ctx of
       None \<Rightarrow> Inl ValueError
     | Some i \<Rightarrow> if ri_source i = SPACE_SESSION then Inr ctx
                 else if ri_gfs_relay i then Inr ctx
                 else Inl ValueError)"

definition signed_fields :: "jobj \<Rightarrow> jobj" where
  "signed_fields d =
     [(''msg_id'', jget d ''msg_id''), (''event_type'', jget d ''event_type''),
      (''from_instance'', jget d ''from_instance''), (''to_instance'', jget d ''to_instance''),
      (''timestamp'', jget d ''timestamp''), (''encrypted_payload'', jget d ''encrypted_payload''),
      (''space_id'', jget d ''space_id''), (''proto_version'', jget_or d ''proto_version'' (JNum 1)),
      (''sig_suite'', jget d ''sig_suite'')]"

definition envelope_signatures :: "jobj \<Rightarrow> jobj" where
  "envelope_signatures d = (case jget d ''signatures'' of JObj s \<Rightarrow> s | _ \<Rightarrow> [])"

definition verify_signature :: inbound_step where
  "verify_signature env w ctx = (w,
     case ic_instance ctx of
       None \<Rightarrow> Inl PyOtherError
     | Some i \<Rightarrow>
         (let d = ic_envelope ctx; cl = ie_crypto env in
          if env_str d ''from_instance'' \<noteq> ri_id i then Inl ValueError
          else case cl_fromhex cl (ri_remote_identity_pk i) of
            None \<Rightarrow> Inl ValueError
          | Some remote_pk \<Rightarrow>
              (case cl_dumps cl (signed_fields d) of
                 None \<Rightarrow> Inl PyTypeError
               | Some envelope_bytes \<Rightarrow>
                   (case (case ri_remote_pq_identity_pk i of
                            None \<Rightarrow> Inr None
                          | Some h \<Rightarrow> if h = [] then Inr None
                                      else case cl_fromhex cl h of None \<Rightarrow> Inl ValueError | Some pk \<Rightarrow> Inr (Some pk)) of
                      Inl e \<Rightarrow> Inl e
                    | Inr pq_pk \<Rightarrow>
                        if verify_signatures_all cl envelope_bytes (env_str d ''sig_suite'')
                             (envelope_signatures d) remote_pk pq_pk
                        then Inr ctx else Inl ValueError))))"

definition check_unpairing :: inbound_step where
  "check_unpairing env w ctx =
     (case ic_instance ctx of
        None \<Rightarrow> (w, Inr ctx)
      | Some i \<Rightarrow>
          if ri_status i \<noteq> UNPAIRING then (w, Inr ctx)
          else if env_str (ic_envelope ctx) ''event_type'' = ''unpair'' then (w, Inr ctx)
          else (if ri_id i \<noteq> [] then w\<lparr>iw_expedited := iw_expedited w @ [ri_id i]\<rparr> else w,
                Inl UnpairedPeerRefusedError))"

definition check_replay :: inbound_step where
  "check_replay env w ctx =
     (case rc_check (ie_now_replay env) (env_str (ic_envelope ctx) ''msg_id'') (iw_replay w) of
        (was_seen, cache) \<Rightarrow> (w\<lparr>iw_replay := cache\<rparr>, if was_seen then Inl ValueError else Inr ctx))"

definition decrypt_and_parse :: inbound_step where
  "decrypt_and_parse env w ctx =
     (case ic_instance ctx of
        None \<Rightarrow> (w, Inl ValueError)
      | Some i \<Rightarrow>
          (let d = ic_envelope ctx; cl = ie_crypto env in
           case cl_session_key cl (ri_key_remote_to_self i) of
             None \<Rightarrow> (w, Inl ValueError)
           | Some key \<Rightarrow>
               (case cl_decrypt cl (env_str d ''encrypted_payload'') key of
                  None \<Rightarrow> (w, Inl ValueError)
                | Some plain \<Rightarrow>
                    (case pl_loads (ie_lib env) plain of
                       None \<Rightarrow> (w, Inl ValueError)
                     | Some inner \<Rightarrow>
                         (w\<lparr>iw_next_oid := Suc (iw_next_oid w)\<rparr>,
                          Inr (ctx\<lparr>ic_event := Some
                            \<lparr>fe_msg_id = env_str d ''msg_id'', fe_event_type = env_str d ''event_type'',
                             fe_from_instance = env_str d ''from_instance'', fe_to_instance = env_str d ''to_instance'',
                             fe_timestamp = env_str d ''timestamp'', fe_payload = inner,
                             fe_space_id = jget d ''space_id'', fe_epoch = jget d ''epoch'',
                             fe_oid = iw_next_oid w\<rparr>\<rparr>))))))"

text \<open>\<open>_on_relay_approval_contact\<close>; an error in it is logged by the step and the envelope proceeds.\<close>

definition relay_approval_contact :: "inbound_env \<Rightarrow> inbound_world \<Rightarrow> string \<Rightarrow> inbound_world" where
  "relay_approval_contact env w instance_id =
     (case ie_by_id env instance_id of
        Inr (Some inst) \<Rightarrow>
          if ri_status inst = UNPAIRING \<or> pending_kind inst \<noteq> Some KIND_APPROVAL then w
          else (case ie_promote env (inst\<lparr>ri_status := CONFIRMED\<rparr>) of
                  Inr True \<Rightarrow> w\<lparr>iw_confirmed := iw_confirmed w @ [instance_id]\<rparr>
                | _ \<Rightarrow> w)
      | _ \<Rightarrow> w)"

definition confirm_relay_approval :: inbound_step where
  "confirm_relay_approval env w ctx =
     (case ic_instance ctx of
        None \<Rightarrow> (w, Inr ctx)
      | Some i \<Rightarrow>
          if ri_status i \<noteq> PENDING_SENT \<or> ri_remote_identity_pk i = [] then (w, Inr ctx)
          else (relay_approval_contact env w (ri_id i), Inr ctx))"

definition idempotency_check :: inbound_step where
  "idempotency_check env w ctx =
     (case (iw_idem w, ic_event ctx) of
        (Some cache, Some event) \<Rightarrow>
          (case (case fe_payload event of JObj p \<Rightarrow> jget p ''idempotency_key'' | _ \<Rightarrow> JNull) of
             JStr ik \<Rightarrow>
               if ik = [] then (w, Inr ctx)
               else (case idem_check_and_mark (ie_monotonic env) (fe_event_type event, fe_from_instance event, ik) cache of
                       (fresh, cache') \<Rightarrow>
                         (w\<lparr>iw_idem := Some cache'\<rparr>, Inr (if fresh then ctx else drop_event ''deduped'' ctx)))
           | _ \<Rightarrow> (w, Inr ctx))
      | _ \<Rightarrow> (w, Inr ctx))"

section \<open>The gates on a decrypted event\<close>

fun first_banned :: "(string \<Rightarrow> string \<Rightarrow> exn + bool) \<Rightarrow> string \<Rightarrow> string list \<Rightarrow> exn + bool" where
  "first_banned banned from_instance [] = Inr False"
| "first_banned banned from_instance (space_id # spaces) =
     res_bind (banned space_id from_instance) (\<lambda>b. if b then Inr True else first_banned banned from_instance spaces)"

definition event_spaces :: "(json \<Rightarrow> string) \<Rightarrow> inbound_context \<Rightarrow> string list" where
  "event_spaces py_str ctx =
     (let routing = jget (ic_envelope ctx) ''space_id'';
          spaces = (if truthy routing then [json_str py_str routing] else [])
      in case map_option fe_payload (ic_event ctx) of
           Some (JObj p) \<Rightarrow>
             if truthy (jget p ''space_id'') \<and> json_str py_str (jget p ''space_id'') \<notin> set spaces
             then spaces @ [json_str py_str (jget p ''space_id'')] else spaces
         | _ \<Rightarrow> spaces)"

definition ban_check :: inbound_step where
  "ban_check env w ctx = (w,
     res_bind (first_banned (ie_banned env) (env_str (ic_envelope ctx) ''from_instance'')
                 (event_spaces (pl_str (ie_lib env)) ctx))
       (\<lambda>b. Inr (if b then drop_event ''banned-from-space'' ctx else ctx)))"

definition persist_replay :: inbound_step where
  "persist_replay env w ctx =
     (let msg_id = env_str (ic_envelope ctx) ''msg_id'' in
      case ie_insert_replay env msg_id of
        Inl e \<Rightarrow> (w, Inl e)
      | Inr _ \<Rightarrow> (w\<lparr>iw_replay_rows := iw_replay_rows w @ [msg_id]\<rparr>, Inr ctx))"

definition author_field_for_inbound :: "(event_type \<times> string) list" where
  "author_field_for_inbound =
     [(''user_status_updated'', ''user_id''), (''user_online'', ''user_id''), (''user_idle'', ''user_id''),
      (''user_offline'', ''user_id''), (''dm_message'', ''sender_user_id''),
      (''dm_message_deleted'', ''sender_user_id''), (''dm_message_reaction'', ''reactor_user_id''),
      (''dm_media_blob'', ''sender_user_id''), (''dm_user_typing'', ''user_id''),
      (''highlight_created'', ''author_user_id''), (''highlight_frame_appended'', ''author_user_id''),
      (''highlight_deleted'', ''author_user_id''), (''highlight_frame_deleted'', ''author_user_id''),
      (''highlight_frame_viewed'', ''viewer_user_id''), (''highlight_frame_reacted'', ''reactor_user_id''),
      (''highlight_frame_reaction_removed'', ''reactor_user_id''), (''moment_created'', ''author_user_id''),
      (''moment_deleted'', ''author_user_id''), (''moment_reacted'', ''reactor_user_id''),
      (''moment_reaction_removed'', ''reactor_user_id'')]"

text \<open>The author the deprovisioned-author step looks up: the empty string stands for no lookup.\<close>

definition inbound_author :: "(json \<Rightarrow> string) \<Rightarrow> federation_event \<Rightarrow> string" where
  "inbound_author py_str event =
     (case (map_of author_field_for_inbound (fe_event_type event), fe_payload event) of
        (Some field, JObj p) \<Rightarrow> str_or_empty py_str (jget p field)
      | _ \<Rightarrow> [])"

definition check_deprovisioned_author :: inbound_step where
  "check_deprovisioned_author env w ctx = (w, Inr (
     case ic_event ctx of
       None \<Rightarrow> ctx
     | Some event \<Rightarrow>
         (let author = inbound_author (pl_str (ie_lib env)) event in
          if author = [] then ctx
          else case ie_remote_user env author of
            Inl _ \<Rightarrow> ctx
          | Inr deprovisioned \<Rightarrow> if deprovisioned then drop_event ''deprovisioned-author'' ctx else ctx)))"

text \<open>The space the two space gates judge: the routing field first, the payload copy otherwise.\<close>

definition payload_obj :: "federation_event \<Rightarrow> jobj" where
  "payload_obj event = (case fe_payload event of JObj p \<Rightarrow> p | _ \<Rightarrow> [])"

definition gated_space :: "(json \<Rightarrow> string) \<Rightarrow> federation_event \<Rightarrow> string" where
  "gated_space py_str event =
     str_or_empty py_str
       (if truthy (fe_space_id event) then fe_space_id event
        else if truthy (jget (payload_obj event) ''space_id'') then jget (payload_obj event) ''space_id''
        else JStr [])"

definition check_space_archived :: inbound_step where
  "check_space_archived env w ctx =
     (case ic_event ctx of
        None \<Rightarrow> (w, Inr ctx)
      | Some event \<Rightarrow>
          if fe_event_type event \<notin> set space_write_types then (w, Inr ctx)
          else if fe_event_type event \<in> set archived_allowed_removals then (w, Inr ctx)
          else let space_id = gated_space (pl_str (ie_lib env)) event in
            if space_id = [] then (w, Inr ctx)
            else case sr_get (ie_repos env) space_id of
              Inl _ \<Rightarrow> (w, Inr ctx)
            | Inr space \<Rightarrow>
                (case archive_refusal space (fe_from_instance event) of
                   None \<Rightarrow> (w, Inr ctx)
                 | Some reason \<Rightarrow>
                     (w\<lparr>iw_refused_writes := iw_refused_writes w @ [(event, space_id)]\<rparr>,
                      Inr (drop_event ''archived-space'' ctx))))"

definition inbound_writer_roles :: "string list" where
  "inbound_writer_roles = map role_value (filter (\<lambda>r. r \<noteq> OWNER) writer_roles)"

definition sender_hosts_space :: "inbound_env \<Rightarrow> string \<Rightarrow> string \<Rightarrow> bool" where
  "sender_hosts_space env space_id sender =
     (case res_bind (sr_get (ie_repos env) space_id)
             (\<lambda>space. acts_as_host (ie_lib env) (ie_repos env) True (ie_now_ms env) space sender) of
        Inl _ \<Rightarrow> False
      | Inr b \<Rightarrow> b)"

definition subscriber_comment_allowed :: "inbound_env \<Rightarrow> string \<Rightarrow> remote_seat list \<Rightarrow> string \<Rightarrow> bool" where
  "subscriber_comment_allowed env space_id live_seats author_user_id =
     (if author_user_id = [] then False
      else if \<not> list_ex (\<lambda>s. seat_user_id s = author_user_id \<and> seat_role s = role_value SUBSCRIBER) live_seats then False
      else case sr_get (ie_repos env) space_id of
        Inl _ \<Rightarrow> False
      | Inr None \<Rightarrow> False
      | Inr (Some space) \<Rightarrow> sf_allow_subscriber_comment (sp_features space))"

definition check_space_writer :: inbound_step where
  "check_space_writer env w ctx =
     (case ic_event ctx of
        None \<Rightarrow> (w, Inr ctx)
      | Some event \<Rightarrow>
          if fe_event_type event \<notin> set space_write_types then (w, Inr ctx)
          else let space_id = gated_space (pl_str (ie_lib env)) event in
            if space_id = [] then (w, Inr (drop_event ''subscriber-write'' ctx))
            else case sr_list_for_instance (ie_repos env) space_id (fe_from_instance event) True of
              Inl _ \<Rightarrow> (w, Inr ctx)
            | Inr seats \<Rightarrow>
                (let live = filter (\<lambda>s. \<not> seat_tombstoned s) seats in
                 if list_ex (\<lambda>s. seat_role s \<in> set inbound_writer_roles) live then (w, Inr ctx)
                 else if sender_hosts_space env space_id (fe_from_instance event) then (w, Inr ctx)
                 else
                   (case (if seats = [] then iw_pending w else None) of
                      Some pending \<Rightarrow>
                        (case ps_hold (ie_dumps_len env) (ie_monotonic env) (ie_monotonic_store env) event space_id []
                                (fe_from_instance event) pending of
                           (pending', Inl e) \<Rightarrow> (w\<lparr>iw_pending := Some pending'\<rparr>, Inl e)
                         | (pending', Inr True) \<Rightarrow> (w\<lparr>iw_pending := Some pending'\<rparr>, Inr (drop_event ''awaiting-seat'' ctx))
                         | (pending', Inr False) \<Rightarrow>
                             (w\<lparr>iw_pending := Some pending'\<rparr>,
                              Inr (if fe_event_type event = ''space_comment_created''
                                      \<and> subscriber_comment_allowed env space_id live
                                          (str_or_empty (pl_str (ie_lib env)) (jget (payload_obj event) ''author''))
                                   then ctx else drop_event ''subscriber-write'' ctx)))
                    | None \<Rightarrow>
                        (w, Inr (if fe_event_type event = ''space_comment_created''
                                    \<and> subscriber_comment_allowed env space_id live
                                        (str_or_empty (pl_str (ie_lib env)) (jget (payload_obj event) ''author''))
                                 then ctx else drop_event ''subscriber-write'' ctx)))))"

section \<open>Composition\<close>

fun run_steps :: "inbound_step list \<Rightarrow> inbound_step" where
  "run_steps [] env w ctx = (w, Inr ctx)"
| "run_steps (step # steps) env w ctx =
     (case step env w ctx of
        (w', Inl e) \<Rightarrow> (w', Inl e)
      | (w', Inr ctx') \<Rightarrow>
          if ic_early_response ctx' \<noteq> None then (w', Inr ctx') else run_steps steps env w' ctx')"

text \<open>\<open>InboundPipeline.run\<close>: the answer next to the context.\<close>

definition pipeline_run ::
  "inbound_step list \<Rightarrow> inbound_env \<Rightarrow> inbound_world \<Rightarrow> inbound_context
     \<Rightarrow> inbound_world \<times> (exn + inbound_context \<times> jobj)" where
  "pipeline_run steps env w ctx =
     (case run_steps steps env w ctx of
        (w', Inl e) \<Rightarrow> (w', Inl e)
      | (w', Inr ctx') \<Rightarrow>
          (w', Inr (ctx', case ic_early_response ctx' of Some r \<Rightarrow> r | None \<Rightarrow> [(''status'', JStr ''ok'')])))"

text \<open>\<open>run_post_decrypt_gates\<close>: only a \<open>ValueError\<close> is caught.\<close>

fun run_post_decrypt_gates ::
  "inbound_step list \<Rightarrow> inbound_env \<Rightarrow> inbound_world \<Rightarrow> inbound_context \<Rightarrow> inbound_world \<times> (exn + bool)" where
  "run_post_decrypt_gates [] env w ctx = (w, Inr True)"
| "run_post_decrypt_gates (step # steps) env w ctx =
     (case step env w ctx of
        (w', Inl e) \<Rightarrow> (w', if is_value_error e then Inr False else Inl e)
      | (w', Inr ctx') \<Rightarrow>
          if ic_early_response ctx' \<noteq> None then (w', Inr False) else run_post_decrypt_gates steps env w' ctx')"

definition post_decrypt_gate_steps :: "inbound_env \<Rightarrow> bool \<Rightarrow> inbound_step list" where
  "post_decrypt_gate_steps env include_ban_check =
     (if include_ban_check then [ban_check] else [])
     @ (if ie_has_user_repo env then [check_deprovisioned_author] else [])
     @ (if ie_has_space_repo env then [check_space_archived] else [])
     @ (if ie_has_space_repo env \<and> ie_has_seat_repo env then [check_space_writer] else [])"

definition common_pipeline_steps :: "inbound_env \<Rightarrow> inbound_step \<Rightarrow> inbound_step list" where
  "common_pipeline_steps env lookup_step =
     [parse_json, lookup_step, check_peer_class, check_relay_opt_in, check_timestamp, verify_signature,
      check_unpairing, check_replay, decrypt_and_parse, confirm_relay_approval, idempotency_check, ban_check,
      persist_replay]
     @ post_decrypt_gate_steps env False"

definition inbound_pipeline :: "inbound_env \<Rightarrow> inbound_step list" where
  "inbound_pipeline env = common_pipeline_steps env lookup_instance"

definition media_https_pipeline :: "inbound_env \<Rightarrow> inbound_step list" where
  "media_https_pipeline env =
     (let steps = common_pipeline_steps env lookup_instance
      in take 1 steps @ [check_event_types media_https_event_types] @ drop 1 steps)"

definition rtc_inbound_pipeline :: "inbound_env \<Rightarrow> inbound_step list" where
  "rtc_inbound_pipeline env = common_pipeline_steps env lookup_instance_by_id"

definition dispatch_event :: "federation_event \<Rightarrow> inbound_world \<Rightarrow> inbound_world" where
  "dispatch_event event w = w\<lparr>iw_dispatched := iw_dispatched w @ [event]\<rparr>"

definition run_and_dispatch ::
  "inbound_step list \<Rightarrow> inbound_env \<Rightarrow> inbound_world \<Rightarrow> inbound_context \<Rightarrow> inbound_world \<times> (exn + jobj)" where
  "run_and_dispatch steps env w ctx =
     (case pipeline_run steps env w ctx of
        (w', Inl e) \<Rightarrow> (w', Inl e)
      | (w', Inr (ctx', result)) \<Rightarrow>
          if ic_early_response ctx' \<noteq> None then (w', Inr result)
          else (case ic_event ctx' of
                  None \<Rightarrow> (w', Inr result)
                | Some event \<Rightarrow> (dispatch_event event w', Inr result)))"

definition handle_inbound_envelope ::
  "inbound_env \<Rightarrow> inbound_world \<Rightarrow> string \<Rightarrow> string \<Rightarrow> inbound_world \<times> (exn + jobj)" where
  "handle_inbound_envelope env w inbox_id raw_body =
     run_and_dispatch (inbound_pipeline env) env w (new_context raw_body inbox_id [] [])"

definition handle_inbound_rtc ::
  "inbound_env \<Rightarrow> inbound_world \<Rightarrow> string \<Rightarrow> string \<Rightarrow> string \<Rightarrow> inbound_world \<times> (exn + jobj)" where
  "handle_inbound_rtc env w instance_id raw_body transport =
     run_and_dispatch (rtc_inbound_pipeline env) env w (new_context raw_body [] instance_id transport)"

text \<open>\<open>replay_held\<close>: a held event passes the same gates again, the ban check included, and is dispatched.\<close>

definition replay_held :: "inbound_env \<Rightarrow> inbound_world \<Rightarrow> federation_event \<Rightarrow> inbound_world \<times> (exn + unit)" where
  "replay_held env w held =
     (let space = (if truthy (fe_space_id held) then fe_space_id held
                   else if truthy (jget (payload_obj held) ''space_id'') then jget (payload_obj held) ''space_id''
                   else JNull);
          ctx = (new_context [] [] [] [])\<lparr>ic_envelope := [(''space_id'', space), (''from_instance'', JStr (fe_from_instance held))],
                  ic_event := Some held\<rparr>
      in case run_post_decrypt_gates (post_decrypt_gate_steps env True) env w ctx of
           (w', Inl e) \<Rightarrow> (w', Inl e)
         | (w', Inr False) \<Rightarrow> (w', Inr ())
         | (w', Inr True) \<Rightarrow> (dispatch_event held w', Inr ()))"

fun replay_all_held :: "inbound_env \<Rightarrow> federation_event list \<Rightarrow> inbound_world \<Rightarrow> inbound_world \<times> (exn + unit)" where
  "replay_all_held env [] w = (w, Inr ())"
| "replay_all_held env (held # rest) w =
     (case replay_held env w held of
        (w', Inl e) \<Rightarrow> (w', Inl e)
      | (w', Inr _) \<Rightarrow> replay_all_held env rest w')"

text \<open>\<open>_on_remote_seat_live\<close>.\<close>

definition on_remote_seat_live ::
  "inbound_env \<Rightarrow> inbound_world \<Rightarrow> string \<Rightarrow> string \<Rightarrow> string \<Rightarrow> inbound_world \<times> (exn + unit)" where
  "on_remote_seat_live env w space_id instance_id user_id =
     (case iw_pending w of
        None \<Rightarrow> (w, Inr ())
      | Some buffer \<Rightarrow>
          (case ps_release (ie_monotonic env) space_id instance_id user_id buffer of
             (buffer', held) \<Rightarrow> replay_all_held env held (w\<lparr>iw_pending := Some buffer'\<rparr>)))"

end
