(* ===== verification/Inbound_Gates.thy ===== *)
theory Inbound_Gates
  imports Inbound
begin

text \<open>
  What the pipeline guarantees.  Every step is interpreted as a \<open>quiet_step\<close> (it never dispatches and its
  only answer is the uniform one) and every check as a \<open>gate\<close> (a context that passes it leaves unchanged
  and satisfies the gate's condition); the properties follow by running through the composed step list.
\<close>

section \<open>The contract of a step\<close>

locale quiet_step =
  fixes step :: inbound_step
  assumes quiet: "step env w ctx = (w', r) \<Longrightarrow> iw_dispatched w' = iw_dispatched w"
    and answer: "step env w ctx = (w', Inr ctx') \<Longrightarrow> ic_early_response ctx' \<in> {ic_early_response ctx, Some accepted_response}"

locale gate = quiet_step +
  fixes ok :: "inbound_env \<Rightarrow> inbound_context \<Rightarrow> bool"
  assumes pass: "step env w ctx = (w', Inr ctx') \<Longrightarrow> ic_early_response ctx' = None \<Longrightarrow> ctx' = ctx \<and> ok env ctx"

locale replay_neutral =
  fixes step :: inbound_step
  assumes keeps_replay: "step env w ctx = (w', r) \<Longrightarrow> iw_replay w' = iw_replay w"

locale neutral_gate = gate + replay_neutral

context gate
begin

lemma through:
  assumes "run_steps (step # steps) env w ctx = (w'', Inr ctx'')" "ic_early_response ctx'' = None"
  shows "\<exists>w'. step env w ctx = (w', Inr ctx) \<and> ok env ctx \<and> run_steps steps env w' ctx = (w'', Inr ctx'')"
proof -
  obtain w' r where s: "step env w ctx = (w', r)" by fastforce
  with assms obtain ctx' where r: "r = Inr ctx'" by (cases r) auto
  show ?thesis
  proof (cases "ic_early_response ctx' = None")
    case True
    with pass s r have "ctx' = ctx" "ok env ctx" by auto
    with s r True assms(1) show ?thesis by simp
  next
    case False
    with s r assms show ?thesis by auto
  qed
qed

lemma through_gates:
  assumes "run_post_decrypt_gates (step # steps) env w ctx = (w'', Inr True)"
  shows "\<exists>w'. ok env ctx \<and> run_post_decrypt_gates steps env w' ctx = (w'', Inr True)"
proof -
  obtain w' r where s: "step env w ctx = (w', r)" by fastforce
  with assms obtain ctx' where r: "r = Inr ctx'" by (cases r) (auto split: if_splits)
  with s assms have "ic_early_response ctx' = None" by (auto split: if_splits)
  with pass s r have "ctx' = ctx" "ok env ctx" by auto
  with s r assms show ?thesis by (auto split: if_splits)
qed

end

context neutral_gate
begin

lemma through_neutral:
  assumes "run_steps (step # steps) env w ctx = (w'', Inr ctx'')" "ic_early_response ctx'' = None"
  shows "\<exists>w'. ok env ctx \<and> iw_replay w' = iw_replay w \<and> run_steps steps env w' ctx = (w'', Inr ctx'')"
  using through [OF assms] keeps_replay by blast

end

section \<open>The conditions the gates enforce\<close>

definition known_event_type :: "event_type list \<Rightarrow> inbound_context \<Rightarrow> bool" where
  "known_event_type allowed ctx \<longleftrightarrow> env_str (ic_envelope ctx) ''event_type'' \<in> set allowed"

definition timely :: "inbound_env \<Rightarrow> inbound_context \<Rightarrow> bool" where
  "timely env ctx \<longleftrightarrow> (\<exists>t. ie_fromiso env (env_str (ic_envelope ctx) ''timestamp'') = Some (Aware t)
     \<and> \<bar>ie_now_skew env - t\<bar> \<le> (if ic_transport ctx = transport_gfs_relay then relay_timestamp_skew_seconds
                                 else timestamp_skew_seconds))"

definition class_allows :: "inbound_context \<Rightarrow> bool" where
  "class_allows ctx \<longleftrightarrow> (\<forall>i. ic_instance ctx = Some i \<and> ri_source i = SPACE_SESSION
     \<longrightarrow> env_str (ic_envelope ctx) ''event_type'' \<in> set space_session_allowed)"

definition relay_allows :: "inbound_context \<Rightarrow> bool" where
  "relay_allows ctx \<longleftrightarrow> (ic_transport ctx = transport_gfs_relay
     \<longrightarrow> (\<exists>i. ic_instance ctx = Some i \<and> (ri_source i = SPACE_SESSION \<or> ri_gfs_relay i)))"

text \<open>The envelope names the household whose row was found, and verifies under that household's keys.\<close>

definition authentic :: "inbound_env \<Rightarrow> remote_instance \<Rightarrow> jobj \<Rightarrow> bool" where
  "authentic env i d \<longleftrightarrow> env_str d ''from_instance'' = ri_id i \<and>
     (\<exists>pk pq bytes. cl_fromhex (ie_crypto env) (ri_remote_identity_pk i) = Some pk \<and>
        cl_dumps (ie_crypto env) (signed_fields d) = Some bytes \<and>
        (pq = None \<or> (\<exists>h. ri_remote_pq_identity_pk i = Some h \<and> cl_fromhex (ie_crypto env) h = pq)) \<and>
        verify_signatures_all (ie_crypto env) bytes (env_str d ''sig_suite'')
          (envelope_signatures d) pk pq)"

definition not_unpaired :: "inbound_context \<Rightarrow> bool" where
  "not_unpaired ctx \<longleftrightarrow> (\<forall>i. ic_instance ctx = Some i \<and> ri_status i = UNPAIRING
     \<longrightarrow> env_str (ic_envelope ctx) ''event_type'' = ''unpair'')"

definition not_banned :: "inbound_env \<Rightarrow> inbound_context \<Rightarrow> bool" where
  "not_banned env ctx \<longleftrightarrow> (\<forall>sp \<in> set (event_spaces (pl_str (ie_lib env)) ctx).
     ie_banned env sp (env_str (ic_envelope ctx) ''from_instance'') = Inr False)"

definition author_active :: "inbound_env \<Rightarrow> federation_event \<Rightarrow> bool" where
  "author_active env ev \<longleftrightarrow> (let author = inbound_author (pl_str (ie_lib env)) ev
     in author = [] \<or> ie_remote_user env author \<noteq> Inr True)"

definition archive_allows :: "inbound_env \<Rightarrow> federation_event \<Rightarrow> bool" where
  "archive_allows env ev \<longleftrightarrow>
     (fe_event_type ev \<in> set space_write_types \<longrightarrow> fe_event_type ev \<notin> set archived_allowed_removals
      \<longrightarrow> (let sp = gated_space (pl_str (ie_lib env)) ev in
           sp = [] \<or> (\<forall>row. sr_get (ie_repos env) sp = Inr row \<longrightarrow> archive_refusal row (fe_from_instance ev) = None)))"

text \<open>Who may write: a live writer seat, the host, or the one comment opt-in; an unreadable seat table passes.\<close>

definition may_write :: "inbound_env \<Rightarrow> federation_event \<Rightarrow> bool" where
  "may_write env ev \<longleftrightarrow>
     (fe_event_type ev \<in> set space_write_types \<longrightarrow>
       (let sp = gated_space (pl_str (ie_lib env)) ev in
        sp \<noteq> [] \<and>
        (\<forall>seats. sr_seats (ie_repos env) sp (fe_from_instance ev) = Inr seats \<longrightarrow>
           (\<exists>s \<in> set seats. \<not> seat_tombstoned s \<and> seat_role s \<in> role_value ` {ADMIN, MODERATOR, MEMBER})
           \<or> sender_hosts_space env sp (fe_from_instance ev)
           \<or> (fe_event_type ev = ''space_comment_created''
              \<and> subscriber_comment_allowed env sp (filter (\<lambda>s. \<not> seat_tombstoned s) seats)
                  (str_or_empty (pl_str (ie_lib env)) (jget (payload_obj ev) ''author''))))))"

section \<open>Interpretations\<close>

lemma drop_event_early [simp]: "ic_early_response (drop_event reason ctx) = Some accepted_response"
  by (simp add: drop_event_def)

lemma inbound_writer_roles_set: "set inbound_writer_roles = role_value ` {ADMIN, MODERATOR, MEMBER}"
  by (auto simp: inbound_writer_roles_def writer_roles_def)

interpretation parse_step: quiet_step parse_json
  by unfold_locales (auto simp: parse_json_def split: option.splits json.splits if_splits)

interpretation lookup_step: quiet_step lookup_instance
  by unfold_locales (auto simp: lookup_instance_def res_bind_def split: sum.splits option.splits if_splits)

interpretation lookup_id_step: quiet_step lookup_instance_by_id
  by unfold_locales (auto simp: lookup_instance_by_id_def res_bind_def split: sum.splits option.splits if_splits)

interpretation decrypt_step: quiet_step decrypt_and_parse
  by unfold_locales (auto simp: decrypt_and_parse_def Let_def split: option.splits)

interpretation types_gate: neutral_gate "check_event_types allowed" "\<lambda>env. known_event_type allowed"
  by unfold_locales (auto simp: check_event_types_def known_event_type_def split: if_splits)

interpretation class_gate: neutral_gate check_peer_class "\<lambda>env. class_allows"
  by unfold_locales (auto simp: check_peer_class_def class_allows_def split: option.splits if_splits)

interpretation relay_gate: neutral_gate check_relay_opt_in "\<lambda>env. relay_allows"
  by unfold_locales (auto simp: check_relay_opt_in_def relay_allows_def split: option.splits if_splits)

interpretation time_gate: neutral_gate check_timestamp timely
proof unfold_locales
  fix env w ctx w' ctx'
  assume "check_timestamp env w ctx = (w', Inr ctx')"
  then show "ctx' = ctx \<and> timely env ctx"
    by (auto simp: check_timestamp_def timely_def res_bind_def Let_def split: option.splits sum.splits if_splits
        elim!: minus_aware.elims)
qed (auto simp: check_timestamp_def res_bind_def Let_def split: option.splits sum.splits if_splits)

interpretation signature_gate: neutral_gate verify_signature "\<lambda>env ctx. \<exists>i. ic_instance ctx = Some i \<and> authentic env i (ic_envelope ctx)"
  by unfold_locales (auto simp: verify_signature_def authentic_def Let_def split: option.splits sum.splits if_splits)

interpretation unpair_gate: neutral_gate check_unpairing "\<lambda>env. not_unpaired"
  by unfold_locales (auto simp: check_unpairing_def not_unpaired_def split: option.splits if_splits)

interpretation replay_gate: gate check_replay "\<lambda>env ctx. True"
  by unfold_locales (auto simp: check_replay_def split: prod.splits if_splits)

lemma relay_contact_quiet [simp]:
  "iw_dispatched (relay_approval_contact env w i) = iw_dispatched w"
  "iw_replay (relay_approval_contact env w i) = iw_replay w"
  by (auto simp: relay_approval_contact_def split: sum.splits option.splits bool.splits)

interpretation confirm_gate: neutral_gate confirm_relay_approval "\<lambda>env ctx. True"
  by unfold_locales (auto simp: confirm_relay_approval_def split: option.splits if_splits)

interpretation idempotency_gate: neutral_gate idempotency_check "\<lambda>env ctx. True"
  by unfold_locales (auto simp: idempotency_check_def split: option.splits if_splits json.splits prod.splits)

lemma first_banned_False: "first_banned banned iid spaces = Inr False \<Longrightarrow> sp \<in> set spaces \<Longrightarrow> banned sp iid = Inr False"
  by (induction spaces) (auto simp: res_bind_def split: sum.splits if_splits)

interpretation ban_gate: neutral_gate ban_check not_banned
proof unfold_locales
  fix env w ctx w' ctx'
  assume "ban_check env w ctx = (w', Inr ctx')" "ic_early_response ctx' = None"
  then show "ctx' = ctx \<and> not_banned env ctx"
    by (auto simp: ban_check_def not_banned_def res_bind_def split: sum.splits if_splits dest: first_banned_False)
qed (auto simp: ban_check_def res_bind_def split: sum.splits if_splits)

interpretation persist_gate: neutral_gate persist_replay "\<lambda>env ctx. True"
  by unfold_locales (auto simp: persist_replay_def Let_def split: sum.splits)

interpretation author_gate: neutral_gate check_deprovisioned_author "\<lambda>env ctx. \<forall>ev. ic_event ctx = Some ev \<longrightarrow> author_active env ev"
  by unfold_locales
    (auto simp: check_deprovisioned_author_def author_active_def Let_def split: option.splits sum.splits if_splits)

interpretation archive_gate: neutral_gate check_space_archived "\<lambda>env ctx. \<forall>ev. ic_event ctx = Some ev \<longrightarrow> archive_allows env ev"
  by unfold_locales
    (auto simp: check_space_archived_def archive_allows_def Let_def split: option.splits sum.splits if_splits)

text \<open>The writer step, as a decision and its effect on the seat-wait buffer.\<close>

lemma writer_pass:
  assumes "check_space_writer env w ctx = (w', Inr ctx')" "ic_early_response ctx' = None"
  shows "ctx' = ctx \<and> (\<forall>ev. ic_event ctx = Some ev \<longrightarrow> may_write env ev)"
proof (cases "ic_event ctx")
  case None
  with assms show ?thesis by (simp add: check_space_writer_def)
next
  case (Some ev)
  show ?thesis
  proof (cases "fe_event_type ev \<in> set space_write_types")
    case is_write: True
    let ?sp = "gated_space (pl_str (ie_lib env)) ev"
    have sp: "?sp \<noteq> []" using assms Some is_write by (auto simp: check_space_writer_def Let_def)
    show ?thesis
    proof (cases "sr_seats (ie_repos env) ?sp (fe_from_instance ev)")
      case (Inl e)
      with assms Some is_write sp show ?thesis
        by (auto simp: check_space_writer_def Let_def sr_list_for_instance_def may_write_def)
    next
      case (Inr seats)
      have "(ctx' = ctx) \<and>
        (list_ex (\<lambda>s. seat_role s \<in> set inbound_writer_roles) (filter (\<lambda>s. \<not> seat_tombstoned s) seats)
         \<or> sender_hosts_space env ?sp (fe_from_instance ev)
         \<or> fe_event_type ev = ''space_comment_created''
            \<and> subscriber_comment_allowed env ?sp (filter (\<lambda>s. \<not> seat_tombstoned s) seats)
                (str_or_empty (pl_str (ie_lib env)) (jget (payload_obj ev) ''author'')))"
        using assms Some is_write sp Inr
        by (simp add: check_space_writer_def Let_def sr_list_for_instance_def)
          (auto split: if_splits option.splits prod.splits sum.splits bool.splits)
      then show ?thesis
        using Some is_write sp Inr by (auto simp: may_write_def Let_def inbound_writer_roles_set list_ex_iff)
    qed
  next
    case False
    with assms Some show ?thesis by (simp add: check_space_writer_def may_write_def)
  qed
qed

lemma writer_effects:
  assumes "check_space_writer env w ctx = (w', r)"
  shows "iw_dispatched w' = iw_dispatched w" "iw_replay w' = iw_replay w"
    and "(\<exists>e. r = Inl e) \<or> (\<exists>ctx'. r = Inr ctx' \<and> ic_early_response ctx' \<in> {ic_early_response ctx, Some accepted_response})"
  using assms
  by (auto simp: check_space_writer_def Let_def split: option.splits if_splits sum.splits prod.splits bool.splits)

interpretation writer_gate: neutral_gate check_space_writer "\<lambda>env ctx. \<forall>ev. ic_event ctx = Some ev \<longrightarrow> may_write env ev"
  using writer_pass writer_effects by unfold_locales (blast, fastforce, blast, blast)

interpretation parse_replay: replay_neutral parse_json
  by unfold_locales (auto simp: parse_json_def)

interpretation lookup_replay: replay_neutral lookup_instance
  by unfold_locales (auto simp: lookup_instance_def)

interpretation lookup_id_replay: replay_neutral lookup_instance_by_id
  by unfold_locales (auto simp: lookup_instance_by_id_def)

interpretation decrypt_replay: replay_neutral decrypt_and_parse
  by unfold_locales (auto simp: decrypt_and_parse_def Let_def split: option.splits)

section \<open>Running the composed list\<close>

lemma run_steps_quiet:
  assumes "\<And>s. s \<in> set steps \<Longrightarrow> quiet_step s" "run_steps steps env w ctx = (w', r)"
  shows "iw_dispatched w' = iw_dispatched w"
    and "r = Inr ctx' \<Longrightarrow> ic_early_response ctx = None \<Longrightarrow> ic_early_response ctx' \<in> {None, Some accepted_response}"
proof -
  have "iw_dispatched w' = iw_dispatched w \<and>
    (r = Inr ctx' \<longrightarrow> ic_early_response ctx = None \<longrightarrow> ic_early_response ctx' \<in> {None, Some accepted_response})"
    using assms
  proof (induction steps arbitrary: w ctx)
    case (Cons s steps)
    obtain w1 r1 where s: "s env w ctx = (w1, r1)" by fastforce
    have q: "quiet_step s" using Cons.prems(1) by simp
    note d = quiet_step.quiet [OF q s]
    show ?case
    proof (cases r1)
      case (Inl e)
      with s d Cons.prems(2) show ?thesis by auto
    next
      case (Inr c1)
      with s have "ic_early_response c1 \<in> {ic_early_response ctx, Some accepted_response}"
        using quiet_step.answer [OF q] by blast
      with s d Inr Cons.prems Cons.IH [of w1 c1] show ?thesis by (auto split: if_splits)
    qed
  qed auto
  then show "iw_dispatched w' = iw_dispatched w"
    and "r = Inr ctx' \<Longrightarrow> ic_early_response ctx = None \<Longrightarrow> ic_early_response ctx' \<in> {None, Some accepted_response}" by blast+
qed

section \<open>Inversion of the steps that fill the context\<close>

lemma parse_pass:
  assumes "parse_json env w ctx = (w', Inr ctx')"
  shows "\<exists>d. w' = w \<and> ctx' = ctx\<lparr>ic_envelope := d\<rparr> \<and> pl_loads (ie_lib env) (ic_raw_body ctx) = Some (JObj d)
    \<and> federation_event_type (env_str d ''event_type'') \<noteq> None
    \<and> (\<forall>f \<in> set string_fields. jget d f = JStr (env_str d f))"
proof -
  have "is_jstr v \<Longrightarrow> \<exists>s. v = JStr s" for v by (cases v) auto
  then have "\<forall>f \<in> S. is_jstr (jget d f) \<Longrightarrow> \<forall>f \<in> S. jget d f = JStr (env_str d f)" for d S
    by (fastforce simp: env_str_def)
  with assms show ?thesis
    by (auto simp: parse_json_def split: option.splits json.splits if_splits)
qed

lemma replay_pass:
  assumes "check_replay env w ctx = (w', Inr ctx')"
  shows "ctx' = ctx \<and> rc_check (ie_now_replay env) (env_str (ic_envelope ctx) ''msg_id'') (iw_replay w) = (False, iw_replay w')"
  using assms by (auto simp: check_replay_def split: prod.splits if_splits)

lemma decrypt_pass:
  assumes "decrypt_and_parse env w ctx = (w', Inr ctx')"
  shows "\<exists>i key plain inner ev. ic_instance ctx = Some i
    \<and> cl_session_key (ie_crypto env) (ri_key_remote_to_self i) = Some key
    \<and> cl_decrypt (ie_crypto env) (env_str (ic_envelope ctx) ''encrypted_payload'') key = Some plain
    \<and> pl_loads (ie_lib env) plain = Some inner
    \<and> ctx' = ctx\<lparr>ic_event := Some ev\<rparr>
    \<and> ev = \<lparr>fe_msg_id = env_str (ic_envelope ctx) ''msg_id'', fe_event_type = env_str (ic_envelope ctx) ''event_type'',
        fe_from_instance = env_str (ic_envelope ctx) ''from_instance'', fe_to_instance = env_str (ic_envelope ctx) ''to_instance'',
        fe_timestamp = env_str (ic_envelope ctx) ''timestamp'', fe_payload = inner,
        fe_space_id = jget (ic_envelope ctx) ''space_id'', fe_epoch = jget (ic_envelope ctx) ''epoch'',
        fe_oid = iw_next_oid w\<rparr>"
  using assms by (auto simp: decrypt_and_parse_def Let_def split: option.splits)

lemma decrypt_fields:
  assumes "decrypt_and_parse env w ctx = (w', Inr ctx')"
  shows "\<exists>i key plain ev. ic_instance ctx = Some i
    \<and> cl_session_key (ie_crypto env) (ri_key_remote_to_self i) = Some key
    \<and> cl_decrypt (ie_crypto env) (env_str (ic_envelope ctx) ''encrypted_payload'') key = Some plain
    \<and> pl_loads (ie_lib env) plain = Some (fe_payload ev) \<and> ctx' = ctx\<lparr>ic_event := Some ev\<rparr>
    \<and> fe_msg_id ev = env_str (ic_envelope ctx) ''msg_id'' \<and> fe_event_type ev = env_str (ic_envelope ctx) ''event_type''
    \<and> fe_from_instance ev = env_str (ic_envelope ctx) ''from_instance''
    \<and> fe_space_id ev = jget (ic_envelope ctx) ''space_id'' \<and> fe_timestamp ev = env_str (ic_envelope ctx) ''timestamp''"
proof -
  from decrypt_pass [OF assms] obtain i key plain inner ev where
    e: "ic_instance ctx = Some i" "cl_session_key (ie_crypto env) (ri_key_remote_to_self i) = Some key"
      "cl_decrypt (ie_crypto env) (env_str (ic_envelope ctx) ''encrypted_payload'') key = Some plain"
      "pl_loads (ie_lib env) plain = Some inner" "ctx' = ctx\<lparr>ic_event := Some ev\<rparr>"
    and ev: "ev = \<lparr>fe_msg_id = env_str (ic_envelope ctx) ''msg_id'', fe_event_type = env_str (ic_envelope ctx) ''event_type'',
        fe_from_instance = env_str (ic_envelope ctx) ''from_instance'', fe_to_instance = env_str (ic_envelope ctx) ''to_instance'',
        fe_timestamp = env_str (ic_envelope ctx) ''timestamp'', fe_payload = inner,
        fe_space_id = jget (ic_envelope ctx) ''space_id'', fe_epoch = jget (ic_envelope ctx) ''epoch'',
        fe_oid = iw_next_oid w\<rparr>" by (elim exE conjE)
  from ev have "fe_msg_id ev = env_str (ic_envelope ctx) ''msg_id''" "fe_event_type ev = env_str (ic_envelope ctx) ''event_type''"
    "fe_from_instance ev = env_str (ic_envelope ctx) ''from_instance''" "fe_payload ev = inner"
    "fe_space_id ev = jget (ic_envelope ctx) ''space_id''" "fe_timestamp ev = env_str (ic_envelope ctx) ''timestamp''" by simp_all
  with e show ?thesis by blast
qed

lemma run_steps_step:
  assumes "run_steps (step # steps) env w ctx = (w'', Inr ctx'')" "ic_early_response ctx'' = None"
  shows "\<exists>w' ctx'. step env w ctx = (w', Inr ctx') \<and> run_steps steps env w' ctx' = (w'', Inr ctx'')"
  using assms by (auto split: prod.splits sum.splits if_splits)

text \<open>A lookup step resolves the instance of the context and changes nothing else.\<close>

definition lookup_law :: "inbound_env \<Rightarrow> inbound_step \<Rightarrow> (inbound_context \<Rightarrow> remote_instance \<Rightarrow> bool) \<Rightarrow> bool" where
  "lookup_law env lookup found \<longleftrightarrow> (\<forall>w ctx w' ctx'. lookup env w ctx = (w', Inr ctx') \<longrightarrow>
     w' = w \<and> (\<exists>i. ctx' = ctx\<lparr>ic_instance := Some i\<rparr> \<and> found ctx i \<and> ri_remote_identity_pk i \<noteq> []))"

lemma lookup_instance_law:
  "lookup_law env lookup_instance (\<lambda>ctx i. ie_by_inbox env (ic_inbox_id ctx) = Inr (Some i))"
  by (auto simp: lookup_law_def lookup_instance_def res_bind_def split: sum.splits option.splits if_splits)

lemma lookup_instance_by_id_law:
  "lookup_law env lookup_instance_by_id (\<lambda>ctx i. ie_by_id env (ic_instance_id ctx) = Inr (Some i))"
  by (auto simp: lookup_law_def lookup_instance_by_id_def res_bind_def split: sum.splits option.splits if_splits)

text \<open>Everything a dispatched event has been checked for, in one place.\<close>

definition validated ::
  "inbound_env \<Rightarrow> inbound_world \<Rightarrow> string \<Rightarrow> string \<Rightarrow> jobj \<Rightarrow> remote_instance \<Rightarrow> federation_event \<Rightarrow> bool" where
  "validated env w raw_body transport d i ev \<longleftrightarrow>
     pl_loads (ie_lib env) raw_body = Some (JObj d)
     \<and> fe_msg_id ev = env_str d ''msg_id'' \<and> fe_event_type ev = env_str d ''event_type''
     \<and> fe_event_type ev \<in> set federation_event_types
     \<and> fe_from_instance ev = ri_id i \<and> fe_space_id ev = jget d ''space_id''
     \<and> fe_timestamp ev = env_str d ''timestamp''
     \<and> ri_remote_identity_pk i \<noteq> [] \<and> authentic env i d
     \<and> (\<exists>key plain. cl_session_key (ie_crypto env) (ri_key_remote_to_self i) = Some key
          \<and> cl_decrypt (ie_crypto env) (env_str d ''encrypted_payload'') key = Some plain
          \<and> pl_loads (ie_lib env) plain = Some (fe_payload ev))
     \<and> (ri_source i = SPACE_SESSION \<longrightarrow> fe_event_type ev \<in> set space_session_allowed)
     \<and> (ri_status i = UNPAIRING \<longrightarrow> fe_event_type ev = ''unpair'')
     \<and> (transport = transport_gfs_relay \<longrightarrow> ri_source i = SPACE_SESSION \<or> ri_gfs_relay i)
     \<and> (\<exists>t. ie_fromiso env (env_str d ''timestamp'') = Some (Aware t)
          \<and> \<bar>ie_now_skew env - t\<bar> \<le> (if transport = transport_gfs_relay then relay_timestamp_skew_seconds
                                      else timestamp_skew_seconds))
     \<and> \<not> fst (rc_check (ie_now_replay env) (fe_msg_id ev) (iw_replay w))
     \<and> (\<forall>v \<in> {fe_space_id ev, jget (payload_obj ev) ''space_id''}. truthy v \<longrightarrow>
          ie_banned env (json_str (pl_str (ie_lib env)) v) (fe_from_instance ev) = Inr False)
     \<and> (ie_has_user_repo env \<longrightarrow> author_active env ev)
     \<and> (ie_has_space_repo env \<longrightarrow> archive_allows env ev)
     \<and> (ie_has_space_repo env \<and> ie_has_seat_repo env \<longrightarrow> may_write env ev)"

lemma validatedD:
  assumes "validated env w raw_body transport d i ev"
  shows "\<not> fst (rc_check (ie_now_replay env) (fe_msg_id ev) (iw_replay w))"
    and "\<exists>t. ie_fromiso env (fe_timestamp ev) = Some (Aware t)
          \<and> \<bar>ie_now_skew env - t\<bar> \<le> (if transport = transport_gfs_relay then relay_timestamp_skew_seconds
                                      else timestamp_skew_seconds)"
    and "ie_has_space_repo env \<Longrightarrow> ie_has_seat_repo env \<Longrightarrow> may_write env ev"
    and "ie_has_space_repo env \<Longrightarrow> archive_allows env ev"
proof -
  show "\<not> fst (rc_check (ie_now_replay env) (fe_msg_id ev) (iw_replay w))"
    using assms unfolding validated_def by blast
  have "fe_timestamp ev = env_str d ''timestamp''" using assms unfolding validated_def by blast
  then show "\<exists>t. ie_fromiso env (fe_timestamp ev) = Some (Aware t)
          \<and> \<bar>ie_now_skew env - t\<bar> \<le> (if transport = transport_gfs_relay then relay_timestamp_skew_seconds
                                      else timestamp_skew_seconds)"
    using assms unfolding validated_def by metis
  show "ie_has_space_repo env \<Longrightarrow> ie_has_seat_repo env \<Longrightarrow> may_write env ev"
    using assms unfolding validated_def by blast
  show "ie_has_space_repo env \<Longrightarrow> archive_allows env ev"
    using assms unfolding validated_def by blast
qed

lemma event_spaces_cover:
  "ic_event ctx = Some ev \<Longrightarrow> v \<in> {jget (ic_envelope ctx) ''space_id'', jget (payload_obj ev) ''space_id''} \<Longrightarrow> truthy v
     \<Longrightarrow> json_str py_str v \<in> set (event_spaces py_str ctx)"
  by (auto simp: event_spaces_def payload_obj_def Let_def jget_def split: json.splits)

lemma post_gates_pass:
  assumes "run_steps (post_decrypt_gate_steps env False) env w ctx = (w', Inr ctx')" "ic_early_response ctx' = None"
    and ev: "ic_event ctx = Some ev"
  shows "ctx' = ctx \<and> (ie_has_user_repo env \<longrightarrow> author_active env ev) \<and> (ie_has_space_repo env \<longrightarrow> archive_allows env ev)
    \<and> (ie_has_space_repo env \<and> ie_has_seat_repo env \<longrightarrow> may_write env ev)"
proof -
  define S where "S = (if ie_has_space_repo env \<and> ie_has_seat_repo env then [check_space_writer] else [])"
  have writer: "c' = c \<and> (ie_has_space_repo env \<and> ie_has_seat_repo env \<longrightarrow> may_write env ev)"
    if "run_steps S env v c = (v', Inr c')" "ic_early_response c' = None" "ic_event c = Some ev" for v v' c c'
    using that writer_gate.through [of "[]" env v c v' c'] by (auto simp: S_def split: if_splits)
  define A where "A = (if ie_has_space_repo env then [check_space_archived] else []) @ S"
  have archive: "c' = c \<and> (ie_has_space_repo env \<longrightarrow> archive_allows env ev)
      \<and> (ie_has_space_repo env \<and> ie_has_seat_repo env \<longrightarrow> may_write env ev)"
    if "run_steps A env v c = (v', Inr c')" "ic_early_response c' = None" "ic_event c = Some ev" for v v' c c'
  proof (cases "ie_has_space_repo env")
    case True
    with that(1) have "run_steps (check_space_archived # S) env v c = (v', Inr c')" by (simp add: A_def)
    from archive_gate.through [OF this that(2)] obtain u where
      "\<forall>ev. ic_event c = Some ev \<longrightarrow> archive_allows env ev" "run_steps S env u c = (v', Inr c')" by blast
    with writer [OF this(2) that(2,3)] that(3) show ?thesis by simp
  next
    case False
    with that writer show ?thesis by (simp add: A_def)
  qed
  have steps: "post_decrypt_gate_steps env False = (if ie_has_user_repo env then [check_deprovisioned_author] else []) @ A"
    by (simp add: post_decrypt_gate_steps_def A_def S_def)
  show ?thesis
  proof (cases "ie_has_user_repo env")
    case True
    with assms(1) have "run_steps (check_deprovisioned_author # A) env w ctx = (w', Inr ctx')" by (simp add: steps)
    from author_gate.through [OF this assms(2)] obtain u where
      "\<forall>ev. ic_event ctx = Some ev \<longrightarrow> author_active env ev" "run_steps A env u ctx = (w', Inr ctx')" by blast
    with archive [OF this(2) assms(2) ev] ev show ?thesis by simp
  next
    case False
    with assms archive [of w ctx w' ctx'] steps show ?thesis by simp
  qed
qed

text \<open>The part of the list before the replay check, and the part from it on.\<close>

definition body_steps :: "inbound_env \<Rightarrow> inbound_step list" where
  "body_steps env = [check_replay, decrypt_and_parse, confirm_relay_approval, idempotency_check, ban_check, persist_replay]
     @ post_decrypt_gate_steps env False"

lemma common_split:
  "common_pipeline_steps env lookup =
     parse_json # lookup # check_peer_class # check_relay_opt_in # check_timestamp # verify_signature # check_unpairing # body_steps env"
  by (simp add: common_pipeline_steps_def body_steps_def)

lemma header_pass:
  assumes law: "lookup_law env lookup found"
    and run: "run_steps (parse_json # lookup # check_peer_class # check_relay_opt_in # check_timestamp # verify_signature
        # check_unpairing # rest) env w ctx = (w', Inr ctx')"
    and fin: "ic_early_response ctx' = None"
  shows "\<exists>d i v c. c = ctx\<lparr>ic_envelope := d, ic_instance := Some i\<rparr>
    \<and> pl_loads (ie_lib env) (ic_raw_body ctx) = Some (JObj d) \<and> env_str d ''event_type'' \<in> set federation_event_types
    \<and> found (ctx\<lparr>ic_envelope := d\<rparr>) i \<and> ri_remote_identity_pk i \<noteq> []
    \<and> class_allows c \<and> relay_allows c \<and> timely env c \<and> authentic env i d \<and> not_unpaired c
    \<and> iw_replay v = iw_replay w \<and> run_steps rest env v c = (w', Inr ctx')"
proof -
  from run_steps_step [OF run fin] parse_pass obtain d where
    d: "pl_loads (ie_lib env) (ic_raw_body ctx) = Some (JObj d)" "federation_event_type (env_str d ''event_type'') \<noteq> None"
    and r1: "run_steps (lookup # check_peer_class # check_relay_opt_in # check_timestamp # verify_signature # check_unpairing # rest)
      env w (ctx\<lparr>ic_envelope := d\<rparr>) = (w', Inr ctx')" by blast
  from run_steps_step [OF r1 fin] law [unfolded lookup_law_def] obtain i c where
    i: "found (ctx\<lparr>ic_envelope := d\<rparr>) i" "ri_remote_identity_pk i \<noteq> []" and c: "c = ctx\<lparr>ic_envelope := d\<rparr>\<lparr>ic_instance := Some i\<rparr>"
    and r2: "run_steps (check_peer_class # check_relay_opt_in # check_timestamp # verify_signature # check_unpairing # rest)
      env w c = (w', Inr ctx')" by blast
  from class_gate.through_neutral [OF r2 fin] obtain v1 where c1: "class_allows c" "iw_replay v1 = iw_replay w"
    and r3: "run_steps (check_relay_opt_in # check_timestamp # verify_signature # check_unpairing # rest) env v1 c = (w', Inr ctx')"
    by blast
  from relay_gate.through_neutral [OF r3 fin] obtain v2 where c2: "relay_allows c" "iw_replay v2 = iw_replay v1"
    and r4: "run_steps (check_timestamp # verify_signature # check_unpairing # rest) env v2 c = (w', Inr ctx')" by blast
  from time_gate.through_neutral [OF r4 fin] obtain v3 where c3: "timely env c" "iw_replay v3 = iw_replay v2"
    and r5: "run_steps (verify_signature # check_unpairing # rest) env v3 c = (w', Inr ctx')" by blast
  from signature_gate.through_neutral [OF r5 fin] obtain v4 where
    c4: "\<exists>i. ic_instance c = Some i \<and> authentic env i (ic_envelope c)" "iw_replay v4 = iw_replay v3"
    and r6: "run_steps (check_unpairing # rest) env v4 c = (w', Inr ctx')" by blast
  from unpair_gate.through_neutral [OF r6 fin] obtain v5 where c5: "not_unpaired c" "iw_replay v5 = iw_replay v4"
    and r7: "run_steps rest env v5 c = (w', Inr ctx')" by blast
  have "authentic env i d" using c4(1) c by simp
  moreover have "env_str d ''event_type'' \<in> set federation_event_types"
    using d(2) by (simp add: federation_event_type_def split: if_splits)
  moreover have "c = ctx\<lparr>ic_envelope := d, ic_instance := Some i\<rparr>" using c by simp
  ultimately show ?thesis using d(1) i c1 c2 c3 c4(2) c5 r7 by metis
qed

lemma post_gates_neutral: "s \<in> set (post_decrypt_gate_steps env b) \<Longrightarrow> quiet_step s \<and> replay_neutral s"
  using ban_gate.neutral_gate_axioms author_gate.neutral_gate_axioms archive_gate.neutral_gate_axioms
    writer_gate.neutral_gate_axioms
  by (auto simp: post_decrypt_gate_steps_def neutral_gate_def gate_def split: if_splits)

lemma run_steps_replay:
  assumes "\<And>s. s \<in> set steps \<Longrightarrow> replay_neutral s" "run_steps steps env w ctx = (w', r)"
  shows "iw_replay w' = iw_replay w"
  using assms
proof (induction steps arbitrary: w ctx)
  case (Cons s steps)
  obtain w1 r1 where s: "s env w ctx = (w1, r1)" by fastforce
  have n: "replay_neutral s" using Cons.prems(1) by simp
  have "iw_replay w1 = iw_replay w" using replay_neutral.keeps_replay [OF n s] .
  with s Cons show ?case by (cases r1) (auto split: if_splits)
qed auto

lemma body_neutral: "s \<in> set (tl (body_steps env)) \<Longrightarrow> quiet_step s \<and> replay_neutral s"
  using post_gates_neutral [of s env False] decrypt_step.quiet_step_axioms decrypt_replay.replay_neutral_axioms
    confirm_gate.neutral_gate_axioms idempotency_gate.neutral_gate_axioms ban_gate.neutral_gate_axioms
    persist_gate.neutral_gate_axioms
  by (auto simp: body_steps_def neutral_gate_def gate_def)

lemma body_replay:
  assumes "run_steps (body_steps env) env w c = (w', r)"
  shows "iw_replay w' = snd (rc_check (ie_now_replay env) (env_str (ic_envelope c) ''msg_id'') (iw_replay w))"
proof -
  obtain w1 r1 where s: "check_replay env w c = (w1, r1)" by fastforce
  then have w1: "iw_replay w1 = snd (rc_check (ie_now_replay env) (env_str (ic_envelope c) ''msg_id'') (iw_replay w))"
    by (auto simp: check_replay_def split: prod.splits)
  have b: "body_steps env = check_replay # tl (body_steps env)" by (simp add: body_steps_def)
  show ?thesis
  proof (cases r1)
    case (Inl e)
    with assms s w1 show ?thesis by (subst (asm) b) auto
  next
    case (Inr c1)
    with assms s have "w' = w1 \<or> run_steps (tl (body_steps env)) env w1 c1 = (w', r)"
      by (subst (asm) b) (auto split: if_splits)
    with run_steps_replay [of "tl (body_steps env)"] body_neutral w1 show ?thesis by metis
  qed
qed

lemma body_pass:
  assumes run: "run_steps (body_steps env) env w c = (w', Inr ctx')" and fin: "ic_early_response ctx' = None"
  shows "\<exists>i key plain ev. ic_instance c = Some i
    \<and> \<not> fst (rc_check (ie_now_replay env) (env_str (ic_envelope c) ''msg_id'') (iw_replay w))
    \<and> cl_session_key (ie_crypto env) (ri_key_remote_to_self i) = Some key
    \<and> cl_decrypt (ie_crypto env) (env_str (ic_envelope c) ''encrypted_payload'') key = Some plain
    \<and> pl_loads (ie_lib env) plain = Some (fe_payload ev)
    \<and> fe_msg_id ev = env_str (ic_envelope c) ''msg_id'' \<and> fe_event_type ev = env_str (ic_envelope c) ''event_type''
    \<and> fe_from_instance ev = env_str (ic_envelope c) ''from_instance'' \<and> fe_space_id ev = jget (ic_envelope c) ''space_id''
    \<and> fe_timestamp ev = env_str (ic_envelope c) ''timestamp''
    \<and> iw_replay w' = snd (rc_check (ie_now_replay env) (env_str (ic_envelope c) ''msg_id'') (iw_replay w))
    \<and> not_banned env (c\<lparr>ic_event := Some ev\<rparr>)
    \<and> (ie_has_user_repo env \<longrightarrow> author_active env ev) \<and> (ie_has_space_repo env \<longrightarrow> archive_allows env ev)
    \<and> (ie_has_space_repo env \<and> ie_has_seat_repo env \<longrightarrow> may_write env ev) \<and> ic_event ctx' = Some ev"
proof -
  note run = run [unfolded body_steps_def append_Cons append_Nil]
  from replay_gate.through [OF run fin] obtain v1 where
    fresh: "check_replay env w c = (v1, Inr c)"
    and r1: "run_steps (decrypt_and_parse # confirm_relay_approval # idempotency_check # ban_check # persist_replay
      # post_decrypt_gate_steps env False) env v1 c = (w', Inr ctx')" by blast
  from run_steps_step [OF r1 fin] obtain v2 k where "decrypt_and_parse env v1 c = (v2, Inr k)"
    and r2: "run_steps (confirm_relay_approval # idempotency_check # ban_check # persist_replay
      # post_decrypt_gate_steps env False) env v2 k = (w', Inr ctx')" by blast
  from decrypt_fields [OF this(1)] obtain i key plain ev where
    ev: "ic_instance c = Some i" "cl_session_key (ie_crypto env) (ri_key_remote_to_self i) = Some key"
      "cl_decrypt (ie_crypto env) (env_str (ic_envelope c) ''encrypted_payload'') key = Some plain"
      "pl_loads (ie_lib env) plain = Some (fe_payload ev)"
      "fe_msg_id ev = env_str (ic_envelope c) ''msg_id''" "fe_event_type ev = env_str (ic_envelope c) ''event_type''"
      "fe_from_instance ev = env_str (ic_envelope c) ''from_instance''" "fe_space_id ev = jget (ic_envelope c) ''space_id''"
      "fe_timestamp ev = env_str (ic_envelope c) ''timestamp''"
    and k: "k = c\<lparr>ic_event := Some ev\<rparr>" by blast
  from confirm_gate.through [OF r2 fin] obtain v3 where
    r3: "run_steps (idempotency_check # ban_check # persist_replay # post_decrypt_gate_steps env False) env v3 k = (w', Inr ctx')"
    by blast
  from idempotency_gate.through [OF r3 fin] obtain v4 where
    r4: "run_steps (ban_check # persist_replay # post_decrypt_gate_steps env False) env v4 k = (w', Inr ctx')" by blast
  from ban_gate.through [OF r4 fin] obtain v5 where ban: "not_banned env k"
    and r5: "run_steps (persist_replay # post_decrypt_gate_steps env False) env v5 k = (w', Inr ctx')" by blast
  from persist_gate.through [OF r5 fin] obtain v6 where
    r6: "run_steps (post_decrypt_gate_steps env False) env v6 k = (w', Inr ctx')" by blast
  have kev: "ic_event k = Some ev" by (simp add: k)
  note body_replay [OF assms(1)]
  with post_gates_pass [OF r6 fin kev] kev replay_pass [OF fresh] ev ban k show ?thesis by (metis fst_conv)
qed

lemma common_pipeline_sound:
  assumes law: "lookup_law env lookup found" and stable: "\<And>d i. found (ctx\<lparr>ic_envelope := d\<rparr>) i = found ctx i"
    and run: "run_steps (common_pipeline_steps env lookup) env w ctx = (w', Inr ctx')"
    and fin: "ic_early_response ctx' = None"
  shows "\<exists>d i ev. found ctx i \<and> validated env w (ic_raw_body ctx) (ic_transport ctx) d i ev \<and> ic_event ctx' = Some ev
    \<and> iw_replay w' = snd (rc_check (ie_now_replay env) (fe_msg_id ev) (iw_replay w))"
proof -
  from header_pass [OF law run [unfolded common_split] fin] obtain d i v c where
    c: "c = ctx\<lparr>ic_envelope := d, ic_instance := Some i\<rparr>" and v: "iw_replay v = iw_replay w"
    and head: "pl_loads (ie_lib env) (ic_raw_body ctx) = Some (JObj d)" "env_str d ''event_type'' \<in> set federation_event_types"
      "found ctx i" "ri_remote_identity_pk i \<noteq> []"
      "class_allows c" "relay_allows c" "timely env c" "authentic env i d" "not_unpaired c"
    and rest: "run_steps (body_steps env) env v c = (w', Inr ctx')" unfolding stable by blast
  from body_pass [OF rest fin] c obtain key plain ev where
    body: "\<not> fst (rc_check (ie_now_replay env) (env_str d ''msg_id'') (iw_replay w))"
      "cl_session_key (ie_crypto env) (ri_key_remote_to_self i) = Some key"
      "cl_decrypt (ie_crypto env) (env_str d ''encrypted_payload'') key = Some plain"
      "pl_loads (ie_lib env) plain = Some (fe_payload ev)"
      "fe_msg_id ev = env_str d ''msg_id''" "fe_event_type ev = env_str d ''event_type''"
      "fe_from_instance ev = env_str d ''from_instance''" "fe_space_id ev = jget d ''space_id''"
      "not_banned env (c\<lparr>ic_event := Some ev\<rparr>)" "ie_has_user_repo env \<longrightarrow> author_active env ev"
      "ie_has_space_repo env \<longrightarrow> archive_allows env ev"
      "ie_has_space_repo env \<and> ie_has_seat_repo env \<longrightarrow> may_write env ev" "ic_event ctx' = Some ev"
      "fe_timestamp ev = env_str d ''timestamp''"
      "iw_replay w' = snd (rc_check (ie_now_replay env) (env_str d ''msg_id'') (iw_replay w))"
    by (auto simp: v)
  have from_i: "env_str d ''from_instance'' = ri_id i" using head(8) by (simp add: authentic_def)
  have banned: "ie_banned env (json_str (pl_str (ie_lib env)) x) (ri_id i) = Inr False"
    if "x \<in> {fe_space_id ev, jget (payload_obj ev) ''space_id''}" "truthy x" for x
    using body(9) event_spaces_cover [of "c\<lparr>ic_event := Some ev\<rparr>" ev x "pl_str (ie_lib env)"] that from_i
    unfolding not_banned_def by (simp add: c body(8))
  have "validated env w (ic_raw_body ctx) (ic_transport ctx) d i ev"
    unfolding validated_def body(5,6,7) from_i
    using head(1,2,4-9) body(1-4,8,10-12,14) banned c
    by (auto simp: class_allows_def relay_allows_def timely_def not_unpaired_def simp del: insert_iff)
  with head(3) body(5,13,15) show ?thesis by metis
qed

end
