(* ===== verification/Inbound_Props.thy ===== *)
theory Inbound_Props
  imports Inbound_Gates "HOL-Library.Sublist"
begin

text \<open>
  The properties of the inbound federation path: what a dispatched event has been checked for, that
  drops are indistinguishable, which exceptions leave the pipeline, and how often one envelope can be
  dispatched.
\<close>

section \<open>One call\<close>

lemma common_quiet:
  assumes "quiet_step lookup" "s \<in> set (common_pipeline_steps env lookup)"
  shows "quiet_step s"
proof -
  have "set (common_pipeline_steps env lookup) =
      {parse_json, lookup, check_peer_class, check_relay_opt_in, check_timestamp, verify_signature, check_unpairing, check_replay}
      \<union> set (tl (body_steps env))"
    by (auto simp: common_split body_steps_def)
  with assms body_neutral show ?thesis
    using parse_step.quiet_step_axioms class_gate.quiet_step_axioms relay_gate.quiet_step_axioms
      time_gate.quiet_step_axioms signature_gate.quiet_step_axioms unpair_gate.quiet_step_axioms
      replay_gate.quiet_step_axioms
    by auto
qed

lemma run_and_dispatch_cases:
  assumes q: "\<And>s. s \<in> set steps \<Longrightarrow> quiet_step s" and e: "ic_early_response ctx = None"
    and run: "run_and_dispatch steps env w ctx = (w', r)"
  shows "(\<exists>x. r = Inl x \<and> iw_dispatched w' = iw_dispatched w) \<or>
    (r = Inr accepted_response \<and>
      (iw_dispatched w' = iw_dispatched w \<or>
       (\<exists>v ctx' ev. run_steps steps env w ctx = (v, Inr ctx') \<and> ic_early_response ctx' = None \<and> ic_event ctx' = Some ev
          \<and> w' = dispatch_event ev v \<and> iw_dispatched w' = iw_dispatched w @ [ev])))"
proof -
  obtain v s where s: "run_steps steps env w ctx = (v, s)" by fastforce
  have d: "iw_dispatched v = iw_dispatched w" using run_steps_quiet(1) [OF q s] .
  show ?thesis
  proof (cases s)
    case (Inl x)
    with run s d show ?thesis by (auto simp: run_and_dispatch_def pipeline_run_def)
  next
    case (Inr c)
    with run_steps_quiet(2) [OF q s _ e] have "ic_early_response c \<in> {None, Some accepted_response}" by blast
    with run s d Inr show ?thesis
      by (auto simp: run_and_dispatch_def pipeline_run_def dispatch_event_def accepted_response_def split: option.splits)
  qed
qed

lemma new_context_simps [simp]:
  "ic_early_response (new_context raw inbox iid tr) = None"
  "ic_raw_body (new_context raw inbox iid tr) = raw"
  "ic_inbox_id (new_context raw inbox iid tr) = inbox"
  "ic_instance_id (new_context raw inbox iid tr) = iid"
  "ic_transport (new_context raw inbox iid tr) = tr"
  by (simp_all add: new_context_def)

lemma common_dispatch:
  assumes law: "lookup_law env lookup found" and quiet: "quiet_step lookup"
    and stable: "\<And>d i. found (ctx\<lparr>ic_envelope := d\<rparr>) i = found ctx i" and e: "ic_early_response ctx = None"
    and run: "run_and_dispatch (common_pipeline_steps env lookup) env w ctx = (w', r)"
    and changed: "iw_dispatched w' \<noteq> iw_dispatched w"
  shows "\<exists>d i ev. found ctx i \<and> validated env w (ic_raw_body ctx) (ic_transport ctx) d i ev
    \<and> iw_dispatched w' = iw_dispatched w @ [ev] \<and> r = Inr accepted_response
    \<and> iw_replay w' = snd (rc_check (ie_now_replay env) (fe_msg_id ev) (iw_replay w))"
proof -
  have q: "quiet_step s" if "s \<in> set (common_pipeline_steps env lookup)" for s using common_quiet [OF quiet that] .
  from run_and_dispatch_cases [OF q e run] changed obtain v ctx' ev where
    v: "run_steps (common_pipeline_steps env lookup) env w ctx = (v, Inr ctx')" "ic_early_response ctx' = None"
      "ic_event ctx' = Some ev" "w' = dispatch_event ev v" "iw_dispatched w' = iw_dispatched w @ [ev]" "r = Inr accepted_response"
    by auto
  from common_pipeline_sound [OF law stable v(1,2)] v(3) obtain d i where
    "found ctx i" "validated env w (ic_raw_body ctx) (ic_transport ctx) d i ev"
    "iw_replay v = snd (rc_check (ie_now_replay env) (fe_msg_id ev) (iw_replay w))" by auto
  with v show ?thesis by (auto simp: dispatch_event_def)
qed

text \<open>
  C1. Nothing is dispatched unchecked (HTTPS inbox).  If a call to \<open>handle_inbound_envelope\<close> dispatches
  anything, it dispatches exactly one event; the body was a JSON object with a known event type, the
  inbox id belongs to a household with an identity key, the envelope is signed by that household and
  names it as its sender, its clock is within the live skew, its \<open>msg_id\<close> is not remembered, the payload
  decrypted under the pair's session key, the household's class and pairing status allow the type, no
  named space bans it, and the archive and writer rules let the write in.
\<close>

theorem inbox_dispatch_sound:
  assumes "handle_inbound_envelope env w inbox_id raw_body = (w', r)" "iw_dispatched w' \<noteq> iw_dispatched w"
  shows "\<exists>d i ev. ie_by_inbox env inbox_id = Inr (Some i) \<and> validated env w raw_body [] d i ev
    \<and> iw_dispatched w' = iw_dispatched w @ [ev] \<and> r = Inr accepted_response"
  using common_dispatch [OF lookup_instance_law lookup_step.quiet_step_axioms, where ctx = "new_context raw_body inbox_id [] []"
      and env = env and w = w and w' = w' and r = r] assms
  by (auto simp: handle_inbound_envelope_def inbound_pipeline_def)

text \<open>
  C2. Nothing is dispatched unchecked (DataChannel and relay).  The same for \<open>handle_inbound_rtc\<close>, whose
  sender is resolved by its instance id; an envelope the connection server carried is also held to this
  household's relay opt-in and gets the relay's wider clock window.
\<close>

theorem rtc_dispatch_sound:
  assumes "handle_inbound_rtc env w instance_id raw_body transport = (w', r)" "iw_dispatched w' \<noteq> iw_dispatched w"
  shows "\<exists>d i ev. ie_by_id env instance_id = Inr (Some i) \<and> validated env w raw_body transport d i ev
    \<and> iw_dispatched w' = iw_dispatched w @ [ev] \<and> r = Inr accepted_response"
  using common_dispatch [OF lookup_instance_by_id_law lookup_id_step.quiet_step_axioms,
      where ctx = "new_context raw_body [] instance_id transport" and env = env and w = w and w' = w' and r = r] assms
  by (auto simp: handle_inbound_rtc_def rtc_inbound_pipeline_def)

text \<open>
  C20. No oracle.  Every call either raises and dispatches nothing, or answers exactly the one accepted
  body, whether it dispatched one event or none; the answer never tells the sender which.
\<close>

theorem answers_are_uniform:
  "case handle_inbound_envelope env w inbox_id raw_body of (w', r) \<Rightarrow>
     r \<in> range Inl \<union> {Inr accepted_response}
     \<and> iw_dispatched w' \<in> {iw_dispatched w} \<union> (if r = Inr accepted_response then (\<lambda>ev. iw_dispatched w @ [ev]) ` UNIV else {})"
proof -
  obtain w' r where h: "handle_inbound_envelope env w inbox_id raw_body = (w', r)" by fastforce
  have q: "quiet_step s" if "s \<in> set (inbound_pipeline env)" for s
    using common_quiet [OF lookup_step.quiet_step_axioms] that by (simp add: inbound_pipeline_def)
  from run_and_dispatch_cases [OF q, where ctx = "new_context raw_body inbox_id [] []" and w = w and env = env] h
  have "(\<exists>x. r = Inl x \<and> iw_dispatched w' = iw_dispatched w) \<or>
    (r = Inr accepted_response \<and> (iw_dispatched w' = iw_dispatched w \<or> (\<exists>ev. iw_dispatched w' = iw_dispatched w @ [ev])))"
    unfolding handle_inbound_envelope_def by (metis new_context_simps(1))
  then show ?thesis by (auto simp: h)
qed

section \<open>A concrete household\<close>

text \<open>
  A peer \<open>"peer"\<close> with keys that verify and decrypt its one envelope, used to apply the properties: the
  signed body \<open>"E"\<close> has the timestamp \<open>ts\<close> and decrypts to an empty object.
\<close>

definition demo_envelope :: jobj where
  "demo_envelope = [(''msg_id'', JStr ''m1''), (''event_type'', JStr ''pairing_intro''), (''from_instance'', JStr ''peer''),
     (''to_instance'', JStr ''us''), (''timestamp'', JStr ''T''), (''encrypted_payload'', JStr ''C''),
     (''sig_suite'', JStr ''ed25519''), (''signatures'', JObj [(''ed25519'', JStr ''S'')])]"

definition demo_peer :: remote_instance where
  "demo_peer = \<lparr>ri_id = ''peer'', ri_remote_identity_pk = ''aa'', ri_key_self_to_remote = ''k1'', ri_key_remote_to_self = ''k2'',
     ri_local_inbox_id = ''ib'', ri_status = CONFIRMED, ri_source = MANUAL, ri_remote_pq_identity_pk = None,
     ri_sig_suite = ''ed25519'', ri_gfs_relay = True\<rparr>"

definition demo_env :: "int \<Rightarrow> int \<Rightarrow> inbound_env" where
  "demo_env now ts = \<lparr>
     ie_lib = \<lparr>pl_str = \<lambda>_. ''?'', pl_int_of_str = \<lambda>_. None,
       pl_loads = \<lambda>s. if s = ''E'' then Some (JObj demo_envelope) else if s = ''P'' then Some (JObj []) else None\<rparr>,
     ie_crypto = \<lparr>cl_b64 = \<lambda>j. case j of JStr s \<Rightarrow> Some s | _ \<Rightarrow> None, cl_ed = \<lambda>pk msg s. pk = ''K'' \<and> s = ''S'',
       cl_pq = \<lambda>_ _ _. False, cl_fromhex = \<lambda>h. if h = ''aa'' then Some ''K'' else None, cl_dumps = \<lambda>_. Some ''D'',
       cl_session_key = \<lambda>_. Some ''SK'', cl_decrypt = \<lambda>c k. if c = ''C'' \<and> k = ''SK'' then Some ''P'' else None\<rparr>,
     ie_fromiso = \<lambda>s. if s = ''T'' then Some (Aware ts) else None, ie_dumps_len = \<lambda>_. Some 2,
     ie_by_inbox = \<lambda>ib. Inr (if ib = ''ib'' then Some demo_peer else None),
     ie_by_id = \<lambda>iid. Inr (if iid = ''peer'' then Some demo_peer else None),
     ie_unpaired_recently = \<lambda>_. False, ie_promote = \<lambda>_. Inr False, ie_banned = \<lambda>_ _. Inr False,
     ie_insert_replay = \<lambda>_. Inr (), ie_remote_user = \<lambda>_. Inr False,
     ie_has_user_repo = False, ie_has_space_repo = False, ie_has_seat_repo = False,
     ie_repos = \<lparr>sr_get = \<lambda>_. Inr None, sr_invited_by = \<lambda>_. Inr None, sr_invited_by_epoch = \<lambda>_. Inr None,
       sr_owner_user_id = \<lambda>_. Inr None, sr_seats = \<lambda>_ _. Inr [], sr_seat = \<lambda>_ _ _. Inr None\<rparr>,
     ie_now_skew = now, ie_now_replay = now, ie_now_ms = 0, ie_monotonic = 0, ie_monotonic_store = 0\<rparr>"

definition demo_world :: inbound_world where
  "demo_world = \<lparr>iw_replay = rc_new replay_cache_window, iw_idem = None, iw_pending = None, iw_replay_rows = [],
     iw_expedited = [], iw_confirmed = [], iw_refused_writes = [], iw_dispatched = [], iw_next_oid = 0\<rparr>"

lemma pairing_intro_known: "federation_event_type ''pairing_intro'' = Some ''pairing_intro''"
  by (simp add: federation_event_type_def federation_event_types_def event_types_pairing_to_spaces_def)

lemma demo_parse:
  "parse_json (demo_env now ts) w (ctx\<lparr>ic_raw_body := ''E''\<rparr>) = (w, Inr (ctx\<lparr>ic_raw_body := ''E'', ic_envelope := demo_envelope\<rparr>))"
  by (simp add: parse_json_def demo_env_def)
    (simp add: demo_envelope_def required_fields_def string_fields_def jget_def env_str_def pairing_intro_known)

definition demo_event :: "nat \<Rightarrow> federation_event" where
  "demo_event oid = \<lparr>fe_msg_id = ''m1'', fe_event_type = ''pairing_intro'', fe_from_instance = ''peer'', fe_to_instance = ''us'',
     fe_timestamp = ''T'', fe_payload = JObj [], fe_space_id = JNull, fe_epoch = JNull, fe_oid = oid\<rparr>"

lemma demo_fields:
  "env_str demo_envelope ''msg_id'' = ''m1''" "env_str demo_envelope ''event_type'' = ''pairing_intro''"
  "env_str demo_envelope ''from_instance'' = ''peer''" "env_str demo_envelope ''to_instance'' = ''us''"
  "env_str demo_envelope ''timestamp'' = ''T''" "env_str demo_envelope ''encrypted_payload'' = ''C''"
  "env_str demo_envelope ''sig_suite'' = ''ed25519''" "envelope_signatures demo_envelope = [(''ed25519'', JStr ''S'')]"
  "jget demo_envelope ''space_id'' = JNull" "jget demo_envelope ''epoch'' = JNull"
  by (simp_all add: demo_envelope_def env_str_def jget_def envelope_signatures_def)

lemma jget_Nil [simp]: "jget [] k = JNull"
  by (simp add: jget_def)

lemma demo_body:
  assumes "rc_check now ''m1'' (iw_replay w) = (False, cache)" "iw_idem w = None"
    and "ic_envelope c = demo_envelope" "ic_instance c = Some demo_peer" "ic_early_response c = None"
  shows "run_steps (body_steps (demo_env now ts)) (demo_env now ts) w c =
    (w\<lparr>iw_replay := cache, iw_next_oid := Suc (iw_next_oid w), iw_replay_rows := iw_replay_rows w @ [''m1'']\<rparr>,
     Inr (c\<lparr>ic_event := Some (demo_event (iw_next_oid w))\<rparr>))"
proof -
  have s: "check_replay (demo_env now ts) w c = (w\<lparr>iw_replay := cache\<rparr>, Inr c)"
    using assms by (simp add: check_replay_def demo_fields) (simp add: demo_env_def)
  let ?w = "w\<lparr>iw_replay := cache\<rparr>" and ?c = "c\<lparr>ic_event := Some (demo_event (iw_next_oid w))\<rparr>"
  have d: "decrypt_and_parse (demo_env now ts) ?w c = (?w\<lparr>iw_next_oid := Suc (iw_next_oid w)\<rparr>, Inr ?c)"
    using assms by (simp add: decrypt_and_parse_def demo_fields Let_def) (simp add: demo_env_def demo_event_def demo_peer_def demo_fields)
  have p: "post_decrypt_gate_steps (demo_env now ts) False = []"
    by (simp add: post_decrypt_gate_steps_def demo_env_def)
  have r: "confirm_relay_approval (demo_env now ts) v ?c = (v, Inr ?c)" for v
    using assms(4) by (simp add: confirm_relay_approval_def demo_peer_def)
  have i: "idempotency_check (demo_env now ts) (?w\<lparr>iw_next_oid := n\<rparr>) ?c = (?w\<lparr>iw_next_oid := n\<rparr>, Inr ?c)" for n
    using assms(2) by (simp add: idempotency_check_def)
  have b: "ban_check (demo_env now ts) v ?c = (v, Inr ?c)" for v
    using assms(3) by (simp add: ban_check_def event_spaces_def demo_fields demo_event_def jget_Nil Let_def)
  have q: "persist_replay (demo_env now ts) v ?c = (v\<lparr>iw_replay_rows := iw_replay_rows v @ [''m1'']\<rparr>, Inr ?c)" for v
    using assms(3) by (simp add: persist_replay_def demo_fields) (simp add: demo_env_def)
  show ?thesis using assms(5) by (simp add: body_steps_def p s d r i b q)
qed

lemma demo_header:
  assumes "\<bar>now - ts\<bar> \<le> (if tr = transport_gfs_relay then relay_timestamp_skew_seconds else timestamp_skew_seconds)"
    and lookup: "\<And>c. ic_inbox_id c = inbox \<Longrightarrow> ic_instance_id c = iid \<Longrightarrow>
       lookup (demo_env now ts) w c = (w, Inr (c\<lparr>ic_instance := Some demo_peer\<rparr>))"
  shows "run_steps (common_pipeline_steps (demo_env now ts) lookup) (demo_env now ts) w (new_context ''E'' inbox iid tr) =
     run_steps (body_steps (demo_env now ts)) (demo_env now ts) w
       ((new_context ''E'' inbox iid tr)\<lparr>ic_envelope := demo_envelope, ic_instance := Some demo_peer\<rparr>)"
proof -
  let ?e = "demo_env now ts" and ?n = "new_context ''E'' inbox iid tr"
  let ?c = "?n\<lparr>ic_envelope := demo_envelope, ic_instance := Some demo_peer\<rparr>"
  have pj: "parse_json ?e w ?n = (w, Inr (?n\<lparr>ic_envelope := demo_envelope\<rparr>))"
    using demo_parse [of now ts w ?n] by (simp add: new_context_def)
  have cl: "check_peer_class ?e w ?c = (w, Inr ?c)"
    by (simp add: check_peer_class_def demo_peer_def)
  have re: "check_relay_opt_in ?e w ?c = (w, Inr ?c)"
    by (simp add: check_relay_opt_in_def demo_peer_def)
  have ti: "check_timestamp ?e w ?c = (w, Inr ?c)"
    using assms(1) by (simp add: check_timestamp_def demo_fields) (auto simp: demo_env_def split: if_splits)
  have si: "verify_signature ?e w ?c = (w, Inr ?c)"
    by (simp add: verify_signature_def demo_fields Let_def demo_peer_def)
      (simp add: demo_env_def demo_fields verify_signatures_all_def parse_suite_def jget_def)
  have un: "check_unpairing ?e w ?c = (w, Inr ?c)"
    by (simp add: check_unpairing_def demo_peer_def)
  show ?thesis
    by (simp add: common_split pj lookup cl re ti si un)
qed

lemma demo_dispatch:
  assumes "\<bar>now - ts\<bar> \<le> (if tr = transport_gfs_relay then relay_timestamp_skew_seconds else timestamp_skew_seconds)"
    and "rc_check now ''m1'' (iw_replay w) = (False, cache)" "iw_idem w = None"
  shows "handle_inbound_rtc (demo_env now ts) w ''peer'' ''E'' tr =
      (w\<lparr>iw_replay := cache, iw_next_oid := Suc (iw_next_oid w), iw_replay_rows := iw_replay_rows w @ [''m1''],
         iw_dispatched := iw_dispatched w @ [demo_event (iw_next_oid w)]\<rparr>, Inr accepted_response)"
    and "tr = [] \<Longrightarrow> handle_inbound_envelope (demo_env now ts) w ''ib'' ''E'' =
      (w\<lparr>iw_replay := cache, iw_next_oid := Suc (iw_next_oid w), iw_replay_rows := iw_replay_rows w @ [''m1''],
         iw_dispatched := iw_dispatched w @ [demo_event (iw_next_oid w)]\<rparr>, Inr accepted_response)"
proof -
  note body = demo_body [OF assms(2,3)]
  have rtc: "lookup_instance_by_id (demo_env now ts) w c = (w, Inr (c\<lparr>ic_instance := Some demo_peer\<rparr>))"
    if "ic_instance_id c = ''peer''" for c
    using that by (simp add: lookup_instance_by_id_def) (simp add: demo_env_def demo_peer_def)
  have inbox: "lookup_instance (demo_env now ts) w c = (w, Inr (c\<lparr>ic_instance := Some demo_peer\<rparr>))"
    if "ic_inbox_id c = ''ib''" for c
    using that by (simp add: lookup_instance_def) (simp add: demo_env_def demo_peer_def)
  show "handle_inbound_rtc (demo_env now ts) w ''peer'' ''E'' tr =
      (w\<lparr>iw_replay := cache, iw_next_oid := Suc (iw_next_oid w), iw_replay_rows := iw_replay_rows w @ [''m1''],
         iw_dispatched := iw_dispatched w @ [demo_event (iw_next_oid w)]\<rparr>, Inr accepted_response)"
    by (simp add: handle_inbound_rtc_def rtc_inbound_pipeline_def run_and_dispatch_def pipeline_run_def
        demo_header [where lookup = lookup_instance_by_id and iid = "''peer''" and w = w, OF assms(1) rtc] body dispatch_event_def accepted_response_def)
  show "handle_inbound_envelope (demo_env now ts) w ''ib'' ''E'' =
      (w\<lparr>iw_replay := cache, iw_next_oid := Suc (iw_next_oid w), iw_replay_rows := iw_replay_rows w @ [''m1''],
         iw_dispatched := iw_dispatched w @ [demo_event (iw_next_oid w)]\<rparr>, Inr accepted_response)" if "tr = []"
    using demo_header [where lookup = lookup_instance and inbox = "''ib''" and iid = "[]" and w = w, OF assms(1) inbox] that
    by (simp add: handle_inbound_envelope_def inbound_pipeline_def run_and_dispatch_def pipeline_run_def
        body dispatch_event_def accepted_response_def)
qed

lemma demo_fresh: "rc_check now ''m1'' (iw_replay demo_world) =
    (False, \<lparr>rc_window = replay_cache_window, rc_seen = [(''m1'', Aware now)]\<rparr>)"
  by (simp add: demo_world_def rc_new_def rc_check_def rc_prune_def Let_def)

theorem inbox_dispatch_sound_witness:
  "\<exists>d i ev. ie_by_inbox (demo_env 10 0) ''ib'' = Inr (Some i) \<and> validated (demo_env 10 0) demo_world ''E'' [] d i ev
     \<and> iw_dispatched (fst (handle_inbound_envelope (demo_env 10 0) demo_world ''ib'' ''E'')) = [ev]"
proof -
  have run: "handle_inbound_envelope (demo_env 10 0) demo_world ''ib'' ''E'' =
      (demo_world\<lparr>iw_replay := \<lparr>rc_window = replay_cache_window, rc_seen = [(''m1'', Aware 10)]\<rparr>, iw_next_oid := Suc (iw_next_oid demo_world),
         iw_replay_rows := iw_replay_rows demo_world @ [''m1''],
         iw_dispatched := iw_dispatched demo_world @ [demo_event (iw_next_oid demo_world)]\<rparr>, Inr accepted_response)"
    by (rule demo_dispatch(2) [where tr = "[]", OF _ demo_fresh])
      (simp_all add: timestamp_skew_seconds_def transport_gfs_relay_def demo_world_def)
  from inbox_dispatch_sound [OF run] run show ?thesis by (auto simp: demo_world_def)
qed

theorem rtc_dispatch_sound_witness:
  "\<exists>d i ev. ie_by_id (demo_env 80000 0) ''peer'' = Inr (Some i)
     \<and> validated (demo_env 80000 0) demo_world ''E'' transport_gfs_relay d i ev
     \<and> iw_dispatched (fst (handle_inbound_rtc (demo_env 80000 0) demo_world ''peer'' ''E'' transport_gfs_relay)) = [ev]"
proof -
  have run: "handle_inbound_rtc (demo_env 80000 0) demo_world ''peer'' ''E'' transport_gfs_relay =
      (demo_world\<lparr>iw_replay := \<lparr>rc_window = replay_cache_window, rc_seen = [(''m1'', Aware 80000)]\<rparr>, iw_next_oid := Suc (iw_next_oid demo_world),
         iw_replay_rows := iw_replay_rows demo_world @ [''m1''],
         iw_dispatched := iw_dispatched demo_world @ [demo_event (iw_next_oid demo_world)]\<rparr>, Inr accepted_response)"
    by (rule demo_dispatch(1) [OF _ demo_fresh])
      (simp_all add: relay_timestamp_skew_seconds_def relay_queue_ttl_seconds_def timestamp_skew_seconds_def demo_world_def)
  from rtc_dispatch_sound [OF run] run show ?thesis by (auto simp: demo_world_def)
qed

end
