(* ===== verification/Inbound_Runs.thy ===== *)
theory Inbound_Runs
  imports Inbound_Props
begin

text \<open>
  Sequences of inbound calls: how often one envelope can be dispatched, over live wires and over the
  connection-server relay, through any interleaving of doors.
\<close>

section \<open>Requests\<close>

text \<open>Each request carries the environment it runs in: its clock readings and repository contents.\<close>

datatype inbound_request =
    Via_inbox (req_env: inbound_env) string string
  | Via_rtc (req_env: inbound_env) string string (req_transport_of: string)

fun req_transport :: "inbound_request \<Rightarrow> string" where
  "req_transport (Via_inbox env inbox raw) = []"
| "req_transport (Via_rtc env iid raw tr) = tr"

fun req_raw :: "inbound_request \<Rightarrow> string" where
  "req_raw (Via_inbox env inbox raw) = raw"
| "req_raw (Via_rtc env iid raw tr) = raw"

fun handle_request :: "inbound_request \<Rightarrow> inbound_world \<Rightarrow> inbound_world \<times> (exn + jobj)" where
  "handle_request (Via_inbox env inbox raw) w = handle_inbound_envelope env w inbox raw"
| "handle_request (Via_rtc env iid raw tr) w = handle_inbound_rtc env w iid raw tr"

definition req_now :: "inbound_request \<Rightarrow> int" where
  "req_now req = ie_now_replay (req_env req)"

text \<open>A run: the final state and, for every request that dispatched, the request with its event.\<close>

fun serve :: "inbound_request list \<Rightarrow> inbound_world \<Rightarrow> inbound_world \<times> (inbound_request \<times> federation_event) list" where
  "serve [] w = (w, [])"
| "serve (req # reqs) w =
     (let w' = fst (handle_request req w); rest = serve reqs w'
      in (fst rest, if iw_dispatched w' = iw_dispatched w then snd rest
                    else (req, last (iw_dispatched w')) # snd rest))"

lemma handle_request_dispatch:
  assumes "iw_dispatched (fst (handle_request req w)) \<noteq> iw_dispatched w"
  shows "\<exists>d i ev. validated (req_env req) w (req_raw req) (req_transport req) d i ev
    \<and> iw_dispatched (fst (handle_request req w)) = iw_dispatched w @ [ev]
    \<and> iw_replay (fst (handle_request req w)) = snd (rc_check (req_now req) (fe_msg_id ev) (iw_replay w))"
proof (cases req)
  case (Via_inbox env inbox raw)
  obtain w' r where h: "handle_inbound_envelope env w inbox raw = (w', r)" by fastforce
  from common_dispatch [OF lookup_instance_law lookup_step.quiet_step_axioms, where ctx = "new_context raw inbox [] []"
      and env = env and w = w and w' = w' and r = r] h assms Via_inbox
  show ?thesis by (auto simp: handle_inbound_envelope_def inbound_pipeline_def req_now_def)
next
  case (Via_rtc env iid raw tr)
  obtain w' r where h: "handle_inbound_rtc env w iid raw tr = (w', r)" by fastforce
  from common_dispatch [OF lookup_instance_by_id_law lookup_id_step.quiet_step_axioms, where ctx = "new_context raw [] iid tr"
      and env = env and w = w and w' = w' and r = r] h assms Via_rtc
  show ?thesis by (auto simp: handle_inbound_rtc_def rtc_inbound_pipeline_def req_now_def)
qed

text \<open>A request makes at most one check of the replay cache, whatever its outcome.\<close>

definition header_steps :: "inbound_step \<Rightarrow> inbound_step list" where
  "header_steps lookup = [parse_json, lookup, check_peer_class, check_relay_opt_in, check_timestamp, verify_signature, check_unpairing]"

lemma header_replay:
  assumes "\<And>s. s \<in> set pre \<Longrightarrow> replay_neutral s" "run_steps (pre @ body_steps env) env w ctx = (w', r)"
  shows "iw_replay w' = iw_replay w \<or> (\<exists>k. iw_replay w' = snd (rc_check (ie_now_replay env) k (iw_replay w)))"
  using assms
proof (induction pre arbitrary: w ctx)
  case Nil
  with body_replay show ?case by auto
next
  case (Cons s pre)
  obtain w1 r1 where s: "s env w ctx = (w1, r1)" by fastforce
  have n: "replay_neutral s" using Cons.prems(1) by simp
  have same: "iw_replay w1 = iw_replay w" using replay_neutral.keeps_replay [OF n s] .
  show ?case
  proof (cases r1)
    case (Inl e)
    with s same Cons.prems(2) show ?thesis by auto
  next
    case (Inr c1)
    with s Cons.prems(2) have "w' = w1 \<or> run_steps (pre @ body_steps env) env w1 c1 = (w', r)" by (auto split: if_splits)
    with Cons.IH [of w1 c1] Cons.prems(1) same show ?thesis by auto
  qed
qed

lemma handle_request_replay:
  "iw_replay (fst (handle_request req w)) = iw_replay w
   \<or> (\<exists>k. iw_replay (fst (handle_request req w)) = snd (rc_check (req_now req) k (iw_replay w)))"
proof -
  have fin: "iw_replay (fst (run_and_dispatch steps env v ctx)) = iw_replay (fst (run_steps steps env v ctx))" for steps env v ctx
    by (auto simp: run_and_dispatch_def pipeline_run_def dispatch_event_def split: prod.splits sum.splits option.splits)
  have pre: "s \<in> set (header_steps lookup) \<Longrightarrow> replay_neutral lookup \<Longrightarrow> replay_neutral s" for s lookup
    using parse_replay.replay_neutral_axioms class_gate.replay_neutral_axioms relay_gate.replay_neutral_axioms
      time_gate.replay_neutral_axioms signature_gate.replay_neutral_axioms unpair_gate.replay_neutral_axioms
    by (auto simp: header_steps_def)
  have split: "common_pipeline_steps env lookup = header_steps lookup @ body_steps env" for env lookup
    by (simp add: common_split header_steps_def)
  have main: "replay_neutral lookup \<Longrightarrow> iw_replay (fst (run_steps (common_pipeline_steps env lookup) env w ctx)) = iw_replay w
      \<or> (\<exists>k. iw_replay (fst (run_steps (common_pipeline_steps env lookup) env w ctx)) = snd (rc_check (ie_now_replay env) k (iw_replay w)))"
    for env lookup ctx
    using header_replay [of "header_steps lookup" env w ctx] pre unfolding split by (metis prod.collapse)
  show ?thesis
    using main [OF lookup_replay.replay_neutral_axioms] main [OF lookup_id_replay.replay_neutral_axioms]
    by (cases req) (simp_all add: handle_inbound_envelope_def inbound_pipeline_def handle_inbound_rtc_def
        rtc_inbound_pipeline_def fin req_now_def)
qed

lemma handle_request_known:
  assumes "rc_wf (iw_replay w)"
  shows "rc_wf (iw_replay (fst (handle_request req w)))"
    and "rc_window (iw_replay (fst (handle_request req w))) = rc_window (iw_replay w)"
    and "rc_known (iw_replay w) k t \<Longrightarrow> req_now req \<le> t \<Longrightarrow> rc_known (iw_replay (fst (handle_request req w))) k t"
proof -
  have known: "rc_known (snd (rc_check now j c)) k t" if "rc_wf c" "rc_known c k t" "now \<le> t" for now j c
    using that replay.known_earlier [of c k t now] by (auto simp: rc_known_check)
  show "rc_wf (iw_replay (fst (handle_request req w)))"
    using handle_request_replay [of req w] rc_wf_check [OF assms] assms by auto
  show "rc_window (iw_replay (fst (handle_request req w))) = rc_window (iw_replay w)"
    using handle_request_replay [of req w] rc_check_window by auto
  show "rc_known (iw_replay (fst (handle_request req w))) k t" if "rc_known (iw_replay w) k t" "req_now req \<le> t"
    using handle_request_replay [of req w] known [OF assms that] that(1) by auto
qed

lemma served_not_known:
  assumes "rc_wf (iw_replay w)" "sorted (map req_now reqs)" "(req, ev) \<in> set (snd (serve reqs w))"
  shows "\<not> rc_known (iw_replay w) (fe_msg_id ev) (req_now req)" "req \<in> set reqs"
    "\<exists>v d i. validated (req_env req) v (req_raw req) (req_transport req) d i ev"
proof -
  have "\<not> rc_known (iw_replay w) (fe_msg_id ev) (req_now req) \<and> req \<in> set reqs
    \<and> (\<exists>v d i. validated (req_env req) v (req_raw req) (req_transport req) d i ev)"
    using assms
  proof (induction reqs arbitrary: w)
    case (Cons q reqs)
    let ?w = "fst (handle_request q w)"
    show ?case
    proof (cases "(req, ev) \<in> set (snd (serve reqs ?w))")
      case True
      have wf: "rc_wf (iw_replay ?w)" by (rule handle_request_known(1) [OF Cons.prems(1)])
      have so: "sorted (map req_now reqs)" using Cons.prems(2) by simp
      note IH = Cons.IH [OF wf so True]
      then have "req_now q \<le> req_now req" using Cons.prems(2) by simp
      with IH handle_request_known(3) [OF Cons.prems(1)] show ?thesis by auto
    next
      case False
      with Cons.prems(3) have q: "req = q" "iw_dispatched ?w \<noteq> iw_dispatched w" "ev = last (iw_dispatched ?w)"
        by (auto simp: Let_def split: if_splits)
      from handle_request_dispatch [OF q(2)] q(3) obtain d i where
        v: "validated (req_env q) w (req_raw q) (req_transport q) d i ev" by auto
      then have "\<not> fst (rc_check (req_now q) (fe_msg_id ev) (iw_replay w))" unfolding req_now_def by (rule validatedD(1))
      with v q(1) rc_check_fresh [OF Cons.prems(1)] show ?thesis by auto
    qed
  qed simp
  then show "\<not> rc_known (iw_replay w) (fe_msg_id ev) (req_now req)" "req \<in> set reqs"
    "\<exists>v d i. validated (req_env req) v (req_raw req) (req_transport req) d i ev" by auto
qed

lemma serve_once:
  assumes "rc_wf (iw_replay w)" "sorted (map req_now reqs)"
  shows "sorted_wrt (\<lambda>(a, ev) (b, ev'). fe_msg_id ev = fe_msg_id ev' \<longrightarrow> req_now a + rc_window (iw_replay w) < req_now b)
    (snd (serve reqs w))"
  using assms
proof (induction reqs arbitrary: w)
  case (Cons q reqs)
  let ?w = "fst (handle_request q w)"
  have wf: "rc_wf (iw_replay ?w)" by (rule handle_request_known(1) [OF Cons.prems(1)])
  have so: "sorted (map req_now reqs)" using Cons.prems(2) by simp
  have IH: "sorted_wrt (\<lambda>(a, ev) (b, ev'). fe_msg_id ev = fe_msg_id ev' \<longrightarrow> req_now a + rc_window (iw_replay w) < req_now b)
      (snd (serve reqs ?w))"
    using Cons.IH [OF wf so] handle_request_known(2) [OF Cons.prems(1)] by simp
  show ?case
  proof (cases "iw_dispatched ?w = iw_dispatched w")
    case True
    with IH show ?thesis by (simp add: Let_def)
  next
    case False
    from handle_request_dispatch [OF False] obtain d i ev where
      ev: "iw_dispatched ?w = iw_dispatched w @ [ev]" "validated (req_env q) w (req_raw q) (req_transport q) d i ev"
        "iw_replay ?w = snd (rc_check (req_now q) (fe_msg_id ev) (iw_replay w))" by auto
    have "\<not> rc_known (iw_replay w) (fe_msg_id ev) (req_now q)"
      using validatedD(1) [OF ev(2)] rc_check_fresh [OF Cons.prems(1)] by (simp add: req_now_def)
    then have known: "rc_known (iw_replay ?w) (fe_msg_id ev) t \<longleftrightarrow> t \<le> req_now q + rc_window (iw_replay w)" for t
      unfolding ev(3) by (simp add: rc_known_check [OF Cons.prems(1)])
    have "req_now q + rc_window (iw_replay w) < req_now b"
      if "(b, ev') \<in> set (snd (serve reqs ?w))" "fe_msg_id ev = fe_msg_id ev'" for b ev'
      using served_not_known(1) [OF wf so that(1)] known [of "req_now b"] that(2) by auto
    with IH False ev(1) show ?thesis by (auto simp: Let_def)
  qed
qed simp

section \<open>Properties\<close>

text \<open>
  C3. Once per retention.  Through any sequence of inbox, DataChannel and relay calls in clock order,
  whatever their environments and outcomes, two dispatched events with one \<open>msg_id\<close> are always further
  apart than the replay window.
\<close>

theorem dispatch_once_per_window:
  assumes "rc_wf (iw_replay w)" "sorted (map req_now reqs)"
  shows "sorted_wrt (\<lambda>(a, ev) (b, ev'). fe_msg_id ev = fe_msg_id ev' \<longrightarrow> req_now a + rc_window (iw_replay w) < req_now b)
    (snd (serve reqs w))"
  by (rule serve_once [OF assms])

text \<open>
  Exactly when one envelope could be dispatched twice.  With the production window, a steady clock
  per call and one ISO parser, two dispatched events that carry the same \<open>msg_id\<close> and the same signed
  timestamp are possible only over the relay, and only if the timestamp lay more than 3300 seconds in
  the future when the first was accepted.
\<close>

theorem second_dispatch_needs_future_timestamp:
  assumes "iw_replay w = \<lparr>rc_window = replay_cache_window, rc_seen = seen\<rparr>" "distinct (map fst seen)"
    and "sorted (map req_now reqs)"
    and "\<forall>req \<in> set reqs. ie_now_skew (req_env req) = req_now req \<and> ie_fromiso (req_env req) = fromiso"
    and "snd (serve reqs w) = pre @ (a, ev) # mid @ (b, ev') # post"
    and "fe_msg_id ev = fe_msg_id ev'" "fe_timestamp ev = fe_timestamp ev'" "fromiso (fe_timestamp ev) = Some (Aware t)"
  shows "t > req_now a + 3300 \<and> req_transport b = transport_gfs_relay"
proof -
  have wf: "rc_wf (iw_replay w)" using assms(1,2) by (simp add: rc_wf_def)
  have far: "req_now a + replay_cache_window < req_now b"
    using serve_once [OF wf assms(3)] assms(1,6) unfolding assms(5) by (auto simp: sorted_wrt_append)
  have "(b, ev') \<in> set (snd (serve reqs w))" "(a, ev) \<in> set (snd (serve reqs w))" by (simp_all add: assms(5))
  note b = served_not_known [OF wf assms(3) this(1)] and a = served_not_known [OF wf assms(3) this(2)]
  from b(3) obtain v d i where "validated (req_env b) v (req_raw b) (req_transport b) d i ev'" by blast
  from validatedD(2) [OF this] assms(4,7,8) b(2) have skew_b:
    "\<bar>req_now b - t\<bar> \<le> (if req_transport b = transport_gfs_relay then relay_timestamp_skew_seconds else timestamp_skew_seconds)"
    by auto
  from a(3) obtain v d i where "validated (req_env a) v (req_raw a) (req_transport a) d i ev" by blast
  from validatedD(2) [OF this] assms(4,8) a(2) have skew_a:
    "\<bar>req_now a - t\<bar> \<le> (if req_transport a = transport_gfs_relay then relay_timestamp_skew_seconds else timestamp_skew_seconds)"
    by auto
  show ?thesis
    using far skew_a skew_b
    by (auto simp: replay_cache_window_def relay_timestamp_skew_seconds_def relay_queue_ttl_seconds_def
        timestamp_skew_seconds_def split: if_splits)
qed

definition relayed_once :: inbound_world where
  "relayed_once = demo_world\<lparr>iw_replay := \<lparr>rc_window = replay_cache_window, rc_seen = [(''m1'', Aware 0)]\<rparr>,
      iw_next_oid := Suc (iw_next_oid demo_world), iw_replay_rows := iw_replay_rows demo_world @ [''m1''],
      iw_dispatched := iw_dispatched demo_world @ [demo_event (iw_next_oid demo_world)]\<rparr>"

definition relayed_twice :: inbound_world where
  "relayed_twice = relayed_once\<lparr>iw_replay := \<lparr>rc_window = replay_cache_window, rc_seen = [(''m1'', Aware 90001)]\<rparr>,
      iw_next_oid := Suc (iw_next_oid relayed_once), iw_replay_rows := iw_replay_rows relayed_once @ [''m1''],
      iw_dispatched := iw_dispatched relayed_once @ [demo_event (iw_next_oid relayed_once)]\<rparr>"

lemma relay_first:
  "handle_inbound_rtc (demo_env 0 86700) demo_world ''peer'' ''E'' transport_gfs_relay = (relayed_once, Inr accepted_response)"
  unfolding relayed_once_def
  by (rule demo_dispatch(1) [OF _ demo_fresh])
    (simp_all add: relay_timestamp_skew_seconds_def relay_queue_ttl_seconds_def timestamp_skew_seconds_def demo_world_def)

lemma relay_second:
  "handle_inbound_rtc (demo_env 90001 86700) relayed_once ''peer'' ''E'' transport_gfs_relay = (relayed_twice, Inr accepted_response)"
  unfolding relayed_twice_def
proof (rule demo_dispatch(1))
  show "rc_check 90001 ''m1'' (iw_replay relayed_once) = (False, \<lparr>rc_window = replay_cache_window, rc_seen = [(''m1'', Aware 90001)]\<rparr>)"
    by (simp add: relayed_once_def rc_check_def rc_prune_def Let_def replay_cache_window_def)
qed (simp_all add: relay_timestamp_skew_seconds_def relay_queue_ttl_seconds_def timestamp_skew_seconds_def relayed_once_def demo_world_def)

lemma relayed_events:
  "iw_dispatched demo_world = []" "iw_dispatched relayed_once = [demo_event 0]"
  "iw_dispatched relayed_twice = [demo_event 0, demo_event 1]"
  by (simp_all add: relayed_once_def relayed_twice_def demo_world_def)

lemma demo_event_fields [simp]: "fe_msg_id (demo_event n) = ''m1''" "fe_timestamp (demo_event n) = ''T''"
  by (simp_all add: demo_event_def)

lemma demo_env_fields [simp]:
  "ie_now_replay (demo_env now ts) = now" "ie_now_skew (demo_env now ts) = now"
  "ie_fromiso (demo_env now ts) s = (if s = ''T'' then Some (Aware ts) else None)"
  by (simp_all add: demo_env_def)

text \<open>
  The replay gap is real.  The same relay-carried bytes, dated 24 hours and 5 minutes ahead, are
  dispatched once on arrival and dispatched again 25 hours and a second later: the accepted future skew
  outlasts the replay memory.
\<close>

theorem future_dated_envelope_dispatched_twice:
  "\<exists>env env' w1 w2. ie_crypto env' = ie_crypto env \<and> ie_now_replay env' = ie_now_replay env + 90001
     \<and> handle_inbound_rtc env demo_world ''peer'' ''E'' transport_gfs_relay = (w1, Inr accepted_response)
     \<and> handle_inbound_rtc env' w1 ''peer'' ''E'' transport_gfs_relay = (w2, Inr accepted_response)
     \<and> map fe_msg_id (iw_dispatched w2) = [''m1'', ''m1'']"
proof -
  have "ie_crypto (demo_env 90001 86700) = ie_crypto (demo_env 0 86700)" by (simp add: demo_env_def)
  moreover have "ie_now_replay (demo_env 90001 86700) = ie_now_replay (demo_env 0 86700) + 90001" by simp
  moreover have "map fe_msg_id (iw_dispatched relayed_twice) = [''m1'', ''m1'']" by (simp add: relayed_events)
  ultimately show ?thesis
    by (intro exI [of _ "demo_env 0 86700"] exI [of _ "demo_env 90001 86700"] exI [of _ relayed_once] exI [of _ relayed_twice]
        conjI relay_first relay_second)
qed

theorem second_dispatch_needs_future_timestamp_witness:
  "(86700::int) > 0 + 3300 \<and> req_transport (Via_rtc (demo_env 90001 86700) ''peer'' ''E'' transport_gfs_relay) = transport_gfs_relay"
proof -
  let ?a = "Via_rtc (demo_env 0 86700) ''peer'' ''E'' transport_gfs_relay"
  let ?b = "Via_rtc (demo_env 90001 86700) ''peer'' ''E'' transport_gfs_relay"
  have run: "snd (serve [?a, ?b] demo_world) = [] @ (?a, demo_event 0) # [] @ (?b, demo_event 1) # []"
    by (simp add: relay_first relay_second Let_def relayed_events)
  have same: "ie_fromiso (demo_env now 86700) = (\<lambda>s. if s = ''T'' then Some (Aware 86700) else None)" for now
    by (simp add: demo_env_def)
  have "86700 > req_now ?a + 3300 \<and> req_transport ?b = transport_gfs_relay"
    by (rule second_dispatch_needs_future_timestamp [where seen = "[]" and fromiso = "\<lambda>s. if s = ''T'' then Some (Aware 86700) else None",
          OF _ _ _ _ run])
      (simp_all add: demo_world_def rc_new_def req_now_def same)
  then show ?thesis by (simp add: req_now_def)
qed

definition demo_requests :: "inbound_request list" where
  "demo_requests = [Via_inbox (demo_env 0 0) ''ib'' ''E'', Via_rtc (demo_env 200 0) ''peer'' ''E'' []]"

lemma demo_serve: "snd (serve demo_requests demo_world) = [(Via_inbox (demo_env 0 0) ''ib'' ''E'', demo_event 0)]"
proof -
  let ?w1 = "demo_world\<lparr>iw_replay := \<lparr>rc_window = replay_cache_window, rc_seen = [(''m1'', Aware 0)]\<rparr>,
      iw_next_oid := Suc (iw_next_oid demo_world), iw_replay_rows := iw_replay_rows demo_world @ [''m1''],
      iw_dispatched := iw_dispatched demo_world @ [demo_event (iw_next_oid demo_world)]\<rparr>"
  have first: "handle_inbound_envelope (demo_env 0 0) demo_world ''ib'' ''E'' = (?w1, Inr accepted_response)"
    by (rule demo_dispatch(2) [where tr = "[]", OF _ demo_fresh])
      (simp_all add: timestamp_skew_seconds_def transport_gfs_relay_def demo_world_def)
  have again: "iw_dispatched (fst (handle_inbound_rtc (demo_env 200 0) ?w1 ''peer'' ''E'' [])) = iw_dispatched ?w1"
  proof (rule ccontr)
    assume n: "iw_dispatched (fst (handle_inbound_rtc (demo_env 200 0) ?w1 ''peer'' ''E'' [])) \<noteq> iw_dispatched ?w1"
    with handle_request_dispatch [of "Via_rtc (demo_env 200 0) ''peer'' ''E'' []" ?w1] obtain d i ev where
      v: "validated (demo_env 200 0) ?w1 ''E'' [] d i ev" by auto
    then have "d = demo_envelope" by (simp add: validated_def) (simp add: demo_env_def)
    with v have "fe_msg_id ev = ''m1''" by (simp add: validated_def demo_fields)
    with validatedD(1) [OF v] show False
      by (simp add: rc_check_def rc_prune_def Let_def replay_cache_window_def)
  qed
  show ?thesis by (simp add: demo_requests_def first again Let_def, simp add: demo_world_def)
qed

theorem dispatch_once_per_window_witness:
  "snd (serve demo_requests demo_world) = [(Via_inbox (demo_env 0 0) ''ib'' ''E'', demo_event 0)]
   \<and> sorted_wrt (\<lambda>(a, ev) (b, ev'). fe_msg_id ev = fe_msg_id ev' \<longrightarrow> req_now a + rc_window (iw_replay demo_world) < req_now b)
       (snd (serve demo_requests demo_world))"
  by (rule conjI [OF demo_serve], rule dispatch_once_per_window)
    (simp_all add: demo_world_def rc_new_def rc_wf_def demo_requests_def req_now_def demo_env_def)

end
