(* ===== verification/Inbound_Errors.thy ===== *)
theory Inbound_Errors
  imports Inbound_Runs
begin

text \<open>
  Exceptions that leave the inbound pipeline, what a signature suite demands, agreement of the gated
  space with the space the handlers resolve, and the gates of a held event's replay.
\<close>

section \<open>Which exceptions leave the pipeline\<close>

lemma run_steps_error:
  assumes "run_steps steps env w ctx = (w', Inl e)" "I ctx"
    and "\<And>s v c v' c'. s \<in> set steps \<Longrightarrow> I c \<Longrightarrow> s env v c = (v', Inr c') \<Longrightarrow> ic_early_response c' = None \<Longrightarrow> I c'"
  shows "\<exists>s v c. s \<in> set steps \<and> I c \<and> s env v c = (w', Inl e)"
  using assms
proof (induction steps arbitrary: w ctx)
  case (Cons s steps)
  obtain w1 r1 where s: "s env w ctx = (w1, r1)" by fastforce
  show ?case
  proof (cases r1)
    case (Inl x)
    with s Cons.prems(1) have "s env w ctx = (w', Inl e)" by simp
    with Cons.prems(2) show ?thesis by (meson list.set_intros(1))
  next
    case (Inr c1)
    with s Cons.prems(1) have early: "ic_early_response c1 = None" and run: "run_steps steps env w1 c1 = (w', Inl e)"
      by (auto split: if_splits)
    have "I c1" using Cons.prems(3) [where s = s and v = w and c = ctx and v' = w1 and c' = c1] Cons.prems(2) s Inr early by simp
    have "\<exists>s v c. s \<in> set steps \<and> I c \<and> s env v c = (w', Inl e)"
    proof (rule Cons.IH [OF run \<open>I c1\<close>])
      fix q v c v' c'
      assume "q \<in> set steps" "I c" "q env v c = (v', Inr c')" "ic_early_response c' = None"
      then show "I c'" using Cons.prems(3) [where s = q and v = v and c = c and v' = v' and c' = c'] by simp
    qed
    then show ?thesis by (meson list.set_intros(2))
  qed
qed simp

definition non_object_body :: "inbound_env \<Rightarrow> string \<Rightarrow> bool" where
  "non_object_body env raw \<longleftrightarrow> (\<exists>v. pl_loads (ie_lib env) raw = Some v \<and> \<not> is_jobj v)"

definition naive_timestamp :: "inbound_env \<Rightarrow> string \<Rightarrow> bool" where
  "naive_timestamp env raw \<longleftrightarrow> (\<exists>d t. pl_loads (ie_lib env) raw = Some (JObj d)
     \<and> ie_fromiso env (env_str d ''timestamp'') = Some (Naive t))"

text \<open>
  Values the JSON encoder refuses although its parser takes them: among the signed fields of an envelope, or
  as the decrypted payload of a write that has to wait for a seat.
\<close>

definition unencodable_envelope :: "inbound_env \<Rightarrow> string \<Rightarrow> bool" where
  "unencodable_envelope env raw \<longleftrightarrow> (\<exists>d. pl_loads (ie_lib env) raw = Some (JObj d)
     \<and> cl_dumps (ie_crypto env) (signed_fields d) = None)"

definition payload_from :: "inbound_env \<Rightarrow> jobj \<Rightarrow> remote_instance \<Rightarrow> json \<Rightarrow> bool" where
  "payload_from env d i p \<longleftrightarrow> (\<exists>key plain. cl_session_key (ie_crypto env) (ri_key_remote_to_self i) = Some key
     \<and> cl_decrypt (ie_crypto env) (env_str d ''encrypted_payload'') key = Some plain
     \<and> pl_loads (ie_lib env) plain = Some p)"

definition unencodable_payload :: "inbound_env \<Rightarrow> string \<Rightarrow> string \<Rightarrow> bool" where
  "unencodable_payload env inbox_id raw \<longleftrightarrow> (\<exists>d i p. pl_loads (ie_lib env) raw = Some (JObj d)
     \<and> ie_by_inbox env inbox_id = Inr (Some i) \<and> payload_from env d i p
     \<and> ie_dumps_len env (if truthy p then p else JObj []) = None)"

lemma parse_error:
  "parse_json env w ctx = (w', Inl e) \<Longrightarrow> is_value_error e \<or> e = PyTypeError \<and> non_object_body env (ic_raw_body ctx)"
  by (auto simp: parse_json_def non_object_body_def split: option.splits json.splits if_splits)

text \<open>The repositories that are not guarded by the steps answer without raising.\<close>

definition repos_answer :: "inbound_env \<Rightarrow> bool" where
  "repos_answer env \<longleftrightarrow> (\<forall>x. \<exists>y. ie_by_inbox env x = Inr y) \<and> (\<forall>x y. \<exists>z. ie_banned env x y = Inr z)
     \<and> (\<forall>x. ie_insert_replay env x = Inr ())"

lemma first_banned_answers:
  assumes "\<forall>x y. \<exists>z. banned x y = Inr z"
  shows "\<exists>b. first_banned banned iid spaces = Inr b"
proof (induction spaces)
  case (Cons sp spaces)
  then obtain b where "first_banned banned iid spaces = Inr b" by blast
  moreover from assms obtain z where "banned sp iid = Inr z" by blast
  ultimately have "first_banned banned iid (sp # spaces) = Inr (z \<or> b)" by simp
  then show ?case by blast
next
  case Nil
  have "first_banned banned iid [] = Inr False" by simp
  then show ?case by blast
qed

lemma writer_error:
  assumes "check_space_writer env w c = (w', Inl e)"
  shows "\<exists>ev. ic_event c = Some ev \<and> e = PyTypeError
    \<and> ie_dumps_len env (if truthy (fe_payload ev) then fe_payload ev else JObj []) = None"
  using assms
  by (auto simp: check_space_writer_def ps_hold_def Let_def case_prod_beta split: option.splits if_splits sum.splits bool.splits)

lemma step_errors:
  assumes "repos_answer env" "ic_envelope c = d" "ic_instance c \<noteq> None"
  shows "check_peer_class env v c = (w', Inl e) \<Longrightarrow> is_value_error e"
    and "check_relay_opt_in env v c = (w', Inl e) \<Longrightarrow> is_value_error e"
    and "check_timestamp env v c = (w', Inl e) \<Longrightarrow> is_value_error e \<or>
           e = PyTypeError \<and> (\<exists>t. ie_fromiso env (env_str d ''timestamp'') = Some (Naive t))"
    and "verify_signature env v c = (w', Inl e) \<Longrightarrow> is_value_error e \<or>
           e = PyTypeError \<and> cl_dumps (ie_crypto env) (signed_fields d) = None"
    and "check_unpairing env v c = (w', Inl e) \<Longrightarrow> is_value_error e"
    and "check_replay env v c = (w', Inl e) \<Longrightarrow> is_value_error e"
    and "decrypt_and_parse env v c = (w', Inl e) \<Longrightarrow> is_value_error e"
    and "confirm_relay_approval env v c \<noteq> (w', Inl e)"
    and "idempotency_check env v c \<noteq> (w', Inl e)"
    and "ban_check env v c \<noteq> (w', Inl e)"
    and "persist_replay env v c \<noteq> (w', Inl e)"
    and "check_deprovisioned_author env v c \<noteq> (w', Inl e)"
    and "check_space_archived env v c \<noteq> (w', Inl e)"
proof -
  from assms(3) obtain i where i: "ic_instance c = Some i" by blast
  show "check_peer_class env v c = (w', Inl e) \<Longrightarrow> is_value_error e"
    by (auto simp: check_peer_class_def i split: if_splits)
  show "check_relay_opt_in env v c = (w', Inl e) \<Longrightarrow> is_value_error e"
    by (auto simp: check_relay_opt_in_def i split: if_splits)
  show "check_timestamp env v c = (w', Inl e) \<Longrightarrow> is_value_error e \<or>
           e = PyTypeError \<and> (\<exists>t. ie_fromiso env (env_str d ''timestamp'') = Some (Naive t))"
    using assms(2) by (auto simp: check_timestamp_def res_bind_def Let_def split: option.splits sum.splits if_splits
        elim!: minus_aware.elims)
  show "verify_signature env v c = (w', Inl e) \<Longrightarrow> is_value_error e \<or>
           e = PyTypeError \<and> cl_dumps (ie_crypto env) (signed_fields d) = None"
    using assms(2) by (auto simp: verify_signature_def i Let_def split: option.splits sum.splits if_splits)
  show "check_unpairing env v c = (w', Inl e) \<Longrightarrow> is_value_error e"
    by (auto simp: check_unpairing_def i split: if_splits)
  show "check_replay env v c = (w', Inl e) \<Longrightarrow> is_value_error e"
    by (auto simp: check_replay_def split: prod.splits if_splits)
  show "decrypt_and_parse env v c = (w', Inl e) \<Longrightarrow> is_value_error e"
    by (auto simp: decrypt_and_parse_def i Let_def split: option.splits)
  show "confirm_relay_approval env v c \<noteq> (w', Inl e)"
    by (simp add: confirm_relay_approval_def i)
  show "idempotency_check env v c \<noteq> (w', Inl e)"
    by (auto simp: idempotency_check_def split: option.splits json.splits if_splits prod.splits)
  show "ban_check env v c \<noteq> (w', Inl e)"
    using first_banned_answers [of "ie_banned env" "env_str (ic_envelope c) ''from_instance''" "event_spaces (pl_str (ie_lib env)) c"]
      assms(1) by (auto simp: ban_check_def repos_answer_def)
  show "persist_replay env v c \<noteq> (w', Inl e)"
    using assms(1) by (auto simp: persist_replay_def repos_answer_def Let_def)
  show "check_deprovisioned_author env v c \<noteq> (w', Inl e)" by (simp add: check_deprovisioned_author_def)
  show "check_space_archived env v c \<noteq> (w', Inl e)"
    by (auto simp: check_space_archived_def Let_def split: option.splits if_splits sum.splits)
qed

lemma later_steps:
  "set (drop 2 (common_pipeline_steps env lookup)) \<subseteq> {check_peer_class, check_relay_opt_in, check_timestamp, verify_signature,
      check_unpairing, check_replay, decrypt_and_parse, confirm_relay_approval, idempotency_check, ban_check, persist_replay,
      check_deprovisioned_author, check_space_archived, check_space_writer}"
  by (auto simp: common_pipeline_steps_def post_decrypt_gate_steps_def)

definition is_gate :: "inbound_step \<Rightarrow> bool" where
  "is_gate s \<longleftrightarrow> (\<exists>ok. gate s ok)"

lemma is_gate_steps:
  "is_gate check_peer_class" "is_gate check_relay_opt_in" "is_gate check_timestamp" "is_gate verify_signature"
  "is_gate check_unpairing" "is_gate check_replay" "is_gate confirm_relay_approval" "is_gate idempotency_check"
  "is_gate ban_check" "is_gate persist_replay" "is_gate check_deprovisioned_author" "is_gate check_space_archived"
  "is_gate check_space_writer"
  unfolding is_gate_def
  by (rule exI, rule class_gate.gate_axioms relay_gate.gate_axioms time_gate.gate_axioms signature_gate.gate_axioms
      unpair_gate.gate_axioms replay_gate.gate_axioms confirm_gate.gate_axioms idempotency_gate.gate_axioms
      ban_gate.gate_axioms persist_gate.gate_axioms author_gate.gate_axioms archive_gate.gate_axioms writer_gate.gate_axioms)+

text \<open>The context once the household is found: its payload, when there is one, is the decrypted one.\<close>

definition filled :: "inbound_env \<Rightarrow> jobj \<Rightarrow> remote_instance \<Rightarrow> inbound_context \<Rightarrow> bool" where
  "filled env d i c \<longleftrightarrow> ic_envelope c = d \<and> ic_instance c = Some i
     \<and> (\<forall>ev. ic_event c = Some ev \<longrightarrow> payload_from env d i (fe_payload ev))"

lemma filled_kept:
  assumes "s \<in> set (drop 2 (common_pipeline_steps env lookup))" "filled env d i c" "s env v c = (v', Inr c')"
    "ic_early_response c' = None"
  shows "filled env d i c'"
proof -
  have "is_gate s \<or> s = decrypt_and_parse"
    using subsetD [OF later_steps assms(1)] is_gate_steps by (elim insertE emptyE) simp_all
  then show ?thesis
  proof
    assume "is_gate s"
    then obtain ok where "gate s ok" unfolding is_gate_def ..
    from gate.pass [OF this assms(3,4)] show ?thesis using assms(2) by simp
  next
    assume "s = decrypt_and_parse"
    with decrypt_fields assms(2,3) show ?thesis unfolding filled_def payload_from_def by fastforce
  qed
qed

definition expected :: "inbound_env \<Rightarrow> jobj \<Rightarrow> remote_instance \<Rightarrow> exn \<Rightarrow> bool" where
  "expected env d i e \<longleftrightarrow> is_value_error e \<or> e = PyTypeError \<and>
     ((\<exists>t. ie_fromiso env (env_str d ''timestamp'') = Some (Naive t))
      \<or> cl_dumps (ie_crypto env) (signed_fields d) = None
      \<or> (\<exists>p. payload_from env d i p \<and> ie_dumps_len env (if truthy p then p else JObj []) = None))"

definition errors_expected :: "inbound_env \<Rightarrow> jobj \<Rightarrow> remote_instance \<Rightarrow> inbound_step \<Rightarrow> bool" where
  "errors_expected env d i s \<longleftrightarrow> (\<forall>v c w' e. filled env d i c \<longrightarrow> s env v c = (w', Inl e) \<longrightarrow> expected env d i e)"

lemma errors_expectedI:
  "(\<And>v c w' e. filled env d i c \<Longrightarrow> ic_envelope c = d \<Longrightarrow> ic_instance c \<noteq> None \<Longrightarrow> s env v c = (w', Inl e) \<Longrightarrow> expected env d i e)
   \<Longrightarrow> errors_expected env d i s"
  unfolding errors_expected_def by (auto simp: filled_def)

lemma expected_value_error: "is_value_error e \<Longrightarrow> expected env d i e"
  by (simp add: expected_def)

lemma filled_error:
  assumes "repos_answer env" "s \<in> set (drop 2 (common_pipeline_steps env lookup))"
  shows "errors_expected env d i s"
proof -
  note e = step_errors [OF assms(1)]
  note v = errors_expectedI expected_value_error
  have "errors_expected env d i check_peer_class" by (rule v(1), rule v(2), rule e(1))
  moreover have "errors_expected env d i check_relay_opt_in" by (rule v(1), rule v(2), rule e(2))
  moreover have "errors_expected env d i check_timestamp" by (rule v(1)) (use e(3) in \<open>force simp: expected_def\<close>)
  moreover have "errors_expected env d i verify_signature" by (rule v(1)) (use e(4) in \<open>force simp: expected_def\<close>)
  moreover have "errors_expected env d i check_unpairing" by (rule v(1), rule v(2), rule e(5))
  moreover have "errors_expected env d i check_replay" by (rule v(1), rule v(2), rule e(6))
  moreover have "errors_expected env d i decrypt_and_parse" by (rule v(1), rule v(2), rule e(7))
  moreover have "errors_expected env d i confirm_relay_approval" by (rule v(1)) (simp add: e(8))
  moreover have "errors_expected env d i idempotency_check" by (rule v(1)) (simp add: e(9))
  moreover have "errors_expected env d i ban_check" by (rule v(1)) (simp add: e(10))
  moreover have "errors_expected env d i persist_replay" by (rule v(1)) (simp add: e(11))
  moreover have "errors_expected env d i check_deprovisioned_author" by (rule v(1)) (simp add: e(12))
  moreover have "errors_expected env d i check_space_archived" by (rule v(1)) (simp add: e(13))
  moreover have "errors_expected env d i check_space_writer"
    by (rule v(1)) (auto simp: expected_def filled_def dest!: writer_error)
  ultimately show ?thesis
    using subsetD [OF later_steps assms(2)] by (elim insertE emptyE) simp_all
qed

text \<open>
  C22. What the inbox route has to expect.  When the repositories answer, every exception of an inbox
  call is a \<open>ValueError\<close> (the 4xx answers), with four exceptions, which raise \<open>TypeError\<close>: a body that
  decodes to something that is no JSON object, a timestamp without a UTC offset, signed fields the JSON
  encoder refuses, and a decrypted payload it refuses when the write has to wait for a seat.
\<close>

theorem inbox_error_kinds:
  assumes "repos_answer env" "handle_inbound_envelope env w inbox_id raw_body = (w', Inl e)"
  shows "is_value_error e \<or> e = PyTypeError \<and>
    (non_object_body env raw_body \<or> naive_timestamp env raw_body
     \<or> unencodable_envelope env raw_body \<or> unencodable_payload env inbox_id raw_body)"
proof -
  let ?ctx = "new_context raw_body inbox_id [] []"
  let ?rest = "drop 2 (common_pipeline_steps env lookup_instance)"
  have "run_steps (inbound_pipeline env) env w ?ctx = (w', Inl e)"
    using assms(2) by (auto simp: handle_inbound_envelope_def run_and_dispatch_def pipeline_run_def
        split: prod.splits sum.splits if_splits option.splits)
  then have run: "run_steps (parse_json # lookup_instance # ?rest) env w ?ctx = (w', Inl e)"
    by (simp add: inbound_pipeline_def common_pipeline_steps_def)
  obtain w1 r1 where p: "parse_json env w ?ctx = (w1, r1)" by fastforce
  show ?thesis
  proof (cases r1)
    case (Inl x)
    with p run have "parse_json env w ?ctx = (w', Inl e)" by simp
    from parse_error [OF this] show ?thesis by auto
  next
    case (Inr c1)
    from parse_pass [OF p [unfolded Inr]] obtain d where d: "c1 = ?ctx\<lparr>ic_envelope := d\<rparr>" "w1 = w"
      "pl_loads (ie_lib env) raw_body = Some (JObj d)" by auto
    have run1: "run_steps (lookup_instance # ?rest) env w c1 = (w', Inl e)"
      using run p Inr d by simp
    obtain y where y: "ie_by_inbox env inbox_id = Inr y" using assms(1) unfolding repos_answer_def by blast
    show ?thesis
    proof (cases "y = None \<or> (\<exists>i. y = Some i \<and> ri_remote_identity_pk i = [])")
      case True
      then have "lookup_instance env w c1 = (w, Inl ValueError)" by (auto simp: lookup_instance_def d(1) y)
      with run1 show ?thesis by simp
    next
      case False
      then obtain i where i: "y = Some i" "ri_remote_identity_pk i \<noteq> []" by (cases y) auto
      then have "lookup_instance env w c1 = (w, Inr (c1\<lparr>ic_instance := Some i\<rparr>))"
        by (simp add: lookup_instance_def d(1) y)
      then have run2: "run_steps ?rest env w (c1\<lparr>ic_instance := Some i\<rparr>) = (w', Inl e)"
        using run1 by (simp add: d(1))
      have "filled env d i (c1\<lparr>ic_instance := Some i\<rparr>)" by (simp add: filled_def d(1) new_context_def)
      then have "\<exists>s v c. s \<in> set ?rest \<and> filled env d i c \<and> s env v c = (w', Inl e)"
        by (rule run_steps_error [OF run2]) (rule filled_kept)
      then obtain s v c where "s \<in> set ?rest" "filled env d i c" "s env v c = (w', Inl e)" by blast
      with filled_error [OF assms(1), of s lookup_instance d i] have "expected env d i e"
        unfolding errors_expected_def by blast
      with d(3) i(1) y show ?thesis
        unfolding expected_def naive_timestamp_def unencodable_envelope_def unencodable_payload_def by blast
    qed
  qed
qed

text \<open>
  An unauthenticated peer reaches those exceptions.  A scalar body raises \<open>TypeError\<close> for every
  caller; a well-formed envelope with a timestamp that has no offset raises it as soon as the inbox id is
  that of an ordinary household, before any signature is looked at and without touching any state.
\<close>

theorem type_error_before_signature:
  assumes "parse_json env w (new_context raw_body inbox_id [] []) = (w, Inr ((new_context raw_body inbox_id [] [])\<lparr>ic_envelope := d\<rparr>))"
    and "ie_by_inbox env inbox_id = Inr (Some i)" "ri_remote_identity_pk i \<noteq> []" "ri_source i = MANUAL"
    and "ie_fromiso env (env_str d ''timestamp'') = Some (Naive t)"
    and "pl_loads (ie_lib env) scalar_body = Some v" "v \<in> {JNull, JBool b, JNum n}"
  shows "handle_inbound_envelope env w inbox_id raw_body = (w, Inl PyTypeError)
    \<and> handle_inbound_envelope env w any_inbox scalar_body = (w, Inl PyTypeError)"
proof
  show "handle_inbound_envelope env w inbox_id raw_body = (w, Inl PyTypeError)"
    using assms(1-5)
    by (simp add: handle_inbound_envelope_def inbound_pipeline_def run_and_dispatch_def pipeline_run_def common_split
        lookup_instance_def check_peer_class_def check_relay_opt_in_def check_timestamp_def transport_gfs_relay_def Let_def)
  show "handle_inbound_envelope env w any_inbox scalar_body = (w, Inl PyTypeError)"
    using assms(6,7)
    by (auto simp: handle_inbound_envelope_def inbound_pipeline_def run_and_dispatch_def pipeline_run_def common_split
        parse_json_def)
qed

text \<open>
  So does anybody who can name a household's inbox and its id: signed fields the encoder refuses raise before
  the signature is looked at.
\<close>

lemma unencodable_before_signature:
  assumes "parse_json env w (new_context raw_body inbox_id [] []) = (w, Inr ((new_context raw_body inbox_id [] [])\<lparr>ic_envelope := d\<rparr>))"
    and "ie_by_inbox env inbox_id = Inr (Some i)" "ri_remote_identity_pk i \<noteq> []" "ri_source i = MANUAL"
    and "ie_fromiso env (env_str d ''timestamp'') = Some (Aware (ie_now_skew env))"
    and "env_str d ''from_instance'' = ri_id i" "cl_fromhex (ie_crypto env) (ri_remote_identity_pk i) = Some pk"
    and "cl_dumps (ie_crypto env) (signed_fields d) = None"
  shows "handle_inbound_envelope env w inbox_id raw_body = (w, Inl PyTypeError)"
  using assms
  by (simp add: handle_inbound_envelope_def inbound_pipeline_def run_and_dispatch_def pipeline_run_def common_split
      lookup_instance_def check_peer_class_def check_relay_opt_in_def check_timestamp_def transport_gfs_relay_def Let_def
      verify_signature_def timestamp_skew_seconds_def)

definition naive_env :: inbound_env where
  "naive_env = (demo_env 0 0)\<lparr>ie_fromiso := \<lambda>_. Some (Naive 0),
     ie_lib := \<lparr>pl_str = \<lambda>_. ''?'', pl_int_of_str = \<lambda>_. None,
       pl_loads = \<lambda>s. if s = ''E'' then Some (JObj demo_envelope) else if s = ''5'' then Some (JNum 5) else None\<rparr>\<rparr>"

lemma naive_parse:
  "parse_json naive_env demo_world (new_context ''E'' ''ib'' [] [])
     = (demo_world, Inr ((new_context ''E'' ''ib'' [] [])\<lparr>ic_envelope := demo_envelope\<rparr>))"
  by (simp add: parse_json_def naive_env_def)
    (simp add: demo_envelope_def required_fields_def string_fields_def jget_def env_str_def pairing_intro_known)

theorem type_error_before_signature_witness:
  "handle_inbound_envelope naive_env demo_world ''ib'' ''E'' = (demo_world, Inl PyTypeError)
   \<and> handle_inbound_envelope naive_env demo_world ''nobody'' ''5'' = (demo_world, Inl PyTypeError)"
  by (rule type_error_before_signature [OF naive_parse, where v = "JNum 5" and n = 5 and t = 0 and i = demo_peer])
    (simp_all add: naive_env_def demo_env_def demo_peer_def)

theorem inbox_error_kinds_witness:
  "handle_inbound_envelope naive_env demo_world ''nobody'' ''5'' = (demo_world, Inl PyTypeError)
   \<and> (is_value_error PyTypeError \<or> PyTypeError = PyTypeError \<and> (non_object_body naive_env ''5'' \<or> naive_timestamp naive_env ''5''
        \<or> unencodable_envelope naive_env ''5'' \<or> unencodable_payload naive_env ''nobody'' ''5''))"
proof
  show run: "handle_inbound_envelope naive_env demo_world ''nobody'' ''5'' = (demo_world, Inl PyTypeError)"
    by (simp add: handle_inbound_envelope_def inbound_pipeline_def run_and_dispatch_def pipeline_run_def common_split
        parse_json_def naive_env_def)
  have "\<exists>b. (Inr b :: exn + bool) = Inr False" by (rule exI [of _ False]) simp
  then have "repos_answer naive_env" by (auto simp: repos_answer_def naive_env_def demo_env_def)
  from inbox_error_kinds [OF this run]
  show "is_value_error PyTypeError \<or> PyTypeError = PyTypeError \<and> (non_object_body naive_env ''5'' \<or> naive_timestamp naive_env ''5''
        \<or> unencodable_envelope naive_env ''5'' \<or> unencodable_payload naive_env ''nobody'' ''5'')" .
qed

section \<open>Signature suites\<close>

lemma hybrid_suite: "parse_suite ''ed25519+mldsa65'' = Some [''ed25519'', ''mldsa65'']" "parse_suite ''ed25519'' = Some [''ed25519'']"
  by (simp_all add: parse_suite_def)

text \<open>
  What a suite demands.  The classical suite needs exactly one Ed25519 signature, the hybrid suite
  both; but the suite is the one the envelope names, so a peer paired with the hybrid suite is still
  believed on an Ed25519 signature alone.
\<close>

theorem suite_is_the_senders_choice:
  shows "(verify_signatures_all cl msg ''ed25519'' sigs pk pq \<longleftrightarrow>
      fst ` set sigs = {''ed25519''} \<and> (\<exists>s. cl_b64 cl (jget sigs ''ed25519'') = Some s \<and> cl_ed cl pk msg s))
    \<and> (verify_signatures_all cl msg ''ed25519+mldsa65'' sigs pk (Some pqk) \<longleftrightarrow>
      fst ` set sigs = {''ed25519'', ''mldsa65''} \<and> (\<exists>s. cl_b64 cl (jget sigs ''ed25519'') = Some s \<and> cl_ed cl pk msg s)
        \<and> (\<exists>s. cl_b64 cl (jget sigs ''mldsa65'') = Some s \<and> cl_pq cl pqk msg s))
    \<and> \<not> verify_signatures_all cl msg ''ed25519+mldsa65'' sigs pk None
    \<and> (authentic env (i\<lparr>ri_sig_suite := suite\<rparr>) d \<longleftrightarrow> authentic env i d)"
proof (intro conjI)
  show "authentic env (i\<lparr>ri_sig_suite := suite\<rparr>) d \<longleftrightarrow> authentic env i d" by (simp add: authentic_def)
qed (auto simp: verify_signatures_all_def hybrid_suite split: option.splits)

section \<open>The space of an event\<close>

text \<open>
  One space per event.  Whenever the content handlers resolve a space for an event, it is the very
  space the archive and writer gates judged, and the ban check has asked about it; rendering a truthy
  JSON value as a string never gives the empty string.
\<close>

theorem resolved_space_was_gated:
  assumes "resolve_space_id py_str ev = Inr (Some sp)" "\<forall>v. truthy v \<longrightarrow> json_str py_str v \<noteq> []"
    and "ic_event ctx = Some ev" "jget (ic_envelope ctx) ''space_id'' = fe_space_id ev"
  shows "gated_space py_str ev = sp \<and> sp \<noteq> [] \<and> sp \<in> set (event_spaces py_str ctx)"
proof -
  obtain p where p: "(if truthy (fe_payload ev) then fe_payload ev else JObj []) = JObj p"
    using assms(1) by (auto simp: resolve_space_id_def Let_def split: json.splits)
  have empty: "jget p' k = JNull" if "fe_payload ev = JObj p'" "\<not> truthy (fe_payload ev)" for p' k using that by simp
  have payload: "jget (payload_obj ev) ''space_id'' = jget p ''space_id''"
    using p by (auto simp: payload_obj_def split: if_splits json.splits)
  note res = assms(1) [unfolded resolve_space_id_def Let_def p]
  show ?thesis
  proof (cases "truthy (fe_space_id ev)")
    case True
    then have s: "sp = json_str py_str (fe_space_id ev)"
      using res assms(2) by (auto simp: str_or_empty_def split: if_splits)
    then have "sp \<in> set (event_spaces py_str ctx)"
      using event_spaces_cover [OF assms(3), of "fe_space_id ev" py_str] True assms(4) by simp
    with s True assms(2) show ?thesis by (simp add: gated_space_def str_or_empty_def)
  next
    case False
    then have t: "truthy (jget p ''space_id'')" and s: "sp = json_str py_str (jget p ''space_id'')"
      using res by (auto simp: str_or_empty_def split: if_splits)
    then have "sp \<in> set (event_spaces py_str ctx)"
      using event_spaces_cover [OF assms(3), of "jget p ''space_id''" py_str] payload by simp
    with s t False assms(2) payload show ?thesis by (simp add: gated_space_def str_or_empty_def)
  qed
qed

theorem resolved_space_was_gated_witness:
  "gated_space (\<lambda>_. ''?'') (example_write\<lparr>fe_payload := JObj [(''space_id'', JStr ''sp'')]\<rparr>) = ''sp'' \<and> ''sp'' \<noteq> []
   \<and> ''sp'' \<in> set (event_spaces (\<lambda>_. ''?'') ((new_context [] [] [] [])\<lparr>ic_envelope := [(''space_id'', JStr ''sp'')],
        ic_event := Some (example_write\<lparr>fe_payload := JObj [(''space_id'', JStr ''sp'')]\<rparr>)\<rparr>))"
  by (rule resolved_space_was_gated)
    (simp_all add: resolve_space_id_def example_write_def str_or_empty_def jget_def json_str_def split: json.split)

section \<open>Held events\<close>

lemma mesh_gates_pass:
  assumes "run_post_decrypt_gates (post_decrypt_gate_steps env True) env w ctx = (w', Inr True)" "ic_event ctx = Some ev"
  shows "not_banned env ctx \<and> (ie_has_user_repo env \<longrightarrow> author_active env ev) \<and> (ie_has_space_repo env \<longrightarrow> archive_allows env ev)
    \<and> (ie_has_space_repo env \<and> ie_has_seat_repo env \<longrightarrow> may_write env ev)"
proof -
  define S where "S = (if ie_has_space_repo env \<and> ie_has_seat_repo env then [check_space_writer] else [])"
  define A where "A = (if ie_has_space_repo env then [check_space_archived] else []) @ S"
  define U where "U = (if ie_has_user_repo env then [check_deprovisioned_author] else []) @ A"
  have s: "ie_has_space_repo env \<and> ie_has_seat_repo env \<longrightarrow> may_write env ev"
    if "run_post_decrypt_gates S env v ctx = (v', Inr True)" for v v'
    using that writer_gate.through_gates [of "[]" env v ctx v'] assms(2) by (auto simp: S_def split: if_splits)
  have a: "(ie_has_space_repo env \<longrightarrow> archive_allows env ev) \<and> (ie_has_space_repo env \<and> ie_has_seat_repo env \<longrightarrow> may_write env ev)"
    if "run_post_decrypt_gates A env v ctx = (v', Inr True)" for v v'
    using that archive_gate.through_gates [of S env v ctx v'] assms(2) s by (cases "ie_has_space_repo env") (auto simp: A_def)
  have u: "(ie_has_user_repo env \<longrightarrow> author_active env ev) \<and> (ie_has_space_repo env \<longrightarrow> archive_allows env ev)
      \<and> (ie_has_space_repo env \<and> ie_has_seat_repo env \<longrightarrow> may_write env ev)"
    if "run_post_decrypt_gates U env v ctx = (v', Inr True)" for v v'
    using that author_gate.through_gates [of A env v ctx v'] assms(2) a by (cases "ie_has_user_repo env") (auto simp: U_def)
  have "post_decrypt_gate_steps env True = ban_check # U"
    by (simp add: post_decrypt_gate_steps_def U_def A_def S_def)
  with assms(1) ban_gate.through_gates [of U env w ctx w'] u show ?thesis by auto
qed

text \<open>
  C21. A held write is judged again.  If replaying a held event dispatches, it dispatches that event, and
  with the rows as they are now no space it names bans its household, its author is active, the space is
  not archived against it and its household may write there: the same conditions a live event passes.
\<close>

theorem held_replay_is_gated:
  assumes "replay_held env w held = (w', r)" "iw_dispatched w' \<noteq> iw_dispatched w"
  shows "iw_dispatched w' = iw_dispatched w @ [held]
    \<and> (\<forall>v \<in> {fe_space_id held, jget (payload_obj held) ''space_id''}. truthy v \<longrightarrow>
          ie_banned env (json_str (pl_str (ie_lib env)) v) (fe_from_instance held) = Inr False)
    \<and> (ie_has_user_repo env \<longrightarrow> author_active env held) \<and> (ie_has_space_repo env \<longrightarrow> archive_allows env held)
    \<and> (ie_has_space_repo env \<and> ie_has_seat_repo env \<longrightarrow> may_write env held)"
proof -
  define space where "space = (if truthy (fe_space_id held) then fe_space_id held
     else if truthy (jget (payload_obj held) ''space_id'') then jget (payload_obj held) ''space_id'' else JNull)"
  define ctx where "ctx = (new_context [] [] [] [])\<lparr>ic_envelope := [(''space_id'', space), (''from_instance'', JStr (fe_from_instance held))],
                  ic_event := Some held\<rparr>"
  obtain v s where run: "run_post_decrypt_gates (post_decrypt_gate_steps env True) env w ctx = (v, s)" by fastforce
  have quiet: "iw_dispatched v' = iw_dispatched u"
    if "run_post_decrypt_gates steps env u c = (v', q)" "\<forall>s \<in> set steps. quiet_step s" for steps u c v' q
    using that
  proof (induction steps arbitrary: u c)
    case (Cons st steps)
    obtain u1 r1 where st: "st env u c = (u1, r1)" by fastforce
    have q: "quiet_step st" using Cons.prems(2) by simp
    with st quiet_step.quiet [OF q st] Cons show ?case by (cases r1) (auto split: if_splits)
  qed auto
  have d: "iw_dispatched v = iw_dispatched w"
    using quiet [OF run] post_gates_neutral by blast
  from assms run d have s: "s = Inr True" and w': "w' = dispatch_event held v"
    by (auto simp: replay_held_def Let_def space_def [symmetric] ctx_def [symmetric] split: sum.splits bool.splits)
  have ev: "ic_event ctx = Some held" by (simp add: ctx_def)
  note gates = mesh_gates_pass [OF run [unfolded s] ev]
  have "ie_banned env (json_str (pl_str (ie_lib env)) x) (fe_from_instance held) = Inr False"
    if x: "x \<in> {fe_space_id held, jget (payload_obj held) ''space_id''}" "truthy x" for x
  proof -
    have env_space: "jget (ic_envelope ctx) ''space_id'' = space" "env_str (ic_envelope ctx) ''from_instance'' = fe_from_instance held"
      by (simp_all add: ctx_def jget_def env_str_def)
    have "x \<in> {space, jget (payload_obj held) ''space_id''}" using x by (auto simp: space_def)
    with event_spaces_cover [OF ev, of x "pl_str (ie_lib env)"] x(2) env_space
    have "json_str (pl_str (ie_lib env)) x \<in> set (event_spaces (pl_str (ie_lib env)) ctx)" by simp
    with gates env_space show ?thesis by (simp add: not_banned_def)
  qed
  with gates w' d show ?thesis by (simp add: dispatch_event_def)
qed

theorem held_replay_is_gated_witness:
  "iw_dispatched (fst (replay_held (demo_env 0 0) demo_world example_write)) = [example_write]
   \<and> ie_banned (demo_env 0 0) ''sp'' ''peer'' = Inr False"
proof -
  have run: "replay_held (demo_env 0 0) demo_world example_write = (dispatch_event example_write demo_world, Inr ())"
    by (simp add: replay_held_def post_decrypt_gate_steps_def)
      (simp add: demo_env_def ban_check_def event_spaces_def example_write_def new_context_def Let_def jget_def env_str_def json_str_def)
  have "iw_dispatched (dispatch_event example_write demo_world) \<noteq> iw_dispatched demo_world"
    by (simp add: dispatch_event_def)
  from held_replay_is_gated [OF run this] run show ?thesis
    by (simp add: dispatch_event_def demo_world_def example_write_def)
qed

end
