(* ===== verification/Civil_Date.thy ===== *)
theory Civil_Date
  imports Prelude
begin

text \<open>
  The parts of Python's \<open>datetime.date\<close> the domain code uses.  A date is its proleptic Gregorian ordinal
  (\<open>date.toordinal()\<close>, 1 is 0001-01-01), so comparison and adding a \<open>timedelta\<close> of days are those of the
  integers; year, month and day, \<open>isoformat\<close> and \<open>fromisoformat\<close> are computed from it.
\<close>

type_synonym py_date = int

definition date_weekday :: "py_date \<Rightarrow> int" where
  "date_weekday d = (d + 6) mod 7"

definition is_leap :: "int \<Rightarrow> bool" where
  "is_leap y \<longleftrightarrow> y mod 4 = 0 \<and> (y mod 100 \<noteq> 0 \<or> y mod 400 = 0)"

definition days_before_year :: "int \<Rightarrow> int" where
  "days_before_year y = (y - 1) * 365 + (y - 1) div 4 - (y - 1) div 100 + (y - 1) div 400"

definition month_lengths :: "int \<Rightarrow> int list" where
  "month_lengths y = [31, if is_leap y then 29 else 28, 31, 30, 31, 30, 31, 31, 30, 31, 30, 31]"

fun split_months :: "int list \<Rightarrow> int \<Rightarrow> int \<Rightarrow> int \<times> int" where
  "split_months [] m n = (m, n)"
| "split_months (l # ls) m n = (if n \<le> l then (m, n) else split_months ls (m + 1) (n - l))"

text \<open>\<open>date(year, month, day).toordinal()\<close>; \<open>None\<close> is the \<open>ValueError\<close> of the constructor.\<close>

definition ymd_ord :: "int \<Rightarrow> int \<Rightarrow> int \<Rightarrow> py_date option" where
  "ymd_ord y m d =
     (if 1 \<le> y \<and> y \<le> 9999 \<and> 1 \<le> m \<and> m \<le> 12 \<and> 1 \<le> d \<and> d \<le> month_lengths y ! nat (m - 1)
      then Some (days_before_year y + sum_list (take (nat (m - 1)) (month_lengths y)) + d) else None)"

lemma div_pred: "(y :: int) div c = (y - 1) div c + (if y mod c = 0 then 1 else 0)" if "0 < c"
proof -
  have "y = c * (y div c) + y mod c" by simp
  then have "(y - 1) div c = (if y mod c = 0 then y div c - 1 else y div c)"
    using int_div_pos_eq [of "y - 1" c "y div c - 1" "c - 1"] int_div_pos_eq [of "y - 1" c "y div c" "y mod c - 1"]
      pos_mod_bound [OF that, of y] pos_mod_sign [OF that, of y] that
    by (cases "y mod c = 0") (simp_all add: algebra_simps, linarith?)
  then show ?thesis by simp
qed

lemma year_step: "days_before_year (y + 1) = days_before_year y + (if is_leap y then 366 else 365)"
proof -
  have c: "y mod 400 = 0 \<Longrightarrow> y mod 100 = 0" "y mod 100 = 0 \<Longrightarrow> y mod 4 = 0"
    using mod_mod_cancel [of 100 400 y] mod_mod_cancel [of 4 100 y] by simp_all
  have "days_before_year (y + 1) = days_before_year y + 365 + (if y mod 4 = 0 then 1 else 0)
      - (if y mod 100 = 0 then 1 else 0) + (if y mod 400 = 0 then 1 else 0)"
  proof -
    have gen: "a = a' + i \<Longrightarrow> b = b' + j \<Longrightarrow> c = c' + k
        \<Longrightarrow> (y + 1 - 1) * 365 + a - b + c = (y - 1) * 365 + a' - b' + c' + 365 + i - j + k" for a b c a' b' c' i j k :: int
      by simp
    show ?thesis unfolding days_before_year_def
      by (rule gen) (simp_all only: add_diff_cancel_right' div_pred [of 4 y] div_pred [of 100 y] div_pred [of 400 y] zero_less_numeral)
  qed
  with c show ?thesis by (cases "y mod 4 = 0"; cases "y mod 100 = 0"; cases "y mod 400 = 0") (simp_all add: is_leap_def)
qed

text \<open>The year of an ordinal: the last one that starts before it.\<close>

function ord_year_from :: "int \<Rightarrow> py_date \<Rightarrow> int" where
  "ord_year_from y k = (if days_before_year (y + 1) < k then ord_year_from (y + 1) k else y)"
  by pat_completeness auto
termination
  by (relation "measure (\<lambda>(y, k). nat (k - days_before_year (y + 1)))") (auto simp: year_step)

definition ord_year :: "py_date \<Rightarrow> int" where
  "ord_year k = ord_year_from ((k - 1) div 366 + 1) k"

definition ord_ymd :: "py_date \<Rightarrow> int \<times> int \<times> int" where
  "ord_ymd k = (let y = ord_year k in (y, split_months (month_lengths y) 1 (k - days_before_year y)))"

section \<open>ISO strings\<close>

definition digit_char :: "int \<Rightarrow> char" where
  "digit_char n = char_of (48 + nat n)"

definition char_digit :: "char \<Rightarrow> int option" where
  "char_digit c = (let n = of_char c :: nat in if 48 \<le> n \<and> n \<le> 57 then Some (int n - 48) else None)"

definition pad2 :: "int \<Rightarrow> string" where
  "pad2 n = [digit_char (n div 10 mod 10), digit_char (n mod 10)]"

definition pad4 :: "int \<Rightarrow> string" where
  "pad4 n = pad2 (n div 100) @ pad2 (n mod 100)"

definition date_isoformat :: "py_date \<Rightarrow> string" where
  "date_isoformat k = (case ord_ymd k of (y, m, d) \<Rightarrow> pad4 y @ ''-'' @ pad2 m @ ''-'' @ pad2 d)"

fun digits_value :: "string \<Rightarrow> int \<Rightarrow> int option" where
  "digits_value [] acc = Some acc"
| "digits_value (c # cs) acc = (case char_digit c of None \<Rightarrow> None | Some d \<Rightarrow> digits_value cs (10 * acc + d))"

text \<open>The date of an ISO year, week and day (\<open>2026-W07-3\<close>).\<close>

definition iso_week_ord :: "int \<Rightarrow> int \<Rightarrow> int \<Rightarrow> py_date option" where
  "iso_week_ord y w d =
     (let first = days_before_year y + 1; wd = date_weekday first;
          monday = (if wd > 3 then first - wd + 7 else first - wd);
          long = (wd = 3 \<or> wd = 2 \<and> is_leap y);
          k = monday + (w - 1) * 7 + d - 1
      in if 1 \<le> y \<and> 1 \<le> w \<and> (w \<le> 52 \<or> w = 53 \<and> long) \<and> 1 \<le> d \<and> d \<le> 7 \<and> 1 \<le> k \<and> k \<le> 3652059
         then Some k else None)"

text \<open>
  \<open>date.fromisoformat\<close>, \<open>None\<close> for its \<open>ValueError\<close>: 7, 8 or 10 characters, with or without separators,
  calendar or ISO week dates.  As the C implementation does, characters after a complete date are ignored.
\<close>

definition date_fromisoformat :: "string \<Rightarrow> py_date option" where
  "date_fromisoformat s =
     (if length s \<notin> {7, 8, 10} then None
      else case digits_value (take 4 s) 0 of
        None \<Rightarrow> None
      | Some y \<Rightarrow>
          (let sep = (s ! 4 = CHR ''-''); r = drop (if sep then 5 else 4) s in
           if hd r = CHR ''W'' then
             (case digits_value (take 2 (drop 1 r)) 0 of
                None \<Rightarrow> None
              | Some w \<Rightarrow>
                  (let r' = drop 3 r in
                   if r' = [] then iso_week_ord y w 1
                   else if sep \<and> hd r' \<noteq> CHR ''-'' then None
                   else let r'' = (if sep then drop 1 r' else r') in
                     if r'' = [] then None
                     else case digits_value (take 1 r'') 0 of None \<Rightarrow> None | Some d \<Rightarrow> iso_week_ord y w d))
           else
             (case digits_value (take 2 r) 0 of
                None \<Rightarrow> None
              | Some m \<Rightarrow>
                  (let r' = drop 2 r in
                   if sep \<and> (r' = [] \<or> hd r' \<noteq> CHR ''-'') then None
                   else let r'' = (if sep then drop 1 r' else r') in
                     if length r'' < 2 then None
                     else case digits_value (take 2 r'') 0 of None \<Rightarrow> None | Some d \<Rightarrow> ymd_ord y m d))))"

section \<open>Ordinals and calendar dates\<close>

declare ord_year_from.simps [simp del]

lemma ord_year_from_bounds:
  "days_before_year y < k \<Longrightarrow> days_before_year (ord_year_from y k) < k \<and> k \<le> days_before_year (ord_year_from y k + 1)
     \<and> y \<le> ord_year_from y k"
proof (induction y k rule: ord_year_from.induct)
  case (1 y k)
  show ?case
  proof (cases "days_before_year (y + 1) < k")
    case True
    from "1.IH" [OF True True] True show ?thesis by (simp add: ord_year_from.simps [of y])
  next
    case False
    with "1.prems" show ?thesis by (simp add: ord_year_from.simps [of y])
  qed
qed

lemma ord_year_bounds:
  assumes "1 \<le> k"
  shows "days_before_year (ord_year k) < k \<and> k \<le> days_before_year (ord_year k + 1) \<and> 1 \<le> ord_year k"
proof -
  let ?q = "(k - 1) div 366"
  have q: "0 \<le> ?q" "?q * 366 \<le> k - 1" using assms by (auto simp: pos_imp_zdiv_nonneg_iff)
  have "?q div 4 + ?q div 400 \<le> ?q + ?q div 100" using q(1) by linarith
  with q have "days_before_year (?q + 1) < k" by (simp add: days_before_year_def)
  from ord_year_from_bounds [OF this] q(1) show ?thesis by (simp add: ord_year_def)
qed

lemma year_mono: "y \<le> y' \<Longrightarrow> days_before_year y + 365 * (y' - y) \<le> days_before_year y'"
proof (induction "nat (y' - y)" arbitrary: y')
  case (Suc n)
  have "n = nat (y' - 1 - y)" "y \<le> y' - 1" using Suc.hyps(2) by linarith+
  from Suc.hyps(1) [OF this] have "days_before_year y + 365 * (y' - 1 - y) \<le> days_before_year (y' - 1)" .
  with year_step [of "y' - 1"] show ?case by (auto split: if_splits simp: algebra_simps)
qed simp

lemma sum_month_lengths: "sum_list (month_lengths y) = days_before_year (y + 1) - days_before_year y"
  by (simp add: month_lengths_def year_step)

lemma split_months_spec:
  assumes "1 \<le> n" "n \<le> sum_list ls"
  shows "\<exists>i < length ls. split_months ls m n = (m + int i, n - sum_list (take i ls))
    \<and> 1 \<le> n - sum_list (take i ls) \<and> n - sum_list (take i ls) \<le> ls ! i"
  using assms
proof (induction ls m n rule: split_months.induct)
  case (2 l ls m n)
  show ?case
  proof (cases "n \<le> l")
    case True
    with "2.prems" show ?thesis by (intro exI [of _ 0]) simp
  next
    case False
    with "2.prems" have "1 \<le> n - l" "n - l \<le> sum_list ls" by simp_all
    from "2.IH" [OF False this] obtain i where "i < length ls"
      "split_months ls (m + 1) (n - l) = (m + 1 + int i, n - l - sum_list (take i ls))"
      "1 \<le> n - l - sum_list (take i ls)" "n - l - sum_list (take i ls) \<le> ls ! i" by blast
    with False show ?thesis by (intro exI [of _ "Suc i"]) (simp add: algebra_simps)
  qed
qed simp

text \<open>Splitting an ordinal into year, month and day and joining them again gives the ordinal.\<close>

lemma ord_ymd_roundtrip:
  assumes "1 \<le> k" "k \<le> 3652059" "ord_ymd k = (y, m, d)"
  shows "ymd_ord y m d = Some k \<and> 1 \<le> y \<and> y \<le> 9999 \<and> 1 \<le> m \<and> m \<le> 12 \<and> 1 \<le> d \<and> d \<le> 31"
proof -
  from assms(3) have y: "y = ord_year k" and md: "split_months (month_lengths y) 1 (k - days_before_year y) = (m, d)"
    by (auto simp: ord_ymd_def Let_def)
  from ord_year_bounds [OF assms(1)] y have b: "days_before_year y < k" "k \<le> days_before_year (y + 1)" "1 \<le> y" by simp_all
  have "y \<le> 9999"
  proof (rule ccontr)
    assume "\<not> y \<le> 9999"
    with year_mono [of 10000 y] have "days_before_year 10000 \<le> days_before_year y" by simp
    with b(1) assms(2) show False by (simp add: days_before_year_def)
  qed
  from b have "1 \<le> k - days_before_year y" "k - days_before_year y \<le> sum_list (month_lengths y)"
    by (simp_all add: sum_month_lengths)
  from split_months_spec [OF this, of 1] md obtain i where i: "i < length (month_lengths y)" "m = 1 + int i"
      "d = k - days_before_year y - sum_list (take i (month_lengths y))" "1 \<le> d" "d \<le> month_lengths y ! i" by auto
  have len: "length (month_lengths y) = 12" by (simp add: month_lengths_def)
  have "month_lengths y ! i \<le> 31"
    using i(1) nth_mem [OF i(1)] by (auto simp: month_lengths_def split: if_splits)
  with i len b(3) \<open>y \<le> 9999\<close> show ?thesis by (auto simp: ymd_ord_def)
qed

lemma char_digit_digit_char: "0 \<le> n \<Longrightarrow> n \<le> 9 \<Longrightarrow> char_digit (digit_char n) = Some n"
  by (simp add: char_digit_def digit_char_def Let_def)

lemma length_pad [simp]: "length (pad2 n) = 2" "length (pad4 n) = 4"
  by (simp_all add: pad2_def pad4_def)

lemma digits_pad2: "0 \<le> n \<Longrightarrow> n \<le> 99 \<Longrightarrow> digits_value (pad2 n) acc = Some (100 * acc + n)"
  by (simp add: pad2_def char_digit_digit_char)

lemma digits_append: "digits_value (a @ b) acc = (case digits_value a acc of None \<Rightarrow> None | Some v \<Rightarrow> digits_value b v)"
  by (induction a arbitrary: acc) (auto split: option.split)

lemma digits_pad4: "0 \<le> n \<Longrightarrow> n \<le> 9999 \<Longrightarrow> digits_value (pad4 n) 0 = Some n"
  by (simp add: pad4_def digits_append digits_pad2)

lemma pad2_head: "hd (pad2 n @ r) \<noteq> CHR ''W''"
proof -
  have "0 \<le> n div 10 mod 10" "n div 10 mod 10 \<le> 9" using pos_mod_bound [of 10 "n div 10"] by simp_all
  then have "char_digit (digit_char (n div 10 mod 10)) \<noteq> None" by (simp add: char_digit_digit_char)
  then show ?thesis by (auto simp: pad2_def char_digit_def)
qed

lemma date_iso_roundtrip:
  assumes "1 \<le> k" "k \<le> 3652059"
  shows "date_fromisoformat (date_isoformat k) = Some k"
proof -
  obtain y m d where ymd: "ord_ymd k = (y, m, d)" by (cases "ord_ymd k") auto
  note r = ord_ymd_roundtrip [OF assms ymd]
  have s: "date_isoformat k = pad4 y @ CHR ''-'' # pad2 m @ CHR ''-'' # pad2 d"
    by (simp add: date_isoformat_def ymd)
  show ?thesis using r unfolding s
    by (simp add: date_fromisoformat_def digits_pad4 digits_pad2 nth_append pad2_head)
qed

end
