(* ===== verification/Timetable_Data.thy ===== *)
theory Timetable_Data
  imports Civil_Date "HOL-Library.Product_Lexorder"
begin

text \<open>
  The value types and small helpers of \<open>domain/timetable.py\<close>: times, entries, overrides, validity, the
  timetable, and the checks its validator is made of.  \<open>TimetableValidationError\<close>,
  \<open>TimetableOrphanError\<close>, a plain \<open>ValueError\<close> and a \<open>TypeError\<close> are the four errors the module can
  raise; their messages are not modelled.  A datetime is a UTC instant in microseconds.
\<close>

datatype tt_error = TTInvalid | TTOrphan string nat | TTValueError | TTTypeError

section \<open>Times\<close>

text \<open>A naive \<open>datetime.time\<close>; Python compares times lexicographically.\<close>

datatype py_time = PyTime (tm_hour: nat) (tm_minute: nat) (tm_second: nat) (tm_micro: nat)

definition time_key :: "py_time \<Rightarrow> nat \<times> nat \<times> nat \<times> nat" where
  "time_key t = (tm_hour t, tm_minute t, tm_second t, tm_micro t)"

lemma time_key_inj: "time_key s = time_key t \<longleftrightarrow> s = t"
  by (cases s; cases t) (simp add: time_key_def)

instantiation py_time :: linorder
begin

definition less_eq_py_time :: "py_time \<Rightarrow> py_time \<Rightarrow> bool" where
  "less_eq_py_time s t \<longleftrightarrow> time_key s \<le> time_key t"

definition less_py_time :: "py_time \<Rightarrow> py_time \<Rightarrow> bool" where
  "less_py_time s t \<longleftrightarrow> time_key s < time_key t"

instance
  by standard (auto simp: less_eq_py_time_def less_py_time_def time_key_inj intro: order.trans)

end

definition minutes_of :: "py_time \<Rightarrow> int" where
  "minutes_of t = int (tm_hour t * 60 + tm_minute t)"

text \<open>\<open>time(m // 60, m % 60)\<close>; the constructor raises \<open>ValueError\<close> for an hour above 23.\<close>

definition from_minutes :: "int \<Rightarrow> tt_error + py_time" where
  "from_minutes m =
     (if 0 \<le> m div 60 \<and> m div 60 \<le> 23 then Inr (PyTime (nat (m div 60)) (nat (m mod 60)) 0 0) else Inl TTValueError)"

definition is_hhmm :: "py_time \<Rightarrow> bool" where
  "is_hhmm t \<longleftrightarrow> tm_second t = 0 \<and> tm_micro t = 0"

definition last_minute :: int where
  "last_minute = 23 * 60 + 59"

section \<open>Value types\<close>

datatype entry_kind = LESSON | BREAK

datatype override_kind = OV_CANCEL | OV_REPLACE | OV_ADD

datatype lesson_status = LS_NORMAL | LS_CANCELLED | LS_CHANGED | LS_ADDED

record tt_defaults =
  td_lesson_minutes :: int
  td_gap_minutes :: int
  td_day_start :: py_time

definition stock_defaults :: tt_defaults where
  "stock_defaults = \<lparr>td_lesson_minutes = 45, td_gap_minutes = 5, td_day_start = PyTime 8 0 0 0\<rparr>"

text \<open>The optional text fields entries and overrides share.\<close>

record tt_texts =
  tx_label :: "string option"
  tx_title :: "string option"
  tx_room :: "string option"
  tx_teacher :: "string option"
  tx_note :: "string option"
  tx_color :: "string option"
  tx_icon :: "string option"

definition no_texts :: tt_texts where
  "no_texts = \<lparr>tx_label = None, tx_title = None, tx_room = None, tx_teacher = None, tx_note = None,
     tx_color = None, tx_icon = None\<rparr>"

record tt_entry =
  te_id :: string
  te_weekday :: int
  te_start :: py_time
  te_end :: py_time
  te_kind :: entry_kind
  te_texts :: tt_texts

record tt_override =
  to_id :: string
  to_date :: py_date
  to_kind :: override_kind
  to_entry_id :: "string option"
  to_start :: "py_time option"
  to_end :: "py_time option"
  to_entry_kind :: entry_kind
  to_texts :: tt_texts

record tt_validity =
  tv_valid_from :: "py_date option"
  tv_valid_until :: "py_date option"
  tv_excluded_weeks :: "py_date list"

record timetable =
  tt_id :: string
  tt_name :: string
  tt_created_by :: string
  tt_created_at :: int
  tt_updated_at :: int
  tt_week_start :: int
  tt_tz :: string
  tt_color :: "string option"
  tt_days :: "int list"
  tt_defaults :: tt_defaults
  tt_entries :: "tt_entry list"
  tt_overrides :: "tt_override list"
  tt_validity :: tt_validity
  tt_assignees :: "string list"
  tt_version :: int
  tt_updated_by :: "string option"

record effective_lesson =
  el_source_id :: string
  el_date :: py_date
  el_start :: py_time
  el_end :: py_time
  el_kind :: entry_kind
  el_texts :: tt_texts
  el_status :: lesson_status
  el_override_id :: "string option"
  el_original :: "tt_entry option"

record resolved_day =
  rd_date :: py_date
  rd_valid :: bool
  rd_lessons :: "effective_lesson list"

record resolved_week =
  rw_anchor :: py_date
  rw_valid :: bool
  rw_days :: "resolved_day list"

text \<open>
  What the module takes from outside the repository: the time zone database, Unicode categories behind
  \<open>is_single_emoji\<close>, the length of \<open>orjson.dumps\<close> (\<open>None\<close> for its \<open>TypeError\<close>), and datetime formatting
  and parsing (\<open>None\<close> for \<open>ValueError\<close> or \<open>OverflowError\<close>).
\<close>

record tt_lib =
  tl_is_tz :: "string \<Rightarrow> bool"
  tl_is_emoji :: "string \<Rightarrow> bool"
  tl_dumps_len :: "json \<Rightarrow> int option"
  tl_isoformat :: "int \<Rightarrow> string"
  tl_fromisoformat :: "string \<Rightarrow> py_datetime option"

section \<open>Limits\<close>

definition tt_colors :: "string list" where
  "tt_colors = [''terracotta'', ''amber'', ''olive'', ''moss'', ''teal'', ''sky'', ''indigo'', ''violet'',
     ''rose'', ''slate'', ''sand'', ''coral'']"

definition max_version :: int where
  "max_version = 2 ^ 31 - 1"

definition max_remote_version_jump :: int where
  "max_remote_version_jump = 10000"

definition max_wire_bytes :: int where
  "max_wire_bytes = 96 * 1024"

definition override_retention_days :: int where
  "override_retention_days = 14"

text \<open>\<open>date(1900, 1, 1)\<close> and \<open>date(2199, 12, 31)\<close>.\<close>

definition min_date :: py_date where
  "min_date = 693596"

definition max_date :: py_date where
  "max_date = 803168"

lemma date_limits: "ymd_ord 1900 1 1 = Some min_date" "ymd_ord 2199 12 31 = Some max_date"
  by (simp_all add: ymd_ord_def month_lengths_def days_before_year_def is_leap_def min_date_def max_date_def)

section \<open>Small checks\<close>

definition is_id_char :: "char \<Rightarrow> bool" where
  "is_id_char c \<longleftrightarrow> (let n = of_char c :: nat in
     48 \<le> n \<and> n \<le> 57 \<or> 65 \<le> n \<and> n \<le> 90 \<or> 97 \<le> n \<and> n \<le> 122 \<or> n = 95 \<or> n = 45)"

definition check_id :: "string \<Rightarrow> tt_error + unit" where
  "check_id s = ensure (list_all is_id_char s \<and> 1 \<le> length s \<and> length s \<le> 64) TTInvalid"

definition check_date :: "py_date \<Rightarrow> tt_error + unit" where
  "check_date d = ensure (min_date \<le> d \<and> d \<le> max_date) TTInvalid"

definition week_anchor :: "py_date \<Rightarrow> int \<Rightarrow> tt_error + py_date" where
  "week_anchor d week_start = res_bind (check_date d) (\<lambda>_.
     if week_start = 0 then Inr (d - date_weekday d)
     else if week_start = 6 then Inr (d - (date_weekday d + 1) mod 7)
     else Inl TTInvalid)"

definition is_valid_on :: "tt_validity \<Rightarrow> py_date \<Rightarrow> int \<Rightarrow> tt_error + bool" where
  "is_valid_on v d week_start =
     (if (case tv_valid_from v of None \<Rightarrow> False | Some f \<Rightarrow> d < f) then Inr False
      else if (case tv_valid_until v of None \<Rightarrow> False | Some u \<Rightarrow> d > u) then Inr False
      else res_bind (week_anchor d week_start) (\<lambda>a. Inr (a \<notin> set (tv_excluded_weeks v))))"

definition normalize_name :: "string \<Rightarrow> tt_error + string" where
  "normalize_name s =
     (let name = strip_ws s in
      if name = [] then Inl TTInvalid else if length name > 60 then Inl TTInvalid else Inr name)"

definition clean_text :: "string option \<Rightarrow> string option" where
  "clean_text value = (case value of None \<Rightarrow> None | Some s \<Rightarrow> if strip_ws s = [] then None else Some (strip_ws s))"

definition clean_fields :: "tt_texts \<Rightarrow> tt_texts" where
  "clean_fields x = \<lparr>tx_label = clean_text (tx_label x), tx_title = clean_text (tx_title x),
     tx_room = clean_text (tx_room x), tx_teacher = clean_text (tx_teacher x), tx_note = clean_text (tx_note x),
     tx_color = clean_text (tx_color x),
     tx_icon = (if tx_icon x = Some [] then None else tx_icon x)\<rparr>"

definition check_color :: "string option \<Rightarrow> tt_error + unit" where
  "check_color value = ensure (value = None \<or> the value \<in> set tt_colors) TTInvalid"

definition check_icon :: "tt_lib \<Rightarrow> string option \<Rightarrow> tt_error + unit" where
  "check_icon lib value = ensure (value = None \<or> tl_is_emoji lib (the value)) TTInvalid"

definition within_limit :: "string option \<Rightarrow> nat \<Rightarrow> bool" where
  "within_limit value limit = (case value of None \<Rightarrow> True | Some s \<Rightarrow> length s \<le> limit)"

definition check_texts :: "tt_lib \<Rightarrow> tt_texts \<Rightarrow> tt_error + unit" where
  "check_texts lib x =
     res_bind (each (\<lambda>(value, limit). ensure (within_limit value limit) TTInvalid)
       [(tx_label x, 8), (tx_title x, 60), (tx_room x, 30), (tx_teacher x, 60), (tx_note x, 200)])
     (\<lambda>_. res_bind (check_color (tx_color x)) (\<lambda>_. check_icon lib (tx_icon x)))"

definition check_order :: "py_time \<Rightarrow> py_time \<Rightarrow> tt_error + unit" where
  "check_order start end_t = res_bind (ensure (is_hhmm start \<and> is_hhmm end_t) TTInvalid) (\<lambda>_. ensure (\<not> start \<ge> end_t) TTInvalid)"

definition check_interval :: "py_time \<Rightarrow> py_time \<Rightarrow> tt_error + unit" where
  "check_interval start end_t =
     res_bind (check_order start end_t) (\<lambda>_. ensure (\<not> minutes_of end_t - minutes_of start < 5) TTInvalid)"

text \<open>Half-open intervals: touching is fine.\<close>

fun neighbours_apart :: "(py_time \<times> py_time) list \<Rightarrow> bool" where
  "neighbours_apart ((s1, e1) # (s2, e2) # rest) \<longleftrightarrow> \<not> s2 < e1 \<and> neighbours_apart ((s2, e2) # rest)"
| "neighbours_apart _ \<longleftrightarrow> True"

definition check_no_overlap :: "(py_time \<times> py_time) list \<Rightarrow> tt_error + unit" where
  "check_no_overlap intervals = ensure (neighbours_apart (sort intervals)) TTInvalid"

text \<open>\<open>drop_invalid_icons\<close> returns the same timetable when every icon passes.\<close>

definition drop_invalid_icon :: "tt_lib \<Rightarrow> tt_texts \<Rightarrow> tt_texts" where
  "drop_invalid_icon lib x =
     (case tx_icon x of None \<Rightarrow> x | Some i \<Rightarrow> if \<not> tl_is_emoji lib i then x\<lparr>tx_icon := None\<rparr> else x)"

definition drop_invalid_icons :: "tt_lib \<Rightarrow> timetable \<Rightarrow> timetable" where
  "drop_invalid_icons lib tt =
     (let entries = map (\<lambda>e. e\<lparr>te_texts := drop_invalid_icon lib (te_texts e)\<rparr>) (tt_entries tt);
          overrides = map (\<lambda>ov. ov\<lparr>to_texts := drop_invalid_icon lib (to_texts ov)\<rparr>) (tt_overrides tt)
      in if entries = tt_entries tt \<and> overrides = tt_overrides tt then tt
         else tt\<lparr>tt_entries := entries, tt_overrides := overrides\<rparr>)"

end
