(* ===== verification/Timetable_Wire.thy ===== *)
theory Timetable_Wire
  imports Timetable_Data
begin

text \<open>
  The JSON shape of a timetable (\<open>to_wire_dict\<close>, \<open>from_wire_dict\<close> and their element helpers in
  \<open>domain/timetable.py\<close>): strict parsers that answer every malformed value with
  \<open>TimetableValidationError\<close>, the request helpers, and the partial updates.
\<close>

section \<open>To JSON\<close>

definition entry_kind_value :: "entry_kind \<Rightarrow> string" where
  "entry_kind_value k = (case k of LESSON \<Rightarrow> ''lesson'' | BREAK \<Rightarrow> ''break'')"

definition override_kind_value :: "override_kind \<Rightarrow> string" where
  "override_kind_value k = (case k of OV_CANCEL \<Rightarrow> ''cancel'' | OV_REPLACE \<Rightarrow> ''replace'' | OV_ADD \<Rightarrow> ''add'')"

definition lesson_status_value :: "lesson_status \<Rightarrow> string" where
  "lesson_status_value s = (case s of LS_NORMAL \<Rightarrow> ''normal'' | LS_CANCELLED \<Rightarrow> ''cancelled''
     | LS_CHANGED \<Rightarrow> ''changed'' | LS_ADDED \<Rightarrow> ''added'')"

definition hhmm :: "py_time \<Rightarrow> string" where
  "hhmm t = pad2 (int (tm_hour t)) @ '':'' @ pad2 (int (tm_minute t))"

definition opt_json :: "('a \<Rightarrow> string) \<Rightarrow> 'a option \<Rightarrow> json" where
  "opt_json f x = (case x of None \<Rightarrow> JNull | Some y \<Rightarrow> JStr (f y))"

definition texts_to_dict :: "tt_texts \<Rightarrow> jobj" where
  "texts_to_dict x =
     [(''label'', opt_json id (tx_label x)), (''title'', opt_json id (tx_title x)),
      (''room'', opt_json id (tx_room x)), (''teacher'', opt_json id (tx_teacher x)),
      (''note'', opt_json id (tx_note x)), (''color'', opt_json id (tx_color x)),
      (''icon'', opt_json id (tx_icon x))]"

definition defaults_to_dict :: "tt_defaults \<Rightarrow> jobj" where
  "defaults_to_dict d =
     [(''lesson_minutes'', JNum (td_lesson_minutes d)), (''gap_minutes'', JNum (td_gap_minutes d)),
      (''day_start'', JStr (hhmm (td_day_start d)))]"

definition entry_to_dict :: "tt_entry \<Rightarrow> jobj" where
  "entry_to_dict e =
     [(''id'', JStr (te_id e)), (''weekday'', JNum (te_weekday e)), (''start'', JStr (hhmm (te_start e))),
      (''end'', JStr (hhmm (te_end e))), (''kind'', JStr (entry_kind_value (te_kind e)))]
     @ texts_to_dict (te_texts e)"

definition override_to_dict :: "tt_override \<Rightarrow> jobj" where
  "override_to_dict ov =
     [(''id'', JStr (to_id ov)), (''date'', JStr (date_isoformat (to_date ov))),
      (''kind'', JStr (override_kind_value (to_kind ov))), (''entry_id'', opt_json id (to_entry_id ov)),
      (''start'', opt_json hhmm (to_start ov)), (''end'', opt_json hhmm (to_end ov)),
      (''entry_kind'', JStr (entry_kind_value (to_entry_kind ov)))]
     @ texts_to_dict (to_texts ov)"

definition entry_fields :: "string list" where
  "entry_fields = [''id'', ''weekday'', ''start'', ''end'', ''kind'', ''label'', ''title'', ''room'', ''teacher'',
     ''note'', ''color'', ''icon'']"

definition validity_to_dict :: "tt_validity \<Rightarrow> jobj" where
  "validity_to_dict v =
     [(''valid_from'', opt_json date_isoformat (tv_valid_from v)),
      (''valid_until'', opt_json date_isoformat (tv_valid_until v)),
      (''excluded_weeks'', JList (map (JStr \<circ> date_isoformat) (tv_excluded_weeks v)))]"

definition to_wire_dict :: "tt_lib \<Rightarrow> timetable \<Rightarrow> jobj" where
  "to_wire_dict lib tt =
     [(''schema'', JNum 1), (''id'', JStr (tt_id tt)), (''name'', JStr (tt_name tt)),
      (''created_by'', JStr (tt_created_by tt)), (''created_at'', JStr (tl_isoformat lib (tt_created_at tt))),
      (''updated_at'', JStr (tl_isoformat lib (tt_updated_at tt))), (''updated_by'', opt_json id (tt_updated_by tt)),
      (''version'', JNum (tt_version tt)), (''week_start'', JNum (tt_week_start tt)), (''tz'', JStr (tt_tz tt)),
      (''color'', opt_json id (tt_color tt)), (''days'', JList (map JNum (tt_days tt))),
      (''defaults'', JObj (defaults_to_dict (tt_defaults tt))),
      (''entries'', JList (map (JObj \<circ> entry_to_dict) (tt_entries tt))),
      (''overrides'', JList (map (JObj \<circ> override_to_dict) (tt_overrides tt))),
      (''validity'', JObj (validity_to_dict (tt_validity tt))),
      (''assignees'', JList (map JStr (tt_assignees tt)))]"

section \<open>From JSON\<close>

definition req_field :: "jobj \<Rightarrow> string \<Rightarrow> tt_error + json" where
  "req_field d key = (case map_of d key of None \<Rightarrow> Inl TTInvalid | Some v \<Rightarrow> Inr v)"

definition get_default :: "jobj \<Rightarrow> string \<Rightarrow> json \<Rightarrow> json" where
  "get_default d key dflt = (case map_of d key of None \<Rightarrow> dflt | Some v \<Rightarrow> v)"

definition as_mapping :: "json \<Rightarrow> tt_error + jobj" where
  "as_mapping v = (case v of JObj d \<Rightarrow> Inr d | _ \<Rightarrow> Inl TTInvalid)"

definition as_list :: "nat \<Rightarrow> json \<Rightarrow> tt_error + json list" where
  "as_list max_len v = (case v of JList xs \<Rightarrow> if length xs > max_len then Inl TTInvalid else Inr xs | _ \<Rightarrow> Inl TTInvalid)"

definition as_str :: "json \<Rightarrow> tt_error + string" where
  "as_str v = (case v of JStr s \<Rightarrow> Inr s | _ \<Rightarrow> Inl TTInvalid)"

definition as_opt_str :: "json \<Rightarrow> tt_error + string option" where
  "as_opt_str v = (case v of JNull \<Rightarrow> Inr None | _ \<Rightarrow> res_bind (as_str v) (\<lambda>s. Inr (Some s)))"

definition as_int :: "json \<Rightarrow> tt_error + int" where
  "as_int v = (case v of JNum n \<Rightarrow> Inr n | _ \<Rightarrow> Inl TTInvalid)"

text \<open>
  \<open>_HHMM_RE.match\<close>: \<open>([01]\d|2[0-3]):([0-5]\d)\<close> and the end, where Python's \<open>$\<close> also matches before one
  trailing newline.
\<close>

definition parse_hhmm :: "json \<Rightarrow> tt_error + py_time" where
  "parse_hhmm v = res_bind (as_str v) (\<lambda>s.
     let s = (if s \<noteq> [] \<and> last s = CHR 0x0A then butlast s else s) in
     if length s \<noteq> 5 \<or> s ! 2 \<noteq> CHR '':'' then Inl TTInvalid
     else case (digits_value (take 2 s) 0, digits_value (drop 3 s) 0) of
       (Some h, Some m) \<Rightarrow> if h \<le> 23 \<and> m \<le> 59 then Inr (PyTime (nat h) (nat m) 0 0) else Inl TTInvalid
     | _ \<Rightarrow> Inl TTInvalid)"

definition parse_opt :: "(json \<Rightarrow> tt_error + 'a) \<Rightarrow> json \<Rightarrow> tt_error + 'a option" where
  "parse_opt f v = (case v of JNull \<Rightarrow> Inr None | _ \<Rightarrow> res_bind (f v) (\<lambda>x. Inr (Some x)))"

definition parse_date :: "json \<Rightarrow> tt_error + py_date" where
  "parse_date v = res_bind (as_str v) (\<lambda>s.
     case date_fromisoformat s of
       None \<Rightarrow> Inl TTInvalid
     | Some d \<Rightarrow> res_bind (check_date d) (\<lambda>_. Inr d))"

text \<open>The year of a UTC instant in microseconds; 1970-01-01 has ordinal 719163.\<close>

definition instant_year :: "int \<Rightarrow> int" where
  "instant_year us = ord_year (us div 86400000000 + 719163)"

definition parse_datetime :: "tt_lib \<Rightarrow> json \<Rightarrow> tt_error + int" where
  "parse_datetime lib v = res_bind (as_str v) (\<lambda>s.
     case tl_fromisoformat lib s of
       None \<Rightarrow> Inl TTInvalid
     | Some (Naive _) \<Rightarrow> Inl TTInvalid
     | Some (Aware t) \<Rightarrow> if 1970 \<le> instant_year t \<and> instant_year t \<le> 2199 then Inr t else Inl TTInvalid)"

definition parse_entry_kind :: "json \<Rightarrow> tt_error + entry_kind" where
  "parse_entry_kind v = res_bind (as_str v) (\<lambda>s.
     if s = ''lesson'' then Inr LESSON else if s = ''break'' then Inr BREAK else Inl TTInvalid)"

definition parse_override_kind :: "json \<Rightarrow> tt_error + override_kind" where
  "parse_override_kind v = res_bind (as_str v) (\<lambda>s.
     if s = ''cancel'' then Inr OV_CANCEL else if s = ''replace'' then Inr OV_REPLACE
     else if s = ''add'' then Inr OV_ADD else Inl TTInvalid)"

definition texts_from_dict :: "jobj \<Rightarrow> tt_error + tt_texts" where
  "texts_from_dict d =
     res_bind (as_opt_str (jget d ''label'')) (\<lambda>label. res_bind (as_opt_str (jget d ''title'')) (\<lambda>title.
     res_bind (as_opt_str (jget d ''room'')) (\<lambda>room. res_bind (as_opt_str (jget d ''teacher'')) (\<lambda>teacher.
     res_bind (as_opt_str (jget d ''note'')) (\<lambda>note. res_bind (as_opt_str (jget d ''color'')) (\<lambda>color.
     res_bind (as_opt_str (jget d ''icon'')) (\<lambda>icon.
       Inr \<lparr>tx_label = label, tx_title = title, tx_room = room, tx_teacher = teacher, tx_note = note,
            tx_color = color, tx_icon = icon\<rparr>)))))))"

definition defaults_from_dict :: "json \<Rightarrow> tt_error + tt_defaults" where
  "defaults_from_dict v = res_bind (as_mapping v) (\<lambda>d.
     res_bind (as_int (get_default d ''lesson_minutes'' (JNum (td_lesson_minutes stock_defaults)))) (\<lambda>lesson.
     res_bind (as_int (get_default d ''gap_minutes'' (JNum (td_gap_minutes stock_defaults)))) (\<lambda>gap.
     res_bind (case map_of d ''day_start'' of None \<Rightarrow> Inr (td_day_start stock_defaults) | Some s \<Rightarrow> parse_hhmm s) (\<lambda>start.
       Inr \<lparr>td_lesson_minutes = lesson, td_gap_minutes = gap, td_day_start = start\<rparr>))))"

text \<open>\<open>given\<close>: the \<open>id\<close> argument, which wins over the dict's.\<close>

definition given_or_id :: "string option \<Rightarrow> jobj \<Rightarrow> tt_error + string" where
  "given_or_id given d = (case given of Some i \<Rightarrow> Inr i | None \<Rightarrow> res_bind (req_field d ''id'') as_str)"

definition entry_from_dict :: "string option \<Rightarrow> json \<Rightarrow> tt_error + tt_entry" where
  "entry_from_dict given v = res_bind (as_mapping v) (\<lambda>d.
     res_bind (given_or_id given d) (\<lambda>i.
     res_bind (res_bind (req_field d ''weekday'') as_int) (\<lambda>weekday.
     res_bind (res_bind (req_field d ''start'') parse_hhmm) (\<lambda>start.
     res_bind (res_bind (req_field d ''end'') parse_hhmm) (\<lambda>fin.
     res_bind (parse_entry_kind (get_default d ''kind'' (JStr ''lesson''))) (\<lambda>kind.
     res_bind (texts_from_dict d) (\<lambda>texts.
       Inr \<lparr>te_id = i, te_weekday = weekday, te_start = start, te_end = fin, te_kind = kind, te_texts = texts\<rparr>)))))))"

definition override_from_dict :: "string option \<Rightarrow> json \<Rightarrow> tt_error + tt_override" where
  "override_from_dict given v = res_bind (as_mapping v) (\<lambda>d.
     res_bind (given_or_id given d) (\<lambda>i.
     res_bind (res_bind (req_field d ''date'') parse_date) (\<lambda>date.
     res_bind (res_bind (req_field d ''kind'') parse_override_kind) (\<lambda>kind.
     res_bind (as_opt_str (jget d ''entry_id'')) (\<lambda>entry_id.
     res_bind (parse_opt parse_hhmm (jget d ''start'')) (\<lambda>start.
     res_bind (parse_opt parse_hhmm (jget d ''end'')) (\<lambda>fin.
     res_bind (parse_entry_kind (get_default d ''entry_kind'' (JStr ''lesson''))) (\<lambda>entry_kind.
     res_bind (texts_from_dict d) (\<lambda>texts.
       Inr \<lparr>to_id = i, to_date = date, to_kind = kind, to_entry_id = entry_id, to_start = start, to_end = fin,
            to_entry_kind = entry_kind, to_texts = texts\<rparr>)))))))))"

definition validity_from_dict :: "json \<Rightarrow> tt_error + tt_validity" where
  "validity_from_dict v = res_bind (as_mapping v) (\<lambda>d.
     res_bind (parse_opt parse_date (jget d ''valid_from'')) (\<lambda>valid_from.
     res_bind (parse_opt parse_date (jget d ''valid_until'')) (\<lambda>valid_until.
     res_bind (as_list 110 (get_default d ''excluded_weeks'' (JList []))) (\<lambda>weeks.
     res_bind (traverse parse_date weeks) (\<lambda>excluded.
       Inr \<lparr>tv_valid_from = valid_from, tv_valid_until = valid_until, tv_excluded_weeks = excluded\<rparr>)))))"

definition from_wire_dict :: "tt_lib \<Rightarrow> json \<Rightarrow> tt_error + timetable" where
  "from_wire_dict lib v = res_bind (as_mapping v) (\<lambda>d.
     if jget d ''schema'' \<noteq> JNum 1 then Inl TTInvalid
     else res_bind (res_bind (req_field d ''version'') as_int) (\<lambda>version.
     if \<not> (1 \<le> version \<and> version \<le> max_version) then Inl TTInvalid
     else res_bind (res_bind (req_field d ''id'') as_str) (\<lambda>i.
     res_bind (res_bind (req_field d ''name'') as_str) (\<lambda>name.
     res_bind (res_bind (req_field d ''created_by'') as_str) (\<lambda>created_by.
     res_bind (res_bind (req_field d ''created_at'') (parse_datetime lib)) (\<lambda>created_at.
     res_bind (res_bind (req_field d ''updated_at'') (parse_datetime lib)) (\<lambda>updated_at.
     res_bind (as_opt_str (jget d ''updated_by'')) (\<lambda>updated_by.
     res_bind (res_bind (req_field d ''week_start'') as_int) (\<lambda>week_start.
     res_bind (res_bind (req_field d ''tz'') as_str) (\<lambda>tz.
     res_bind (as_opt_str (jget d ''color'')) (\<lambda>color.
     res_bind (res_bind (res_bind (req_field d ''days'') (as_list 7)) (traverse as_int)) (\<lambda>days.
     res_bind (res_bind (req_field d ''defaults'') defaults_from_dict) (\<lambda>defaults.
     res_bind (res_bind (res_bind (req_field d ''entries'') (as_list 200)) (traverse (entry_from_dict None))) (\<lambda>entries.
     res_bind (res_bind (as_list 200 (get_default d ''overrides'' (JList []))) (traverse (override_from_dict None))) (\<lambda>overrides.
     res_bind (res_bind (req_field d ''validity'') validity_from_dict) (\<lambda>validity.
     res_bind (res_bind (as_list 20 (get_default d ''assignees'' (JList []))) (traverse as_str)) (\<lambda>assignees.
       Inr \<lparr>tt_id = i, tt_name = name, tt_created_by = created_by, tt_created_at = created_at,
            tt_updated_at = updated_at, tt_week_start = week_start, tt_tz = tz, tt_color = color, tt_days = days,
            tt_defaults = defaults, tt_entries = entries, tt_overrides = overrides, tt_validity = validity,
            tt_assignees = assignees, tt_version = version, tt_updated_by = updated_by\<rparr>)))))))))))))))))"

section \<open>Request bodies\<close>

definition parse_weekdays :: "json \<Rightarrow> tt_error + int list" where
  "parse_weekdays v = res_bind (as_list 14 v) (\<lambda>items. res_bind (traverse as_int items) (\<lambda>days.
     if days = [] \<or> (\<exists>d \<in> set days. \<not> (0 \<le> d \<and> d \<le> 6)) then Inl TTInvalid else Inr (sort (remdups days))))"

text \<open>\<open>tuple(dict.fromkeys(xs))\<close>.\<close>

definition first_occurrences :: "'a list \<Rightarrow> 'a list" where
  "first_occurrences xs = rev (remdups (rev xs))"

definition check_json_id :: "json \<Rightarrow> tt_error + string" where
  "check_json_id v = (case v of JStr s \<Rightarrow> res_bind (check_id s) (\<lambda>_. Inr s) | _ \<Rightarrow> Inl TTInvalid)"

definition parse_user_ids :: "json \<Rightarrow> tt_error + string list" where
  "parse_user_ids v = res_bind (as_list 40 v) (\<lambda>items. res_bind (traverse check_json_id items) (\<lambda>ids.
     let out = first_occurrences ids in if length out > 20 then Inl TTInvalid else Inr out))"

definition reject_unknown :: "json \<Rightarrow> string list \<Rightarrow> tt_error + unit" where
  "reject_unknown v allowed = res_bind (as_mapping v) (\<lambda>d. ensure (\<forall>k \<in> fst ` set d. k \<in> set allowed) TTInvalid)"

text \<open>
  \<open>given in keep_ids\<close> on a set of strings: a list or an object is not hashable and raises \<open>TypeError\<close>.
\<close>

definition in_string_set :: "json \<Rightarrow> string list \<Rightarrow> tt_error + bool" where
  "in_string_set v ids = (case v of JList _ \<Rightarrow> Inl TTTypeError | JObj _ \<Rightarrow> Inl TTTypeError
     | JStr s \<Rightarrow> Inr (s \<in> set ids) | _ \<Rightarrow> Inr False)"

text \<open>\<open>mint\<close> gives the ids successive calls of \<open>id_factory\<close> return.\<close>

fun entries_from_items ::
  "(nat \<Rightarrow> string) \<Rightarrow> int option \<Rightarrow> string list \<Rightarrow> string list option \<Rightarrow> json list \<Rightarrow> nat \<Rightarrow> tt_error + tt_entry list" where
  "entries_from_items mint weekday allowed keep_ids [] n = Inr []"
| "entries_from_items mint weekday allowed keep_ids (item # rest) n =
     res_bind (reject_unknown item allowed) (\<lambda>_. res_bind (as_mapping item) (\<lambda>d0.
     let d = (case weekday of None \<Rightarrow> d0 | Some wd \<Rightarrow> AList.update ''weekday'' (JNum wd) d0);
         given = jget d ''id''
     in res_bind (if given = JNull then Inr False
                  else case keep_ids of None \<Rightarrow> Inr True | Some ids \<Rightarrow> in_string_set given ids) (\<lambda>keep.
        res_bind (entry_from_dict (if keep then None else Some (mint n)) (JObj d)) (\<lambda>e.
        res_bind (entries_from_items mint weekday allowed keep_ids rest (if keep then n else Suc n)) (\<lambda>es.
          Inr (e # es))))))"

definition entries_from_list ::
  "(nat \<Rightarrow> string) \<Rightarrow> int option \<Rightarrow> bool \<Rightarrow> string list option \<Rightarrow> nat \<Rightarrow> json \<Rightarrow> tt_error + tt_entry list" where
  "entries_from_list mint weekday allow_id keep_ids max_len v =
     (let allowed = (if allow_id then entry_fields else filter (\<lambda>k. k \<noteq> ''id'') entry_fields) in
      res_bind (as_list max_len v) (\<lambda>items. entries_from_items mint weekday allowed keep_ids items 0))"

text \<open>Partial updates: \<open>{**current, **patch, "id": current["id"]}\<close> with unknown keys refused.\<close>

definition patched :: "jobj \<Rightarrow> json \<Rightarrow> tt_error + json" where
  "patched current changes = res_bind (as_mapping changes) (\<lambda>patch.
     if \<exists>k \<in> fst ` set patch. map_of current k = None then Inl TTInvalid
     else Inr (JObj (AList.update ''id'' (jget current ''id'') (AList.merge current patch))))"

definition entry_patch :: "tt_entry \<Rightarrow> json \<Rightarrow> tt_error + tt_entry" where
  "entry_patch existing changes = res_bind (patched (entry_to_dict existing) changes) (entry_from_dict None)"

definition override_patch :: "tt_override \<Rightarrow> json \<Rightarrow> tt_error + tt_override" where
  "override_patch existing changes = res_bind (patched (override_to_dict existing) changes) (override_from_dict None)"

definition remote_version_refused :: "int \<Rightarrow> int option \<Rightarrow> bool" where
  "remote_version_refused new current \<longleftrightarrow>
     new \<ge> max_version - max_remote_version_jump
     \<or> (case current of None \<Rightarrow> False | Some c \<Rightarrow> new > c + max_remote_version_jump)"

end
