(* ===== verification/Timetable.thy ===== *)
theory Timetable
  imports Timetable_Wire
begin

text \<open>
  The behaviour of \<open>domain/timetable.py\<close>: \<open>validate\<close>, resolving a day or a week with its overrides, the
  mutators (each returns a new timetable, validated, one version up) and the school template.
\<close>

section \<open>Resolving a day\<close>

definition lesson_from_entry ::
  "tt_entry \<Rightarrow> py_date \<Rightarrow> lesson_status \<Rightarrow> string option \<Rightarrow> tt_entry option \<Rightarrow> effective_lesson" where
  "lesson_from_entry e d status override_id original =
     \<lparr>el_source_id = te_id e, el_date = d, el_start = te_start e, el_end = te_end e, el_kind = te_kind e,
      el_texts = te_texts e, el_status = status, el_override_id = override_id, el_original = original\<rparr>"

definition or_else :: "'a option \<Rightarrow> 'a option \<Rightarrow> 'a option" where
  "or_else x y = (case x of None \<Rightarrow> y | Some v \<Rightarrow> Some v)"

definition merge_texts :: "tt_texts \<Rightarrow> tt_texts \<Rightarrow> tt_texts" where
  "merge_texts over base =
     \<lparr>tx_label = or_else (tx_label over) (tx_label base), tx_title = or_else (tx_title over) (tx_title base),
      tx_room = or_else (tx_room over) (tx_room base), tx_teacher = or_else (tx_teacher over) (tx_teacher base),
      tx_note = or_else (tx_note over) (tx_note base), tx_color = or_else (tx_color over) (tx_color base),
      tx_icon = or_else (tx_icon over) (tx_icon base)\<rparr>"

definition replace_entry :: "tt_override \<Rightarrow> tt_entry \<Rightarrow> tt_entry" where
  "replace_entry hit e =
     e\<lparr>te_start := (case to_start hit of None \<Rightarrow> te_start e | Some t \<Rightarrow> t),
       te_end := (case to_end hit of None \<Rightarrow> te_end e | Some t \<Rightarrow> t),
       te_texts := merge_texts (to_texts hit) (te_texts e)\<rparr>"

text \<open>\<open>by_entry\<close> is filled with \<open>setdefault\<close>: the first override of an entry counts.\<close>

definition by_entry :: "tt_override list \<Rightarrow> string \<Rightarrow> tt_override option" where
  "by_entry todays = map_of (map (\<lambda>ov. (the (to_entry_id ov), ov))
     (filter (\<lambda>ov. to_kind ov \<noteq> OV_ADD \<and> to_entry_id ov \<noteq> None) todays))"

definition lesson_of_entry :: "tt_override list \<Rightarrow> py_date \<Rightarrow> tt_entry \<Rightarrow> effective_lesson" where
  "lesson_of_entry todays d e =
     (case by_entry todays (te_id e) of
        None \<Rightarrow> lesson_from_entry e d LS_NORMAL None None
      | Some hit \<Rightarrow>
          if to_kind hit = OV_CANCEL then lesson_from_entry e d LS_CANCELLED (Some (to_id hit)) (Some e)
          else lesson_from_entry (replace_entry hit e) d LS_CHANGED (Some (to_id hit)) (Some e))"

definition lesson_of_add :: "py_date \<Rightarrow> tt_override \<Rightarrow> effective_lesson list" where
  "lesson_of_add d ov =
     (case (to_start ov, to_end ov) of
        (Some s, Some e) \<Rightarrow>
          if to_kind ov \<noteq> OV_ADD then []
          else [\<lparr>el_source_id = to_id ov, el_date = d, el_start = s, el_end = e, el_kind = to_entry_kind ov,
                 el_texts = to_texts ov, el_status = LS_ADDED, el_override_id = Some (to_id ov), el_original = None\<rparr>]
      | _ \<Rightarrow> [])"

definition effective_lessons :: "timetable \<Rightarrow> py_date \<Rightarrow> effective_lesson list" where
  "effective_lessons tt d =
     (let todays = filter (\<lambda>ov. to_date ov = d) (tt_overrides tt)
      in sort_key (\<lambda>ls. (el_start ls, el_end ls))
           (map (lesson_of_entry todays d) (filter (\<lambda>e. te_weekday e = date_weekday d) (tt_entries tt))
            @ concat (map (lesson_of_add d) todays)))"

definition resolve_day :: "timetable \<Rightarrow> py_date \<Rightarrow> tt_error + resolved_day" where
  "resolve_day tt d = res_bind (check_date d) (\<lambda>_.
     res_bind (is_valid_on (tt_validity tt) d (tt_week_start tt)) (\<lambda>in_effect.
     let valid = in_effect \<and> date_weekday d \<in> set (tt_days tt)
     in Inr \<lparr>rd_date = d, rd_valid = valid, rd_lessons = (if valid then effective_lessons tt d else [])\<rparr>))"

definition resolve_week :: "timetable \<Rightarrow> py_date \<Rightarrow> tt_error + resolved_week" where
  "resolve_week tt any_date = res_bind (week_anchor any_date (tt_week_start tt)) (\<lambda>anchor.
     res_bind (traverse (\<lambda>i. resolve_day tt (anchor + i))
         (filter (\<lambda>i. date_weekday (anchor + i) \<in> set (tt_days tt)) [0, 1, 2, 3, 4, 5, 6])) (\<lambda>days.
       Inr \<lparr>rw_anchor = anchor, rw_valid = list_ex rd_valid days, rw_days = days\<rparr>))"

section \<open>Validation\<close>

definition validate_header :: "tt_lib \<Rightarrow> timetable \<Rightarrow> tt_error + unit" where
  "validate_header lib tt =
     res_bind (check_id (tt_id tt)) (\<lambda>_. res_bind (check_id (tt_created_by tt)) (\<lambda>_.
     res_bind (case tt_updated_by tt of None \<Rightarrow> Inr () | Some u \<Rightarrow> check_id u) (\<lambda>_.
     res_bind (normalize_name (tt_name tt)) (\<lambda>name.
     res_bind (ensure (name = tt_name tt) TTInvalid) (\<lambda>_.
     res_bind (ensure (tt_week_start tt \<in> {0, 6}) TTInvalid) (\<lambda>_.
     res_bind (ensure (length (tt_tz tt) \<le> 64 \<and> tl_is_tz lib (tt_tz tt)) TTInvalid) (\<lambda>_.
     res_bind (check_color (tt_color tt)) (\<lambda>_.
     res_bind (ensure (1 \<le> tt_version tt \<and> tt_version tt \<le> max_version) TTInvalid) (\<lambda>_.
     res_bind (ensure (tt_days tt \<noteq> [] \<and> (\<forall>d \<in> set (tt_days tt). 0 \<le> d \<and> d < 7)
         \<and> tt_days tt = sort (remdups (tt_days tt))) TTInvalid) (\<lambda>_.
     res_bind (ensure (5 \<le> td_lesson_minutes (tt_defaults tt) \<and> td_lesson_minutes (tt_defaults tt) \<le> 240) TTInvalid) (\<lambda>_.
     res_bind (ensure (0 \<le> td_gap_minutes (tt_defaults tt) \<and> td_gap_minutes (tt_defaults tt) \<le> 120) TTInvalid) (\<lambda>_.
     res_bind (ensure (is_hhmm (td_day_start (tt_defaults tt))) TTInvalid) (\<lambda>_.
     res_bind (ensure (length (tt_assignees tt) \<le> 20) TTInvalid) (\<lambda>_.
     res_bind (ensure (distinct (tt_assignees tt)) TTInvalid) (\<lambda>_.
       each check_id (tt_assignees tt))))))))))))))))"

definition add_interval :: "int \<Rightarrow> py_time \<times> py_time \<Rightarrow> (int \<times> (py_time \<times> py_time) list) list
    \<Rightarrow> (int \<times> (py_time \<times> py_time) list) list" where
  "add_interval weekday iv per_day =
     AList.update weekday ((case map_of per_day weekday of None \<Rightarrow> [] | Some ivs \<Rightarrow> ivs) @ [iv]) per_day"

fun validate_entries_loop ::
  "tt_lib \<Rightarrow> int list \<Rightarrow> tt_entry list \<Rightarrow> (string \<rightharpoonup> tt_entry) \<Rightarrow> (int \<times> (py_time \<times> py_time) list) list
    \<Rightarrow> tt_error + (string \<rightharpoonup> tt_entry) \<times> (int \<times> (py_time \<times> py_time) list) list" where
  "validate_entries_loop lib days [] by_id per_day = Inr (by_id, per_day)"
| "validate_entries_loop lib days (e # rest) by_id per_day =
     res_bind (check_id (te_id e)) (\<lambda>_.
     res_bind (ensure (by_id (te_id e) = None) TTInvalid) (\<lambda>_.
     res_bind (ensure (te_weekday e \<in> set days) TTInvalid) (\<lambda>_.
     res_bind (check_interval (te_start e) (te_end e)) (\<lambda>_.
     res_bind (check_texts lib (te_texts e)) (\<lambda>_.
       validate_entries_loop lib days rest (by_id(te_id e \<mapsto> e))
         (add_interval (te_weekday e) (te_start e, te_end e) per_day))))))"

definition validate_entries :: "tt_lib \<Rightarrow> timetable \<Rightarrow> tt_error + (string \<rightharpoonup> tt_entry)" where
  "validate_entries lib tt =
     res_bind (ensure (length (tt_entries tt) \<le> 200) TTInvalid) (\<lambda>_.
     res_bind (validate_entries_loop lib (tt_days tt) (tt_entries tt) Map.empty []) (\<lambda>(by_id, per_day).
     res_bind (each (\<lambda>(weekday, intervals).
         res_bind (ensure (length intervals \<le> 24) TTInvalid) (\<lambda>_. check_no_overlap intervals)) per_day) (\<lambda>_.
       Inr by_id)))"

text \<open>The target part of an override: everything that depends on its kind.\<close>

definition validate_override_target ::
  "(string \<rightharpoonup> tt_entry) \<Rightarrow> tt_override \<Rightarrow> (py_date \<times> string) list \<Rightarrow> tt_error + (py_date \<times> string) list" where
  "validate_override_target entries_by_id ov seen_targets =
     (if to_kind ov = OV_ADD then
        res_bind (ensure (to_entry_id ov = None) TTInvalid) (\<lambda>_.
        case (to_start ov, to_end ov) of
          (Some s, Some e) \<Rightarrow> res_bind (check_interval s e) (\<lambda>_. Inr seen_targets)
        | _ \<Rightarrow> Inl TTInvalid)
      else case to_entry_id ov of
        None \<Rightarrow> Inl TTInvalid
      | Some entry_id \<Rightarrow>
          res_bind (check_id entry_id) (\<lambda>_.
          res_bind (ensure (to_entry_kind ov = LESSON) TTInvalid) (\<lambda>_.
          res_bind (ensure (\<not> (to_kind ov = OV_CANCEL \<and> (to_texts ov \<noteq> no_texts \<or> to_start ov \<noteq> None \<or> to_end ov \<noteq> None)))
            TTInvalid) (\<lambda>_.
          case entries_by_id entry_id of
            None \<Rightarrow> Inl TTInvalid
          | Some entry \<Rightarrow>
              res_bind (ensure (te_weekday entry = date_weekday (to_date ov)) TTInvalid) (\<lambda>_.
              res_bind (ensure ((to_date ov, entry_id) \<notin> set seen_targets) TTInvalid) (\<lambda>_.
              res_bind (if to_kind ov = OV_REPLACE
                        then check_order (case to_start ov of None \<Rightarrow> te_start entry | Some t \<Rightarrow> t)
                               (case to_end ov of None \<Rightarrow> te_end entry | Some t \<Rightarrow> t)
                        else Inr ()) (\<lambda>_.
                Inr ((to_date ov, entry_id) # seen_targets))))))))"

fun validate_overrides_loop ::
  "tt_lib \<Rightarrow> int list \<Rightarrow> (string \<rightharpoonup> tt_entry) \<Rightarrow> tt_override list \<Rightarrow> string list \<Rightarrow> (py_date \<times> string) list
    \<Rightarrow> py_date list \<Rightarrow> tt_error + py_date list" where
  "validate_overrides_loop lib days entries_by_id [] seen_ids seen_targets dates = Inr dates"
| "validate_overrides_loop lib days entries_by_id (ov # rest) seen_ids seen_targets dates =
     res_bind (check_id (to_id ov)) (\<lambda>_.
     res_bind (ensure (to_id ov \<notin> set seen_ids) TTInvalid) (\<lambda>_.
     res_bind (check_date (to_date ov)) (\<lambda>_.
     res_bind (ensure (date_weekday (to_date ov) \<in> set days) TTInvalid) (\<lambda>_.
     res_bind (check_texts lib (to_texts ov)) (\<lambda>_.
     res_bind (validate_override_target entries_by_id ov seen_targets) (\<lambda>seen_targets'.
       validate_overrides_loop lib days entries_by_id rest (to_id ov # seen_ids) seen_targets'
         (List.insert (to_date ov) dates)))))))"

definition live_intervals :: "timetable \<Rightarrow> py_date \<Rightarrow> (py_time \<times> py_time) list" where
  "live_intervals tt d = map (\<lambda>ls. (el_start ls, el_end ls)) (filter (\<lambda>ls. el_status ls \<noteq> LS_CANCELLED) (effective_lessons tt d))"

definition validate_overrides :: "tt_lib \<Rightarrow> timetable \<Rightarrow> (string \<rightharpoonup> tt_entry) \<Rightarrow> tt_error + unit" where
  "validate_overrides lib tt entries_by_id =
     res_bind (ensure (length (tt_overrides tt) \<le> 200) TTInvalid) (\<lambda>_.
     res_bind (validate_overrides_loop lib (tt_days tt) entries_by_id (tt_overrides tt) [] [] []) (\<lambda>dates.
       each (\<lambda>d. check_no_overlap (live_intervals tt d)) (sort dates)))"

definition validate_validity :: "timetable \<Rightarrow> tt_error + unit" where
  "validate_validity tt =
     (let v = tt_validity tt; weeks = tv_excluded_weeks v in
      res_bind (each check_date ((case tv_valid_from v of None \<Rightarrow> [] | Some d \<Rightarrow> [d])
          @ (case tv_valid_until v of None \<Rightarrow> [] | Some d \<Rightarrow> [d]) @ weeks)) (\<lambda>_.
      res_bind (ensure (\<not> (case (tv_valid_from v, tv_valid_until v) of (Some f, Some u) \<Rightarrow> f > u | _ \<Rightarrow> False)) TTInvalid) (\<lambda>_.
      res_bind (ensure (length weeks \<le> 110) TTInvalid) (\<lambda>_.
      res_bind (ensure (weeks = sort (remdups weeks)) TTInvalid) (\<lambda>_.
        each (\<lambda>w. res_bind (week_anchor w (tt_week_start tt)) (\<lambda>a. ensure (a = w) TTInvalid)) weeks)))))"

definition validate :: "tt_lib \<Rightarrow> timetable \<Rightarrow> tt_error + unit" where
  "validate lib tt =
     res_bind (validate_header lib tt) (\<lambda>_.
     res_bind (validate_entries lib tt) (\<lambda>entries_by_id.
     res_bind (validate_overrides lib tt entries_by_id) (\<lambda>_.
     res_bind (validate_validity tt) (\<lambda>_.
     case tl_dumps_len lib (JObj (to_wire_dict lib tt)) of
       None \<Rightarrow> Inl TTInvalid
     | Some n \<Rightarrow> ensure (n \<le> max_wire_bytes) TTInvalid))))"

section \<open>Views\<close>

definition is_filled :: "effective_lesson \<Rightarrow> bool" where
  "is_filled ls \<longleftrightarrow> el_kind ls = BREAK \<or> strip_ws (case tx_title (el_texts ls) of None \<Rightarrow> [] | Some t \<Rightarrow> t) \<noteq> []
     \<or> (case tx_icon (el_texts ls) of None \<Rightarrow> False | Some i \<Rightarrow> i \<noteq> [])"

text \<open>\<open>local_instant\<close> places a wall-clock time of a date in a zone on the UTC line; it is a parameter.\<close>

record today_timetable_view =
  tv_timetable_id :: string
  tv_name :: string
  tv_color :: "string option"
  tv_tz :: string
  tv_date :: py_date
  tv_lessons :: "(effective_lesson \<times> int \<times> int) list"

definition today_timetable ::
  "(py_date \<Rightarrow> py_time \<Rightarrow> string \<Rightarrow> int) \<Rightarrow> timetable \<Rightarrow> py_date \<Rightarrow> nat \<Rightarrow> tt_error + today_timetable_view option" where
  "today_timetable local_instant tt d max_lessons = res_bind (resolve_day tt d) (\<lambda>day.
     if \<not> rd_valid day then Inr None
     else Inr (Some \<lparr>tv_timetable_id = tt_id tt, tv_name = tt_name tt, tv_color = tt_color tt, tv_tz = tt_tz tt,
       tv_date = d,
       tv_lessons = map (\<lambda>ls. (ls, local_instant d (el_start ls) (tt_tz tt), local_instant d (el_end ls) (tt_tz tt)))
         (take max_lessons (filter is_filled (rd_lessons day)))\<rparr>))"

definition has_lessons :: "today_timetable_view \<Rightarrow> bool" where
  "has_lessons today \<longleftrightarrow> list_ex (\<lambda>(ls, _). el_kind ls = LESSON) (tv_lessons today)"

definition effective_lesson_to_dict :: "effective_lesson \<Rightarrow> jobj" where
  "effective_lesson_to_dict ls =
     [(''source_id'', JStr (el_source_id ls)), (''date'', JStr (date_isoformat (el_date ls))),
      (''start'', JStr (hhmm (el_start ls))), (''end'', JStr (hhmm (el_end ls))),
      (''kind'', JStr (entry_kind_value (el_kind ls)))]
     @ texts_to_dict (el_texts ls)
     @ [(''status'', JStr (lesson_status_value (el_status ls))), (''override_id'', opt_json id (el_override_id ls)),
        (''original'', case el_original ls of None \<Rightarrow> JNull | Some e \<Rightarrow> JObj (entry_to_dict e))]"

definition resolved_day_to_dict :: "resolved_day \<Rightarrow> jobj" where
  "resolved_day_to_dict day =
     [(''date'', JStr (date_isoformat (rd_date day))), (''valid'', JBool (rd_valid day)),
      (''lessons'', JList (map (JObj \<circ> effective_lesson_to_dict) (rd_lessons day)))]"

definition resolved_week_to_dict :: "resolved_week \<Rightarrow> jobj" where
  "resolved_week_to_dict week =
     [(''anchor'', JStr (date_isoformat (rw_anchor week))), (''valid'', JBool (rw_valid week)),
      (''days'', JList (map (JObj \<circ> resolved_day_to_dict) (rw_days week)))]"

definition timetable_view_dict :: "tt_lib \<Rightarrow> timetable \<Rightarrow> py_date \<Rightarrow> tt_error + jobj" where
  "timetable_view_dict lib tt today =
     res_bind (resolve_week tt today) (\<lambda>week. res_bind (resolve_day tt today) (\<lambda>day.
       Inr (to_wire_dict lib tt @ [(''active_this_week'', JBool (rw_valid week)), (''valid_today'', JBool (rd_valid day))])))"

section \<open>Mutators\<close>

definition prune_overrides :: "timetable \<Rightarrow> py_date \<Rightarrow> timetable" where
  "prune_overrides tt today =
     (let cutoff = today - override_retention_days;
          kept = filter (\<lambda>ov. to_date ov \<ge> cutoff) (tt_overrides tt)
      in if length kept = length (tt_overrides tt) then tt else tt\<lparr>tt_overrides := kept\<rparr>)"

definition commit :: "tt_lib \<Rightarrow> int \<Rightarrow> string option \<Rightarrow> timetable \<Rightarrow> tt_error + timetable" where
  "commit lib now by_user changed =
     (let out = changed\<lparr>tt_version := tt_version changed + 1, tt_updated_at := now, tt_updated_by := by_user\<rparr>
      in res_bind (validate lib out) (\<lambda>_. Inr out))"

definition live_overrides :: "tt_override list \<Rightarrow> tt_entry list \<Rightarrow> tt_override list" where
  "live_overrides overrides entries =
     (let weekday_of = map_of (rev (map (\<lambda>e. (te_id e, te_weekday e)) entries))
      in filter (\<lambda>ov. to_kind ov = OV_ADD
           \<or> (case to_entry_id ov of None \<Rightarrow> False
              | Some i \<Rightarrow> weekday_of i = Some (date_weekday (to_date ov)))) overrides)"

definition with_entry_set :: "tt_lib \<Rightarrow> int \<Rightarrow> string option \<Rightarrow> tt_entry list \<Rightarrow> timetable \<Rightarrow> tt_error + timetable" where
  "with_entry_set lib now by_user entries tt =
     commit lib now by_user (tt\<lparr>tt_entries := entries, tt_overrides := live_overrides (tt_overrides tt) entries\<rparr>)"

text \<open>The header arguments of \<open>with_header\<close>; \<open>None\<close> is \<open>UNSET\<close>.\<close>

record header_changes =
  hc_name :: "string option"
  hc_color :: "string option option"
  hc_week_start :: "int option"
  hc_tz :: "string option"
  hc_days :: "int list option"
  hc_defaults :: "tt_defaults option"
  hc_assignees :: "string list option"

definition change_week_start :: "int option \<Rightarrow> timetable \<Rightarrow> tt_error + timetable" where
  "change_week_start week_start tt =
     (case week_start of
        None \<Rightarrow> Inr tt
      | Some ws \<Rightarrow>
          if ws = tt_week_start tt then Inr tt
          else if ws \<notin> {0, 6} then Inl TTInvalid
          else let shift = (if ws = 6 then -1 else 1);
                   v = tt_validity tt
            in Inr (tt\<lparr>tt_week_start := ws,
                       tt_validity := v\<lparr>tv_excluded_weeks := map (\<lambda>w. w + shift) (tv_excluded_weeks v)\<rparr>\<rparr>))"

definition change_days :: "bool \<Rightarrow> int list option \<Rightarrow> timetable \<Rightarrow> tt_error + timetable" where
  "change_days drop_orphans days tt =
     (case days of
        None \<Rightarrow> Inr tt
      | Some ds \<Rightarrow>
          let new_days = sort (remdups ds);
              removed = filter (\<lambda>d. d \<notin> set new_days) (tt_days tt);
              orphans = filter (\<lambda>e. te_weekday e \<in> set removed) (tt_entries tt)
          in if orphans \<noteq> [] \<and> \<not> drop_orphans then Inl (TTOrphan ''DAYS_ORPHAN_ENTRIES'' (length orphans))
             else if removed = [] then Inr (tt\<lparr>tt_days := new_days\<rparr>)
             else Inr (tt\<lparr>tt_days := new_days,
                          tt_entries := filter (\<lambda>e. te_weekday e \<notin> set removed) (tt_entries tt),
                          tt_overrides := filter (\<lambda>ov. date_weekday (to_date ov) \<notin> set removed) (tt_overrides tt)\<rparr>))"

definition opt_set :: "'a option \<Rightarrow> ('a \<Rightarrow> timetable \<Rightarrow> timetable) \<Rightarrow> timetable \<Rightarrow> timetable" where
  "opt_set x f tt = (case x of None \<Rightarrow> tt | Some v \<Rightarrow> f v tt)"

definition with_header :: "tt_lib \<Rightarrow> int \<Rightarrow> string option \<Rightarrow> header_changes \<Rightarrow> bool \<Rightarrow> timetable \<Rightarrow> tt_error + timetable" where
  "with_header lib now by_user hc drop_orphans tt =
     res_bind (case hc_name hc of None \<Rightarrow> Inr None | Some n \<Rightarrow> res_bind (normalize_name n) (\<lambda>n'. Inr (Some n'))) (\<lambda>name.
     res_bind (change_week_start (hc_week_start hc) tt) (\<lambda>t1.
     res_bind (change_days drop_orphans (hc_days hc) t1) (\<lambda>t2.
       commit lib now by_user
         (opt_set name (\<lambda>n t. t\<lparr>tt_name := n\<rparr>) (opt_set (hc_color hc) (\<lambda>c t. t\<lparr>tt_color := clean_text c\<rparr>)
         (opt_set (hc_tz hc) (\<lambda>z t. t\<lparr>tt_tz := z\<rparr>) (opt_set (hc_defaults hc) (\<lambda>d t. t\<lparr>tt_defaults := d\<rparr>)
         (opt_set (hc_assignees hc) (\<lambda>a t. t\<lparr>tt_assignees := first_occurrences a\<rparr>) t2))))))))"

definition clean_entry :: "tt_entry \<Rightarrow> tt_entry" where
  "clean_entry e = e\<lparr>te_texts := clean_fields (te_texts e)\<rparr>"

definition with_entry :: "tt_lib \<Rightarrow> int \<Rightarrow> string option \<Rightarrow> tt_entry \<Rightarrow> timetable \<Rightarrow> tt_error + timetable" where
  "with_entry lib now by_user entry0 tt =
     (let entry = clean_entry entry0
      in with_entry_set lib now by_user (filter (\<lambda>e. te_id e \<noteq> te_id entry) (tt_entries tt) @ [entry]) tt)"

definition without_entry :: "tt_lib \<Rightarrow> int \<Rightarrow> string option \<Rightarrow> string \<Rightarrow> timetable \<Rightarrow> tt_error + timetable" where
  "without_entry lib now by_user entry_id tt =
     (if \<not> list_ex (\<lambda>e. te_id e = entry_id) (tt_entries tt) then Inl TTInvalid
      else with_entry_set lib now by_user (filter (\<lambda>e. te_id e \<noteq> entry_id) (tt_entries tt)) tt)"

definition with_entries :: "tt_lib \<Rightarrow> int \<Rightarrow> string option \<Rightarrow> tt_entry list \<Rightarrow> timetable \<Rightarrow> tt_error + timetable" where
  "with_entries lib now by_user entries tt = with_entry_set lib now by_user (map clean_entry entries) tt"

definition generate_day ::
  "tt_lib \<Rightarrow> int \<Rightarrow> string option \<Rightarrow> int \<Rightarrow> tt_entry list \<Rightarrow> bool \<Rightarrow> timetable \<Rightarrow> tt_error + timetable" where
  "generate_day lib now by_user weekday slots replace tt =
     (if list_ex (\<lambda>s. te_weekday s \<noteq> weekday) slots then Inl TTInvalid
      else let existing = length (filter (\<lambda>e. te_weekday e = weekday) (tt_entries tt)) in
        if existing \<noteq> 0 \<and> \<not> replace then Inl (TTOrphan ''DAY_HAS_ENTRIES'' existing)
        else with_entry_set lib now by_user
          (filter (\<lambda>e. te_weekday e \<noteq> weekday) (tt_entries tt) @ map clean_entry slots) tt)"

text \<open>The clones of the source day for one target, then for every target; \<open>mint\<close> as in the parsers.\<close>

fun clone_day :: "(nat \<Rightarrow> string) \<Rightarrow> bool \<Rightarrow> int \<Rightarrow> tt_entry list \<Rightarrow> nat \<Rightarrow> tt_entry list" where
  "clone_day mint with_subjects target [] n = []"
| "clone_day mint with_subjects target (e # es) n =
     (let clone = e\<lparr>te_id := mint n, te_weekday := target\<rparr> in
      (if \<not> with_subjects \<and> te_kind e = LESSON then clone\<lparr>te_texts := no_texts\<lparr>tx_label := tx_label (te_texts e)\<rparr>\<rparr> else clone)
      # clone_day mint with_subjects target es (Suc n))"

fun clone_days :: "(nat \<Rightarrow> string) \<Rightarrow> bool \<Rightarrow> int list \<Rightarrow> tt_entry list \<Rightarrow> nat \<Rightarrow> tt_entry list" where
  "clone_days mint with_subjects [] source n = []"
| "clone_days mint with_subjects (t # ts) source n =
     clone_day mint with_subjects t source n @ clone_days mint with_subjects ts source (n + length source)"

definition copy_day ::
  "tt_lib \<Rightarrow> int \<Rightarrow> string option \<Rightarrow> (nat \<Rightarrow> string) \<Rightarrow> int \<Rightarrow> int list \<Rightarrow> bool \<Rightarrow> bool \<Rightarrow> timetable \<Rightarrow> tt_error + timetable" where
  "copy_day lib now by_user mint from_weekday to_weekdays with_subjects replace tt =
     (let targets = first_occurrences to_weekdays in
      if targets = [] then Inr tt
      else if from_weekday \<notin> set (tt_days tt) then Inl TTInvalid
      else if list_ex (\<lambda>t. t \<notin> set (tt_days tt) \<or> t = from_weekday) targets then Inl TTInvalid
      else let occupied = length (filter (\<lambda>e. te_weekday e \<in> set targets) (tt_entries tt)) in
        if occupied \<noteq> 0 \<and> \<not> replace then Inl (TTOrphan ''DAY_HAS_ENTRIES'' occupied)
        else with_entry_set lib now by_user
          (filter (\<lambda>e. te_weekday e \<notin> set targets) (tt_entries tt)
           @ clone_days mint with_subjects targets (filter (\<lambda>e. te_weekday e = from_weekday) (tt_entries tt)) 0) tt)"

fun shift_entries :: "int \<Rightarrow> py_time \<Rightarrow> int \<Rightarrow> tt_entry list \<Rightarrow> tt_error + tt_entry list \<times> bool" where
  "shift_entries weekday from_time minutes [] = Inr ([], False)"
| "shift_entries weekday from_time minutes (e # es) =
     (if te_weekday e \<noteq> weekday \<or> te_start e < from_time
      then res_bind (shift_entries weekday from_time minutes es) (\<lambda>(rest, moved). Inr (e # rest, moved))
      else let start = minutes_of (te_start e) + minutes; fin = minutes_of (te_end e) + minutes in
        if start < 0 \<or> fin > last_minute then Inl TTInvalid
        else res_bind (from_minutes start) (\<lambda>s. res_bind (from_minutes fin) (\<lambda>f.
          res_bind (shift_entries weekday from_time minutes es) (\<lambda>(rest, moved).
            Inr (e\<lparr>te_start := s, te_end := f\<rparr> # rest, True)))))"

definition shift_after ::
  "tt_lib \<Rightarrow> int \<Rightarrow> string option \<Rightarrow> int \<Rightarrow> py_time \<Rightarrow> int \<Rightarrow> timetable \<Rightarrow> tt_error + timetable" where
  "shift_after lib now by_user weekday from_time minutes tt =
     (if minutes = 0 then Inr tt
      else res_bind (shift_entries weekday from_time minutes (tt_entries tt)) (\<lambda>(entries, moved).
        if \<not> moved then Inr tt else with_entry_set lib now by_user entries tt))"

definition with_validity :: "tt_lib \<Rightarrow> int \<Rightarrow> string option \<Rightarrow> tt_validity \<Rightarrow> timetable \<Rightarrow> tt_error + timetable" where
  "with_validity lib now by_user validity tt =
     res_bind (traverse (\<lambda>w. week_anchor w (tt_week_start tt)) (tv_excluded_weeks validity)) (\<lambda>weeks.
       commit lib now by_user (tt\<lparr>tt_validity := validity\<lparr>tv_excluded_weeks := sort (remdups weeks)\<rparr>\<rparr>))"

definition with_override :: "tt_lib \<Rightarrow> int \<Rightarrow> string option \<Rightarrow> tt_override \<Rightarrow> timetable \<Rightarrow> tt_error + timetable" where
  "with_override lib now by_user ov0 tt =
     (let ov = ov0\<lparr>to_texts := clean_fields (to_texts ov0)\<rparr>
      in commit lib now by_user (tt\<lparr>tt_overrides := filter (\<lambda>x. to_id x \<noteq> to_id ov) (tt_overrides tt) @ [ov]\<rparr>))"

definition without_override :: "tt_lib \<Rightarrow> int \<Rightarrow> string option \<Rightarrow> string \<Rightarrow> timetable \<Rightarrow> tt_error + timetable" where
  "without_override lib now by_user override_id tt =
     (if \<not> list_ex (\<lambda>x. to_id x = override_id) (tt_overrides tt) then Inl TTInvalid
      else commit lib now by_user (tt\<lparr>tt_overrides := filter (\<lambda>x. to_id x \<noteq> override_id) (tt_overrides tt)\<rparr>))"

definition clear_week :: "tt_lib \<Rightarrow> int \<Rightarrow> string option \<Rightarrow> py_date \<Rightarrow> timetable \<Rightarrow> tt_error + timetable" where
  "clear_week lib now by_user any_date tt =
     res_bind (week_anchor any_date (tt_week_start tt)) (\<lambda>start.
       commit lib now by_user
         (tt\<lparr>tt_overrides := filter (\<lambda>x. \<not> (start \<le> to_date x \<and> to_date x < start + 7)) (tt_overrides tt)\<rparr>))"

section \<open>The school template\<close>

definition school_slot ::
  "int \<Rightarrow> string \<Rightarrow> entry_kind \<Rightarrow> tt_texts \<Rightarrow> int \<Rightarrow> int \<Rightarrow> tt_error + tt_entry" where
  "school_slot weekday i kind texts start fin =
     (if fin > last_minute then Inl TTInvalid
      else res_bind (from_minutes start) (\<lambda>s. res_bind (from_minutes fin) (\<lambda>f.
        Inr \<lparr>te_id = i, te_weekday = weekday, te_start = s, te_end = f, te_kind = kind, te_texts = texts\<rparr>)))"

definition school_break :: "nat \<Rightarrow> int option" where
  "school_break n = (if n = 2 then Some 20 else if n = 4 then Some 15 else None)"

text \<open>Lesson \<open>n\<close> starts at minute \<open>t\<close>; \<open>k\<close> counts the minted ids; \<open>todo\<close> lessons are left.\<close>

fun school_lessons ::
  "(nat \<Rightarrow> string) \<Rightarrow> int \<Rightarrow> tt_defaults \<Rightarrow> nat \<Rightarrow> nat \<Rightarrow> int \<Rightarrow> nat \<Rightarrow> tt_error + tt_entry list" where
  "school_lessons mint weekday defaults 0 n t k = Inr []"
| "school_lessons mint weekday defaults (Suc todo) n t k =
     (let fin = t + td_lesson_minutes defaults in
      res_bind (school_slot weekday (mint k) LESSON
          (no_texts\<lparr>tx_label := Some [digit_char (int n), CHR ''.'']\<rparr>) t fin) (\<lambda>lesson.
      case school_break n of
        None \<Rightarrow> res_bind (school_lessons mint weekday defaults todo (Suc n) (fin + td_gap_minutes defaults) (Suc k))
                  (\<lambda>rest. Inr (lesson # rest))
      | Some pause \<Rightarrow>
          res_bind (school_slot weekday (mint (Suc k)) BREAK (no_texts\<lparr>tx_title := Some ''Pause''\<rparr>) fin (fin + pause)) (\<lambda>brk.
          res_bind (school_lessons mint weekday defaults todo (Suc n) (fin + pause) (Suc (Suc k)))
            (\<lambda>rest. Inr (lesson # brk # rest)))))"

definition school_template_day :: "int \<Rightarrow> tt_defaults \<Rightarrow> (nat \<Rightarrow> string) \<Rightarrow> tt_error + tt_entry list" where
  "school_template_day weekday defaults mint =
     school_lessons mint weekday defaults 6 1 (minutes_of (td_day_start defaults)) 0"

end
