(* ===== verification/Timetable_Valid.thy ===== *)
theory Timetable_Valid
  imports Timetable
begin

text \<open>
  What \<open>validate\<close> promises, stated without its loops and accumulators: a declarative description of a
  consistent timetable, the proof that the validator accepts exactly those, and the facts about
  non-overlapping slots that the properties of the timetable rest on.
\<close>

section \<open>Non-overlapping slots\<close>

definition disjoint_iv :: "py_time \<times> py_time \<Rightarrow> py_time \<times> py_time \<Rightarrow> bool" where
  "disjoint_iv a b \<longleftrightarrow> snd a \<le> fst b \<or> snd b \<le> fst a"

abbreviation slots_apart :: "(py_time \<times> py_time) list \<Rightarrow> bool" where
  "slots_apart \<equiv> sorted_wrt disjoint_iv"

abbreviation ordered_iv :: "py_time \<times> py_time \<Rightarrow> bool" where
  "ordered_iv iv \<equiv> fst iv < snd iv"

lemma disjoint_iv_sym: "disjoint_iv a b = disjoint_iv b a"
  by (auto simp: disjoint_iv_def)

lemma slots_apart_mset: "mset xs = mset ys \<Longrightarrow> slots_apart xs = slots_apart ys"
  using pairwise_mset [of disjoint_iv xs ys] pairwise_mset [of disjoint_iv ys xs] disjoint_iv_sym by auto

text \<open>Of sorted slots it is enough to compare neighbours.\<close>

lemma neighbours_apart_sorted:
  "\<forall>iv \<in> set ivs. ordered_iv iv \<Longrightarrow> sorted ivs \<Longrightarrow> neighbours_apart ivs \<longleftrightarrow> slots_apart ivs"
proof (induction ivs rule: neighbours_apart.induct)
  case (1 s1 e1 s2 e2 rest)
  have later: "s2 \<le> fst iv" if "iv \<in> set rest" for iv
    using "1.prems"(2) that by (auto simp: less_eq_prod_def dest!: bspec)
  have "\<not> s2 < e1 \<longleftrightarrow> disjoint_iv (s1, e1) (s2, e2)"
    using "1.prems" by (auto simp: disjoint_iv_def less_eq_prod_def)
  moreover have "disjoint_iv (s1, e1) iv" if "\<not> s2 < e1" "iv \<in> set rest" for iv
    using later [OF that(2)] that(1) by (auto simp: disjoint_iv_def)
  ultimately show ?case using 1 by auto
qed simp_all

lemma check_no_overlap_iff:
  "\<forall>iv \<in> set ivs. ordered_iv iv \<Longrightarrow> check_no_overlap ivs = Inr () \<longleftrightarrow> slots_apart ivs"
  by (simp add: check_no_overlap_def neighbours_apart_sorted slots_apart_mset [of "sort ivs" ivs])

lemma slots_apart_map_filter: "slots_apart (map f xs) \<Longrightarrow> slots_apart (map f (filter P xs))"
  by (simp add: sorted_wrt_map sorted_wrt_filter)

section \<open>Entries\<close>

definition slot_ok :: "py_time \<Rightarrow> py_time \<Rightarrow> bool" where
  "slot_ok s e \<longleftrightarrow> is_hhmm s \<and> is_hhmm e \<and> s < e \<and> minutes_of s + 5 \<le> minutes_of e"

lemma check_order_iff [simp]: "check_order s e = Inr () \<longleftrightarrow> is_hhmm s \<and> is_hhmm e \<and> s < e"
  by (auto simp: check_order_def res_bind_Inr not_le)

lemma check_interval_iff [simp]: "check_interval s e = Inr () \<longleftrightarrow> slot_ok s e"
  by (auto simp: check_interval_def slot_ok_def res_bind_Inr)

definition entry_ok :: "tt_lib \<Rightarrow> int list \<Rightarrow> tt_entry \<Rightarrow> bool" where
  "entry_ok lib days e \<longleftrightarrow> check_id (te_id e) = Inr () \<and> te_weekday e \<in> set days
     \<and> slot_ok (te_start e) (te_end e) \<and> check_texts lib (te_texts e) = Inr ()"

abbreviation entry_iv :: "tt_entry \<Rightarrow> py_time \<times> py_time" where
  "entry_iv e \<equiv> (te_start e, te_end e)"

definition entries_ok :: "tt_lib \<Rightarrow> int list \<Rightarrow> tt_entry list \<Rightarrow> bool" where
  "entries_ok lib days es \<longleftrightarrow> length es \<le> 200 \<and> distinct (map te_id es) \<and> (\<forall>e \<in> set es. entry_ok lib days e)
     \<and> (\<forall>wd. length (filter (\<lambda>e. te_weekday e = wd) es) \<le> 24
           \<and> slots_apart (map entry_iv (filter (\<lambda>e. te_weekday e = wd) es)))"

definition day_slots :: "(int \<times> (py_time \<times> py_time) list) list \<Rightarrow> int \<Rightarrow> (py_time \<times> py_time) list" where
  "day_slots per_day wd = (case map_of per_day wd of None \<Rightarrow> [] | Some ivs \<Rightarrow> ivs)"

lemma day_slots_add: "day_slots (add_interval w iv per_day) wd = day_slots per_day wd @ (if wd = w then [iv] else [])"
  by (simp add: day_slots_def add_interval_def)

lemma distinct_add_interval: "distinct (map fst per_day) \<Longrightarrow> distinct (map fst (add_interval w iv per_day))"
  by (simp add: add_interval_def distinct_update)

definition entry_index :: "tt_entry list \<Rightarrow> string \<rightharpoonup> tt_entry" where
  "entry_index es = map_of (map (\<lambda>e. (te_id e, e)) es)"

lemma entry_index_Nil [simp]: "entry_index [] = Map.empty"
  by (simp add: entry_index_def)

lemma entry_index_Cons: "entry_index (e # es) = (entry_index es)(te_id e \<mapsto> e)"
  by (simp add: entry_index_def)

lemma dom_entry_index [simp]: "dom (entry_index es) = te_id ` set es"
  by (simp add: entry_index_def dom_map_of_conv_image_fst image_image)

lemma upd_None [simp]: "(m(k \<mapsto> v)) x = None \<longleftrightarrow> x \<noteq> k \<and> m x = None"
  by simp

lemma validate_entries_loop_Inr:
  "distinct (map fst per_day) \<Longrightarrow>
   validate_entries_loop lib days es m per_day = Inr (m', per_day') \<Longrightarrow>
     m' = m ++ entry_index es
     \<and> distinct (map fst per_day')
     \<and> (\<forall>wd. day_slots per_day' wd = day_slots per_day wd @ map entry_iv (filter (\<lambda>e. te_weekday e = wd) es))
     \<and> distinct (map te_id es) \<and> (\<forall>e \<in> set es. m (te_id e) = None \<and> entry_ok lib days e)"
proof (induction es arbitrary: m per_day)
  case (Cons e es)
  from Cons.prems(2) have e: "entry_ok lib days e" "m (te_id e) = None"
    and rest: "validate_entries_loop lib days es (m(te_id e \<mapsto> e)) (add_interval (te_weekday e) (entry_iv e) per_day) = Inr (m', per_day')"
    by (auto simp: res_bind_Inr entry_ok_def)
  note ih = Cons.IH [OF distinct_add_interval [OF Cons.prems(1)] rest]
  from ih have new: "te_id e \<notin> te_id ` set es" "\<forall>e' \<in> set es. m (te_id e') = None \<and> entry_ok lib days e'"
    by (auto simp del: fun_upd_apply)
  then have "m' = m ++ entry_index (e # es)"
    using ih by (simp add: entry_index_Cons map_add_upd_left del: fun_upd_apply)
  with ih e new show ?case by (auto simp: day_slots_add simp del: fun_upd_apply)
qed simp

lemma validate_entries_loop_ok:
  "distinct (map te_id es) \<Longrightarrow> (\<forall>e \<in> set es. m (te_id e) = None \<and> entry_ok lib days e) \<Longrightarrow>
     \<exists>m' per_day'. validate_entries_loop lib days es m per_day = Inr (m', per_day')"
proof (induction es arbitrary: m per_day)
  case (Cons e es)
  have "te_id x \<noteq> te_id e" if "x \<in> set es" for x using Cons.prems(1) that by (auto simp: image_iff)
  then have "\<forall>x \<in> set es. (m(te_id e \<mapsto> e)) (te_id x) = None \<and> entry_ok lib days x" using Cons.prems(2) by simp
  moreover have "distinct (map te_id es)" using Cons.prems(1) by simp
  ultimately obtain m' per_day' where "validate_entries_loop lib days es (m(te_id e \<mapsto> e))
      (add_interval (te_weekday e) (entry_iv e) per_day) = Inr (m', per_day')" using Cons.IH by blast
  with Cons.prems show ?case by (simp add: res_bind_Inr entry_ok_def)
qed simp

lemma entry_ivs_ordered: "\<forall>e \<in> set es. entry_ok lib days e \<Longrightarrow> \<forall>iv \<in> set (map entry_iv (filter P es)). ordered_iv iv"
  by (auto simp: entry_ok_def slot_ok_def)

lemma validate_entries_iff:
  "validate_entries lib tt = Inr m \<longleftrightarrow> entries_ok lib (tt_days tt) (tt_entries tt) \<and> m = entry_index (tt_entries tt)"
proof -
  let ?es = "tt_entries tt" and ?ds = "tt_days tt"
  have day: "(\<forall>x \<in> set per_day. (case x of (wd, ivs) \<Rightarrow> length ivs \<le> 24 \<and> check_no_overlap ivs = Inr ()))
      \<longleftrightarrow> (\<forall>wd. length (filter (\<lambda>e. te_weekday e = wd) ?es) \<le> 24 \<and> slots_apart (map entry_iv (filter (\<lambda>e. te_weekday e = wd) ?es)))"
    if d: "distinct (map fst per_day)" and s: "\<forall>wd. day_slots per_day wd = map entry_iv (filter (\<lambda>e. te_weekday e = wd) ?es)"
      and ok: "\<forall>e \<in> set ?es. entry_ok lib ?ds e" for per_day
  proof -
    note ch = check_no_overlap_iff [OF entry_ivs_ordered [OF ok]]
    have "(\<forall>x \<in> set per_day. (case x of (wd, ivs) \<Rightarrow> length ivs \<le> 24 \<and> check_no_overlap ivs = Inr ()))
      \<longleftrightarrow> (\<forall>wd. length (day_slots per_day wd) \<le> 24 \<and> check_no_overlap (day_slots per_day wd) = Inr ())"
    proof (safe, goal_cases)
      case (1 wd) then show ?case by (auto simp: day_slots_def split: option.split dest!: map_of_SomeD)
    next
      case (2 wd) then show ?case by (auto simp: day_slots_def check_no_overlap_def split: option.split dest!: map_of_SomeD)
    next
      case (3 wd ivs) with d have "day_slots per_day wd = ivs" by (simp add: day_slots_def)
      with 3 show ?case by metis
    next
      case (4 wd ivs) with d have "day_slots per_day wd = ivs" by (simp add: day_slots_def)
      with 4 show ?case by metis
    qed
    then show ?thesis using s by (simp add: ch)
  qed
  show ?thesis
  proof
    assume "validate_entries lib tt = Inr m"
    then obtain per_day where l: "length ?es \<le> 200" "validate_entries_loop lib ?ds ?es Map.empty [] = Inr (m, per_day)"
        "\<forall>x \<in> set per_day. (case x of (wd, ivs) \<Rightarrow> length ivs \<le> 24 \<and> check_no_overlap ivs = Inr ())"
      by (auto simp: validate_entries_def res_bind_Inr each_Inr split: prod.splits)
    from validate_entries_loop_Inr [OF _ l(2)] have "m = entry_index ?es" "distinct (map fst per_day)"
        "\<forall>wd. day_slots per_day wd = map entry_iv (filter (\<lambda>e. te_weekday e = wd) ?es)"
        "distinct (map te_id ?es)" "\<forall>e \<in> set ?es. entry_ok lib ?ds e"
      by (auto simp: day_slots_def)
    with l day show "entries_ok lib ?ds ?es \<and> m = entry_index ?es" by (simp add: entries_ok_def)
  next
    assume a: "entries_ok lib ?ds ?es \<and> m = entry_index ?es"
    then obtain m' per_day where l: "validate_entries_loop lib ?ds ?es Map.empty [] = Inr (m', per_day)"
      using validate_entries_loop_ok [of ?es Map.empty lib ?ds "[]"] by (auto simp: entries_ok_def)
    from validate_entries_loop_Inr [OF _ l] have i: "m' = entry_index ?es" "distinct (map fst per_day)"
        "\<forall>wd. day_slots per_day wd = map entry_iv (filter (\<lambda>e. te_weekday e = wd) ?es)"
      by (auto simp: day_slots_def)
    with l a day [OF i(2,3)] show "validate_entries lib tt = Inr m"
      by (auto simp: validate_entries_def res_bind_Inr each_Inr entries_ok_def split: prod.splits)
  qed
qed

section \<open>Overrides\<close>

definition target_ok :: "tt_entry list \<Rightarrow> tt_override \<Rightarrow> bool" where
  "target_ok es ov \<longleftrightarrow>
     (if to_kind ov = OV_ADD then
        to_entry_id ov = None \<and> (\<exists>s e. to_start ov = Some s \<and> to_end ov = Some e \<and> slot_ok s e)
      else \<exists>i e. to_entry_id ov = Some i \<and> check_id i = Inr () \<and> to_entry_kind ov = LESSON
        \<and> (to_kind ov = OV_CANCEL \<longrightarrow> to_texts ov = no_texts \<and> to_start ov = None \<and> to_end ov = None)
        \<and> entry_index es i = Some e \<and> te_weekday e = date_weekday (to_date ov)
        \<and> (to_kind ov = OV_REPLACE \<longrightarrow>
             check_order (te_start (replace_entry ov e)) (te_end (replace_entry ov e)) = Inr ()))"

definition target_of :: "tt_override \<Rightarrow> py_date \<times> string" where
  "target_of ov = (to_date ov, the (to_entry_id ov))"

abbreviation targets :: "tt_override list \<Rightarrow> (py_date \<times> string) list" where
  "targets ovs \<equiv> map target_of (filter (\<lambda>ov. to_kind ov \<noteq> OV_ADD) ovs)"

lemma validate_override_target_Inr:
  "validate_override_target (entry_index es) ov seen = Inr seen' \<longleftrightarrow>
     target_ok es ov \<and> (if to_kind ov = OV_ADD then seen' = seen else target_of ov \<notin> set seen \<and> seen' = target_of ov # seen)"
proof (cases "to_kind ov = OV_ADD")
  case True
  then show ?thesis
    by (auto simp: validate_override_target_def target_ok_def res_bind_Inr split: option.splits)
next
  case False
  then show ?thesis
    by (cases "to_kind ov")
      (auto simp: validate_override_target_def target_ok_def target_of_def replace_entry_def res_bind_Inr
          simp del: check_order_iff split: option.splits)
qed

definition override_ok :: "tt_lib \<Rightarrow> int list \<Rightarrow> tt_entry list \<Rightarrow> tt_override \<Rightarrow> bool" where
  "override_ok lib days es ov \<longleftrightarrow> check_id (to_id ov) = Inr () \<and> check_date (to_date ov) = Inr ()
     \<and> date_weekday (to_date ov) \<in> set days \<and> check_texts lib (to_texts ov) = Inr () \<and> target_ok es ov"

lemma validate_overrides_loop_Inr:
  "validate_overrides_loop lib days (entry_index es) ovs seen tgts dates = Inr dates' \<longleftrightarrow>
     distinct (map to_id ovs) \<and> set seen \<inter> to_id ` set ovs = {} \<and> (\<forall>ov \<in> set ovs. override_ok lib days es ov)
     \<and> distinct (targets ovs) \<and> set tgts \<inter> set (targets ovs) = {} \<and> dates' = fold List.insert (map to_date ovs) dates"
proof (induction ovs arbitrary: seen tgts dates)
  case (Cons ov ovs)
  show ?case
    by (cases "to_kind ov = OV_ADD")
      (auto simp: res_bind_Inr Cons.IH validate_override_target_Inr override_ok_def)
qed auto

text \<open>The slots of a date that take place, before sorting.\<close>

definition todays_overrides :: "timetable \<Rightarrow> py_date \<Rightarrow> tt_override list" where
  "todays_overrides tt d = filter (\<lambda>ov. to_date ov = d) (tt_overrides tt)"

definition unsorted_lessons :: "timetable \<Rightarrow> py_date \<Rightarrow> effective_lesson list" where
  "unsorted_lessons tt d =
     map (lesson_of_entry (todays_overrides tt d) d) (filter (\<lambda>e. te_weekday e = date_weekday d) (tt_entries tt))
     @ concat (map (lesson_of_add d) (todays_overrides tt d))"

abbreviation takes_place :: "effective_lesson \<Rightarrow> bool" where
  "takes_place ls \<equiv> el_status ls \<noteq> LS_CANCELLED"

abbreviation lesson_iv :: "effective_lesson \<Rightarrow> py_time \<times> py_time" where
  "lesson_iv ls \<equiv> (el_start ls, el_end ls)"

definition live_slots :: "timetable \<Rightarrow> py_date \<Rightarrow> (py_time \<times> py_time) list" where
  "live_slots tt d = map lesson_iv (filter takes_place (unsorted_lessons tt d))"

lemma effective_lessons_sort: "effective_lessons tt d = sort_key lesson_iv (unsorted_lessons tt d)"
  by (simp add: effective_lessons_def unsorted_lessons_def todays_overrides_def Let_def)

lemma mset_live_intervals: "mset (live_intervals tt d) = mset (live_slots tt d)"
  by (simp add: live_intervals_def live_slots_def effective_lessons_sort)

lemma live_intervals_apart: "slots_apart (live_intervals tt d) = slots_apart (live_slots tt d)"
  by (rule slots_apart_mset) (rule mset_live_intervals)

lemma by_entry_SomeD:
  assumes "by_entry todays i = Some ov"
  shows "ov \<in> set todays \<and> to_kind ov \<noteq> OV_ADD \<and> to_entry_id ov = Some i"
  using map_of_SomeD [OF assms [unfolded by_entry_def]] by auto

lemma by_entry_Nil [simp]: "by_entry [] i = None"
  by (simp add: by_entry_def)

lemma live_slots_plain:
  "todays_overrides tt d = [] \<Longrightarrow>
     live_slots tt d = map entry_iv (filter (\<lambda>e. te_weekday e = date_weekday d) (tt_entries tt))"
  by (simp add: live_slots_def unsorted_lessons_def lesson_of_entry_def lesson_from_entry_def filter_map o_def)

lemma entry_index_member: "distinct (map te_id es) \<Longrightarrow> e \<in> set es \<Longrightarrow> entry_index es (te_id e) = Some e"
  by (induction es) (auto simp: entry_index_Cons image_iff)

lemma live_slots_ordered:
  assumes "entries_ok lib days (tt_entries tt)" "\<forall>ov \<in> set (tt_overrides tt). target_ok (tt_entries tt) ov"
  shows "\<forall>iv \<in> set (live_slots tt d). ordered_iv iv"
proof -
  have 1: "ordered_iv (lesson_iv (lesson_of_entry (todays_overrides tt d) d e))"
    if e: "e \<in> set (tt_entries tt)" and live: "takes_place (lesson_of_entry (todays_overrides tt d) d e)" for e
  proof (cases "by_entry (todays_overrides tt d) (te_id e)")
    case None
    then show ?thesis using assms(1) e
      by (auto simp: lesson_of_entry_def lesson_from_entry_def entries_ok_def entry_ok_def slot_ok_def)
  next
    case (Some hit)
    with by_entry_SomeD [OF Some] have h: "hit \<in> set (tt_overrides tt)" "to_kind hit \<noteq> OV_ADD" "to_entry_id hit = Some (te_id e)"
      by (auto simp: todays_overrides_def)
    from Some live have "to_kind hit \<noteq> OV_CANCEL" by (auto simp: lesson_of_entry_def lesson_from_entry_def)
    with h(2) have "to_kind hit = OV_REPLACE" by (cases "to_kind hit") auto
    with assms h entry_index_member [of "tt_entries tt" e] e
    have "te_start (replace_entry hit e) < te_end (replace_entry hit e)"
      by (auto simp: target_ok_def entries_ok_def dest!: bspec [OF assms(2)])
    with Some \<open>to_kind hit = OV_REPLACE\<close> show ?thesis by (simp add: lesson_of_entry_def lesson_from_entry_def)
  qed
  have 2: "ordered_iv (lesson_iv ls)" if "ov \<in> set (tt_overrides tt)" "ls \<in> set (lesson_of_add d ov)" for ov ls
    using assms(2) that by (auto simp: lesson_of_add_def target_ok_def slot_ok_def split: option.splits if_splits)
  show ?thesis using 1 2 by (auto simp: live_slots_def unsorted_lessons_def todays_overrides_def)
qed

definition overrides_ok :: "tt_lib \<Rightarrow> timetable \<Rightarrow> bool" where
  "overrides_ok lib tt \<longleftrightarrow> length (tt_overrides tt) \<le> 200 \<and> distinct (map to_id (tt_overrides tt))
     \<and> (\<forall>ov \<in> set (tt_overrides tt). override_ok lib (tt_days tt) (tt_entries tt) ov)
     \<and> distinct (targets (tt_overrides tt)) \<and> (\<forall>d. slots_apart (live_slots tt d))"

lemma set_fold_insert: "set (fold List.insert xs ys) = set xs \<union> set ys"
  by (induction xs arbitrary: ys) auto

lemma validate_overrides_iff:
  assumes "entries_ok lib (tt_days tt) (tt_entries tt)"
  shows "validate_overrides lib tt (entry_index (tt_entries tt)) = Inr () \<longleftrightarrow> overrides_ok lib tt"
proof -
  have ch: "check_no_overlap (live_intervals tt d) = Inr () \<longleftrightarrow> slots_apart (live_slots tt d)"
    if "\<forall>ov \<in> set (tt_overrides tt). override_ok lib (tt_days tt) (tt_entries tt) ov" for d
  proof -
    from that have "\<forall>ov \<in> set (tt_overrides tt). target_ok (tt_entries tt) ov" by (simp add: override_ok_def)
    from live_slots_ordered [OF assms this, of d] have "\<forall>iv \<in> set (live_intervals tt d). ordered_iv iv"
      using mset_live_intervals [of tt d] by (metis set_mset_mset)
    from check_no_overlap_iff [OF this] show ?thesis by (simp add: live_intervals_apart)
  qed
  have plain: "slots_apart (live_slots tt d)" if "d \<notin> to_date ` set (tt_overrides tt)" for d
  proof -
    from that have "todays_overrides tt d = []" by (auto simp: todays_overrides_def filter_empty_conv)
    from live_slots_plain [OF this] assms show ?thesis by (simp add: entries_ok_def)
  qed
  have all: "(\<forall>d. slots_apart (live_slots tt d)) \<longleftrightarrow> (\<forall>ov \<in> set (tt_overrides tt). slots_apart (live_slots tt (to_date ov)))"
    using plain by (metis imageE)
  show ?thesis
    using ch
    by (auto simp: validate_overrides_def res_bind_Inr validate_overrides_loop_Inr each_Inr overrides_ok_def set_fold_insert all)
qed

section \<open>The timetable\<close>

definition validity_ok :: "tt_validity \<Rightarrow> int \<Rightarrow> bool" where
  "validity_ok v week_start \<longleftrightarrow>
     (\<forall>d. tv_valid_from v = Some d \<or> tv_valid_until v = Some d \<or> d \<in> set (tv_excluded_weeks v) \<longrightarrow> check_date d = Inr ())
     \<and> (\<forall>f u. tv_valid_from v = Some f \<and> tv_valid_until v = Some u \<longrightarrow> f \<le> u)
     \<and> length (tv_excluded_weeks v) \<le> 110 \<and> sorted (tv_excluded_weeks v) \<and> distinct (tv_excluded_weeks v)
     \<and> (\<forall>w \<in> set (tv_excluded_weeks v). week_anchor w week_start = Inr w)"

lemma sorted_set_iff: "xs = sort (remdups xs) \<longleftrightarrow> sorted xs \<and> distinct xs"
  for xs :: "'a :: linorder list"
  by (metis distinct_remdups distinct_remdups_id distinct_sort sorted_sort sorted_sort_id)

lemma validate_validity_iff: "validate_validity tt = Inr () \<longleftrightarrow> validity_ok (tt_validity tt) (tt_week_start tt)"
  by (auto simp: validate_validity_def validity_ok_def res_bind_Inr each_Inr Let_def sorted_set_iff not_less
      split: option.splits)

definition header_ok :: "tt_lib \<Rightarrow> timetable \<Rightarrow> bool" where
  "header_ok lib tt \<longleftrightarrow> (\<forall>i \<in> {tt_id tt, tt_created_by tt} \<union> set_option (tt_updated_by tt) \<union> set (tt_assignees tt). check_id i = Inr ())
     \<and> normalize_name (tt_name tt) = Inr (tt_name tt) \<and> tt_week_start tt \<in> {0, 6}
     \<and> length (tt_tz tt) \<le> 64 \<and> tl_is_tz lib (tt_tz tt) \<and> check_color (tt_color tt) = Inr ()
     \<and> tt_version tt \<in> {1..max_version} \<and> tt_days tt \<noteq> [] \<and> set (tt_days tt) \<subseteq> {0..6}
     \<and> sorted (tt_days tt) \<and> distinct (tt_days tt)
     \<and> td_lesson_minutes (tt_defaults tt) \<in> {5..240} \<and> td_gap_minutes (tt_defaults tt) \<in> {0..120}
     \<and> is_hhmm (td_day_start (tt_defaults tt))
     \<and> length (tt_assignees tt) \<le> 20 \<and> distinct (tt_assignees tt)"

lemma validate_header_iff: "validate_header lib tt = Inr () \<longleftrightarrow> header_ok lib tt"
proof -
  have days: "(\<forall>d \<in> set ds. 0 \<le> d \<and> d < 7) \<longleftrightarrow> set ds \<subseteq> {0..6}" for ds :: "int list" by auto
  show ?thesis
    by (cases "tt_updated_by tt")
      (auto simp: validate_header_def header_ok_def res_bind_Inr each_Inr sorted_set_iff days)
qed

definition timetable_ok :: "tt_lib \<Rightarrow> timetable \<Rightarrow> bool" where
  "timetable_ok lib tt \<longleftrightarrow> header_ok lib tt \<and> entries_ok lib (tt_days tt) (tt_entries tt)
     \<and> overrides_ok lib tt \<and> validity_ok (tt_validity tt) (tt_week_start tt)"

definition wire_fits :: "tt_lib \<Rightarrow> timetable \<Rightarrow> bool" where
  "wire_fits lib tt \<longleftrightarrow> (\<exists>n. tl_dumps_len lib (JObj (to_wire_dict lib tt)) = Some n \<and> n \<le> max_wire_bytes)"

text \<open>The validator accepts exactly the timetables that meet the description and fit the wire.\<close>

lemma validate_iff: "validate lib tt = Inr () \<longleftrightarrow> timetable_ok lib tt \<and> wire_fits lib tt"
  by (auto simp: validate_def res_bind_Inr validate_entries_iff validate_overrides_iff validate_validity_iff
      validate_header_iff timetable_ok_def wire_fits_def split: option.split)

end
