(* ===== verification/Timetable_Props.thy ===== *)
theory Timetable_Props
  imports Timetable_Valid
begin

text \<open>
  The properties of the timetable: what the validator accepts, that a resolved day never has two slots at
  one time, that every mutator keeps a timetable valid, and how weeks, pruning and removals behave.
\<close>

section \<open>Validation and resolving\<close>

text \<open>
  C26. \<open>validate\<close> accepts a timetable exactly when it meets the declarative description of a consistent
  timetable, no two slots of any date overlapping once overrides are applied, and it fits the wire.
\<close>

theorem validate_meets_description:
  "validate lib tt = Inr () \<longleftrightarrow> timetable_ok lib tt \<and> wire_fits lib tt"
  by (rule validate_iff)

lemma sorted_apart:
  "sorted ivs \<Longrightarrow> slots_apart ivs \<Longrightarrow> \<forall>iv \<in> set ivs. ordered_iv iv \<Longrightarrow> sorted_wrt (\<lambda>a b. snd a \<le> fst b) ivs"
proof (induction ivs)
  case (Cons a ivs)
  have "snd a \<le> fst b" if "b \<in> set ivs" for b
  proof -
    from Cons.prems(1) that have "fst a \<le> fst b" by (auto simp: less_eq_prod_def)
    moreover from Cons.prems(2) that have "disjoint_iv a b" by simp
    moreover from Cons.prems(3) that have "fst b < snd b" by simp
    ultimately show ?thesis by (auto simp: disjoint_iv_def)
  qed
  with Cons show ?case by simp
qed simp

lemma timetable_ok_live_slots:
  assumes "timetable_ok lib tt"
  shows "slots_apart (live_slots tt d)" "\<forall>iv \<in> set (live_slots tt d). ordered_iv iv"
proof -
  show "slots_apart (live_slots tt d)" using assms by (simp add: timetable_ok_def overrides_ok_def)
  show "\<forall>iv \<in> set (live_slots tt d). ordered_iv iv"
    by (rule live_slots_ordered) (use assms in \<open>auto simp: timetable_ok_def overrides_ok_def override_ok_def\<close>)
qed

lemma live_lessons_in_order:
  assumes "timetable_ok lib tt"
  shows "sorted_wrt (\<lambda>a b. el_end a \<le> el_start b) (filter takes_place (effective_lessons tt d))"
    "\<forall>ls \<in> set (filter takes_place (effective_lessons tt d)). el_start ls < el_end ls"
proof -
  let ?ls = "filter takes_place (effective_lessons tt d)"
  have li: "map lesson_iv ?ls = live_intervals tt d" by (simp add: live_intervals_def)
  have "sorted (map lesson_iv ?ls)"
    unfolding effective_lessons_sort filter_sort by (rule sorted_sort_key)
  moreover have "slots_apart (map lesson_iv ?ls)"
    unfolding li live_intervals_apart by (rule timetable_ok_live_slots [OF assms])
  moreover have o: "\<forall>iv \<in> set (map lesson_iv ?ls). ordered_iv iv"
    using timetable_ok_live_slots(2) [OF assms, of d] mset_live_intervals [of tt d] unfolding li by (metis set_mset_mset)
  ultimately have "sorted_wrt (\<lambda>a b. snd a \<le> fst b) (map lesson_iv ?ls)" by (rule sorted_apart)
  then show "sorted_wrt (\<lambda>a b. el_end a \<le> el_start b) ?ls" by (simp add: sorted_wrt_map)
  from o show "\<forall>ls \<in> set ?ls. el_start ls < el_end ls" by auto
qed

text \<open>
  C14. A resolved day of a valid timetable is a real plan: the lessons that take place are listed in order,
  each ends before the next one starts, and none is empty.
\<close>

theorem resolved_days_never_overlap:
  assumes "validate lib tt = Inr ()" "resolve_day tt d = Inr day"
  shows "sorted_wrt (\<lambda>a b. el_end a \<le> el_start b) (filter takes_place (rd_lessons day))
    \<and> (\<forall>ls \<in> set (filter takes_place (rd_lessons day)). el_start ls < el_end ls)"
  using live_lessons_in_order [of lib tt d] assms
  by (auto simp: validate_iff resolve_day_def res_bind_Inr Let_def)

section \<open>Edits\<close>

text \<open>The mutators as one type of edits.\<close>

datatype tt_edit =
    Edit_header header_changes bool
  | Edit_entry tt_entry
  | Edit_remove_entry string
  | Edit_entries "tt_entry list"
  | Edit_generate int "tt_entry list" bool
  | Edit_copy "nat \<Rightarrow> string" int "int list" bool bool
  | Edit_shift int py_time int
  | Edit_validity tt_validity
  | Edit_override tt_override
  | Edit_remove_override string
  | Edit_clear_week py_date

fun apply_edit :: "tt_lib \<Rightarrow> int \<Rightarrow> string option \<Rightarrow> tt_edit \<Rightarrow> timetable \<Rightarrow> tt_error + timetable" where
  "apply_edit lib now u (Edit_header hc drop_orphans) tt = with_header lib now u hc drop_orphans tt"
| "apply_edit lib now u (Edit_entry e) tt = with_entry lib now u e tt"
| "apply_edit lib now u (Edit_remove_entry i) tt = without_entry lib now u i tt"
| "apply_edit lib now u (Edit_entries es) tt = with_entries lib now u es tt"
| "apply_edit lib now u (Edit_generate wd slots repl) tt = generate_day lib now u wd slots repl tt"
| "apply_edit lib now u (Edit_copy mint wd tos subj repl) tt = copy_day lib now u mint wd tos subj repl tt"
| "apply_edit lib now u (Edit_shift wd t m) tt = shift_after lib now u wd t m tt"
| "apply_edit lib now u (Edit_validity v) tt = with_validity lib now u v tt"
| "apply_edit lib now u (Edit_override ov) tt = with_override lib now u ov tt"
| "apply_edit lib now u (Edit_remove_override i) tt = without_override lib now u i tt"
| "apply_edit lib now u (Edit_clear_week d) tt = clear_week lib now u d tt"

definition only_invalid :: "tt_error + 'a \<Rightarrow> bool" where
  "only_invalid r \<longleftrightarrow> (\<forall>e. r = Inl e \<longrightarrow> e = TTInvalid)"

lemma only_invalid_base [simp]: "only_invalid (Inr x)" "only_invalid (Inl TTInvalid)" "only_invalid (ensure b TTInvalid)"
  by (simp_all add: only_invalid_def)

lemma only_invalid_bind [intro!]: "only_invalid r \<Longrightarrow> (\<And>x. r = Inr x \<Longrightarrow> only_invalid (f x)) \<Longrightarrow> only_invalid (res_bind r f)"
  by (cases r) (auto simp: only_invalid_def)

lemma only_invalid_each [intro!]: "(\<And>x. x \<in> set xs \<Longrightarrow> only_invalid (f x)) \<Longrightarrow> only_invalid (each f xs)"
  by (induction xs) auto

lemma only_invalid_traverse [intro!]: "(\<And>x. x \<in> set xs \<Longrightarrow> only_invalid (f x)) \<Longrightarrow> only_invalid (traverse f xs)"
  by (induction xs) auto

lemma only_invalid_checks [simp]:
  "only_invalid (check_id s)" "only_invalid (check_date d)" "only_invalid (week_anchor d ws)"
  "only_invalid (normalize_name s)" "only_invalid (check_color c)" "only_invalid (check_icon lib i)"
  "only_invalid (check_texts lib x)" "only_invalid (check_order t e)" "only_invalid (check_interval t e)"
  "only_invalid (check_no_overlap ivs)"
  by (auto simp: check_id_def check_date_def week_anchor_def normalize_name_def Let_def check_color_def check_icon_def
      check_texts_def check_order_def check_interval_def check_no_overlap_def)

lemma only_invalid_validate: "only_invalid (validate lib tt)"
proof -
  have "only_invalid (validate_header lib tt)" by (auto simp: validate_header_def split: option.split)
  moreover have "only_invalid (validate_entries_loop lib ds es m pd)" for ds es m pd
    by (induction es arbitrary: m pd) (auto simp del: fun_upd_apply)
  then have "only_invalid (validate_entries lib tt)" by (auto simp: validate_entries_def)
  moreover have "only_invalid (validate_override_target m ov seen)" for m ov seen
    by (auto simp: validate_override_target_def split: option.split)
  then have "only_invalid (validate_overrides_loop lib ds m ovs a b c)" for ds m ovs a b c
    by (induction ovs arbitrary: a b c) auto
  then have "only_invalid (validate_overrides lib tt m)" for m by (auto simp: validate_overrides_def)
  moreover have "only_invalid (validate_validity tt)" by (auto simp: validate_validity_def Let_def)
  ultimately show ?thesis by (auto simp: validate_def split: option.split)
qed

lemma commit_Inr:
  "commit lib now u t = Inr t' \<Longrightarrow> validate lib t' = Inr () \<and> tt_version t' = tt_version t + 1"
  by (auto simp: commit_def Let_def res_bind_Inr)

lemma only_invalid_commit [simp]: "only_invalid (commit lib now u t)"
  using only_invalid_validate by (auto simp: commit_def Let_def)

lemma with_entry_set_Inr:
  "with_entry_set lib now u es t = Inr t' \<Longrightarrow> validate lib t' = Inr () \<and> tt_version t' = tt_version t + 1"
  by (auto simp: with_entry_set_def dest!: commit_Inr)

lemma only_invalid_with_entry_set [simp]: "only_invalid (with_entry_set lib now u es t)"
  by (simp add: with_entry_set_def)

lemma opt_set_version [simp]: "(\<And>v t. tt_version (f v t) = tt_version t) \<Longrightarrow> tt_version (opt_set x f tt) = tt_version tt"
  by (simp add: opt_set_def split: option.split)

lemma change_version:
  "change_week_start ws tt = Inr t \<Longrightarrow> tt_version t = tt_version tt"
  "change_days dr ds tt = Inr t \<Longrightarrow> tt_version t = tt_version tt"
  by (auto simp: change_week_start_def change_days_def Let_def split: option.splits if_splits)

lemma apply_edit_Inr:
  assumes "validate lib tt = Inr ()" "apply_edit lib now u ed tt = Inr tt'"
  shows "validate lib tt' = Inr () \<and> (tt' = tt \<or> tt_version tt' = tt_version tt + 1)"
proof (cases ed)
  case (Edit_header hc dr)
  with assms(2) show ?thesis
    by (auto simp: with_header_def res_bind_Inr change_version dest!: commit_Inr)
qed (use assms in \<open>auto simp: with_entry_def without_entry_def with_entries_def generate_day_def copy_day_def shift_after_def
    with_validity_def with_override_def without_override_def clear_week_def Let_def res_bind_Inr
    dest!: commit_Inr with_entry_set_Inr split: if_splits prod.splits\<close>)

lemma from_minutes_Inr: "0 \<le> k \<Longrightarrow> k \<le> 1439 \<Longrightarrow> from_minutes k = Inr (PyTime (nat (k div 60)) (nat (k mod 60)) 0 0)"
  using zdiv_mono1 [of k 1439 60] by (simp add: from_minutes_def pos_imp_zdiv_nonneg_iff)

lemma only_invalid_shift:
  "\<forall>e \<in> set es. slot_ok (te_start e) (te_end e) \<Longrightarrow> only_invalid (shift_entries wd t m es)"
proof (induction es)
  case (Cons e es)
  have "only_invalid (from_minutes (minutes_of (te_start e) + m)) \<and> only_invalid (from_minutes (minutes_of (te_end e) + m))"
    if "0 \<le> minutes_of (te_start e) + m" "minutes_of (te_end e) + m \<le> last_minute"
  proof -
    have "minutes_of (te_start e) + 5 \<le> minutes_of (te_end e)" using Cons.prems by (simp add: slot_ok_def)
    with that show ?thesis by (simp add: from_minutes_Inr last_minute_def)
  qed
  with Cons show ?case by (auto simp: Let_def)
qed simp

text \<open>An edit may also be refused until the caller confirms dropping entries; then there are some to drop.\<close>

definition refused_properly :: "tt_error + 'a \<Rightarrow> bool" where
  "refused_properly r \<longleftrightarrow> (\<forall>e. r = Inl e \<longrightarrow> e = TTInvalid \<or> (\<exists>code n. e = TTOrphan code (Suc n)))"

lemma only_invalid_proper: "only_invalid r \<Longrightarrow> refused_properly r"
  by (simp add: only_invalid_def refused_properly_def)

lemma refused_bind: "refused_properly r \<Longrightarrow> (\<And>x. r = Inr x \<Longrightarrow> refused_properly (f x)) \<Longrightarrow> refused_properly (res_bind r f)"
  by (cases r) (auto simp: refused_properly_def)

lemma refused_orphan [simp]: "n \<noteq> 0 \<Longrightarrow> refused_properly (Inl (TTOrphan code n))"
  by (cases n) (auto simp: refused_properly_def)

lemma apply_edit_refused: "timetable_ok lib tt \<Longrightarrow> refused_properly (apply_edit lib now u ed tt)"
proof (cases ed)
  case (Edit_header hc dr)
  have a: "only_invalid (change_week_start ws tt)" for ws
    by (auto simp: change_week_start_def Let_def split: option.split)
  have b: "refused_properly (change_days dr ds t)" for ds t
    by (auto simp: change_days_def Let_def only_invalid_proper split: option.split)
  have c: "only_invalid (case hc_name hc of None \<Rightarrow> Inr None | Some n \<Rightarrow> res_bind (normalize_name n) (\<lambda>n'. Inr (Some n')))"
    by (auto split: option.split)
  show ?thesis unfolding Edit_header apply_edit.simps with_header_def
    by (rule refused_bind [OF only_invalid_proper [OF c] refused_bind [OF only_invalid_proper [OF a]
          refused_bind [OF b only_invalid_proper [OF only_invalid_commit]]]])
next
  case (Edit_generate wd slots repl)
  then show ?thesis by (auto simp: generate_day_def Let_def only_invalid_proper)
next
  case (Edit_copy mint wd tos subj repl)
  then show ?thesis by (auto simp: copy_day_def Let_def only_invalid_proper)
next
  case (Edit_shift wd t m)
  assume ok: "timetable_ok lib tt"
  have "only_invalid (shift_entries wd t m (tt_entries tt))"
    by (rule only_invalid_shift) (use ok in \<open>auto simp: timetable_ok_def entries_ok_def entry_ok_def\<close>)
  then show ?thesis unfolding Edit_shift by (auto simp: shift_after_def intro!: only_invalid_proper split: prod.splits)
qed (auto simp: with_entry_def without_entry_def with_entries_def with_validity_def with_override_def without_override_def
    clear_week_def Let_def intro!: only_invalid_proper)

text \<open>A session of edits; a refused edit leaves the timetable as it is.\<close>

fun run_edits :: "tt_lib \<Rightarrow> (int \<times> string option \<times> tt_edit) list \<Rightarrow> timetable \<Rightarrow> timetable" where
  "run_edits lib [] tt = tt"
| "run_edits lib ((now, u, ed) # eds) tt =
     run_edits lib eds (case apply_edit lib now u ed tt of Inl e \<Rightarrow> tt | Inr tt' \<Rightarrow> tt')"

text \<open>
  C13. Every session of edits keeps a valid timetable valid.  The version grows by at most one per edit, and
  the next edit, whatever it is, is either performed or refused with a validation error or a count of the
  entries it would drop; no other exception escapes.
\<close>

theorem edits_keep_timetable_valid:
  assumes "validate lib tt = Inr ()"
  shows "validate lib (run_edits lib eds tt) = Inr ()
    \<and> tt_version tt \<le> tt_version (run_edits lib eds tt)
    \<and> tt_version (run_edits lib eds tt) \<le> tt_version tt + int (length eds)
    \<and> refused_properly (apply_edit lib now u ed (run_edits lib eds tt))"
  using assms
proof (induction eds arbitrary: tt)
  case Nil
  then show ?case by (simp add: validate_iff apply_edit_refused)
next
  case (Cons x eds)
  obtain now' u' ed' where x: "x = (now', u', ed')" by (cases x)
  show ?case
  proof (cases "apply_edit lib now' u' ed' tt")
    case (Inl e)
    with Cons.IH [OF Cons.prems] show ?thesis by (simp add: x)
  next
    case (Inr tt')
    from apply_edit_Inr [OF Cons.prems Inr] have "validate lib tt' = Inr ()" "tt_version tt \<le> tt_version tt'" "tt_version tt' \<le> tt_version tt + 1"
      by auto
    with Cons.IH [of tt'] Inr show ?thesis by (auto simp: x)
  qed
qed

section \<open>A concrete timetable\<close>

definition demo_lib :: tt_lib where
  "demo_lib = \<lparr>tl_is_tz = (\<lambda>z. z = ''UTC''), tl_is_emoji = (\<lambda>_. False), tl_dumps_len = (\<lambda>_. Some 0),
     tl_isoformat = (\<lambda>t. if t = 0 then ''1970-01-01T00:00:00+00:00'' else ''''),
     tl_fromisoformat = (\<lambda>s. if s = ''1970-01-01T00:00:00+00:00'' then Some (Aware 0) else None)\<rparr>"

definition demo_entries :: "tt_entry list" where
  "demo_entries =
     [\<lparr>te_id = ''e1'', te_weekday = 0, te_start = PyTime 8 0 0 0, te_end = PyTime 8 45 0 0, te_kind = LESSON,
       te_texts = no_texts\<lparr>tx_title := Some ''Maths''\<rparr>\<rparr>,
      \<lparr>te_id = ''e2'', te_weekday = 0, te_start = PyTime 8 45 0 0, te_end = PyTime 9 30 0 0, te_kind = LESSON,
       te_texts = no_texts\<rparr>]"

definition demo_timetable :: timetable where
  "demo_timetable = \<lparr>tt_id = ''t'', tt_name = ''Plan'', tt_created_by = ''u'', tt_created_at = 0, tt_updated_at = 0,
     tt_week_start = 0, tt_tz = ''UTC'', tt_color = None, tt_days = [0, 1], tt_defaults = stock_defaults,
     tt_entries = demo_entries,
     tt_overrides = [\<lparr>to_id = ''o1'', to_date = 739621, to_kind = OV_REPLACE, to_entry_id = Some ''e2'',
       to_start = Some (PyTime 10 0 0 0), to_end = Some (PyTime 10 45 0 0), to_entry_kind = LESSON, to_texts = no_texts\<rparr>],
     tt_validity = \<lparr>tv_valid_from = None, tv_valid_until = None, tv_excluded_weeks = [739649]\<rparr>,
     tt_assignees = [], tt_version = 1, tt_updated_by = None\<rparr>"

lemma demo_valid: "validate demo_lib demo_timetable = Inr ()"
  by code_simp

theorem resolved_days_never_overlap_witness:
  "\<exists>day. resolve_day demo_timetable 739621 = Inr day \<and> map el_start (rd_lessons day) = [PyTime 8 0 0 0, PyTime 10 0 0 0]
     \<and> sorted_wrt (\<lambda>a b. el_end a \<le> el_start b) (filter takes_place (rd_lessons day))"
proof -
  have "map_sum id (\<lambda>day. map el_start (rd_lessons day)) (resolve_day demo_timetable 739621)
      = Inr [PyTime 8 0 0 0, PyTime 10 0 0 0]" by code_simp
  then obtain day where day: "resolve_day demo_timetable 739621 = Inr day" "map el_start (rd_lessons day) = [PyTime 8 0 0 0, PyTime 10 0 0 0]"
    by (cases "resolve_day demo_timetable 739621") auto
  from resolved_days_never_overlap [OF demo_valid day(1)]
  have "sorted_wrt (\<lambda>a b. el_end a \<le> el_start b) (filter takes_place (rd_lessons day))" by (rule conjunct1)
  with day show ?thesis by (intro exI [of _ day] conjI)
qed

theorem edits_keep_timetable_valid_witness:
  "validate demo_lib (run_edits demo_lib [(0, None, Edit_remove_entry ''e1''), (0, None, Edit_remove_entry ''zz'')] demo_timetable) = Inr ()
   \<and> map te_id (tt_entries (run_edits demo_lib [(0, None, Edit_remove_entry ''e1''), (0, None, Edit_remove_entry ''zz'')] demo_timetable)) = [''e2'']"
proof
  show "validate demo_lib (run_edits demo_lib [(0, None, Edit_remove_entry ''e1''), (0, None, Edit_remove_entry ''zz'')] demo_timetable) = Inr ()"
    using edits_keep_timetable_valid [OF demo_valid] by blast
  show "map te_id (tt_entries (run_edits demo_lib [(0, None, Edit_remove_entry ''e1''), (0, None, Edit_remove_entry ''zz'')] demo_timetable)) = [''e2'']"
    by code_simp
qed

end
