(* ===== verification/Timetable_More.thy ===== *)
theory Timetable_More
  imports Timetable_Props
begin

text \<open>
  Further properties of the timetable: pruning, removals that can never be refused, weeks, the school
  template, the wire round trip and the one request body that escapes as a \<open>TypeError\<close>.
\<close>

section \<open>Fewer overrides\<close>

text \<open>Keeping or dropping the overrides of whole dates, or dropping entries with their overrides, cannot break a plan.\<close>

lemma todays_filter_dates:
  "P d \<Longrightarrow> todays_overrides (tt\<lparr>tt_overrides := filter (\<lambda>ov. P (to_date ov)) (tt_overrides tt)\<rparr>) d = todays_overrides tt d"
  by (auto simp: todays_overrides_def intro: filter_cong)

lemma todays_filter_dates_empty:
  "\<not> P d \<Longrightarrow> todays_overrides (tt\<lparr>tt_overrides := filter (\<lambda>ov. P (to_date ov)) (tt_overrides tt)\<rparr>) d = []"
  by (auto simp: todays_overrides_def filter_empty_conv)

lemma unsorted_lessons_cong:
  "todays_overrides tt' d = todays_overrides tt d \<Longrightarrow> tt_entries tt' = tt_entries tt \<Longrightarrow> unsorted_lessons tt' d = unsorted_lessons tt d"
  by (simp add: unsorted_lessons_def)

lemma distinct_targets_filter: "distinct (targets ovs) \<Longrightarrow> distinct (targets (filter P ovs))"
  by (induction ovs) auto

lemma keep_dates_ok:
  assumes "timetable_ok lib tt"
  shows "timetable_ok lib (tt\<lparr>tt_overrides := filter (\<lambda>ov. P (to_date ov)) (tt_overrides tt)\<rparr>)"
proof -
  let ?tt' = "tt\<lparr>tt_overrides := filter (\<lambda>ov. P (to_date ov)) (tt_overrides tt)\<rparr>"
  have e: "entries_ok lib (tt_days tt) (tt_entries tt)" and o: "overrides_ok lib tt"
    using assms by (simp_all add: timetable_ok_def)
  have "slots_apart (live_slots ?tt' d)" for d
  proof (cases "P d")
    case True
    from unsorted_lessons_cong [OF todays_filter_dates [where P = P, OF True]] o show ?thesis
      by (simp add: live_slots_def overrides_ok_def)
  next
    case False
    from live_slots_plain [OF todays_filter_dates_empty [where P = P, OF False]] e show ?thesis
      by (simp add: entries_ok_def)
  qed
  moreover have "distinct (targets (filter (\<lambda>ov. P (to_date ov)) (tt_overrides tt)))"
    by (rule distinct_targets_filter) (use o in \<open>simp add: overrides_ok_def\<close>)
  ultimately have "overrides_ok lib ?tt'"
    using o by (auto simp: overrides_ok_def distinct_map_filter intro: order.trans [OF length_filter_le])
  with assms show ?thesis by (simp add: timetable_ok_def header_ok_def)
qed

text \<open>
  Pruning is housekeeping.  It keeps a consistent timetable consistent, leaves its version alone, changes
  nothing when repeated, and every date from the cut-off on resolves exactly as before.
\<close>

theorem prune_keeps_recent_days:
  assumes "timetable_ok lib tt"
  shows "timetable_ok lib (prune_overrides tt today)
    \<and> tt_version (prune_overrides tt today) = tt_version tt
    \<and> prune_overrides (prune_overrides tt today) today = prune_overrides tt today
    \<and> (\<forall>d \<ge> today - 14. resolve_day (prune_overrides tt today) d = resolve_day tt d)"
proof -
  let ?keep = "\<lambda>ov. to_date ov \<ge> today - 14"
  have p: "prune_overrides tt today = tt\<lparr>tt_overrides := filter ?keep (tt_overrides tt)\<rparr>"
  proof (cases "length (filter ?keep (tt_overrides tt)) = length (tt_overrides tt)")
    case True
    then have "filter ?keep (tt_overrides tt) = tt_overrides tt"
      by (metis filter_id_conv length_filter_less less_irrefl)
    then show ?thesis by (simp add: prune_overrides_def override_retention_days_def)
  qed (simp add: prune_overrides_def override_retention_days_def Let_def)
  have same: "effective_lessons (prune_overrides tt today) d = effective_lessons tt d" if "d \<ge> today - 14" for d
    unfolding effective_lessons_sort p
    using unsorted_lessons_cong [OF todays_filter_dates [where P = "\<lambda>x. x \<ge> today - 14", OF that]] by simp
  have "prune_overrides (prune_overrides tt today) today = prune_overrides tt today"
    unfolding p by (simp add: prune_overrides_def override_retention_days_def)
  moreover have "resolve_day (prune_overrides tt today) d = resolve_day tt d" if "d \<ge> today - 14" for d
    unfolding resolve_day_def same [OF that] by (simp add: p)
  ultimately show ?thesis using keep_dates_ok [OF assms, where P = "\<lambda>x. x \<ge> today - 14"] by (simp add: p)
qed

theorem prune_keeps_recent_days_witness:
  "tt_overrides (prune_overrides demo_timetable 739700) = []
   \<and> prune_overrides (prune_overrides demo_timetable 739700) 739700 = prune_overrides demo_timetable 739700"
proof
  show "tt_overrides (prune_overrides demo_timetable 739700) = []"
    by (simp add: prune_overrides_def demo_timetable_def override_retention_days_def)
  from demo_valid have "timetable_ok demo_lib demo_timetable" by (simp add: validate_iff)
  from prune_keeps_recent_days [OF this, of 739700]
  show "prune_overrides (prune_overrides demo_timetable 739700) 739700 = prune_overrides demo_timetable 739700" by blast
qed

section \<open>Removals\<close>

lemma by_entry_filter:
  "(\<And>ov. ov \<in> set ovs \<Longrightarrow> to_kind ov \<noteq> OV_ADD \<Longrightarrow> to_entry_id ov = Some i \<Longrightarrow> P ov) \<Longrightarrow> by_entry (filter P ovs) i = by_entry ovs i"
  by (induction ovs) (auto simp: by_entry_def)

lemma entry_index_filter: "P e \<Longrightarrow> entry_index es i = Some e \<Longrightarrow> distinct (map te_id es) \<Longrightarrow> entry_index (filter P es) i = Some e"
proof (induction es)
  case (Cons x es)
  then show ?case by (auto simp: entry_index_Cons split: if_splits)
qed simp

lemma entry_index_None: "entry_index es i = None \<longleftrightarrow> i \<notin> te_id ` set es"
  by (metis domIff dom_entry_index)

lemma live_overrides_filter:
  assumes "timetable_ok lib tt"
  shows "live_overrides (tt_overrides tt) (filter P (tt_entries tt))
     = filter (\<lambda>ov. to_kind ov = OV_ADD \<or> (\<exists>e. entry_index (tt_entries tt) (the (to_entry_id ov)) = Some e \<and> P e)) (tt_overrides tt)"
proof -
  have d: "distinct (map te_id (tt_entries tt))" using assms by (simp add: timetable_ok_def entries_ok_def)
  have idx: "map_of (rev (map (\<lambda>e. (te_id e, te_weekday e)) (filter P (tt_entries tt)))) i
      = (case entry_index (tt_entries tt) i of None \<Rightarrow> None | Some e \<Rightarrow> if P e then Some (te_weekday e) else None)" for i
  proof -
    have "map_of (rev (map (\<lambda>e. (te_id e, te_weekday e)) (filter P es))) = map_of (map (\<lambda>e. (te_id e, te_weekday e)) (filter P es))"
      if "distinct (map te_id es)" for es
      using that by (intro map_of_rev_distinct) (simp add: o_def distinct_map_filter)
    moreover have "map_of (map (\<lambda>e. (te_id e, te_weekday e)) (filter P es)) i
        = (case entry_index es i of None \<Rightarrow> None | Some e \<Rightarrow> if P e then Some (te_weekday e) else None)"
      if "distinct (map te_id es)" for es using that
    proof (induction es)
      case (Cons x es)
      then have "te_id x = i \<Longrightarrow> entry_index es i = None" by (simp add: entry_index_None)
      with Cons show ?case by (auto simp: entry_index_Cons)
    qed simp
    ultimately show ?thesis using d by simp
  qed
  have t: "target_ok (tt_entries tt) ov" if "ov \<in> set (tt_overrides tt)" for ov
    using assms that by (auto simp: timetable_ok_def overrides_ok_def override_ok_def)
  show ?thesis unfolding live_overrides_def Let_def idx
    by (rule filter_cong [OF refl]) (use t in \<open>fastforce simp: target_ok_def split: option.splits if_splits\<close>)
qed

lemma lesson_of_add_other: "to_kind ov \<noteq> OV_ADD \<Longrightarrow> lesson_of_add d ov = []"
  by (auto simp: lesson_of_add_def split: option.split)

lemma concat_adds_filter:
  "(\<And>ov. ov \<in> set ovs \<Longrightarrow> to_kind ov = OV_ADD \<Longrightarrow> P ov) \<Longrightarrow>
     concat (map (lesson_of_add d) (filter P ovs)) = concat (map (lesson_of_add d) ovs)"
proof (induction ovs)
  case (Cons a ovs)
  have "lesson_of_add d a = []" if "\<not> P a" using Cons.prems [of a] that by (auto intro: lesson_of_add_other)
  with Cons show ?case by simp
qed simp

lemma entries_ok_filter: "entries_ok lib days es \<Longrightarrow> entries_ok lib days (filter P es)"
proof -
  assume ok: "entries_ok lib days es"
  have "filter (\<lambda>e. te_weekday e = wd) (filter P es) = filter P (filter (\<lambda>e. te_weekday e = wd) es)" for wd
    by (simp add: conj_commute)
  with ok show ?thesis
    by (auto simp: entries_ok_def distinct_map_filter simp del: filter_filter
        intro: order.trans [OF length_filter_le] slots_apart_map_filter)
qed

lemma apart_drop:
  "slots_apart (map f (filter T (map L W @ A))) \<Longrightarrow> slots_apart (map f (filter T (map L (filter P W) @ A)))"
  by (induction W) (auto split: if_splits)

lemma remove_entries_ok:
  assumes ok: "timetable_ok lib tt"
  shows "timetable_ok lib (tt\<lparr>tt_entries := filter P (tt_entries tt),
     tt_overrides := live_overrides (tt_overrides tt) (filter P (tt_entries tt))\<rparr>)"
proof -
  define Q :: "tt_override \<Rightarrow> bool" where "Q = (\<lambda>ov. to_kind ov = OV_ADD \<or> (\<exists>e. entry_index (tt_entries tt) (the (to_entry_id ov)) = Some e \<and> P e))"
  let ?tt' = "tt\<lparr>tt_entries := filter P (tt_entries tt), tt_overrides := filter Q (tt_overrides tt)\<rparr>"
  have lo: "live_overrides (tt_overrides tt) (filter P (tt_entries tt)) = filter Q (tt_overrides tt)"
    using live_overrides_filter [OF ok] by (simp add: Q_def)
  have e: "entries_ok lib (tt_days tt) (tt_entries tt)" and o: "overrides_ok lib tt" using ok by (simp_all add: timetable_ok_def)
  then have dist: "distinct (map te_id (tt_entries tt))" by (simp add: entries_ok_def)
  have tg: "target_ok (filter P (tt_entries tt)) ov" if "target_ok (tt_entries tt) ov" "Q ov" for ov
    using that entry_index_filter [OF _ _ dist] by (fastforce simp: target_ok_def Q_def)
  have "slots_apart (live_slots ?tt' d)" for d
  proof -
    let ?L = "lesson_of_entry (todays_overrides tt d) d" and ?W = "filter (\<lambda>e. te_weekday e = date_weekday d) (tt_entries tt)"
      and ?A = "concat (map (lesson_of_add d) (todays_overrides tt d))"
    have td: "todays_overrides ?tt' d = filter Q (todays_overrides tt d)" by (simp add: todays_overrides_def conj_commute)
    have same: "lesson_of_entry (todays_overrides ?tt' d) d e = ?L e" if "e \<in> set (tt_entries tt)" "P e" for e
    proof -
      have "by_entry (filter Q (todays_overrides tt d)) (te_id e) = by_entry (todays_overrides tt d) (te_id e)"
        by (rule by_entry_filter) (use that entry_index_member [OF dist] in \<open>auto simp: Q_def\<close>)
      then show ?thesis by (simp add: lesson_of_entry_def td)
    qed
    have "concat (map (lesson_of_add d) (todays_overrides ?tt' d)) = ?A"
      unfolding td by (rule concat_adds_filter) (simp add: Q_def)
    moreover have "map (lesson_of_entry (todays_overrides ?tt' d) d) (filter (\<lambda>e. te_weekday e = date_weekday d) (filter P (tt_entries tt)))
        = map ?L (filter P ?W)"
      by (auto simp: conj_commute same intro!: map_cong)
    ultimately have u: "unsorted_lessons ?tt' d = map ?L (filter P ?W) @ ?A" by (simp add: unsorted_lessons_def)
    have "slots_apart (map lesson_iv (filter takes_place (map ?L ?W @ ?A)))"
      using o by (simp add: overrides_ok_def live_slots_def unsorted_lessons_def)
    from apart_drop [OF this, of P]
    have "slots_apart (map lesson_iv (filter takes_place (map ?L (filter P ?W) @ ?A)))" .
    then show ?thesis by (simp only: live_slots_def u)
  qed
  moreover have "distinct (targets (filter Q (tt_overrides tt)))"
    by (rule distinct_targets_filter) (use o in \<open>simp add: overrides_ok_def\<close>)
  ultimately have "overrides_ok lib ?tt'"
    using o tg by (auto simp: overrides_ok_def override_ok_def distinct_map_filter intro: order.trans [OF length_filter_le])
  with ok entries_ok_filter [OF e] show ?thesis unfolding lo by (simp add: timetable_ok_def header_ok_def)
qed

definition stamped :: "int \<Rightarrow> string option \<Rightarrow> timetable \<Rightarrow> timetable" where
  "stamped now u t = t\<lparr>tt_version := tt_version t + 1, tt_updated_at := now, tt_updated_by := u\<rparr>"

lemma stamped_ok:
  assumes "timetable_ok lib t" "tt_version t < max_version" "\<forall>i \<in> set_option u. check_id i = Inr ()"
  shows "timetable_ok lib (stamped now u t)"
proof -
  have "unsorted_lessons (stamped now u t) d = unsorted_lessons t d" for d
    by (simp add: unsorted_lessons_def todays_overrides_def stamped_def)
  then have "live_slots (stamped now u t) d = live_slots t d" for d by (simp add: live_slots_def)
  then have "overrides_ok lib (stamped now u t)"
    using assms(1) by (simp add: timetable_ok_def overrides_ok_def) (simp add: stamped_def)
  with assms show ?thesis by (simp add: timetable_ok_def header_ok_def) (simp add: stamped_def ball_Un)
qed

lemma commit_exact:
  assumes "timetable_ok lib t" "tt_version t < max_version" "\<forall>i \<in> set_option u. check_id i = Inr ()"
  shows "commit lib now u t = (if wire_fits lib (stamped now u t) then Inr (stamped now u t) else Inl TTInvalid)"
proof -
  have "validate lib (stamped now u t) = (if wire_fits lib (stamped now u t) then Inr () else Inl TTInvalid)"
    using stamped_ok [OF assms, of now] validate_iff [of lib "stamped now u t"] only_invalid_validate [of lib "stamped now u t"]
    by (cases "validate lib (stamped now u t)") (auto simp: only_invalid_def)
  then show ?thesis by (simp add: commit_def Let_def stamped_def)
qed

definition removed_entry :: "string \<Rightarrow> timetable \<Rightarrow> timetable" where
  "removed_entry i tt = tt\<lparr>tt_entries := filter (\<lambda>e. te_id e \<noteq> i) (tt_entries tt),
     tt_overrides := live_overrides (tt_overrides tt) (filter (\<lambda>e. te_id e \<noteq> i) (tt_entries tt))\<rparr>"

definition cleared_week :: "py_date \<Rightarrow> timetable \<Rightarrow> timetable" where
  "cleared_week start tt = tt\<lparr>tt_overrides := filter (\<lambda>ov. \<not> (start \<le> to_date ov \<and> to_date ov < start + 7)) (tt_overrides tt)\<rparr>"

text \<open>
  C28. Removals always work.  On a consistent timetable below the version cap, removing any entry it has and
  clearing any week inside the supported dates are performed, whatever overrides there are; the wire size
  of the smaller timetable is the only thing that can stop them.
\<close>

theorem removals_never_refused:
  assumes ok: "timetable_ok lib tt" and version: "tt_version tt < max_version"
    and user: "\<forall>i \<in> set_option u. check_id i = Inr ()"
    and entry: "e \<in> set (tt_entries tt)" and week: "week_anchor d (tt_week_start tt) = Inr a"
  shows "without_entry lib now u (te_id e) tt
      = (let t = stamped now u (removed_entry (te_id e) tt) in if wire_fits lib t then Inr t else Inl TTInvalid)
    \<and> clear_week lib now u d tt
      = (let t = stamped now u (cleared_week a tt) in if wire_fits lib t then Inr t else Inl TTInvalid)"
proof
  have "timetable_ok lib (removed_entry (te_id e) tt)"
    unfolding removed_entry_def by (rule remove_entries_ok [OF ok])
  moreover have "list_ex (\<lambda>x. te_id x = te_id e) (tt_entries tt)" using entry by (auto simp: list_ex_iff)
  moreover have "tt_version (removed_entry (te_id e) tt) = tt_version tt" by (simp add: removed_entry_def)
  ultimately show "without_entry lib now u (te_id e) tt
      = (let t = stamped now u (removed_entry (te_id e) tt) in if wire_fits lib t then Inr t else Inl TTInvalid)"
    using commit_exact [of lib "removed_entry (te_id e) tt" u now] version user
    by (simp add: without_entry_def with_entry_set_def removed_entry_def Let_def)
  have "timetable_ok lib (cleared_week a tt)"
    unfolding cleared_week_def by (rule keep_dates_ok [OF ok])
  moreover have "tt_version (cleared_week a tt) = tt_version tt" by (simp add: cleared_week_def)
  ultimately show "clear_week lib now u d tt
      = (let t = stamped now u (cleared_week a tt) in if wire_fits lib t then Inr t else Inl TTInvalid)"
    using commit_exact [of lib "cleared_week a tt" u now] version user week
    by (simp add: clear_week_def cleared_week_def Let_def)
qed

theorem removals_never_refused_witness:
  "without_entry demo_lib 0 None ''e2'' demo_timetable = Inr (stamped 0 None (removed_entry ''e2'' demo_timetable))
   \<and> tt_overrides (removed_entry ''e2'' demo_timetable) = []"
proof -
  let ?e = "demo_entries ! 1"
  have "timetable_ok demo_lib demo_timetable" using demo_valid by (simp add: validate_iff)
  moreover have "tt_version demo_timetable < max_version" "?e \<in> set (tt_entries demo_timetable)" "te_id ?e = ''e2''"
    by (simp_all add: demo_timetable_def max_version_def demo_entries_def)
  moreover have "week_anchor 739621 (tt_week_start demo_timetable) = Inr 739621"
    by (simp add: demo_timetable_def week_anchor_def check_date_def ensure_def min_date_def max_date_def date_weekday_def)
  moreover have "wire_fits demo_lib t" for t by (simp add: wire_fits_def demo_lib_def max_wire_bytes_def)
  ultimately have "without_entry demo_lib 0 None ''e2'' demo_timetable = Inr (stamped 0 None (removed_entry ''e2'' demo_timetable))"
    using removals_never_refused [of demo_lib demo_timetable None ?e 739621 739621 0] by (simp add: Let_def)
  moreover have "tt_overrides (removed_entry ''e2'' demo_timetable) = []"
    by (simp add: removed_entry_def live_overrides_def demo_timetable_def demo_entries_def)
  ultimately show ?thesis ..
qed

section \<open>Weeks\<close>

lemma week_anchor_Inr:
  "week_anchor d ws = Inr a \<longleftrightarrow> check_date d = Inr () \<and> ws \<in> {0, 6} \<and> a \<le> d \<and> d < a + 7 \<and> date_weekday a = ws"
proof -
  have mon: "d - date_weekday d = a \<longleftrightarrow> a \<le> d \<and> d < a + 7 \<and> date_weekday a = 0" unfolding date_weekday_def by presburger
  have sun: "d - (date_weekday d + 1) mod 7 = a \<longleftrightarrow> a \<le> d \<and> d < a + 7 \<and> date_weekday a = 6" unfolding date_weekday_def by presburger
  show ?thesis by (auto simp: week_anchor_def res_bind_Inr mon sun)
qed

text \<open>
  A resolved week is the week of the date asked for: it starts on the timetable's first weekday, lists
  exactly the timetable's days of those seven dates in order, each as \<open>resolve_day\<close> answers it, and asking
  for any other supported date of that week gives the same answer.
\<close>

theorem resolved_week_is_the_week:
  assumes "resolve_week tt d = Inr w"
  shows "rw_anchor w \<le> d \<and> d < rw_anchor w + 7 \<and> date_weekday (rw_anchor w) = tt_week_start tt
    \<and> map rd_date (rw_days w) = filter (\<lambda>x. date_weekday x \<in> set (tt_days tt)) (map (\<lambda>i. rw_anchor w + i) [0..6])
    \<and> (\<forall>day \<in> set (rw_days w). resolve_day tt (rd_date day) = Inr day)
    \<and> (rw_anchor w \<le> d' \<and> d' < rw_anchor w + 7 \<and> check_date d' = Inr () \<longrightarrow> resolve_week tt d' = Inr w)"
proof -
  obtain a days where a: "week_anchor d (tt_week_start tt) = Inr a"
    and days: "traverse (\<lambda>i. resolve_day tt (a + i)) (filter (\<lambda>i. date_weekday (a + i) \<in> set (tt_days tt)) [0, 1, 2, 3, 4, 5, 6]) = Inr days"
    and w: "w = \<lparr>rw_anchor = a, rw_valid = list_ex rd_valid days, rw_days = days\<rparr>"
    using assms by (auto simp: resolve_week_def res_bind_Inr)
  have rd: "rd_date day = x" if "resolve_day tt x = Inr day" for day x
    using that by (auto simp: resolve_day_def res_bind_Inr Let_def)
  from days have l: "list_all2 (\<lambda>i day. resolve_day tt (a + i) = Inr day)
      (filter (\<lambda>i. date_weekday (a + i) \<in> set (tt_days tt)) [0, 1, 2, 3, 4, 5, 6]) days"
    by (simp only: traverse_Inr)
  have "list_all2 (\<lambda>i day. resolve_day tt (a + i) = Inr day) is ds \<Longrightarrow>
      map rd_date ds = map (\<lambda>i. a + i) is \<and> (\<forall>day \<in> set ds. resolve_day tt (rd_date day) = Inr day)" for "is" ds
    by (induction "is" ds rule: list_all2_induct) (auto simp: rd)
  from this [OF l] have m: "map rd_date days = map (\<lambda>i. a + i) (filter (\<lambda>i. date_weekday (a + i) \<in> set (tt_days tt)) [0, 1, 2, 3, 4, 5, 6])"
    and each: "\<forall>day \<in> set days. resolve_day tt (rd_date day) = Inr day" by blast+
  have upto: "[0..6] = [0 :: int, 1, 2, 3, 4, 5, 6]" by (simp add: upto.simps)
  have "resolve_week tt d' = Inr w" if "a \<le> d' \<and> d' < a + 7 \<and> check_date d' = Inr ()"
    using that a days w by (auto simp: week_anchor_Inr resolve_week_def res_bind_Inr)
  with a m each w show ?thesis
    unfolding upto by (auto simp: week_anchor_Inr filter_map o_def)
qed

lemma demo_timetable_fields:
  "tt_week_start demo_timetable = 0" "tt_days demo_timetable = [0, 1]"
  "tt_validity demo_timetable = \<lparr>tv_valid_from = None, tv_valid_until = None, tv_excluded_weeks = [739649]\<rparr>"
  by (simp_all add: demo_timetable_def)

theorem resolved_week_is_the_week_witness:
  "\<exists>w. resolve_week demo_timetable 739622 = Inr w \<and> resolve_week demo_timetable 739627 = Inr w
     \<and> map rd_date (rw_days w) = [739621, 739622]"
proof -
  have "map_sum id (\<lambda>w. (rw_anchor w, map rd_date (rw_days w))) (resolve_week demo_timetable 739622) = Inr (739621, [739621, 739622])"
    by (simp add: resolve_week_def resolve_day_def week_anchor_def is_valid_on_def check_date_def ensure_def
        min_date_def max_date_def date_weekday_def demo_timetable_fields Let_def)
  then obtain w where w: "resolve_week demo_timetable 739622 = Inr w" "rw_anchor w = 739621" "map rd_date (rw_days w) = [739621, 739622]"
    by (cases "resolve_week demo_timetable 739622") auto
  have "check_date 739627 = Inr ()" by (simp add: check_date_def min_date_def max_date_def)
  with resolved_week_is_the_week [OF w(1), of 739627] w(2) have "resolve_week demo_timetable 739627 = Inr w" by simp
  with w(1,3) show ?thesis by (intro exI [of _ w] conjI)
qed

section \<open>The school template\<close>

lemma nat_lex: "0 \<le> p \<Longrightarrow> p \<le> q \<Longrightarrow> (p = q \<Longrightarrow> r \<le> s) \<Longrightarrow> nat p < nat q \<or> nat p = nat q \<and> nat r \<le> nat s"
  by linarith

lemma hhmm_le: "h < h' \<or> h = h' \<and> m \<le> m' \<Longrightarrow> PyTime h m 0 0 \<le> PyTime h' m' 0 0"
  by (auto simp: less_eq_py_time_def time_key_def less_eq_prod_def)

lemma clock_mono:
  assumes "0 \<le> a" "a \<le> b"
  shows "PyTime (nat (a div 60)) (nat (a mod 60)) 0 0 \<le> PyTime (nat (b div 60)) (nat (b mod 60)) 0 0"
proof -
  have "0 \<le> a div 60" by (simp only: pos_imp_zdiv_nonneg_iff zero_less_numeral assms)
  moreover have "a div 60 \<le> b div 60" by (rule zdiv_mono1 [OF assms(2)]) simp
  moreover have "a div 60 = b div 60 \<Longrightarrow> a mod 60 \<le> b mod 60"
    unfolding minus_mult_div_eq_mod [of a, symmetric] minus_mult_div_eq_mod [of b, symmetric] using assms(2) by simp
  ultimately have "nat (a div 60) < nat (b div 60) \<or> nat (a div 60) = nat (b div 60) \<and> nat (a mod 60) \<le> nat (b mod 60)"
    by (rule nat_lex)
  then show ?thesis by (rule hhmm_le)
qed

definition clock :: "int \<Rightarrow> py_time" where
  "clock m = PyTime (nat (m div 60)) (nat (m mod 60)) 0 0"

lemma minutes_clock [simp]: "0 \<le> m \<Longrightarrow> minutes_of (clock m) = m"
  by (simp add: minutes_of_def clock_def pos_imp_zdiv_nonneg_iff)

lemma clock_less: "0 \<le> a \<Longrightarrow> a < b \<Longrightarrow> clock a < clock b"
proof -
  assume a: "0 \<le> a" "a < b"
  then have "clock a \<le> clock b" using clock_mono [of a b] by (simp add: clock_def)
  moreover have "minutes_of (clock a) \<noteq> minutes_of (clock b)" using a by simp
  then have "clock a \<noteq> clock b" by metis
  ultimately show "clock a < clock b" by simp
qed

lemma slot_ok_clock: "0 \<le> a \<Longrightarrow> a + 5 \<le> b \<Longrightarrow> slot_ok (clock a) (clock b)"
  by (simp add: slot_ok_def clock_less) (simp add: is_hhmm_def clock_def)

lemma school_slot_Inr:
  "0 \<le> s \<Longrightarrow> s \<le> f \<Longrightarrow> f \<le> 1439 \<Longrightarrow> school_slot wd i k tx s f =
     Inr \<lparr>te_id = i, te_weekday = wd, te_start = clock s, te_end = clock f, te_kind = k, te_texts = tx\<rparr>"
  by (simp add: school_slot_def last_minute_def from_minutes_Inr clock_def)

lemma school_slot_Inl: "1439 < f \<Longrightarrow> school_slot wd i k tx s f = Inl TTInvalid"
  by (simp add: school_slot_def last_minute_def)

lemma school_slot_cases:
  assumes "school_slot wd i k tx s f = Inr e" "0 \<le> s" "s \<le> f"
  shows "f \<le> 1439 \<and> e = \<lparr>te_id = i, te_weekday = wd, te_start = clock s, te_end = clock f, te_kind = k, te_texts = tx\<rparr>"
  using assms school_slot_Inl [of f wd i k tx s] school_slot_Inr [of s f wd i k tx] by (cases "f \<le> 1439") auto

text \<open>Lessons and breaks from minute \<open>t\<close> on: none starts earlier, each ends before the next, ids are minted in order.\<close>

lemma school_lessons_Inr:
  assumes "0 \<le> t" "5 \<le> td_lesson_minutes d" "0 \<le> td_gap_minutes d" "school_lessons mint wd d todo n t k = Inr es"
  shows "(\<forall>e \<in> set es. te_weekday e = wd \<and> slot_ok (te_start e) (te_end e) \<and> clock t \<le> te_start e)
    \<and> sorted_wrt (\<lambda>a b. te_end a \<le> te_start b) es \<and> map te_id es = map mint [k..<k + length es]"
  using assms
proof (induction todo arbitrary: n t k es)
  case (Suc todo)
  let ?f = "t + td_lesson_minutes d"
  from Suc.prems obtain e1 where e1: "school_slot wd (mint k) LESSON (no_texts\<lparr>tx_label := Some [digit_char (int n), CHR ''.'']\<rparr>) t ?f = Inr e1"
    by (auto simp: Let_def res_bind_Inr)
  from school_slot_cases [OF e1] Suc.prems have s1: "?f \<le> 1439" "te_id e1 = mint k" "te_weekday e1 = wd" "te_start e1 = clock t" "te_end e1 = clock ?f"
    by auto
  have ok1: "slot_ok (clock t) (clock ?f)" using Suc.prems by (intro slot_ok_clock) auto
  have mono: "0 \<le> a \<Longrightarrow> a \<le> b \<Longrightarrow> clock a \<le> clock b" for a b unfolding clock_def by (rule clock_mono)
  show ?case
  proof (cases "school_break n")
    case None
    with Suc.prems(4) e1 obtain rest where r: "school_lessons mint wd d todo (Suc n) (?f + td_gap_minutes d) (Suc k) = Inr rest" "es = e1 # rest"
      by (auto simp: Let_def res_bind_Inr)
    note ih = Suc.IH [OF _ Suc.prems(2,3) r(1)]
    have m: "clock t \<le> clock (?f + td_gap_minutes d)" "clock ?f \<le> clock (?f + td_gap_minutes d)"
      by (rule mono; use Suc.prems in simp)+
    have "0 \<le> ?f + td_gap_minutes d" using Suc.prems by simp
    note ih = ih [OF this]
    then have rest: "\<forall>e \<in> set rest. te_weekday e = wd \<and> slot_ok (te_start e) (te_end e) \<and> clock t \<le> te_start e \<and> clock ?f \<le> te_start e"
      using order.trans [OF m(1)] order.trans [OF m(2)] by blast
    with ih s1 ok1 r(2) show ?thesis by (simp add: upt_conv_Cons del: upt_Suc)
  next
    case (Some pause)
    then have p: "5 \<le> pause" by (auto simp: school_break_def split: if_splits)
    from Some Suc.prems(4) e1 obtain e2 rest where
      e2: "school_slot wd (mint (Suc k)) BREAK (no_texts\<lparr>tx_title := Some ''Pause''\<rparr>) ?f (?f + pause) = Inr e2"
      and r: "school_lessons mint wd d todo (Suc n) (?f + pause) (Suc (Suc k)) = Inr rest" "es = e1 # e2 # rest"
      by (auto simp: Let_def res_bind_Inr)
    from school_slot_cases [OF e2] Suc.prems p have s2: "te_id e2 = mint (Suc k)" "te_weekday e2 = wd" "te_start e2 = clock ?f" "te_end e2 = clock (?f + pause)"
      by auto
    note ih = Suc.IH [OF _ Suc.prems(2,3) r(1)]
    have "slot_ok (clock ?f) (clock (?f + pause))" using Suc.prems p by (intro slot_ok_clock) auto
    moreover have m: "clock t \<le> clock ?f" "clock t \<le> clock (?f + pause)" "clock ?f \<le> clock (?f + pause)"
      by (rule mono; use Suc.prems p in simp)+
    have "0 \<le> ?f + pause" using Suc.prems p by simp
    note ih = ih [OF this]
    then have rest: "\<forall>e \<in> set rest. te_weekday e = wd \<and> slot_ok (te_start e) (te_end e) \<and> clock t \<le> te_start e
        \<and> clock ?f \<le> te_start e \<and> clock (?f + pause) \<le> te_start e"
      using order.trans [OF m(2)] order.trans [OF m(3)] by blast
    ultimately show ?thesis using ih s1 s2 ok1 m(1) r(2) by (simp add: upt_conv_Cons del: upt_Suc)
  qed
qed simp

text \<open>When the last slot of a run ends, and how many slots there are; \<open>fin\<close> is the end of the slot before.\<close>

fun school_end :: "tt_defaults \<Rightarrow> nat \<Rightarrow> nat \<Rightarrow> int \<Rightarrow> int \<Rightarrow> int" where
  "school_end d 0 n t fin = fin"
| "school_end d (Suc todo) n t fin =
     (case school_break n of
        None \<Rightarrow> school_end d todo (Suc n) (t + td_lesson_minutes d + td_gap_minutes d) (t + td_lesson_minutes d)
      | Some p \<Rightarrow> school_end d todo (Suc n) (t + td_lesson_minutes d + p) (t + td_lesson_minutes d + p))"

fun school_count :: "nat \<Rightarrow> nat \<Rightarrow> nat" where
  "school_count 0 n = 0"
| "school_count (Suc todo) n = (case school_break n of None \<Rightarrow> 1 | Some _ \<Rightarrow> 2) + school_count todo (Suc n)"

lemma school_break_pos: "school_break n = Some p \<Longrightarrow> 5 \<le> p"
  by (auto simp: school_break_def split: if_splits)

lemma school_end_mono:
  "fin \<le> t \<Longrightarrow> 5 \<le> td_lesson_minutes d \<Longrightarrow> 0 \<le> td_gap_minutes d \<Longrightarrow> fin \<le> school_end d todo n t fin"
proof (induction todo arbitrary: n t fin)
  case (Suc todo)
  let ?f = "t + td_lesson_minutes d"
  show ?case
  proof (cases "school_break n")
    case None
    with Suc.IH [of ?f "?f + td_gap_minutes d" "Suc n"] Suc.prems show ?thesis by simp
  next
    case (Some p)
    with Suc.IH [of "?f + p" "?f + p" "Suc n"] Suc.prems school_break_pos [OF Some] show ?thesis by simp
  qed
qed simp

lemma school_lessons_checked:
  "0 \<le> t \<Longrightarrow> fin \<le> t \<Longrightarrow> fin \<le> 1439 \<Longrightarrow> 5 \<le> td_lesson_minutes d \<Longrightarrow> 0 \<le> td_gap_minutes d \<Longrightarrow>
     (if school_end d todo n t fin \<le> 1439
      then \<exists>es. school_lessons mint wd d todo n t k = Inr es \<and> length es = school_count todo n
      else school_lessons mint wd d todo n t k = Inl TTInvalid)"
proof (induction todo arbitrary: n t fin k)
  case (Suc todo)
  let ?f = "t + td_lesson_minutes d"
  show ?case
  proof (cases "school_break n")
    case None
    have e: "school_end d (Suc todo) n t fin = school_end d todo (Suc n) (?f + td_gap_minutes d) ?f" by (simp add: None)
    show ?thesis
    proof (cases "?f \<le> 1439")
      case True
      with Suc.IH [of "?f + td_gap_minutes d" ?f "Suc n" "Suc k"] Suc.prems None show ?thesis
        by (auto simp: school_slot_Inr Let_def)
    next
      case False
      with school_end_mono [of ?f "?f + td_gap_minutes d" d todo "Suc n"] Suc.prems e show ?thesis
        by (simp add: school_slot_Inl Let_def)
    qed
  next
    case (Some p)
    have p: "5 \<le> p" by (rule school_break_pos [OF Some])
    have e: "school_end d (Suc todo) n t fin = school_end d todo (Suc n) (?f + p) (?f + p)" by (simp add: Some)
    show ?thesis
    proof (cases "?f + p \<le> 1439")
      case True
      with Suc.IH [of "?f + p" "?f + p" "Suc n" "Suc (Suc k)"] Suc.prems Some p show ?thesis
        by (auto simp: school_slot_Inr Let_def)
    next
      case False
      with school_end_mono [of "?f + p" "?f + p" d todo "Suc n"] Suc.prems e Some p show ?thesis
        by (cases "?f \<le> 1439") (simp_all add: school_slot_Inl school_slot_Inr Let_def)
    qed
  qed
qed simp

text \<open>
  The school template.  With defaults a timetable may have, the template is a day of eight slots, each
  long enough, no two overlapping, with the ids minted in order, exactly when six lessons, three gaps and the
  two breaks end by 23:59; otherwise it is refused as invalid.
\<close>

theorem school_template_is_a_day:
  assumes "5 \<le> td_lesson_minutes d" "0 \<le> td_gap_minutes d"
  shows "case school_template_day wd d mint of
      Inl e \<Rightarrow> e = TTInvalid \<and> 1439 < minutes_of (td_day_start d) + 6 * td_lesson_minutes d + 3 * td_gap_minutes d + 35
    | Inr es \<Rightarrow> minutes_of (td_day_start d) + 6 * td_lesson_minutes d + 3 * td_gap_minutes d + 35 \<le> 1439
        \<and> length es = 8 \<and> map te_id es = map mint [0..<8] \<and> slots_apart (map entry_iv es)
        \<and> (\<forall>e \<in> set es. te_weekday e = wd \<and> slot_ok (te_start e) (te_end e))"
proof -
  let ?t = "minutes_of (td_day_start d)" and ?L = "td_lesson_minutes d" and ?g = "td_gap_minutes d"
  have t: "0 \<le> ?t" by (simp add: minutes_of_def)
  have six: "(6 :: nat) = Suc (Suc (Suc (Suc (Suc (Suc 0)))))" by simp
  have e: "school_end d 6 1 ?t 0 = ?t + 6 * ?L + 3 * ?g + 35" "school_count 6 1 = 8"
    by (simp_all add: six school_break_def)
  note c = school_lessons_checked [OF t t _ assms, of 6 1 mint wd 0, unfolded e, folded school_template_day_def]
  show ?thesis
  proof (cases "?t + 6 * ?L + 3 * ?g + 35 \<le> 1439")
    case True
    with c obtain es where es: "school_template_day wd d mint = Inr es" "length es = 8" by auto
    from school_lessons_Inr [OF t assms es(1) [unfolded school_template_day_def]] es(2)
    have r: "\<forall>e \<in> set es. te_weekday e = wd \<and> slot_ok (te_start e) (te_end e)" "sorted_wrt (\<lambda>a b. te_end a \<le> te_start b) es"
        "map te_id es = map mint [0..<8]" by simp_all
    have "slots_apart (map entry_iv es)" unfolding sorted_wrt_map
      by (rule sorted_wrt_mono_rel [OF _ r(2)]) (simp add: disjoint_iv_def)
    with r es True show ?thesis by simp
  next
    case False
    with c show ?thesis by simp
  qed
qed

theorem school_template_is_a_day_witness:
  "\<exists>es. school_template_day 2 stock_defaults (\<lambda>n. [digit_char (int n)]) = Inr es \<and> length es = 8 \<and> slots_apart (map entry_iv es)"
proof -
  have d: "5 \<le> td_lesson_minutes stock_defaults" "0 \<le> td_gap_minutes stock_defaults"
    by (simp_all add: stock_defaults_def)
  have "minutes_of (td_day_start stock_defaults) + 6 * td_lesson_minutes stock_defaults + 3 * td_gap_minutes stock_defaults + 35 \<le> 1439"
    by (simp add: stock_defaults_def minutes_of_def)
  with school_template_is_a_day [OF d, where wd = 2 and mint = "\<lambda>n. [digit_char (int n)]"] show ?thesis by (auto split: sum.splits)
qed

section \<open>An unhashable id\<close>

text \<open>
  A request that replaces all entries and gives some entry a list or an object as its id raises a
  \<open>TypeError\<close> (the id is looked up in a frozenset), not the validation error every other malformed field
  gets; where the ids are not looked up the same body is refused as invalid.
\<close>

theorem unhashable_entry_id_escapes:
  assumes "fst ` set d \<subseteq> set entry_fields" "jget d ''id'' \<in> range JList \<union> range JObj" "length items < 200"
  shows "entries_from_list mint None True (Some ids) 200 (JList (JObj d # items)) = Inl TTTypeError
    \<and> entries_from_list mint None True None 200 (JList (JObj d # items)) = Inl TTInvalid"
proof -
  have "reject_unknown (JObj d) entry_fields = Inr ()" using assms(1) by (auto simp: reject_unknown_def as_mapping_def)
  moreover obtain v where "map_of d ''id'' = Some v" "v = jget d ''id''"
    using assms(2) by (auto simp: jget_def split: option.splits)
  ultimately show ?thesis using assms(2,3)
    by (auto simp: entries_from_list_def as_list_def as_mapping_def in_string_set_def entry_from_dict_def given_or_id_def
        req_field_def as_str_def Let_def)
qed

theorem unhashable_entry_id_escapes_witness:
  "entries_from_list (\<lambda>_. ''m'') None True (Some [''e1'']) 200 (JList [JObj [(''id'', JList [])]]) = Inl TTTypeError"
  using unhashable_entry_id_escapes [of "[(''id'', JList [])]" "[]" "\<lambda>_. ''m''" "[''e1'']"]
  by (simp add: entry_fields_def jget_def)

end
