(* ===== verification/Timetable_Roundtrip.thy ===== *)
theory Timetable_Roundtrip
  imports Timetable_More
begin

text \<open>
  The wire round trip of a timetable, built from the round trip of every field: \<open>from_wire_dict\<close> reads back
  what \<open>to_wire_dict\<close> wrote for every valid timetable.
\<close>

text \<open>What Python's \<open>time\<close> constructor guarantees.\<close>

definition is_time :: "py_time \<Rightarrow> bool" where
  "is_time t \<longleftrightarrow> tm_hour t < 24 \<and> tm_minute t < 60 \<and> tm_second t < 60 \<and> tm_micro t < 1000000"

lemma digit_char_not_newline: "0 \<le> n \<Longrightarrow> n \<le> 9 \<Longrightarrow> digit_char n \<noteq> CHR 0x0A"
proof
  assume "0 \<le> n" "n \<le> 9" and "digit_char n = CHR 0x0A"
  with char_digit_digit_char [of n] have "char_digit (CHR 0x0A) = Some n" by simp
  then show False by (simp add: char_digit_def)
qed

lemma parse_hhmm_hhmm:
  assumes "is_time t" "is_hhmm t"
  shows "parse_hhmm (JStr (hhmm t)) = Inr t"
proof -
  have "hhmm t = pad2 (int (tm_hour t)) @ CHR '':'' # pad2 (int (tm_minute t))" by (simp add: hhmm_def)
  moreover have "last (hhmm t) = digit_char (int (tm_minute t) mod 10)" by (simp add: hhmm_def pad2_def)
  then have "last (hhmm t) \<noteq> CHR 0x0A" by (simp add: digit_char_not_newline)
  moreover have "digits_value (pad2 (int (tm_hour t))) 0 = Some (int (tm_hour t))" "digits_value (pad2 (int (tm_minute t))) 0 = Some (int (tm_minute t))"
    using assms(1) digits_pad2 [of "int (tm_hour t)" 0] digits_pad2 [of "int (tm_minute t)" 0] by (simp_all add: is_time_def)
  ultimately show ?thesis using assms
    by (cases t) (simp add: parse_hhmm_def as_str_def Let_def nth_append is_time_def is_hhmm_def)
qed

lemma as_opt_str_opt_json [simp]: "as_opt_str (opt_json id x) = Inr x"
  by (simp add: as_opt_str_def as_str_def opt_json_def split: option.split)

lemma parse_opt_opt_json: "(\<And>y. x = Some y \<Longrightarrow> p (JStr (f y)) = Inr y) \<Longrightarrow> parse_opt p (opt_json f x) = Inr x"
  by (cases x) (simp_all add: parse_opt_def opt_json_def)

lemma as_simps [simp]:
  "as_str (JStr s) = Inr s" "as_int (JNum n) = Inr n" "as_mapping (JObj d) = Inr d"
  "as_list k (JList xs) = (if length xs > k then Inl TTInvalid else Inr xs)"
  by (simp_all add: as_str_def as_int_def as_mapping_def as_list_def)

lemma texts_roundtrip:
  assumes "\<And>k. k \<in> {''label'', ''title'', ''room'', ''teacher'', ''note'', ''color'', ''icon''} \<Longrightarrow> map_of pre k = None"
  shows "texts_from_dict (pre @ texts_to_dict x) = Inr x"
proof -
  have get: "jget (pre @ texts_to_dict x) k = jget (texts_to_dict x) k"
    if "k \<in> {''label'', ''title'', ''room'', ''teacher'', ''note'', ''color'', ''icon''}" for k
    using assms [OF that] by (simp add: jget_def map_add_def split: option.split)
  show ?thesis unfolding texts_from_dict_def
    by (simp add: get) (simp add: jget_def texts_to_dict_def)
qed

lemma entry_kind_roundtrip [simp]: "parse_entry_kind (JStr (entry_kind_value k)) = Inr k"
  by (cases k) (simp_all add: parse_entry_kind_def entry_kind_value_def)

lemma override_kind_roundtrip [simp]: "parse_override_kind (JStr (override_kind_value k)) = Inr k"
  by (cases k) (simp_all add: parse_override_kind_def override_kind_value_def)

lemma entry_roundtrip:
  assumes "\<forall>t \<in> {te_start e, te_end e}. is_time t \<and> is_hhmm t"
  shows "entry_from_dict None (JObj (entry_to_dict e)) = Inr e"
proof -
  let ?pre = "[(''id'', JStr (te_id e)), (''weekday'', JNum (te_weekday e)), (''start'', JStr (hhmm (te_start e))),
      (''end'', JStr (hhmm (te_end e))), (''kind'', JStr (entry_kind_value (te_kind e)))]"
  have "texts_from_dict (?pre @ texts_to_dict (te_texts e)) = Inr (te_texts e)" by (rule texts_roundtrip) auto
  then show ?thesis using assms
    unfolding entry_from_dict_def entry_to_dict_def
    by (simp add: given_or_id_def req_field_def get_default_def parse_hhmm_hhmm)
qed

lemma date_roundtrip: "check_date d = Inr () \<Longrightarrow> parse_date (JStr (date_isoformat d)) = Inr d"
  using date_iso_roundtrip [of d] by (simp add: parse_date_def check_date_def min_date_def max_date_def)

lemma override_roundtrip:
  assumes "\<forall>t \<in> set_option (to_start ov) \<union> set_option (to_end ov). is_time t \<and> is_hhmm t" "check_date (to_date ov) = Inr ()"
  shows "override_from_dict None (JObj (override_to_dict ov)) = Inr ov"
proof -
  let ?pre = "[(''id'', JStr (to_id ov)), (''date'', JStr (date_isoformat (to_date ov))),
      (''kind'', JStr (override_kind_value (to_kind ov))), (''entry_id'', opt_json id (to_entry_id ov)),
      (''start'', opt_json hhmm (to_start ov)), (''end'', opt_json hhmm (to_end ov)),
      (''entry_kind'', JStr (entry_kind_value (to_entry_kind ov)))]"
  have "texts_from_dict (?pre @ texts_to_dict (to_texts ov)) = Inr (to_texts ov)" by (rule texts_roundtrip) auto
  moreover have "parse_opt parse_hhmm (opt_json hhmm (to_start ov)) = Inr (to_start ov)"
      "parse_opt parse_hhmm (opt_json hhmm (to_end ov)) = Inr (to_end ov)"
    by (rule parse_opt_opt_json; use assms(1) in \<open>simp add: parse_hhmm_hhmm\<close>)+
  ultimately show ?thesis using date_roundtrip [OF assms(2)]
    unfolding override_from_dict_def override_to_dict_def
    by (simp add: given_or_id_def req_field_def get_default_def jget_def)
qed

lemma validity_roundtrip:
  assumes "validity_ok v ws"
  shows "validity_from_dict (JObj (validity_to_dict v)) = Inr v"
proof -
  have "parse_opt parse_date (opt_json date_isoformat (tv_valid_from v)) = Inr (tv_valid_from v)"
    "parse_opt parse_date (opt_json date_isoformat (tv_valid_until v)) = Inr (tv_valid_until v)"
    by (rule parse_opt_opt_json; use assms in \<open>simp add: date_roundtrip validity_ok_def\<close>)+
  moreover have "traverse parse_date (map (JStr \<circ> date_isoformat) (tv_excluded_weeks v)) = Inr (tv_excluded_weeks v)"
    by (rule traverse_map) (use assms in \<open>simp add: date_roundtrip validity_ok_def\<close>)
  ultimately show ?thesis using assms
    by (simp add: validity_from_dict_def validity_to_dict_def jget_def get_default_def validity_ok_def)
qed

text \<open>Every time the timetable carries.\<close>

definition all_times :: "timetable \<Rightarrow> py_time set" where
  "all_times tt = {td_day_start (tt_defaults tt)} \<union> te_start ` set (tt_entries tt) \<union> te_end ` set (tt_entries tt)
     \<union> (\<Union>ov \<in> set (tt_overrides tt). set_option (to_start ov) \<union> set_option (to_end ov))"

lemma target_times:
  assumes "target_ok es ov" "t \<in> set_option (to_start ov) \<union> set_option (to_end ov)"
  shows "is_hhmm t"
proof (cases "to_kind ov")
  case OV_CANCEL
  with assms show ?thesis by (auto simp: target_ok_def)
next
  case OV_REPLACE
  with assms show ?thesis by (auto simp: target_ok_def replace_entry_def)
next
  case OV_ADD
  with assms show ?thesis by (auto simp: target_ok_def slot_ok_def)
qed

lemma valid_times_hhmm:
  assumes "timetable_ok lib tt" "t \<in> all_times tt"
  shows "is_hhmm t"
proof -
  have e: "is_hhmm (te_start e) \<and> is_hhmm (te_end e)" if "e \<in> set (tt_entries tt)" for e
    using assms(1) that by (simp add: timetable_ok_def entries_ok_def entry_ok_def slot_ok_def)
  have o: "target_ok (tt_entries tt) ov" if "ov \<in> set (tt_overrides tt)" for ov
    using assms(1) that by (simp add: timetable_ok_def overrides_ok_def override_ok_def)
  have d: "is_hhmm (td_day_start (tt_defaults tt))" using assms(1) by (simp add: timetable_ok_def header_ok_def)
  from assms(2) show ?thesis unfolding all_times_def using e d target_times [OF o] by blast
qed

text \<open>
  C27. The wire round trip.  A valid timetable, whose times are Python times and whose two timestamps are
  formatted and parsed faithfully and fall in the accepted years, is read back from its wire form unchanged.
\<close>

theorem timetable_wire_roundtrip:
  assumes valid: "validate lib tt = Inr ()"
    and times: "\<forall>t \<in> all_times tt. is_time t"
    and stamps: "\<forall>us \<in> {tt_created_at tt, tt_updated_at tt}.
       tl_fromisoformat lib (tl_isoformat lib us) = Some (Aware us) \<and> instant_year us \<in> {1970..2199}"
  shows "from_wire_dict lib (JObj (to_wire_dict lib tt)) = Inr tt"
proof -
  from valid have ok: "timetable_ok lib tt" by (simp add: validate_iff)
  then have h: "header_ok lib tt" and e: "entries_ok lib (tt_days tt) (tt_entries tt)" and o: "overrides_ok lib tt"
    and v: "validity_ok (tt_validity tt) (tt_week_start tt)" by (simp_all add: timetable_ok_def)
  note tm = valid_times_hhmm [OF ok]
  have days: "length (tt_days tt) \<le> 7"
  proof -
    have "card (set (tt_days tt)) \<le> card {0 .. 6 :: int}" by (rule card_mono) (use h in \<open>auto simp: header_ok_def\<close>)
    with h show ?thesis by (simp add: header_ok_def distinct_card)
  qed
  have p_days: "traverse as_int (map JNum (tt_days tt)) = Inr (tt_days tt)" by (rule traverse_map) simp
  have p_assign: "traverse as_str (map JStr (tt_assignees tt)) = Inr (tt_assignees tt)" by (rule traverse_map) simp
  have p_entries: "traverse (entry_from_dict None) (map (JObj \<circ> entry_to_dict) (tt_entries tt)) = Inr (tt_entries tt)"
    by (rule traverse_map) (use times tm in \<open>auto simp: all_times_def intro!: entry_roundtrip\<close>)
  have p_overrides: "traverse (override_from_dict None) (map (JObj \<circ> override_to_dict) (tt_overrides tt)) = Inr (tt_overrides tt)"
  proof (rule traverse_map, unfold o_apply, rule override_roundtrip)
    fix ov assume ov: "ov \<in> set (tt_overrides tt)"
    then have "set_option (to_start ov) \<union> set_option (to_end ov) \<subseteq> all_times tt" by (auto simp: all_times_def)
    with times tm show "\<forall>t \<in> set_option (to_start ov) \<union> set_option (to_end ov). is_time t \<and> is_hhmm t" by blast
    from o ov show "check_date (to_date ov) = Inr ()" by (simp add: overrides_ok_def override_ok_def)
  qed
  have "td_day_start (tt_defaults tt) \<in> all_times tt" by (simp add: all_times_def)
  with times tm have p_defaults: "defaults_from_dict (JObj (defaults_to_dict (tt_defaults tt))) = Inr (tt_defaults tt)"
    by (simp add: defaults_from_dict_def defaults_to_dict_def get_default_def parse_hhmm_hhmm)
  have p_stamps: "parse_datetime lib (JStr (tl_isoformat lib us)) = Inr us" if "us \<in> {tt_created_at tt, tt_updated_at tt}" for us
    using stamps that by (auto simp: parse_datetime_def)
  have bounds: "1 \<le> tt_version tt" "tt_version tt \<le> max_version" "length (tt_entries tt) \<le> 200" "length (tt_overrides tt) \<le> 200"
      "length (tt_assignees tt) \<le> 20"
    using h e o by (simp_all add: header_ok_def entries_ok_def overrides_ok_def)
  show ?thesis
    unfolding from_wire_dict_def to_wire_dict_def
    by (simp add: req_field_def get_default_def jget_def p_days p_assign p_entries p_overrides p_defaults p_stamps
        validity_roundtrip [OF v] days bounds not_less)
qed

theorem timetable_wire_roundtrip_witness:
  "from_wire_dict demo_lib (JObj (to_wire_dict demo_lib demo_timetable)) = Inr demo_timetable"
proof (rule timetable_wire_roundtrip [OF demo_valid])
  show "\<forall>t \<in> all_times demo_timetable. is_time t"
    by (simp add: all_times_def demo_timetable_def demo_entries_def stock_defaults_def is_time_def)
  have "instant_year 0 \<in> {1970..2199}"
  proof -
    have "ord_year 719163 = 1970"
      by (simp add: ord_year_def ord_year_from.simps days_before_year_def)
    then show ?thesis by (simp add: instant_year_def)
  qed
  then show "\<forall>us \<in> {tt_created_at demo_timetable, tt_updated_at demo_timetable}.
      tl_fromisoformat demo_lib (tl_isoformat demo_lib us) = Some (Aware us) \<and> instant_year us \<in> {1970..2199}"
    by (simp add: demo_timetable_def demo_lib_def)
qed

end
