(* ===== verification/Page_Diff.thy ===== *)
theory Page_Diff
  imports Prelude "HOL-Library.Product_Lexorder"
begin

text \<open>
  The bounded three-way merge of page bodies (\<open>services/page_conflict_service.py\<close>, "Bounded diff3"):
  splitting a body into paragraphs, the budgeted Myers difference of two paragraph lists, the hunks it
  stands for, and \<open>diff3_merge\<close>.  A dict whose size is counted (\<open>len(v)\<close>) is an association list.
  Subscripts that Python could refuse are explicit: a missing dict key (\<open>KeyError\<close>) and a list index out of
  range (\<open>IndexError\<close>) are both \<open>LookupFault\<close>; a negative index counts from the end.
\<close>

section \<open>Paragraphs\<close>

definition newline :: char where "newline = CHR 0x0A"

definition carriage_return :: char where "carriage_return = CHR 0x0D"

text \<open>\<open>body.replace("\r\n", "\n")\<close>, and \<open>rstrip()\<close>.\<close>

fun replace_crlf :: "string \<Rightarrow> string" where
  "replace_crlf [] = []"
| "replace_crlf [c] = [c]"
| "replace_crlf (c # d # s) = (if c = carriage_return \<and> d = newline then newline # replace_crlf s
     else c # replace_crlf (d # s))"

definition rstrip_ws :: "string \<Rightarrow> string" where
  "rstrip_ws s = rev (dropWhile is_py_space (rev s))"

text \<open>
  \<open>re.split(r"\n\s*\n", s)\<close>.  A match starts at a newline; \<open>\s*\<close> is greedy, so it reaches the last
  newline of the run of white space that follows, and there is no match when the run holds no newline.
\<close>

definition after_last_newline :: "string \<Rightarrow> string" where
  "after_last_newline run = rev (takeWhile (\<lambda>c. c \<noteq> newline) (rev run))"

function split_blank_lines :: "string \<Rightarrow> string \<Rightarrow> string list" where
  "split_blank_lines cur [] = [rev cur]"
| "split_blank_lines cur (c # s) =
     (let run = takeWhile is_py_space s
      in if c = newline \<and> newline \<in> set run
         then rev cur # split_blank_lines [] (after_last_newline run @ dropWhile is_py_space s)
         else split_blank_lines (c # cur) s)"
  by pat_completeness auto

lemma length_after_last_newline: "length (after_last_newline run) \<le> length run"
  unfolding after_last_newline_def by (metis length_rev length_takeWhile_le)

termination split_blank_lines
proof (relation "measure (\<lambda>(cur, s). length s)", goal_cases)
  case (2 cur c s run)
  have "length (after_last_newline run) + length (dropWhile is_py_space s)
      \<le> length (takeWhile is_py_space s) + length (dropWhile is_py_space s)"
    using 2(1) length_after_last_newline by simp
  also have "\<dots> = length s" by (metis length_append takeWhile_dropWhile_id)
  finally show ?case by simp
qed simp_all

definition split_paragraphs :: "string \<Rightarrow> string list" where
  "split_paragraphs body =
     (if body = [] then []
      else filter (\<lambda>p. strip_ws p \<noteq> []) (split_blank_lines [] (rstrip_ws (replace_crlf body))))"

definition join_paragraphs :: "string list \<Rightarrow> string" where
  "join_paragraphs parts = join_with [newline, newline] parts"

section \<open>The budgeted difference\<close>

datatype diff_error = OverBudget | LookupFault

datatype move = Keep | Del | Ins

type_synonym ydict = "(int \<times> int) list"

definition dict_item :: "ydict \<Rightarrow> int \<Rightarrow> diff_error + int" where
  "dict_item v k = (case map_of v k of None \<Rightarrow> Inl LookupFault | Some x \<Rightarrow> Inr x)"

definition dict_get :: "ydict \<Rightarrow> int \<Rightarrow> int \<Rightarrow> int" where
  "dict_get v k dflt = (case map_of v k of None \<Rightarrow> dflt | Some x \<Rightarrow> x)"

definition list_item :: "'a list \<Rightarrow> int \<Rightarrow> diff_error + 'a" where
  "list_item xs i =
     (let j = (if i < 0 then i + int (length xs) else i)
      in if 0 \<le> j \<and> j < int (length xs) then Inr (xs ! nat j) else Inl LookupFault)"

text \<open>Where a diagonal starts: \<open>if k == -d or (k != d and v[k - 1] < v[k + 1])\<close>.\<close>

definition myers_start :: "ydict \<Rightarrow> int \<Rightarrow> int \<Rightarrow> diff_error + int" where
  "myers_start v d k =
     (if k = - d then dict_item v (k + 1)
      else if k \<noteq> d then
        res_bind (dict_item v (k - 1)) (\<lambda>l. res_bind (dict_item v (k + 1)) (\<lambda>r.
          if l < r then Inr r else Inr (l + 1)))
      else res_bind (dict_item v (k - 1)) (\<lambda>l. Inr (l + 1)))"

text \<open>The inner \<open>while\<close>: follow equal elements, counting the steps.\<close>

function myers_snake :: "'a list \<Rightarrow> 'a list \<Rightarrow> int \<Rightarrow> int \<Rightarrow> int \<Rightarrow> diff_error + int \<times> int \<times> int" where
  "myers_snake a b x y ops =
     (if x < int (length a) \<and> y < int (length b) then
        res_bind (list_item a x) (\<lambda>p. res_bind (list_item b y) (\<lambda>q.
          if p = q then myers_snake a b (x + 1) (y + 1) (ops + 1) else Inr (x, y, ops)))
      else Inr (x, y, ops))"
  by pat_completeness auto
termination by (relation "measure (\<lambda>(a, b, x, y, ops). nat (int (length a) - x))") auto

declare myers_snake.simps [simp del]

text \<open>The loop over the diagonals of one \<open>d\<close>; the flag says whether the corner was reached.\<close>

fun myers_row :: "'a list \<Rightarrow> 'a list \<Rightarrow> int \<Rightarrow> int list \<Rightarrow> ydict \<Rightarrow> int \<Rightarrow> diff_error + ydict \<times> int \<times> bool" where
  "myers_row a b d [] v ops = Inr (v, ops, False)"
| "myers_row a b d (k # ks) v ops =
     res_bind (myers_start v d k) (\<lambda>x.
     res_bind (myers_snake a b x (x - k) (ops + 1)) (\<lambda>(x', y', ops').
       let v' = AList.update k x' v
       in if int (length a) \<le> x' \<and> int (length b) \<le> y' then Inr (v', ops', True)
          else myers_row a b d ks v' ops'))"

definition diagonals :: "nat \<Rightarrow> int list" where
  "diagonals d = map (\<lambda>i. 2 * int i - int d) [0..<Suc d]"

fun myers_search :: "'a list \<Rightarrow> 'a list \<Rightarrow> int \<Rightarrow> nat list \<Rightarrow> ydict \<Rightarrow> ydict list \<Rightarrow> int \<Rightarrow> diff_error + ydict list" where
  "myers_search a b budget [] v trace ops = Inr trace"
| "myers_search a b budget (d # ds) v trace ops =
     res_bind (myers_row a b (int d) (diagonals d) v (ops + int (length v))) (\<lambda>(v', ops', found).
       if budget < ops' then Inl OverBudget
       else if found then Inr (trace @ [v])
       else myers_search a b budget ds v' (trace @ [v]) ops')"

text \<open>The walk back over the recorded rows; \<open>moves\<close> is built by prepending, so it ends up reversed.\<close>

function back_diagonal :: "int \<Rightarrow> int \<Rightarrow> int \<Rightarrow> int \<Rightarrow> move list \<Rightarrow> int \<times> int \<times> move list" where
  "back_diagonal x y px py moves =
     (if px < x \<and> py < y then back_diagonal (x - 1) (y - 1) px py (Keep # moves) else (x, y, moves))"
  by pat_completeness auto
termination by (relation "measure (\<lambda>(x, y, px, py, moves). nat (x - px))") auto

declare back_diagonal.simps [simp del]

definition back_diagonal_of :: "ydict \<Rightarrow> int \<Rightarrow> int \<Rightarrow> int" where
  "back_diagonal_of v d k =
     (if k = - d \<or> (k \<noteq> d \<and> dict_get v (k - 1) (- 1) < dict_get v (k + 1) (- 1)) then k + 1 else k - 1)"

fun myers_back :: "(nat \<times> ydict) list \<Rightarrow> int \<Rightarrow> int \<Rightarrow> move list \<Rightarrow> move list" where
  "myers_back [] x y moves = moves"
| "myers_back ((d, v) # rows) x y moves =
     (let prev_k = back_diagonal_of v (int d) (x - y);
          prev_x = dict_get v prev_k 0;
          prev_y = prev_x - prev_k;
          (x', y', moves') = back_diagonal x y prev_x prev_y moves;
          moves'' = (if 0 < d then (if x' = prev_x then Ins else Del) # moves' else moves')
      in myers_back rows prev_x prev_y moves'')"

definition myers_moves :: "'a list \<Rightarrow> 'a list \<Rightarrow> int \<Rightarrow> diff_error + move list" where
  "myers_moves a b budget =
     res_bind (myers_search a b budget [0..<Suc (length a + length b)] [(1, 0)] [] 0) (\<lambda>trace.
       Inr (myers_back (rev (zip [0..<length trace] trace)) (int (length a)) (int (length b)) []))"

section \<open>Hunks\<close>

text \<open>\<open>(i1, i2, repl)\<close>: replace \<open>base[i1:i2]\<close> with \<open>repl\<close>.\<close>

type_synonym 'a hunk = "nat \<times> nat \<times> 'a list"

definition intern :: "'a \<Rightarrow> ('a \<times> nat) list \<Rightarrow> nat \<times> ('a \<times> nat) list" where
  "intern p ids = (case map_of ids p of Some i \<Rightarrow> (i, ids) | None \<Rightarrow> (length ids, ids @ [(p, length ids)]))"

fun intern_all :: "'a list \<Rightarrow> ('a \<times> nat) list \<Rightarrow> nat list \<times> ('a \<times> nat) list" where
  "intern_all [] ids = ([], ids)"
| "intern_all (p # ps) ids =
     (let (i, ids1) = intern p ids; (is, ids2) = intern_all ps ids1 in (i # is, ids2))"

function common_prefix :: "'a list \<Rightarrow> 'a list \<Rightarrow> nat \<Rightarrow> nat" where
  "common_prefix a b pre =
     (if pre < length a \<and> pre < length b \<and> a ! pre = b ! pre then common_prefix a b (Suc pre) else pre)"
  by pat_completeness auto
termination by (relation "measure (\<lambda>(a, b, pre). length a - pre)") auto

function common_suffix :: "'a list \<Rightarrow> 'a list \<Rightarrow> nat \<Rightarrow> nat \<Rightarrow> nat" where
  "common_suffix a b pre suf =
     (if suf < length a - pre \<and> suf < length b - pre
         \<and> a ! (length a - 1 - suf) = b ! (length b - 1 - suf)
      then common_suffix a b pre (Suc suf) else suf)"
  by pat_completeness auto
termination by (relation "measure (\<lambda>(a, b, pre, suf). length a - suf)") auto

declare common_prefix.simps [simp del] common_suffix.simps [simp del]

definition slice :: "'a list \<Rightarrow> nat \<Rightarrow> nat \<Rightarrow> 'a list" where
  "slice xs i j = take (j - i) (drop i xs)"

fun hunk_loop :: "'a list \<Rightarrow> move list \<Rightarrow> nat \<Rightarrow> nat \<Rightarrow> (nat \<times> nat) option \<Rightarrow> 'a hunk list" where
  "hunk_loop other [] i j start = []"
| "hunk_loop other (Keep # ms) i j start =
     (case start of None \<Rightarrow> [] | Some (si, sj) \<Rightarrow> [(si, i, slice other sj j)])
     @ hunk_loop other ms (Suc i) (Suc j) None"
| "hunk_loop other (Del # ms) i j start =
     hunk_loop other ms (Suc i) j (case start of None \<Rightarrow> Some (i, j) | Some s \<Rightarrow> Some s)"
| "hunk_loop other (Ins # ms) i j start =
     hunk_loop other ms i (Suc j) (case start of None \<Rightarrow> Some (i, j) | Some s \<Rightarrow> Some s)"

definition ops_budget :: int where "ops_budget = 200000"

definition bounded_hunks :: "'a list \<Rightarrow> 'a list \<Rightarrow> ('a \<times> nat) list \<Rightarrow> diff_error + 'a hunk list \<times> ('a \<times> nat) list" where
  "bounded_hunks base other ids =
     (let (a, ids1) = intern_all base ids;
          (b, ids2) = intern_all other ids1;
          pre = common_prefix a b 0;
          suf = common_suffix a b pre 0
      in res_bind (myers_moves (slice a pre (length a - suf)) (slice b pre (length b - suf)) ops_budget) (\<lambda>moves.
           Inr (hunk_loop other (moves @ [Keep]) pre pre None, ids2)))"

section \<open>The merge\<close>

fun touch :: "'a hunk \<Rightarrow> 'a hunk \<Rightarrow> bool" where
  "touch (a1, a2, r) (b1, b2, s) = ((a1 < b2 \<and> b1 < a2) \<or> (a1 = a2 \<and> a2 = b1 \<and> b1 = b2))"

definition merge_max_bytes :: int where "merge_max_bytes = 128 * 1024"

definition merge_max_paragraphs :: nat where "merge_max_paragraphs = 2000"

text \<open>The UTF-8 length of a string of 8-bit code points.\<close>

definition utf8_length :: "string \<Rightarrow> int" where
  "utf8_length s = sum_list (map (\<lambda>c. if (of_char c :: nat) < 128 then 1 else 2) s)"

definition too_big :: "string list \<Rightarrow> bool" where
  "too_big bodies = list_ex (\<lambda>b. merge_max_bytes < utf8_length b) bodies"

record merge_result =
  mr_content :: string
  mr_has_conflict :: bool

text \<open>
  The partner lists.  \<open>partner_row\<close> is the inner loop for the hunk \<open>h\<close> at index \<open>i\<close> of ours, with its
  \<open>break\<close>; \<open>partners\<close> is the outer one, filling both lists.
\<close>

fun partner_row :: "nat \<Rightarrow> 'a hunk \<Rightarrow> nat \<Rightarrow> 'a hunk list \<Rightarrow> nat list \<Rightarrow> nat list list \<Rightarrow> nat list \<times> nat list list" where
  "partner_row i h j [] mine theirs_of = (mine, theirs_of)"
| "partner_row i h j (w # ws) mine theirs_of =
     (if fst (snd h) < fst w then (mine, theirs_of)
      else if touch h w then partner_row i h (Suc j) ws (mine @ [j]) (theirs_of[j := theirs_of ! j @ [i]])
      else partner_row i h (Suc j) ws mine theirs_of)"

fun partners :: "nat \<Rightarrow> 'a hunk list \<Rightarrow> 'a hunk list \<Rightarrow> nat list list \<Rightarrow> nat list list \<Rightarrow> nat list list \<times> nat list list" where
  "partners i [] theirs ours_of theirs_of = (ours_of, theirs_of)"
| "partners i (h # hs) theirs ours_of theirs_of =
     (let (mine, theirs_of') = partner_row i h 0 theirs [] theirs_of
      in partners (Suc i) hs theirs (ours_of @ [mine]) theirs_of')"

text \<open>What becomes of our hunk \<open>h\<close>: kept alone, joined with its one partner, or a conflict.\<close>

definition combine :: "'a hunk list \<Rightarrow> nat list list \<Rightarrow> 'a hunk \<Rightarrow> nat list \<Rightarrow> 'a hunk option" where
  "combine theirs theirs_of h mine =
     (case mine of [] \<Rightarrow> Some h
      | [j] \<Rightarrow>
          if length (theirs_of ! j) \<noteq> 1 then None
          else let w = theirs ! j
               in if h = w then Some h
                  else if fst h = fst (snd h) \<and> fst (snd h) = fst w \<and> fst w = fst (snd w)
                  then Some (fst h, fst (snd h), snd (snd h) @ snd (snd w))
                  else None
      | _ \<Rightarrow> None)"

fun collect_edits :: "'a hunk list \<Rightarrow> nat list list \<Rightarrow> ('a hunk \<times> nat list) list \<Rightarrow> 'a hunk list option" where
  "collect_edits theirs theirs_of [] = Some []"
| "collect_edits theirs theirs_of ((h, mine) # hs) =
     (case combine theirs theirs_of h mine of None \<Rightarrow> None
      | Some e \<Rightarrow> map_option ((#) e) (collect_edits theirs theirs_of hs))"

fun apply_hunks :: "'a list \<Rightarrow> nat \<Rightarrow> 'a hunk list \<Rightarrow> 'a list" where
  "apply_hunks b pos [] = drop pos b"
| "apply_hunks b pos ((i1, i2, repl) # es) = slice b pos i1 @ repl @ apply_hunks b i2 es"

definition merge_edits :: "'a hunk list \<Rightarrow> 'a hunk list \<Rightarrow> 'a hunk list option" where
  "merge_edits ours theirs =
     (let (ours_of, theirs_of) = partners 0 ours theirs [] (replicate (length theirs) [])
      in map_option
           (\<lambda>es. sort_key (\<lambda>e. (fst e, fst (snd e)))
                   (es @ map fst (filter (\<lambda>(w, ps). ps = []) (zip theirs theirs_of))))
           (collect_edits theirs theirs_of (zip ours ours_of)))"

definition merge_conflict :: merge_result where
  "merge_conflict = \<lparr>mr_content = [], mr_has_conflict = True\<rparr>"

definition merged :: "string \<Rightarrow> merge_result" where
  "merged s = \<lparr>mr_content = s, mr_has_conflict = False\<rparr>"

text \<open>A \<open>LookupFault\<close> is not caught by the merge; \<open>diff3_merge_returns\<close> shows it never occurs.\<close>

definition diff3_merge :: "string \<Rightarrow> string \<Rightarrow> string \<Rightarrow> diff_error + merge_result" where
  "diff3_merge base current proposal =
     (if current = proposal then Inr (merged current)
      else if proposal = base then Inr (merged current)
      else if current = base then Inr (merged proposal)
      else if too_big [base, current, proposal] then Inr merge_conflict
      else let b = split_paragraphs base; c = split_paragraphs current; p = split_paragraphs proposal
        in if max (length b) (max (length c) (length p)) > merge_max_paragraphs then Inr merge_conflict
        else case bounded_hunks b c [] of
            Inl OverBudget \<Rightarrow> Inr merge_conflict
          | Inl LookupFault \<Rightarrow> Inl LookupFault
          | Inr (ours, ids) \<Rightarrow>
            (case bounded_hunks b p ids of
               Inl OverBudget \<Rightarrow> Inr merge_conflict
             | Inl LookupFault \<Rightarrow> Inl LookupFault
             | Inr (theirs, _) \<Rightarrow>
                 (case merge_edits ours theirs of
                    None \<Rightarrow> Inr merge_conflict
                  | Some es \<Rightarrow> Inr (merged (join_paragraphs (apply_hunks b 0 es))))))"

end
