(* ===== verification/Page_Diff_Correct.thy ===== *)
theory Page_Diff_Correct
  imports Page_Diff
begin

text \<open>
  The budgeted difference is right: the search never subscripts out of range and ends on the corner of the
  edit graph or over budget, the moves are an edit script, and the hunks rebuild the other list.
\<close>

section \<open>Furthest points\<close>

text \<open>
  The mathematical content of the rows of the search: \<open>reach d k\<close> is how far a path of \<open>d\<close> edits gets on
  diagonal \<open>k\<close>.
\<close>

function snake_len :: "'a list \<Rightarrow> 'a list \<Rightarrow> int \<Rightarrow> int \<Rightarrow> nat" where
  "snake_len a b x y =
     (if 0 \<le> x \<and> x < int (length a) \<and> 0 \<le> y \<and> y < int (length b) \<and> a ! nat x = b ! nat y
      then Suc (snake_len a b (x + 1) (y + 1)) else 0)"
  by pat_completeness auto
termination by (relation "measure (\<lambda>(a, b, x, y). nat (int (length a) - x))") auto

declare snake_len.simps [simp del]

definition start_of :: "(int \<Rightarrow> int) \<Rightarrow> int \<Rightarrow> int \<Rightarrow> int" where
  "start_of f d k = (if k = - d \<or> (k \<noteq> d \<and> f (k - 1) < f (k + 1)) then f (k + 1) else f (k - 1) + 1)"

fun reach :: "'a list \<Rightarrow> 'a list \<Rightarrow> nat \<Rightarrow> int \<Rightarrow> int" where
  "reach a b 0 k = int (snake_len a b 0 0)"
| "reach a b (Suc d) k =
     (let x = start_of (reach a b d) (int (Suc d)) k in x + int (snake_len a b x (x - k)))"

lemmas reach_Suc = reach.simps(2) [unfolded Let_def]

declare reach.simps(2) [simp del]

definition diag :: "nat \<Rightarrow> int \<Rightarrow> bool" where
  "diag d k \<longleftrightarrow> k \<in> set (diagonals d)"

lemma diag_iff: "diag d k \<longleftrightarrow> (\<exists>i \<le> d. k = 2 * int i - int d)"
  by (auto simp: diag_def diagonals_def less_Suc_eq_le)

lemma diag_0 [simp]: "diag 0 k \<longleftrightarrow> k = 0"
  by (auto simp: diag_iff)

lemma diag_bounds: "diag d k \<Longrightarrow> - int d \<le> k \<and> k \<le> int d"
  by (auto simp: diag_iff)

lemma diag_down:
  assumes "diag (Suc d) k" "k \<noteq> int (Suc d)"
  shows "diag d (k + 1)"
proof -
  obtain i where i: "i \<le> Suc d" "k = 2 * int i - int (Suc d)" using assms(1) by (auto simp: diag_iff)
  then have "i \<le> d" using assms(2) by (cases "i = Suc d") auto
  with i show ?thesis by (auto simp: diag_iff)
qed

lemma diag_right:
  assumes "diag (Suc d) k" "k \<noteq> - int (Suc d)"
  shows "diag d (k - 1)"
proof -
  obtain i where i: "i \<le> Suc d" "k = 2 * int i - int (Suc d)" using assms(1) by (auto simp: diag_iff)
  then have "i \<noteq> 0" using assms(2) by auto
  with i show ?thesis by (auto simp: diag_iff intro!: exI [of _ "i - 1"])
qed

lemma diag_Suc_left:
  assumes "diag d k" shows "diag (Suc d) (k - 1)"
proof -
  obtain i where "i \<le> d" "k = 2 * int i - int d" using assms by (auto simp: diag_iff)
  then show ?thesis by (auto simp: diag_iff intro!: exI [of _ i])
qed

lemma diag_Suc_right:
  assumes "diag d k" shows "diag (Suc d) (k + 1)"
proof -
  obtain i where "i \<le> d" "k = 2 * int i - int d" using assms by (auto simp: diag_iff)
  then show ?thesis by (auto simp: diag_iff intro!: exI [of _ "Suc i"])
qed

lemma snake_run:
  "0 \<le> x \<Longrightarrow> 0 \<le> y \<Longrightarrow> myers_snake a b x y ops =
     Inr (x + int (snake_len a b x y), y + int (snake_len a b x y), ops + int (snake_len a b x y))"
proof (induction a b x y ops rule: myers_snake.induct)
  case (1 a b x y ops)
  then show ?case
    by (subst myers_snake.simps, subst (1 2 3) snake_len.simps) (auto simp: list_item_def)
qed

lemma snake_inside:
  "i < snake_len a b x y \<Longrightarrow> 0 \<le> x \<and> 0 \<le> y \<and> x + int i < int (length a) \<and> y + int i < int (length b)
     \<and> a ! nat (x + int i) = b ! nat (y + int i)"
proof (induction a b x y arbitrary: i rule: snake_len.induct)
  case (1 a b x y)
  let ?c = "0 \<le> x \<and> x < int (length a) \<and> 0 \<le> y \<and> y < int (length b) \<and> a ! nat x = b ! nat y"
  have c: ?c using "1.prems" by (subst (asm) snake_len.simps) (auto split: if_splits)
  show ?case
  proof (cases i)
    case 0
    then show ?thesis using c by simp
  next
    case (Suc j)
    then have "j < snake_len a b (x + 1) (y + 1)"
      using "1.prems" c by (subst (asm) snake_len.simps) simp
    with "1.IH" [OF c this] c Suc show ?thesis by (simp add: algebra_simps)
  qed
qed

lemma snake_bounds:
  assumes "0 < snake_len a b x y"
  shows "x + int (snake_len a b x y) \<le> int (length a) \<and> y + int (snake_len a b x y) \<le> int (length b)"
  using snake_inside [of "snake_len a b x y - 1" a b x y] assms by simp

lemma reach_start: "diag d k \<Longrightarrow> start_of (reach a b d) (int (Suc d)) k' \<le> reach a b (Suc d) k'"
  by (simp add: reach_Suc)

lemma reach_down: "diag d (k + 1) \<Longrightarrow> reach a b d (k + 1) \<le> reach a b (Suc d) k"
proof -
  assume "diag d (k + 1)"
  then have "k \<noteq> int (Suc d)" using diag_bounds by fastforce
  then have "reach a b d (k + 1) \<le> start_of (reach a b d) (int (Suc d)) k"
    by (auto simp: start_of_def)
  then show ?thesis by (simp add: reach_Suc)
qed

lemma reach_right: "diag d (k - 1) \<Longrightarrow> reach a b d (k - 1) + 1 \<le> reach a b (Suc d) k"
proof -
  assume "diag d (k - 1)"
  then have "k \<noteq> - int (Suc d)" using diag_bounds by fastforce
  then have "reach a b d (k - 1) + 1 \<le> start_of (reach a b d) (int (Suc d)) k"
    by (auto simp: start_of_def)
  then show ?thesis by (simp add: reach_Suc)
qed

text \<open>A path comes from the diagonal below (an insertion) or above (a deletion).\<close>

lemma start_cases:
  assumes "diag (Suc d) k"
  obtains (down) "diag d (k + 1)" "start_of (reach a b d) (int (Suc d)) k = reach a b d (k + 1)"
  | (right) "diag d (k - 1)" "start_of (reach a b d) (int (Suc d)) k = reach a b d (k - 1) + 1"
proof (cases "k = - int (Suc d) \<or> (k \<noteq> int (Suc d) \<and> reach a b d (k - 1) < reach a b d (k + 1))")
  case True
  then have "k \<noteq> int (Suc d)" by auto
  with True down diag_down [OF assms] show ?thesis by (auto simp: start_of_def)
next
  case False
  with right diag_right [OF assms] show ?thesis by (auto simp: start_of_def)
qed

lemma reach_nonneg: "diag d k \<Longrightarrow> 0 \<le> reach a b d k \<and> k \<le> reach a b d k"
proof (induction d arbitrary: k)
  case (Suc d)
  have "0 \<le> start_of (reach a b d) (int (Suc d)) k \<and> k \<le> start_of (reach a b d) (int (Suc d)) k"
    using Suc.prems
  proof (cases rule: start_cases [where a = a and b = b])
    case down
    then show ?thesis using Suc.IH [OF down(1)] by simp
  next
    case right
    then show ?thesis using Suc.IH [OF right(1)] by simp
  qed
  then show ?case by (simp add: reach_Suc)
qed simp

lemma start_nonneg:
  assumes "diag (Suc d) k"
  shows "0 \<le> start_of (reach a b d) (int (Suc d)) k \<and> k \<le> start_of (reach a b d) (int (Suc d)) k"
  using assms
proof (cases rule: start_cases [where a = a and b = b])
  case down
  then show ?thesis using reach_nonneg [OF down(1), of a b] by simp
next
  case right
  then show ?thesis using reach_nonneg [OF right(1), of a b] by simp
qed

text \<open>Every edit moves at least one diagonal step, so the corner is reached after all deletions and insertions.\<close>

lemma reach_at_least: "diag d k \<Longrightarrow> int d + k \<le> 2 * reach a b d k"
proof (induction d arbitrary: k)
  case (Suc d)
  have "int (Suc d) + k \<le> 2 * start_of (reach a b d) (int (Suc d)) k"
    using Suc.prems
  proof (cases rule: start_cases [where a = a and b = b])
    case down
    then show ?thesis using Suc.IH [OF down(1)] by simp
  next
    case right
    then show ?thesis using Suc.IH [OF right(1)] by simp
  qed
  then show ?case by (simp add: reach_Suc)
qed simp

definition at_corner :: "'a list \<Rightarrow> 'a list \<Rightarrow> nat \<Rightarrow> int \<Rightarrow> bool" where
  "at_corner a b d k \<longleftrightarrow> int (length a) \<le> reach a b d k \<and> int (length b) \<le> reach a b d k - k"

lemma corner_reached: "at_corner a b (length a + length b) (int (length a) - int (length b))"
proof -
  have "diag (length a + length b) (int (length a) - int (length b))"
    by (auto simp: diag_iff intro!: exI [of _ "length a"])
  from reach_at_least [OF this, of a b] show ?thesis by (simp add: at_corner_def)
qed

lemma corner_diag: "diag (length a + length b) (int (length a) - int (length b))"
  by (auto simp: diag_iff intro!: exI [of _ "length a"])

text \<open>A path that ran past an edge was on that edge earlier, so the first path past the corner ends on it.\<close>

lemma overrun_right:
  "diag d k \<Longrightarrow> reach a b d k = int (length a) + int j \<Longrightarrow>
     j \<le> d \<and> diag (d - j) (k - int j) \<and> int (length a) \<le> reach a b (d - j) (k - int j)"
proof (induction d arbitrary: k j)
  case 0
  have "reach a b 0 k \<le> int (length a)" using snake_bounds [of a b 0 0] by (cases "snake_len a b 0 0") auto
  with 0 show ?case by simp
next
  case (Suc d)
  show ?case
  proof (cases "j = 0")
    case False
    let ?x = "start_of (reach a b d) (int (Suc d)) k"
    have "snake_len a b ?x (?x - k) = 0"
      using Suc.prems(2) snake_bounds [of a b ?x "?x - k"] False by (auto simp: reach_Suc)
    then have x: "?x = int (length a) + int j" using Suc.prems(2) by (simp add: reach_Suc)
    from Suc.prems(1) show ?thesis
    proof (cases rule: start_cases [where a = a and b = b])
      case down
      then have "reach a b d (k + 1) = int (length a) + int j" using x by simp
      from Suc.IH [OF down(1) this] have IH: "j \<le> d" "diag (d - j) (k + 1 - int j)"
        "int (length a) \<le> reach a b (d - j) (k + 1 - int j)" by auto
      have e: "Suc d - j = Suc (d - j)" using IH(1) by simp
      have k: "k + 1 - int j = (k - int j) + 1" by simp
      from reach_down [OF IH(2) [unfolded k], of a b] IH(3) [unfolded k] diag_Suc_left [OF IH(2) [unfolded k]]
      show ?thesis using IH(1) unfolding e by simp
    next
      case right
      obtain j' where j: "j = Suc j'" using False by (cases j) auto
      have "reach a b d (k - 1) = int (length a) + int j'" using x j right(2) by simp
      note IH = Suc.IH [OF right(1) this]
      have e: "k - int j = k - 1 - int j'" "Suc d - j = d - j'" using j by auto
      show ?thesis unfolding e using IH j by blast
    qed
  qed (use Suc.prems in auto)
qed

lemma overrun_down:
  "diag d k \<Longrightarrow> reach a b d k - k = int (length b) + int j \<Longrightarrow>
     j \<le> d \<and> diag (d - j) (k + int j) \<and> int (length b) \<le> reach a b (d - j) (k + int j) - (k + int j)"
proof (induction d arbitrary: k j)
  case 0
  have "reach a b 0 k \<le> int (length b)" using snake_bounds [of a b 0 0] by (cases "snake_len a b 0 0") auto
  with 0 show ?case by simp
next
  case (Suc d)
  show ?case
  proof (cases "j = 0")
    case False
    let ?x = "start_of (reach a b d) (int (Suc d)) k"
    have "snake_len a b ?x (?x - k) = 0"
      using Suc.prems(2) snake_bounds [of a b ?x "?x - k"] False by (auto simp: reach_Suc)
    then have x: "?x - k = int (length b) + int j" using Suc.prems(2) by (simp add: reach_Suc)
    from Suc.prems(1) show ?thesis
    proof (cases rule: start_cases [where a = a and b = b])
      case down
      obtain j' where j: "j = Suc j'" using False by (cases j) auto
      have "reach a b d (k + 1) - (k + 1) = int (length b) + int j'" using x j down(2) by simp
      note IH = Suc.IH [OF down(1) this]
      have e: "k + int j = k + 1 + int j'" "Suc d - j = d - j'" using j by auto
      show ?thesis unfolding e using IH j by blast
    next
      case right
      then have "reach a b d (k - 1) - (k - 1) = int (length b) + int j" using x by simp
      from Suc.IH [OF right(1) this] have IH: "j \<le> d" "diag (d - j) (k - 1 + int j)"
        "int (length b) \<le> reach a b (d - j) (k - 1 + int j) - (k - 1 + int j)" by auto
      have e: "Suc d - j = Suc (d - j)" using IH(1) by simp
      have k: "k - 1 + int j = (k + int j) - 1" by simp
      from reach_right [OF IH(2) [unfolded k], of a b] IH(3) [unfolded k] diag_Suc_right [OF IH(2) [unfolded k]]
      show ?thesis using IH(1) unfolding e by simp
    qed
  qed (use Suc.prems in auto)
qed

lemma first_corner:
  assumes first: "\<And>e j. e < d \<Longrightarrow> diag e j \<Longrightarrow> \<not> at_corner a b e j"
    and k: "diag d k" and corner: "at_corner a b d k"
  shows "reach a b d k = int (length a) \<and> k = int (length a) - int (length b)"
proof -
  obtain j where j: "reach a b d k = int (length a) + int j"
    using corner by (metis at_corner_def zle_iff_zadd)
  obtain i where i: "reach a b d k - k = int (length b) + int i"
    using corner by (metis at_corner_def zle_iff_zadd)
  have "j = 0"
  proof (rule ccontr)
    assume "j \<noteq> 0"
    note o = overrun_right [OF k j]
    have "at_corner a b (d - j) (k - int j)" using o i j by (simp add: at_corner_def)
    with first [of "d - j"] o \<open>j \<noteq> 0\<close> show False by simp
  qed
  moreover have "i = 0"
  proof (rule ccontr)
    assume "i \<noteq> 0"
    note o = overrun_down [OF k i]
    have "at_corner a b (d - i) (k + int i)" using o i j by (simp add: at_corner_def)
    with first [of "d - i"] o \<open>i \<noteq> 0\<close> show False by simp
  qed
  ultimately show ?thesis using i j by simp
qed

section \<open>The rows of the search\<close>

text \<open>What a recorded row holds: the furthest points of its own diagonals (the other parity is left over).\<close>

definition row_of :: "'a list \<Rightarrow> 'a list \<Rightarrow> nat \<Rightarrow> ydict \<Rightarrow> bool" where
  "row_of a b d v \<longleftrightarrow> (\<forall>k. diag d k \<longrightarrow> map_of v k = Some (reach a b d k))"

definition row_before :: "'a list \<Rightarrow> 'a list \<Rightarrow> nat \<Rightarrow> ydict \<Rightarrow> bool" where
  "row_before a b d v \<longleftrightarrow> (case d of 0 \<Rightarrow> map_of v 1 = Some 0 | Suc e \<Rightarrow> row_of a b e v)"

definition first_x :: "'a list \<Rightarrow> 'a list \<Rightarrow> nat \<Rightarrow> int \<Rightarrow> int" where
  "first_x a b d k = (case d of 0 \<Rightarrow> 0 | Suc e \<Rightarrow> start_of (reach a b e) (int (Suc e)) k)"

lemma first_x_nonneg: "diag d k \<Longrightarrow> 0 \<le> first_x a b d k \<and> k \<le> first_x a b d k"
  using start_nonneg [of _ k a b] by (cases d) (auto simp: first_x_def)

lemma reach_first_x:
  "diag d k \<Longrightarrow> reach a b d k = first_x a b d k + int (snake_len a b (first_x a b d k) (first_x a b d k - k))"
  by (cases d) (auto simp: first_x_def reach_Suc)

lemma myers_start_row:
  assumes "row_before a b d v" "diag d k"
  shows "myers_start v (int d) k = Inr (first_x a b d k)"
proof (cases d)
  case 0
  then show ?thesis using assms by (simp add: row_before_def myers_start_def first_x_def dict_item_def)
next
  case (Suc e)
  have v: "diag e j \<Longrightarrow> dict_item v j = Inr (reach a b e j)" for j
    using assms(1) Suc by (simp add: row_before_def row_of_def dict_item_def)
  have d: "diag (Suc e) k" using assms(2) Suc by simp
  show ?thesis
    using v [OF diag_down [OF d]] v [OF diag_right [OF d]] Suc
    by (auto simp: myers_start_def first_x_def start_of_def)
qed

lemma row_before_update:
  assumes "row_before a b d v" "diag d k"
  shows "row_before a b d (AList.update k x v)"
proof -
  have "\<not> diag e k" if "d = Suc e" for e
  proof
    assume "diag e k"
    with assms(2) that show False by (auto simp: diag_iff) presburger
  qed
  with assms show ?thesis by (auto simp: row_before_def row_of_def split: nat.splits)
qed

text \<open>One row: it either stops at the first corner on it, or leaves the dict holding all its diagonals.\<close>

lemma myers_row_spec:
  assumes "row_before a b d v" "\<forall>k \<in> set ks. diag d k"
    and "\<forall>k. diag d k \<and> k \<notin> set ks \<longrightarrow> map_of v k = Some (reach a b d k)"
  shows "\<exists>v' ops' found. myers_row a b (int d) ks v ops = Inr (v', ops', found) \<and>
    (if found then \<exists>k \<in> set ks. at_corner a b d k
     else (\<forall>k \<in> set ks. \<not> at_corner a b d k) \<and> row_of a b d v')"
  using assms
proof (induction ks arbitrary: v ops)
  case Nil
  then show ?case by (simp add: row_of_def exI [of _ False])
next
  case (Cons k ks)
  have k: "diag d k" using Cons.prems(2) by simp
  let ?x = "first_x a b d k"
  let ?v = "AList.update k (reach a b d k) v"
  have s: "myers_start v (int d) k = Inr ?x" using myers_start_row [OF Cons.prems(1) k] .
  have n: "myers_snake a b ?x (?x - k) (ops + 1) =
      Inr (reach a b d k, reach a b d k - k, ops + 1 + int (snake_len a b ?x (?x - k)))"
    using first_x_nonneg [OF k, of a b] reach_first_x [OF k, of a b] by (subst snake_run) auto
  show ?case
  proof (cases "at_corner a b d k")
    case True
    then show ?thesis using s n by (auto simp: at_corner_def Let_def intro: exI [of _ True])
  next
    case False
    have "\<forall>j. diag d j \<and> j \<notin> set ks \<longrightarrow> map_of ?v j = Some (reach a b d j)"
      using Cons.prems(3) by auto
    from Cons.IH [OF row_before_update [OF Cons.prems(1) k] _ this] Cons.prems(2)
    obtain v' ops' found where "myers_row a b (int d) ks ?v (ops + 1 + int (snake_len a b ?x (?x - k))) = Inr (v', ops', found)"
      "if found then \<exists>k \<in> set ks. at_corner a b d k
       else (\<forall>k \<in> set ks. \<not> at_corner a b d k) \<and> row_of a b d v'"
      by (metis list.set_intros(2))
    then show ?thesis using s n False by (auto simp: at_corner_def Let_def split: if_splits)
  qed
qed

text \<open>What a successful search hands back: the rows before each \<open>d\<close> up to the first with the corner on it.\<close>

definition found_trace :: "'a list \<Rightarrow> 'a list \<Rightarrow> ydict list \<Rightarrow> bool" where
  "found_trace a b trace \<longleftrightarrow> trace \<noteq> [] \<and> (\<forall>e < length trace. row_before a b e (trace ! e))
     \<and> (\<exists>k. diag (length trace - 1) k \<and> at_corner a b (length trace - 1) k)
     \<and> (\<forall>e j. e < length trace - 1 \<longrightarrow> diag e j \<longrightarrow> \<not> at_corner a b e j)"

lemma myers_search_spec:
  assumes "length trace = d" "d \<le> n" "n = length a + length b"
    and "\<forall>e < d. row_before a b e (trace ! e)" "row_before a b d v"
    and "\<forall>e j. e < d \<longrightarrow> diag e j \<longrightarrow> \<not> at_corner a b e j"
  shows "myers_search a b budget [d..<Suc n] v trace ops = Inl OverBudget \<or>
    (\<exists>t. myers_search a b budget [d..<Suc n] v trace ops = Inr t \<and> found_trace a b t)"
  using assms
proof (induction "n - d" arbitrary: d v trace ops)
  case (0 d)
  then have d: "d = n" by simp
  from myers_row_spec [OF "0.prems"(5), of "diagonals d" "ops + int (length v)"]
  obtain v' ops' found where r: "myers_row a b (int d) (diagonals d) v (ops + int (length v)) = Inr (v', ops', found)"
    "if found then \<exists>k \<in> set (diagonals d). at_corner a b d k
     else (\<forall>k \<in> set (diagonals d). \<not> at_corner a b d k) \<and> row_of a b d v'"
    by (auto simp: diag_def)
  have found
  proof (rule ccontr)
    assume "\<not> found"
    then have "\<not> at_corner a b n (int (length a) - int (length b))"
      using r(2) corner_diag [of a b] "0.prems"(3) d by (auto simp: diag_def)
    then show False using corner_reached [of a b] "0.prems"(3) by simp
  qed
  with r(2) obtain k where k: "diag d k" "at_corner a b d k" by (auto simp: diag_def)
  have "found_trace a b (trace @ [v])"
    using "0.prems" k by (auto simp: found_trace_def nth_append less_Suc_eq)
  with r \<open>found\<close> d show ?case by (auto simp: Let_def)
next
  case (Suc x d)
  then have up: "[d..<Suc n] = d # [Suc d..<Suc n]" by (simp add: upt_rec)
  from myers_row_spec [OF Suc.prems(5), of "diagonals d" "ops + int (length v)"]
  obtain v' ops' found where r: "myers_row a b (int d) (diagonals d) v (ops + int (length v)) = Inr (v', ops', found)"
    "if found then \<exists>k \<in> set (diagonals d). at_corner a b d k
     else (\<forall>k \<in> set (diagonals d). \<not> at_corner a b d k) \<and> row_of a b d v'"
    by (auto simp: diag_def)
  show ?case
  proof (cases found)
    case True
    with r(2) obtain k where k: "diag d k" "at_corner a b d k" by (auto simp: diag_def)
    have "found_trace a b (trace @ [v])"
      using Suc.prems k by (auto simp: found_trace_def nth_append less_Suc_eq)
    with r True show ?thesis unfolding up by auto
  next
    case False
    have "row_before a b (Suc d) v'" using r(2) False by (simp add: row_before_def)
    moreover have "\<forall>e < Suc d. row_before a b e ((trace @ [v]) ! e)"
      using Suc.prems by (auto simp: nth_append less_Suc_eq)
    moreover have "\<forall>e j. e < Suc d \<longrightarrow> diag e j \<longrightarrow> \<not> at_corner a b e j"
      using Suc.prems(6) r(2) False by (auto simp: less_Suc_eq diag_def)
    ultimately show ?thesis
      using Suc.hyps(1) [of "Suc d" "trace @ [v]" v' ops'] Suc.hyps(2) Suc.prems r False
      unfolding up by auto
  qed
qed

section \<open>The edit script\<close>

text \<open>\<open>ms\<close> turns \<open>a\<close> into \<open>b\<close>: keep an equal element, delete from \<open>a\<close>, insert from \<open>b\<close>.\<close>

fun edit_script :: "move list \<Rightarrow> 'a list \<Rightarrow> 'a list \<Rightarrow> bool" where
  "edit_script [] a b = (a = [] \<and> b = [])"
| "edit_script (Keep # ms) a b = (a \<noteq> [] \<and> b \<noteq> [] \<and> hd a = hd b \<and> edit_script ms (tl a) (tl b))"
| "edit_script (Del # ms) a b = (a \<noteq> [] \<and> edit_script ms (tl a) b)"
| "edit_script (Ins # ms) a b = (b \<noteq> [] \<and> edit_script ms a (tl b))"

lemma drop_nat_step:
  "0 \<le> x \<Longrightarrow> x < int (length a) \<Longrightarrow> drop (nat x) a = a ! nat x # drop (nat (x + 1)) a"
  by (simp add: Cons_nth_drop_Suc nat_add_distrib)

lemma edit_script_snake:
  assumes "\<And>i. i < l \<Longrightarrow> 0 \<le> x \<and> 0 \<le> y \<and> x + int i < int (length a) \<and> y + int i < int (length b)
      \<and> a ! nat (x + int i) = b ! nat (y + int i)"
    and "edit_script ms (drop (nat (x + int l)) a) (drop (nat (y + int l)) b)"
  shows "edit_script (replicate l Keep @ ms) (drop (nat x) a) (drop (nat y) b)"
  using assms
proof (induction l arbitrary: x y)
  case (Suc l)
  have "edit_script (replicate l Keep @ ms) (drop (nat (x + 1)) a) (drop (nat (y + 1)) b)"
  proof (rule Suc.IH)
    show "0 \<le> x + 1 \<and> 0 \<le> y + 1 \<and> x + 1 + int i < int (length a) \<and> y + 1 + int i < int (length b)
      \<and> a ! nat (x + 1 + int i) = b ! nat (y + 1 + int i)" if "i < l" for i
      using Suc.prems(1) [of "Suc i"] that by (simp add: algebra_simps)
    show "edit_script ms (drop (nat (x + 1 + int l)) a) (drop (nat (y + 1 + int l)) b)"
      using Suc.prems(2) by (simp add: algebra_simps)
  qed
  then show ?case using Suc.prems(1) [of 0] drop_nat_step [of x a] drop_nat_step [of y b] by simp
qed simp

lemma back_diagonal_eq:
  "px \<le> x \<Longrightarrow> py \<le> y \<Longrightarrow> l = nat (min (x - px) (y - py)) \<Longrightarrow>
     back_diagonal x y px py ms = (x - int l, y - int l, replicate l Keep @ ms)"
proof (induction l arbitrary: x y ms)
  case 0
  then show ?case by (subst back_diagonal.simps) auto
next
  case (Suc l)
  then have "px < x" "py < y" by auto
  then have "back_diagonal x y px py ms = back_diagonal (x - 1) (y - 1) px py (Keep # ms)"
    by (subst back_diagonal.simps) simp
  also have "\<dots> = (x - 1 - int l, y - 1 - int l, replicate l Keep @ Keep # ms)"
    by (rule Suc.IH) (use Suc.prems(3) \<open>px < x\<close> \<open>py < y\<close> in auto)
  finally show ?case by (simp add: replicate_append_same [symmetric])
qed

lemma edit_script_del:
  "0 \<le> x \<Longrightarrow> x < int (length a) \<Longrightarrow> edit_script ms (drop (nat (x + 1)) a) b \<Longrightarrow>
     edit_script (Del # ms) (drop (nat x) a) b"
  by (simp add: drop_nat_step)

lemma edit_script_ins:
  "0 \<le> y \<Longrightarrow> y < int (length b) \<Longrightarrow> edit_script ms a (drop (nat (y + 1)) b) \<Longrightarrow>
     edit_script (Ins # ms) a (drop (nat y) b)"
  by (simp add: drop_nat_step)

lemma rows_snoc:
  "d < length t \<Longrightarrow> rev (zip [0..<Suc d] (take (Suc d) t)) = (d, t ! d) # rev (zip [0..<d] (take d t))"
  by (simp add: take_Suc_conv_app_nth)

lemma myers_back_step:
  "back_diagonal_of v (int d) (x - y) = pk \<Longrightarrow> dict_get v pk 0 = px \<Longrightarrow>
     back_diagonal x y px (px - pk) ms = (x', y', ms') \<Longrightarrow> 0 < d \<Longrightarrow>
     myers_back ((d, v) # rows) x y ms = myers_back rows px (px - pk) ((if x' = px then Ins else Del) # ms')"
  by simp

lemma myers_back_script:
  assumes "\<forall>e < length t. row_before a b e (t ! e)" "d < length t"
    and "diag d (x - y)" "x = reach a b d (x - y)" "x \<le> int (length a)" "y \<le> int (length b)"
    and "edit_script ms (drop (nat x) a) (drop (nat y) b)"
  shows "edit_script (myers_back (rev (zip [0..<Suc d] (take (Suc d) t))) x y ms) a b"
  using assms(2-)
proof (induction d arbitrary: x y ms)
  case 0
  let ?l = "snake_len a b 0 0"
  have xy: "x = int ?l" "y = int ?l" using "0.prems" by auto
  have "back_diagonal x y 0 (- 1) ms = (x - int ?l, y - int ?l, replicate ?l Keep @ ms)"
    by (rule back_diagonal_eq) (use xy in auto)
  moreover have "map_of (t ! 0) 1 = Some 0" using assms(1) "0.prems"(1) by (force simp: row_before_def)
  moreover have "edit_script (replicate ?l Keep @ ms) (drop (nat 0) a) (drop (nat 0) b)"
    using edit_script_snake [where x = 0 and y = 0 and l = ?l, OF snake_inside [of _ a b 0 0]] "0.prems"(6) xy by simp
  ultimately show ?case
    using xy "0.prems"(1)
    by (simp only: rows_snoc) (simp add: back_diagonal_of_def dict_get_def)
next
  case (Suc e)
  define k where "k = x - y"
  define fx where "fx = first_x a b (Suc e) k"
  define l where "l = snake_len a b fx (fx - k)"
  have k: "diag (Suc e) k" using Suc.prems(2) k_def by simp
  have x: "x = fx + int l" using Suc.prems(3) reach_first_x [OF k, of a b] unfolding k_def fx_def l_def by simp
  have y: "y = fx - k + int l" using x k_def by simp
  have row: "diag e j \<Longrightarrow> map_of (t ! Suc e) j = Some (reach a b e j)" for j
    using assms(1) Suc.prems(1) by (force simp: row_before_def row_of_def)
  have script: "edit_script (replicate l Keep @ ms) (drop (nat fx) a) (drop (nat (fx - k)) b)"
    using edit_script_snake [where x = fx and y = "fx - k" and l = l, OF snake_inside [of _ a b fx "fx - k", folded l_def]]
      Suc.prems(6) unfolding x y by simp
  let ?down = "k = - int (Suc e) \<or> (k \<noteq> int (Suc e) \<and> reach a b e (k - 1) < reach a b e (k + 1))"
  show ?case
  proof (cases ?down)
    case True
    then have d: "diag e (k + 1)" using diag_down [OF k] by auto
    define px where "px = reach a b e (k + 1)"
    have fx': "fx = px" using True by (simp add: fx_def first_x_def start_of_def px_def)
    have pos: "0 \<le> px \<and> k + 1 \<le> px" using reach_nonneg [OF d, of a b] unfolding px_def .
    have bd: "back_diagonal_of (t ! Suc e) (int (Suc e)) (x - y) = k + 1"
      unfolding k_def [symmetric] using True row [OF d] row [OF diag_right [OF k]] by (auto simp: back_diagonal_of_def dict_get_def)
    have g: "dict_get (t ! Suc e) (k + 1) 0 = px" using row [OF d] by (simp add: dict_get_def px_def)
    have bk: "back_diagonal x y px (px - (k + 1)) ms = (x - int l, y - int l, replicate l Keep @ ms)"
      by (rule back_diagonal_eq) (use x y fx' in auto)
    have walk: "myers_back (rev (zip [0..<Suc (Suc e)] (take (Suc (Suc e)) t))) x y ms
        = myers_back (rev (zip [0..<Suc e] (take (Suc e) t))) px (px - (k + 1)) (Ins # replicate l Keep @ ms)"
      unfolding rows_snoc [OF Suc.prems(1)] myers_back_step [OF bd g bk zero_less_Suc]
      using x fx' by simp
    have "edit_script (Ins # replicate l Keep @ ms) (drop (nat px) a) (drop (nat (px - (k + 1))) b)"
      by (rule edit_script_ins) (use pos script fx' y Suc.prems(5) in auto)
    then show ?thesis
      unfolding walk by (intro Suc.IH) (use Suc.prems d x y fx' in \<open>auto simp: px_def\<close>)
  next
    case False
    then have d: "diag e (k - 1)" using diag_right [OF k] by auto
    define px where "px = reach a b e (k - 1)"
    have fx': "fx = px + 1" using False by (auto simp: fx_def first_x_def start_of_def px_def)
    then have sk: "fx - k = px - (k - 1)" by simp
    have pos: "0 \<le> px \<and> k - 1 \<le> px" using reach_nonneg [OF d, of a b] unfolding px_def .
    have bd: "back_diagonal_of (t ! Suc e) (int (Suc e)) (x - y) = k - 1"
      unfolding k_def [symmetric] using False row [OF d] row [OF diag_down [OF k]] by (auto simp: back_diagonal_of_def dict_get_def)
    have g: "dict_get (t ! Suc e) (k - 1) 0 = px" using row [OF d] by (simp add: dict_get_def px_def)
    have bk: "back_diagonal x y px (px - (k - 1)) ms = (x - int l, y - int l, replicate l Keep @ ms)"
      by (rule back_diagonal_eq) (use x y fx' in auto)
    have walk: "myers_back (rev (zip [0..<Suc (Suc e)] (take (Suc (Suc e)) t))) x y ms
        = myers_back (rev (zip [0..<Suc e] (take (Suc e) t))) px (px - (k - 1)) (Del # replicate l Keep @ ms)"
      unfolding rows_snoc [OF Suc.prems(1)] myers_back_step [OF bd g bk zero_less_Suc]
      using x fx' by simp
    have "edit_script (Del # replicate l Keep @ ms) (drop (nat px) a) (drop (nat (px - (k - 1))) b)"
      by (rule edit_script_del) (use pos script [unfolded sk] fx' x Suc.prems(4) in auto)
    then show ?thesis
      unfolding walk by (intro Suc.IH) (use Suc.prems d x y fx' in \<open>auto simp: px_def\<close>)
  qed
qed

lemma myers_moves_spec:
  "myers_moves a b budget = Inl OverBudget \<or>
     (\<exists>ms. myers_moves a b budget = Inr ms \<and> edit_script ms a b)"
proof -
  have "myers_search a b budget [0..<Suc (length a + length b)] [(1, 0)] [] 0 = Inl OverBudget \<or>
    (\<exists>t. myers_search a b budget [0..<Suc (length a + length b)] [(1, 0)] [] 0 = Inr t \<and> found_trace a b t)"
    by (rule myers_search_spec [where d = 0]) (auto simp: row_before_def)
  then show ?thesis
  proof
    assume "\<exists>t. myers_search a b budget [0..<Suc (length a + length b)] [(1, 0)] [] 0 = Inr t \<and> found_trace a b t"
    then obtain t where t: "myers_search a b budget [0..<Suc (length a + length b)] [(1, 0)] [] 0 = Inr t"
      "found_trace a b t" by blast
    let ?d = "length t - 1" and ?n = "int (length a)" and ?m = "int (length b)"
    have len: "Suc ?d = length t" using t(2) by (cases t) (auto simp: found_trace_def)
    obtain k where k: "diag ?d k" "at_corner a b ?d k" using t(2) by (auto simp: found_trace_def)
    have "reach a b ?d k = ?n \<and> k = ?n - ?m"
      using t(2) k by (intro first_corner) (auto simp: found_trace_def)
    then have "edit_script (myers_back (rev (zip [0..<Suc ?d] (take (Suc ?d) t))) ?n ?m []) a b"
      using t(2) k len by (intro myers_back_script) (auto simp: found_trace_def)
    then show ?thesis using t(1) unfolding len by (simp add: myers_moves_def del: upt_Suc)
  qed (simp add: myers_moves_def)
qed

end
