(* ===== verification/Page_Merge.thy ===== *)
theory Page_Merge
  imports Page_Diff_Correct
begin

text \<open>
  What the hunks and the merge mean: hunks rebuild the other list, a merge applies the changes of both
  sides, and the sides are treated alike except for two insertions at one point.
\<close>

section \<open>Hunks rebuild the other side\<close>

text \<open>Hunks as the difference yields them: in order, within \<open>n\<close> elements, at least one kept element apart.\<close>

fun hunks_from :: "nat \<Rightarrow> nat \<Rightarrow> 'a hunk list \<Rightarrow> bool" where
  "hunks_from n pos [] = True"
| "hunks_from n pos ((i1, i2, r) # hs) =
     (pos \<le> i1 \<and> i1 \<le> i2 \<and> i2 \<le> n \<and> (i1 < i2 \<or> r \<noteq> []) \<and> hunks_from n (Suc i2) hs)"

lemma hunks_from_mono: "hunks_from n pos hs \<Longrightarrow> pos' \<le> pos \<Longrightarrow> hunks_from n pos' hs"
  by (cases "(n, pos, hs)" rule: hunks_from.cases) auto

lemma slice_Suc: "i < j \<Longrightarrow> i < length xs \<Longrightarrow> slice xs i j = xs ! i # slice xs (Suc i) j"
  by (simp add: slice_def Cons_nth_drop_Suc [symmetric] Suc_diff_Suc [symmetric] del: Suc_diff_Suc)

lemma slice_append_drop: "i \<le> j \<Longrightarrow> slice xs i j @ drop j xs = drop i xs"
  by (simp add: slice_def) (metis append_take_drop_id drop_drop le_add_diff_inverse2)

lemma slice_self [simp]: "slice xs i i = []"
  by (simp add: slice_def)

lemma slice_nonempty: "i < j \<Longrightarrow> j \<le> length xs \<Longrightarrow> slice xs i j \<noteq> []"
  by (simp add: slice_def)

lemma apply_hunks_step:
  "hunks_from n (Suc i) hs \<Longrightarrow> i < length b \<Longrightarrow> apply_hunks b i hs = b ! i # apply_hunks b (Suc i) hs"
  by (cases "(n, Suc i, hs)" rule: hunks_from.cases) (auto simp: slice_Suc Cons_nth_drop_Suc)

lemma drop_step:
  assumes "drop i xs = y # ys"
  shows "i < length xs \<and> xs ! i = y \<and> drop (Suc i) xs = ys"
proof -
  have i: "i < length xs" using assms by (metis drop_all linorder_not_less list.distinct(1))
  with assms show ?thesis using Cons_nth_drop_Suc [OF i] by simp
qed

definition hunk_start :: "nat \<Rightarrow> nat \<Rightarrow> (nat \<times> nat) option \<Rightarrow> nat \<times> nat" where
  "hunk_start i j start = (case start of None \<Rightarrow> (i, j) | Some s \<Rightarrow> s)"

lemma hunk_loop_rebuilds:
  assumes "edit_script ms A B" "drop i base = A @ S" "drop j other = B @ S"
    and "i + length A \<le> length base" "j + length B \<le> length other"
    and "case start of None \<Rightarrow> True | Some (si, sj) \<Rightarrow> si \<le> i \<and> sj \<le> j \<and> (si < i \<or> sj < j)"
  shows "apply_hunks base (fst (hunk_start i j start)) (hunk_loop other (ms @ [Keep]) i j start)
      = drop (snd (hunk_start i j start)) other
    \<and> hunks_from (i + length A) (fst (hunk_start i j start)) (hunk_loop other (ms @ [Keep]) i j start)"
  using assms
proof (induction ms A B arbitrary: i j start rule: edit_script.induct)
  case (1 a b)
  then have same: "drop i base = drop j other" and ij: "i \<le> length base" "j \<le> length other" by auto
  show ?case
  proof (cases start)
    case None
    then show ?thesis using same by (simp add: hunk_start_def)
  next
    case (Some s)
    then show ?thesis
      using "1.prems"(1,6) same ij slice_nonempty [of "snd s" j other]
      by (auto simp: hunk_start_def slice_append_drop)
  qed
next
  case (2 ms a b)
  then obtain x A' B' where ab: "a = x # A'" "b = x # B'" by (cases a; cases b) auto
  have i: "i < length base" "base ! i = x" "drop (Suc i) base = A' @ S"
    using "2.prems"(1,2) ab drop_step [of i base x] by auto
  have j: "j < length other" "other ! j = x" "drop (Suc j) other = B' @ S"
    using "2.prems"(1,3) ab drop_step [of j other x] by auto
  let ?rest = "hunk_loop other (ms @ [Keep]) (Suc i) (Suc j) None"
  have IH: "apply_hunks base (Suc i) ?rest = drop (Suc j) other \<and> hunks_from (Suc i + length A') (Suc i) ?rest"
    using "2.IH" [of "Suc i" "Suc j" None] "2.prems" ab i j by (simp add: hunk_start_def)
  then have rest: "apply_hunks base i ?rest = drop j other"
    using apply_hunks_step [OF conjunct2 [OF IH] i(1)] i j "2.prems"(3) ab by simp
  have from_i: "hunks_from (i + length a) i ?rest"
    using hunks_from_mono [OF conjunct2 [OF IH]] ab by simp
  show ?case
  proof (cases start)
    case None
    then show ?thesis using rest from_i by (simp add: hunk_start_def)
  next
    case (Some s)
    obtain si sj where s: "s = (si, sj)" by force
    have "slice other sj j \<noteq> [] \<or> si < i"
      using "2.prems"(6) Some s j by (auto simp: slice_def)
    then show ?thesis
      using rest IH "2.prems"(6) Some s ab by (auto simp: hunk_start_def slice_append_drop)
  qed
next
  case (3 ms a b)
  then obtain x A' where a: "a = x # A'" by (cases a) auto
  have "drop (Suc i) base = A' @ S" using "3.prems"(2) a drop_step [of i base x] by auto
  then show ?case
    using "3.IH" [of "Suc i" j "Some (hunk_start i j start)"] "3.prems" a
    by (cases start) (auto simp: hunk_start_def)
next
  case (4 ms a b)
  then obtain x B' where b: "b = x # B'" by (cases b) auto
  have "drop (Suc j) other = B' @ S" using "4.prems"(3) b drop_step [of j other x] by auto
  then show ?case
    using "4.IH" [of i "Suc j" "Some (hunk_start i j start)"] "4.prems" b
    by (cases start) (auto simp: hunk_start_def)
qed

section \<open>Interning\<close>

text \<open>Numbering the paragraphs changes nothing: the difference only compares them.\<close>

lemma list_item_map: "list_item (map f xs) i = map_sum id f (list_item xs i)"
  by (auto simp: list_item_def Let_def)

lemma list_item_in: "list_item xs i = Inr x \<Longrightarrow> x \<in> set xs"
  by (auto simp: list_item_def Let_def split: if_splits)

lemma myers_snake_map:
  "inj_on f (set a \<union> set b) \<Longrightarrow> myers_snake (map f a) (map f b) x y ops = myers_snake a b x y ops"
proof (induction a b x y ops rule: myers_snake.induct)
  case (1 a b x y ops)
  show ?case
  proof (cases "x < int (length a) \<and> y < int (length b)")
    case True
    show ?thesis
    proof (cases "list_item a x")
      case (Inr p)
      show ?thesis
      proof (cases "list_item b y")
        case (Inr q)
        have "f p = f q \<longleftrightarrow> p = q"
          using "1.prems" list_item_in [OF \<open>list_item a x = Inr p\<close>] list_item_in [OF Inr] by (auto dest: inj_onD)
        with 1 True Inr \<open>list_item a x = Inr p\<close> show ?thesis
          by (subst (1 2) myers_snake.simps) (simp add: list_item_map)
      qed (use True \<open>list_item a x = Inr p\<close> in \<open>subst (1 2) myers_snake.simps, simp add: list_item_map\<close>)
    qed (use True in \<open>subst (1 2) myers_snake.simps, simp add: list_item_map\<close>)
  qed (subst (1 2) myers_snake.simps, auto)
qed

lemma myers_row_map:
  "inj_on f (set a \<union> set b) \<Longrightarrow> myers_row (map f a) (map f b) d ks v ops = myers_row a b d ks v ops"
  by (induction ks arbitrary: v ops) (simp_all add: myers_snake_map Let_def cong: if_cong)

lemma myers_search_map:
  "inj_on f (set a \<union> set b) \<Longrightarrow> myers_search (map f a) (map f b) budget ds v trace ops = myers_search a b budget ds v trace ops"
  by (induction ds arbitrary: v trace ops) (simp_all add: myers_row_map Let_def cong: if_cong)

lemma myers_moves_map:
  "inj_on f (set a \<union> set b) \<Longrightarrow> myers_moves (map f a) (map f b) budget = myers_moves a b budget"
  by (simp add: myers_moves_def myers_search_map)

lemma common_prefix_map:
  "inj_on f (set a \<union> set b) \<Longrightarrow> common_prefix (map f a) (map f b) pre = common_prefix a b pre"
proof (induction a b pre rule: common_prefix.induct)
  case (1 a b pre)
  have "f (a ! pre) = f (b ! pre) \<longleftrightarrow> a ! pre = b ! pre" if "pre < length a" "pre < length b"
    using "1.prems" that by (auto dest: inj_onD)
  with 1 show ?case by (subst (1 2) common_prefix.simps) auto
qed

lemma common_suffix_map:
  "inj_on f (set a \<union> set b) \<Longrightarrow> common_suffix (map f a) (map f b) pre suf = common_suffix a b pre suf"
proof (induction a b pre suf rule: common_suffix.induct)
  case (1 a b pre suf)
  have "f (a ! (length a - 1 - suf)) = f (b ! (length b - 1 - suf)) \<longleftrightarrow>
      a ! (length a - 1 - suf) = b ! (length b - 1 - suf)" if "suf < length a - pre" "suf < length b - pre"
    using "1.prems" that by (auto dest: inj_onD)
  with 1 show ?case by (subst (1 2) common_suffix.simps) auto
qed

definition ids_ok :: "('a \<times> nat) list \<Rightarrow> bool" where
  "ids_ok ids \<longleftrightarrow> distinct (map fst ids) \<and> map snd ids = [0..<length ids]"

definition id_of :: "('a \<times> nat) list \<Rightarrow> 'a \<Rightarrow> nat" where
  "id_of ids p = the (map_of ids p)"

lemma id_of_inj:
  assumes "ids_ok ids" shows "inj_on (id_of ids) (fst ` set ids)"
proof (rule inj_onI)
  fix p q assume "p \<in> fst ` set ids" "q \<in> fst ` set ids" and eq: "id_of ids p = id_of ids q"
  then obtain i j where "(p, i) \<in> set ids" "(q, j) \<in> set ids" by auto
  moreover have "inj_on snd (set ids)"
    using assms by (metis distinct_map distinct_upt ids_ok_def)
  moreover have "i = j" using calculation assms eq by (auto simp: ids_ok_def id_of_def)
  ultimately show "p = q" by (metis inj_onD prod.inject snd_conv)
qed

lemma intern_all_spec:
  "ids_ok ids \<Longrightarrow> intern_all ps ids = (is, ids') \<Longrightarrow>
     ids_ok ids' \<and> (\<exists>ext. ids' = ids @ ext) \<and> set ps \<subseteq> fst ` set ids' \<and> is = map (id_of ids') ps"
proof (induction ps arbitrary: ids "is")
  case (Cons p ps)
  obtain i ids1 where 1: "intern p ids = (i, ids1)" by force
  obtain "is'" where 2: "intern_all ps ids1 = (is', ids')" "is = i # is'"
    using Cons.prems(2) 1 by (auto split: prod.splits)
  have "ids_ok ids1 \<and> map_of ids1 p = Some i \<and> (\<exists>ext. ids1 = ids @ ext)"
    using 1 Cons.prems(1)
    using map_of_eq_None_iff [of ids p]
    by (cases "map_of ids p") (auto simp: intern_def ids_ok_def map_add_def simp del: map_of_eq_None_iff)
  then have ok1: "ids_ok ids1" and map1: "map_of ids1 p = Some i" and ext1: "\<exists>ext. ids1 = ids @ ext" by auto
  note IH = Cons.IH [OF ok1 2(1)]
  then obtain ext where ext: "ids' = ids1 @ ext" by blast
  have "map_of ids' p = Some i"
    using IH map1 unfolding ids_ok_def ext by (auto simp: map_of_append map_add_def dest!: map_of_SomeD split: option.splits)
  then show ?case using IH ext ext1 2 by (auto simp: id_of_def dest: map_of_SomeD intro: rev_image_eqI)
qed simp

text \<open>The difference without the numbering.\<close>

definition plain_hunks :: "'a list \<Rightarrow> 'a list \<Rightarrow> diff_error + 'a hunk list" where
  "plain_hunks base other =
     (let pre = common_prefix base other 0; suf = common_suffix base other pre 0
      in res_bind (myers_moves (slice base pre (length base - suf)) (slice other pre (length other - suf)) ops_budget)
           (\<lambda>moves. Inr (hunk_loop other (moves @ [Keep]) pre pre None)))"

lemma slice_map: "slice (map f xs) i j = map f (slice xs i j)"
  by (simp add: slice_def take_map drop_map)

lemma set_slice: "set (slice xs i j) \<subseteq> set xs"
  unfolding slice_def by (meson order_trans set_drop_subset set_take_subset)

lemma bounded_hunks_plain:
  assumes "ids_ok ids"
  shows "\<exists>ids'. ids_ok ids' \<and> bounded_hunks base other ids = map_sum id (\<lambda>hs. (hs, ids')) (plain_hunks base other)"
proof -
  obtain a ids1 where 1: "intern_all base ids = (a, ids1)" by force
  obtain b ids2 where 2: "intern_all other ids1 = (b, ids2)" by force
  note s1 = intern_all_spec [OF assms 1]
  note s2 = intern_all_spec [OF conjunct1 [OF s1] 2]
  obtain ext where ext: "ids2 = ids1 @ ext" using s2 by blast
  have ok2: "ids_ok ids2" using s2 by blast
  have same: "id_of ids2 p = id_of ids1 p" if p: "p \<in> set base" for p
  proof -
    have "p \<in> fst ` set ids1" using s1 p by auto
    then obtain i where "map_of ids1 p = Some i" by (metis map_of_eq_None_iff not_None_eq)
    moreover have "map_of ids2 p = Some i"
      using calculation ok2 unfolding ids_ok_def ext
      by (auto simp: map_of_append map_add_def dest!: map_of_SomeD split: option.splits)
    ultimately show ?thesis by (simp add: id_of_def)
  qed
  have a: "a = map (id_of ids2) base" and b: "b = map (id_of ids2) other"
    using s1 s2 same by auto
  have inj: "inj_on (id_of ids2) (set base \<union> set other)"
    by (rule inj_on_subset [OF id_of_inj [OF ok2]]) (use s1 s2 ext in auto)
  let ?pre = "common_prefix base other 0"
  let ?suf = "common_suffix base other ?pre 0"
  have "inj_on (id_of ids2) (set (slice base ?pre (length base - ?suf)) \<union> set (slice other ?pre (length other - ?suf)))"
    by (rule inj_on_subset [OF inj]) (rule Un_mono [OF set_slice set_slice])
  from myers_moves_map [OF this, of ops_budget]
  have "bounded_hunks base other ids = map_sum id (\<lambda>hs. (hs, ids2)) (plain_hunks base other)"
    unfolding bounded_hunks_def plain_hunks_def 1 2 Let_def prod.case a b
    by (simp add: slice_map common_prefix_map [OF inj] common_suffix_map [OF inj] res_bind_def split: sum.splits)
  with ok2 show ?thesis by blast
qed

lemma hunks_from_bound: "hunks_from n pos hs \<Longrightarrow> n \<le> m \<Longrightarrow> hunks_from m pos hs"
  by (induction n pos hs rule: hunks_from.induct) auto

lemma slice_split: "i \<le> j \<Longrightarrow> j \<le> k \<Longrightarrow> slice xs i k = slice xs i j @ slice xs j k"
proof -
  assume "i \<le> j" "j \<le> k"
  then have ki: "k - i = (j - i) + (k - j)" by simp
  from \<open>i \<le> j\<close> show ?thesis unfolding slice_def ki take_add by simp
qed

lemma apply_hunks_earlier:
  assumes "hunks_from n pos hs" "pos' \<le> pos" "pos \<le> length b"
  shows "apply_hunks b pos' hs = slice b pos' pos @ apply_hunks b pos hs"
proof (cases hs)
  case Nil
  then show ?thesis using assms slice_append_drop [of pos' pos b] by simp
next
  case (Cons h hs')
  obtain i1 i2 r where "h = (i1, i2, r)" by (cases h)
  then show ?thesis using assms Cons slice_split [of pos' pos i1 b] by simp
qed

lemma common_prefix_spec:
  "take pre a = take pre b \<Longrightarrow> pre \<le> length a \<Longrightarrow> pre \<le> length b \<Longrightarrow>
     take (common_prefix a b pre) a = take (common_prefix a b pre) b
     \<and> common_prefix a b pre \<le> length a \<and> common_prefix a b pre \<le> length b"
proof (induction a b pre rule: common_prefix.induct)
  case (1 a b pre)
  show ?case
  proof (cases "pre < length a \<and> pre < length b \<and> a ! pre = b ! pre")
    case True
    then have "take (Suc pre) a = take (Suc pre) b" using "1.prems"(1) by (simp add: take_Suc_conv_app_nth)
    with "1.IH" [OF True] True show ?thesis by (subst (1 2 3 4) common_prefix.simps) simp
  qed (use "1.prems" in \<open>subst (1 2 3 4) common_prefix.simps, auto\<close>)
qed

lemma drop_last_step:
  assumes "suf < length a"
  shows "drop (length a - Suc suf) a = a ! (length a - 1 - suf) # drop (length a - suf) a"
proof -
  have "length a - Suc suf < length a" "Suc (length a - Suc suf) = length a - suf" using assms by auto
  then show ?thesis using Cons_nth_drop_Suc [of "length a - Suc suf" a] by simp
qed

lemma common_suffix_spec:
  "suf \<le> length a - pre \<Longrightarrow> suf \<le> length b - pre \<Longrightarrow> drop (length a - suf) a = drop (length b - suf) b \<Longrightarrow>
     drop (length a - common_suffix a b pre suf) a = drop (length b - common_suffix a b pre suf) b
     \<and> common_suffix a b pre suf \<le> length a - pre \<and> common_suffix a b pre suf \<le> length b - pre"
proof (induction a b pre suf rule: common_suffix.induct)
  case (1 a b pre suf)
  let ?c = "suf < length a - pre \<and> suf < length b - pre \<and> a ! (length a - 1 - suf) = b ! (length b - 1 - suf)"
  show ?case
  proof (cases ?c)
    case True
    have "drop (length a - Suc suf) a = a ! (length a - 1 - suf) # drop (length a - suf) a"
      by (rule drop_last_step) (use True in auto)
    moreover have "drop (length b - Suc suf) b = b ! (length b - 1 - suf) # drop (length b - suf) b"
      by (rule drop_last_step) (use True in auto)
    ultimately have "drop (length a - Suc suf) a = drop (length b - Suc suf) b"
      using "1.prems"(3) True by simp
    with "1.IH" [OF True] True show ?thesis by (subst (1 2 3 4) common_suffix.simps) simp
  qed (use "1.prems" in \<open>subst (1 2 3 4) common_suffix.simps, auto\<close>)
qed

lemma plain_hunks_spec:
  "plain_hunks base other = Inl OverBudget \<or>
     (\<exists>hs. plain_hunks base other = Inr hs \<and> apply_hunks base 0 hs = other \<and> hunks_from (length base) 0 hs)"
proof -
  define pre where "pre = common_prefix base other 0"
  define suf where "suf = common_suffix base other pre 0"
  have p: "take pre base = take pre other" "pre \<le> length base" "pre \<le> length other"
    using common_prefix_spec [of 0 base other] unfolding pre_def by auto
  have s: "drop (length base - suf) base = drop (length other - suf) other"
    "suf \<le> length base - pre" "suf \<le> length other - pre"
    using common_suffix_spec [of 0 base pre other] unfolding suf_def by auto
  define A where "A = slice base pre (length base - suf)"
  define B where "B = slice other pre (length other - suf)"
  define S where "S = drop (length base - suf) base"
  have base: "drop pre base = A @ S" using s p unfolding A_def S_def by (subst slice_append_drop) auto
  have other: "drop pre other = B @ S" using s p unfolding B_def S_def by (simp add: slice_append_drop)
  have len: "length A = length base - suf - pre" "length B = length other - suf - pre"
    unfolding A_def B_def slice_def by auto
  have plain: "plain_hunks base other =
      res_bind (myers_moves A B ops_budget) (\<lambda>moves. Inr (hunk_loop other (moves @ [Keep]) pre pre None))"
    by (simp add: plain_hunks_def Let_def A_def B_def suf_def pre_def)
  show ?thesis
  proof (cases "myers_moves A B ops_budget = Inl OverBudget")
    case False
    then obtain ms where ms: "myers_moves A B ops_budget = Inr ms" "edit_script ms A B"
      using myers_moves_spec [of A B ops_budget] by blast
    let ?hs = "hunk_loop other (ms @ [Keep]) pre pre None"
    have r: "apply_hunks base pre ?hs = drop pre other \<and> hunks_from (pre + length A) pre ?hs"
      using hunk_loop_rebuilds [OF ms(2) base other, of None] len p s by (simp add: hunk_start_def)
    then have "apply_hunks base 0 ?hs = slice base 0 pre @ drop pre other"
      using apply_hunks_earlier [of _ pre ?hs 0 base] p by auto
    also have "\<dots> = other" using p(1) by (simp add: slice_def)
    finally have "apply_hunks base 0 ?hs = other" .
    moreover have "hunks_from (length base) 0 ?hs"
      using hunks_from_bound [OF hunks_from_mono [OF conjunct2 [OF r], of 0], of "length base"] len p s by auto
    ultimately show ?thesis using plain ms by simp
  qed (simp add: plain)
qed

section \<open>Partners\<close>

definition hunk_end :: "'a hunk \<Rightarrow> nat" where
  "hunk_end h = fst (snd h)"

definition proper_hunk :: "'a hunk \<Rightarrow> bool" where
  "proper_hunk h \<longleftrightarrow> fst h \<le> hunk_end h"

lemma touch_iff: "touch h w \<longleftrightarrow> (fst h < hunk_end w \<and> fst w < hunk_end h)
    \<or> (fst h = hunk_end h \<and> hunk_end h = fst w \<and> fst w = hunk_end w)"
  by (cases h; cases w) (auto simp: hunk_end_def)

lemma touch_sym: "touch h w = touch w h"
  by (auto simp: touch_iff)

lemma hunks_from_starts: "hunks_from n pos hs \<Longrightarrow> h \<in> set hs \<Longrightarrow> pos \<le> fst h \<and> proper_hunk h \<and> hunk_end h \<le> n"
proof (induction n pos hs rule: hunks_from.induct)
  case (2 n pos i1 i2 r hs)
  then show ?case by (auto simp: proper_hunk_def hunk_end_def)
qed simp

lemma hunks_from_apart: "hunks_from n pos hs \<Longrightarrow> sorted_wrt (\<lambda>h w. hunk_end h < fst w) hs"
proof (induction n pos hs rule: hunks_from.induct)
  case (2 n pos i1 i2 r hs)
  then show ?case using hunks_from_starts [of n "Suc i2" hs] by (fastforce simp: hunk_end_def Suc_le_eq)
qed simp

text \<open>The inner loop may stop early because the hunks of the other side come in order.\<close>

lemma partner_row_eq:
  assumes "sorted_wrt (\<lambda>h w. hunk_end h < fst w) ws" "\<forall>w \<in> set ws. proper_hunk w"
    and "j + length ws = length tof"
  shows "partner_row i h j ws mine tof =
    (mine @ map ((+) j) (filter (\<lambda>l. touch h (ws ! l)) [0..<length ws]),
     take j tof @ map2 (\<lambda>w ps. if touch h w then ps @ [i] else ps) ws (drop j tof))"
  using assms
proof (induction ws arbitrary: j mine tof)
  case Nil
  then show ?case by simp
next
  case (Cons w ws)
  have up: "[0..<length (w # ws)] = 0 # map Suc [0..<length ws]"
    by (simp add: upt_conv_Cons map_Suc_upt del: upt_Suc)
  have d: "drop j tof = tof ! j # drop (Suc j) tof" using Cons.prems(3) by (simp add: Cons_nth_drop_Suc)
  show ?case
  proof (cases "hunk_end h < fst w")
    case True
    have none: "\<not> touch h v" if "v \<in> set (w # ws)" for v
      using that True Cons.prems(1,2) by (auto simp: touch_iff proper_hunk_def)
    have nt: "\<not> touch h ((w # ws) ! l)" if "l < length (w # ws)" for l
      using none nth_mem [OF that] by blast
    then have "filter (\<lambda>l. touch h ((w # ws) ! l)) [0..<length (w # ws)] = []"
      unfolding filter_empty_conv by (metis atLeastLessThan_iff set_upt)
    moreover have "map2 (\<lambda>w ps. if touch h w then ps @ [i] else ps) (w # ws) (drop j tof) = drop j tof"
      by (rule nth_equalityI) (use nt Cons.prems(3) in \<open>auto simp del: zip_Cons_Cons\<close>)
    ultimately show ?thesis using True Cons.prems(3)
      by (simp add: hunk_end_def del: upt_Suc zip_Cons_Cons)
  next
    case False
    define tof' where "tof' = (if touch h w then tof[j := tof ! j @ [i]] else tof)"
    have step: "partner_row i h j (w # ws) mine tof
        = partner_row i h (Suc j) ws (if touch h w then mine @ [j] else mine) tof'"
      using False by (simp add: tof'_def hunk_end_def)
    have "Suc j + length ws = length tof'" using Cons.prems(3) by (simp add: tof'_def)
    note IH = Cons.IH [OF _ _ this]
    have t: "take (Suc j) tof' = take j tof @ [if touch h w then tof ! j @ [i] else tof ! j]"
      "drop (Suc j) tof' = drop (Suc j) tof"
      using Cons.prems(3) by (auto simp: tof'_def take_Suc_conv_app_nth)
    show ?thesis
      unfolding step up d using Cons.prems(1,2)
      by (subst IH) (auto simp: t filter_map o_def)
  qed
qed

lemma partners_eq:
  assumes "sorted_wrt (\<lambda>h w. hunk_end h < fst w) theirs" "\<forall>w \<in> set theirs. proper_hunk w"
  shows "length tof = length theirs \<Longrightarrow> partners i hs theirs ours_of tof =
    (ours_of @ map (\<lambda>h. filter (\<lambda>l. touch h (theirs ! l)) [0..<length theirs]) hs,
     map2 (\<lambda>w ps. ps @ map ((+) i) (filter (\<lambda>l. touch (hs ! l) w) [0..<length hs])) theirs tof)"
proof (induction hs arbitrary: i ours_of tof)
  case Nil
  then show ?case by (simp add: map2_map_map [symmetric]) (intro nth_equalityI; simp)
next
  case (Cons h hs)
  have up: "[0..<length (h # hs)] = 0 # map Suc [0..<length hs]"
    by (simp add: upt_conv_Cons map_Suc_upt del: upt_Suc)
  let ?tof = "map2 (\<lambda>w ps. if touch h w then ps @ [i] else ps) theirs tof"
  have row: "partner_row i h 0 theirs [] tof = (filter (\<lambda>l. touch h (theirs ! l)) [0..<length theirs], ?tof)"
    using partner_row_eq [OF assms, of 0 tof i h "[]"] Cons.prems by (simp add: map_idI)
  have "length ?tof = length theirs" using Cons.prems by simp
  from Cons.IH [OF this, of "Suc i" "ours_of @ [filter (\<lambda>l. touch h (theirs ! l)) [0..<length theirs]]"]
  show ?case unfolding up using Cons.prems
    by (simp add: row) (intro nth_equalityI; auto simp: filter_map o_def)
qed

section \<open>Merging\<close>

definition same_range :: "'a hunk \<Rightarrow> 'a hunk \<Rightarrow> bool" where
  "same_range h w \<longleftrightarrow> fst h = fst w \<and> hunk_end h = hunk_end w"

definition both_insert :: "'a hunk \<Rightarrow> 'a hunk \<Rightarrow> bool" where
  "both_insert h w \<longleftrightarrow> same_range h w \<and> fst h = hunk_end h"

text \<open>Two touching hunks can be reconciled when they are the same change or two insertions at one point.\<close>

definition compatible :: "'a hunk \<Rightarrow> 'a hunk \<Rightarrow> bool" where
  "compatible h w \<longleftrightarrow> h = w \<or> both_insert h w"

definition agreeing :: "'a hunk list \<Rightarrow> 'a hunk list \<Rightarrow> bool" where
  "agreeing ours theirs \<longleftrightarrow> (\<forall>h \<in> set ours. \<forall>w \<in> set theirs. touch h w \<longrightarrow> compatible h w)"

definition joined :: "'a hunk \<Rightarrow> 'a hunk \<Rightarrow> 'a hunk" where
  "joined h w = (if h = w then h else (fst h, hunk_end h, snd (snd h) @ snd (snd w)))"

definition merged_hunks :: "'a hunk list \<Rightarrow> 'a hunk list \<Rightarrow> 'a hunk set" where
  "merged_hunks ours theirs =
     {h \<in> set ours. \<forall>w \<in> set theirs. \<not> touch h w}
     \<union> {w \<in> set theirs. \<forall>h \<in> set ours. \<not> touch h w}
     \<union> {joined h w | h w. h \<in> set ours \<and> w \<in> set theirs \<and> touch h w}"

text \<open>A list of edits that can be applied from left to right: in order and not overlapping.\<close>

fun edits_from :: "nat \<Rightarrow> nat \<Rightarrow> 'a hunk list \<Rightarrow> bool" where
  "edits_from n pos [] = True"
| "edits_from n pos ((i1, i2, r) # es) = (pos \<le> i1 \<and> i1 \<le> i2 \<and> i2 \<le> n \<and> edits_from n i2 es)"

lemma compatible_range: "compatible h w \<Longrightarrow> same_range h w"
  by (auto simp: compatible_def both_insert_def same_range_def)

lemma joined_range: "same_range (joined h w) h"
  by (simp add: joined_def same_range_def hunk_end_def)

lemma touch_range: "same_range h h' \<Longrightarrow> touch h w = touch h' w"
  by (auto simp: touch_iff same_range_def)

lemma touch_self: "proper_hunk h \<Longrightarrow> touch h h"
  by (auto simp: touch_iff proper_hunk_def)

lemma hunks_from_not_touch:
  assumes "hunks_from n pos hs" "i < length hs" "j < length hs" "i \<noteq> j"
  shows "\<not> touch (hs ! i) (hs ! j)"
proof -
  have p: "proper_hunk (hs ! l)" if "l < length hs" for l
    using hunks_from_starts [OF assms(1) nth_mem [OF that]] by blast
  have "hunk_end (hs ! i) < fst (hs ! j) \<or> hunk_end (hs ! j) < fst (hs ! i)"
    using sorted_wrt_nth_less [OF hunks_from_apart [OF assms(1)]] assms(2-4) by (meson linorder_neqE_nat)
  with p [OF assms(2)] p [OF assms(3)] show ?thesis by (auto simp: touch_iff proper_hunk_def)
qed

lemma filter_upt_single:
  assumes "j < n" "P j" "\<And>l. l < n \<Longrightarrow> P l \<Longrightarrow> l = j"
  shows "filter P [0..<n] = [j]"
proof -
  have "[0..<n] = [0..<j] @ [j..<n]"
    by (metis assms(1) le0 le_add_diff_inverse less_imp_le_nat upt_add_eq_append)
  then have "[0..<n] = [0..<j] @ j # [Suc j..<n]" unfolding upt_conv_Cons [OF assms(1)] .
  moreover have "\<not> P l" if "l < n" "l \<noteq> j" for l using assms(3) that by blast
  then have "filter P [0..<j] = []" "filter P [Suc j..<n] = []"
    using assms(1) by (auto simp: filter_empty_conv)
  ultimately show ?thesis using assms(2) by simp
qed

text \<open>The edit our hunk \<open>h\<close> becomes when its partners agree.\<close>

definition edit_of :: "'a hunk list \<Rightarrow> 'a hunk \<Rightarrow> 'a hunk" where
  "edit_of theirs h = (case filter (touch h) theirs of [] \<Rightarrow> h | w # _ \<Rightarrow> joined h w)"

lemma combine_spec:
  fixes ours theirs :: "'a hunk list"
  assumes "hunks_from n 0 ours" "hunks_from n 0 theirs" "i < length ours"
  defines "h \<equiv> ours ! i"
  shows "combine theirs (map (\<lambda>w. filter (\<lambda>l. touch (ours ! l) w) [0..<length ours]) theirs) h
      (filter (\<lambda>l. touch h (theirs ! l)) [0..<length theirs])
    = (if \<forall>w \<in> set theirs. touch h w \<longrightarrow> compatible h w then Some (edit_of theirs h) else None)"
    (is "combine theirs ?tof h ?mine = _")
proof (cases ?mine)
  case Nil
  then have "\<forall>w \<in> set theirs. \<not> touch h w"
    unfolding filter_empty_conv by (metis atLeastLessThan_iff in_set_conv_nth set_upt zero_le)
  moreover from this have "filter (touch h) theirs = []" by (simp add: filter_empty_conv)
  ultimately show ?thesis using Nil by (simp add: combine_def edit_of_def)
next
  case (Cons j rest)
  then have "j \<in> set ?mine" by simp
  then have j: "j < length theirs" "touch h (theirs ! j)" by auto
  let ?w = "theirs ! j"
  show ?thesis
  proof (cases "\<forall>w \<in> set theirs. touch h w \<longrightarrow> compatible h w")
    case True
    then have c: "compatible h ?w" using j by simp
    note r = compatible_range [OF c]
    have only_j: "l = j" if "l < length theirs" "touch h (theirs ! l)" for l
      using hunks_from_not_touch [OF assms(2) j(1) that(1)] that(2) touch_range [OF r, of "theirs ! l"] by blast
    have mine: "?mine = [j]" by (rule filter_upt_single [where P = "\<lambda>l. touch h (theirs ! l)", OF j only_j])
    have only_i: "l = i" if "l < length ours" "touch (ours ! l) ?w" for l
      using hunks_from_not_touch [OF assms(1,3) that(1)] that(2) touch_range [OF r] touch_sym h_def by metis
    have tof: "?tof ! j = [i]"
      unfolding nth_map [OF j(1)] by (rule filter_upt_single [where P = "\<lambda>l. touch (ours ! l) (theirs ! j)", OF assms(3) j(2) [unfolded h_def] only_i])
    have "filter (touch h) (map ((!) theirs) [0..<length theirs]) = map ((!) theirs) ?mine"
      unfolding filter_map o_def ..
    then have "filter (touch h) theirs = map ((!) theirs) ?mine" by (simp only: map_nth)
    then have "edit_of theirs h = joined h ?w" unfolding mine by (simp add: edit_of_def)
    moreover have "combine theirs ?tof h ?mine = Some (joined h ?w)"
      unfolding mine using tof c
      by (auto simp: combine_def joined_def compatible_def both_insert_def same_range_def hunk_end_def Let_def)
    ultimately show ?thesis using True by simp
  next
    case False
    have "combine theirs ?tof h ?mine = None"
    proof (cases rest)
      case Nil
      then have "?mine = [j]" using Cons by simp
      then have only_j: "l = j" if "l < length theirs" "touch h (theirs ! l)" for l
      proof -
        have "l \<in> set ?mine" using that by simp
        then show "l = j" unfolding \<open>?mine = [j]\<close> by simp
      qed
      have "\<not> compatible h ?w" using False only_j by (metis in_set_conv_nth)
      then show ?thesis
        using Cons Nil by (auto simp: combine_def compatible_def both_insert_def same_range_def hunk_end_def Let_def)
    qed (simp add: Cons combine_def)
    then show ?thesis using False by simp
  qed
qed

lemma collect_edits_spec:
  assumes "\<And>h mine. (h, mine) \<in> set hms \<Longrightarrow>
      combine theirs tof h mine = (if P h then Some (f h) else None)"
  shows "collect_edits theirs tof hms = (if \<forall>(h, mine) \<in> set hms. P h then Some (map (f \<circ> fst) hms) else None)"
  using assms
proof (induction hms)
  case (Cons hm hms)
  obtain h mine where hm: "hm = (h, mine)" by (cases hm)
  have "combine theirs tof h mine = (if P h then Some (f h) else None)" using Cons.prems hm by simp
  then show ?case using Cons.IH [OF Cons.prems] hm by auto
qed simp

lemma filter_zip_map: "map fst (filter (\<lambda>(w, ps). ps = []) (zip ts (map f ts))) = filter (\<lambda>w. f w = []) ts"
  by (induction ts) auto

lemma ball_zip_map: "(\<forall>(x, y) \<in> set (zip xs (map f xs)). Q x) \<longleftrightarrow> (\<forall>x \<in> set xs. Q x)"
  by (induction xs) auto

lemma merge_edits_eq:
  assumes "hunks_from n 0 ours" "hunks_from n 0 theirs"
  shows "merge_edits ours theirs =
    (if agreeing ours theirs
     then Some (sort_key (\<lambda>e. (fst e, hunk_end e))
            (map (edit_of theirs) ours @ filter (\<lambda>w. \<forall>h \<in> set ours. \<not> touch h w) theirs))
     else None)"
proof -
  let ?ours_of = "map (\<lambda>h. filter (\<lambda>l. touch h (theirs ! l)) [0..<length theirs]) ours"
  let ?tof = "map (\<lambda>w. filter (\<lambda>l. touch (ours ! l) w) [0..<length ours]) theirs"
  have "partners 0 ours theirs [] (replicate (length theirs) []) = (?ours_of, ?tof)"
    using partners_eq [OF hunks_from_apart [OF assms(2)], of "replicate (length theirs) []" 0 ours "[]"]
      hunks_from_starts [OF assms(2)]
    by (auto simp: map_idI zip_replicate2 o_def)
  moreover have "collect_edits theirs ?tof (zip ours ?ours_of) =
      (if \<forall>(h, mine) \<in> set (zip ours ?ours_of). \<forall>w \<in> set theirs. touch h w \<longrightarrow> compatible h w
       then Some (map (edit_of theirs \<circ> fst) (zip ours ?ours_of)) else None)"
  proof (rule collect_edits_spec)
    fix h mine assume "(h, mine) \<in> set (zip ours ?ours_of)"
    then obtain i where "i < length ours" "h = ours ! i"
      "mine = filter (\<lambda>l. touch (ours ! i) (theirs ! l)) [0..<length theirs]"
      unfolding in_set_zip by force
    then show "combine theirs ?tof h mine
        = (if \<forall>w \<in> set theirs. touch h w \<longrightarrow> compatible h w then Some (edit_of theirs h) else None)"
      using combine_spec [OF assms] by simp
  qed
  moreover have "(\<forall>(h, mine) \<in> set (zip ours ?ours_of). \<forall>w \<in> set theirs. touch h w \<longrightarrow> compatible h w)
      \<longleftrightarrow> agreeing ours theirs"
    unfolding agreeing_def by (rule ball_zip_map)
  moreover have "map (edit_of theirs \<circ> fst) (zip ours ?ours_of) = map (edit_of theirs) ours"
    by (simp add: map_map [symmetric] del: map_map)
  moreover have "map fst (filter (\<lambda>(w, ps). ps = []) (zip theirs ?tof))
      = filter (\<lambda>w. \<forall>h \<in> set ours. \<not> touch h w) theirs"
  proof -
    have "filter (\<lambda>l. touch (ours ! l) w) [0..<length ours] = [] \<longleftrightarrow> (\<forall>h \<in> set ours. \<not> touch h w)" for w
      unfolding filter_empty_conv all_set_conv_all_nth [of ours] set_upt atLeast0LessThan by blast
    then show ?thesis unfolding filter_zip_map by simp
  qed
  ultimately show ?thesis by (simp add: merge_edits_def hunk_end_def)
qed

lemma edits_from_sorted:
  "sorted (map (\<lambda>e. (fst e, hunk_end e)) es) \<Longrightarrow> sorted_wrt (\<lambda>e f. \<not> touch e f) es \<Longrightarrow>
     \<forall>e \<in> set es. pos \<le> fst e \<and> proper_hunk e \<and> hunk_end e \<le> n \<Longrightarrow> edits_from n pos es"
proof (induction es arbitrary: pos)
  case (Cons e es)
  obtain i1 i2 r where e: "e = (i1, i2, r)" by (cases e)
  have "i2 \<le> fst f" if "f \<in> set es" for f
  proof -
    have "\<not> touch e f" "(fst e, hunk_end e) \<le> (fst f, hunk_end f)" "proper_hunk f" "proper_hunk e"
      using Cons.prems that by auto
    then show ?thesis by (auto simp: touch_iff proper_hunk_def e hunk_end_def less_eq_prod_def)
  qed
  with Cons e show ?case by (auto simp: proper_hunk_def hunk_end_def)
qed simp

lemma edit_of_cases:
  "(\<forall>w \<in> set theirs. \<not> touch h w) \<and> edit_of theirs h = h \<or>
   (\<exists>w \<in> set theirs. touch h w \<and> edit_of theirs h = joined h w)"
proof (cases "filter (touch h) theirs")
  case Nil
  then show ?thesis by (simp add: edit_of_def filter_empty_conv)
next
  case (Cons w ws)
  then have "w \<in> set theirs" "touch h w" by (auto simp: filter_eq_Cons_iff)
  with Cons show ?thesis by (auto simp: edit_of_def)
qed

lemma edit_of_range: "same_range (edit_of theirs h) h"
  using edit_of_cases [of theirs h] joined_range [of h] by (auto simp: same_range_def)

text \<open>Within agreeing sides a hunk has at most one partner, so joining is unambiguous.\<close>

lemma edit_of_joined:
  assumes "hunks_from n 0 theirs" "\<forall>w \<in> set theirs. touch h w \<longrightarrow> compatible h w"
    and "w \<in> set theirs" "touch h w"
  shows "edit_of theirs h = joined h w"
proof -
  obtain w' where w': "w' \<in> set theirs" "touch h w'" "edit_of theirs h = joined h w'"
    using edit_of_cases [of theirs h] assms(3,4) by blast
  obtain i j where ij: "i < length theirs" "j < length theirs" "w = theirs ! i" "w' = theirs ! j"
    using assms(3) w'(1) by (metis in_set_conv_nth)
  have "touch w w'" using touch_range [OF compatible_range] assms w' by blast
  then have "i = j" using hunks_from_not_touch [OF assms(1) ij(1,2)] ij(3,4) by auto
  with ij w' show ?thesis by simp
qed

lemma merge_edits_spec:
  fixes ours theirs :: "'a hunk list"
  assumes h: "hunks_from n 0 ours" "hunks_from n 0 theirs" and es: "merge_edits ours theirs = Some es"
  shows "agreeing ours theirs \<and> set es = merged_hunks ours theirs \<and> edits_from n 0 es
    \<and> sorted_wrt (\<lambda>e f. \<not> touch e f) es \<and> (\<forall>e \<in> set es. proper_hunk e)
    \<and> sorted (map (\<lambda>e. (fst e, hunk_end e)) es)"
proof -
  let ?lone = "filter (\<lambda>w. \<forall>h \<in> set ours. \<not> touch h w) theirs"
  let ?all = "map (edit_of theirs) ours @ ?lone"
  have ag: "agreeing ours theirs" and es': "es = sort_key (\<lambda>e. (fst e, hunk_end e)) ?all"
    using es by (auto simp: merge_edits_eq [OF h] split: if_splits)
  have "e \<in> set es \<longleftrightarrow> e \<in> merged_hunks ours theirs" for e
  proof -
    have "e \<in> set es \<longleftrightarrow> (\<exists>g \<in> set ours. e = edit_of theirs g) \<or> e \<in> set theirs \<and> (\<forall>h \<in> set ours. \<not> touch h e)"
      unfolding es' set_sort set_append set_map set_filter by blast
    moreover have "(\<exists>g \<in> set ours. e = edit_of theirs g) \<longleftrightarrow>
        e \<in> set ours \<and> (\<forall>w \<in> set theirs. \<not> touch e w)
        \<or> (\<exists>g \<in> set ours. \<exists>w \<in> set theirs. touch g w \<and> e = joined g w)"
      (is "?l \<longleftrightarrow> ?r")
    proof
      assume ?l
      then show ?r using edit_of_cases [of theirs] by metis
    next
      assume ?r
      then show ?l
      proof
        assume "e \<in> set ours \<and> (\<forall>w \<in> set theirs. \<not> touch e w)"
        then show ?l using edit_of_cases [of theirs e] by metis
      next
        assume "\<exists>g \<in> set ours. \<exists>w \<in> set theirs. touch g w \<and> e = joined g w"
        then obtain g w where g: "g \<in> set ours" "w \<in> set theirs" "touch g w" "e = joined g w" by blast
        then have "edit_of theirs g = e" using edit_of_joined [OF h(2) _ g(2,3)] ag by (simp add: agreeing_def)
        then show ?l using g(1) by blast
      qed
    qed
    ultimately show ?thesis unfolding merged_hunks_def by blast
  qed
  then have "set es = merged_hunks ours theirs" by blast
  moreover have "sorted_wrt (\<lambda>e f. \<not> touch e f) ?all"
  proof -
    have "\<not> touch (edit_of theirs (ours ! i)) (edit_of theirs (ours ! j))"
      if "i < length ours" "j < length ours" "i \<noteq> j" for i j
      using hunks_from_not_touch [OF h(1) that] touch_range [OF edit_of_range] touch_sym by metis
    then have "sorted_wrt (\<lambda>e f. \<not> touch e f) (map (edit_of theirs) ours)"
      by (simp add: sorted_wrt_iff_nth_less)
    moreover have "sorted_wrt (\<lambda>e f. \<not> touch e f) theirs"
      using hunks_from_not_touch [OF h(2)] by (auto simp: sorted_wrt_iff_nth_less)
    moreover have "\<not> touch (edit_of theirs g) w" if "g \<in> set ours" "w \<in> set ?lone" for g w
    proof -
      have "\<not> touch g w" using that by simp
      then show ?thesis by (simp only: touch_range [OF edit_of_range [of theirs g], of w] not_False_eq_True)
    qed
    ultimately show ?thesis by (auto simp: sorted_wrt_append sorted_wrt_filter)
  qed
  then have "sorted_wrt (\<lambda>e f. \<not> touch e f) es"
  proof (rule pairwise_mset [rotated 2])
    show "mset ?all = mset es" unfolding es' by simp
    show "(\<not> touch e f) = (\<not> touch f e)" for e f :: "'a hunk" using touch_sym by blast
  qed
  moreover have "\<forall>e \<in> set es. 0 \<le> fst e \<and> proper_hunk e \<and> hunk_end e \<le> n"
  proof
    fix e assume "e \<in> set es"
    then have "(\<exists>g \<in> set ours. same_range e g) \<or> e \<in> set theirs"
      using edit_of_range unfolding es' set_sort set_append set_map set_filter by blast
    then show "0 \<le> fst e \<and> proper_hunk e \<and> hunk_end e \<le> n"
      using hunks_from_starts [OF h(1), of _] hunks_from_starts [OF h(2), of e]
      unfolding same_range_def proper_hunk_def by metis
  qed
  ultimately show ?thesis using ag edits_from_sorted [of es 0 n] by (simp add: es')
qed

end
