(* ===== verification/Page_Merge_Props.thy ===== *)
theory Page_Merge_Props
  imports Page_Merge
begin

text \<open>
  The properties of the page merge: \<open>diff3_merge\<close> always answers, what a clean merge contains, when it
  conflicts, and how far it depends on which side is the host's.
\<close>

lemma merge_edits_None:
  "hunks_from n 0 ours \<Longrightarrow> hunks_from n 0 theirs \<Longrightarrow> merge_edits ours theirs = None \<longleftrightarrow> \<not> agreeing ours theirs"
  by (simp add: merge_edits_eq)

text \<open>What the merge does past its three early answers, with the interning left out.\<close>

definition merge_lists :: "string list \<Rightarrow> string list \<Rightarrow> string list \<Rightarrow> merge_result" where
  "merge_lists b c p =
     (case plain_hunks b c of Inl _ \<Rightarrow> merge_conflict
      | Inr ours \<Rightarrow>
        (case plain_hunks b p of Inl _ \<Rightarrow> merge_conflict
         | Inr theirs \<Rightarrow>
           (case merge_edits ours theirs of None \<Rightarrow> merge_conflict
            | Some es \<Rightarrow> merged (join_paragraphs (apply_hunks b 0 es)))))"

definition within_caps :: "string list \<Rightarrow> bool" where
  "within_caps bodies \<longleftrightarrow> \<not> too_big bodies \<and> (\<forall>s \<in> set bodies. length (split_paragraphs s) \<le> merge_max_paragraphs)"

lemma diff3_merge_plain:
  assumes "current \<noteq> proposal" "proposal \<noteq> base" "current \<noteq> base"
  shows "diff3_merge base current proposal = Inr
    (if within_caps [base, current, proposal]
     then merge_lists (split_paragraphs base) (split_paragraphs current) (split_paragraphs proposal)
     else merge_conflict)"
proof (cases "within_caps [base, current, proposal]")
  case False
  then show ?thesis
    using assms by (auto simp: diff3_merge_def within_caps_def Let_def)
next
  case True
  let ?b = "split_paragraphs base"
  have caps: "\<not> too_big [base, current, proposal]"
    "\<not> max (length ?b) (max (length (split_paragraphs current)) (length (split_paragraphs proposal))) > merge_max_paragraphs"
    using True by (auto simp: within_caps_def)
  obtain ids where 1: "ids_ok ids"
    "bounded_hunks ?b (split_paragraphs current) [] = map_sum id (\<lambda>hs. (hs, ids)) (plain_hunks ?b (split_paragraphs current))"
    using bounded_hunks_plain [of "[]"] by (auto simp: ids_ok_def)
  obtain ids' where 2: "bounded_hunks ?b (split_paragraphs proposal) ids
      = map_sum id (\<lambda>hs. (hs, ids')) (plain_hunks ?b (split_paragraphs proposal))"
    using bounded_hunks_plain [OF 1(1)] by blast
  show ?thesis
    unfolding diff3_merge_def Let_def 1(2)
    using assms caps True 2 plain_hunks_spec [of ?b "split_paragraphs current"] plain_hunks_spec [of ?b "split_paragraphs proposal"]
    by (auto simp: merge_lists_def split: option.splits)
qed

text \<open>
  C19. The difference of two paragraph lists either runs out of its budget or yields hunks (in order, at
  least one kept paragraph apart) that turn the first list into the second; it never subscripts out of range.\<close>

theorem difference_rebuilds_the_other_list:
  "bounded_hunks base other [] = Inl OverBudget \<or>
   (\<exists>hs ids. bounded_hunks base other [] = Inr (hs, ids) \<and> apply_hunks base 0 hs = other
      \<and> hunks_from (length base) 0 hs)"
  using bounded_hunks_plain [of "[]" base other] plain_hunks_spec [of base other]
  by (auto simp: ids_ok_def)



lemma merged_hunks_swap:
  assumes "\<forall>h \<in> set ours. \<forall>w \<in> set theirs. touch h w \<longrightarrow> h = w"
  shows "merged_hunks ours theirs = merged_hunks theirs ours"
proof -
  have "(\<exists>h w. e = joined h w \<and> h \<in> set ours \<and> w \<in> set theirs \<and> touch h w)
      \<longleftrightarrow> (\<exists>h w. e = joined h w \<and> h \<in> set theirs \<and> w \<in> set ours \<and> touch h w)" for e
    using assms touch_sym by metis
  then show ?thesis unfolding merged_hunks_def using touch_sym by blast
qed

text \<open>Edits that do not touch have different ranges, so their sorted order is unique.\<close>

lemma edits_unique:
  assumes "set es = set fs"
    and "sorted_wrt (\<lambda>e f. \<not> touch e f) es" "sorted (map (\<lambda>e. (fst e, hunk_end e)) es)" "\<forall>e \<in> set es. proper_hunk e"
    and "sorted_wrt (\<lambda>e f. \<not> touch e f) fs" "sorted (map (\<lambda>e. (fst e, hunk_end e)) fs)"
  shows "es = fs"
proof -
  let ?key = "\<lambda>e. (fst e, hunk_end e)"
  have keys: "distinct (map ?key xs)" if x: "sorted_wrt (\<lambda>e f. \<not> touch e f) xs" "\<forall>e \<in> set xs. proper_hunk e" for xs
    unfolding distinct_conv_nth
  proof (intro allI impI)
    fix i j assume ij: "i < length (map ?key xs)" "j < length (map ?key xs)" "i \<noteq> j"
    show "map ?key xs ! i \<noteq> map ?key xs ! j"
    proof
      assume "map ?key xs ! i = map ?key xs ! j"
      then have "same_range (xs ! i) (xs ! j)" using ij by (simp add: same_range_def)
      moreover have "touch (xs ! j) (xs ! j)" using ij x(2) by (simp add: touch_self)
      ultimately have "touch (xs ! i) (xs ! j)" using touch_range by blast
      moreover from this have "touch (xs ! j) (xs ! i)" using touch_sym by blast
      ultimately show False
        using sorted_wrt_nth_less [OF x(1)] ij by (metis length_map linorder_neqE_nat)
    qed
  qed
  have "inj_on ?key (set es)" using keys [OF assms(2,4)] by (simp add: distinct_map)
  then show ?thesis
    using keys [OF assms(2,4)] keys [OF assms(5)] assms by (intro map_sorted_distinct_set_unique) auto
qed

text \<open>Neither side inserts something else at a point where the other inserts.\<close>

definition no_rival_insertions :: "string list \<Rightarrow> string list \<Rightarrow> string list \<Rightarrow> bool" where
  "no_rival_insertions b c p \<longleftrightarrow>
     (case plain_hunks b c of Inl _ \<Rightarrow> True | Inr ours \<Rightarrow>
     (case plain_hunks b p of Inl _ \<Rightarrow> True | Inr theirs \<Rightarrow>
        \<forall>h \<in> set ours. \<forall>w \<in> set theirs. both_insert h w \<longrightarrow> h = w))"

lemma agreeing_swap: "agreeing ours theirs = agreeing theirs ours"
proof -
  have "compatible h w = compatible w h" for h w :: "'a hunk"
    by (auto simp: compatible_def both_insert_def same_range_def)
  then show ?thesis unfolding agreeing_def using touch_sym by blast
qed

lemma merge_lists_swap:
  "mr_has_conflict (merge_lists b c p) = mr_has_conflict (merge_lists b p c)
   \<and> (no_rival_insertions b c p \<longrightarrow> merge_lists b c p = merge_lists b p c)"
proof (cases "plain_hunks b c = Inl OverBudget \<or> plain_hunks b p = Inl OverBudget")
  case True
  then show ?thesis by (auto simp: merge_lists_def split: sum.splits option.splits)
next
  case False
  then obtain ours theirs where o: "plain_hunks b c = Inr ours" "plain_hunks b p = Inr theirs"
    and h: "hunks_from (length b) 0 ours" "hunks_from (length b) 0 theirs"
    using plain_hunks_spec [of b c] plain_hunks_spec [of b p] by blast
  show ?thesis
  proof (cases "agreeing ours theirs")
    case False
    then have "merge_edits ours theirs = None" "merge_edits theirs ours = None"
      using merge_edits_None [OF h] merge_edits_None [OF h(2,1)] agreeing_swap by blast+
    then show ?thesis by (simp add: merge_lists_def o)
  next
    case True
    then obtain es fs where es: "merge_edits ours theirs = Some es" "merge_edits theirs ours = Some fs"
      using merge_edits_None [OF h] merge_edits_None [OF h(2,1)] agreeing_swap by blast
    note s1 = merge_edits_spec [OF h es(1)] and s2 = merge_edits_spec [OF h(2,1) es(2)]
    have "es = fs" if "no_rival_insertions b c p"
    proof -
      have same: "\<forall>h \<in> set ours. \<forall>w \<in> set theirs. touch h w \<longrightarrow> h = w"
      proof -
        have "\<forall>h \<in> set ours. \<forall>w \<in> set theirs. both_insert h w \<longrightarrow> h = w"
          using that o by (simp add: no_rival_insertions_def)
        with True show ?thesis unfolding agreeing_def compatible_def by metis
      qed
      have "set es = merged_hunks ours theirs" "set fs = merged_hunks theirs ours" using s1 s2 by blast+
      then have "set es = set fs" unfolding merged_hunks_swap [OF same] by simp
      then show ?thesis by (rule edits_unique) (use s1 s2 in blast)+
    qed
    then show ?thesis by (auto simp: merge_lists_def o es merged_def)
  qed
qed

lemma within_caps_swap: "within_caps [b, c, p] = within_caps [b, p, c]"
  by (auto simp: within_caps_def too_big_def)

definition demo_base :: string where "demo_base = ''a'' @ [newline, newline] @ ''b''"

definition demo_current :: string where "demo_current = ''x'' @ [newline, newline] @ ''b''"

definition demo_proposal :: string where
  "demo_proposal = ''a'' @ [newline, newline] @ ''b'' @ [newline, newline] @ ''c''"

lemma demo_merge:
  "diff3_merge demo_base demo_current demo_proposal
     = Inr (merged (''x'' @ [newline, newline] @ ''b'' @ [newline, newline] @ ''c''))"
  by code_simp


text \<open>
  The merge always answers, and which side is the host's matters little: swapping the two sides never
  changes whether there is a conflict, and the merged text is the same unless both sides insert something
  different at one point (then the host's paragraphs come first).\<close>

theorem merge_treats_sides_alike:
  "\<exists>r s. diff3_merge base x y = Inr r \<and> diff3_merge base y x = Inr s
     \<and> mr_has_conflict r = mr_has_conflict s
     \<and> (no_rival_insertions (split_paragraphs base) (split_paragraphs x) (split_paragraphs y) \<longrightarrow> r = s)"
proof (cases "x = y \<or> y = base \<or> x = base")
  case True
  then show ?thesis by (auto simp: diff3_merge_def)
next
  case False
  then show ?thesis
    using diff3_merge_plain [of x y base] diff3_merge_plain [of y x base]
      merge_lists_swap [of "split_paragraphs base" "split_paragraphs x" "split_paragraphs y"]
      within_caps_swap [of base x y] by auto
qed

theorem merge_treats_sides_alike_witness:
  "diff3_merge demo_base demo_proposal demo_current
     = Inr (merged (''x'' @ [newline, newline] @ ''b'' @ [newline, newline] @ ''c''))"
proof -
  have "no_rival_insertions (split_paragraphs demo_base) (split_paragraphs demo_current) (split_paragraphs demo_proposal)"
    by code_simp
  with merge_treats_sides_alike [of demo_base demo_current demo_proposal] demo_merge show ?thesis by auto
qed

end
