(* ===== verification/Page_Data.thy ===== *)
theory Page_Data
  imports Civil_Date
begin

text \<open>
  The data of shared pages: \<open>domain/page.py\<close> and \<open>domain/page_version.py\<close>.  A version hash is the SHA-256
  of the canonical JSON text of title, content and cover; the digest is the parameter \<open>digest\<close>, the canonical
  text is modelled (it is what makes the hash recognise a version).
\<close>

section \<open>Pages and versions\<close>

definition max_page_title_length :: nat where "max_page_title_length = 200"

record page =
  pg_id :: string
  pg_title :: string
  pg_content :: string
  pg_created_by :: string
  pg_created_at :: string
  pg_updated_at :: string
  pg_space_id :: "string option"
  pg_cover :: "string option"
  pg_last_editor :: "string option"
  pg_last_edited_at :: "string option"
  pg_locked_by :: "string option"
  pg_locked_at :: "string option"
  pg_lock_expires_at :: "string option"
  pg_delete_requested_by :: "string option"
  pg_delete_requested_at :: "string option"
  pg_delete_approved_by :: "string option"
  pg_delete_approved_at :: "string option"
  pg_seq :: int
  pg_pending :: "int option"

text \<open>A page built with the dataclass defaults.\<close>

definition page_defaults :: "string \<Rightarrow> string \<Rightarrow> string \<Rightarrow> string \<Rightarrow> string \<Rightarrow> string \<Rightarrow> page" where
  "page_defaults i title content created_by created_at updated_at =
     \<lparr>pg_id = i, pg_title = title, pg_content = content, pg_created_by = created_by,
      pg_created_at = created_at, pg_updated_at = updated_at, pg_space_id = None, pg_cover = None,
      pg_last_editor = None, pg_last_edited_at = None, pg_locked_by = None, pg_locked_at = None,
      pg_lock_expires_at = None, pg_delete_requested_by = None, pg_delete_requested_at = None,
      pg_delete_approved_by = None, pg_delete_approved_at = None, pg_seq = 0, pg_pending = None\<rparr>"

record page_version =
  pv_id :: string
  pv_page :: string
  pv_number :: int
  pv_title :: string
  pv_content :: string
  pv_by :: string
  pv_at :: string
  pv_space :: "string option"
  pv_cover :: "string option"

record page_tombstone =
  pt_id :: string
  pt_deleted_at :: string
  pt_created_by :: string
  pt_deleted_by :: string

definition page_tombstone_to_wire_dict :: "page_tombstone \<Rightarrow> string \<Rightarrow> jobj" where
  "page_tombstone_to_wire_dict t space_id =
     [(''id'', JStr (pt_id t)), (''page_id'', JStr (pt_id t)), (''space_id'', JStr space_id),
      (''created_by'', JStr (pt_created_by t)), (''actor_user_id'', JStr (pt_deleted_by t))]"

record conflict_side =
  cs_hash :: string
  cs_title :: string
  cs_content :: string
  cs_by :: string
  cs_at :: string
  cs_cover :: "string option"
  cs_base_seq :: int

record draft_base =
  bs_title :: string
  bs_content :: string
  bs_seq :: int
  bs_by :: string
  bs_cover :: "string option"
  bs_resolves :: "string list"
  bs_sent :: "string option"

text \<open>The body of a version: what its hash covers.\<close>

type_synonym page_body = "string \<times> string \<times> string option"

definition body_of_page :: "page \<Rightarrow> page_body" where
  "body_of_page p = (pg_title p, pg_content p, pg_cover p)"

definition body_of_version :: "page_version \<Rightarrow> page_body" where
  "body_of_version v = (pv_title v, pv_content v, pv_cover v)"

definition body_of_side :: "conflict_side \<Rightarrow> page_body" where
  "body_of_side s = (cs_title s, cs_content s, cs_cover s)"

section \<open>Version hashes\<close>

text \<open>\<open>json.dumps(s, ensure_ascii=False)\<close> of a string.\<close>

definition hex_digit :: "nat \<Rightarrow> char" where
  "hex_digit n = (if n < 10 then char_of (48 + n) else char_of (87 + n))"

definition json_escape_char :: "char \<Rightarrow> string" where
  "json_escape_char c =
     (let n = of_char c :: nat
      in if c = CHR 0x22 then [CHR 0x5C, CHR 0x22]
         else if c = CHR 0x5C then [CHR 0x5C, CHR 0x5C]
         else if n = 10 then [CHR 0x5C, CHR ''n'']
         else if n = 13 then [CHR 0x5C, CHR ''r'']
         else if n = 9 then [CHR 0x5C, CHR ''t'']
         else if n = 12 then [CHR 0x5C, CHR ''f'']
         else if n = 8 then [CHR 0x5C, CHR ''b'']
         else if n < 32 then [CHR 0x5C, CHR ''u'', CHR ''0'', CHR ''0'', hex_digit (n div 16), hex_digit (n mod 16)]
         else [c])"

definition json_quote :: "string \<Rightarrow> string" where
  "json_quote s = CHR 0x22 # concat (map json_escape_char s) @ [CHR 0x22]"

text \<open>\<open>canonical_utf8_str\<close> of the three-field object: sorted keys, no spaces.\<close>

definition or_empty :: "string option \<Rightarrow> string" where
  "or_empty s = (case s of None \<Rightarrow> [] | Some t \<Rightarrow> t)"

definition version_text :: "string \<Rightarrow> string \<Rightarrow> string option \<Rightarrow> string" where
  "version_text title content cover =
     ''{'' @ json_quote ''content'' @ '':'' @ json_quote content
     @ '','' @ json_quote ''cover'' @ '':'' @ json_quote (or_empty cover)
     @ '','' @ json_quote ''title'' @ '':'' @ json_quote title @ ''}''"

definition version_hash_suite :: string where "version_hash_suite = ''sha256''"

text \<open>\<open>digest\<close> is the hex SHA-256 of the UTF-8 bytes of a text.\<close>

definition version_hash :: "(string \<Rightarrow> string) \<Rightarrow> string \<Rightarrow> string \<Rightarrow> string option \<Rightarrow> string" where
  "version_hash digest title content cover =
     version_hash_suite @ '':'' @ digest (version_text title content cover)"

definition body_hash :: "(string \<Rightarrow> string) \<Rightarrow> page_body \<Rightarrow> string" where
  "body_hash digest b = (case b of (title, content, cover) \<Rightarrow> version_hash digest title content cover)"

definition is_lower_hex :: "char \<Rightarrow> bool" where
  "is_lower_hex c = (let n = of_char c :: nat in (48 \<le> n \<and> n \<le> 57) \<or> (97 \<le> n \<and> n \<le> 102))"

definition is_hash_text :: "string \<Rightarrow> bool" where
  "is_hash_text s \<longleftrightarrow> has_prefix ''sha256:'' s \<and> length s = 71 \<and> list_all is_lower_hex (drop 7 s)"

fun is_version_hash :: "json \<Rightarrow> bool" where
  "is_version_hash (JStr s) = is_hash_text s"
| "is_version_hash v = False"

section \<open>One-line fields\<close>

datatype scalar_merge = ScalarConflict | ScalarValue "string option"

definition merge_scalar :: "string option \<Rightarrow> string option \<Rightarrow> string option \<Rightarrow> scalar_merge" where
  "merge_scalar base mine theirs =
     (if mine = theirs then ScalarValue mine
      else if mine = base then ScalarValue theirs
      else if theirs = base then ScalarValue mine
      else ScalarConflict)"

section \<open>Instants as text\<close>

text \<open>
  \<open>datetime.now(UTC)\<close> in microseconds since the epoch; \<open>isoformat(timespec="microseconds")\<close> and the
  default \<open>isoformat()\<close>, which leaves out a zero fraction.
\<close>

definition pad6 :: "int \<Rightarrow> string" where
  "pad6 n = pad2 (n div 10000) @ pad2 (n div 100 mod 100) @ pad2 (n mod 100)"

definition iso_second :: "int \<Rightarrow> string" where
  "iso_second s =
     date_isoformat (719163 + s div 86400) @ ''T'' @ pad2 (s mod 86400 div 3600) @ '':''
     @ pad2 (s mod 3600 div 60) @ '':'' @ pad2 (s mod 60)"

definition iso_micros :: "int \<Rightarrow> string" where
  "iso_micros us = iso_second (us div 1000000) @ ''.'' @ pad6 (us mod 1000000) @ ''+00:00''"

definition iso_now :: "int \<Rightarrow> string" where
  "iso_now us = iso_second (us div 1000000)
     @ (if us mod 1000000 = 0 then [] else ''.'' @ pad6 (us mod 1000000)) @ ''+00:00''"

section \<open>The canonical text recognises a version\<close>

definition hex_value :: "char \<Rightarrow> nat" where
  "hex_value c = (let n = of_char c :: nat in if n < 58 then n - 48 else n - 87)"

text \<open>Reading back one escaped character.\<close>

definition json_unescape :: "string \<Rightarrow> char \<times> string" where
  "json_unescape s =
     (if hd s \<noteq> CHR 0x5C then (hd s, tl s)
      else let d = s ! 1; r = drop 2 s
        in if d = CHR ''n'' then (char_of (10 :: nat), r)
           else if d = CHR ''r'' then (char_of (13 :: nat), r)
           else if d = CHR ''t'' then (char_of (9 :: nat), r)
           else if d = CHR ''f'' then (char_of (12 :: nat), r)
           else if d = CHR ''b'' then (char_of (8 :: nat), r)
           else if d = CHR ''u'' then (char_of (16 * hex_value (s ! 4) + hex_value (s ! 5)), drop 6 s)
           else (d, r))"

lemma hex_value_digit: "n < 16 \<Longrightarrow> hex_value (hex_digit n) = n"
  by (simp add: hex_value_def hex_digit_def Let_def)

lemma json_unescape_escape: "json_unescape (json_escape_char c @ r) = (c, r)"
proof -
  have c: "char_of n = c" if "of_char c = n" for n :: nat using that by auto
  have h: "16 * hex_value (hex_digit (n div 16)) + hex_value (hex_digit (n mod 16)) = n" if "n < 32" for n
    using that by (simp add: hex_value_digit)
  show ?thesis
    using h [of "of_char c"] by (auto simp: json_escape_char_def json_unescape_def Let_def intro: c)
qed

lemma json_escape_head: "json_escape_char c \<noteq> [] \<and> hd (json_escape_char c) \<noteq> CHR 0x22"
  by (auto simp: json_escape_char_def Let_def)

lemma json_escape_inj: "json_escape_char c @ r = json_escape_char c' @ r' \<Longrightarrow> c = c' \<and> r = r'"
  by (metis json_unescape_escape prod.inject)

lemma escaped_inj:
  "concat (map json_escape_char s) @ CHR 0x22 # r = concat (map json_escape_char s') @ CHR 0x22 # r' \<Longrightarrow>
     s = s' \<and> r = r'"
proof (induction s arbitrary: s')
  case Nil
  then show ?case using json_escape_head by (cases s') (auto simp: Cons_eq_append_conv, metis list.sel(1))
next
  case (Cons c s)
  show ?case
  proof (cases s')
    case Nil
    with Cons.prems json_escape_head [of c] show ?thesis by (cases "json_escape_char c") auto
  next
    case (Cons c' t)
    with Cons.prems json_escape_inj [of c _ c'] have "c = c'"
      "concat (map json_escape_char s) @ CHR 0x22 # r = concat (map json_escape_char t) @ CHR 0x22 # r'"
      by auto
    with Cons.IH Cons show ?thesis by blast
  qed
qed

lemma json_quote_inj: "json_quote s @ r = json_quote s' @ r' \<Longrightarrow> s = s' \<and> r = r'"
  using escaped_inj [of s r s' r'] by (simp add: json_quote_def)

text \<open>Two versions have the same canonical text exactly when they agree, a missing and an empty cover alike.\<close>

lemma version_text_inj:
  "version_text t c v = version_text t' c' v' \<longleftrightarrow> t = t' \<and> c = c' \<and> or_empty v = or_empty v'"
proof
  assume "version_text t c v = version_text t' c' v'"
  then show "t = t' \<and> c = c' \<and> or_empty v = or_empty v'"
    unfolding version_text_def using json_quote_inj [of t "[]" t' "[]"] by (auto dest!: json_quote_inj)
qed (simp add: version_text_def)

section \<open>Distinct instants have distinct text\<close>

definition in_calendar :: "int \<Rightarrow> bool" where
  "in_calendar us \<longleftrightarrow> 1 \<le> 719163 + us div 1000000 div 86400 \<and> 719163 + us div 1000000 div 86400 \<le> 3652059"

lemma pad2_inj: "0 \<le> m \<Longrightarrow> m \<le> 99 \<Longrightarrow> 0 \<le> n \<Longrightarrow> n \<le> 99 \<Longrightarrow> pad2 m = pad2 n \<Longrightarrow> m = n"
  using digits_pad2 [of m 0] digits_pad2 [of n 0] by (metis add_0 mult_zero_right option.inject)

lemma length_date_isoformat [simp]: "length (date_isoformat k) = 10"
  by (simp add: date_isoformat_def split: prod.split)

lemma length_iso_second [simp]: "length (iso_second s) = 19"
  by (simp add: iso_second_def)

lemma split_hundreds:
  fixes m n :: int
  assumes "m mod 100 = n mod 100" "m div 100 mod 100 = n div 100 mod 100" "m div 10000 = n div 10000"
  shows "m = n"
proof -
  have "x = 10000 * (x div 10000) + 100 * (x div 100 mod 100) + x mod 100" for x :: int
  proof -
    have "x div 100 = 100 * (x div 100 div 100) + x div 100 mod 100" by simp
    moreover have "x div 100 div 100 = x div 10000" by (simp add: zdiv_zmult2_eq [symmetric])
    moreover have "x = 100 * (x div 100) + x mod 100" by simp
    ultimately show ?thesis by linarith
  qed
  with assms show ?thesis by metis
qed

lemma pad2_parts: "pad2 a @ pad2 b @ pad2 c = pad2 a' @ pad2 b' @ pad2 c' \<Longrightarrow>
    pad2 a = pad2 a' \<and> pad2 b = pad2 b' \<and> pad2 c = pad2 c'"
  by auto

lemma pad6_inj:
  assumes "0 \<le> m" "m < 1000000" "0 \<le> n" "n < 1000000" "pad6 m = pad6 n"
  shows "m = n"
proof -
  have "pad2 (m div 10000) = pad2 (n div 10000)" "pad2 (m div 100 mod 100) = pad2 (n div 100 mod 100)"
    "pad2 (m mod 100) = pad2 (n mod 100)"
    using pad2_parts [OF assms(5) [unfolded pad6_def]] by blast+
  note pads = this
  have d: "0 \<le> x div 10000" "x div 10000 \<le> 99" if "0 \<le> x" "x < 1000000" for x :: int
    using that zdiv_mono1 [of x 999999 10000] by (auto simp: pos_imp_zdiv_nonneg_iff)
  have r: "0 \<le> x mod 100" "x mod 100 \<le> 99" for x :: int
    using pos_mod_bound [of 100 x] by auto
  show ?thesis
    by (rule split_hundreds [OF pad2_inj [OF r r pads(3)] pad2_inj [OF r r pads(2)]
          pad2_inj [OF d [OF assms(1,2)] d [OF assms(3,4)] pads(1)]])
qed

lemma split_clock:
  fixes m n :: int
  assumes "m div 86400 = n div 86400" "m mod 86400 div 3600 = n mod 86400 div 3600"
    "m mod 3600 div 60 = n mod 3600 div 60" "m mod 60 = n mod 60"
  shows "m = n"
proof -
  have "x = 86400 * (x div 86400) + 3600 * (x mod 86400 div 3600) + 60 * (x mod 3600 div 60) + x mod 60" for x :: int
  proof -
    have "x = 86400 * (x div 86400) + x mod 86400" by simp
    moreover have "x mod 86400 = 3600 * (x mod 86400 div 3600) + x mod 3600"
      using mult_div_mod_eq [of 3600 "x mod 86400"] by (simp add: mod_mod_cancel)
    moreover have "x mod 3600 = 60 * (x mod 3600 div 60) + x mod 60"
      using mult_div_mod_eq [of 60 "x mod 3600"] by (simp add: mod_mod_cancel)
    ultimately show ?thesis by linarith
  qed
  with assms show ?thesis by metis
qed

lemma div_range:
  fixes x u c :: int
  assumes "0 < c" "0 < u" "u - 1 < 100 * c"
  shows "0 \<le> x mod u div c" "x mod u div c \<le> 99"
proof -
  have x: "0 \<le> x mod u" "x mod u < 100 * c" using assms pos_mod_bound [of u x] pos_mod_sign [of u x] by linarith+
  then show "0 \<le> x mod u div c" using assms(1) by (simp add: pos_imp_zdiv_nonneg_iff)
  show "x mod u div c \<le> 99"
  proof (rule ccontr)
    assume "\<not> x mod u div c \<le> 99"
    then have "c * 100 \<le> c * (x mod u div c)" using assms(1) by (intro mult_left_mono) auto
    also have "\<dots> \<le> x mod u" using mult_div_mod_eq [of c "x mod u"] pos_mod_sign [OF assms(1), of "x mod u"] by linarith
    finally show False using x by simp
  qed
qed

lemma clock_parts:
  "date_isoformat d @ ''T'' @ pad2 h @ '':'' @ pad2 m @ '':'' @ pad2 s
     = date_isoformat d' @ ''T'' @ pad2 h' @ '':'' @ pad2 m' @ '':'' @ pad2 s' \<Longrightarrow>
   date_isoformat d = date_isoformat d' \<and> pad2 h = pad2 h' \<and> pad2 m = pad2 m' \<and> pad2 s = pad2 s'"
  by auto

lemma iso_second_inj:
  assumes "1 \<le> 719163 + m div 86400" "719163 + m div 86400 \<le> 3652059"
    and "1 \<le> 719163 + n div 86400" "719163 + n div 86400 \<le> 3652059"
    and "iso_second m = iso_second n"
  shows "m = n"
proof -
  note parts = clock_parts [OF assms(5) [unfolded iso_second_def]]
  have "719163 + m div 86400 = 719163 + n div 86400"
    by (metis parts date_iso_roundtrip [OF assms(1,2)] date_iso_roundtrip [OF assms(3,4)] option.inject)
  then have day: "m div 86400 = n div 86400" by (rule add_left_imp_eq)
  have "m mod 86400 div 3600 = n mod 86400 div 3600"
    by (rule pad2_inj [OF _ _ _ _ conjunct1 [OF conjunct2 [OF parts]]]) (rule div_range; simp)+
  moreover have "m mod 3600 div 60 = n mod 3600 div 60"
    by (rule pad2_inj [OF _ _ _ _ conjunct1 [OF conjunct2 [OF conjunct2 [OF parts]]]]) (rule div_range; simp)+
  moreover have "m mod 60 = n mod 60"
    using pos_mod_bound [of 60 m] pos_mod_bound [of 60 n]
    by (intro pad2_inj [OF _ _ _ _ conjunct2 [OF conjunct2 [OF conjunct2 [OF parts]]]]) simp_all
  ultimately show ?thesis by (rule split_clock [OF day])
qed

lemma micro_parts:
  "iso_second a @ ''.'' @ pad6 x @ ''+00:00'' = iso_second b @ ''.'' @ pad6 y @ ''+00:00'' \<Longrightarrow>
     iso_second a = iso_second b \<and> pad6 x = pad6 y"
  by auto

lemma iso_micros_inj:
  assumes "in_calendar m" "in_calendar n" "iso_micros m = iso_micros n"
  shows "m = n"
proof -
  have "iso_second (m div 1000000) = iso_second (n div 1000000)" "pad6 (m mod 1000000) = pad6 (n mod 1000000)"
    using micro_parts [OF assms(3) [unfolded iso_micros_def]] by blast+
  then have "m div 1000000 = n div 1000000" "m mod 1000000 = n mod 1000000"
    using assms(1,2) unfolding in_calendar_def
    by (blast intro: iso_second_inj, intro pad6_inj pos_mod_sign pos_mod_bound) simp_all
  then show ?thesis by (metis mult_div_mod_eq)
qed

end
