(* ===== verification/Page_Store.thy ===== *)
theory Page_Store
  imports Page_Data "HOL-Library.List_Lexorder" "HOL-Library.Char_ord"
begin

text \<open>
  The space-page part of \<open>repositories/page_repo.py\<close>: the tables \<open>space_pages\<close>, \<open>page_edit_history\<close> and
  \<open>space_page_snapshots\<close> with the statements the page services run on them.  A table is a map from its
  primary key (\<open>space_pages\<close>) or the list of its rows; a statement is a function on the three tables.  Each
  method runs its statements in one write batch, so a method is one step.  The text of a snapshot \<open>body\<close>
  (\<open>orjson\<close>) is kept as the fields it encodes.
\<close>

section \<open>Tables\<close>

definition max_history :: nat where "max_history = 5"

definition max_space_history :: nat where "max_space_history = 50"

text \<open>A row of \<open>space_pages\<close>: the page columns and the tombstone columns.\<close>

record page_row =
  rw_page :: page
  rw_deleted_at :: "string option"
  rw_deleted_by :: "string option"
  rw_confirmed :: bool

record stored_version =
  sv_title :: string
  sv_content :: string
  sv_cover :: "string option"
  sv_seq :: int
  sv_resolves :: "string list"
  sv_sent :: "string option"

text \<open>A snapshot body: the JSON object \<open>encode_side_body\<close> writes, or the bare content of a legacy row.\<close>

datatype snapshot_body = VersionBody stored_version | BareContent string

record snapshot_row =
  sn_page :: string
  sn_space :: "string option"
  sn_at :: string
  sn_body :: snapshot_body
  sn_by :: string
  sn_side :: string
  sn_conflict :: bool

record page_db =
  pd_pages :: "string \<Rightarrow> page_row option"
  pd_history :: "page_version list"
  pd_snapshots :: "snapshot_row list"

definition empty_page_db :: page_db where
  "empty_page_db = \<lparr>pd_pages = (\<lambda>_. None), pd_history = [], pd_snapshots = []\<rparr>"

section \<open>Snapshot bodies\<close>

definition truthy_opt :: "string option \<Rightarrow> string option" where
  "truthy_opt s = (case s of None \<Rightarrow> None | Some t \<Rightarrow> if t = [] then None else Some t)"

text \<open>\<open>if cover_image_url\<close>, \<open>if seq\<close>, \<open>if resolves\<close>, \<open>if sent\<close>: a false value is left out and reads as absent.\<close>

definition encode_side_body :: "string \<Rightarrow> string \<Rightarrow> string option \<Rightarrow> int \<Rightarrow> string list \<Rightarrow> string option \<Rightarrow> snapshot_body" where
  "encode_side_body title content cover seq resolves sent =
     VersionBody \<lparr>sv_title = title, sv_content = content, sv_cover = truthy_opt cover, sv_seq = seq,
       sv_resolves = resolves, sv_sent = truthy_opt sent\<rparr>"

fun decode_side_body :: "snapshot_body \<Rightarrow> string \<Rightarrow> stored_version" where
  "decode_side_body (VersionBody v) fallback_title = v"
| "decode_side_body (BareContent s) fallback_title =
     \<lparr>sv_title = fallback_title, sv_content = s, sv_cover = None, sv_seq = 0, sv_resolves = [], sv_sent = None\<rparr>"

section \<open>Pages\<close>

definition live_row :: "string \<Rightarrow> string \<Rightarrow> page_db \<Rightarrow> page_row option" where
  "live_row space pid db =
     (case pd_pages db pid of None \<Rightarrow> None
      | Some r \<Rightarrow> if pg_space_id (rw_page r) = Some space \<and> rw_deleted_at r = None then Some r else None)"

text \<open>\<open>_row_to_page\<close>: the row as the domain object (its columns are the fields).\<close>

definition get_space_page :: "string \<Rightarrow> string \<Rightarrow> page_db \<Rightarrow> page option" where
  "get_space_page space pid db = map_option rw_page (live_row space pid db)"

text \<open>
  The upsert: a new id is inserted with every column, a live row of the same space has the version columns
  replaced, any other row (another space's, a tombstone) is left alone and no row counts as changed.
\<close>

definition page_stamp :: "int \<Rightarrow> page \<Rightarrow> string" where
  "page_stamp now p = (if pg_updated_at p = [] then iso_now now else pg_updated_at p)"

definition upsert_row :: "int \<Rightarrow> string \<Rightarrow> page \<Rightarrow> page_row option \<Rightarrow> page_row option" where
  "upsert_row now space p old =
     (case old of
        None \<Rightarrow> Some \<lparr>rw_page = p\<lparr>pg_space_id := Some space, pg_updated_at := page_stamp now p\<rparr>,
                  rw_deleted_at = None, rw_deleted_by = None, rw_confirmed = False\<rparr>
      | Some r \<Rightarrow>
          if pg_space_id (rw_page r) = Some space \<and> rw_deleted_at r = None
          then Some (r\<lparr>rw_page := (rw_page r)
                   \<lparr>pg_title := pg_title p, pg_content := pg_content p, pg_cover := pg_cover p,
                    pg_updated_at := page_stamp now p, pg_last_editor := pg_last_editor p,
                    pg_last_edited_at := pg_last_edited_at p, pg_seq := pg_seq p, pg_pending := pg_pending p\<rparr>\<rparr>)
          else None)"

definition save_page :: "int \<Rightarrow> string \<Rightarrow> page \<Rightarrow> page_db \<Rightarrow> page_db \<times> bool" where
  "save_page now space p db =
     (case upsert_row now space p (pd_pages db (pg_id p)) of
        None \<Rightarrow> (db, False)
      | Some r \<Rightarrow> (db\<lparr>pd_pages := (pd_pages db)(pg_id p \<mapsto> r)\<rparr>, True))"

definition raise_seq :: "string \<Rightarrow> string \<Rightarrow> int \<Rightarrow> page_db \<Rightarrow> page_db \<times> bool" where
  "raise_seq pid space seq db =
     (case live_row space pid db of
        Some r \<Rightarrow> if pg_seq (rw_page r) < seq
          then (db\<lparr>pd_pages := (pd_pages db)(pid \<mapsto> r\<lparr>rw_page := (rw_page r)\<lparr>pg_seq := seq\<rparr>\<rparr>)\<rparr>, True)
          else (db, False)
      | None \<Rightarrow> (db, False))"

section \<open>Tombstones\<close>

text \<open>
  Deleting a space page keeps the row and blanks its body; the trigger of migration 0073 drops the page's
  snapshots and history in that space.
\<close>

definition drop_bodies :: "string \<Rightarrow> string \<Rightarrow> page_db \<Rightarrow> page_db" where
  "drop_bodies pid space db = db
     \<lparr>pd_history := filter (\<lambda>v. \<not> (pv_page v = pid \<and> pv_space v = Some space)) (pd_history db),
      pd_snapshots := filter (\<lambda>s. \<not> (sn_page s = pid \<and> sn_space s = Some space)) (pd_snapshots db)\<rparr>"

definition nullif_empty :: "string \<Rightarrow> string option" where
  "nullif_empty s = (if s = [] then None else Some s)"

text \<open>\<open>sql_now\<close> is the text of \<open>datetime('now')\<close>.\<close>

definition delete_space_page :: "string \<Rightarrow> string \<Rightarrow> string \<Rightarrow> string \<Rightarrow> bool \<Rightarrow> page_db \<Rightarrow> page_db \<times> bool" where
  "delete_space_page sql_now pid space deleted_by confirmed db =
     (case live_row space pid db of
        None \<Rightarrow> (db, False)
      | Some r \<Rightarrow>
          let r' = \<lparr>rw_page = (rw_page r)\<lparr>pg_title := [], pg_content := [], pg_cover := None, pg_pending := None,
                      pg_locked_by := None, pg_locked_at := None, pg_lock_expires_at := None\<rparr>,
                    rw_deleted_at = Some sql_now, rw_deleted_by = nullif_empty deleted_by, rw_confirmed = confirmed\<rparr>
          in (drop_bodies pid space (db\<lparr>pd_pages := (pd_pages db)(pid \<mapsto> r')\<rparr>), True))"

definition tombstone_row :: "string \<Rightarrow> string \<Rightarrow> page_db \<Rightarrow> page_row option" where
  "tombstone_row space pid db =
     (case pd_pages db pid of None \<Rightarrow> None
      | Some r \<Rightarrow> if pg_space_id (rw_page r) = Some space \<and> rw_deleted_at r \<noteq> None then Some r else None)"

definition confirm_delete :: "string \<Rightarrow> string \<Rightarrow> page_db \<Rightarrow> page_db \<times> bool" where
  "confirm_delete pid space db =
     (case tombstone_row space pid db of
        Some r \<Rightarrow> if rw_confirmed r then (db, False)
          else (db\<lparr>pd_pages := (pd_pages db)(pid \<mapsto> r\<lparr>rw_confirmed := True\<rparr>)\<rparr>, True)
      | None \<Rightarrow> (db, False))"

definition revive_page :: "string \<Rightarrow> string \<Rightarrow> int \<Rightarrow> page_db \<Rightarrow> page_db \<times> bool" where
  "revive_page pid space seq db =
     (case tombstone_row space pid db of
        Some r \<Rightarrow> if \<not> rw_confirmed r \<and> pg_seq (rw_page r) \<le> seq
          then (db\<lparr>pd_pages := (pd_pages db)(pid \<mapsto>
                 r\<lparr>rw_page := (rw_page r)\<lparr>pg_seq := 0\<rparr>, rw_deleted_at := None, rw_deleted_by := None\<rparr>)\<rparr>, True)
          else (db, False)
      | None \<Rightarrow> (db, False))"

text \<open>A stub for a page never held here: columns not named take the defaults of the table.\<close>

definition insert_tombstone :: "string \<Rightarrow> string \<Rightarrow> string \<Rightarrow> string \<Rightarrow> string \<Rightarrow> page_db \<Rightarrow> page_db \<times> bool" where
  "insert_tombstone sql_now pid space created_by deleted_by db =
     (case pd_pages db pid of
        Some r \<Rightarrow> (db, False)
      | None \<Rightarrow>
          (db\<lparr>pd_pages := (pd_pages db)(pid \<mapsto>
             \<lparr>rw_page = (page_defaults pid [] [] created_by sql_now sql_now)\<lparr>pg_space_id := Some space\<rparr>,
              rw_deleted_at = Some sql_now, rw_deleted_by = nullif_empty deleted_by, rw_confirmed = True\<rparr>)\<rparr>, True))"

definition is_page_deleted :: "string \<Rightarrow> string \<Rightarrow> page_db \<Rightarrow> bool" where
  "is_page_deleted pid space db \<longleftrightarrow> tombstone_row space pid db \<noteq> None"

section \<open>History\<close>

definition in_history :: "string \<Rightarrow> string option \<Rightarrow> page_version \<Rightarrow> bool" where
  "in_history pid space v \<longleftrightarrow> pv_page v = pid \<and> pv_space v = space"

definition list_versions :: "string \<Rightarrow> string option \<Rightarrow> page_db \<Rightarrow> page_version list" where
  "list_versions pid space db = sort_key pv_number (filter (in_history pid space) (pd_history db))"

text \<open>\<open>COALESCE(MAX(version), 0) + 1\<close> over every row of the page id, whatever its space.\<close>

definition next_version_number :: "string \<Rightarrow> page_version list \<Rightarrow> int" where
  "next_version_number pid hist =
     fold max (map pv_number (filter (\<lambda>v. pv_page v = pid) hist)) 0 + 1"

text \<open>\<open>DELETE ... WHERE version NOT IN (SELECT version ... ORDER BY version DESC LIMIT n)\<close>.\<close>

definition prune_history :: "string \<Rightarrow> string option \<Rightarrow> nat \<Rightarrow> page_version list \<Rightarrow> page_version list" where
  "prune_history pid space cap hist =
     (let kept = take cap (rev (sort (map pv_number (filter (in_history pid space) hist))))
      in filter (\<lambda>v. in_history pid space v \<longrightarrow> pv_number v \<in> set kept) hist)"

definition save_version :: "page_version \<Rightarrow> page_db \<Rightarrow> page_db" where
  "save_version v db = db\<lparr>pd_history :=
     prune_history (pv_page v) (pv_space v) (if pv_space v = None then max_history else max_space_history)
       (pd_history db @ [v])\<rparr>"

section \<open>Conflict sides and the draft base\<close>

definition is_open_side :: "string \<Rightarrow> string \<Rightarrow> snapshot_row \<Rightarrow> bool" where
  "is_open_side pid space s \<longleftrightarrow> sn_page s = pid \<and> sn_space s = Some space \<and> sn_conflict s"

definition is_base_row :: "string \<Rightarrow> string \<Rightarrow> snapshot_row \<Rightarrow> bool" where
  "is_base_row pid space s \<longleftrightarrow> sn_page s = pid \<and> sn_space s = Some space \<and> sn_side s = ''base''"

text \<open>\<open>INSERT OR REPLACE\<close>: a row with the same primary key (page, \<open>snapshot_at\<close>) goes first.\<close>

definition put_snapshot :: "snapshot_row \<Rightarrow> snapshot_row list \<Rightarrow> snapshot_row list" where
  "put_snapshot s rows = filter (\<lambda>r. \<not> (sn_page r = sn_page s \<and> sn_at r = sn_at s)) rows @ [s]"

definition side_row :: "string \<Rightarrow> string \<Rightarrow> conflict_side \<Rightarrow> snapshot_row" where
  "side_row pid space side =
     \<lparr>sn_page = pid, sn_space = Some space, sn_at = cs_at side,
      sn_body = encode_side_body (cs_title side) (cs_content side) (cs_cover side) (cs_base_seq side) [] None,
      sn_by = cs_by side, sn_side = ''theirs'', sn_conflict = True\<rparr>"

definition replace_sides :: "string \<Rightarrow> string \<Rightarrow> conflict_side list \<Rightarrow> snapshot_row list \<Rightarrow> snapshot_row list" where
  "replace_sides pid space sides rows =
     fold put_snapshot (map (side_row pid space) sides) (filter (\<lambda>s. \<not> is_open_side pid space s) rows)"

definition set_conflict_sides :: "string \<Rightarrow> string \<Rightarrow> conflict_side list \<Rightarrow> page_db \<Rightarrow> page_db" where
  "set_conflict_sides pid space sides db = db\<lparr>pd_snapshots := replace_sides pid space sides (pd_snapshots db)\<rparr>"

text \<open>
  \<open>list_conflict_sides\<close>: a row as a side.  The \<open>LEFT JOIN\<close> finds the title of the page row of the same space,
  tombstone or not.
\<close>

definition page_title_of :: "string \<Rightarrow> string \<Rightarrow> page_db \<Rightarrow> string" where
  "page_title_of pid space db =
     (case pd_pages db pid of None \<Rightarrow> []
      | Some r \<Rightarrow> if pg_space_id (rw_page r) = Some space then pg_title (rw_page r) else [])"

definition side_of_row :: "(string \<Rightarrow> string) \<Rightarrow> string \<Rightarrow> snapshot_row \<Rightarrow> conflict_side" where
  "side_of_row digest fallback s =
     (let v = decode_side_body (sn_body s) fallback
      in \<lparr>cs_hash = version_hash digest (sv_title v) (sv_content v) (sv_cover v),
          cs_title = sv_title v, cs_content = sv_content v, cs_by = sn_by s, cs_at = sn_at s,
          cs_cover = sv_cover v, cs_base_seq = sv_seq v\<rparr>)"

definition list_conflict_sides :: "(string \<Rightarrow> string) \<Rightarrow> string \<Rightarrow> string \<Rightarrow> page_db \<Rightarrow> conflict_side list" where
  "list_conflict_sides digest pid space db =
     map (side_of_row digest (page_title_of pid space db))
       (sort_key sn_at (filter (is_open_side pid space) (pd_snapshots db)))"

definition has_active_conflict :: "string \<Rightarrow> string \<Rightarrow> page_db \<Rightarrow> bool" where
  "has_active_conflict pid space db = list_ex (is_open_side pid space) (pd_snapshots db)"

definition clear_conflict_flag :: "string \<Rightarrow> string \<Rightarrow> page_db \<Rightarrow> page_db" where
  "clear_conflict_flag pid space db =
     db\<lparr>pd_snapshots := filter (\<lambda>s. \<not> is_open_side pid space s) (pd_snapshots db)\<rparr>"

definition base_row :: "string \<Rightarrow> string \<Rightarrow> draft_base \<Rightarrow> snapshot_row" where
  "base_row pid space b =
     \<lparr>sn_page = pid, sn_space = Some space, sn_at = ''base:'' @ pid,
      sn_body = encode_side_body (bs_title b) (bs_content b) (bs_cover b) (bs_seq b) (bs_resolves b) (bs_sent b),
      sn_by = bs_by b, sn_side = ''base'', sn_conflict = False\<rparr>"

definition clear_draft_base :: "string \<Rightarrow> string \<Rightarrow> page_db \<Rightarrow> page_db" where
  "clear_draft_base pid space db =
     db\<lparr>pd_snapshots := filter (\<lambda>s. \<not> is_base_row pid space s) (pd_snapshots db)\<rparr>"

definition set_draft_base :: "string \<Rightarrow> string \<Rightarrow> draft_base \<Rightarrow> page_db \<Rightarrow> page_db" where
  "set_draft_base pid space b db =
     db\<lparr>pd_snapshots := put_snapshot (base_row pid space b)
          (filter (\<lambda>s. \<not> is_base_row pid space s) (pd_snapshots db))\<rparr>"

definition get_draft_base :: "string \<Rightarrow> string \<Rightarrow> page_db \<Rightarrow> draft_base option" where
  "get_draft_base pid space db =
     map_option (\<lambda>s. let v = decode_side_body (sn_body s) []
         in \<lparr>bs_title = sv_title v, bs_content = sv_content v, bs_seq = sv_seq v, bs_by = sn_by s,
             bs_cover = sv_cover v, bs_resolves = sv_resolves v, bs_sent = sv_sent v\<rparr>)
       (find (is_base_row pid space) (pd_snapshots db))"

section \<open>One sequenced step\<close>

text \<open>The history rows are numbered one after the other inside the transaction.\<close>

fun insert_history :: "string \<Rightarrow> string \<Rightarrow> page_version list \<Rightarrow> page_version list \<Rightarrow> page_version list" where
  "insert_history pid space [] hist = hist"
| "insert_history pid space (v # vs) hist =
     insert_history pid space vs
       (hist @ [v\<lparr>pv_page := pid, pv_space := Some space, pv_number := next_version_number pid hist\<rparr>])"

definition commit_version :: "int \<Rightarrow> string \<Rightarrow> page \<Rightarrow> page_version list \<Rightarrow> conflict_side list \<Rightarrow> page_db \<Rightarrow> page_db \<times> bool" where
  "commit_version now space p history sides db =
     (let pid = pg_id p;
          hist = insert_history pid space history (pd_history db);
          hist' = (if history = [] then hist else prune_history pid (Some space) max_space_history hist)
      in case upsert_row now space p (pd_pages db pid) of
           None \<Rightarrow> (db, False)
         | Some r \<Rightarrow>
             (db\<lparr>pd_history := hist', pd_pages := (pd_pages db)(pid \<mapsto> r),
                 pd_snapshots := replace_sides pid space sides (pd_snapshots db)\<rparr>, True))"

end
