(* ===== verification/Page_Wire.thy ===== *)
theory Page_Wire
  imports Page_Data
begin

text \<open>
  The wire shapes of the page engine (\<open>services/page_conflict_service.py\<close>, "Wire shapes"): proposals, host
  versions, conflict sides and the answer to a proposal, with their tolerant parsers.  \<open>py_str\<close> renders a
  JSON value that is not a string (\<open>str(v)\<close>).
\<close>

section \<open>Constants\<close>

definition max_conflict_sides :: nat where "max_conflict_sides = 3"
definition max_resolves :: nat where "max_resolves = 5"
definition max_seq :: int where "max_seq = 2 ^ 53"

definition refusal_reasons :: "string list" where
  "refusal_reasons = [''access'', ''archived'', ''gone'', ''rate_limited'', ''bad_base'']"

section \<open>Values\<close>

datatype page_mode = HostMode | MemberMode | LegacyMode

record sequenced =
  sq_proposer :: string
  sq_hash :: string
  sq_outcome :: string
  sq_reason :: "string option"

record proposal =
  pr_title :: string
  pr_content :: string
  pr_cover :: "string option"
  pr_actor :: string
  pr_base_seq :: "int option"
  pr_base_hash :: "string option"
  pr_resolves :: "string list"
  pr_created_by :: string
  pr_answers :: string

definition body_of_proposal :: "proposal \<Rightarrow> page_body" where
  "body_of_proposal p = (pr_title p, pr_content p, pr_cover p)"

definition proposal_hash :: "(string \<Rightarrow> string) \<Rightarrow> proposal \<Rightarrow> string" where
  "proposal_hash digest p = version_hash digest (pr_title p) (pr_content p) (pr_cover p)"

record canonical_version =
  cv_seq :: int
  cv_title :: string
  cv_content :: string
  cv_cover :: "string option"
  cv_created_by :: string
  cv_created_at :: string
  cv_updated_at :: string
  cv_last_editor :: string
  cv_conflict :: "conflict_side list"
  cv_sequenced :: "sequenced option"
  cv_has_state :: bool

definition body_of_canonical :: "canonical_version \<Rightarrow> page_body" where
  "body_of_canonical v = (cv_title v, cv_content v, cv_cover v)"

section \<open>Reading JSON\<close>

text \<open>\<open>_int\<close>: a JSON integer that is not a boolean.\<close>

fun json_int :: "json \<Rightarrow> int option" where
  "json_int (JNum n) = Some n"
| "json_int v = None"

text \<open>\<open>x if isinstance(x, str) and x else None\<close>, and \<open>k in p\<close>.\<close>

fun nonempty_str :: "json \<Rightarrow> string option" where
  "nonempty_str (JStr s) = (if s = [] then None else Some s)"
| "nonempty_str v = None"

definition has_key :: "jobj \<Rightarrow> string \<Rightarrow> bool" where
  "has_key p k \<longleftrightarrow> map_of p k \<noteq> None"

fun text_of_json :: "json \<Rightarrow> string" where
  "text_of_json (JStr s) = s"
| "text_of_json v = []"

text \<open>\<open>tuple(dict.fromkeys(xs))\<close>: the first occurrence of each element, in order.\<close>

fun dict_fromkeys :: "'a list \<Rightarrow> 'a list" where
  "dict_fromkeys [] = []"
| "dict_fromkeys (x # xs) = x # dict_fromkeys (filter (\<lambda>y. y \<noteq> x) xs)"

section \<open>The answer to a proposal\<close>

definition sequenced_to_wire :: "sequenced \<Rightarrow> jobj" where
  "sequenced_to_wire s =
     [(''proposer_instance'', JStr (sq_proposer s)), (''proposal_hash'', JStr (sq_hash s)),
      (''outcome'', JStr (sq_outcome s))]
     @ (case sq_reason s of None \<Rightarrow> [] | Some r \<Rightarrow> if r = [] then [] else [(''reason'', JStr r)])"

text \<open>
  \<open>Sequenced.from_wire\<close>.  \<open>outcome not in (...)\<close> compares with a tuple; \<open>reason not in REFUSAL_REASONS\<close> hashes the
  value, so a list or an object raises \<open>TypeError\<close>.
\<close>

fun unhashable :: "json \<Rightarrow> bool" where
  "unhashable (JList xs) = True"
| "unhashable (JObj kvs) = True"
| "unhashable v = False"

definition sequenced_from_wire :: "json \<Rightarrow> exn + sequenced option" where
  "sequenced_from_wire raw =
     (case raw of
        JObj d \<Rightarrow>
          (let outcome = jget d ''outcome''; proposer = jget d ''proposer_instance'';
               ph = jget d ''proposal_hash''; reason = jget d ''reason''
           in if outcome \<notin> {JStr ''applied'', JStr ''refused''} \<or> \<not> is_jstr proposer then Inr None
              else if \<not> is_version_hash ph then Inr None
              else if unhashable reason then Inl PyTypeError
              else if reason \<noteq> JNull \<and> reason \<notin> set (map JStr refusal_reasons) then Inr None
              else Inr (Some \<lparr>sq_proposer = text_of_json proposer, sq_hash = text_of_json ph, sq_outcome = text_of_json outcome,
                     sq_reason = (case reason of JStr r \<Rightarrow> Some r | _ \<Rightarrow> None)\<rparr>))
      | _ \<Rightarrow> Inr None)"

section \<open>Proposals\<close>

definition proposal_base :: "jobj \<Rightarrow> (int option \<times> string option) option" where
  "proposal_base p =
     (if \<not> has_key p ''base_seq'' then Some (None, None)
      else case json_int (jget p ''base_seq'') of
        None \<Rightarrow> None
      | Some n \<Rightarrow>
          if n < 0 \<or> max_seq < n then None
          else (let h = jget p ''base_hash''
            in if h = JNull then Some (Some n, None)
               else if is_version_hash h then Some (Some n, Some (text_of_json h)) else None))"

definition proposal_resolves :: "jobj \<Rightarrow> string list option" where
  "proposal_resolves p =
     (if \<not> has_key p ''resolves'' then Some []
      else case jget p ''resolves'' of
        JList raw \<Rightarrow> if max_resolves < length raw \<or> \<not> list_all is_version_hash raw then None
                    else Some (dict_fromkeys (map text_of_json raw))
      | _ \<Rightarrow> None)"

definition proposal_from_wire :: "(json \<Rightarrow> string) \<Rightarrow> jobj \<Rightarrow> proposal option" where
  "proposal_from_wire py_str p =
     (case proposal_base p of None \<Rightarrow> None
      | Some (base_seq, base_hash) \<Rightarrow>
        (case proposal_resolves p of None \<Rightarrow> None
         | Some resolves \<Rightarrow>
             Some \<lparr>pr_title = str_or_empty py_str (jget p ''title''),
                   pr_content = str_or_empty py_str (jget p ''content''),
                   pr_cover = nonempty_str (jget p ''cover_image_url''),
                   pr_actor = str_or_empty py_str (jget p ''actor_user_id''),
                   pr_base_seq = base_seq, pr_base_hash = base_hash, pr_resolves = resolves,
                   pr_created_by = str_or_empty py_str (jget p ''created_by''), pr_answers = []\<rparr>))"

section \<open>Conflict sides\<close>

definition jopt :: "string option \<Rightarrow> json" where
  "jopt s = (case s of None \<Rightarrow> JNull | Some t \<Rightarrow> JStr t)"

definition side_to_wire :: "conflict_side \<Rightarrow> jobj" where
  "side_to_wire s =
     [(''side_id'', JStr (cs_hash s)), (''title'', JStr (cs_title s)), (''content'', JStr (cs_content s)),
      (''cover'', jopt (cs_cover s)), (''by'', JStr (cs_by s)), (''base_seq'', JNum (cs_base_seq s)),
      (''at'', JStr (cs_at s))]"

definition side_from_wire :: "(string \<Rightarrow> string) \<Rightarrow> json \<Rightarrow> conflict_side option" where
  "side_from_wire digest raw =
     (case raw of
        JObj d \<Rightarrow>
          (let title = jget d ''title''; content = jget d ''content''; by = jget d ''by''; at = jget d ''at'';
               cover = nonempty_str (jget d ''cover'')
           in if \<not> list_all is_jstr [title, content, by, at] \<or> \<not> truthy at then None
              else Some \<lparr>cs_hash = version_hash digest (text_of_json title) (text_of_json content) cover,
                     cs_title = text_of_json title, cs_content = text_of_json content, cs_by = text_of_json by, cs_at = text_of_json at,
                     cs_cover = cover,
                     cs_base_seq = max 0 (case json_int (jget d ''base_seq'') of None \<Rightarrow> 0 | Some n \<Rightarrow> n)\<rparr>)
      | _ \<Rightarrow> None)"

section \<open>Host versions\<close>

text \<open>\<open>p.get("conflict", [])\<close>: the default only when the key is missing.\<close>

definition conflict_from_wire :: "(string \<Rightarrow> string) \<Rightarrow> jobj \<Rightarrow> conflict_side list option" where
  "conflict_from_wire digest p =
     (case (case map_of p ''conflict'' of None \<Rightarrow> JList [] | Some v \<Rightarrow> v) of
        JList raw \<Rightarrow>
          if max_conflict_sides < length raw then None
          else List.those (map (side_from_wire digest) raw)
      | _ \<Rightarrow> None)"

definition either_str :: "(json \<Rightarrow> string) \<Rightarrow> json \<Rightarrow> json \<Rightarrow> string" where
  "either_str py_str a b = (if truthy a then json_str py_str a else str_or_empty py_str b)"

definition canonical_from_wire :: "(string \<Rightarrow> string) \<Rightarrow> (json \<Rightarrow> string) \<Rightarrow> jobj \<Rightarrow> exn + canonical_version option" where
  "canonical_from_wire digest py_str p =
     (case json_int (jget p ''seq'') of
        None \<Rightarrow> Inr None
      | Some seq \<Rightarrow>
          if seq < 0 \<or> max_seq < seq then Inr None
          else case conflict_from_wire digest p of
            None \<Rightarrow> Inr None
          | Some sides \<Rightarrow>
              res_bind (if has_key p ''sequenced''
                        then res_bind (sequenced_from_wire (jget p ''sequenced'')) (\<lambda>s.
                               Inr (case s of None \<Rightarrow> None | Some q \<Rightarrow> Some (Some q)))
                        else Inr (Some None)) (\<lambda>sequenced.
                case sequenced of
                  None \<Rightarrow> Inr None
                | Some sq \<Rightarrow>
                    (let title = jget p ''title''; occurred = jget p ''occurred_at''
                     in Inr (Some
                       \<lparr>cv_seq = seq, cv_title = str_or_empty py_str title,
                        cv_content = str_or_empty py_str (jget p ''content''),
                        cv_cover = nonempty_str (jget p ''cover_image_url''),
                        cv_created_by = str_or_empty py_str (jget p ''created_by''),
                        cv_created_at = either_str py_str (jget p ''created_at'') occurred,
                        cv_updated_at = either_str py_str (jget p ''updated_at'') occurred,
                        cv_last_editor = str_or_empty py_str (jget p ''last_editor_user_id''),
                        cv_conflict = sides, cv_sequenced = sq,
                        cv_has_state = (is_jstr title \<and> truthy title)\<rparr>))))"

definition page_editor :: "page \<Rightarrow> string" where
  "page_editor p = (case pg_last_editor p of None \<Rightarrow> pg_created_by p
     | Some e \<Rightarrow> if e = [] then pg_created_by p else e)"

text \<open>The v_48 fields of a host version, and the payloads they travel in (the answer to one proposer, and
  the broadcast as \<open>PageFederationOutbound\<close> builds it from the event).\<close>

definition canonical_extras :: "(string \<Rightarrow> string) \<Rightarrow> page \<Rightarrow> conflict_side list \<Rightarrow> sequenced option \<Rightarrow> jobj" where
  "canonical_extras digest p sides sq =
     [(''cover_image_url'', jopt (pg_cover p)), (''updated_at'', JStr (pg_updated_at p)),
      (''last_editor_user_id'', JStr (page_editor p)), (''seq'', JNum (pg_seq p)),
      (''version_hash'', JStr (version_hash digest (pg_title p) (pg_content p) (pg_cover p))),
      (''conflict'', JList (map (\<lambda>s. JObj (side_to_wire s)) sides))]
     @ (case sq of None \<Rightarrow> [] | Some s \<Rightarrow> [(''sequenced'', JObj (sequenced_to_wire s))])"

definition ack_payload :: "(string \<Rightarrow> string) \<Rightarrow> string \<Rightarrow> string \<Rightarrow> page option \<Rightarrow> conflict_side list \<Rightarrow> sequenced \<Rightarrow> jobj" where
  "ack_payload digest space pid p sides sq =
     [(''id'', JStr pid), (''page_id'', JStr pid), (''space_id'', JStr space)]
     @ (case p of
          Some pg \<Rightarrow>
            [(''title'', JStr (pg_title pg)), (''content'', JStr (pg_content pg)),
             (''created_by'', JStr (pg_created_by pg)), (''actor_user_id'', JStr (page_editor pg))]
            @ canonical_extras digest pg sides (Some sq)
        | None \<Rightarrow> [(''seq'', JNum 0), (''conflict'', JList []), (''sequenced'', JObj (sequenced_to_wire sq))])"

definition broadcast_payload :: "(string \<Rightarrow> string) \<Rightarrow> string \<Rightarrow> page \<Rightarrow> string \<Rightarrow> conflict_side list \<Rightarrow> sequenced option \<Rightarrow> bool \<Rightarrow> jobj" where
  "broadcast_payload digest space p actor sides sq created =
     (let who = (if created \<and> actor = [] then pg_created_by p else actor)
      in [(''id'', JStr (pg_id p)), (''page_id'', JStr (pg_id p)), (''space_id'', JStr space),
          (''title'', JStr (pg_title p)), (''content'', JStr (pg_content p))]
         @ (if who = [] then [] else [(''actor_user_id'', JStr who)])
         @ canonical_extras digest p sides sq
         @ (if created then [(''created_by'', JStr (pg_created_by p))] else []))"

end
