(* ===== verification/Page_Host.thy ===== *)
theory Page_Host
  imports Page_Merge_Props Page_Store Page_Wire Rate_Limiter
begin

text \<open>
  The host side of the page engine (\<open>PageConflictService\<close>): sequencing an edit under the page lock, the
  conflict sides with their caps, what is published, refusals, and the sequence-number floor.  A call runs
  under the lock of its page, so it is one function on the engine's state.  \<open>page_env\<close> holds what the service
  is wired with (its own instance id, the owner of each space, which peers speak the protocol, the digest);
  \<open>page_call\<close> what one call reads from outside (the two clocks and fresh ids).
\<close>

section \<open>Environment and state\<close>

record page_env =
  pe_digest :: "string \<Rightarrow> string"
  pe_py_str :: "json \<Rightarrow> string"
  pe_own :: string
  pe_federated :: bool
  pe_owner :: "string \<Rightarrow> string option"
  pe_supports :: "string \<Rightarrow> bool"

record page_call =
  pc_now :: int
  pc_mono :: rat
  pc_new_id :: "nat \<Rightarrow> string"

datatype page_output =
    Broadcast string page string "conflict_side list" "sequenced option" bool "page option"
  | ConflictEmitted string string string string bool
  | AckSent string string jobj
  | ProposalSettled string string string string "string option" int

record page_engine =
  en_db :: page_db
  en_limiter :: limiter
  en_floor_raised :: "((string \<times> string) \<times> (rat \<times> int) list) list"
  en_out :: "page_output list"

definition emit :: "page_output \<Rightarrow> page_engine \<Rightarrow> page_engine" where
  "emit o1 st = st\<lparr>en_out := en_out st @ [o1]\<rparr>"

section \<open>Constants\<close>

definition sides_max_bytes :: int where "sides_max_bytes = 160 * 1024"
definition proposals_per_minute :: int where "proposals_per_minute = 120"
definition refusals_per_sender_per_minute :: int where "refusals_per_sender_per_minute = 30"
definition max_floor_step :: int where "max_floor_step = 2 ^ 20"
definition floor_hint_window_s :: int where "floor_hint_window_s = 600"
definition floor_raises_per_provider_per_hour :: int where "floor_raises_per_provider_per_hour = 50"
definition max_floor_raise_per_day :: int where "max_floor_raise_per_day = max_floor_step"
definition stateless_refusals :: "string list" where "stateless_refusals = [''rate_limited'', ''archived'']"

section \<open>Mode\<close>

definition page_mode_of :: "page_env \<Rightarrow> string \<Rightarrow> page_mode \<times> string" where
  "page_mode_of env space =
     (if \<not> pe_federated env then (HostMode, pe_own env)
      else case pe_owner env space of
        None \<Rightarrow> (LegacyMode, [])
      | Some own \<Rightarrow>
          if own = pe_own env then (HostMode, own)
          else if pe_supports env own then (MemberMode, own)
          else (LegacyMode, own))"

section \<open>Results\<close>

datatype sequence_outcome = DuplicateEdit | AppliedEdit | SideEdit | RefusedEdit

record sequence_result =
  sr_outcome :: sequence_outcome
  sr_reason :: "string option"
  sr_page :: "page option"
  sr_created :: bool
  sr_sides :: "conflict_side list"
  sr_previous :: "page option"

definition result_of :: "sequence_outcome \<Rightarrow> string option \<Rightarrow> page option \<Rightarrow> sequence_result" where
  "result_of out reason p =
     \<lparr>sr_outcome = out, sr_reason = reason, sr_page = p, sr_created = False, sr_sides = [], sr_previous = None\<rparr>"

section \<open>History rows\<close>

definition or_text :: "string \<Rightarrow> string \<Rightarrow> string" where
  "or_text s t = (if s = [] then t else s)"

definition version_row :: "page_call \<Rightarrow> nat \<Rightarrow> page \<Rightarrow> string \<Rightarrow> page_body \<Rightarrow> string \<Rightarrow> page_version" where
  "version_row c n p space b edited_by =
     (case b of (title, content, cover) \<Rightarrow>
       \<lparr>pv_id = pc_new_id c n, pv_page = pg_id p, pv_number = 0, pv_title = title, pv_content = content,
        pv_by = or_text edited_by (pg_created_by p), pv_at = iso_now (pc_now c), pv_space = Some space,
        pv_cover = cover\<rparr>)"

text \<open>\<open>_remember\<close>, \<open>_remember_page\<close>: one more version in the history, numbered next.\<close>

definition remember :: "page_call \<Rightarrow> page \<Rightarrow> string \<Rightarrow> page_body \<Rightarrow> string \<Rightarrow> page_db \<Rightarrow> page_db" where
  "remember c p space b edited_by db =
     save_version ((version_row c 0 p space b edited_by)
       \<lparr>pv_number := next_version_number (pg_id p) (pd_history db)\<rparr>) db"

definition remember_page :: "page_call \<Rightarrow> page \<Rightarrow> string \<Rightarrow> page_db \<Rightarrow> page_db" where
  "remember_page c p space db = remember c p space (body_of_page p) (page_editor p) db"

definition remember_side :: "page_call \<Rightarrow> page \<Rightarrow> conflict_side \<Rightarrow> string \<Rightarrow> page_db \<Rightarrow> page_db" where
  "remember_side c p s space db = remember c p space (body_of_side s) (cs_by s) db"

definition hash_versions :: "(string \<Rightarrow> string) \<Rightarrow> page_version list \<Rightarrow> (string \<times> page_version) list" where
  "hash_versions digest vs =
     map (\<lambda>v. (body_hash digest (body_of_version v), v)) (sort_key (\<lambda>v. - pv_number v) vs)"

section \<open>Conflict sides\<close>

text \<open>
  A time stamp no open side has: the clock, moved on by microseconds while it is taken.  Past the last
  instant Python can represent, adding to a \<open>datetime\<close> raises \<open>OverflowError\<close>.
\<close>

definition last_instant :: int where
  "last_instant = (3652059 - 719163 + 1) * 86400 * 1000000"

function fresh_stamp :: "string list \<Rightarrow> int \<Rightarrow> exn + string" where
  "fresh_stamp taken us =
     (if last_instant \<le> us then Inl PyOtherError
      else if iso_micros us \<in> set taken then fresh_stamp taken (us + 1)
      else Inr (iso_micros us))"
  by pat_completeness auto
termination by (relation "measure (\<lambda>(taken, us). nat (last_instant - us))") auto

declare fresh_stamp.simps [simp del]

definition sides_bytes :: "conflict_side list \<Rightarrow> int" where
  "sides_bytes sides = sum_list (map (\<lambda>s. utf8_length (cs_content s) + utf8_length (cs_title s)) sides)"

text \<open>The caps: the oldest sides move out while there are several and a cap is exceeded.\<close>

fun trim_sides :: "conflict_side list \<Rightarrow> conflict_side list \<Rightarrow> conflict_side list \<times> conflict_side list" where
  "trim_sides (s # s' # ss) retired =
     (if max_conflict_sides < length (s # s' # ss) \<or> sides_max_bytes < sides_bytes (s # s' # ss)
      then trim_sides (s' # ss) (retired @ [s]) else (s # s' # ss, retired))"
| "trim_sides ss retired = (ss, retired)"

definition add_side :: "page_call \<Rightarrow> proposal \<Rightarrow> string \<Rightarrow> conflict_side list \<Rightarrow> conflict_side list
    \<Rightarrow> exn + conflict_side list \<times> conflict_side list" where
  "add_side c p ph sides retired =
     (let by = pr_actor p;
          sides' = filter (\<lambda>s. cs_by s \<noteq> by) sides;
          retired' = retired @ filter (\<lambda>s. cs_by s = by) sides
      in res_bind (fresh_stamp (map cs_at sides') (pc_now c)) (\<lambda>stamp.
           Inr (trim_sides (sides' @
             [\<lparr>cs_hash = ph, cs_title = pr_title p, cs_content = pr_content p, cs_by = by, cs_at = stamp,
               cs_cover = pr_cover p, cs_base_seq = (case pr_base_seq p of None \<Rightarrow> 0 | Some n \<Rightarrow> n)\<rparr>]) retired')))"

section \<open>Sequencing an edit\<close>

definition find_base :: "(string \<Rightarrow> string) \<Rightarrow> string \<Rightarrow> page \<Rightarrow> proposal \<Rightarrow> string \<Rightarrow> page_db \<Rightarrow> page_body option" where
  "find_base digest space p prop cur_hash db =
     (case pr_base_hash prop of
        None \<Rightarrow> None
      | Some bh \<Rightarrow>
          if bh = cur_hash then Some (body_of_page p)
          else map_option (\<lambda>(h, v). body_of_version v)
                 (find (\<lambda>(h, v). h = bh) (hash_versions digest (list_versions (pg_id p) (Some space) db))))"

text \<open>The fault of the merge is an uncaught \<open>LookupError\<close>.\<close>

definition merge_bodies :: "page_body \<Rightarrow> page \<Rightarrow> proposal \<Rightarrow> exn + page_body option" where
  "merge_bodies base p prop =
     (case base of (base_title, base_content, base_cover) \<Rightarrow>
       (case (merge_scalar (Some base_title) (Some (pg_title p)) (Some (pr_title prop)),
              merge_scalar base_cover (pg_cover p) (pr_cover prop)) of
          (ScalarValue title, ScalarValue cover) \<Rightarrow>
            (case diff3_merge base_content (pg_content p) (pr_content prop) of
               Inl _ \<Rightarrow> Inl PyOtherError
             | Inr r \<Rightarrow> if mr_has_conflict r then Inr None
                 else Inr (Some (or_text (or_empty title) (pg_title p), mr_content r, cover)))
        | _ \<Rightarrow> Inr None))"

text \<open>What an edit becomes: the new body if any, whether it is a side, whether it was absorbed by a merge,
  and the sides that stay and go.\<close>

record edit_plan =
  ep_body :: "page_body option"
  ep_as_side :: bool
  ep_absorbed :: bool
  ep_sides :: "conflict_side list"
  ep_retired :: "conflict_side list"

definition plan_edit :: "page_env \<Rightarrow> page_call \<Rightarrow> string \<Rightarrow> page \<Rightarrow> proposal \<Rightarrow> string \<Rightarrow> string \<Rightarrow> bool
    \<Rightarrow> conflict_side list \<Rightarrow> conflict_side list \<Rightarrow> page_db \<Rightarrow> exn + edit_plan" where
  "plan_edit env c space p prop cur_hash ph regressed sides retired db =
     (let side_hashes = map cs_hash sides;
          keep = \<lparr>ep_body = None, ep_as_side = False, ep_absorbed = False, ep_sides = sides, ep_retired = retired\<rparr>
      in if ph = cur_hash then Inr keep
         else if ph \<in> set side_hashes
         then Inr (keep\<lparr>ep_body := Some (body_of_proposal prop), ep_sides := filter (\<lambda>s. cs_hash s \<noteq> ph) sides\<rparr>)
         else if pr_base_seq prop = None
              \<or> (pr_base_seq prop = Some (pg_seq p)
                 \<and> (pr_base_hash prop = Some cur_hash \<or> (pr_base_hash prop = None \<and> \<not> regressed)))
         then Inr (keep\<lparr>ep_body := Some (body_of_proposal prop)\<rparr>)
         else res_bind
           (case (if pr_base_hash prop \<in> Some ` set side_hashes then None
                  else find_base (pe_digest env) space p prop cur_hash db) of
              None \<Rightarrow> Inr None
            | Some base \<Rightarrow> merge_bodies base p prop) (\<lambda>m.
           case m of
             Some b \<Rightarrow> Inr (keep\<lparr>ep_body := Some b, ep_absorbed := True\<rparr>)
           | None \<Rightarrow>
               res_bind (add_side c prop ph sides retired) (\<lambda>(sides', retired').
                 Inr (keep\<lparr>ep_as_side := True, ep_sides := sides', ep_retired := retired'\<rparr>))))"

text \<open>Writing the plan: history, page row and sides in one transaction.\<close>

definition commit_plan :: "page_call \<Rightarrow> string \<Rightarrow> page \<Rightarrow> page \<Rightarrow> proposal \<Rightarrow> edit_plan \<Rightarrow> page_db \<Rightarrow> page_db \<times> sequence_result" where
  "commit_plan c space previous p prop plan db =
     (let unsequenced = pg_seq previous = 0;
          changed_body = (case ep_body plan of None \<Rightarrow> False | Some b \<Rightarrow> b \<noteq> body_of_page p);
          now = iso_now (pc_now c);
          n = length (ep_retired plan);
          gone = map (\<lambda>(i, s). version_row c i p space (body_of_side s) (cs_by s)) (zip [0..<n] (ep_retired plan));
          replaced = (if changed_body then [version_row c n p space (body_of_page p) (page_editor p)] else []);
          absorbed = (if changed_body \<and> ep_absorbed plan
                      then [version_row c (Suc n) p space (body_of_proposal prop) (pr_actor prop)] else []);
          numbered = p\<lparr>pg_seq := pg_seq p + 1, pg_updated_at := now\<rparr>;
          updated = (case ep_body plan of
              Some (title, content, cover) \<Rightarrow>
                if changed_body
                then numbered\<lparr>pg_title := title, pg_content := content, pg_cover := cover,
                       pg_last_editor := (if pr_actor prop = [] then pg_last_editor p else Some (pr_actor prop)),
                       pg_last_edited_at := Some now\<rparr>
                else numbered
            | None \<Rightarrow> numbered)
      in case commit_version (pc_now c) space updated (gone @ replaced @ absorbed) (ep_sides plan) db of
           (db', False) \<Rightarrow> (db', result_of RefusedEdit (Some ''gone'') (Some p))
         | (db', True) \<Rightarrow>
             (db', \<lparr>sr_outcome = (if ep_as_side plan then SideEdit else AppliedEdit), sr_reason = None,
                    sr_page = (case get_space_page space (pg_id p) db' of None \<Rightarrow> Some updated | Some s \<Rightarrow> Some s),
                    sr_created = unsequenced, sr_sides = ep_sides plan,
                    sr_previous = (if unsequenced then None else Some previous)\<rparr>))"

definition sequence_edit :: "page_env \<Rightarrow> page_call \<Rightarrow> string \<Rightarrow> page \<Rightarrow> proposal \<Rightarrow> page_db
    \<Rightarrow> exn + page_db \<times> sequence_result" where
  "sequence_edit env c space p0 prop0 db =
     (let sides0 = list_conflict_sides (pe_digest env) (pg_id p0) space db;
          cur_hash = body_hash (pe_digest env) (body_of_page p0);
          ph = proposal_hash (pe_digest env) prop0;
          sides = filter (\<lambda>s. cs_hash s \<notin> set (pr_resolves prop0)) sides0;
          retired = filter (\<lambda>s. cs_hash s \<in> set (pr_resolves prop0)) sides0;
          unsequenced = pg_seq p0 = 0;
          claimed = (case pr_base_seq prop0 of None \<Rightarrow> pg_seq p0 | Some n \<Rightarrow> n);
          regressed = pg_seq p0 < claimed
      in if (ph = cur_hash \<or> ph \<in> cs_hash ` set sides) \<and> retired = [] \<and> \<not> unsequenced \<and> \<not> regressed
         then Inr (db, result_of DuplicateEdit None (Some p0))
         else let beyond_step = regressed \<and> max_floor_step < claimed - pg_seq p0;
                  prop = (if beyond_step then prop0\<lparr>pr_base_seq := Some (pg_seq p0), pr_base_hash := None\<rparr> else prop0);
                  p = (if regressed \<and> \<not> beyond_step then p0\<lparr>pg_seq := min claimed (max_seq - 1)\<rparr> else p0)
           in if max_seq \<le> pg_seq p then Inr (db, result_of RefusedEdit (Some ''bad_base'') (Some p))
              else res_bind (plan_edit env c space p prop cur_hash ph regressed sides retired db) (\<lambda>plan.
                let changed_body = (case ep_body plan of None \<Rightarrow> False | Some b \<Rightarrow> b \<noteq> body_of_page p);
                    changed_sides = map cs_hash (ep_sides plan) \<noteq> map cs_hash sides0
                in if \<not> changed_body \<and> \<not> changed_sides \<and> \<not> unsequenced \<and> \<not> regressed
                   then Inr (db, result_of DuplicateEdit None (Some p))
                   else Inr (commit_plan c space p0 p prop plan db)))"

definition sequence_create :: "page_call \<Rightarrow> string \<Rightarrow> string \<Rightarrow> proposal \<Rightarrow> page_db \<Rightarrow> page_db \<times> sequence_result" where
  "sequence_create c space pid prop db =
     (if pr_base_seq prop \<notin> {None, Some 0} \<or> pr_created_by prop = []
      then (db, result_of RefusedEdit (Some ''gone'') None)
      else let now = iso_now (pc_now c);
               p = (page_defaults pid (pr_title prop) (pr_content prop) (pr_created_by prop) now now)
                     \<lparr>pg_space_id := Some space, pg_cover := pr_cover prop,
                      pg_last_editor := Some (or_text (pr_actor prop) (pr_created_by prop)),
                      pg_last_edited_at := Some now, pg_seq := 1\<rparr>
        in case save_page (pc_now c) space p db of
             (db', False) \<Rightarrow> (db', result_of RefusedEdit (Some ''gone'') None)
           | (db', True) \<Rightarrow>
               (db', (result_of AppliedEdit None
                  (case get_space_page space pid db' of None \<Rightarrow> Some p | Some s \<Rightarrow> Some s))\<lparr>sr_created := True\<rparr>))"

section \<open>Publishing\<close>

definition is_remote :: "page_env \<Rightarrow> string \<Rightarrow> bool" where
  "is_remote env proposer \<longleftrightarrow> proposer \<noteq> [] \<and> proposer \<noteq> pe_own env"

text \<open>\<open>_ack\<close>: a targeted answer, if there is a federation and the peer speaks the protocol.\<close>

definition send_ack :: "page_env \<Rightarrow> string \<Rightarrow> string \<Rightarrow> page option \<Rightarrow> sequenced \<Rightarrow> string \<Rightarrow> page_engine \<Rightarrow> page_engine" where
  "send_ack env space pid p sq proposer st =
     (if \<not> pe_federated env \<or> proposer = [] \<or> \<not> pe_supports env proposer then st
      else emit (AckSent proposer pid
             (ack_payload (pe_digest env) space pid p (list_conflict_sides (pe_digest env) pid space (en_db st)) sq)) st)"

definition answer_hash :: "page_env \<Rightarrow> proposal \<Rightarrow> string" where
  "answer_hash env prop = or_text (pr_answers prop) (proposal_hash (pe_digest env) prop)"

definition publish_result :: "page_env \<Rightarrow> sequence_result \<Rightarrow> string \<Rightarrow> string \<Rightarrow> proposal \<Rightarrow> string \<Rightarrow> page_engine \<Rightarrow> page_engine" where
  "publish_result env res space pid prop proposer st =
     (let sq = \<lparr>sq_proposer = or_text proposer (pe_own env), sq_hash = answer_hash env prop,
                sq_outcome = (if sr_outcome res = RefusedEdit then ''refused'' else ''applied''), sq_reason = sr_reason res\<rparr>
      in case (sr_outcome res \<in> {AppliedEdit, SideEdit}, sr_page res) of
           (True, Some p) \<Rightarrow>
             (let st' = emit (Broadcast space p (pr_actor prop) (sr_sides res) (Some sq) (sr_created res) (sr_previous res)) st
              in if sr_outcome res = SideEdit
                 then emit (ConflictEmitted space pid (pr_content prop) (pr_actor prop) (is_remote env proposer)) st' else st')
         | _ \<Rightarrow> if is_remote env proposer then send_ack env space pid (sr_page res) sq proposer st else st)"

definition limited :: "page_call \<Rightarrow> string \<Rightarrow> int \<Rightarrow> int \<Rightarrow> page_engine \<Rightarrow> bool \<times> page_engine" where
  "limited c key limit window st =
     (case rl_is_allowed (pc_mono c) key limit window (en_limiter st) of (ok, w) \<Rightarrow> (ok, st\<lparr>en_limiter := w\<rparr>))"

definition refuse :: "page_env \<Rightarrow> page_call \<Rightarrow> string \<Rightarrow> string \<Rightarrow> string \<Rightarrow> string \<Rightarrow> string \<Rightarrow> page_engine \<Rightarrow> page_engine" where
  "refuse env c space pid prop_hash proposer reason st =
     (case limited c (''page-refusals:'' @ proposer @ '':'' @ space @ '':'' @ pid) 1 60 st of
        (False, st1) \<Rightarrow> st1
      | (True, st1) \<Rightarrow>
          (case limited c (''page-refusals:'' @ proposer @ '':'' @ space) refusals_per_sender_per_minute 60 st1 of
             (False, st2) \<Rightarrow> st2
           | (True, st2) \<Rightarrow>
               send_ack env space pid
                 (if reason \<in> set stateless_refusals then None else get_space_page space pid (en_db st2))
                 \<lparr>sq_proposer = proposer, sq_hash = prop_hash, sq_outcome = ''refused'', sq_reason = Some reason\<rparr>
                 proposer st2))"

section \<open>The entry points of the host\<close>

definition sequence_locked :: "page_env \<Rightarrow> page_call \<Rightarrow> string \<Rightarrow> string \<Rightarrow> proposal \<Rightarrow> page_db \<Rightarrow> exn + page_db \<times> sequence_result" where
  "sequence_locked env c space pid prop db =
     (case get_space_page space pid db of
        None \<Rightarrow> Inr (sequence_create c space pid prop db)
      | Some p \<Rightarrow> sequence_edit env c space p prop db)"

definition sequence :: "page_env \<Rightarrow> page_call \<Rightarrow> string \<Rightarrow> string \<Rightarrow> proposal \<Rightarrow> string \<Rightarrow> page_engine
    \<Rightarrow> exn + page_engine \<times> sequence_result" where
  "sequence env c space pid prop proposer st =
     (let (ok, st1) = (if is_remote env proposer
            then limited c (''page-proposals:'' @ proposer @ '':'' @ space) proposals_per_minute 60 st else (True, st))
      in if \<not> ok
         then Inr (refuse env c space pid (answer_hash env prop) proposer ''rate_limited'' st1,
                   result_of RefusedEdit (Some ''rate_limited'') None)
         else res_bind (sequence_locked env c space pid prop (en_db st1)) (\<lambda>(db', res).
                Inr (publish_result env res space pid prop proposer (st1\<lparr>en_db := db'\<rparr>), res)))"

text \<open>A local patch: a key that is absent keeps the page's value.\<close>

record page_patch =
  pp_title :: "string option"
  pp_content :: "string option option"
  pp_cover :: "string option option"

definition commit_local :: "page_env \<Rightarrow> page_call \<Rightarrow> string \<Rightarrow> string \<Rightarrow> string \<Rightarrow> page_patch \<Rightarrow> string list
    \<Rightarrow> (page \<Rightarrow> exn option) \<Rightarrow> page_engine \<Rightarrow> exn + page_engine \<times> page" where
  "commit_local env c space pid actor patch resolves precheck st =
     (case get_space_page space pid (en_db st) of
        None \<Rightarrow> Inl PyOtherError
      | Some p \<Rightarrow>
          (case precheck p of
             Some e \<Rightarrow> Inl e
           | None \<Rightarrow>
               let prop = \<lparr>pr_title = (case pp_title patch of None \<Rightarrow> pg_title p | Some t \<Rightarrow> t),
                     pr_content = (case pp_content patch of None \<Rightarrow> pg_content p | Some v \<Rightarrow> or_empty v),
                     pr_cover = (case pp_cover patch of None \<Rightarrow> pg_cover p | Some v \<Rightarrow> v),
                     pr_actor = actor, pr_base_seq = Some (pg_seq p), pr_base_hash = None, pr_resolves = resolves,
                     pr_created_by = [], pr_answers = []\<rparr>
               in res_bind (sequence_edit env c space p prop (en_db st)) (\<lambda>(db', res).
                    Inr (publish_result env res space pid prop [] (st\<lparr>en_db := db'\<rparr>),
                         case sr_page res of None \<Rightarrow> p | Some q \<Rightarrow> q))))"

definition host_create :: "page_env \<Rightarrow> page_call \<Rightarrow> page \<Rightarrow> string \<Rightarrow> page_engine \<Rightarrow> exn + page_engine \<times> page" where
  "host_create env c p actor st =
     (let space = or_empty (pg_space_id p); first = p\<lparr>pg_seq := 1, pg_pending := None\<rparr>
      in case save_page (pc_now c) space first (en_db st) of
           (db', False) \<Rightarrow> Inl PyOtherError
         | (db', True) \<Rightarrow>
             let result = (case get_space_page space (pg_id p) db' of None \<Rightarrow> first | Some s \<Rightarrow> s)
             in Inr (emit (Broadcast space result actor [] None True None) (st\<lparr>en_db := db'\<rparr>), result))"

text \<open>
  The archived-space gate refused a write (\<open>on_archived_write\<close>): \<open>page_write\<close> says the event is a page
  creation or update, \<open>owner\<close> is the space's owner household.
\<close>

definition on_archived_write :: "page_env \<Rightarrow> page_call \<Rightarrow> string option \<Rightarrow> string \<Rightarrow> bool \<Rightarrow> json \<Rightarrow> string \<Rightarrow> page_engine \<Rightarrow> page_engine" where
  "on_archived_write env c owner space page_write payload from_instance st =
     (if owner \<noteq> Some (pe_own env) \<or> \<not> page_write then st
      else let p = (case payload of JObj d \<Rightarrow> d | _ \<Rightarrow> [])
        in if \<not> has_key p ''base_seq'' \<or> has_key p ''sequenced'' then st
           else let pid = either_str (pe_py_str env) (jget p ''id'') (jget p ''page_id'')
             in case proposal_from_wire (pe_py_str env) p of
                  None \<Rightarrow> st
                | Some prop \<Rightarrow> if pid = [] then st
                    else refuse env c space pid (proposal_hash (pe_digest env) prop) from_instance ''archived'' st)"

text \<open>The sequence floor a member's sync record may raise.\<close>

definition floor_raises :: "(string \<times> string) \<Rightarrow> rat \<Rightarrow> page_engine \<Rightarrow> (rat \<times> int) list" where
  "floor_raises key now st =
     filter (\<lambda>(t, n). now - t < 86400) (case map_of (en_floor_raised st) key of None \<Rightarrow> [] | Some ts \<Rightarrow> ts)"

definition raise_floor :: "page_call \<Rightarrow> string \<Rightarrow> string \<Rightarrow> int \<Rightarrow> string \<Rightarrow> page_engine \<Rightarrow> page_engine \<times> bool" where
  "raise_floor c space pid seq provider st =
     (if seq \<le> 0 \<or> max_seq < seq then (st, False)
      else case limited c (''page-floor-hint:'' @ provider @ '':'' @ space @ '':'' @ pid) 1 floor_hint_window_s st of
        (False, st1) \<Rightarrow> (st1, False)
      | (True, st1) \<Rightarrow>
          (case get_space_page space pid (en_db st1) of
             None \<Rightarrow> (st1, False)
           | Some p \<Rightarrow>
               if seq \<le> pg_seq p then (st1, False)
               else let flr = min seq (max_seq - 1); amount = flr - pg_seq p;
                        recent = floor_raises (space, pid) (pc_mono c) st1;
                        spent = sum_list (map snd recent)
                 in if max_floor_step < amount \<or> max_floor_raise_per_day < spent + amount then (st1, False)
                    else case limited c (''page-floor-raises:'' @ provider @ '':'' @ space)
                                floor_raises_per_provider_per_hour 3600 st1 of
                      (False, st2) \<Rightarrow> (st2, False)
                    | (True, st2) \<Rightarrow>
                        (case raise_seq pid space flr (en_db st2) of
                           (db', raised) \<Rightarrow>
                             (st2\<lparr>en_db := db', en_floor_raised := AList.update (space, pid)
                                    (if raised then recent @ [(pc_mono c, amount)] else recent) (en_floor_raised st2)\<rparr>,
                              raised))))"

definition delete_page :: "page_env \<Rightarrow> string \<Rightarrow> string \<Rightarrow> string \<Rightarrow> string \<Rightarrow> string \<Rightarrow> page_db \<Rightarrow> page_db \<times> bool" where
  "delete_page env sql_now space pid deleted_by from_instance db =
     (let (mode, host) = page_mode_of env space;
          confirmed = (mode = HostMode \<or> (from_instance \<noteq> [] \<and> from_instance = host))
      in case delete_space_page sql_now pid space deleted_by confirmed db of
           (db', True) \<Rightarrow> (db', True)
         | (db', False) \<Rightarrow> if confirmed then confirm_delete pid space db' else (db', False))"

end
