(* ===== verification/Page_Member.thy ===== *)
theory Page_Member
  imports Page_Host
begin

text \<open>
  The member side of the page engine (\<open>PageConflictService\<close>): optimistic drafts, the proposal a draft stands
  for, mirroring the host's versions by \<open>seq\<close>, settling a draft, and the resolutions of a conflict.  Like the
  host side every call is one function under the page lock.
\<close>

section \<open>Drafts\<close>

definition opt_else :: "'a option \<Rightarrow> 'a \<Rightarrow> 'a" where
  "opt_else x d = (case x of None \<Rightarrow> d | Some y \<Rightarrow> y)"

text \<open>\<open>_capped\<close>: only sides still open, at most what one proposal may carry.\<close>

definition capped_resolves :: "string set \<Rightarrow> string list \<Rightarrow> string list" where
  "capped_resolves open_now rs = take max_resolves (dict_fromkeys (filter (\<lambda>r. r \<in> open_now) rs))"

definition member_draft :: "page_env \<Rightarrow> page_call \<Rightarrow> page \<Rightarrow> page \<Rightarrow> string \<Rightarrow> string list \<Rightarrow> page_db \<Rightarrow> page_db \<times> page" where
  "member_draft env c p updated space resolves db =
     (let open_now = (if resolves = [] then {} else set (map cs_hash (list_conflict_sides (pe_digest env) (pg_id p) space db)));
          db1 = (if pg_pending p = None
            then set_draft_base (pg_id p) space
                   \<lparr>bs_title = pg_title p, bs_content = pg_content p, bs_seq = pg_seq p, bs_by = page_editor p,
                    bs_cover = pg_cover p, bs_resolves = capped_resolves open_now resolves, bs_sent = None\<rparr> db
            else if resolves = [] then db
            else case get_draft_base (pg_id p) space db of
                None \<Rightarrow> db
              | Some b \<Rightarrow> set_draft_base (pg_id p) space
                  (b\<lparr>bs_resolves := capped_resolves open_now (resolves @ bs_resolves b)\<rparr>) db);
          draft = updated\<lparr>pg_seq := pg_seq p, pg_pending := Some (opt_else (pg_pending p) (pg_seq p))\<rparr>;
          db2 = fst (save_page (pc_now c) space draft db1)
      in (db2, opt_else (get_space_page space (pg_id p) db2) draft))"

definition member_create :: "page_call \<Rightarrow> page \<Rightarrow> page_db \<Rightarrow> page_db \<times> page" where
  "member_create c p db =
     (let space = or_empty (pg_space_id p);
          draft = p\<lparr>pg_seq := 0, pg_pending := Some 0\<rparr>;
          db1 = set_draft_base (pg_id p) space
            \<lparr>bs_title = [], bs_content = [], bs_seq = 0, bs_by = pg_created_by p, bs_cover = None,
             bs_resolves = [], bs_sent = None\<rparr> (fst (save_page (pc_now c) space draft db))
      in (db1, opt_else (get_space_page space (pg_id p) db1) draft))"

definition proposal_for :: "page_env \<Rightarrow> string \<Rightarrow> string \<Rightarrow> page_db \<Rightarrow> proposal option" where
  "proposal_for env space pid db =
     (case get_space_page space pid db of
        None \<Rightarrow> None
      | Some p \<Rightarrow>
          (case pg_pending p of
             None \<Rightarrow> None
           | Some n \<Rightarrow>
               let base = get_draft_base pid space db
               in Some \<lparr>pr_title = pg_title p, pr_content = pg_content p, pr_cover = pg_cover p,
                    pr_actor = page_editor p, pr_base_seq = Some n,
                    pr_base_hash = (case base of None \<Rightarrow> None
                      | Some b \<Rightarrow> if 0 < n then Some (version_hash (pe_digest env) (bs_title b) (bs_content b) (bs_cover b)) else None),
                    pr_resolves = (case base of None \<Rightarrow> [] | Some b \<Rightarrow> bs_resolves b),
                    pr_created_by = (if n = 0 then pg_created_by p else []), pr_answers = []\<rparr>))"

definition rebase_draft :: "page_call \<Rightarrow> string \<Rightarrow> string \<Rightarrow> proposal \<Rightarrow> int \<Rightarrow> page_db \<Rightarrow> page_db" where
  "rebase_draft c space pid sent seq db =
     (case get_space_page space pid db of
        None \<Rightarrow> db
      | Some p \<Rightarrow>
          (case pg_pending p of
             None \<Rightarrow> db
           | Some n \<Rightarrow>
               if seq < n then db
               else let b = get_draft_base pid space db;
                        db1 = set_draft_base pid space
                          \<lparr>bs_title = pr_title sent, bs_content = pr_content sent, bs_seq = seq, bs_by = pr_actor sent,
                           bs_cover = pr_cover sent, bs_resolves = (case b of None \<Rightarrow> [] | Some b \<Rightarrow> bs_resolves b),
                           bs_sent = None\<rparr> db
                 in fst (save_page (pc_now c) space (p\<lparr>pg_pending := Some seq\<rparr>) db1)))"

definition mark_sent :: "page_env \<Rightarrow> string \<Rightarrow> string \<Rightarrow> string \<Rightarrow> page_db \<Rightarrow> page_db" where
  "mark_sent env space pid ph db =
     (case get_space_page space pid db of
        None \<Rightarrow> db
      | Some p \<Rightarrow>
          if pg_pending p = None \<or> body_hash (pe_digest env) (body_of_page p) \<noteq> ph then db
          else case get_draft_base pid space db of
              None \<Rightarrow> db
            | Some b \<Rightarrow> if bs_sent b = Some ph then db else set_draft_base pid space (b\<lparr>bs_sent := Some ph\<rparr>) db)"

section \<open>Mirroring\<close>

definition holds_sent_draft :: "page_env \<Rightarrow> string \<Rightarrow> page \<Rightarrow> string \<Rightarrow> canonical_version \<Rightarrow> page_db \<Rightarrow> bool" where
  "holds_sent_draft env space p draft_hash v db =
     (case get_draft_base (pg_id p) space db of
        None \<Rightarrow> False
      | Some b \<Rightarrow>
          if bs_sent b \<noteq> Some draft_hash \<or> bs_resolves b \<noteq> [] then False
          else if body_hash (pe_digest env) (body_of_canonical v) = draft_hash then True
          else list_ex (\<lambda>s. cs_hash s = draft_hash \<and> cs_by s = page_editor p \<and> Some (cs_base_seq s) = pg_pending p)
                 (cv_conflict v))"

definition settle_late :: "page_call \<Rightarrow> string \<Rightarrow> page \<Rightarrow> page_db \<Rightarrow> page_db" where
  "settle_late c space p db =
     (let settled = p\<lparr>pg_pending := None\<rparr>;
          shown = (case list_versions (pg_id p) (Some space) db of
              [] \<Rightarrow> settled
            | v # vs \<Rightarrow>
                let newest = foldl (\<lambda>m w. if pv_number m < pv_number w then w else m) v vs
                in settled\<lparr>pg_title := pv_title newest, pg_content := pv_content newest, pg_cover := pv_cover newest,
                     pg_last_editor := (if pv_by newest = [] then pg_last_editor p else Some (pv_by newest))\<rparr>)
      in clear_draft_base (pg_id p) space (fst (save_page (pc_now c) space shown db)))"

definition mirror_create :: "page_call \<Rightarrow> string \<Rightarrow> string \<Rightarrow> canonical_version \<Rightarrow> page_db \<Rightarrow> page_db \<times> bool" where
  "mirror_create c space pid v db =
     (if \<not> cv_has_state v \<or> cv_created_by v = [] then (db, False)
      else let now = iso_now (pc_now c);
               p = (page_defaults pid (cv_title v) (cv_content v) (cv_created_by v)
                      (or_text (cv_created_at v) now) (or_text (cv_updated_at v) now))
                     \<lparr>pg_space_id := Some space, pg_cover := cv_cover v,
                      pg_last_editor := Some (or_text (cv_last_editor v) (cv_created_by v)),
                      pg_last_edited_at := Some (or_text (cv_updated_at v) now), pg_seq := cv_seq v\<rparr>
        in case save_page (pc_now c) space p db of
             (db1, False) \<Rightarrow> (db1, False)
           | (db1, True) \<Rightarrow> (set_conflict_sides pid space (cv_conflict v) db1, True))"

definition mirrored_page :: "page_call \<Rightarrow> page \<Rightarrow> canonical_version \<Rightarrow> page" where
  "mirrored_page c p v =
     (let stamp = or_text (cv_updated_at v) (iso_now (pc_now c))
      in p\<lparr>pg_title := cv_title v, pg_content := cv_content v, pg_cover := cv_cover v, pg_updated_at := stamp,
           pg_last_editor := (if cv_last_editor v = [] then pg_last_editor p else Some (cv_last_editor v)),
           pg_last_edited_at := Some stamp, pg_seq := cv_seq v, pg_pending := None\<rparr>)"

definition mirror_apply :: "page_env \<Rightarrow> page_call \<Rightarrow> string \<Rightarrow> page \<Rightarrow> canonical_version \<Rightarrow> bool \<Rightarrow> bool \<Rightarrow> page_engine \<Rightarrow> page_engine" where
  "mirror_apply env c space p v keep_draft rem st =
     (if \<not> cv_has_state v then st
      else let db = en_db st;
               before = map cs_hash (list_conflict_sides (pe_digest env) (pg_id p) space db);
               (updated, db1) =
                 (if keep_draft
                  then (p\<lparr>pg_seq := cv_seq v\<rparr>, remember c p space (body_of_canonical v) (cv_last_editor v) db)
                  else (mirrored_page c p v,
                        clear_draft_base (pg_id p) space
                          (if rem \<and> pg_pending p = None \<and> body_of_page p \<noteq> body_of_canonical v
                           then remember_page c p space db else db)));
               db2 = fst (save_page (pc_now c) space updated db1);
               db3 = set_conflict_sides (pg_id p) space (cv_conflict v) db2;
               added = filter (\<lambda>s. cs_hash s \<notin> set before) (cv_conflict v);
               st1 = st\<lparr>en_db := db3\<rparr>
           in if added = [] then st1
              else emit (ConflictEmitted space (pg_id p) (cs_content (last added)) (cs_by (last added)) True) st1)"

definition settle_refusal :: "page_env \<Rightarrow> page_call \<Rightarrow> string \<Rightarrow> page \<Rightarrow> canonical_version \<Rightarrow> sequenced \<Rightarrow> page_engine
    \<Rightarrow> page_engine \<times> page_output" where
  "settle_refusal env c space p v sq st =
     (let reason = (case sq_reason sq of None \<Rightarrow> ''access'' | Some r \<Rightarrow> or_text r ''access'');
          st1 =
            (if reason = ''gone''
             then st\<lparr>en_db := clear_draft_base (pg_id p) space
                     (fst (save_page (pc_now c) space (p\<lparr>pg_pending := None\<rparr>) (en_db st)))\<rparr>
             else if reason \<in> {''rate_limited'', ''bad_base''} then st
             else if cv_has_state v \<and> pg_seq p \<le> cv_seq v then mirror_apply env c space p v False True st
             else let p0 = p\<lparr>pg_pending := None\<rparr>;
                      restored = (case get_draft_base (pg_id p) space (en_db st) of
                          None \<Rightarrow> p0
                        | Some b \<Rightarrow> if bs_title b = [] then p0
                            else p0\<lparr>pg_title := bs_title b, pg_content := bs_content b, pg_cover := bs_cover b\<rparr>)
                  in st\<lparr>en_db := clear_draft_base (pg_id p) space
                          (fst (save_page (pc_now c) space restored (en_db st)))\<rparr>)
      in (st1, ProposalSettled space (pg_id p) (sq_hash sq) ''refused'' (Some reason) (cv_seq v)))"

text \<open>The part of \<open>mirror\<close> for a page that is here; \<open>settled\<close> is emitted after the lock is released.\<close>

definition mirror_page :: "page_env \<Rightarrow> page_call \<Rightarrow> string \<Rightarrow> page \<Rightarrow> canonical_version \<Rightarrow> bool \<Rightarrow> page_engine
    \<Rightarrow> page_engine \<times> bool \<times> page_output option" where
  "mirror_page env c space p v revived st =
     (let pid = pg_id p;
          draft_hash = (if pg_pending p = None then None else Some (body_hash (pe_digest env) (body_of_page p)));
          ours = (case cv_sequenced v of None \<Rightarrow> None
                  | Some sq \<Rightarrow> if sq_proposer sq = pe_own env then Some sq else None);
          answers_draft = (case ours of None \<Rightarrow> False | Some sq \<Rightarrow> Some (sq_hash sq) = draft_hash)
      in if answers_draft \<and> (case ours of None \<Rightarrow> False | Some sq \<Rightarrow> sq_outcome sq = ''refused'')
         then (case settle_refusal env c space p v (the ours) st of (st', o') \<Rightarrow> (st', True, Some o'))
         else if pg_seq p < cv_seq v \<or> (answers_draft \<and> pg_seq p \<le> cv_seq v)
         then (let held = (case draft_hash of None \<Rightarrow> False
                            | Some h \<Rightarrow> holds_sent_draft env space p h v (en_db st));
                   settles = answers_draft \<or> held;
                   st' = mirror_apply env c space p v (draft_hash \<noteq> None \<and> \<not> settles) (\<not> revived) st
               in (st', True,
                   case (settles, draft_hash) of
                     (True, Some h) \<Rightarrow> Some (ProposalSettled space pid h ''applied'' None (cv_seq v))
                   | _ \<Rightarrow> (case ours of None \<Rightarrow> None
                          | Some sq \<Rightarrow> Some (ProposalSettled space pid (sq_hash sq) (sq_outcome sq) (sq_reason sq) (cv_seq v)))))
         else if answers_draft
         then (st\<lparr>en_db := settle_late c space p (en_db st)\<rparr>, True,
               Some (ProposalSettled space pid (sq_hash (the ours)) ''applied'' None (cv_seq v)))
         else (st, False,
               case ours of None \<Rightarrow> None
               | Some sq \<Rightarrow> Some (ProposalSettled space pid (sq_hash sq) (sq_outcome sq) (sq_reason sq) (cv_seq v))))"

definition mirror :: "page_env \<Rightarrow> page_call \<Rightarrow> string \<Rightarrow> string \<Rightarrow> canonical_version \<Rightarrow> page_engine \<Rightarrow> page_engine \<times> bool" where
  "mirror env c space pid v st =
     (let (st1, revived) =
            (if get_space_page space pid (en_db st) = None \<and> cv_has_state v \<and> 1 \<le> cv_seq v
             then (case revive_page pid space (cv_seq v) (en_db st) of (db', r) \<Rightarrow> (st\<lparr>en_db := db'\<rparr>, r))
             else (st, False))
      in case get_space_page space pid (en_db st1) of
           None \<Rightarrow> (case mirror_create c space pid v (en_db st1) of (db', ok) \<Rightarrow> (st1\<lparr>en_db := db'\<rparr>, ok))
         | Some p \<Rightarrow>
             (case mirror_page env c space p v revived st1 of
                (st2, changed, settled) \<Rightarrow>
                  ((case settled of None \<Rightarrow> st2 | Some o' \<Rightarrow> emit o' st2), changed)))"

section \<open>A host below version 48\<close>

definition legacy_apply :: "page_call \<Rightarrow> page \<Rightarrow> page \<Rightarrow> string \<Rightarrow> page_db \<Rightarrow> page_db" where
  "legacy_apply c p incoming space db =
     (let db1 = (if body_of_page p \<noteq> body_of_page incoming then remember_page c p space db else db)
      in fst (save_page (pc_now c) space
           (p\<lparr>pg_title := pg_title incoming, pg_content := pg_content incoming, pg_cover := pg_cover incoming,
              pg_updated_at := or_text (pg_updated_at incoming) (iso_now (pc_now c)),
              pg_last_editor := (if or_empty (pg_last_editor incoming) = [] then pg_last_editor p else pg_last_editor incoming)\<rparr>)
           db1))"

section \<open>Resolving\<close>

datatype resolve_error = StaleSides "string list" | MissingMerge

text \<open>\<open>max(others, key=lambda s: s.at)\<close>: the first of the newest.\<close>

definition newest_side :: "conflict_side \<Rightarrow> conflict_side list \<Rightarrow> conflict_side" where
  "newest_side s ss = foldl (\<lambda>m w. if cs_at m < cs_at w then w else m) s ss"

definition resolution_body :: "(string \<Rightarrow> string) \<Rightarrow> page \<Rightarrow> conflict_side list \<Rightarrow> string \<Rightarrow> string option \<Rightarrow> string option
    \<Rightarrow> resolve_error + page_body" where
  "resolution_body digest p open_sides resolution side merged_content =
     (let current = body_hash digest (body_of_page p)
      in if resolution = ''side'' then
           (case find (\<lambda>s. Some (cs_hash s) = side) open_sides of
              None \<Rightarrow> if side = Some current then Inr (body_of_page p) else Inl (StaleSides (map cs_hash open_sides))
            | Some s \<Rightarrow> Inr (body_of_side s))
         else if resolution = ''mine'' then Inr (body_of_page p)
         else if resolution = ''theirs'' then
           (case filter (\<lambda>s. cs_hash s \<noteq> current) open_sides of
              [] \<Rightarrow> Inr (body_of_page p)
            | s # ss \<Rightarrow> Inr (body_of_side (newest_side s ss)))
         else if or_empty merged_content = [] then Inl MissingMerge
         else Inr (pg_title p, or_empty merged_content, pg_cover p))"

end
