(* ===== verification/Page_Store_Facts.thy ===== *)
theory Page_Store_Facts
  imports Page_Store
begin

text \<open>
  Facts about the page tables that the services rely on: what the sides and the history hold after a
  committed step.
\<close>

section \<open>Conflict sides\<close>

text \<open>The primary key of \<open>space_page_snapshots\<close>.\<close>

definition snapshot_keys :: "snapshot_row list \<Rightarrow> (string \<times> string) list" where
  "snapshot_keys rows = map (\<lambda>s. (sn_page s, sn_at s)) rows"

text \<open>A side as it comes back from the table: its hash recomputed, an empty cover as none.\<close>

definition normal_side :: "(string \<Rightarrow> string) \<Rightarrow> conflict_side \<Rightarrow> conflict_side" where
  "normal_side digest s = s\<lparr>cs_hash := body_hash digest (body_of_side s), cs_cover := truthy_opt (cs_cover s)\<rparr>"

lemma or_empty_truthy [simp]: "or_empty (truthy_opt v) = or_empty v"
  by (cases v) (simp_all add: or_empty_def truthy_opt_def)

lemma truthy_idem [simp]: "truthy_opt (truthy_opt v) = truthy_opt v"
  by (cases v) (simp_all add: truthy_opt_def)

lemma version_hash_truthy [simp]: "version_hash digest t c (truthy_opt v) = version_hash digest t c v"
  by (simp add: version_hash_def version_text_def)

lemma normal_side_simps [simp]:
  "cs_at (normal_side digest s) = cs_at s" "cs_by (normal_side digest s) = cs_by s"
  "cs_title (normal_side digest s) = cs_title s" "cs_content (normal_side digest s) = cs_content s"
  "cs_base_seq (normal_side digest s) = cs_base_seq s" "cs_cover (normal_side digest s) = truthy_opt (cs_cover s)"
  "cs_hash (normal_side digest s) = version_hash digest (cs_title s) (cs_content s) (cs_cover s)"
  by (simp_all add: normal_side_def body_hash_def body_of_side_def)

lemma side_of_side_row [simp]: "side_of_row digest fallback (side_row pid space s) = normal_side digest s"
  by (simp add: side_of_row_def side_row_def encode_side_body_def normal_side_def body_hash_def body_of_side_def)

lemma side_row_simps [simp]:
  "sn_page (side_row pid space s) = pid" "sn_at (side_row pid space s) = cs_at s" "is_open_side pid space (side_row pid space s)"
  by (simp_all add: side_row_def is_open_side_def)

lemma fold_put_open:
  assumes "distinct (map cs_at (old @ sides))" "filter (is_open_side pid space) rows = map (side_row pid space) old"
  shows "filter (is_open_side pid space) (fold put_snapshot (map (side_row pid space) sides) rows)
    = map (side_row pid space) (old @ sides)"
  using assms
proof (induction sides arbitrary: old rows)
  case (Cons s sides)
  have "filter (is_open_side pid space) (put_snapshot (side_row pid space s) rows)
      = filter (\<lambda>r. \<not> (sn_page r = pid \<and> sn_at r = cs_at s)) (map (side_row pid space) old) @ [side_row pid space s]"
    using Cons.prems(2) by (simp add: put_snapshot_def filter_filter conj_commute flip: Cons.prems(2))
  also have "\<dots> = map (side_row pid space) (old @ [s])"
  proof -
    have "cs_at s \<notin> cs_at ` set old" using Cons.prems(1) by simp
    then have "\<forall>x \<in> set old. cs_at x \<noteq> cs_at s" by (metis imageI)
    then have "filter (\<lambda>x. cs_at x \<noteq> cs_at s) old = old" unfolding filter_id_conv .
    then show ?thesis by (simp add: filter_map o_def)
  qed
  finally show ?case using Cons.IH [of "old @ [s]" "put_snapshot (side_row pid space s) rows"] Cons.prems(1) by simp
qed simp

lemma open_after_replace:
  "distinct (map cs_at sides) \<Longrightarrow>
     filter (is_open_side pid space) (replace_sides pid space sides rows) = map (side_row pid space) sides"
  unfolding replace_sides_def using fold_put_open [of "[]" sides pid space] by simp

lemma insort_key_map: "insort_key f (g x) (map g xs) = map g (insort_key (\<lambda>y. f (g y)) x xs)"
  by (induction xs) auto

lemma sort_key_map: "sort_key f (map g xs) = map g (sort_key (\<lambda>y. f (g y)) xs)"
  by (induction xs) (simp_all add: insort_key_map)

lemma list_after_replace:
  assumes "distinct (map cs_at sides)"
  shows "list_conflict_sides digest pid space (db\<lparr>pd_snapshots := replace_sides pid space sides rows\<rparr>)
    = map (normal_side digest) (sort_key cs_at sides)"
  by (simp add: list_conflict_sides_def open_after_replace [OF assms] sort_key_map)

lemma put_snapshot_keys: "distinct (snapshot_keys rows) \<Longrightarrow> distinct (snapshot_keys (put_snapshot s rows))"
  by (auto simp: snapshot_keys_def put_snapshot_def distinct_map_filter)

lemma fold_put_keys: "distinct (snapshot_keys rows) \<Longrightarrow> distinct (snapshot_keys (fold put_snapshot ss rows))"
  by (induction ss arbitrary: rows) (simp_all add: put_snapshot_keys)

lemma filter_keys: "distinct (snapshot_keys rows) \<Longrightarrow> distinct (snapshot_keys (filter P rows))"
  by (simp add: snapshot_keys_def distinct_map_filter)

lemma replace_keys: "distinct (snapshot_keys rows) \<Longrightarrow> distinct (snapshot_keys (replace_sides pid space sides rows))"
  by (simp add: replace_sides_def fold_put_keys filter_keys)

lemma open_sides_distinct_at:
  assumes "distinct (snapshot_keys (pd_snapshots db))"
  shows "distinct (map cs_at (list_conflict_sides digest pid space db))"
proof -
  let ?open = "filter (is_open_side pid space) (pd_snapshots db)"
  have "distinct (map sn_at ?open)"
    using filter_keys [OF assms, of "is_open_side pid space"]
    by (auto simp: snapshot_keys_def distinct_map inj_on_def is_open_side_def)
  then have "distinct (map sn_at (sort_key sn_at ?open))" by (simp add: distinct_map)
  then show ?thesis by (simp add: list_conflict_sides_def side_of_row_def Let_def o_def)
qed

lemma listed_side_normal: "s \<in> set (list_conflict_sides digest pid space db) \<Longrightarrow>
    cs_hash s = version_hash digest (cs_title s) (cs_content s) (cs_cover s)"
  by (auto simp: list_conflict_sides_def side_of_row_def Let_def)

section \<open>History\<close>

lemma fold_max: "fold max xs a = Max (insert a (set xs))" for a :: int
proof (induction xs arbitrary: a)
  case (Cons x xs)
  then show ?case by (cases "set xs = {}") (simp_all add: max.left_commute max.commute)
qed simp

lemma next_version_above: "v \<in> set hist \<Longrightarrow> pv_page v = pid \<Longrightarrow> pv_number v < next_version_number pid hist"
  by (simp add: next_version_number_def fold_max zle_add1_eq_le)

lemma next_version_snoc:
  "pv_page v = pid \<Longrightarrow> pv_number v = next_version_number pid hist \<Longrightarrow>
     next_version_number pid (hist @ [v]) = next_version_number pid hist + 1"
  by (simp add: next_version_number_def)

text \<open>The rows a step adds, with their numbers.\<close>

fun numbered :: "string \<Rightarrow> string \<Rightarrow> int \<Rightarrow> page_version list \<Rightarrow> page_version list" where
  "numbered pid space n [] = []"
| "numbered pid space n (v # vs) =
     v\<lparr>pv_page := pid, pv_space := Some space, pv_number := n\<rparr> # numbered pid space (n + 1) vs"

lemma insert_history_eq: "insert_history pid space vs hist = hist @ numbered pid space (next_version_number pid hist) vs"
  by (induction vs arbitrary: hist) (simp_all add: next_version_snoc)

lemma length_numbered [simp]: "length (numbered pid space n vs) = length vs"
  by (induction vs arbitrary: n) simp_all

lemma numbered_member: "v \<in> set (numbered pid space n vs) \<Longrightarrow>
    in_history pid (Some space) v \<and> n \<le> pv_number v \<and> body_of_version v \<in> body_of_version ` set vs"
  by (induction vs arbitrary: n) (force simp: in_history_def body_of_version_def)+

lemma numbered_bodies: "body_of_version ` set (numbered pid space n vs) = body_of_version ` set vs"
  by (induction vs arbitrary: n) (simp_all add: body_of_version_def)

lemma top_kept:
  fixes xs :: "int list"
  assumes "x \<in> set xs" "length (filter (\<lambda>y. x \<le> y) xs) \<le> n"
  shows "x \<in> set (take n (rev (sort xs)))"
proof -
  let ?ys = "rev (sort xs)"
  obtain i where i: "i < length ?ys" "?ys ! i = x" using assms(1) by (metis in_set_conv_nth set_rev set_sort)
  have "sorted_wrt (\<ge>) ?ys" by (simp add: sorted_wrt_rev)
  then have "\<forall>j \<le> i. x \<le> ?ys ! j" using i by (metis le_neq_implies_less order_refl sorted_wrt_nth_less)
  then have "\<forall>y \<in> set (take (Suc i) ?ys). x \<le> y" by (auto simp: in_set_conv_nth)
  then have "filter (\<lambda>y. x \<le> y) (take (Suc i) ?ys) = take (Suc i) ?ys" by (simp add: filter_id_conv)
  then have "Suc i \<le> length (filter (\<lambda>y. x \<le> y) ?ys)"
    using i(1) by (metis append_take_drop_id filter_append length_append length_take le_add1 min.absorb2 Suc_leI)
  also have "\<dots> = length (filter (\<lambda>y. x \<le> y) xs)"
    by (metis mset_filter mset_rev mset_sort size_mset)
  finally have "i < n" using assms(2) by simp
  then show ?thesis using i by (metis in_set_conv_nth length_take min_less_iff_conj nth_take)
qed

lemma prune_keeps:
  assumes "v \<in> set hist" "in_history pid space v"
    and "length (filter (\<lambda>w. in_history pid space w \<and> pv_number v \<le> pv_number w) hist) \<le> cap"
  shows "v \<in> set (prune_history pid space cap hist)"
proof -
  have "length (filter (\<lambda>y. pv_number v \<le> y) (map pv_number (filter (in_history pid space) hist))) \<le> cap"
    using assms(3) by (simp add: filter_map filter_filter o_def conj_commute)
  then have "pv_number v \<in> set (take cap (rev (sort (map pv_number (filter (in_history pid space) hist)))))"
    using assms(1,2) by (intro top_kept) auto
  then show ?thesis using assms(1,2) by (simp add: prune_history_def Let_def)
qed

text \<open>Every row a step writes survives the pruning of that step, as long as it writes no more than the cap.\<close>

lemma new_rows_survive:
  assumes "length vs \<le> max_space_history" "b \<in> body_of_version ` set vs"
  shows "\<exists>v \<in> set (prune_history pid (Some space) max_space_history (insert_history pid space vs hist)).
    in_history pid (Some space) v \<and> body_of_version v = b"
proof -
  let ?n = "next_version_number pid hist"
  let ?new = "numbered pid space ?n vs"
  obtain v where v: "v \<in> set ?new" "body_of_version v = b"
    using assms(2) numbered_bodies [of pid space ?n vs] by (metis imageE)
  note m = numbered_member [OF v(1)]
  have "filter (\<lambda>w. in_history pid (Some space) w \<and> pv_number v \<le> pv_number w) hist = []"
    using m next_version_above [of _ hist pid] by (fastforce simp: filter_empty_conv in_history_def)
  moreover have "length (filter (\<lambda>w. in_history pid (Some space) w \<and> pv_number v \<le> pv_number w) ?new) \<le> max_space_history"
    using assms(1) length_filter_le by (metis le_trans length_numbered)
  ultimately have "length (filter (\<lambda>w. in_history pid (Some space) w \<and> pv_number v \<le> pv_number w)
      (hist @ ?new)) \<le> max_space_history" by simp
  with v m show ?thesis unfolding insert_history_eq by (intro bexI [of _ v] prune_keeps) auto
qed

end
