(* ===== verification/Page_Host_Props.thy ===== *)
theory Page_Host_Props
  imports Page_Host Page_Store_Facts
begin

text \<open>
  The cases of a sequenced edit on the host: how a side is added, what a plan can be, and what a committed
  plan stores.
\<close>

section \<open>Sides\<close>

text \<open>
  Trimming stops at one side, so a side that is alone is exempt from the byte cap; the documentation, which caps
  the bodies of all sides together, does not say so.
\<close>

definition sides_capped :: "conflict_side list \<Rightarrow> bool" where
  "sides_capped ss \<longleftrightarrow> length ss \<le> 1 \<or> (length ss \<le> max_conflict_sides \<and> sides_bytes ss \<le> sides_max_bytes)"

lemma trim_sides_spec:
  "trim_sides ss rs = (ss', rs') \<Longrightarrow>
     \<exists>pre. ss = pre @ ss' \<and> rs' = rs @ pre \<and> (ss \<noteq> [] \<longrightarrow> ss' \<noteq> []) \<and> sides_capped ss'"
proof (induction ss rs rule: trim_sides.induct)
  case (1 s s' ss retired)
  show ?case
  proof (cases "max_conflict_sides < length (s # s' # ss) \<or> sides_max_bytes < sides_bytes (s # s' # ss)")
    case True
    then have "trim_sides (s' # ss) (retired @ [s]) = (ss', rs')" using "1.prems" by simp
    from "1.IH" [OF True this] obtain pre where "s' # ss = pre @ ss'" "rs' = (retired @ [s]) @ pre" "ss' \<noteq> []" "sides_capped ss'"
      by auto
    then show ?thesis by (intro exI [of _ "s # pre"]) simp
  next
    case False
    then show ?thesis using "1.prems" by (auto simp: sides_capped_def)
  qed
qed (auto simp: sides_capped_def)

lemma fresh_stamp_spec: "fresh_stamp taken us = Inr stamp \<Longrightarrow> stamp \<notin> set taken \<and> stamp \<noteq> []"
proof (induction taken us rule: fresh_stamp.induct)
  case (1 taken us)
  have "iso_micros us \<noteq> []" by (simp add: iso_micros_def)
  with 1 show ?case by (subst (asm) fresh_stamp.simps) (auto split: if_splits)
qed

definition new_side :: "proposal \<Rightarrow> string \<Rightarrow> string \<Rightarrow> conflict_side" where
  "new_side p ph stamp =
     \<lparr>cs_hash = ph, cs_title = pr_title p, cs_content = pr_content p, cs_by = pr_actor p, cs_at = stamp,
      cs_cover = pr_cover p, cs_base_seq = (case pr_base_seq p of None \<Rightarrow> 0 | Some n \<Rightarrow> n)\<rparr>"

lemma new_side_simps [simp]:
  "cs_hash (new_side p ph stamp) = ph" "cs_by (new_side p ph stamp) = pr_actor p" "cs_at (new_side p ph stamp) = stamp"
  "body_of_side (new_side p ph stamp) = body_of_proposal p"
  by (simp_all add: new_side_def body_of_side_def body_of_proposal_def)

lemma add_side_spec:
  assumes "add_side c p ph sides retired = Inr (ss, rs)" "distinct (map cs_at sides)" "distinct (map cs_by sides)"
  shows "\<exists>stamp. stamp \<noteq> [] \<and> new_side p ph stamp \<in> set ss \<and> set sides \<union> set retired \<union> {new_side p ph stamp} = set ss \<union> set rs
    \<and> set ss \<subseteq> insert (new_side p ph stamp) (set sides)
    \<and> distinct (map cs_at ss) \<and> distinct (map cs_by ss) \<and> sides_capped ss
    \<and> length rs \<le> length retired + length sides"
proof -
  let ?keep = "filter (\<lambda>s. cs_by s \<noteq> pr_actor p) sides"
  let ?out = "retired @ filter (\<lambda>s. cs_by s = pr_actor p) sides"
  obtain stamp where f: "fresh_stamp (map cs_at ?keep) (pc_now c) = Inr stamp"
    and t: "trim_sides (?keep @ [new_side p ph stamp]) ?out = (ss, rs)"
    using assms(1) by (auto simp: add_side_def res_bind_Inr Let_def new_side_def)
  note fs = fresh_stamp_spec [OF f]
  obtain pre where pre: "?keep @ [new_side p ph stamp] = pre @ ss" "rs = ?out @ pre" "ss \<noteq> []" "sides_capped ss"
    using trim_sides_spec [OF t] by auto
  have last: "last ss = new_side p ph stamp" using pre(1,3) by (metis last_appendR last_snoc)
  have d: "distinct (map cs_at (pre @ ss))" "distinct (map cs_by (pre @ ss))"
    using assms(2,3) fs unfolding pre(1) [symmetric] by (auto simp: distinct_map_filter)
  have all: "set (pre @ ss) = insert (new_side p ph stamp) (set ?keep)" unfolding pre(1) [symmetric] by simp
  have "length (pre @ ss) = Suc (length ?keep)" unfolding pre(1) [symmetric] by simp
  then have "length pre \<le> length ?keep" using pre(3) by (cases ss) auto
  moreover have "length ?keep + length (filter (\<lambda>s. cs_by s = pr_actor p) sides) = length sides"
    using sum_length_filter_compl [of "\<lambda>s. cs_by s \<noteq> pr_actor p" sides] by simp
  ultimately have "length rs \<le> length retired + length sides" unfolding pre(2) by simp
  moreover have "set sides \<union> set retired \<union> {new_side p ph stamp} = set ss \<union> set rs" using all unfolding pre(2) by auto
  moreover have "new_side p ph stamp \<in> set ss" using last pre(3) last_in_set by metis
  moreover have "set ss \<subseteq> insert (new_side p ph stamp) (set sides)" using all by auto
  ultimately show ?thesis using fs d pre(4) by auto
qed

section \<open>The plan\<close>

lemma plan_edit_cases [consumes 1, case_names keep pick forward merge side]:
  assumes "plan_edit env c space p prop cur ph regressed sides retired db = Inr plan"
  obtains
    "ph = cur" "ep_body plan = None" "ep_sides plan = sides" "ep_retired plan = retired"
  | "ph \<in> cs_hash ` set sides" "ep_body plan = Some (body_of_proposal prop)"
    "ep_sides plan = filter (\<lambda>s. cs_hash s \<noteq> ph) sides" "ep_retired plan = retired"
  | "ep_body plan = Some (body_of_proposal prop)" "ep_sides plan = sides" "ep_retired plan = retired"
  | base b where "pr_base_hash prop \<noteq> None" "find_base (pe_digest env) space p prop cur db = Some base"
    "merge_bodies base p prop = Inr (Some b)"
    "ep_body plan = Some b" "ep_absorbed plan" "ep_sides plan = sides" "ep_retired plan = retired"
  | "add_side c prop ph sides retired = Inr (ep_sides plan, ep_retired plan)" "ep_body plan = None" "ep_as_side plan"
proof -
  let ?base = "if pr_base_hash prop \<in> Some ` set (map cs_hash sides) then None
               else find_base (pe_digest env) space p prop cur db"
  show ?thesis
  proof (cases "ph = cur \<or> ph \<in> set (map cs_hash sides) \<or> pr_base_seq prop = None
      \<or> (pr_base_seq prop = Some (pg_seq p) \<and> (pr_base_hash prop = Some cur \<or> (pr_base_hash prop = None \<and> \<not> regressed)))")
    case True
    then show ?thesis
      using assms that(1-3) by (auto simp: plan_edit_def Let_def split: if_splits)
  next
    case False
    then obtain m where m: "(case ?base of None \<Rightarrow> Inr None | Some base \<Rightarrow> merge_bodies base p prop) = Inr m"
      and plan: "(case m of
           Some b \<Rightarrow> Inr \<lparr>ep_body = Some b, ep_as_side = False, ep_absorbed = True, ep_sides = sides, ep_retired = retired\<rparr>
         | None \<Rightarrow> res_bind (add_side c prop ph sides retired) (\<lambda>(sides', retired').
             Inr \<lparr>ep_body = None, ep_as_side = True, ep_absorbed = False, ep_sides = sides', ep_retired = retired'\<rparr>)) = Inr plan"
      using assms unfolding plan_edit_def by (auto simp: Let_def res_bind_Inr)
    show ?thesis
    proof (cases m)
      case None
      then show ?thesis using plan that(5) by (auto simp: res_bind_Inr)
    next
      case (Some b)
      then obtain base where base: "?base = Some base" "merge_bodies base p prop = Inr (Some b)"
        using m by (auto split: option.splits)
      then have "find_base (pe_digest env) space p prop cur db = Some base" by (auto split: if_splits)
      moreover from this have "pr_base_hash prop \<noteq> None" by (auto simp: find_base_def split: option.splits)
      ultimately show ?thesis using plan Some base(2) by (intro that(4)) auto
    qed
  qed
qed

section \<open>The committed page\<close>

lemma get_space_page_row:
  "get_space_page space pid db = Some p \<longleftrightarrow>
     (\<exists>r. pd_pages db pid = Some r \<and> pg_space_id (rw_page r) = Some space \<and> rw_deleted_at r = None \<and> rw_page r = p)"
  by (auto simp: get_space_page_def live_row_def split: option.splits if_splits)

lemma page_stamp_now [simp]: "pg_updated_at p = iso_now now \<Longrightarrow> page_stamp n p = iso_now now"
  by (simp add: page_stamp_def iso_now_def)

text \<open>The stored page after a step carries exactly the version columns of the page written.\<close>

definition same_version :: "page \<Rightarrow> page \<Rightarrow> bool" where
  "same_version p q \<longleftrightarrow> pg_id p = pg_id q \<and> body_of_page p = body_of_page q \<and> pg_seq p = pg_seq q
     \<and> pg_pending p = pg_pending q"

lemma commit_live:
  assumes "get_space_page space pid db = Some p" "pg_id p = pid" "pg_id u = pid"
  shows "\<exists>r q. commit_version now space u hist sides db =
      (db\<lparr>pd_history := (if hist = [] then pd_history db
             else prune_history pid (Some space) max_space_history (insert_history pid space hist (pd_history db))),
          pd_pages := (pd_pages db)(pid \<mapsto> r),
          pd_snapshots := replace_sides pid space sides (pd_snapshots db)\<rparr>, True)
    \<and> rw_page r = q \<and> same_version q u \<and> pg_space_id q = Some space \<and> rw_deleted_at r = None"
proof -
  obtain r where r: "pd_pages db pid = Some r" "pg_space_id (rw_page r) = Some space" "rw_deleted_at r = None" "rw_page r = p"
    using assms(1) by (auto simp: get_space_page_row)
  then show ?thesis
    using assms(2,3) by (auto simp: commit_version_def upsert_row_def Let_def same_version_def body_of_page_def)
qed

section \<open>The cases of a sequenced edit\<close>

text \<open>The page and the proposal the plan is made for: the claimed floor applied, or the claim dropped.\<close>

definition claim_of :: "page \<Rightarrow> proposal \<Rightarrow> int" where
  "claim_of p prop = (case pr_base_seq prop of None \<Rightarrow> pg_seq p | Some n \<Rightarrow> n)"

definition beyond_step :: "page \<Rightarrow> proposal \<Rightarrow> bool" where
  "beyond_step p prop \<longleftrightarrow> pg_seq p < claim_of p prop \<and> max_floor_step < claim_of p prop - pg_seq p"

definition floored_page :: "page \<Rightarrow> proposal \<Rightarrow> page" where
  "floored_page p prop = (if pg_seq p < claim_of p prop \<and> \<not> beyond_step p prop
     then p\<lparr>pg_seq := min (claim_of p prop) (max_seq - 1)\<rparr> else p)"

definition judged_proposal :: "page \<Rightarrow> proposal \<Rightarrow> proposal" where
  "judged_proposal p prop = (if beyond_step p prop then prop\<lparr>pr_base_seq := Some (pg_seq p), pr_base_hash := None\<rparr> else prop)"

lemma floored_simps [simp]:
  "pg_id (floored_page p prop) = pg_id p" "body_of_page (floored_page p prop) = body_of_page p"
  "pg_title (floored_page p prop) = pg_title p" "pg_content (floored_page p prop) = pg_content p"
  "pg_cover (floored_page p prop) = pg_cover p" "pg_pending (floored_page p prop) = pg_pending p"
  by (simp_all add: floored_page_def body_of_page_def)

lemma judged_simps [simp]:
  "body_of_proposal (judged_proposal p prop) = body_of_proposal prop" "pr_actor (judged_proposal p prop) = pr_actor prop"
  "pr_title (judged_proposal p prop) = pr_title prop" "pr_content (judged_proposal p prop) = pr_content prop"
  "pr_cover (judged_proposal p prop) = pr_cover prop"
  by (simp_all add: judged_proposal_def body_of_proposal_def)

lemma judged_base: "pr_base_hash (judged_proposal p prop) \<noteq> None \<Longrightarrow> judged_proposal p prop = prop"
  by (auto simp: judged_proposal_def split: if_splits)

definition kept_sides :: "page_env \<Rightarrow> string \<Rightarrow> page \<Rightarrow> proposal \<Rightarrow> page_db \<Rightarrow> conflict_side list" where
  "kept_sides env space p prop db =
     filter (\<lambda>s. cs_hash s \<notin> set (pr_resolves prop)) (list_conflict_sides (pe_digest env) (pg_id p) space db)"

definition resolved_sides :: "page_env \<Rightarrow> string \<Rightarrow> page \<Rightarrow> proposal \<Rightarrow> page_db \<Rightarrow> conflict_side list" where
  "resolved_sides env space p prop db =
     filter (\<lambda>s. cs_hash s \<in> set (pr_resolves prop)) (list_conflict_sides (pe_digest env) (pg_id p) space db)"

definition plan_of :: "page_env \<Rightarrow> page_call \<Rightarrow> string \<Rightarrow> page \<Rightarrow> proposal \<Rightarrow> page_db \<Rightarrow> exn + edit_plan" where
  "plan_of env c space p prop db =
     plan_edit env c space (floored_page p prop) (judged_proposal p prop) (body_hash (pe_digest env) (body_of_page p))
       (proposal_hash (pe_digest env) prop) (pg_seq p < claim_of p prop) (kept_sides env space p prop db)
       (resolved_sides env space p prop db) db"

definition changed_body :: "page \<Rightarrow> edit_plan \<Rightarrow> bool" where
  "changed_body p plan \<longleftrightarrow> (case ep_body plan of None \<Rightarrow> False | Some b \<Rightarrow> b \<noteq> body_of_page p)"

lemma sequence_edit_cases [consumes 1, case_names duplicate refused unchanged committed]:
  assumes "sequence_edit env c space p prop db = Inr (db', res)"
  obtains
    "db' = db" "sr_outcome res = DuplicateEdit" "sr_page res = Some p"
    "proposal_hash (pe_digest env) prop = body_hash (pe_digest env) (body_of_page p)
     \<or> proposal_hash (pe_digest env) prop \<in> cs_hash ` set (kept_sides env space p prop db)"
    "resolved_sides env space p prop db = []"
  | "db' = db" "sr_outcome res = RefusedEdit"
  | plan where "db' = db" "sr_outcome res = DuplicateEdit" "plan_of env c space p prop db = Inr plan"
      "\<not> changed_body p plan" "floored_page p prop = p"
      "map cs_hash (ep_sides plan) = map cs_hash (list_conflict_sides (pe_digest env) (pg_id p) space db)"
  | plan where "plan_of env c space p prop db = Inr plan" "pg_seq (floored_page p prop) < max_seq"
      "(db', res) = commit_plan c space p (floored_page p prop) (judged_proposal p prop) plan db"
      "changed_body p plan \<or> pg_seq p = 0 \<or> pg_seq p < claim_of p prop
       \<or> map cs_hash (ep_sides plan) \<noteq> map cs_hash (list_conflict_sides (pe_digest env) (pg_id p) space db)"
proof -
  let ?early = "(proposal_hash (pe_digest env) prop = body_hash (pe_digest env) (body_of_page p)
      \<or> proposal_hash (pe_digest env) prop \<in> cs_hash ` set (kept_sides env space p prop db))
      \<and> resolved_sides env space p prop db = [] \<and> pg_seq p \<noteq> 0 \<and> \<not> pg_seq p < claim_of p prop"
  have eq: "sequence_edit env c space p prop db =
      (if ?early then Inr (db, result_of DuplicateEdit None (Some p))
       else if max_seq \<le> pg_seq (floored_page p prop)
       then Inr (db, result_of RefusedEdit (Some ''bad_base'') (Some (floored_page p prop)))
       else res_bind (plan_of env c space p prop db) (\<lambda>plan.
         if \<not> changed_body p plan
            \<and> \<not> map cs_hash (ep_sides plan) \<noteq> map cs_hash (list_conflict_sides (pe_digest env) (pg_id p) space db)
            \<and> pg_seq p \<noteq> 0 \<and> \<not> pg_seq p < claim_of p prop
         then Inr (db, result_of DuplicateEdit None (Some (floored_page p prop)))
         else Inr (commit_plan c space p (floored_page p prop) (judged_proposal p prop) plan db)))"
  proof (cases "pg_seq p < claim_of p prop")
    case True
    then show ?thesis
      unfolding sequence_edit_def Let_def plan_of_def kept_sides_def resolved_sides_def claim_of_def [symmetric]
        beyond_step_def changed_body_def floored_page_def judged_proposal_def
      by (simp add: body_of_page_def)
  next
    case False
    then have "floored_page p prop = p" "judged_proposal p prop = prop"
      by (simp_all add: floored_page_def judged_proposal_def beyond_step_def)
    with False show ?thesis
      unfolding sequence_edit_def Let_def plan_of_def kept_sides_def resolved_sides_def claim_of_def [symmetric]
        changed_body_def
      by (simp cong: if_cong) auto
  qed
  show ?thesis
  proof (cases ?early)
    case True
    then show ?thesis using assms that(1) unfolding eq by (auto simp: result_of_def)
  next
    case early: False
    show ?thesis
    proof (cases "max_seq \<le> pg_seq (floored_page p prop)")
      case True
      then show ?thesis using assms early that(2) unfolding eq by (auto simp: result_of_def)
    next
      case False
      with early assms obtain plan where plan: "plan_of env c space p prop db = Inr plan"
        and res: "(if \<not> changed_body p plan
            \<and> \<not> map cs_hash (ep_sides plan) \<noteq> map cs_hash (list_conflict_sides (pe_digest env) (pg_id p) space db)
            \<and> pg_seq p \<noteq> 0 \<and> \<not> pg_seq p < claim_of p prop
         then Inr (db, result_of DuplicateEdit None (Some (floored_page p prop)))
         else Inr (commit_plan c space p (floored_page p prop) (judged_proposal p prop) plan db)) = (Inr (db', res) :: exn + _)"
        unfolding eq by (auto simp: res_bind_Inr)
      show ?thesis
      proof (cases "\<not> changed_body p plan
            \<and> \<not> map cs_hash (ep_sides plan) \<noteq> map cs_hash (list_conflict_sides (pe_digest env) (pg_id p) space db)
            \<and> pg_seq p \<noteq> 0 \<and> \<not> pg_seq p < claim_of p prop")
        case True
        then have "floored_page p prop = p" by (simp add: floored_page_def)
        with True res plan show ?thesis by (intro that(3)) (auto simp: result_of_def)
      next
        case changed: False
        then have "commit_plan c space p (floored_page p prop) (judged_proposal p prop) plan db = (db', res)"
          using res by (simp only: if_False sum.inject)
        then show ?thesis using plan False changed by (intro that(4)) (auto)
      qed
    qed
  qed
qed

section \<open>What a committed plan stores\<close>

definition plan_history :: "page_call \<Rightarrow> string \<Rightarrow> page \<Rightarrow> proposal \<Rightarrow> edit_plan \<Rightarrow> page_version list" where
  "plan_history c space p prop plan =
     (let n = length (ep_retired plan)
      in map (\<lambda>(i, s). version_row c i p space (body_of_side s) (cs_by s)) (zip [0..<n] (ep_retired plan))
         @ (if changed_body p plan then [version_row c n p space (body_of_page p) (page_editor p)] else [])
         @ (if changed_body p plan \<and> ep_absorbed plan
            then [version_row c (Suc n) p space (body_of_proposal prop) (pr_actor prop)] else []))"

lemma version_row_body [simp]: "body_of_version (version_row c n p space b by) = b"
  by (simp add: version_row_def body_of_version_def split: prod.split)

lemma plan_history_bodies: "body_of_version ` set (plan_history c space p prop plan) =
    body_of_side ` set (ep_retired plan)
    \<union> (if changed_body p plan then {body_of_page p} else {})
    \<union> (if changed_body p plan \<and> ep_absorbed plan then {body_of_proposal prop} else {})"
proof -
  have "(\<lambda>x. body_of_version (case x of (i, s) \<Rightarrow> version_row c i p space (body_of_side s) (cs_by s))) ` set (zip [0..<length r] r)
      = body_of_side ` set r" for r
  proof -
    have "set (map snd (zip [0..<length r] r)) = set r" by (simp only: map_snd_zip length_upt diff_zero)
    then have "body_of_side ` snd ` set (zip [0..<length r] r) = body_of_side ` set r" by (simp only: set_map)
    then show ?thesis by (simp add: image_image case_prod_beta)
  qed
  then show ?thesis by (auto simp: plan_history_def Let_def image_Un image_image)
qed

lemma plan_history_length: "length (plan_history c space p prop plan) \<le> length (ep_retired plan) + 2"
  by (simp add: plan_history_def Let_def)

text \<open>The page a committed plan stores: the body of the plan if it changes one, the next number.\<close>

definition plan_body :: "page \<Rightarrow> edit_plan \<Rightarrow> page_body" where
  "plan_body p plan = (case ep_body plan of None \<Rightarrow> body_of_page p | Some b \<Rightarrow> b)"

lemma commit_plan_spec:
  assumes live: "get_space_page space pid db = Some old" "pg_id old = pid" "pg_id p = pid"
    and "commit_plan c space old p prop plan db = (db', res)"
  shows "\<exists>r q. db' = db\<lparr>pd_history := (if plan_history c space p prop plan = [] then pd_history db
             else prune_history pid (Some space) max_space_history
                    (insert_history pid space (plan_history c space p prop plan) (pd_history db))),
          pd_pages := (pd_pages db)(pid \<mapsto> r),
          pd_snapshots := replace_sides pid space (ep_sides plan) (pd_snapshots db)\<rparr>
     \<and> rw_page r = q \<and> pg_id q = pid \<and> pg_space_id q = Some space \<and> rw_deleted_at r = None
     \<and> body_of_page q = plan_body p plan \<and> pg_seq q = pg_seq p + 1 \<and> pg_pending q = pg_pending p
     \<and> get_space_page space pid db' = Some q \<and> sr_page res = Some q
     \<and> sr_outcome res = (if ep_as_side plan then SideEdit else AppliedEdit) \<and> sr_sides res = ep_sides plan
     \<and> sr_reason res = None"
proof -
  let ?now = "iso_now (pc_now c)"
  define u where "u = (let numbered = p\<lparr>pg_seq := pg_seq p + 1, pg_updated_at := ?now\<rparr> in
    case ep_body plan of
      Some (title, content, cover) \<Rightarrow>
        if changed_body p plan
        then numbered\<lparr>pg_title := title, pg_content := content, pg_cover := cover,
               pg_last_editor := (if pr_actor prop = [] then pg_last_editor p else Some (pr_actor prop)),
               pg_last_edited_at := Some ?now\<rparr>
        else numbered
    | None \<Rightarrow> numbered)"
  have u: "pg_id u = pid" "pg_seq u = pg_seq p + 1" "pg_pending u = pg_pending p" "body_of_page u = plan_body p plan"
    using live(3) by (auto simp: u_def Let_def changed_body_def plan_body_def body_of_page_def split: option.splits)
  obtain r q where com: "commit_version (pc_now c) space u (plan_history c space p prop plan) (ep_sides plan) db =
      (db\<lparr>pd_history := (if plan_history c space p prop plan = [] then pd_history db
             else prune_history pid (Some space) max_space_history
                    (insert_history pid space (plan_history c space p prop plan) (pd_history db))),
          pd_pages := (pd_pages db)(pid \<mapsto> r),
          pd_snapshots := replace_sides pid space (ep_sides plan) (pd_snapshots db)\<rparr>, True)"
    and r: "rw_page r = q" "same_version q u" "pg_space_id q = Some space" "rw_deleted_at r = None"
    using commit_live [OF live(1,2) u(1)] by blast
  let ?db = "db\<lparr>pd_history := (if plan_history c space p prop plan = [] then pd_history db
             else prune_history pid (Some space) max_space_history
                    (insert_history pid space (plan_history c space p prop plan) (pd_history db))),
          pd_pages := (pd_pages db)(pid \<mapsto> r),
          pd_snapshots := replace_sides pid space (ep_sides plan) (pd_snapshots db)\<rparr>"
  have get: "get_space_page space pid ?db = Some q" using r by (simp add: get_space_page_row)
  have "commit_plan c space old p prop plan db =
    (case commit_version (pc_now c) space u (plan_history c space p prop plan) (ep_sides plan) db of
           (db', False) \<Rightarrow> (db', result_of RefusedEdit (Some ''gone'') (Some p))
         | (db', True) \<Rightarrow>
             (db', \<lparr>sr_outcome = (if ep_as_side plan then SideEdit else AppliedEdit), sr_reason = None,
                    sr_page = (case get_space_page space (pg_id p) db' of None \<Rightarrow> Some u | Some s \<Rightarrow> Some s),
                    sr_created = (pg_seq old = 0), sr_sides = ep_sides plan,
                    sr_previous = (if pg_seq old = 0 then None else Some old)\<rparr>))"
    by (simp only: commit_plan_def plan_history_def u_def changed_body_def Let_def)
  then have "(db', res) = (?db, \<lparr>sr_outcome = (if ep_as_side plan then SideEdit else AppliedEdit), sr_reason = None,
                    sr_page = Some q, sr_created = (pg_seq old = 0), sr_sides = ep_sides plan,
                    sr_previous = (if pg_seq old = 0 then None else Some old)\<rparr>)"
    using assms(4) com get live(3) by simp
  then have "db' = ?db" "sr_page res = Some q" "sr_sides res = ep_sides plan" "sr_reason res = None"
    "sr_outcome res = (if ep_as_side plan then SideEdit else AppliedEdit)" by simp_all
  then show ?thesis using r u get by (auto simp: same_version_def)
qed

end
