(* ===== verification/Page_Host_Safety.thy ===== *)
theory Page_Host_Safety
  imports Page_Host_Props
begin

text \<open>
  What sequencing guarantees on the host: the open sides stay within their caps, the sequence number only
  grows, and no version of a page is lost.
\<close>

section \<open>The invariant of a page\<close>

definition sides_ok :: "conflict_side list \<Rightarrow> bool" where
  "sides_ok ss \<longleftrightarrow> sides_capped ss \<and> distinct (map cs_at ss) \<and> distinct (map cs_by ss) \<and> list_all (\<lambda>s. cs_at s \<noteq> []) ss"

definition page_ok :: "(string \<Rightarrow> string) \<Rightarrow> string \<Rightarrow> string \<Rightarrow> page_db \<Rightarrow> bool" where
  "page_ok digest space pid db \<longleftrightarrow>
     distinct (snapshot_keys (pd_snapshots db))
     \<and> (case pd_pages db pid of None \<Rightarrow> True | Some r \<Rightarrow> pg_id (rw_page r) = pid)
     \<and> sides_ok (list_conflict_sides digest pid space db)"

lemma utf8_nonneg: "0 \<le> utf8_length s"
  unfolding utf8_length_def by (intro sum_list_nonneg) (auto split: if_splits)

lemma sides_bytes_filter: "sides_bytes (filter P ss) \<le> sides_bytes ss"
proof (induction ss)
  case (Cons s ss)
  then show ?case
    using utf8_nonneg [of "cs_content s"] utf8_nonneg [of "cs_title s"] by (auto simp: sides_bytes_def)
qed (simp add: sides_bytes_def)

lemma sides_ok_filter: "sides_ok ss \<Longrightarrow> sides_ok (filter P ss)"
proof -
  assume ok: "sides_ok ss"
  have "sides_capped (filter P ss)"
    using ok le_trans [OF length_filter_le [of P ss]] order_trans [OF sides_bytes_filter [of P ss]]
    unfolding sides_ok_def sides_capped_def by blast
  with ok show ?thesis by (simp add: sides_ok_def distinct_map_filter list_all_iff)
qed

text \<open>Storing and listing the sides keeps their caps: a stored side differs in its hash and cover only.\<close>

lemma sides_bytes_mset: "mset ss = mset ss' \<Longrightarrow> sides_bytes ss = sides_bytes ss'"
  unfolding sides_bytes_def sum_mset_sum_list [symmetric] mset_map by simp

lemma sides_ok_listed:
  assumes "sides_ok ss"
  shows "sides_ok (map (normal_side digest) (sort_key cs_at ss))"
proof -
  have "sides_bytes (map (normal_side digest) (sort_key cs_at ss)) = sides_bytes (sort_key cs_at ss)"
    by (simp add: sides_bytes_def o_def)
  also have "\<dots> = sides_bytes ss" by (rule sides_bytes_mset) simp
  finally have "sides_capped (map (normal_side digest) (sort_key cs_at ss))"
    using assms by (simp add: sides_ok_def sides_capped_def)
  moreover have "distinct (map f (sort_key cs_at ss))" if "distinct (map f ss)" for f :: "conflict_side \<Rightarrow> string"
    using that by (simp add: distinct_map)
  ultimately show ?thesis using assms by (simp add: sides_ok_def o_def list_all_iff)
qed

lemma add_side_ok:
  assumes "add_side c p ph sides retired = Inr (ss, rs)" "sides_ok sides"
  shows "sides_ok ss"
proof -
  from assms(2) obtain stamp where "stamp \<noteq> []" "set ss \<subseteq> insert (new_side p ph stamp) (set sides)"
    "distinct (map cs_at ss)" "distinct (map cs_by ss)" "sides_capped ss"
    using add_side_spec [OF assms(1)] unfolding sides_ok_def by blast
  with assms(2) show ?thesis by (auto simp: sides_ok_def list_all_iff)
qed

lemma plan_sides_ok:
  assumes "plan_edit env c space p prop cur ph regressed sides retired db = Inr plan" "sides_ok sides"
  shows "sides_ok (ep_sides plan)"
  using assms(1) by (cases rule: plan_edit_cases) (use assms(2) in \<open>auto simp: sides_ok_filter dest: add_side_ok\<close>)

lemma capped_length: "sides_ok ss \<Longrightarrow> length ss \<le> max_conflict_sides"
  by (auto simp: sides_ok_def sides_capped_def max_conflict_sides_def)

lemma plan_retired_length:
  assumes "plan_edit env c space p prop cur ph regressed sides retired db = Inr plan" "sides_ok sides"
  shows "length (ep_retired plan) \<le> length retired + length sides"
  using assms(1)
proof (cases rule: plan_edit_cases)
  case side
  then show ?thesis using add_side_spec [OF side(1)] assms(2) unfolding sides_ok_def by blast
qed auto

text \<open>The sides a sequenced edit starts from, split by what it resolves.\<close>

lemma kept_resolved_length:
  "length (resolved_sides env space p prop db) + length (kept_sides env space p prop db)
     = length (list_conflict_sides (pe_digest env) (pg_id p) space db)"
  unfolding kept_sides_def resolved_sides_def by (rule sum_length_filter_compl)

lemma plan_of_ok:
  assumes "plan_of env c space p prop db = Inr plan" "sides_ok (list_conflict_sides (pe_digest env) (pg_id p) space db)"
  shows "sides_ok (ep_sides plan)" "length (plan_history c space q prop' plan) \<le> max_space_history"
proof -
  have kept: "sides_ok (kept_sides env space p prop db)"
    using assms(2) by (simp add: kept_sides_def sides_ok_filter)
  then show "sides_ok (ep_sides plan)" using assms(1) plan_sides_ok unfolding plan_of_def by blast
  have "length (ep_retired plan) \<le> length (resolved_sides env space p prop db) + length (kept_sides env space p prop db)"
    using assms(1) kept plan_retired_length unfolding plan_of_def by blast
  also have "\<dots> \<le> max_conflict_sides" unfolding kept_resolved_length by (rule capped_length [OF assms(2)])
  finally show "length (plan_history c space q prop' plan) \<le> max_space_history"
    using plan_history_length [of c space q prop' plan] by (simp add: max_conflict_sides_def max_space_history_def)
qed

section \<open>What the database holds of a page\<close>

text \<open>A body up to the difference no hash sees: an empty cover and none.\<close>

definition version_key :: "page_body \<Rightarrow> string \<times> string \<times> string" where
  "version_key b = (case b of (title, content, cover) \<Rightarrow> (title, content, or_empty cover))"

lemma version_key_normal [simp]: "version_key (body_of_side (normal_side digest s)) = version_key (body_of_side s)"
  by (simp add: version_key_def body_of_side_def)

definition held_versions :: "(string \<Rightarrow> string) \<Rightarrow> string \<Rightarrow> string \<Rightarrow> page_db \<Rightarrow> (string \<times> string \<times> string) set" where
  "held_versions digest space pid db =
     version_key ` (body_of_page ` set_option (get_space_page space pid db)
       \<union> body_of_side ` set (list_conflict_sides digest pid space db)
       \<union> body_of_version ` set (list_versions pid (Some space) db))"

text \<open>Hashes tell the given bodies apart.\<close>

definition hashes_separate :: "(string \<Rightarrow> string) \<Rightarrow> page_body set \<Rightarrow> bool" where
  "hashes_separate digest bs \<longleftrightarrow>
     (\<forall>b \<in> bs. \<forall>b' \<in> bs. body_hash digest b = body_hash digest b' \<longrightarrow> version_key b = version_key b')"

lemma hashes_separateD: "hashes_separate digest bs \<Longrightarrow> b \<in> bs \<Longrightarrow> b' \<in> bs \<Longrightarrow>
    body_hash digest b = body_hash digest b' \<Longrightarrow> version_key b = version_key b'"
  unfolding hashes_separate_def by blast

lemma listed_side_hash: "s \<in> set (list_conflict_sides digest pid space db) \<Longrightarrow> cs_hash s = body_hash digest (body_of_side s)"
  using listed_side_normal [of s digest pid space db] by (simp add: body_hash_def body_of_side_def)

lemma proposal_hash_body: "proposal_hash digest p = body_hash digest (body_of_proposal p)"
  by (simp add: proposal_hash_def body_hash_def body_of_proposal_def)

lemma held_committed:
  assumes "sides_ok (ep_sides plan)" "length (plan_history c space p prop plan) \<le> max_space_history"
    and "get_space_page space pid db' = Some q" "body_of_page q = plan_body p plan"
    and "db' = db\<lparr>pd_history := (if plan_history c space p prop plan = [] then pd_history db
             else prune_history pid (Some space) max_space_history
                    (insert_history pid space (plan_history c space p prop plan) (pd_history db))),
          pd_pages := pages, pd_snapshots := replace_sides pid space (ep_sides plan) (pd_snapshots db)\<rparr>"
  shows "version_key ` ({plan_body p plan} \<union> body_of_side ` set (ep_sides plan)
      \<union> body_of_version ` set (plan_history c space p prop plan)) \<subseteq> held_versions digest space pid db'"
proof -
  have at: "distinct (map cs_at (ep_sides plan))" using assms(1) by (simp add: sides_ok_def)
  have sides: "list_conflict_sides digest pid space db' = map (normal_side digest) (sort_key cs_at (ep_sides plan))"
    unfolding assms(5) by (rule list_after_replace [OF at])
  have "version_key ` body_of_side ` set (ep_sides plan) \<subseteq> held_versions digest space pid db'"
    unfolding held_versions_def sides by (force simp: image_image image_Un)
  moreover have "version_key (plan_body p plan) \<in> held_versions digest space pid db'"
    using assms(3,4) by (simp add: held_versions_def)
  moreover have "version_key b \<in> held_versions digest space pid db'"
    if b: "b \<in> body_of_version ` set (plan_history c space p prop plan)" for b
  proof -
    from b have "plan_history c space p prop plan \<noteq> []" by auto
    with new_rows_survive [OF assms(2) b, of pid space "pd_history db"]
    obtain v where "v \<in> set (pd_history db')" "in_history pid (Some space) v" "body_of_version v = b"
      unfolding assms(5) by auto
    then show ?thesis by (force simp: held_versions_def list_versions_def)
  qed
  ultimately show ?thesis unfolding image_Un Un_subset_iff by blast
qed

section \<open>A plan drops nothing\<close>

definition absorbs_nothing :: "page_env \<Rightarrow> string \<Rightarrow> page \<Rightarrow> proposal \<Rightarrow> page_db \<Rightarrow> bool" where
  "absorbs_nothing env space p prop db \<longleftrightarrow>
     (case find_base (pe_digest env) space p prop (body_hash (pe_digest env) (body_of_page p)) db of
        None \<Rightarrow> False
      | Some base \<Rightarrow> merge_bodies base p prop = Inr (Some (body_of_page p)))"

definition plan_bodies :: "page \<Rightarrow> edit_plan \<Rightarrow> page_body set" where
  "plan_bodies p plan = {plan_body p plan} \<union> body_of_side ` set (ep_sides plan) \<union> body_of_side ` set (ep_retired plan)"

lemma plan_bodies_memberI:
  "version_key (plan_body p plan) \<in> version_key ` plan_bodies p plan"
  "s \<in> set (ep_sides plan) \<Longrightarrow> version_key (body_of_side s) \<in> version_key ` plan_bodies p plan"
  "s \<in> set (ep_retired plan) \<Longrightarrow> version_key (body_of_side s) \<in> version_key ` plan_bodies p plan"
  unfolding plan_bodies_def by blast+

lemma plan_keeps_sides:
  assumes "plan_of env c space p prop db = Inr plan"
    and "sides_ok (list_conflict_sides (pe_digest env) (pg_id p) space db)"
    and "hashes_separate (pe_digest env) (insert (body_of_proposal prop)
           (body_of_side ` set (list_conflict_sides (pe_digest env) (pg_id p) space db)))"
    and "s \<in> set (list_conflict_sides (pe_digest env) (pg_id p) space db)"
  shows "version_key (body_of_side s) \<in> version_key ` plan_bodies (floored_page p prop) plan"
proof -
  let ?listed = "list_conflict_sides (pe_digest env) (pg_id p) space db"
  let ?kept = "kept_sides env space p prop db" and ?gone = "resolved_sides env space p prop db"
  have split: "s \<in> set ?kept \<or> s \<in> set ?gone" using assms(4) by (auto simp: kept_sides_def resolved_sides_def)
  have kept: "sides_ok ?kept" using assms(2) by (simp add: kept_sides_def sides_ok_filter)
  from assms(1) show ?thesis unfolding plan_of_def
  proof (cases rule: plan_edit_cases)
    case pick
    show ?thesis
    proof (cases "cs_hash s = proposal_hash (pe_digest env) prop")
      case True
      then have "body_hash (pe_digest env) (body_of_side s) = body_hash (pe_digest env) (body_of_proposal prop)"
        using listed_side_hash [OF assms(4)] by (simp add: proposal_hash_body)
      with assms(4) have "version_key (body_of_side s) = version_key (body_of_proposal prop)"
        by (intro hashes_separateD [OF assms(3)]) blast+
      also have "body_of_proposal prop = plan_body (floored_page p prop) plan" using pick(2) by (simp add: plan_body_def)
      finally show ?thesis by (simp add: plan_bodies_memberI(1))
    next
      case False
      have "s \<in> set (ep_sides plan) \<or> s \<in> set (ep_retired plan)" using split False unfolding pick(3,4) by simp
      then show ?thesis using plan_bodies_memberI(2,3) by blast
    qed
  next
    case side
    from add_side_spec [OF side(1)] kept have "set ?kept \<union> set ?gone \<subseteq> set (ep_sides plan) \<union> set (ep_retired plan)"
      unfolding sides_ok_def by blast
    with split show ?thesis using plan_bodies_memberI(2,3) by blast
  qed (use split plan_bodies_memberI(2,3) in metis)+
qed

lemma find_base_floored: "find_base digest space (floored_page p prop') prop cur db = find_base digest space p prop cur db"
  unfolding find_base_def floored_simps ..

lemma merge_bodies_floored: "merge_bodies base (floored_page p prop') prop = merge_bodies base p prop"
  unfolding merge_bodies_def floored_simps ..

lemma plan_keeps_proposal:
  assumes "plan_of env c space p prop db = Inr plan"
    and "sides_ok (list_conflict_sides (pe_digest env) (pg_id p) space db)"
    and "hashes_separate (pe_digest env) {body_of_page p, body_of_proposal prop}"
  shows "version_key (body_of_proposal prop) \<in> version_key ` plan_bodies (floored_page p prop) plan
    \<or> (changed_body p plan \<and> ep_absorbed plan) \<or> absorbs_nothing env space p prop db"
proof -
  let ?kept = "kept_sides env space p prop db"
  have kept: "sides_ok ?kept" using assms(2) by (simp add: kept_sides_def sides_ok_filter)
  from assms(1) show ?thesis unfolding plan_of_def
  proof (cases rule: plan_edit_cases)
    case keep
    then have "version_key (body_of_proposal prop) = version_key (body_of_page p)"
      by (intro hashes_separateD [OF assms(3)]) (simp_all add: proposal_hash_body)
    also have "body_of_page p = plan_body (floored_page p prop) plan" using keep(2) by (simp add: plan_body_def)
    finally show ?thesis by (simp add: plan_bodies_memberI(1))
  next
    case (merge base b)
    from judged_base [OF merge(1)] have "judged_proposal p prop = prop" .
    with merge(2,3) have found: "find_base (pe_digest env) space p prop (body_hash (pe_digest env) (body_of_page p)) db = Some base"
      and "merge_bodies base p prop = Inr (Some b)"
      by (simp_all add: find_base_floored merge_bodies_floored)
    then show ?thesis using merge(4,5) by (cases "b = body_of_page p") (simp_all add: absorbs_nothing_def changed_body_def)
  next
    case side
    from add_side_spec [OF side(1)] kept obtain stamp
      where "new_side (judged_proposal p prop) (proposal_hash (pe_digest env) prop) stamp \<in> set (ep_sides plan)"
      unfolding sides_ok_def by blast
    from plan_bodies_memberI(2) [OF this] show ?thesis by simp
  next
    case pick
    then have "body_of_proposal prop = plan_body (floored_page p prop) plan" by (simp add: plan_body_def)
    then show ?thesis by (simp add: plan_bodies_memberI(1))
  next
    case forward
    then have "body_of_proposal prop = plan_body (floored_page p prop) plan" by (simp add: plan_body_def)
    then show ?thesis by (simp add: plan_bodies_memberI(1))
  qed
qed

section \<open>One call of the engine\<close>

lemma emit_db [simp]: "en_db (emit out st) = en_db st"
  by (simp add: emit_def)

lemma send_ack_db [simp]: "en_db (send_ack env space pid p sq proposer st) = en_db st"
  by (simp add: send_ack_def)

lemma publish_db [simp]: "en_db (publish_result env res space pid prop proposer st) = en_db st"
  by (simp add: publish_result_def Let_def split: bool.split option.split)

lemma limited_db: "limited c key limit window st = (ok, st') \<Longrightarrow> en_db st' = en_db st"
  by (auto simp: limited_def split: prod.splits)

lemma refuse_db [simp]: "en_db (refuse env c space pid ph proposer reason st) = en_db st"
  by (auto simp: refuse_def limited_db split: prod.splits bool.splits)

text \<open>On a page held here a call is a rate-limited refusal or one sequenced edit, published.\<close>

lemma sequence_page_cases [consumes 2, case_names limited edit]:
  assumes "get_space_page space pid (en_db st) = Some p" "sequence env c space pid prop proposer st = Inr (st', res)"
  obtains st1 where "en_db st' = en_db st" "res = result_of RefusedEdit (Some ''rate_limited'') None" "en_out st1 = en_out st"
      "st' = refuse env c space pid (answer_hash env prop) proposer ''rate_limited'' st1"
  | st1 where "sequence_edit env c space p prop (en_db st) = Inr (en_db st', res)" "en_out st1 = en_out st"
      "st' = publish_result env res space pid prop proposer (st1\<lparr>en_db := en_db st'\<rparr>)"
proof -
  obtain ok st1 where lim: "(if is_remote env proposer
      then limited c (''page-proposals:'' @ proposer @ '':'' @ space) proposals_per_minute 60 st else (True, st)) = (ok, st1)"
    by (metis surj_pair)
  then have st1: "en_db st1 = en_db st" "en_out st1 = en_out st"
    by (auto simp: limited_def split: if_splits prod.splits)
  show ?thesis
  proof (cases ok)
    case False
    then show ?thesis using assms(2) lim st1 by (intro that(1) [of st1]) (auto simp: sequence_def)
  next
    case True
    with assms lim st1 show ?thesis
      by (intro that(2) [of st1]) (auto simp: sequence_def res_bind_Inr sequence_locked_def)
  qed
qed

text \<open>The stored page after a committed edit.\<close>

lemma sequence_edit_committed:
  assumes "get_space_page space pid db = Some p" "pg_id p = pid" "plan_of env c space p prop db = Inr plan"
    and "(db', res) = commit_plan c space p (floored_page p prop) (judged_proposal p prop) plan db"
  obtains r q where "db' = db\<lparr>pd_history := (if plan_history c space (floored_page p prop) (judged_proposal p prop) plan = []
             then pd_history db
             else prune_history pid (Some space) max_space_history
                    (insert_history pid space (plan_history c space (floored_page p prop) (judged_proposal p prop) plan) (pd_history db))),
          pd_pages := (pd_pages db)(pid \<mapsto> r),
          pd_snapshots := replace_sides pid space (ep_sides plan) (pd_snapshots db)\<rparr>"
    "rw_page r = q" "pg_id q = pid" "get_space_page space pid db' = Some q"
    "body_of_page q = plan_body (floored_page p prop) plan" "pg_seq q = pg_seq (floored_page p prop) + 1"
    "sr_page res = Some q" "sr_outcome res = (if ep_as_side plan then SideEdit else AppliedEdit)"
    "sr_sides res = ep_sides plan" "sr_reason res = None"
proof -
  have "pg_id (floored_page p prop) = pid" using assms(2) by simp
  from commit_plan_spec [OF assms(1,2) this assms(4) [symmetric]] that show ?thesis by blast
qed

section \<open>The open sides stay capped\<close>

lemma sequence_keeps_page_ok:
  assumes "get_space_page space pid (en_db st) = Some p" "page_ok (pe_digest env) space pid (en_db st)"
    and "sequence env c space pid prop proposer st = Inr (st', res)"
  shows "page_ok (pe_digest env) space pid (en_db st')"
  using assms(1,3)
proof (cases rule: sequence_page_cases)
  case (edit st1)
  have pid: "pg_id p = pid" using assms(1,2) by (auto simp: page_ok_def get_space_page_row)
  from edit(1) show ?thesis
  proof (cases rule: sequence_edit_cases)
    case (committed plan)
    from sequence_edit_committed [OF assms(1) pid committed(1,3)]
    obtain r q h where db': "en_db st' = (en_db st)\<lparr>pd_history := h, pd_pages := (pd_pages (en_db st))(pid \<mapsto> r),
          pd_snapshots := replace_sides pid space (ep_sides plan) (pd_snapshots (en_db st))\<rparr>"
      and r: "rw_page r = q" "pg_id q = pid" by metis
    have ok: "sides_ok (ep_sides plan)"
      using plan_of_ok(1) [OF committed(1)] assms(2) pid by (simp add: page_ok_def)
    then have "distinct (map cs_at (ep_sides plan))" by (simp add: sides_ok_def)
    from list_after_replace [OF this, of "pe_digest env" pid space]
    have "sides_ok (list_conflict_sides (pe_digest env) pid space (en_db st'))"
      unfolding db' using sides_ok_listed [OF ok] by simp
    then show ?thesis using assms(2) r by (simp add: page_ok_def db' replace_keys)
  qed (use assms(2) in simp_all)
qed (use assms(2) in simp)

text \<open>
  C30. Sequencing an edit keeps the invariant of the page's conflict sides: at most three of them, one per user,
  with distinct time stamps, and the keys of the snapshot table stay unique.  Two or three open sides together
  hold at most 160 KiB of titles and bodies.  A side that is alone is kept whatever its size: the host retires
  older sides to make room and never the last one, so the byte cap is no bound on a single side.
\<close>

theorem open_sides_stay_capped:
  assumes "get_space_page space pid (en_db st) = Some p" "page_ok (pe_digest env) space pid (en_db st)"
    and "sequence env c space pid prop proposer st = Inr (st', res)"
    and "ss = list_conflict_sides (pe_digest env) pid space (en_db st')"
  shows "page_ok (pe_digest env) space pid (en_db st')
    \<and> length ss \<le> max_conflict_sides \<and> (2 \<le> length ss \<longrightarrow> sides_bytes ss \<le> sides_max_bytes)
    \<and> distinct (map cs_by ss) \<and> distinct (map cs_at ss)"
proof -
  have ok: "page_ok (pe_digest env) space pid (en_db st')" by (rule sequence_keeps_page_ok [OF assms(1-3)])
  then have "sides_ok ss" by (simp add: page_ok_def assms(4))
  then show ?thesis using ok capped_length [of ss] by (auto simp: sides_ok_def sides_capped_def)
qed

text \<open>The one side of a page stays open however large it is, against the cap the documentation gives.\<close>

lemma lone_side_has_no_byte_cap:
  assumes "\<forall>s \<in> set sides. cs_by s = pr_actor p" "add_side c p ph sides retired = Inr (ss, rs)"
  shows "\<exists>stamp. ss = [new_side p ph stamp]"
proof -
  have "filter (\<lambda>s. cs_by s \<noteq> pr_actor p) sides = []" using assms(1) by (simp add: filter_empty_conv)
  then show ?thesis using assms(2) by (auto simp: add_side_def res_bind_Inr Let_def new_side_def)
qed

section \<open>The sequence number only grows\<close>

lemma sequence_number_step:
  assumes "get_space_page space pid (en_db st) = Some p" "page_ok (pe_digest env) space pid (en_db st)"
    and "sequence env c space pid prop proposer st = Inr (st', res)" "pg_seq p \<le> max_seq" "claim_of p prop \<le> max_seq"
  shows "if sr_outcome res = AppliedEdit \<or> sr_outcome res = SideEdit
    then \<exists>q. get_space_page space pid (en_db st') = Some q \<and> sr_page res = Some q
      \<and> pg_seq p < pg_seq q \<and> pg_seq q \<le> max_seq
      \<and> (claim_of p prop < max_seq \<and> \<not> beyond_step p prop \<longrightarrow> claim_of p prop < pg_seq q)
    else en_db st' = en_db st"
  using assms(1,3)
proof (cases rule: sequence_page_cases)
  case limited
  then show ?thesis by (simp add: result_of_def)
next
  case (edit st1)
  have pid: "pg_id p = pid" using assms(1,2) by (auto simp: page_ok_def get_space_page_row)
  from edit(1) show ?thesis
  proof (cases rule: sequence_edit_cases)
    case (committed plan)
    from sequence_edit_committed [OF assms(1) pid committed(1,3)]
    obtain q where q: "get_space_page space pid (en_db st') = Some q" "pg_seq q = pg_seq (floored_page p prop) + 1"
      "sr_page res = Some q" "sr_outcome res = (if ep_as_side plan then SideEdit else AppliedEdit)"
      by metis
    have "pg_seq p < pg_seq q \<and> pg_seq q \<le> max_seq
        \<and> (claim_of p prop < max_seq \<and> \<not> beyond_step p prop \<longrightarrow> claim_of p prop < pg_seq q)"
      using committed(2) q(2) assms(4,5) by (auto simp: floored_page_def split: if_splits)
    with q show ?thesis by (cases "ep_as_side plan") simp_all
  qed simp_all
qed

text \<open>
  C29. A version the host publishes has a number above the page's and above any claimed base it accepts, and no
  larger than the largest exact integer of the wire; what it does not publish leaves the database as it was.\<close>

theorem sequence_numbers_grow:
  assumes "get_space_page space pid (en_db st) = Some p" "page_ok (pe_digest env) space pid (en_db st)"
    and "sequence env c space pid prop proposer st = Inr (st', res)" "pg_seq p \<le> max_seq" "claim_of p prop \<le> max_seq"
  shows "if sr_outcome res = AppliedEdit \<or> sr_outcome res = SideEdit
    then \<exists>q. get_space_page space pid (en_db st') = Some q \<and> sr_page res = Some q
      \<and> pg_seq p < pg_seq q \<and> pg_seq q \<le> max_seq
      \<and> (claim_of p prop < max_seq \<and> \<not> beyond_step p prop \<longrightarrow> claim_of p prop < pg_seq q)
    else en_db st' = en_db st"
  by (rule sequence_number_step [OF assms])

section \<open>No version is lost\<close>

lemma unchanged_proposal:
  assumes "plan_of env c space p prop db = Inr plan" "\<not> changed_body p plan"
    and "map cs_hash (ep_sides plan) = map cs_hash (list_conflict_sides (pe_digest env) (pg_id p) space db)"
    and "sides_ok (list_conflict_sides (pe_digest env) (pg_id p) space db)"
  shows "proposal_hash (pe_digest env) prop = body_hash (pe_digest env) (body_of_page p)
    \<or> proposal_hash (pe_digest env) prop \<in> cs_hash ` set (list_conflict_sides (pe_digest env) (pg_id p) space db)
    \<or> absorbs_nothing env space p prop db"
proof -
  let ?kept = "kept_sides env space p prop db"
  have kept: "sides_ok ?kept" using assms(4) by (simp add: kept_sides_def sides_ok_filter)
  have sub: "cs_hash ` set ?kept \<subseteq> cs_hash ` set (list_conflict_sides (pe_digest env) (pg_id p) space db)"
    unfolding kept_sides_def by auto
  from assms(1) show ?thesis unfolding plan_of_def
  proof (cases rule: plan_edit_cases)
    case keep
    then show ?thesis by simp
  next
    case pick
    with sub show ?thesis by blast
  next
    case forward
    with assms(2) have "body_of_proposal prop = body_of_page p" by (simp add: changed_body_def)
    then show ?thesis by (simp add: proposal_hash_body)
  next
    case (merge base b)
    from judged_base [OF merge(1)] have "judged_proposal p prop = prop" .
    with merge(2,3) have "find_base (pe_digest env) space p prop (body_hash (pe_digest env) (body_of_page p)) db = Some base"
      and "merge_bodies base p prop = Inr (Some b)"
      by (simp_all add: find_base_floored merge_bodies_floored)
    moreover have "b = body_of_page p" using assms(2) merge(4) by (simp add: changed_body_def)
    ultimately show ?thesis by (simp add: absorbs_nothing_def)
  next
    case side
    from add_side_spec [OF side(1)] kept obtain stamp
      where "new_side (judged_proposal p prop) (proposal_hash (pe_digest env) prop) stamp \<in> set (ep_sides plan)"
      unfolding sides_ok_def by blast
    then have "proposal_hash (pe_digest env) prop \<in> set (map cs_hash (ep_sides plan))" by force
    then show ?thesis unfolding assms(3) by simp
  qed
qed

lemma committed_holds:
  assumes "get_space_page space pid db = Some p" "pg_id p = pid" "plan_of env c space p prop db = Inr plan"
    and "(db', res) = commit_plan c space p (floored_page p prop) (judged_proposal p prop) plan db"
    and "sides_ok (list_conflict_sides (pe_digest env) pid space db)"
  shows "version_key ` plan_bodies (floored_page p prop) plan \<subseteq> held_versions digest space pid db'"
    "version_key (body_of_page p) \<in> held_versions digest space pid db'"
    "changed_body p plan \<and> ep_absorbed plan \<Longrightarrow> version_key (body_of_proposal prop) \<in> held_versions digest space pid db'"
proof -
  let ?fp = "floored_page p prop" and ?jp = "judged_proposal p prop"
  let ?hist = "plan_history c space ?fp ?jp plan"
  from sequence_edit_committed [OF assms(1-4)]
  obtain r q where db': "db' = db\<lparr>pd_history := (if ?hist = [] then pd_history db
             else prune_history pid (Some space) max_space_history (insert_history pid space ?hist (pd_history db))),
          pd_pages := (pd_pages db)(pid \<mapsto> r),
          pd_snapshots := replace_sides pid space (ep_sides plan) (pd_snapshots db)\<rparr>"
    and q: "get_space_page space pid db' = Some q" "body_of_page q = plan_body ?fp plan" by metis
  note ok = assms(5) [folded assms(2)]
  have held: "version_key ` ({plan_body ?fp plan} \<union> body_of_side ` set (ep_sides plan)
      \<union> body_of_version ` set ?hist) \<subseteq> held_versions digest space pid db'"
    by (rule held_committed [OF plan_of_ok(1) [OF assms(3) ok] plan_of_ok(2) [OF assms(3) ok] q db'])
  have changed: "changed_body ?fp plan = changed_body p plan" unfolding changed_body_def floored_simps ..
  note bodies = plan_history_bodies [of c space ?fp ?jp plan, unfolded changed floored_simps judged_simps]
  show "version_key ` plan_bodies ?fp plan \<subseteq> held_versions digest space pid db'"
    using held unfolding bodies plan_bodies_def by blast
  show "version_key (body_of_page p) \<in> held_versions digest space pid db'"
  proof (cases "changed_body p plan")
    case True
    then show ?thesis using held unfolding bodies by auto
  next
    case False
    then have "plan_body ?fp plan = body_of_page p" by (simp add: changed_body_def plan_body_def split: option.splits)
    then show ?thesis using held by auto
  qed
  show "version_key (body_of_proposal prop) \<in> held_versions digest space pid db'" if "changed_body p plan \<and> ep_absorbed plan"
    using held that unfolding bodies by auto
qed

text \<open>
  C11. Sequencing never loses a version: as long as the hashes tell the bodies at hand apart, the page's body and
  every open side are still held afterwards, as the current body, a side or a history row; and an edit that is
  not refused has its body held as well, unless the merge with its base leaves the current body unchanged.\<close>

theorem no_version_is_lost:
  assumes "get_space_page space pid (en_db st) = Some p" "page_ok (pe_digest env) space pid (en_db st)"
    and "sequence env c space pid prop proposer st = Inr (st', res)"
    and "hashes_separate (pe_digest env) ({body_of_page p, body_of_proposal prop}
           \<union> body_of_side ` set (list_conflict_sides (pe_digest env) pid space (en_db st)))"
  shows "version_key (body_of_page p) \<in> held_versions (pe_digest env) space pid (en_db st')
    \<and> (\<forall>s \<in> set (list_conflict_sides (pe_digest env) pid space (en_db st)).
         version_key (body_of_side s) \<in> held_versions (pe_digest env) space pid (en_db st'))
    \<and> (sr_outcome res = RefusedEdit \<or> absorbs_nothing env space p prop (en_db st)
       \<or> version_key (body_of_proposal prop) \<in> held_versions (pe_digest env) space pid (en_db st'))"
proof -
  let ?sides = "list_conflict_sides (pe_digest env) pid space (en_db st)"
  have pid: "pg_id p = pid" using assms(1,2) by (auto simp: page_ok_def get_space_page_row)
  have ok: "sides_ok (list_conflict_sides (pe_digest env) (pg_id p) space (en_db st))"
    using assms(2) pid by (simp add: page_ok_def)
  have page: "version_key (body_of_page p) \<in> held_versions (pe_digest env) space pid (en_db st)"
    using assms(1) by (simp add: held_versions_def)
  have sides: "\<forall>s \<in> set ?sides. version_key (body_of_side s) \<in> held_versions (pe_digest env) space pid (en_db st)"
    unfolding held_versions_def by blast
  have hash: "hashes_separate (pe_digest env) (insert (body_of_proposal prop) (body_of_side ` set ?sides))"
    "hashes_separate (pe_digest env) {body_of_page p, body_of_proposal prop}"
    using assms(4) unfolding hashes_separate_def by blast+
  have sep: "body_hash (pe_digest env) (body_of_side s) = body_hash (pe_digest env) (body_of_proposal prop) \<Longrightarrow>
      version_key (body_of_proposal prop) \<in> held_versions (pe_digest env) space pid (en_db st)" if "s \<in> set ?sides" for s
    using hashes_separateD [OF hash(1), of "body_of_side s" "body_of_proposal prop"] sides that by auto
  have hashed: "version_key (body_of_proposal prop) \<in> held_versions (pe_digest env) space pid (en_db st)"
    if "proposal_hash (pe_digest env) prop \<in> cs_hash ` set ?sides"
  proof -
    from that obtain s where s: "s \<in> set ?sides" "proposal_hash (pe_digest env) prop = cs_hash s" by blast
    with listed_side_hash [OF s(1)] show ?thesis by (intro sep [OF s(1)]) (simp add: proposal_hash_body)
  qed
  have same: "version_key (body_of_proposal prop) \<in> held_versions (pe_digest env) space pid (en_db st)"
    if "proposal_hash (pe_digest env) prop = body_hash (pe_digest env) (body_of_page p)"
  proof -
    have "version_key (body_of_proposal prop) = version_key (body_of_page p)"
      using that by (intro hashes_separateD [OF hash(2)]) (simp_all add: proposal_hash_body)
    then show ?thesis using page by simp
  qed
  from assms(1,3) show ?thesis
  proof (cases rule: sequence_page_cases)
    case limited
    then show ?thesis using page sides by (simp add: result_of_def)
  next
    case (edit st1)
    from edit(1) show ?thesis
    proof (cases rule: sequence_edit_cases)
      case duplicate
      have "version_key (body_of_proposal prop) \<in> held_versions (pe_digest env) space pid (en_db st)"
        using duplicate(4)
      proof
        assume "proposal_hash (pe_digest env) prop = body_hash (pe_digest env) (body_of_page p)"
        then show ?thesis by (rule same)
      next
        assume "proposal_hash (pe_digest env) prop \<in> cs_hash ` set (kept_sides env space p prop (en_db st))"
        then have "proposal_hash (pe_digest env) prop \<in> cs_hash ` set ?sides" unfolding kept_sides_def pid by auto
        then show ?thesis by (rule hashed)
      qed
      then show ?thesis using page sides duplicate(1) by simp
    next
      case refused
      then show ?thesis using page sides by simp
    next
      case (unchanged plan)
      have "version_key (body_of_proposal prop) \<in> held_versions (pe_digest env) space pid (en_db st)
          \<or> absorbs_nothing env space p prop (en_db st)"
      proof -
        have "map cs_hash (ep_sides plan) = map cs_hash (list_conflict_sides (pe_digest env) (pg_id p) space (en_db st))"
          using unchanged by blast
        from unchanged_proposal [OF unchanged(3,4) this ok] show ?thesis
          using same hashed unfolding pid by blast
      qed
      then show ?thesis using page sides unchanged(1) by auto
    next
      case (committed plan)
      note c = committed_holds [OF assms(1) pid committed(1,3) ok [unfolded pid], of "pe_digest env"]
      have "hashes_separate (pe_digest env) (insert (body_of_proposal prop)
          (body_of_side ` set (list_conflict_sides (pe_digest env) (pg_id p) space (en_db st))))"
        using hash(1) unfolding pid .
      note keeps = plan_keeps_sides [OF committed(1) ok this, unfolded pid] plan_keeps_proposal [OF committed(1) ok hash(2)]
      show ?thesis using c keeps by blast
    qed
  qed
qed

section \<open>A concrete engine\<close>

definition demo_page :: page where
  "demo_page = (page_defaults ''p1'' ''Plan'' ''one'' ''u0'' ''t0'' ''t0'')\<lparr>pg_space_id := Some ''s1'', pg_seq := 4\<rparr>"

definition demo_side :: conflict_side where
  "demo_side = \<lparr>cs_hash = version_hash id ''Plan'' ''two'' None, cs_title = ''Plan'', cs_content = ''two'', cs_by = ''u1'',
     cs_at = ''2024-01-01T00:00:00.000000+00:00'', cs_cover = None, cs_base_seq = 3\<rparr>"

definition demo_engine :: page_engine where
  "demo_engine = \<lparr>en_db = set_conflict_sides ''p1'' ''s1'' [demo_side]
       (fst (save_page 0 ''s1'' demo_page empty_page_db)),
     en_limiter = [], en_floor_raised = [], en_out = []\<rparr>"

definition demo_host :: page_env where
  "demo_host = \<lparr>pe_digest = id, pe_py_str = (\<lambda>_. []), pe_own = ''host'', pe_federated = True,
     pe_owner = (\<lambda>_. Some ''host''), pe_supports = (\<lambda>_. True)\<rparr>"

definition demo_call :: page_call where
  "demo_call = \<lparr>pc_now = 1700000000000000, pc_mono = 5, pc_new_id = (\<lambda>n. replicate n CHR ''v'')\<rparr>"

text \<open>A member edited version 2, which is no longer known: its edit opens a second side.\<close>

definition demo_stale :: proposal where
  "demo_stale = \<lparr>pr_title = ''Plan'', pr_content = ''three'', pr_cover = None, pr_actor = ''u2'', pr_base_seq = Some 2,
     pr_base_hash = None, pr_resolves = [], pr_created_by = [], pr_answers = []\<rparr>"

definition demo_step :: "page_engine \<times> sequence_result" where
  "demo_step = projr (sequence demo_host demo_call ''s1'' ''p1'' demo_stale ''member'' demo_engine)"

lemma demo_step_runs: "sequence demo_host demo_call ''s1'' ''p1'' demo_stale ''member'' demo_engine = Inr (fst demo_step, snd demo_step)"
proof -
  have "\<not> isl (sequence demo_host demo_call ''s1'' ''p1'' demo_stale ''member'' demo_engine)" by code_simp
  then show ?thesis unfolding demo_step_def by (simp add: sum.collapse(2))
qed

lemma demo_live: "get_space_page ''s1'' ''p1'' (en_db demo_engine) = Some (demo_page\<lparr>pg_updated_at := ''t0''\<rparr>)"
  by code_simp

lemma demo_ok: "page_ok (pe_digest demo_host) ''s1'' ''p1'' (en_db demo_engine)"
  by code_simp

lemma demo_separate: "hashes_separate (pe_digest demo_host) ({body_of_page (demo_page\<lparr>pg_updated_at := ''t0''\<rparr>), body_of_proposal demo_stale}
    \<union> body_of_side ` set (list_conflict_sides (pe_digest demo_host) ''p1'' ''s1'' (en_db demo_engine)))"
  by code_simp

text \<open>The step opens a second side and publishes version 5.\<close>

lemma demo_outcome: "sr_outcome (snd demo_step) = SideEdit"
  "map cs_by (list_conflict_sides id ''p1'' ''s1'' (en_db (fst demo_step))) = [''u2'', ''u1'']"
  by code_simp+

theorem open_sides_stay_capped_witness:
  "page_ok (pe_digest demo_host) ''s1'' ''p1'' (en_db (fst demo_step)) \<and> sr_outcome (snd demo_step) = SideEdit
   \<and> length (list_conflict_sides (pe_digest demo_host) ''p1'' ''s1'' (en_db (fst demo_step))) = 2
   \<and> sides_bytes (list_conflict_sides (pe_digest demo_host) ''p1'' ''s1'' (en_db (fst demo_step))) \<le> sides_max_bytes"
proof -
  have two: "length (list_conflict_sides (pe_digest demo_host) ''p1'' ''s1'' (en_db (fst demo_step))) = 2"
    using arg_cong [OF demo_outcome(2), of length] by (simp add: demo_host_def)
  from open_sides_stay_capped [OF demo_live demo_ok demo_step_runs refl] two demo_outcome(1) show ?thesis by simp
qed

theorem sequence_numbers_grow_witness:
  "\<exists>q. get_space_page ''s1'' ''p1'' (en_db (fst demo_step)) = Some q \<and> sr_page (snd demo_step) = Some q
     \<and> 4 < pg_seq q \<and> pg_seq q \<le> max_seq"
proof -
  have "pg_seq (demo_page\<lparr>pg_updated_at := ''t0''\<rparr>) \<le> max_seq" "claim_of (demo_page\<lparr>pg_updated_at := ''t0''\<rparr>) demo_stale \<le> max_seq"
    by (simp_all add: demo_page_def claim_of_def demo_stale_def max_seq_def)
  from sequence_numbers_grow [OF demo_live demo_ok demo_step_runs this] show ?thesis
    using demo_outcome(1) by (auto simp: demo_page_def)
qed

theorem no_version_is_lost_witness:
  "(''Plan'', ''one'', []) \<in> held_versions id ''s1'' ''p1'' (en_db (fst demo_step))
   \<and> (''Plan'', ''three'', []) \<in> held_versions id ''s1'' ''p1'' (en_db (fst demo_step))"
proof -
  have "\<not> absorbs_nothing demo_host ''s1'' (demo_page\<lparr>pg_updated_at := ''t0''\<rparr>) demo_stale (en_db demo_engine)"
    by (simp add: absorbs_nothing_def find_base_def demo_stale_def)
  moreover have "version_key (body_of_page (demo_page\<lparr>pg_updated_at := ''t0''\<rparr>)) = (''Plan'', ''one'', [])"
    "version_key (body_of_proposal demo_stale) = (''Plan'', ''three'', [])"
    by code_simp+
  moreover have "pe_digest demo_host = id" by (simp add: demo_host_def)
  ultimately show ?thesis
    using no_version_is_lost [OF demo_live demo_ok demo_step_runs demo_separate] demo_outcome(1) by simp
qed

end
