(* ===== verification/Page_Wire_Props.thy ===== *)
theory Page_Wire_Props
  imports Page_Wire Page_Store
begin

text \<open>
  What the host puts on the wire reads back as the version it published: the broadcast and the answer to a
  proposer parse to the same version, with its conflict sides and the answered proposal.
\<close>

section \<open>Parts of a payload\<close>

definition wire_side :: "(string \<Rightarrow> string) \<Rightarrow> conflict_side \<Rightarrow> conflict_side" where
  "wire_side digest s =
     s\<lparr>cs_hash := version_hash digest (cs_title s) (cs_content s) (cs_cover s), cs_cover := truthy_opt (cs_cover s),
       cs_base_seq := max 0 (cs_base_seq s)\<rparr>"

definition answer_ok :: "sequenced \<Rightarrow> bool" where
  "answer_ok sq \<longleftrightarrow> sq_outcome sq \<in> {''applied'', ''refused''} \<and> is_hash_text (sq_hash sq)
     \<and> (case sq_reason sq of None \<Rightarrow> True | Some r \<Rightarrow> r \<in> set refusal_reasons)"

lemma nonempty_str_jopt [simp]: "nonempty_str (jopt s) = truthy_opt s"
  by (cases s) (simp_all add: jopt_def truthy_opt_def)

lemma hash_cover [simp]: "version_hash digest t c (truthy_opt v) = version_hash digest t c v"
  by (cases v) (simp_all add: version_hash_def version_text_def truthy_opt_def or_empty_def)

lemma str_or_empty_JStr [simp]: "str_or_empty py_str (JStr s) = s"
  by (simp add: str_or_empty_def)

lemma str_or_empty_JNull [simp]: "str_or_empty py_str JNull = []"
  by (simp add: str_or_empty_def)

lemma either_str_JStr [simp]: "either_str py_str (JStr s) JNull = s"
  by (simp add: either_str_def)

lemma either_str_JNull [simp]: "either_str py_str JNull JNull = []"
  by (simp add: either_str_def)

lemma side_wire: "cs_at s \<noteq> [] \<Longrightarrow> side_from_wire digest (JObj (side_to_wire s)) = Some (wire_side digest s)"
  by (simp add: side_from_wire_def side_to_wire_def wire_side_def jget_def Let_def)

lemma those_some: "(\<And>x. x \<in> set xs \<Longrightarrow> f x = Some (g x)) \<Longrightarrow> List.those (map f xs) = Some (map g xs)"
  by (induction xs) simp_all

lemma sides_wire:
  assumes "map_of p ''conflict'' = Some (JList (map (\<lambda>s. JObj (side_to_wire s)) sides))"
    and "length sides \<le> max_conflict_sides" "list_all (\<lambda>s. cs_at s \<noteq> []) sides"
  shows "conflict_from_wire digest p = Some (map (wire_side digest) sides)"
proof -
  have "List.those (map (\<lambda>s. side_from_wire digest (JObj (side_to_wire s))) sides) = Some (map (wire_side digest) sides)"
    using assms(3) by (intro those_some) (simp add: side_wire list_all_iff)
  with assms(1,2) show ?thesis by (simp add: conflict_from_wire_def o_def)
qed

lemma sequenced_wire: "answer_ok sq \<Longrightarrow> sequenced_from_wire (JObj (sequenced_to_wire sq)) = Inr (Some sq)"
  by (cases "sq_reason sq")
    (auto simp: answer_ok_def sequenced_from_wire_def sequenced_to_wire_def jget_def Let_def refusal_reasons_def)

section \<open>A published version\<close>

definition version_of :: "(string \<Rightarrow> string) \<Rightarrow> page \<Rightarrow> conflict_side list \<Rightarrow> sequenced option \<Rightarrow> bool \<Rightarrow> canonical_version" where
  "version_of digest p sides sq created =
     \<lparr>cv_seq = pg_seq p, cv_title = pg_title p, cv_content = pg_content p, cv_cover = truthy_opt (pg_cover p),
      cv_created_by = (if created then pg_created_by p else []), cv_created_at = [], cv_updated_at = pg_updated_at p,
      cv_last_editor = page_editor p, cv_conflict = map (wire_side digest) sides, cv_sequenced = sq,
      cv_has_state = (pg_title p \<noteq> [])\<rparr>"

text \<open>The keys the parser reads.\<close>

lemma canonical_from_wire_keys:
  assumes "jget p ''seq'' = JNum (pg_seq q)" "jget p ''title'' = JStr (pg_title q)" "jget p ''content'' = JStr (pg_content q)"
    and "jget p ''cover_image_url'' = jopt (pg_cover q)" "jget p ''created_at'' = JNull" "jget p ''occurred_at'' = JNull"
    and "jget p ''updated_at'' = JStr (pg_updated_at q)" "jget p ''last_editor_user_id'' = JStr (page_editor q)"
    and "jget p ''created_by'' = (if created then JStr (pg_created_by q) else JNull)"
    and "map_of p ''conflict'' = Some (JList (map (\<lambda>s. JObj (side_to_wire s)) sides))"
    and "map_of p ''sequenced'' = map_option (\<lambda>s. JObj (sequenced_to_wire s)) sq"
    and "0 \<le> pg_seq q" "pg_seq q \<le> max_seq" "length sides \<le> max_conflict_sides" "list_all (\<lambda>s. cs_at s \<noteq> []) sides"
    and "\<And>s. sq = Some s \<Longrightarrow> answer_ok s"
  shows "canonical_from_wire digest py_str p = Inr (Some (version_of digest q sides sq created))"
proof -
  have "conflict_from_wire digest p = Some (map (wire_side digest) sides)"
    by (rule sides_wire [OF assms(10,14,15)])
  moreover have "(if has_key p ''sequenced''
      then res_bind (sequenced_from_wire (jget p ''sequenced'')) (\<lambda>s. Inr (case s of None \<Rightarrow> None | Some q \<Rightarrow> Some (Some q)))
      else Inr (Some None)) = (Inr (Some sq) :: exn + sequenced option option)"
    using assms(11,16) by (cases sq) (simp_all add: has_key_def jget_def sequenced_wire)
  ultimately show ?thesis
    using assms(12,13) by (simp add: canonical_from_wire_def assms(1-9) version_of_def Let_def)
qed

lemma broadcast_read_back:
  assumes "0 \<le> pg_seq p" "pg_seq p \<le> max_seq" "length sides \<le> max_conflict_sides"
    and "list_all (\<lambda>s. cs_at s \<noteq> []) sides" "answer_ok sq"
  shows "canonical_from_wire digest py_str (broadcast_payload digest space p actor sides (Some sq) created)
    = Inr (Some (version_of digest p sides (Some sq) created))"
  by (rule canonical_from_wire_keys) (use assms in
    \<open>simp_all add: broadcast_payload_def canonical_extras_def jget_def Let_def\<close>)

text \<open>
  C31. A version the host publishes is read back as it was, by every member from the broadcast and by the
  proposer from its answer: the same number, body and conflict sides, and the proposal it answers.\<close>

theorem published_versions_read_back:
  assumes "0 \<le> pg_seq p" "pg_seq p \<le> max_seq" "length sides \<le> max_conflict_sides"
    and "list_all (\<lambda>s. cs_at s \<noteq> []) sides" "answer_ok sq"
  shows "canonical_from_wire digest py_str (broadcast_payload digest space p actor sides (Some sq) created)
      = Inr (Some (version_of digest p sides (Some sq) created))
    \<and> canonical_from_wire digest py_str (ack_payload digest space pid (Some p) sides sq)
      = Inr (Some (version_of digest p sides (Some sq) True))"
proof
  show "canonical_from_wire digest py_str (ack_payload digest space pid (Some p) sides sq)
      = Inr (Some (version_of digest p sides (Some sq) True))"
    by (rule canonical_from_wire_keys) (use assms in
      \<open>simp_all add: ack_payload_def canonical_extras_def jget_def\<close>)
qed (rule broadcast_read_back [OF assms])

definition demo_published :: page where
  "demo_published = (page_defaults ''p1'' ''Plan'' ''one'' ''u0'' ''t0'' ''t1'')\<lparr>pg_seq := 5, pg_cover := Some ''/c.png''\<rparr>"

definition demo_answer :: sequenced where
  "demo_answer = \<lparr>sq_proposer = ''member'', sq_hash = ''sha256:'' @ replicate 64 CHR ''0'', sq_outcome = ''applied'', sq_reason = None\<rparr>"

definition demo_open_side :: conflict_side where
  "demo_open_side = \<lparr>cs_hash = [], cs_title = ''Plan'', cs_content = ''two'', cs_by = ''u1'', cs_at = ''t0'', cs_cover = None, cs_base_seq = 3\<rparr>"

theorem published_versions_read_back_witness:
  "canonical_from_wire id (\<lambda>_. []) (broadcast_payload id ''s1'' demo_published ''u0'' [demo_open_side] (Some demo_answer) False)
     = Inr (Some (version_of id demo_published [demo_open_side] (Some demo_answer) False))"
proof -
  have "0 \<le> pg_seq demo_published" "pg_seq demo_published \<le> max_seq" "length [demo_open_side] \<le> max_conflict_sides"
    "list_all (\<lambda>s. cs_at s \<noteq> []) [demo_open_side]" "answer_ok demo_answer"
    by code_simp+
  from published_versions_read_back [OF this] show ?thesis by blast
qed

end
