(* ===== verification/Page_Converge.thy ===== *)
theory Page_Converge
  imports Page_Member Page_Host_Safety Page_Wire_Props
begin

text \<open>
  What the page engine is for: members that mirror the host's versions, in whatever order and however often
  they arrive, show the same page, the host's.
\<close>

section \<open>What a household shows of a page\<close>

type_synonym page_view = "int \<times> (string \<times> string \<times> string) \<times> (string \<times> string \<times> string \<times> string \<times> string) list"

definition side_view :: "conflict_side \<Rightarrow> string \<times> string \<times> string \<times> string \<times> string" where
  "side_view s = (cs_at s, cs_by s, version_key (body_of_side s))"

definition view_of_page :: "(string \<Rightarrow> string) \<Rightarrow> string \<Rightarrow> string \<Rightarrow> page_db \<Rightarrow> page_view option" where
  "view_of_page digest space pid db =
     map_option (\<lambda>p. (pg_seq p, version_key (body_of_page p), map side_view (list_conflict_sides digest pid space db)))
       (get_space_page space pid db)"

definition view_of_version :: "canonical_version \<Rightarrow> page_view" where
  "view_of_version v =
     (cv_seq v, version_key (body_of_canonical v), map side_view (sort_key cs_at (cv_conflict v)))"

lemma side_view_normal [simp]: "side_view (normal_side digest s) = side_view s"
  by (simp add: side_view_def)

section \<open>One mirrored version\<close>

lemma get_after_sides [simp]: "get_space_page space pid (set_conflict_sides pid' space' sides db) = get_space_page space pid db"
  by (simp add: get_space_page_def live_row_def set_conflict_sides_def)

lemma list_after_set:
  "distinct (map cs_at sides) \<Longrightarrow>
     list_conflict_sides digest pid space (set_conflict_sides pid space sides db) = map (normal_side digest) (sort_key cs_at sides)"
  unfolding set_conflict_sides_def by (rule list_after_replace)

lemma get_after_save:
  assumes "get_space_page space pid db = Some p" "pg_id p = pid" "pg_id u = pid"
  shows "\<exists>q. get_space_page space pid (fst (save_page now space u db)) = Some q \<and> same_version q u"
proof -
  obtain r where "pd_pages db pid = Some r" "pg_space_id (rw_page r) = Some space" "rw_deleted_at r = None" "rw_page r = p"
    using assms(1) by (auto simp: get_space_page_row)
  then show ?thesis
    using assms(2,3) by (auto simp: save_page_def upsert_row_def get_space_page_row same_version_def body_of_page_def)
qed

lemma get_other_tables:
  "get_space_page space pid (db\<lparr>pd_history := h\<rparr>) = get_space_page space pid db"
  "get_space_page space pid (clear_draft_base pid' space' db) = get_space_page space pid db"
  "get_space_page space pid (remember_page c p space' db) = get_space_page space pid db"
  by (simp_all add: get_space_page_def live_row_def clear_draft_base_def remember_page_def remember_def save_version_def)

definition holds_settled :: "string \<Rightarrow> string \<Rightarrow> page_db \<Rightarrow> bool" where
  "holds_settled space pid db \<longleftrightarrow>
     (case get_space_page space pid db of None \<Rightarrow> False | Some p \<Rightarrow> pg_id p = pid \<and> pg_pending p = None)"

definition version_ok :: "canonical_version \<Rightarrow> bool" where
  "version_ok v \<longleftrightarrow> cv_has_state v \<and> distinct (map cs_at (cv_conflict v))"

lemma emit_out_db: "en_db (if b then st else emit out st) = en_db st"
  by simp

lemma mirror_apply_settled:
  assumes "get_space_page space pid (en_db st) = Some p" "pg_id p = pid" "version_ok v"
  shows "holds_settled space pid (en_db (mirror_apply env c space p v False rem st))
    \<and> view_of_page digest space pid (en_db (mirror_apply env c space p v False rem st)) = Some (view_of_version v)"
proof -
  let ?db1 = "clear_draft_base pid space
      (if rem \<and> pg_pending p = None \<and> body_of_page p \<noteq> body_of_canonical v then remember_page c p space (en_db st) else en_db st)"
  let ?db2 = "fst (save_page (pc_now c) space (mirrored_page c p v) ?db1)"
  have "get_space_page space pid ?db1 = Some p" using assms(1) by (simp add: get_other_tables)
  from get_after_save [OF this assms(2), of "mirrored_page c p v"]
  obtain q where q: "get_space_page space pid ?db2 = Some q" "same_version q (mirrored_page c p v)"
    using assms(2) by (auto simp: mirrored_page_def Let_def)
  have db: "en_db (mirror_apply env c space p v False rem st) = set_conflict_sides pid space (cv_conflict v) ?db2"
    using assms(2,3) by (simp add: mirror_apply_def version_ok_def Let_def)
  have "list_conflict_sides digest pid space (set_conflict_sides pid space (cv_conflict v) ?db2)
      = map (normal_side digest) (sort_key cs_at (cv_conflict v))"
    using assms(3) by (intro list_after_set) (simp add: version_ok_def)
  then show ?thesis
    using q assms(2) unfolding db
    by (simp add: holds_settled_def view_of_page_def view_of_version_def same_version_def mirrored_page_def Let_def
        body_of_page_def body_of_canonical_def o_def)
qed

lemma mirror_settled:
  assumes "holds_settled space pid (en_db st)" "version_ok v" "view_of_page digest space pid (en_db st) = Some w"
  shows "holds_settled space pid (en_db (fst (mirror env c space pid v st)))
    \<and> view_of_page digest space pid (en_db (fst (mirror env c space pid v st)))
        = Some (if fst w < cv_seq v then view_of_version v else w)"
proof -
  obtain p where p: "get_space_page space pid (en_db st) = Some p" "pg_id p = pid" "pg_pending p = None"
    using assms(1) by (auto simp: holds_settled_def split: option.splits)
  have w: "fst w = pg_seq p" using assms(3) p(1) by (auto simp: view_of_page_def)
  have out: "en_db (fst (mirror env c space pid v st)) = en_db (fst (mirror_page env c space p v False st))"
    using p(1) by (auto simp: mirror_def Let_def split: prod.splits option.splits)
  show ?thesis
  proof (cases "pg_seq p < cv_seq v")
    case True
    then have "fst (mirror_page env c space p v False st) = mirror_apply env c space p v False True st"
      using p(3) by (simp add: mirror_page_def Let_def split: option.split)
    with mirror_apply_settled [OF p(1,2) assms(2)] show ?thesis unfolding out w using True by simp
  next
    case False
    then have "fst (mirror_page env c space p v False st) = st"
      using p(3) by (simp add: mirror_page_def Let_def split: option.split)
    then show ?thesis unfolding out w using False assms(1,3) by simp
  qed
qed

section \<open>A member that mirrors many versions\<close>

fun mirror_run :: "page_env \<Rightarrow> string \<Rightarrow> string \<Rightarrow> (page_call \<times> canonical_version) list \<Rightarrow> page_engine \<Rightarrow> page_engine" where
  "mirror_run env space pid [] st = st"
| "mirror_run env space pid ((c, v) # cvs) st = mirror_run env space pid cvs (fst (mirror env c space pid v st))"

definition newest_view :: "page_view \<Rightarrow> page_view list \<Rightarrow> page_view" where
  "newest_view w vs = foldl (\<lambda>w v. if fst w < fst v then v else w) w vs"

definition coherent :: "page_view set \<Rightarrow> bool" where
  "coherent vs \<longleftrightarrow> (\<forall>v \<in> vs. \<forall>w \<in> vs. fst v = fst w \<longrightarrow> v = w)"

lemma newest_in: "newest_view w vs \<in> insert w (set vs) \<and> (\<forall>v \<in> insert w (set vs). fst v \<le> fst (newest_view w vs))"
proof (induction vs arbitrary: w)
  case (Cons v vs)
  show ?case
  proof (cases "fst w < fst v")
    case True
    then have "newest_view w (v # vs) = newest_view v vs" by (simp add: newest_view_def)
    with Cons [of v] True show ?thesis by fastforce
  next
    case False
    then have "newest_view w (v # vs) = newest_view w vs" by (simp add: newest_view_def)
    with Cons [of w] False show ?thesis by fastforce
  qed
qed (simp add: newest_view_def)

lemma newest_unique:
  assumes "coherent (insert w (set vs))" "u \<in> insert w (set vs)" "\<forall>v \<in> insert w (set vs). fst v \<le> fst u"
  shows "newest_view w vs = u"
proof -
  note n = newest_in [of w vs]
  then have "fst (newest_view w vs) = fst u" using assms(2,3) by (meson dual_order.antisym)
  then show ?thesis using n assms(1,2) unfolding coherent_def by blast
qed

lemma mirror_run_view:
  assumes "holds_settled space pid (en_db st)" "list_all (\<lambda>(c, v). version_ok v) cvs"
    and "view_of_page digest space pid (en_db st) = Some w"
  shows "view_of_page digest space pid (en_db (mirror_run env space pid cvs st))
    = Some (newest_view w (map (\<lambda>(c, v). view_of_version v) cvs))"
  using assms
proof (induction cvs arbitrary: st w)
  case (Cons cv cvs)
  obtain c v where cv: "cv = (c, v)" by force
  let ?w = "if fst w < cv_seq v then view_of_version v else w"
  from Cons.prems cv mirror_settled [of space pid st v digest w env c]
  have "holds_settled space pid (en_db (fst (mirror env c space pid v st)))"
    "view_of_page digest space pid (en_db (fst (mirror env c space pid v st))) = Some ?w" by simp_all
  from Cons.IH [OF this(1) _ this(2)] Cons.prems(2) cv
  have "view_of_page digest space pid (en_db (mirror_run env space pid (cv # cvs) st))
      = Some (newest_view ?w (map (\<lambda>(c, v). view_of_version v) cvs))" by simp
  moreover have "fst (view_of_version v) = cv_seq v" by (simp add: view_of_version_def)
  ultimately show ?case unfolding cv by (simp add: newest_view_def)
qed (simp add: newest_view_def)

text \<open>
  C12. Two members that hold the same version without a draft and receive the same versions of the host, in any
  order and any number of times, show the same page in the end: the version with the highest number.\<close>

theorem members_converge:
  assumes "holds_settled space pid (en_db st)" "holds_settled space pid (en_db st')"
    and "view_of_page digest space pid (en_db st) = Some w" "view_of_page digest space pid (en_db st') = Some w"
    and "list_all (\<lambda>(c, v). version_ok v) cvs" "snd ` set cvs = snd ` set cvs'"
    and "coherent (insert w (view_of_version ` snd ` set cvs))"
  shows "view_of_page digest space pid (en_db (mirror_run env space pid cvs st))
      = view_of_page digest space pid (en_db (mirror_run env' space pid cvs' st'))
    \<and> map_option fst (view_of_page digest space pid (en_db (mirror_run env space pid cvs st)))
      = Some (Max (insert (fst w) (cv_seq ` snd ` set cvs)))"
proof -
  let ?view = "\<lambda>(c :: page_call, v). view_of_version v"
  have f: "?view = view_of_version \<circ> snd" by auto
  have seen: "set (map ?view xs) = view_of_version ` snd ` set xs" for xs unfolding f by (simp only: set_map image_comp)
  note sets = seen [of cvs] seen [of cvs', folded assms(6)]
  have "list_all (\<lambda>(c, v). version_ok v) cvs'"
  proof -
    have "\<forall>v \<in> snd ` set cvs'. version_ok v" using assms(5) unfolding assms(6) [symmetric] by (auto simp: list_all_iff)
    then show ?thesis by (auto simp: list_all_iff)
  qed
  note views = mirror_run_view [OF assms(1,5,3), of env] mirror_run_view [OF assms(2) this assms(4), of env']
  note n = newest_in [of w "map ?view cvs'", unfolded sets]
  have "coherent (insert w (set (map ?view cvs)))" unfolding sets by (rule assms(7))
  from newest_unique [OF this] n have same: "newest_view w (map ?view cvs) = newest_view w (map ?view cvs')"
    unfolding sets by blast
  have "fst ` insert w (view_of_version ` snd ` set cvs) = insert (fst w) (cv_seq ` snd ` set cvs)"
    by (simp add: image_image view_of_version_def)
  moreover have "fst (newest_view w (map ?view cvs')) = Max (fst ` insert w (view_of_version ` snd ` set cvs))"
    by (rule Max_eqI [symmetric]) (use n in auto)
  ultimately show ?thesis using views same by simp
qed

section \<open>A concrete member\<close>

definition demo_member :: page_engine where
  "demo_member = \<lparr>en_db = fst (save_page 0 ''s1'' demo_page empty_page_db), en_limiter = [], en_floor_raised = [], en_out = []\<rparr>"

definition demo_version :: "int \<Rightarrow> string \<Rightarrow> canonical_version" where
  "demo_version n content =
     \<lparr>cv_seq = n, cv_title = ''Plan'', cv_content = content, cv_cover = None, cv_created_by = [], cv_created_at = [],
      cv_updated_at = ''t1'', cv_last_editor = ''u1'', cv_conflict = [], cv_sequenced = None, cv_has_state = True\<rparr>"

definition demo_in_order :: "(page_call \<times> canonical_version) list" where
  "demo_in_order = [(demo_call, demo_version 5 ''two''), (demo_call, demo_version 6 ''three'')]"

definition demo_out_of_order :: "(page_call \<times> canonical_version) list" where
  "demo_out_of_order = [(demo_call, demo_version 6 ''three''), (demo_call, demo_version 5 ''two''), (demo_call, demo_version 6 ''three'')]"

theorem members_converge_witness:
  "view_of_page id ''s1'' ''p1'' (en_db (mirror_run demo_host ''s1'' ''p1'' demo_in_order demo_member))
     = view_of_page id ''s1'' ''p1'' (en_db (mirror_run demo_host ''s1'' ''p1'' demo_out_of_order demo_member))
   \<and> map_option fst (view_of_page id ''s1'' ''p1'' (en_db (mirror_run demo_host ''s1'' ''p1'' demo_in_order demo_member))) = Some 6"
proof -
  have h: "holds_settled ''s1'' ''p1'' (en_db demo_member)" by code_simp
  have w: "view_of_page id ''s1'' ''p1'' (en_db demo_member) = Some (4, (''Plan'', ''one'', []), [])" by code_simp
  have ok: "list_all (\<lambda>(c, v). version_ok v) demo_in_order" by code_simp
  have same: "snd ` set demo_in_order = snd ` set demo_out_of_order"
    by (auto simp: demo_in_order_def demo_out_of_order_def)
  have views: "view_of_version ` snd ` set demo_in_order = {(5, (''Plan'', ''two'', []), []), (6, (''Plan'', ''three'', []), [])}"
    by (simp add: demo_in_order_def demo_version_def view_of_version_def version_key_def body_of_canonical_def or_empty_def)
  have coherent: "coherent (insert (4, (''Plan'', ''one'', []), []) (view_of_version ` snd ` set demo_in_order))"
    unfolding views by (simp add: coherent_def)
  have top: "Max (insert (fst (4, (''Plan'', ''one'', []), [])) (cv_seq ` snd ` set demo_in_order)) = (6 :: int)"
    by (simp add: demo_in_order_def demo_version_def)
  from members_converge [OF h h w w ok same coherent, of demo_host demo_host] show ?thesis
    unfolding top by blast
qed

end
