(* ===== verification/Page_End_To_End.thy ===== *)
theory Page_End_To_End
  imports Page_Converge
begin

text \<open>
  The two sides of the page engine together: a host sequences any proposals, its broadcasts travel to a member
  over a network that reorders and repeats them, and the member ends with the host's page.
\<close>

section \<open>What the host broadcasts\<close>

fun payload_of :: "(string \<Rightarrow> string) \<Rightarrow> page_output \<Rightarrow> jobj list" where
  "payload_of digest (Broadcast space p actor sides sq created previous) = [broadcast_payload digest space p actor sides sq created]"
| "payload_of digest _ = []"

definition payloads :: "(string \<Rightarrow> string) \<Rightarrow> page_engine \<Rightarrow> jobj list" where
  "payloads digest st = concat (map (payload_of digest) (en_out st))"

lemma payloads_emit [simp]: "payloads digest (emit out st) = payloads digest st @ payload_of digest out"
  by (simp add: payloads_def emit_def)

lemma payloads_db [simp]: "payloads digest (st\<lparr>en_db := db\<rparr>) = payloads digest st"
  by (simp add: payloads_def)

lemma payloads_same: "en_out st1 = en_out st \<Longrightarrow> payloads digest st1 = payloads digest st"
  by (simp add: payloads_def)

lemma payloads_ack [simp]: "payloads digest (send_ack env space pid p sq proposer st) = payloads digest st"
  by (simp add: send_ack_def)

lemma payloads_limited: "limited c key limit window st = (ok, st') \<Longrightarrow> payloads digest st' = payloads digest st"
  by (auto simp: limited_def payloads_def split: prod.splits)

lemma payloads_refuse [simp]: "payloads digest (refuse env c space pid ph proposer reason st) = payloads digest st"
  by (auto simp: refuse_def payloads_limited split: prod.splits bool.splits)

definition answer_of :: "page_env \<Rightarrow> sequence_result \<Rightarrow> proposal \<Rightarrow> string \<Rightarrow> sequenced" where
  "answer_of env res prop proposer =
     \<lparr>sq_proposer = or_text proposer (pe_own env), sq_hash = answer_hash env prop,
      sq_outcome = (if sr_outcome res = RefusedEdit then ''refused'' else ''applied''), sq_reason = sr_reason res\<rparr>"

lemma payloads_publish:
  "payloads digest (publish_result env res space pid prop proposer st) = payloads digest st
     @ (case sr_page res of
          Some p \<Rightarrow> if sr_outcome res \<in> {AppliedEdit, SideEdit}
            then [broadcast_payload digest space p (pr_actor prop) (sr_sides res) (Some (answer_of env res prop proposer)) (sr_created res)]
            else []
        | None \<Rightarrow> [])"
  by (simp add: publish_result_def answer_of_def Let_def split: option.split bool.split)

section \<open>One call of the host\<close>

definition host_ready :: "page_env \<Rightarrow> string \<Rightarrow> string \<Rightarrow> page_engine \<Rightarrow> bool" where
  "host_ready env space pid st \<longleftrightarrow>
     (case get_space_page space pid (en_db st) of
        None \<Rightarrow> False
      | Some p \<Rightarrow> page_ok (pe_digest env) space pid (en_db st) \<and> 0 \<le> pg_seq p \<and> pg_seq p \<le> max_seq \<and> pg_title p \<noteq> [])"

lemma host_ready_same: "en_db st' = en_db st \<Longrightarrow> host_ready env space pid st' = host_ready env space pid st"
  unfolding host_ready_def by (simp only:)

definition proposal_ok :: "page_env \<Rightarrow> proposal \<Rightarrow> bool" where
  "proposal_ok env prop \<longleftrightarrow> pr_title prop \<noteq> [] \<and> is_hash_text (answer_hash env prop)
     \<and> (case pr_base_seq prop of None \<Rightarrow> True | Some n \<Rightarrow> n \<le> max_seq)"

lemma merge_title: "merge_bodies base p prop = Inr (Some b) \<Longrightarrow> pg_title p \<noteq> [] \<Longrightarrow> fst b \<noteq> []"
  by (auto simp: merge_bodies_def or_text_def split: prod.splits scalar_merge.splits sum.splits if_splits)

lemma plan_title:
  assumes "plan_of env c space p prop db = Inr plan" "pg_title p \<noteq> []" "pr_title prop \<noteq> []"
  shows "fst (plan_body (floored_page p prop) plan) \<noteq> []"
proof -
  have page: "fst (body_of_page p) \<noteq> []" and edit: "fst (body_of_proposal prop) \<noteq> []"
    using assms(2,3) by (simp_all add: body_of_page_def body_of_proposal_def)
  from assms(1) show ?thesis unfolding plan_of_def
  proof (cases rule: plan_edit_cases)
    case (merge base b)
    then have "fst b \<noteq> []" using assms(2) by (intro merge_title [of base "floored_page p prop"]) simp_all
    then show ?thesis using merge(4) by (simp add: plan_body_def)
  qed (use page edit in \<open>simp_all add: plan_body_def\<close>)
qed

lemma side_view_wire [simp]: "side_view (wire_side digest s) = side_view s"
  by (simp add: side_view_def wire_side_def version_key_def body_of_side_def)

lemma wire_side_at [simp]: "cs_at (wire_side digest s) = cs_at s"
  by (simp add: wire_side_def)

lemma view_of_published:
  assumes "distinct (map cs_at sides)"
    and "get_space_page space pid db = Some q"
    and "list_conflict_sides digest pid space db = map (normal_side digest) (sort_key cs_at sides)"
  shows "view_of_page digest space pid db = Some (view_of_version (version_of digest q sides sq created))"
proof -
  have "sort_key cs_at (map (wire_side digest) sides) = map (wire_side digest) (sort_key cs_at sides)"
    by (simp add: sort_key_map)
  then show ?thesis using assms
    by (simp add: view_of_page_def view_of_version_def version_of_def o_def version_key_def body_of_page_def body_of_canonical_def)
qed

lemma call_publishes:
  assumes "host_ready env space pid st" "proposal_ok env prop"
    and "sequence env c space pid prop proposer st = Inr (st', res)"
    and "view_of_page (pe_digest env) space pid (en_db st) = Some w"
  shows "host_ready env space pid st' \<and>
    (payloads (pe_digest env) st' = payloads (pe_digest env) st \<and> en_db st' = en_db st
     \<or> (\<exists>payload v. payloads (pe_digest env) st' = payloads (pe_digest env) st @ [payload]
          \<and> canonical_from_wire (pe_digest env) py_str payload = Inr (Some v) \<and> version_ok v
          \<and> view_of_page (pe_digest env) space pid (en_db st') = Some (view_of_version v) \<and> fst w < cv_seq v))"
proof -
  obtain p where p: "get_space_page space pid (en_db st) = Some p" "page_ok (pe_digest env) space pid (en_db st)"
    "0 \<le> pg_seq p" "pg_seq p \<le> max_seq" "pg_title p \<noteq> []"
    using assms(1) by (auto simp: host_ready_def split: option.splits)
  have w: "fst w = pg_seq p" using assms(4) p(1) by (auto simp: view_of_page_def)
  have pid: "pg_id p = pid" using p(1,2) by (auto simp: page_ok_def get_space_page_row)
  have claim: "claim_of p prop \<le> max_seq" using assms(2) p(4) by (auto simp: claim_of_def proposal_ok_def split: option.splits)
  from p(1) assms(3) show ?thesis
  proof (cases rule: sequence_page_cases)
    case (limited st1)
    have "payloads (pe_digest env) st' = payloads (pe_digest env) st"
      unfolding limited(4) payloads_refuse by (rule payloads_same [OF limited(3)])
    with limited(1) assms(1) host_ready_same [OF limited(1)] show ?thesis by blast
  next
    case (edit st1)
    have out: "payloads (pe_digest env) st' = payloads (pe_digest env) st
        @ (case sr_page res of
            Some p \<Rightarrow> if sr_outcome res \<in> {AppliedEdit, SideEdit}
              then [broadcast_payload (pe_digest env) space p (pr_actor prop) (sr_sides res) (Some (answer_of env res prop proposer)) (sr_created res)]
              else []
          | None \<Rightarrow> [])"
      by (subst edit(3)) (simp only: payloads_publish payloads_db payloads_same [OF edit(2)])
    show ?thesis
    proof (cases "sr_outcome res = AppliedEdit \<or> sr_outcome res = SideEdit")
      case False
      then have "en_db st' = en_db st" using sequence_number_step [OF p(1,2) assms(3) p(4) claim] by simp
      moreover from False out have "payloads (pe_digest env) st' = payloads (pe_digest env) st" by (simp split: option.splits)
      ultimately show ?thesis using assms(1) host_ready_same by blast
    next
      case True
      from edit(1) obtain plan where plan: "plan_of env c space p prop (en_db st) = Inr plan"
        and c: "(en_db st', res) = commit_plan c space p (floored_page p prop) (judged_proposal p prop) plan (en_db st)"
        by (cases rule: sequence_edit_cases) (use True in auto)
      from sequence_edit_committed [OF p(1) pid plan c] obtain r q h where
        db': "en_db st' = (en_db st)\<lparr>pd_history := h, pd_pages := (pd_pages (en_db st))(pid \<mapsto> r),
          pd_snapshots := replace_sides pid space (ep_sides plan) (pd_snapshots (en_db st))\<rparr>"
        and q: "pg_id q = pid" "get_space_page space pid (en_db st') = Some q" "body_of_page q = plan_body (floored_page p prop) plan"
          "sr_page res = Some q" "sr_sides res = ep_sides plan"
        and reason: "sr_reason res = None"
        by metis
      have sides: "sides_ok (ep_sides plan)"
        using plan_of_ok(1) [OF plan] p(2) pid by (simp add: page_ok_def)
      then have at: "distinct (map cs_at (ep_sides plan))" "list_all (\<lambda>s. cs_at s \<noteq> []) (ep_sides plan)"
        "length (ep_sides plan) \<le> max_conflict_sides" by (simp_all add: sides_ok_def capped_length)
      have title: "pg_title q \<noteq> []"
      proof -
        have "fst (body_of_page q) \<noteq> []" unfolding q(3) using plan_title [OF plan p(5)] assms(2) by (simp add: proposal_ok_def)
        then show ?thesis by (simp add: body_of_page_def)
      qed
      have seq: "pg_seq p < pg_seq q" "pg_seq q \<le> max_seq"
        using sequence_number_step [OF p(1,2) assms(3) p(4) claim] True q(2) by auto
      have answer: "answer_ok (answer_of env res prop proposer)"
        using assms(2) True reason by (auto simp: answer_ok_def answer_of_def proposal_ok_def)
      let ?sq = "Some (answer_of env res prop proposer)"
      let ?v = "version_of (pe_digest env) q (ep_sides plan) ?sq (sr_created res)"
      have "canonical_from_wire (pe_digest env) py_str
          (broadcast_payload (pe_digest env) space q (pr_actor prop) (ep_sides plan) ?sq (sr_created res)) = Inr (Some ?v)"
        using broadcast_read_back [OF _ seq(2) at(3,2) answer] p(3) seq(1) by simp
      moreover have "version_ok ?v" using at(1) title by (simp add: version_ok_def version_of_def o_def)
      moreover have "view_of_page (pe_digest env) space pid (en_db st') = Some (view_of_version ?v)"
        by (rule view_of_published [OF at(1) q(2)]) (unfold db', rule list_after_replace [OF at(1)])
      moreover have "fst w < cv_seq ?v" using seq w by (simp add: version_of_def)
      moreover have "host_ready env space pid st'"
        using sequence_keeps_page_ok [OF p(1,2) assms(3)] q(2) seq p(3) title by (simp add: host_ready_def)
      moreover have "payloads (pe_digest env) st' = payloads (pe_digest env) st
          @ [broadcast_payload (pe_digest env) space q (pr_actor prop) (ep_sides plan) ?sq (sr_created res)]"
        using out True q(4,5) by simp
      ultimately show ?thesis by blast
    qed
  qed
qed

section \<open>A run of the host\<close>

fun host_run :: "page_env \<Rightarrow> string \<Rightarrow> string \<Rightarrow> (page_call \<times> proposal \<times> string) list \<Rightarrow> page_engine \<Rightarrow> exn + page_engine" where
  "host_run env space pid [] st = Inr st"
| "host_run env space pid ((c, prop, proposer) # steps) st =
     res_bind (sequence env c space pid prop proposer st) (\<lambda>(st', res). host_run env space pid steps st')"

lemma host_run_publishes:
  assumes "host_ready env space pid st" "list_all (\<lambda>(c, prop, proposer). proposal_ok env prop) steps"
    and "host_run env space pid steps st = Inr st'" "view_of_page (pe_digest env) space pid (en_db st) = Some w"
  shows "\<exists>pls vs. payloads (pe_digest env) st' = payloads (pe_digest env) st @ pls
    \<and> map (canonical_from_wire (pe_digest env) py_str) pls = map (Inr \<circ> Some) vs
    \<and> list_all version_ok vs
    \<and> sorted_wrt (<) (map fst (w # map view_of_version vs))
    \<and> view_of_page (pe_digest env) space pid (en_db st') = Some (last (w # map view_of_version vs))"
  using assms
proof (induction steps arbitrary: st w)
  case Nil
  then show ?case by (intro exI [of _ "[]"]) simp
next
  case (Cons step steps)
  obtain c pr proposer where step: "step = (c, pr, proposer)" by (metis surj_pair)
  obtain st1 res where call: "sequence env c space pid pr proposer st = Inr (st1, res)"
    and rest: "host_run env space pid steps st1 = Inr st'"
    using Cons.prems(3) unfolding step by (auto simp: res_bind_Inr)
  have ok: "proposal_ok env pr" "list_all (\<lambda>(c, prop, proposer). proposal_ok env prop) steps"
    using Cons.prems(2) unfolding step by simp_all
  note one = call_publishes [OF Cons.prems(1) ok(1) call Cons.prems(4), of py_str]
  from one have ready: "host_ready env space pid st1" by blast
  from one consider "payloads (pe_digest env) st1 = payloads (pe_digest env) st" "en_db st1 = en_db st"
    | payload v where "payloads (pe_digest env) st1 = payloads (pe_digest env) st @ [payload]"
        "canonical_from_wire (pe_digest env) py_str payload = Inr (Some v)" "version_ok v"
        "view_of_page (pe_digest env) space pid (en_db st1) = Some (view_of_version v)" "fst w < cv_seq v"
    by blast
  then show ?case
  proof cases
    case 1
    from Cons.prems(4) have "view_of_page (pe_digest env) space pid (en_db st1) = Some w" unfolding 1(2) .
    from Cons.IH [OF ready ok(2) rest this] show ?thesis unfolding 1(1) .
  next
    case (2 payload v)
    from Cons.IH [OF ready ok(2) rest 2(4)] obtain pls vs where ih:
      "payloads (pe_digest env) st' = payloads (pe_digest env) st1 @ pls"
      "map (canonical_from_wire (pe_digest env) py_str) pls = map (Inr \<circ> Some) vs"
      "list_all version_ok vs" "sorted_wrt (<) (map fst (view_of_version v # map view_of_version vs))"
      "view_of_page (pe_digest env) space pid (en_db st') = Some (last (view_of_version v # map view_of_version vs))"
      by blast
    have v: "fst (view_of_version v) = cv_seq v" by (simp add: view_of_version_def)
    have "sorted_wrt (<) (map fst (w # map view_of_version (v # vs)))"
      using ih(4) 2(5) v by (auto simp: order_less_trans)
    with ih 2 show ?thesis by (intro exI [of _ "payload # pls"] exI [of _ "v # vs"]) simp
  qed
qed

section \<open>A member behind a lossless but disorderly network\<close>

text \<open>What a member does with a payload of the host: parse it, and mirror the version if it is one.\<close>

fun deliver :: "page_env \<Rightarrow> string \<Rightarrow> string \<Rightarrow> (page_call \<times> jobj) list \<Rightarrow> page_engine \<Rightarrow> page_engine" where
  "deliver env space pid [] st = st"
| "deliver env space pid ((c, payload) # cps) st =
     deliver env space pid cps
       (case canonical_from_wire (pe_digest env) (pe_py_str env) payload of
          Inr (Some v) \<Rightarrow> fst (mirror env c space pid v st)
        | _ \<Rightarrow> st)"

lemma deliver_mirrors:
  assumes "\<forall>(c, payload) \<in> set cps. canonical_from_wire (pe_digest env) (pe_py_str env) payload = Inr (Some (read payload))"
  shows "deliver env space pid cps st = mirror_run env space pid (map (\<lambda>(c, payload). (c, read payload)) cps) st"
  using assms by (induction cps arbitrary: st) auto

text \<open>Views with growing numbers are told apart by them, and the last is the newest.\<close>

lemma sorted_views:
  assumes "sorted_wrt (<) (map fst (w # ws))"
  shows "coherent (insert w (set ws))" "last (w # ws) \<in> insert w (set ws)"
    "\<forall>v \<in> insert w (set ws). fst v \<le> fst (last (w # ws))"
proof -
  let ?vs = "w # ws"
  have strict: "fst (?vs ! i) < fst (?vs ! j)" if "i < j" "j < length ?vs" for i j
  proof -
    from that have "map fst ?vs ! i < map fst ?vs ! j" by (intro sorted_wrt_nth_less [OF assms]) simp_all
    moreover have "i < length ?vs" using that by simp
    ultimately show ?thesis using that(2) by (simp only: nth_map)
  qed
  have "distinct (map fst ?vs)" using assms by (simp only: strict_sorted_iff)
  then have "inj_on fst (set ?vs)" by (simp only: distinct_map)
  then have "coherent (set ?vs)" unfolding coherent_def inj_on_def by blast
  then show "coherent (insert w (set ws))" by simp
  show "last (w # ws) \<in> insert w (set ws)" by (metis last_in_set list.simps(3) list.simps(15))
  have "fst v \<le> fst (last ?vs)" if v: "v \<in> set ?vs" for v
  proof -
    from v obtain i where "i < length ?vs" "?vs ! i = v" by (metis in_set_conv_nth)
    then show ?thesis using strict [of i "length ws"] by (cases "i = length ws") (auto simp: last_conv_nth)
  qed
  then show "\<forall>v \<in> insert w (set ws). fst v \<le> fst (last (w # ws))" by simp
qed

text \<open>
  C4. Everyone ends with the host's page: a host that sequences any proposals from any senders, and a member that
  starts with the host's version, has no draft of its own and receives every broadcast at least once, in any
  order and with any repetitions, show the same page: the same number, title, body and cover, and the same
  conflict sides.\<close>

theorem members_reach_the_host:
  assumes "host_ready env space pid host" "list_all (\<lambda>(c, prop, proposer). proposal_ok env prop) steps"
    and "en_out host = []" "host_run env space pid steps host = Inr host'"
    and "holds_settled space pid (en_db member)" "pe_digest menv = pe_digest env"
    and "view_of_page (pe_digest env) space pid (en_db member) = view_of_page (pe_digest env) space pid (en_db host)"
    and "snd ` set deliveries = set (payloads (pe_digest env) host')"
  shows "view_of_page (pe_digest env) space pid (en_db (deliver menv space pid deliveries member))
    = view_of_page (pe_digest env) space pid (en_db host')"
proof -
  obtain w where w: "view_of_page (pe_digest env) space pid (en_db host) = Some w"
    using assms(1) by (auto simp: host_ready_def view_of_page_def split: option.splits)
  have "payloads (pe_digest env) host = []" using assms(3) by (simp add: payloads_def)
  with host_run_publishes [OF assms(1,2,4) w, of "pe_py_str menv"] obtain vs where run:
    "map (canonical_from_wire (pe_digest env) (pe_py_str menv)) (payloads (pe_digest env) host') = map (Inr \<circ> Some) vs"
    "list_all version_ok vs" "sorted_wrt (<) (map fst (w # map view_of_version vs))"
    "view_of_page (pe_digest env) space pid (en_db host') = Some (last (w # map view_of_version vs))"
    by auto
  define read where "read payload = (case canonical_from_wire (pe_digest env) (pe_py_str menv) payload of Inr (Some v) \<Rightarrow> v | _ \<Rightarrow> undefined)"
    for payload
  have reads: "vs = map read (payloads (pe_digest env) host')"
    and parsed: "\<forall>payload \<in> set (payloads (pe_digest env) host').
      canonical_from_wire (pe_digest env) (pe_py_str menv) payload = Inr (Some (read payload))"
  proof -
    have "\<forall>payload \<in> set pls. canonical_from_wire d py payload \<in> (Inr \<circ> Some) ` set us"
      if "map (canonical_from_wire d py) pls = map (Inr \<circ> Some) us" for d py pls and us :: "canonical_version list"
      using that by (metis image_set in_set_conv_nth imageI image_eqI list.set_map)
    from this [OF run(1)] show p: "\<forall>payload \<in> set (payloads (pe_digest env) host').
      canonical_from_wire (pe_digest env) (pe_py_str menv) payload = Inr (Some (read payload))"
      unfolding read_def by fastforce
    have "map (Inr \<circ> Some) vs = map (\<lambda>payload. Inr (Some (read payload)) :: exn + _) (payloads (pe_digest env) host')"
      unfolding run(1) [symmetric] by (rule map_cong [OF refl]) (use p in blast)
    then have "map (Inr \<circ> Some) vs = (map (Inr \<circ> Some) (map read (payloads (pe_digest env) host')) :: (exn + _) list)"
      by (simp add: o_def)
    then show "vs = map read (payloads (pe_digest env) host')"
      by (rule map_injective) (simp add: inj_on_def)
  qed
  let ?cvs = "map (\<lambda>(c, payload). (c, read payload)) deliveries"
  have seen: "snd ` set ?cvs = set vs"
    unfolding reads set_map assms(8) [symmetric] by (force simp: image_iff)
  have "deliver menv space pid deliveries member = mirror_run menv space pid ?cvs member"
    using parsed assms(6,8) by (intro deliver_mirrors) force
  moreover have "view_of_page (pe_digest env) space pid (en_db (mirror_run menv space pid ?cvs member))
      = Some (newest_view w (map (\<lambda>(c, v). view_of_version v) ?cvs))"
    using assms(5,7) w run(2) seen by (intro mirror_run_view) (force simp: list_all_iff)+
  moreover have "newest_view w (map (\<lambda>(c, v). view_of_version v) ?cvs) = last (w # map view_of_version vs)"
  proof -
    have "set (map (\<lambda>(c, v). view_of_version v) ?cvs) = view_of_version ` snd ` set ?cvs" by force
    then have views: "set (map (\<lambda>(c, v). view_of_version v) ?cvs) = set (map view_of_version vs)"
      unfolding seen by simp
    show ?thesis
      by (rule newest_unique) (unfold views, use sorted_views [OF run(3)] in auto)
  qed
  ultimately show ?thesis using run(4) by simp
qed

section \<open>A concrete household pair\<close>

text \<open>A digest of the right shape: one of sixteen values, by the sum of the characters.\<close>

definition demo_digest :: "string \<Rightarrow> string" where
  "demo_digest s = replicate 63 CHR ''0'' @ [hex_digit (sum_list (map of_char s) mod 16)]"

definition demo_pair :: page_env where
  "demo_pair = demo_host\<lparr>pe_digest := demo_digest\<rparr>"

definition demo_start :: page_engine where
  "demo_start = \<lparr>en_db = fst (save_page 0 ''s1'' demo_page empty_page_db), en_limiter = [], en_floor_raised = [], en_out = []\<rparr>"

text \<open>A member's edit of the current version, then another member's edit of a version the host does not know.\<close>

definition demo_steps :: "(page_call \<times> proposal \<times> string) list" where
  "demo_steps =
     [(demo_call, demo_stale\<lparr>pr_content := ''four'', pr_actor := ''u1'', pr_base_seq := Some 4\<rparr>, ''first''),
      (demo_call, demo_stale, ''second'')]"

definition demo_end :: page_engine where
  "demo_end = projr (host_run demo_pair ''s1'' ''p1'' demo_steps demo_start)"

definition demo_deliveries :: "(page_call \<times> jobj) list" where
  "demo_deliveries = map (\<lambda>payload. (demo_call, payload)) (rev (payloads demo_digest demo_end) @ payloads demo_digest demo_end)"

lemma demo_run: "host_run demo_pair ''s1'' ''p1'' demo_steps demo_start = Inr demo_end"
proof -
  have "\<not> isl (host_run demo_pair ''s1'' ''p1'' demo_steps demo_start)" by code_simp
  then show ?thesis unfolding demo_end_def by simp
qed

theorem members_reach_the_host_witness:
  "view_of_page demo_digest ''s1'' ''p1'' (en_db (deliver demo_pair ''s1'' ''p1'' demo_deliveries demo_start))
     = Some (6, (''Plan'', ''four'', []), [(iso_micros 1700000000000000, ''u2'', ''Plan'', ''three'', [])])"
proof -
  have d: "pe_digest demo_pair = demo_digest" by (simp add: demo_pair_def)
  have ready: "host_ready demo_pair ''s1'' ''p1'' demo_start" by code_simp
  have ok: "list_all (\<lambda>(c, p, proposer). proposal_ok demo_pair p) demo_steps" by code_simp
  have member: "holds_settled ''s1'' ''p1'' (en_db demo_start)" by code_simp
  have none: "en_out demo_start = []" by (simp add: demo_start_def)
  have seen: "snd ` set demo_deliveries = set (payloads (pe_digest demo_pair) demo_end)"
    unfolding d by (simp add: demo_deliveries_def image_image)
  have last: "view_of_page demo_digest ''s1'' ''p1'' (en_db demo_end)
      = Some (6, (''Plan'', ''four'', []), [(iso_micros 1700000000000000, ''u2'', ''Plan'', ''three'', [])])"
    by code_simp
  from members_reach_the_host [OF ready ok none demo_run member refl refl seen] last show ?thesis
    unfolding d by simp
qed

end
