(* ===== verification/Media_Framing.thy ===== *)
theory Media_Framing
  imports Prelude "HOL-Library.Word"
begin

text \<open>
  The binary frames of the federation data channels: \<open>federation/media_framing.py\<close> (media chunks, also as an
  HTTPS inbox body) and \<open>federation/app_framing.py\<close> (app messages), which share one layout and differ in the
  payload ceiling, and the receive loops of \<open>federation/transport.py\<close> that cut a stream of messages back into
  frames.  A byte is an 8-bit word; lengths are 32-bit big-endian.
\<close>

section \<open>Bytes\<close>

type_synonym byte = "8 word"

text \<open>\<open>struct.pack(">I", n)\<close> and \<open>unpack_from(">I", buf, off)\<close>.\<close>

definition be32 :: "nat \<Rightarrow> byte list" where
  "be32 n = map (\<lambda>k. of_nat (n div 256 ^ k)) [3, 2, 1, 0]"

definition u32_at :: "byte list \<Rightarrow> nat \<Rightarrow> nat" where
  "u32_at buf off = foldl (\<lambda>a b. a * 256 + unat b) 0 (take 4 (drop off buf))"

section \<open>Frames\<close>

datatype framing_error =
    FrameTypeOutOfRange
  | HeaderTooLarge
  | PayloadTooLarge
  | ShortBuffer
  | NotAMediaBody
  | UnsupportedFrameSuite
  | TrailingBytes
  | UnexpectedFrameType

record frame =
  fr_type :: int
  fr_header :: "byte list"
  fr_payload :: "byte list"

definition max_header_bytes :: nat where "max_header_bytes = 2 ^ 20"

definition media_max_payload_bytes :: nat where "media_max_payload_bytes = 4 * 2 ^ 20"

definition app_max_payload_bytes :: nat where "app_max_payload_bytes = 2 ^ 20"

definition frame_type_media_chunk :: int where "frame_type_media_chunk = 1"

definition frame_type_app_msg :: int where "frame_type_app_msg = 1"

definition encode_frame :: "nat \<Rightarrow> byte list \<Rightarrow> byte list \<Rightarrow> int \<Rightarrow> framing_error + byte list" where
  "encode_frame max_payload header payload ftype =
     (if \<not> (0 \<le> ftype \<and> ftype \<le> 255) then Inl FrameTypeOutOfRange
      else if max_header_bytes < length header then Inl HeaderTooLarge
      else if max_payload < length payload then Inl PayloadTooLarge
      else Inr (of_int ftype # be32 (length header) @ header @ be32 (length payload) @ payload))"

text \<open>
  Where the frame at an offset lies: offset and length of its header and of its payload, or none while the
  buffer does not hold all of it.
\<close>

definition frame_span :: "nat \<Rightarrow> byte list \<Rightarrow> nat \<Rightarrow> framing_error + (nat \<times> nat \<times> nat \<times> nat) option" where
  "frame_span max_payload buf off =
     (let n = length buf
      in if n < off + 5 then Inr None
         else let header_len = u32_at buf (off + 1)
           in if max_header_bytes < header_len then Inl HeaderTooLarge
              else let header_off = off + 5; plen_off = header_off + header_len
                in if n < plen_off + 4 then Inr None
                   else let payload_len = u32_at buf plen_off
                     in if max_payload < payload_len then Inl PayloadTooLarge
                        else let payload_off = plen_off + 4
                          in if n < payload_off + payload_len then Inr None
                             else Inr (Some (header_off, header_len, payload_off, payload_len)))"

definition frame_at :: "byte list \<Rightarrow> nat \<Rightarrow> nat \<times> nat \<times> nat \<times> nat \<Rightarrow> frame" where
  "frame_at buf off span =
     (case span of (header_off, header_len, payload_off, payload_len) \<Rightarrow>
       \<lparr>fr_type = uint (buf ! off), fr_header = take header_len (drop header_off buf),
        fr_payload = take payload_len (drop payload_off buf)\<rparr>)"

definition decode_frame :: "nat \<Rightarrow> byte list \<Rightarrow> framing_error + frame" where
  "decode_frame max_payload buf =
     res_bind (frame_span max_payload buf 0) (\<lambda>span.
       case span of None \<Rightarrow> Inl ShortBuffer | Some s \<Rightarrow> Inr (frame_at buf 0 s))"

lemma frame_span_advances:
  "frame_span max_payload buf off = Inr (Some (ho, hl, po, pl)) \<Longrightarrow>
     ho = off + 5 \<and> po = off + 9 + hl \<and> po + pl \<le> length buf"
  by (auto simp: frame_span_def Let_def split: if_splits)

text \<open>The loop of \<open>iter_complete_frames\<close>: the frames from an offset on, and where the first incomplete one starts.\<close>

function frames_from :: "nat \<Rightarrow> byte list \<Rightarrow> nat \<Rightarrow> framing_error + frame list \<times> nat" where
  "frames_from max_payload buf off =
     (if length buf \<le> off then Inr ([], off)
      else case frame_span max_payload buf off of
        Inl e \<Rightarrow> Inl e
      | Inr None \<Rightarrow> Inr ([], off)
      | Inr (Some span) \<Rightarrow>
          (case frames_from max_payload buf (fst (snd (snd span)) + snd (snd (snd span))) of
             Inl e \<Rightarrow> Inl e
           | Inr (fs, tail) \<Rightarrow> Inr (frame_at buf off span # fs, tail)))"
  by pat_completeness auto
termination
  by (relation "measure (\<lambda>(max_payload, buf, off). length buf - off)")
    (auto dest!: frame_span_advances)

declare frames_from.simps [simp del]

definition iter_complete_frames :: "nat \<Rightarrow> byte list \<Rightarrow> framing_error + frame list \<times> byte list" where
  "iter_complete_frames max_payload buf =
     res_bind (frames_from max_payload buf 0) (\<lambda>(fs, off). Inr (fs, drop off buf))"

section \<open>The two channels\<close>

definition media_encode :: "byte list \<Rightarrow> byte list \<Rightarrow> int \<Rightarrow> framing_error + byte list" where
  "media_encode header payload ftype = encode_frame media_max_payload_bytes header payload ftype"

definition app_encode :: "byte list \<Rightarrow> byte list \<Rightarrow> int \<Rightarrow> framing_error + byte list" where
  "app_encode header payload ftype = encode_frame app_max_payload_bytes header payload ftype"

definition media_decode :: "byte list \<Rightarrow> framing_error + frame" where
  "media_decode buf = decode_frame media_max_payload_bytes buf"

definition app_decode :: "byte list \<Rightarrow> framing_error + frame" where
  "app_decode buf = decode_frame app_max_payload_bytes buf"

definition media_iter :: "byte list \<Rightarrow> framing_error + frame list \<times> byte list" where
  "media_iter buf = iter_complete_frames media_max_payload_bytes buf"

definition app_iter :: "byte list \<Rightarrow> framing_error + frame list \<times> byte list" where
  "app_iter buf = iter_complete_frames app_max_payload_bytes buf"

text \<open>
  One message of a channel: the running buffer and what is handed to the inbound handler (header and
  payload of each frame of the known type).  A malformed buffer is dropped; what the handler does with a
  frame does not touch the buffer.
\<close>

type_synonym channel_state = "byte list \<times> (byte list \<times> byte list) list"

definition drain_message :: "(byte list \<Rightarrow> framing_error + frame list \<times> byte list) \<Rightarrow> int
    \<Rightarrow> byte list \<Rightarrow> channel_state \<Rightarrow> channel_state" where
  "drain_message iter ftype msg st =
     (case iter (fst st @ msg) of
        Inl e \<Rightarrow> ([], snd st)
      | Inr (fs, leftover) \<Rightarrow>
          (leftover, snd st @ map (\<lambda>f. (fr_header f, fr_payload f)) (filter (\<lambda>f. fr_type f = ftype) fs)))"

definition drain_media :: "byte list list \<Rightarrow> channel_state \<Rightarrow> channel_state" where
  "drain_media msgs st = fold (drain_message media_iter frame_type_media_chunk) msgs st"

definition drain_app :: "byte list list \<Rightarrow> channel_state \<Rightarrow> channel_state" where
  "drain_app msgs st = fold (drain_message app_iter frame_type_app_msg) msgs st"

section \<open>The HTTPS inbox body\<close>

definition media_body_magic :: "byte list" where "media_body_magic = [0, 0x53, 0x48, 0x4D]"

definition media_frame_suite_v1 :: string where "media_frame_suite_v1 = ''fed-media-v1''"

definition frame_suite_ids :: "(byte \<times> string) list" where
  "frame_suite_ids = [(1, media_frame_suite_v1)]"

definition suite_id_by_name :: "(string \<times> byte) list" where
  "suite_id_by_name = map (\<lambda>(k, v). (v, k)) frame_suite_ids"

definition is_media_body :: "byte list \<Rightarrow> bool" where
  "is_media_body buf \<longleftrightarrow> take (length media_body_magic) buf = media_body_magic"

definition encode_body :: "byte list \<Rightarrow> byte list \<Rightarrow> string \<Rightarrow> framing_error + byte list" where
  "encode_body header payload suite =
     (case map_of suite_id_by_name suite of
        None \<Rightarrow> Inl UnsupportedFrameSuite
      | Some i \<Rightarrow> res_bind (media_encode header payload frame_type_media_chunk)
          (\<lambda>f. Inr (media_body_magic @ [i] @ f)))"

definition decode_body :: "byte list \<Rightarrow> framing_error + string \<times> frame" where
  "decode_body buf =
     (let prefix = length media_body_magic + 1
      in if \<not> is_media_body buf \<or> length buf < prefix then Inl NotAMediaBody
         else case map_of frame_suite_ids (buf ! length media_body_magic) of
           None \<Rightarrow> Inl UnsupportedFrameSuite
         | Some suite \<Rightarrow>
             res_bind (frame_span media_max_payload_bytes buf prefix) (\<lambda>span.
               case span of
                 None \<Rightarrow> Inl ShortBuffer
               | Some s \<Rightarrow>
                   if fst (snd (snd s)) + snd (snd (snd s)) \<noteq> length buf then Inl TrailingBytes
                   else if uint (buf ! prefix) \<noteq> frame_type_media_chunk then Inl UnexpectedFrameType
                   else Inr (suite, frame_at buf prefix s)))"

end
