(* ===== verification/Media_Chunks.thy ===== *)
theory Media_Chunks
  imports Media_Framing
begin

text \<open>
  How a file is cut into media chunks and which chunks a receiver takes: \<open>domain/media_chunking.py\<close>, the
  chunk checks of \<open>services/inbound_media_store.py\<close> and of \<open>services/federation_inbound_service.py\<close>, and the
  caps of \<open>domain/media_constraints.py\<close> they use.
\<close>

section \<open>Chunk sizes\<close>

definition frame_overhead_bytes :: int where "frame_overhead_bytes = 16 * 1024"

definition https_chunk_bytes :: int where "https_chunk_bytes = 512 * 1024"

definition routed_chunk_bytes :: int where "routed_chunk_bytes = 384 * 1024"

definition max_media_chunks :: int where "max_media_chunks = 4096"

definition min_channel_chunk_bytes :: int where "min_channel_chunk_bytes = 64 * 1024"

definition https_media_max_body_bytes :: int where
  "https_media_max_body_bytes = https_chunk_bytes + frame_overhead_bytes"

text \<open>\<open>-(-a // b)\<close>.\<close>

definition ceil_div :: "int \<Rightarrow> int \<Rightarrow> int" where
  "ceil_div a b = - ((- a) div b)"

text \<open>A limit of \<open>None\<close> or 0 is unknown.\<close>

definition known_limit :: "int option \<Rightarrow> int option" where
  "known_limit lim = (case lim of None \<Rightarrow> None | Some m \<Rightarrow> if m = 0 then None else Some m)"

definition fits_channel :: "int \<Rightarrow> int option \<Rightarrow> bool" where
  "fits_channel chunk_len lim =
     (case known_limit lim of None \<Rightarrow> True | Some m \<Rightarrow> chunk_len + frame_overhead_bytes \<le> m)"

definition media_chunk_bytes :: "int option \<Rightarrow> int \<Rightarrow> int" where
  "media_chunk_bytes lim file_size_bytes =
     (case known_limit lim of
        None \<Rightarrow> https_chunk_bytes
      | Some m \<Rightarrow>
          let channel_chunk = min https_chunk_bytes (m - frame_overhead_bytes);
              least = max min_channel_chunk_bytes (ceil_div file_size_bytes max_media_chunks)
          in if channel_chunk < least then https_chunk_bytes else channel_chunk)"

definition routed_media_chunk_bytes :: "int \<Rightarrow> int" where
  "routed_media_chunk_bytes file_size_bytes = max routed_chunk_bytes (ceil_div file_size_bytes max_media_chunks)"

definition chunk_count :: "int \<Rightarrow> int \<Rightarrow> int" where
  "chunk_count nbytes chunk_bytes = max 1 (ceil_div nbytes chunk_bytes)"

record chunk_seq =
  sq_index :: int
  sq_count :: int
  sq_final :: bool

definition split_into_chunks :: "byte list \<Rightarrow> nat \<Rightarrow> (chunk_seq \<times> byte list) list" where
  "split_into_chunks data chunk_bytes =
     (let total = chunk_count (int (length data)) (int chunk_bytes)
      in map (\<lambda>i. (\<lparr>sq_index = int i, sq_count = total, sq_final = (int i = total - 1)\<rparr>,
            take chunk_bytes (drop (i * chunk_bytes) data)))
          [0..<nat total])"

section \<open>What a chunk becomes on the JSON paths\<close>

text \<open>
  Lengths only.  To an older household the chunk travels as text: base64 in the payload, the payload encrypted
  and written as unpadded base64 in the envelope.  Over the mesh the payload is first sealed for its target and
  the sealed text, unpadded base64 too, is the payload of a \<open>SPACE_ROUTED\<close> envelope.  \<open>extra\<close> is the rest of
  the chunk's payload, \<open>routing\<close> the rest of the routed one, \<open>header\<close> the rest of the envelope.
\<close>

definition default_json_max_bytes :: int where "default_json_max_bytes = 1 * 1024 * 1024"

definition inbox_max_body_bytes :: int where "inbox_max_body_bytes = default_json_max_bytes"

text \<open>\<open>base64.b64encode\<close>, padded to quadruples, and \<open>b64url_encode\<close> with the padding stripped.\<close>

definition b64_len :: "int \<Rightarrow> int" where
  "b64_len n = 4 * ceil_div n 3"

definition b64url_len :: "int \<Rightarrow> int" where
  "b64url_len n = ceil_div (4 * n) 3"

text \<open>A nonce of 12 bytes, a colon, the ciphertext with its tag of 16 bytes.\<close>

definition encrypted_len :: "int \<Rightarrow> int" where
  "encrypted_len payload_len = b64url_len 12 + 1 + b64url_len (payload_len + 16)"

definition json_payload_len :: "int \<Rightarrow> int \<Rightarrow> int" where
  "json_payload_len extra chunk_len = extra + b64_len chunk_len"

definition sealed_payload_len :: "int \<Rightarrow> int \<Rightarrow> int" where
  "sealed_payload_len routing inner_len = routing + b64url_len (inner_len + 16)"

definition json_envelope_len :: "bool \<Rightarrow> int \<Rightarrow> int \<Rightarrow> int \<Rightarrow> int \<Rightarrow> int" where
  "json_envelope_len routed header routing extra chunk_len =
     header + encrypted_len
       (if routed then sealed_payload_len routing (json_payload_len extra chunk_len)
        else json_payload_len extra chunk_len)"

section \<open>What a receiver takes\<close>

definition mib :: int where "mib = 1024 * 1024"

definition image_max_upload_bytes :: int where "image_max_upload_bytes = 20 * mib"

definition video_max_upload_bytes :: int where "video_max_upload_bytes = 200 * mib"

definition file_max_upload_bytes :: int where "file_max_upload_bytes = 25 * mib"

definition audio_max_upload_bytes :: int where "audio_max_upload_bytes = 25 * mib"

definition space_media_max_bytes :: int where "space_media_max_bytes = video_max_upload_bytes"

definition dm_media_max_bytes :: "string \<Rightarrow> int" where
  "dm_media_max_bytes mime_type =
     (let major = ascii_lower (strip_ws (hd (split_char CHR ''/'' mime_type)))
      in if major = ''image'' \<or> major = ''audio''
         then max (max image_max_upload_bytes audio_max_upload_bytes) file_max_upload_bytes
         else video_max_upload_bytes)"

datatype size_refusal = OverTheCap | NotOfThisFile

definition inbound_size_refusal :: "int \<Rightarrow> int \<Rightarrow> int \<Rightarrow> int \<Rightarrow> size_refusal option" where
  "inbound_size_refusal total_size chunk_len chunk_cnt max_bytes =
     (if max_bytes < total_size then Some OverTheCap
      else if total_size < chunk_len \<or> (1 < chunk_cnt \<and> total_size \<le> (chunk_cnt - 1) * chunk_len)
      then Some NotOfThisFile else None)"

definition parse_chunk_meta :: "(string \<Rightarrow> int option) \<Rightarrow> json \<Rightarrow> json \<Rightarrow> (int \<times> int) option" where
  "parse_chunk_meta int_of_str index cnt =
     (case (py_int int_of_str index, py_int int_of_str cnt) of
        (Some i, Some n) \<Rightarrow>
          if \<not> (1 \<le> n \<and> n \<le> max_media_chunks) \<or> \<not> (0 \<le> i \<and> i < n) then None else Some (i, n)
      | _ \<Rightarrow> None)"

definition declared_size :: "(string \<Rightarrow> int option) \<Rightarrow> jobj \<Rightarrow> byte list \<Rightarrow> int \<Rightarrow> int" where
  "declared_size int_of_str payload raw chunk_cnt =
     (if chunk_cnt = 1 then int (length raw)
      else let v = jget payload ''file_size_bytes''
        in case py_int int_of_str (if truthy v then v else JNum (- 1)) of None \<Rightarrow> - 1 | Some n \<Rightarrow> n)"

definition size_declared :: "int \<Rightarrow> int \<Rightarrow> bool" where
  "size_declared total_size chunk_cnt \<longleftrightarrow> chunk_cnt = 1 \<or> 0 < total_size"

definition size_allowed :: "int \<Rightarrow> int \<Rightarrow> int \<Rightarrow> int \<Rightarrow> bool" where
  "size_allowed total_size chunk_len chunk_cnt max_bytes \<longleftrightarrow>
     inbound_size_refusal total_size chunk_len chunk_cnt max_bytes = None"

end
