(* ===== verification/Media_Store.thy ===== *)
theory Media_Store
  imports Media_Chunks
begin

text \<open>
  Landing the chunks of one file: \<open>store_chunk\<close>, \<open>present_parts\<close>, \<open>drop_parts\<close> and \<open>publish_once\<close> of
  \<open>services/inbound_media_store.py\<close>, called by \<open>_assemble_space_chunk\<close> of
  \<open>services/federation_inbound_service.py\<close>.  Each \<open>await\<close> of a file operation is one step of a call, so any
  interleaving of calls is a sequence of steps; a call may also die between two steps (an I/O error, a
  cancellation, a crash).  One part directory and one target file are modelled: those of one transfer.
\<close>

section \<open>File names\<close>

function decimal :: "nat \<Rightarrow> string" where
  "decimal n = (if n < 10 then [char_of (48 + n)] else decimal (n div 10) @ [char_of (48 + n mod 10)])"
  by pat_completeness auto
termination
  by (relation "measure id") auto

declare decimal.simps [simp del]

text \<open>\<open>f"{index:06d}"\<close>.\<close>

definition part_name :: "nat \<Rightarrow> string" where
  "part_name index = replicate (6 - length (decimal index)) CHR ''0'' @ decimal index"

text \<open>\<open>str.isdigit()\<close> of the 8-bit characters: the digits and the superscripts.\<close>

definition is_py_digit :: "char \<Rightarrow> bool" where
  "is_py_digit c \<longleftrightarrow> (48 \<le> (of_char c :: nat) \<and> (of_char c :: nat) \<le> 57) \<or> (of_char c :: nat) \<in> {178, 179, 185}"

definition tmp_part_name :: "string \<Rightarrow> string" where
  "tmp_part_name token = ''part.tmp-'' @ token"

definition assembling_name :: "string \<Rightarrow> string" where
  "assembling_name token = ''assembling-'' @ token"

section \<open>The disk\<close>

type_synonym files = "(string \<times> byte list) list"

datatype part_node = Absent | SymLink | Folder files

record media_disk =
  md_root_link :: bool
  md_parts :: part_node
  md_target :: "byte list option"
  md_hard_links :: bool

fun node_files :: "part_node \<Rightarrow> files" where
  "node_files (Folder fs) = fs"
| "node_files _ = []"

definition dir_files :: "media_disk \<Rightarrow> files" where
  "dir_files d = node_files (md_parts d)"

definition put_files :: "files \<Rightarrow> media_disk \<Rightarrow> media_disk" where
  "put_files fs d = (case md_parts d of Folder _ \<Rightarrow> d\<lparr>md_parts := Folder fs\<rparr> | _ \<Rightarrow> d)"

text \<open>\<open>remove_quietly\<close> of an entry of the part directory.\<close>

definition remove_file :: "string \<Rightarrow> media_disk \<Rightarrow> media_disk" where
  "remove_file name d = put_files (AList.delete name (dir_files d)) d"

text \<open>\<open>open(name, "wb")\<close>: an empty file, or \<open>FileNotFoundError\<close> when the directory is gone.\<close>

definition open_file :: "string \<Rightarrow> media_disk \<Rightarrow> media_disk option" where
  "open_file name d =
     (case md_parts d of Folder fs \<Rightarrow> Some (d\<lparr>md_parts := Folder (AList.update name [] fs)\<rparr>) | _ \<Rightarrow> None)"

text \<open>Writing an open file: one that was unlinked meanwhile leaves nothing behind.\<close>

definition write_file :: "string \<Rightarrow> byte list \<Rightarrow> media_disk \<Rightarrow> media_disk" where
  "write_file name bytes d =
     (if map_of (dir_files d) name = None then d else put_files (AList.update name bytes (dir_files d)) d)"

definition rename_file :: "string \<Rightarrow> string \<Rightarrow> media_disk \<Rightarrow> media_disk option" where
  "rename_file src dst d =
     (case map_of (dir_files d) src of
        None \<Rightarrow> None
      | Some bytes \<Rightarrow> Some (put_files (AList.update dst bytes (AList.delete src (dir_files d))) d))"

definition present_parts :: "media_disk \<Rightarrow> string list" where
  "present_parts d = filter (\<lambda>n. length n = 6 \<and> list_all is_py_digit n) (map fst (dir_files d))"

section \<open>One call\<close>

text \<open>What a call returns: \<open>None\<close>, \<open>True\<close>, \<open>False\<close>, or that it raised.\<close>

datatype outcome = Waiting | Published | AlreadyThere | Failed

record store_call =
  sc_index :: nat
  sc_count :: nat
  sc_data :: "byte list"
  sc_expected :: int
  sc_part_token :: string
  sc_out_token :: string

text \<open>Where a call is: the next file operation, with what the code holds in its variables there.\<close>

datatype call_point =
    AtTargetCheck
  | AtRootCheck
  | AtMakeDir
  | AtDirCheck
  | AtOpenPart
  | AtWritePart
  | AtRenamePart
  | AtPartFailed
  | AtPartFailedCheck
  | AtListing
  | AtWaitCheck
  | AtOpenOut
  | AtReadPart nat "byte list"
  | AtCloseOut "byte list"
  | AtVanished
  | AtVanishedCheck
  | AtWrongSize
  | AtLink
  | AtFallbackCheck
  | AtFallbackReplace
  | AtRemoveOut outcome
  | AtDropStat outcome
  | AtDropList outcome
  | AtDropFile "string list" outcome
  | AtDropDir outcome
  | Returned outcome

definition drop_stat :: "outcome \<Rightarrow> media_disk \<Rightarrow> call_point \<times> media_disk" where
  "drop_stat r d =
     (case md_parts d of
        Absent \<Rightarrow> (Returned r, d)
      | SymLink \<Rightarrow> (Returned r, d\<lparr>md_parts := Absent\<rparr>)
      | Folder _ \<Rightarrow> (AtDropList r, d))"

definition drop_list :: "outcome \<Rightarrow> media_disk \<Rightarrow> call_point \<times> media_disk" where
  "drop_list r d =
     (case md_parts d of Folder fs \<Rightarrow> (AtDropFile (map fst fs) r, d) | _ \<Rightarrow> (Returned r, d))"

fun drop_file :: "string list \<Rightarrow> outcome \<Rightarrow> media_disk \<Rightarrow> call_point \<times> media_disk" where
  "drop_file [] r d = (AtDropDir r, d)"
| "drop_file (n # ns) r d = (AtDropFile ns r, remove_file n d)"

definition drop_dir :: "outcome \<Rightarrow> media_disk \<Rightarrow> call_point \<times> media_disk" where
  "drop_dir r d = (Returned r, if md_parts d = Folder [] then d\<lparr>md_parts := Absent\<rparr> else d)"

text \<open>\<open>publish_once\<close>: the hard link, and the check and the replacement where there are no hard links.\<close>

definition publish_link :: "string \<Rightarrow> media_disk \<Rightarrow> call_point \<times> media_disk" where
  "publish_link out d =
     (case map_of (dir_files d) out of
        Some bytes \<Rightarrow>
          if \<not> md_hard_links d then (AtFallbackCheck, d)
          else if md_target d \<noteq> None then (AtRemoveOut AlreadyThere, d)
          else (AtRemoveOut Published, d\<lparr>md_target := Some bytes\<rparr>)
      | None \<Rightarrow> (AtFallbackCheck, d))"

definition publish_replace :: "string \<Rightarrow> media_disk \<Rightarrow> call_point \<times> media_disk" where
  "publish_replace out d =
     (case map_of (dir_files d) out of
        Some bytes \<Rightarrow> (AtDropStat Published, remove_file out (d\<lparr>md_target := Some bytes\<rparr>))
      | None \<Rightarrow> (Returned Failed, d))"

text \<open>One step of a call: the operation at its point and where it goes from there.\<close>

fun call_step :: "store_call \<Rightarrow> call_point \<Rightarrow> media_disk \<Rightarrow> call_point \<times> media_disk" where
  "call_step c AtTargetCheck d = (if md_target d \<noteq> None then AtDropStat AlreadyThere else AtRootCheck, d)"
| "call_step c AtRootCheck d = (if md_root_link d then Returned Failed else AtMakeDir, d)"
| "call_step c AtMakeDir d = (AtDirCheck, if md_parts d = Absent then d\<lparr>md_parts := Folder []\<rparr> else d)"
| "call_step c AtDirCheck d = (if md_parts d = SymLink then Returned Failed else AtOpenPart, d)"
| "call_step c AtOpenPart d =
     (case open_file (tmp_part_name (sc_part_token c)) d of
        None \<Rightarrow> (AtPartFailed, d) | Some d' \<Rightarrow> (AtWritePart, d'))"
| "call_step c AtWritePart d = (AtRenamePart, write_file (tmp_part_name (sc_part_token c)) (sc_data c) d)"
| "call_step c AtRenamePart d =
     (case rename_file (tmp_part_name (sc_part_token c)) (part_name (sc_index c)) d of
        None \<Rightarrow> (AtPartFailed, d) | Some d' \<Rightarrow> (AtListing, d'))"
| "call_step c AtPartFailed d = (AtPartFailedCheck, remove_file (tmp_part_name (sc_part_token c)) d)"
| "call_step c AtPartFailedCheck d =
     (if md_target d \<noteq> None then AtDropStat AlreadyThere else Returned Failed, d)"
| "call_step c AtListing d =
     (if set (map part_name [0..<sc_count c]) \<subseteq> set (present_parts d) then AtOpenOut else AtWaitCheck, d)"
| "call_step c AtWaitCheck d = (if md_target d \<noteq> None then AtDropStat AlreadyThere else Returned Waiting, d)"
| "call_step c AtOpenOut d =
     (case open_file (assembling_name (sc_out_token c)) d of
        None \<Rightarrow> (AtVanished, d) | Some d' \<Rightarrow> (AtReadPart 0 [], d'))"
| "call_step c (AtReadPart i acc) d =
     (if sc_count c \<le> i then (AtCloseOut acc, d)
      else case map_of (dir_files d) (part_name i) of
        None \<Rightarrow> (AtVanished, d) | Some bytes \<Rightarrow> (AtReadPart (Suc i) (acc @ bytes), d))"
| "call_step c (AtCloseOut acc) d =
     (if 0 \<le> sc_expected c \<and> int (length acc) \<noteq> sc_expected c then AtWrongSize else AtLink,
      write_file (assembling_name (sc_out_token c)) acc d)"
| "call_step c AtVanished d = (AtVanishedCheck, remove_file (assembling_name (sc_out_token c)) d)"
| "call_step c AtVanishedCheck d = (Returned (if md_target d \<noteq> None then AlreadyThere else Waiting), d)"
| "call_step c AtWrongSize d = (AtDropStat Waiting, remove_file (assembling_name (sc_out_token c)) d)"
| "call_step c AtLink d = publish_link (assembling_name (sc_out_token c)) d"
| "call_step c AtFallbackCheck d =
     (if md_target d \<noteq> None then AtRemoveOut AlreadyThere else AtFallbackReplace, d)"
| "call_step c AtFallbackReplace d = publish_replace (assembling_name (sc_out_token c)) d"
| "call_step c (AtRemoveOut r) d = (AtDropStat r, remove_file (assembling_name (sc_out_token c)) d)"
| "call_step c (AtDropStat r) d = drop_stat r d"
| "call_step c (AtDropList r) d = drop_list r d"
| "call_step c (AtDropFile ns r) d = drop_file ns r d"
| "call_step c (AtDropDir r) d = drop_dir r d"
| "call_step c (Returned r) d = (Returned r, d)"

section \<open>Any number of calls\<close>

type_synonym transfer = "(store_call \<times> call_point) list \<times> media_disk"

definition arrivals :: "store_call list \<Rightarrow> media_disk \<Rightarrow> transfer" where
  "arrivals cs d = (map (\<lambda>c. (c, AtTargetCheck)) cs, d)"

text \<open>
  \<open>progress k\<close>: call \<open>k\<close> does its next operation.  \<open>demise k\<close>: call \<open>k\<close> dies where it is.  A run in which no
  call dies uses the first rule only.
\<close>

inductive progress :: "transfer \<Rightarrow> transfer \<Rightarrow> bool" where
  progress: "k < length cs \<Longrightarrow> cs ! k = (c, p) \<Longrightarrow> (\<forall>r. p \<noteq> Returned r) \<Longrightarrow> call_step c p d = (p', d')
    \<Longrightarrow> progress (cs, d) (cs[k := (c, p')], d')"

inductive transfer_step :: "transfer \<Rightarrow> transfer \<Rightarrow> bool" where
  goes_on: "progress s t \<Longrightarrow> transfer_step s t"
| demise: "k < length cs \<Longrightarrow> cs ! k = (c, p) \<Longrightarrow> (\<forall>r. p \<noteq> Returned r)
    \<Longrightarrow> transfer_step (cs, d) (cs[k := (c, Returned Failed)], d)"

text \<open>What the caller hands on: the checks of \<open>_assemble_space_chunk\<close> before any file is touched.\<close>

definition space_call :: "byte list \<Rightarrow> int \<Rightarrow> int \<Rightarrow> int \<Rightarrow> string \<Rightarrow> string \<Rightarrow> store_call option" where
  "space_call raw index cnt total_size part_token out_token =
     (if \<not> size_declared total_size cnt \<or> \<not> size_allowed total_size (int (length raw)) cnt space_media_max_bytes
      then None
      else Some \<lparr>sc_index = nat index, sc_count = nat cnt, sc_data = raw, sc_expected = total_size,
        sc_part_token = part_token, sc_out_token = out_token\<rparr>)"

end
