(* ===== verification/Media_Store_Names.thy ===== *)
theory Media_Store_Names
  imports Media_Store
begin

text \<open>
  The names in a part directory never collide, and what each file operation does to the entries.
\<close>

section \<open>Names\<close>

definition decimal_value :: "string \<Rightarrow> nat" where
  "decimal_value s = foldl (\<lambda>a c. a * 10 + (of_char c - 48)) 0 s"

lemma decimal_value_decimal: "decimal_value (decimal n) = n"
proof (induction n rule: decimal.induct)
  case (1 n)
  show ?case
  proof (cases "n < 10")
    case True
    then show ?thesis by (subst decimal.simps) (simp add: decimal_value_def)
  next
    case False
    then have "decimal n = decimal (n div 10) @ [char_of (48 + n mod 10)]" by (subst decimal.simps) simp
    then show ?thesis using 1 False by (simp add: decimal_value_def)
  qed
qed

lemma decimal_value_zeros: "decimal_value (replicate k CHR ''0'' @ s) = decimal_value s"
proof -
  have "foldl (\<lambda>a c. a * 10 + (of_char c - 48)) (0 :: nat) (replicate k CHR ''0'') = 0"
    by (induction k) simp_all
  then show ?thesis by (simp add: decimal_value_def)
qed

lemma part_name_inj [simp]: "part_name i = part_name j \<longleftrightarrow> i = j"
  by (metis decimal_value_decimal decimal_value_zeros part_name_def)

lemma decimal_digits: "list_all is_py_digit (decimal n)"
proof (induction n rule: decimal.induct)
  case (1 n)
  have digit: "is_py_digit (char_of (48 + k))" if "k < 10" for k :: nat
    using that by (simp add: is_py_digit_def)
  show ?case
  proof (cases "n < 10")
    case True
    then show ?thesis by (subst decimal.simps) (simp add: digit)
  next
    case False
    then have "decimal n = decimal (n div 10) @ [char_of (48 + n mod 10)]" by (subst decimal.simps) simp
    then show ?thesis using 1 False by (simp add: digit)
  qed
qed

lemma part_name_digits: "list_all is_py_digit (part_name i)"
proof -
  have "is_py_digit CHR ''0''" by (simp add: is_py_digit_def)
  then have "list_all is_py_digit (replicate k CHR ''0'')" for k by (induction k) simp_all
  then show ?thesis using decimal_digits by (simp add: part_name_def)
qed

lemma length_decimal: "n < 10 ^ Suc k \<Longrightarrow> length (decimal n) \<le> Suc k"
proof (induction k arbitrary: n)
  case 0
  then show ?case by (subst decimal.simps) simp
next
  case (Suc k)
  show ?case
  proof (cases "n < 10")
    case True
    then show ?thesis by (subst decimal.simps) simp
  next
    case False
    then have "decimal n = decimal (n div 10) @ [char_of (48 + n mod 10)]" by (subst decimal.simps) simp
    then show ?thesis using Suc.IH [of "n div 10"] Suc.prems by simp
  qed
qed

lemma length_part_name: "i < 10 ^ 6 \<Longrightarrow> length (part_name i) = 6"
  using length_decimal [of i 5] by (simp add: part_name_def)

lemma part_name_other [simp]:
  "part_name i \<noteq> tmp_part_name t" "tmp_part_name t \<noteq> part_name i"
  "part_name i \<noteq> assembling_name t" "assembling_name t \<noteq> part_name i"
proof -
  have "\<not> list_all is_py_digit (tmp_part_name t)" "\<not> list_all is_py_digit (assembling_name t)"
    by (simp_all add: tmp_part_name_def assembling_name_def is_py_digit_def of_char_def)
  then show "part_name i \<noteq> tmp_part_name t" "tmp_part_name t \<noteq> part_name i"
    "part_name i \<noteq> assembling_name t" "assembling_name t \<noteq> part_name i"
    using part_name_digits [of i] by metis+
qed

lemma tmp_names [simp]:
  "tmp_part_name s \<noteq> assembling_name t" "assembling_name t \<noteq> tmp_part_name s"
  "tmp_part_name s = tmp_part_name t \<longleftrightarrow> s = t" "assembling_name s = assembling_name t \<longleftrightarrow> s = t"
  by (simp_all add: tmp_part_name_def assembling_name_def)

section \<open>Entries\<close>

definition entry :: "media_disk \<Rightarrow> string \<Rightarrow> byte list option" where
  "entry d n = map_of (dir_files d) n"

lemma entry_target [simp]: "entry (d\<lparr>md_target := x\<rparr>) n = entry d n"
  by (simp add: entry_def dir_files_def)

lemma entry_of_parts: "md_parts d' = md_parts d \<Longrightarrow> entry d' = entry d"
  by (simp add: entry_def dir_files_def fun_eq_iff)

lemma entry_put_files: "entry (put_files fs d) n = (case md_parts d of Folder _ \<Rightarrow> map_of fs n | _ \<Rightarrow> None)"
  by (simp add: entry_def put_files_def dir_files_def split: part_node.splits)

lemma entry_Some_Folder: "entry d n = Some b \<Longrightarrow> \<exists>fs. md_parts d = Folder fs"
  by (cases "md_parts d") (auto simp: entry_def dir_files_def)

lemma put_files_simps [simp]:
  "md_target (put_files fs d) = md_target d"
  "md_hard_links (put_files fs d) = md_hard_links d"
  "md_root_link (put_files fs d) = md_root_link d"
  by (simp_all add: put_files_def split: part_node.splits)

lemma remove_file_simps [simp]:
  "md_target (remove_file n d) = md_target d"
  "md_hard_links (remove_file n d) = md_hard_links d"
  "md_root_link (remove_file n d) = md_root_link d"
  by (simp_all add: remove_file_def)

lemma entry_remove_file: "entry (remove_file n d) = (entry d)(n := None)"
  unfolding fun_eq_iff remove_file_def entry_put_files
  by (auto simp: entry_def dir_files_def split: part_node.splits)

lemma write_file_simps [simp]:
  "md_target (write_file n b d) = md_target d"
  "md_hard_links (write_file n b d) = md_hard_links d"
  "md_root_link (write_file n b d) = md_root_link d"
  by (simp_all add: write_file_def)

lemma entry_write_file:
  "entry (write_file n b d) = (if entry d n = None then entry d else (entry d)(n \<mapsto> b))"
proof (cases "entry d n")
  case None
  then show ?thesis by (simp add: write_file_def entry_def)
next
  case (Some x)
  then obtain fs where "md_parts d = Folder fs" using entry_Some_Folder by blast
  then show ?thesis
    using Some by (simp add: entry_def dir_files_def write_file_def put_files_def fun_eq_iff)
qed

lemma open_file_Some:
  assumes "open_file n d = Some d'"
  shows "entry d' = (entry d)(n \<mapsto> [])" and "md_target d' = md_target d"
    and "md_hard_links d' = md_hard_links d" and "md_root_link d' = md_root_link d"
    and "\<exists>fs. md_parts d' = Folder fs"
  using assms by (auto simp: open_file_def entry_def dir_files_def fun_eq_iff split: part_node.splits)

lemma open_file_None: "open_file n d = None \<longleftrightarrow> (\<forall>fs. md_parts d \<noteq> Folder fs)"
  by (auto simp: open_file_def split: part_node.splits)

lemma rename_file_Some:
  assumes "rename_file src dst d = Some d'"
  obtains b where "entry d src = Some b" "entry d' = (entry d)(src := None, dst \<mapsto> b)"
    "md_target d' = md_target d" "md_hard_links d' = md_hard_links d" "md_root_link d' = md_root_link d"
    "\<exists>fs. md_parts d' = Folder fs"
proof -
  obtain b where b: "map_of (dir_files d) src = Some b"
      and d': "d' = put_files (AList.update dst b (AList.delete src (dir_files d))) d"
    using assms by (auto simp: rename_file_def split: option.splits)
  obtain fs where fs: "md_parts d = Folder fs" using b entry_Some_Folder [of d src] by (auto simp: entry_def)
  show ?thesis
  proof (rule that)
    show "entry d src = Some b" using b by (simp add: entry_def)
    show "entry d' = (entry d)(src := None, dst \<mapsto> b)"
      unfolding fun_eq_iff d' entry_put_files by (simp add: fs entry_def dir_files_def)
  qed (simp_all add: d' put_files_def fs)
qed

lemma rename_file_None: "rename_file src dst d = None \<longleftrightarrow> entry d src = None"
  by (simp add: rename_file_def entry_def split: option.split)

lemma present_parts_entries:
  "n \<in> set (present_parts d) \<longleftrightarrow> length n = 6 \<and> list_all is_py_digit n \<and> entry d n \<noteq> None"
  by (auto simp: present_parts_def entry_def map_of_eq_None_iff)

lemma all_present:
  assumes "cnt \<le> 10 ^ 6"
  shows "set (map part_name [0..<cnt]) \<subseteq> set (present_parts d) \<longleftrightarrow> (\<forall>i < cnt. entry d (part_name i) \<noteq> None)"
proof -
  have "part_name i \<in> set (present_parts d) \<longleftrightarrow> entry d (part_name i) \<noteq> None" if "i < cnt" for i
    using that assms by (simp add: present_parts_entries part_name_digits length_part_name)
  then show ?thesis by (auto simp: subset_iff image_iff)
qed

end
