(* ===== verification/Media_Store_Steps.thy ===== *)
theory Media_Store_Steps
  imports Media_Store_Names
begin

text \<open>
  What one step of a call may do to the disk, whatever the call: the frame the invariants of all calls rest on.
\<close>

lemmas drop_defs = drop_stat_def drop_list_def drop_dir_def

lemma drop_file_eq:
  "drop_file ns r d = (case ns of [] \<Rightarrow> (AtDropDir r, d) | n # ns' \<Rightarrow> (AtDropFile ns' r, remove_file n d))"
  by (cases ns) simp_all

lemma entry_drop:
  "drop_stat r d = (p', d') \<Longrightarrow> entry d' n = Some b \<Longrightarrow> entry d n = Some b"
  "drop_list r d = (p', d') \<Longrightarrow> entry d' n = Some b \<Longrightarrow> entry d n = Some b"
  "drop_file ns r d = (p', d') \<Longrightarrow> entry d' n = Some b \<Longrightarrow> entry d n = Some b"
  "drop_dir r d = (p', d') \<Longrightarrow> entry d' n = Some b \<Longrightarrow> entry d n = Some b"
proof -
  show "drop_file ns r d = (p', d') \<Longrightarrow> entry d' n = Some b \<Longrightarrow> entry d n = Some b"
    by (auto simp: drop_file_eq entry_remove_file split: list.splits if_splits)
qed (auto simp: drop_defs entry_def dir_files_def split: part_node.splits if_splits)

lemma target_drop:
  "drop_stat r d = (p', d') \<Longrightarrow> md_target d' = md_target d \<and> md_hard_links d' = md_hard_links d"
  "drop_list r d = (p', d') \<Longrightarrow> md_target d' = md_target d \<and> md_hard_links d' = md_hard_links d"
  "drop_file ns r d = (p', d') \<Longrightarrow> md_target d' = md_target d \<and> md_hard_links d' = md_hard_links d"
  "drop_dir r d = (p', d') \<Longrightarrow> md_target d' = md_target d \<and> md_hard_links d' = md_hard_links d"
  by (auto simp: drop_defs drop_file_eq split: part_node.splits if_splits list.splits)

lemma publish_link_cases:
  assumes "publish_link out d = (p', d')"
  obtains "p' = AtFallbackCheck" "d' = d" "entry d out = None \<or> \<not> md_hard_links d"
  | "p' = AtRemoveOut AlreadyThere" "d' = d" "md_target d \<noteq> None" "md_hard_links d"
  | b where "p' = AtRemoveOut Published" "d' = d\<lparr>md_target := Some b\<rparr>" "md_target d = None"
      "md_hard_links d" "entry d out = Some b"
  using assms by (auto simp: publish_link_def entry_def split: option.splits if_splits)

lemma publish_replace_cases:
  assumes "publish_replace out d = (p', d')"
  obtains "p' = Returned Failed" "d' = d" "entry d out = None"
  | b where "p' = AtDropStat Published" "d' = remove_file out (d\<lparr>md_target := Some b\<rparr>)" "entry d out = Some b"
  using assms by (auto simp: publish_replace_def entry_def split: option.splits)

text \<open>A step leaves every foreign temporary file alone, unless it removes it.\<close>

lemma step_frame:
  assumes "call_step c p d = (p', d')" "entry d' n = Some b"
    and "n \<noteq> tmp_part_name (sc_part_token c)" "n \<noteq> assembling_name (sc_out_token c)" "\<And>i. n \<noteq> part_name i"
  shows "entry d n = Some b"
  using assms
proof (cases p)
  case AtLink
  then have "publish_link (assembling_name (sc_out_token c)) d = (p', d')" using assms(1) by simp
  then show ?thesis using assms(2) by (cases rule: publish_link_cases) simp_all
next
  case AtFallbackReplace
  then have "publish_replace (assembling_name (sc_out_token c)) d = (p', d')" using assms(1) by simp
  then show ?thesis using assms(2) by (cases rule: publish_replace_cases) (auto simp: entry_remove_file split: if_splits)
qed (auto simp: entry_remove_file entry_write_file entry_def [of "d\<lparr>md_parts := _\<rparr>"] dir_files_def
    elim!: rename_file_Some split: if_splits option.splits
    dest: open_file_Some(1) entry_drop)

text \<open>The part of an index is only ever written by renaming the finished part of a call with that index.\<close>

lemma step_parts:
  assumes "call_step c p d = (p', d')" "entry d' (part_name i) = Some b"
  shows "entry d (part_name i) = Some b
    \<or> (p = AtRenamePart \<and> i = sc_index c \<and> entry d (tmp_part_name (sc_part_token c)) = Some b)"
  using assms
proof (cases p)
  case AtLink
  then have "publish_link (assembling_name (sc_out_token c)) d = (p', d')" using assms(1) by simp
  then show ?thesis using assms(2) by (cases rule: publish_link_cases) simp_all
next
  case AtFallbackReplace
  then have "publish_replace (assembling_name (sc_out_token c)) d = (p', d')" using assms(1) by simp
  then show ?thesis using assms(2) by (cases rule: publish_replace_cases) (auto simp: entry_remove_file split: if_splits)
qed (auto simp: entry_remove_file entry_write_file entry_def [of "d\<lparr>md_parts := _\<rparr>"] dir_files_def
    elim!: rename_file_Some split: if_splits option.splits
    dest: open_file_Some(1) entry_drop)

text \<open>The target only changes by publishing an assembled file.\<close>

lemma step_target:
  assumes "call_step c p d = (p', d')"
  obtains "md_target d' = md_target d" "md_hard_links d' = md_hard_links d"
  | b where "p = AtLink" "p' = AtRemoveOut Published" "md_target d = None" "md_target d' = Some b"
      "entry d (assembling_name (sc_out_token c)) = Some b" "md_hard_links d" "md_hard_links d'"
  | b where "p = AtFallbackReplace" "p' = AtDropStat Published" "md_target d' = Some b"
      "entry d (assembling_name (sc_out_token c)) = Some b" "md_hard_links d' = md_hard_links d"
proof -
  note outcomes = that
  have "md_target d' = md_target d \<and> md_hard_links d' = md_hard_links d"
    if "p \<noteq> AtLink" "p \<noteq> AtFallbackReplace"
    using assms that
    by (cases p) (auto elim!: rename_file_Some split: if_splits option.splits dest: open_file_Some target_drop)
  moreover have ?thesis if "p = AtLink"
    using assms that by (auto elim!: publish_link_cases intro: outcomes)
  moreover have ?thesis if "p = AtFallbackReplace"
    using assms that by (auto elim!: publish_replace_cases intro: outcomes)
  ultimately show ?thesis using outcomes(1) by blast
qed

end
