(* ===== verification/Media_Chunks_Props.thy ===== *)
theory Media_Chunks_Props
  imports Media_Chunks
begin

text \<open>
  What the chunk sizes promise: every chunk an honest household sends passes every check of the receiver and fits
  the transport it goes out on, and the declared size catches parts of two different cuttings of one file.
\<close>

lemmas chunk_constants = frame_overhead_bytes_def https_chunk_bytes_def routed_chunk_bytes_def max_media_chunks_def
  min_channel_chunk_bytes_def mib_def image_max_upload_bytes_def video_max_upload_bytes_def
  file_max_upload_bytes_def audio_max_upload_bytes_def space_media_max_bytes_def

section \<open>Rounding up\<close>

lemma ceil_div_parts:
  assumes "0 < b"
  obtains r where "a = ceil_div a b * b - r" "0 \<le> r" "r < b"
proof
  have "(- a) div b * b + (- a) mod b = - a" by (rule div_mult_mod_eq)
  then show "a = ceil_div a b * b - (- a) mod b" unfolding ceil_div_def by linarith
qed (use assms in simp_all)

lemma ceil_div_upper: "0 < b \<Longrightarrow> a \<le> ceil_div a b * b"
  by (rule ceil_div_parts [of b a]) linarith+

lemma ceil_div_lower:
  assumes "0 < b"
  shows "(ceil_div a b - 1) * b < a"
proof -
  obtain r where "a = ceil_div a b * b - r" "0 \<le> r" "r < b" using ceil_div_parts [OF assms] .
  moreover have "(ceil_div a b - 1) * b = ceil_div a b * b - b" by (simp add: left_diff_distrib)
  ultimately show ?thesis by linarith
qed

lemma ceil_div_le: "0 < b \<Longrightarrow> a \<le> n * b \<Longrightarrow> ceil_div a b \<le> n"
  using ceil_div_lower [of b a] mult_less_cancel_right_pos [of b "ceil_div a b - 1" n] by linarith

lemma ceil_div_bound:
  assumes "0 < n" "ceil_div a n \<le> c"
  shows "a \<le> n * c"
proof -
  have "ceil_div a n * n \<le> c * n" using assms by (intro mult_right_mono) simp_all
  then show ?thesis using ceil_div_upper [OF assms(1), of a] by (simp only: mult.commute [of c n])
qed

section \<open>Cutting a file\<close>

definition pieces :: "byte list \<Rightarrow> nat \<Rightarrow> byte list list" where
  "pieces data c = map snd (split_into_chunks data c)"

lemma length_split: "length (split_into_chunks data c) = nat (chunk_count (int (length data)) (int c))"
  by (simp add: split_into_chunks_def Let_def)

lemma split_nth:
  assumes "i < nat (chunk_count (int (length data)) (int c))"
  shows "split_into_chunks data c ! i =
    (\<lparr>sq_index = int i, sq_count = chunk_count (int (length data)) (int c),
      sq_final = (int i = chunk_count (int (length data)) (int c) - 1)\<rparr>,
     take c (drop (i * c) data))"
  using assms by (simp add: split_into_chunks_def Let_def)

lemma length_pieces [simp]: "length (pieces data c) = nat (chunk_count (int (length data)) (int c))"
  by (simp add: pieces_def length_split)

lemma pieces_nth: "i < length (pieces data c) \<Longrightarrow> pieces data c ! i = take c (drop (i * c) data)"
  by (simp add: pieces_def split_nth length_split)

lemma concat_slices: "concat (map (\<lambda>i. take c (drop (i * c) data)) [0..<n]) = take (n * c) data"
proof (induction n)
  case (Suc n)
  then show ?case by (simp add: take_add [of "n * c" c, symmetric] add.commute)
qed simp

lemma chunks_cover:
  assumes "0 < c"
  shows "length data \<le> length (pieces data c) * c"
proof -
  have "int (length data) \<le> chunk_count (int (length data)) (int c) * int c"
    using ceil_div_upper [of "int c" "int (length data)"] assms
      mult_right_mono [of "ceil_div (int (length data)) (int c)" "chunk_count (int (length data)) (int c)" "int c"]
    unfolding chunk_count_def by linarith
  moreover have "0 \<le> chunk_count (int (length data)) (int c)" by (simp add: chunk_count_def)
  ultimately have "int (length data) \<le> int (length (pieces data c) * c)" by simp
  then show ?thesis by (simp only: of_nat_le_iff)
qed

lemma concat_pieces: "0 < c \<Longrightarrow> concat (pieces data c) = data"
proof -
  assume "0 < c"
  then have "concat (pieces data c) = take (length (pieces data c) * c) data"
    by (simp add: pieces_def split_into_chunks_def Let_def comp_def concat_slices [symmetric])
  then show ?thesis using chunks_cover [OF \<open>0 < c\<close>, of data] by simp
qed

text \<open>Every chunk but the last is full, and the full ones are shorter than the file.\<close>

lemma full_chunks_fit:
  assumes "0 < c" "1 < chunk_count (int (length data)) (int c)"
  shows "(chunk_count (int (length data)) (int c) - 1) * int c < int (length data)"
  using ceil_div_lower [of "int c" "int (length data)"] assms by (simp add: chunk_count_def max_def split: if_splits)

lemma full_chunk:
  assumes "0 < c" "Suc i < length (pieces data c)"
  shows "length (pieces data c ! i) = c"
proof -
  define n where "n = chunk_count (int (length data)) (int c)"
  have i: "int (Suc i) \<le> n - 1" using assms(2) by (simp add: n_def)
  then have "1 < n" by simp
  from full_chunks_fit [OF assms(1) this [unfolded n_def]] have "(n - 1) * int c < int (length data)"
    by (simp add: n_def)
  moreover have "int (Suc i) * int c \<le> (n - 1) * int c" using i by (rule mult_right_mono) simp
  ultimately have "int (Suc i) * int c < int (length data)" by linarith
  then have "int (Suc i * c) < int (length data)" by (simp only: of_nat_mult)
  then have "Suc i * c < length data" by (simp only: of_nat_less_iff)
  then show ?thesis using assms(2) by (simp add: pieces_nth)
qed

section \<open>The sizes a household uses\<close>

definition sender_chunk_bytes :: "int option \<Rightarrow> bool \<Rightarrow> int \<Rightarrow> int" where
  "sender_chunk_bytes lim routed file_size_bytes =
     (if routed then routed_media_chunk_bytes file_size_bytes else media_chunk_bytes lim file_size_bytes)"

lemma known_limit_Some: "known_limit lim = Some m \<Longrightarrow> m \<noteq> 0"
  by (auto simp: known_limit_def split: option.splits if_splits)

lemma media_chunk_bytes_cases:
  obtains "media_chunk_bytes lim sz = https_chunk_bytes"
  | m where "known_limit lim = Some m" "media_chunk_bytes lim sz \<le> https_chunk_bytes"
      "media_chunk_bytes lim sz + frame_overhead_bytes \<le> m"
      "min_channel_chunk_bytes \<le> media_chunk_bytes lim sz"
      "ceil_div sz max_media_chunks \<le> media_chunk_bytes lim sz"
proof (cases "known_limit lim")
  case None
  then show ?thesis using that(1) by (simp add: media_chunk_bytes_def)
next
  case (Some m)
  show ?thesis
  proof (cases "media_chunk_bytes lim sz = https_chunk_bytes")
    case False
    define cc where "cc = min https_chunk_bytes (m - frame_overhead_bytes)"
    have "media_chunk_bytes lim sz
        = (if cc < max min_channel_chunk_bytes (ceil_div sz max_media_chunks) then https_chunk_bytes else cc)"
      by (simp add: media_chunk_bytes_def Some cc_def Let_def)
    then have "media_chunk_bytes lim sz = cc" "max min_channel_chunk_bytes (ceil_div sz max_media_chunks) \<le> cc"
      using False by (auto split: if_splits)
    then show ?thesis using that(2) [OF Some] unfolding cc_def by linarith
  qed (use that(1) in blast)
qed

text \<open>Up to 1.5 GiB, far above every cap, no size a household uses needs more chunks than a receiver takes.\<close>

lemma sender_chunk_bytes_range:
  assumes "0 \<le> sz" "sz \<le> routed_chunk_bytes * max_media_chunks"
  shows "min_channel_chunk_bytes \<le> sender_chunk_bytes lim routed sz"
    and "sender_chunk_bytes lim routed sz \<le> https_chunk_bytes"
    and "sz \<le> max_media_chunks * sender_chunk_bytes lim routed sz"
proof -
  have few: "ceil_div sz max_media_chunks \<le> routed_chunk_bytes"
    using assms(2) by (intro ceil_div_le) (simp_all add: chunk_constants)
  have "min_channel_chunk_bytes \<le> sender_chunk_bytes lim routed sz
      \<and> sender_chunk_bytes lim routed sz \<le> https_chunk_bytes
      \<and> sz \<le> max_media_chunks * sender_chunk_bytes lim routed sz"
  proof (cases routed)
    case True
    then have "sender_chunk_bytes lim routed sz = routed_chunk_bytes"
      using few by (simp add: sender_chunk_bytes_def routed_media_chunk_bytes_def)
    then show ?thesis using assms by (simp add: chunk_constants)
  next
    case False
    then have s: "sender_chunk_bytes lim routed sz = media_chunk_bytes lim sz" by (simp add: sender_chunk_bytes_def)
    show ?thesis
    proof (rule media_chunk_bytes_cases [of lim sz])
      assume "media_chunk_bytes lim sz = https_chunk_bytes"
      then show ?thesis using assms by (simp add: s chunk_constants)
    next
      fix m
      assume "media_chunk_bytes lim sz \<le> https_chunk_bytes" "min_channel_chunk_bytes \<le> media_chunk_bytes lim sz"
        and "ceil_div sz max_media_chunks \<le> media_chunk_bytes lim sz"
      moreover have "0 < max_media_chunks" by (simp add: chunk_constants)
      ultimately show ?thesis using ceil_div_bound [of max_media_chunks sz] by (simp add: s)
    qed
  qed
  then show "min_channel_chunk_bytes \<le> sender_chunk_bytes lim routed sz"
    "sender_chunk_bytes lim routed sz \<le> https_chunk_bytes"
    "sz \<le> max_media_chunks * sender_chunk_bytes lim routed sz" by simp_all
qed

lemma routed_sender_chunk:
  "sz \<le> routed_chunk_bytes * max_media_chunks \<Longrightarrow> sender_chunk_bytes lim True sz = routed_chunk_bytes"
  using ceil_div_le [of max_media_chunks sz routed_chunk_bytes]
  by (simp add: sender_chunk_bytes_def routed_media_chunk_bytes_def chunk_constants mult.commute)

lemma caps_below:
  "space_media_max_bytes \<le> routed_chunk_bytes * max_media_chunks"
  "dm_media_max_bytes mime \<le> routed_chunk_bytes * max_media_chunks"
  by (simp_all add: dm_media_max_bytes_def Let_def chunk_constants)

text \<open>Both ways of writing a chunk as text grow it by no more than a third per coat, and a little.\<close>

lemma b64_len_le: "3 * b64_len n \<le> 4 * n + 8"
  by (simp add: b64_len_def ceil_div_def)

lemma b64url_len_le: "3 * b64url_len n \<le> 4 * n + 2"
  by (simp add: b64url_len_def ceil_div_def)

lemma json_envelope_len_le:
  assumes "0 \<le> extra" "0 \<le> routing" "0 \<le> header" "extra + routing + header \<le> frame_overhead_bytes"
    and "chunk_len \<le> (if routed then routed_chunk_bytes else https_chunk_bytes)"
  shows "json_envelope_len routed header routing extra chunk_len \<le> inbox_max_body_bytes"
proof -
  define plain where "plain = json_payload_len extra chunk_len"
  have plain: "3 * plain \<le> 3 * extra + 4 * chunk_len + 8" using b64_len_le [of chunk_len] by (simp add: plain_def json_payload_len_def)
  have sealed: "3 * sealed_payload_len routing plain \<le> 3 * routing + 4 * plain + 66"
    using b64url_len_le [of "plain + 16"] by (simp add: sealed_payload_len_def)
  have coat: "3 * encrypted_len m \<le> 4 * m + 117" for m
    using b64url_len_le [of "m + 16"] by (simp add: encrypted_len_def b64url_len_def ceil_div_def)
  show ?thesis
  proof (cases routed)
    case True
    then have "json_envelope_len routed header routing extra chunk_len = header + encrypted_len (sealed_payload_len routing plain)"
      by (simp add: json_envelope_len_def plain_def)
    then show ?thesis using True assms plain sealed coat [of "sealed_payload_len routing plain"]
      by (simp add: inbox_max_body_bytes_def default_json_max_bytes_def frame_overhead_bytes_def routed_chunk_bytes_def)
  next
    case False
    then have "json_envelope_len routed header routing extra chunk_len = header + encrypted_len plain"
      by (simp add: json_envelope_len_def plain_def)
    then show ?thesis using False assms plain coat [of plain]
      by (simp add: inbox_max_body_bytes_def default_json_max_bytes_def frame_overhead_bytes_def https_chunk_bytes_def)
  qed
qed

text \<open>
  C33. A receiver never refuses a chunk of an honest household: whatever tier a file within the cap goes out on,
  the chunks sent are the file in order, at most 4096 of them, each passes the index check, the declared-size
  check and the size check of the receiver.  Each also fits what carries it: the binary HTTPS body, the data
  channel it was sized for, and, written as text in an envelope whose other fields keep to the frame overhead,
  the one-megabyte inbox, on the mesh with the seal of the routed envelope around it.
\<close>
theorem honest_chunks_are_taken:
  assumes "int (length data) \<le> cap" and "cap = space_media_max_bytes \<or> cap = dm_media_max_bytes mime"
    and "c = sender_chunk_bytes lim routed (int (length data))"
    and "(sq, raw) \<in> set (split_into_chunks data (nat c))"
    and "0 \<le> extra" "0 \<le> routing" "0 \<le> header" "extra + routing + header \<le> frame_overhead_bytes"
  shows "concat (map snd (split_into_chunks data (nat c))) = data
    \<and> parse_chunk_meta int_of_str (JNum (sq_index sq)) (JNum (sq_count sq)) = Some (sq_index sq, sq_count sq)
    \<and> size_declared (int (length data)) (sq_count sq)
    \<and> size_allowed (int (length data)) (int (length raw)) (sq_count sq) cap
    \<and> int (length raw) + frame_overhead_bytes \<le> https_media_max_body_bytes
    \<and> (\<not> routed \<longrightarrow> fits_channel (int (length raw)) lim \<or> c = https_chunk_bytes)
    \<and> json_envelope_len routed header routing extra (int (length raw)) \<le> inbox_max_body_bytes"
proof -
  define sz where "sz = int (length data)"
  define n where "n = chunk_count sz c"
  have "sz \<le> routed_chunk_bytes * max_media_chunks" 
    using assms(2) order_trans [OF assms(1)] caps_below(1) caps_below(2) [of mime] unfolding sz_def by blast
  note range = sender_chunk_bytes_range [OF _ this, of lim routed, folded assms(3) [folded sz_def]]
  have c: "min_channel_chunk_bytes \<le> c" "c \<le> https_chunk_bytes" "sz \<le> max_media_chunks * c"
    using range by (simp_all add: sz_def)
  then have c0: "0 < c" by (simp add: chunk_constants)
  then obtain k where k: "c = int k" "0 < k" by (metis of_nat_0_less_iff zero_less_imp_eq_int)
  have n: "1 \<le> n" "n \<le> max_media_chunks"
    using ceil_div_le [OF c0 c(3)] by (simp_all add: n_def chunk_count_def chunk_constants)
  from assms(4) obtain i where i: "i < nat n" and sq: "sq_index sq = int i" "sq_count sq = n"
    and raw: "raw = pieces data k ! i"
    unfolding in_set_conv_nth by (auto simp: length_split split_nth k pieces_nth n_def sz_def)
  have len_raw: "int (length raw) \<le> c"
    using i by (simp add: raw pieces_nth k n_def sz_def min_le_iff_disj)
  have le_sz: "int (length raw) \<le> sz"
    using i by (simp add: raw pieces_nth k n_def sz_def min_le_iff_disj)
  have "(n - 1) * int (length raw) \<le> (n - 1) * c" using n(1) len_raw by (intro mult_left_mono) simp_all
  then have many: "(n - 1) * int (length raw) < sz" if "1 < n"
  proof -
    have "(n - 1) * c < sz" using full_chunks_fit [OF k(2), of data] that by (simp add: n_def sz_def k)
    then show ?thesis using \<open>(n - 1) * int (length raw) \<le> (n - 1) * c\<close> by linarith
  qed
  have "0 \<le> (n - 1) * int (length raw)" using n(1) by simp
  then have "0 < sz" if "1 < n" using many [OF that] by linarith
  then have "size_declared sz n" using n(1) unfolding size_declared_def by linarith
  moreover have "size_allowed sz (int (length raw)) n cap"
    using assms(1) le_sz many by (auto simp: size_allowed_def inbound_size_refusal_def sz_def)
  moreover have "parse_chunk_meta int_of_str (JNum (int i)) (JNum n) = Some (int i, n)"
    using i n by (simp add: parse_chunk_meta_def)
  moreover have "int (length raw) + frame_overhead_bytes \<le> https_media_max_body_bytes"
    using len_raw c(2) by (simp add: https_media_max_body_bytes_def)
  moreover have "json_envelope_len routed header routing extra (int (length raw)) \<le> inbox_max_body_bytes"
  proof (rule json_envelope_len_le [OF assms(5-8)])
    show "int (length raw) \<le> (if routed then routed_chunk_bytes else https_chunk_bytes)"
      using len_raw c(2) routed_sender_chunk [OF \<open>sz \<le> routed_chunk_bytes * max_media_chunks\<close>, of lim] assms(3)
      by (auto simp: sz_def)
  qed
  moreover have "\<not> routed \<longrightarrow> fits_channel (int (length raw)) lim \<or> c = https_chunk_bytes"
    using media_chunk_bytes_cases [of lim sz] len_raw assms(3)
    by (fastforce simp: sender_chunk_bytes_def fits_channel_def sz_def)
  moreover have "concat (map snd (split_into_chunks data (nat c))) = data"
    using concat_pieces [OF k(2), of data] by (simp add: pieces_def k)
  ultimately show ?thesis by (simp add: sq sz_def)
qed

text \<open>A 100 kB file over a channel of 80 KiB messages: two chunks.\<close>

theorem honest_chunks_are_taken_witness:
  "\<exists>sq raw. (sq, raw) \<in> set (split_into_chunks (replicate 100000 0) 65536) \<and> sq_index sq = 1 \<and> sq_final sq
     \<and> length raw = 34464 \<and> size_allowed 100000 (int (length raw)) (sq_count sq) space_media_max_bytes
     \<and> json_envelope_len False 3000 0 600 34464 \<le> inbox_max_body_bytes"
proof -
  let ?data = "replicate 100000 (0 :: byte)"
  have n: "chunk_count 100000 65536 = 2" by (simp add: chunk_count_def ceil_div_def)
  have c: "65536 = sender_chunk_bytes (Some 81920) False (int (length ?data))"
    by (simp add: sender_chunk_bytes_def media_chunk_bytes_def known_limit_def chunk_constants ceil_div_def)
  obtain sq raw where chunk: "split_into_chunks ?data 65536 ! 1 = (sq, raw)" by fastforce
  then have sq: "sq_index sq = 1" "sq_final sq" "length raw = 34464"
    using split_nth [of 1 ?data 65536] n by auto
  have mem: "(sq, raw) \<in> set (split_into_chunks ?data (nat 65536))"
    using nth_mem [of 1 "split_into_chunks ?data 65536", unfolded chunk] n by (simp add: length_split)
  have cap: "int (length ?data) \<le> space_media_max_bytes" by (simp add: chunk_constants)
  from honest_chunks_are_taken [OF cap _ c mem, of _ 600 0 3000]
  have "size_allowed 100000 (int (length raw)) (sq_count sq) space_media_max_bytes"
    "json_envelope_len False 3000 0 600 34464 \<le> inbox_max_body_bytes"
    using sq(3) by (simp_all add: frame_overhead_bytes_def)
  then show ?thesis using mem sq by (intro exI [of _ sq] exI [of _ raw]) simp
qed

section \<open>Two cuttings of one file\<close>

text \<open>
  A resend may cut the file for another transport into the same number of chunks, and the parts of both then meet
  in one part directory.  The lengths give them away.
\<close>

lemma all_of_one_size:
  fixes a b :: nat
  assumes "\<forall>w\<in>set ws. w = a \<or> w = b" "a \<noteq> b" "sum_list ws = length ws * a"
  shows "\<forall>w\<in>set ws. w = a"
proof -
  have count: "sum_list ws + length (filter (\<lambda>w. w = b) ws) * a
      = length ws * a + length (filter (\<lambda>w. w = b) ws) * b"
    using assms(1,2) by (induction ws) (auto simp: algebra_simps)
  then have "length (filter (\<lambda>w. w = b) ws) * a = length (filter (\<lambda>w. w = b) ws) * b"
    using assms(3) by simp
  then have "filter (\<lambda>w. w = b) ws = []" using assms(2) by simp
  then show ?thesis using assms(1) by (auto simp: filter_empty_conv)
qed

lemma length_concat_butlast:
  "ps \<noteq> [] \<Longrightarrow> length (concat ps) = sum_list (map length (butlast ps)) + length (last ps)"
  by (induction ps) (auto simp: length_concat)

lemma mixed_last_decides:
  assumes "0 < a" "0 < b" "a \<noteq> b"
    and cnt: "length (pieces data a) = length (pieces data b)"
    and len: "length ps = length (pieces data a)"
    and mix: "\<forall>i < length ps. ps ! i = pieces data a ! i \<or> ps ! i = pieces data b ! i"
    and last: "last ps = last (pieces data a)"
    and whole: "length (concat ps) = length data"
  shows "concat ps = data"
proof -
  define n where "n = length ps"
  have n: "0 < n" using len by (simp add: n_def chunk_count_def)
  have ne: "ps \<noteq> []" "pieces data a \<noteq> []" using n len by (auto simp: n_def simp del: length_pieces)
  have body: "map length (butlast (pieces data a)) = replicate (n - 1) a"
    using full_chunk [OF assms(1), of _ data] len
    by (intro nth_equalityI) (simp_all add: n_def nth_butlast del: length_pieces)
  have "length data = (n - 1) * a + length (last (pieces data a))"
    using length_concat_butlast [OF ne(2)] concat_pieces [OF assms(1), of data] body by (simp add: sum_list_replicate)
  then have "sum_list (map length (butlast ps)) = length (map length (butlast ps)) * a"
    using length_concat_butlast [OF ne(1)] whole last by (simp add: n_def)
  moreover have "\<forall>w\<in>set (map length (butlast ps)). w = a \<or> w = b"
  proof
    fix w
    assume "w \<in> set (map length (butlast ps))"
    then obtain i where i: "i < n - 1" "w = length (ps ! i)"
      by (auto simp: in_set_conv_nth n_def nth_butlast)
    then have "length (pieces data a ! i) = a" "length (pieces data b ! i) = b"
      using full_chunk [OF assms(1), of i data] full_chunk [OF assms(2), of i data] len cnt
      by (simp_all add: n_def del: length_pieces)
    moreover have "ps ! i = pieces data a ! i \<or> ps ! i = pieces data b ! i"
      using mix i(1) by (simp add: n_def)
    ultimately show "w = a \<or> w = b" using i(2) by auto
  qed
  ultimately have all_a: "\<forall>w\<in>set (map length (butlast ps)). w = a" by (intro all_of_one_size [OF _ assms(3)])
  have "ps ! i = pieces data a ! i" if "i < n" for i
  proof (cases "i = n - 1")
    case True
    then show ?thesis using last ne len by (simp add: last_conv_nth n_def del: length_pieces)
  next
    case False
    then have i: "i < length (butlast ps)" using that by (simp add: n_def)
    then have "length (ps ! i) = a" using all_a by (metis nth_butlast nth_map nth_mem length_map)
    moreover have "Suc i < length (pieces data b)" using False that len cnt by (simp add: n_def del: length_pieces)
    ultimately show ?thesis
      using mix [rule_format, of i] full_chunk [OF assms(2), of i data] assms(3) that by (auto simp: n_def)
  qed
  then have "ps = pieces data a" using len by (intro nth_equalityI) (simp_all add: n_def del: length_pieces)
  then show ?thesis using concat_pieces [OF assms(1), of data] by simp
qed

text \<open>
  Parts of two different cuttings of one file never assemble to anything but the file: whatever mixture of
  them fills the part directory, if it has the declared size it is the file, so the size check of the assembly
  catches every other mixture.
\<close>
theorem mixed_cuttings_are_caught:
  assumes "0 < a" and "0 < b"
    and "length (split_into_chunks data a) = length (split_into_chunks data b)"
    and "length ps = length (split_into_chunks data a)"
    and "\<forall>i < length ps. ps ! i = snd (split_into_chunks data a ! i) \<or> ps ! i = snd (split_into_chunks data b ! i)"
    and "length (concat ps) = length data"
  shows "concat ps = data"
proof (cases "a = b")
  case True
  then have "ps = pieces data a" using assms(4,5) by (intro nth_equalityI) (simp_all add: pieces_def)
  then show ?thesis using concat_pieces [OF assms(1)] by simp
next
  case False
  have cnt: "length (pieces data a) = length (pieces data b)" "length ps = length (pieces data a)"
      "length ps = length (pieces data b)"
    using assms(3,4) by (simp_all add: length_split)
  have mix: "\<forall>i < length ps. ps ! i = pieces data a ! i \<or> ps ! i = pieces data b ! i"
    using assms(4,5) cnt by (simp add: pieces_def)
  then have swap: "\<forall>i < length ps. ps ! i = pieces data b ! i \<or> ps ! i = pieces data a ! i" by blast
  have ne: "0 < length ps" using cnt(2) by (simp add: chunk_count_def)
  then have "last ps = last (pieces data a) \<or> last ps = last (pieces data b)"
    using mix [rule_format, of "length ps - 1"] cnt by (simp add: last_conv_nth flip: length_greater_0_conv del: length_pieces)
  then show ?thesis
    using mixed_last_decides [OF assms(1,2) False cnt(1,2) mix _ assms(6)]
      mixed_last_decides [OF assms(2,1) False [symmetric] cnt(1) [symmetric] cnt(3) swap _ assms(6)] by blast
qed

theorem mixed_cuttings_are_caught_witness:
  "concat [[1, 2, 3], [4, 5 :: byte]] = [1, 2, 3, 4, 5]
    \<and> split_into_chunks [1, 2, 3, 4, 5] 3 \<noteq> split_into_chunks [1, 2, 3, 4, 5] 4"
proof -
  have n: "chunk_count 5 3 = 2" "chunk_count 5 4 = 2" by (simp_all add: chunk_count_def ceil_div_def)
  have s: "split_into_chunks [1, 2, 3, 4, 5] 3 = [(\<lparr>sq_index = 0, sq_count = 2, sq_final = False\<rparr>, [1, 2, 3]),
      (\<lparr>sq_index = 1, sq_count = 2, sq_final = True\<rparr>, [4, 5])]"
    "split_into_chunks [1, 2, 3, 4, 5] 4 = [(\<lparr>sq_index = 0, sq_count = 2, sq_final = False\<rparr>, [1, 2, 3, 4]),
      (\<lparr>sq_index = 1, sq_count = 2, sq_final = True\<rparr>, [5])]"
    by (simp_all add: split_into_chunks_def n Let_def upt_rec [of 0] upt_rec [of "Suc 0"])
  have mix: "\<forall>i < length [[1, 2, 3], [4, 5 :: byte]]. [[1, 2, 3], [4, 5]] ! i = snd (split_into_chunks [1, 2, 3, 4, 5] 3 ! i)
      \<or> [[1, 2, 3], [4, 5]] ! i = snd (split_into_chunks [1, 2, 3, 4, 5] 4 ! i)"
    by (simp add: s less_Suc_eq)
  show ?thesis
    using mixed_cuttings_are_caught [of 3 4 "[1, 2, 3, 4, 5]" "[[1, 2, 3], [4, 5]]"] mix by (simp add: s)
qed

text \<open>
  Two sizes the senders use do share a chunk count, hence a part directory; and three cuttings can mix into a
  wrong file of the right size.
\<close>

lemma two_sizes_one_count: "chunk_count 614400 https_chunk_bytes = chunk_count 614400 routed_chunk_bytes"
  by (simp add: chunk_count_def ceil_div_def chunk_constants)

lemma three_cuttings_escape:
  defines "data \<equiv> map of_nat [0..<17] :: byte list"
  shows "\<exists>ps. length ps = 3
    \<and> (\<forall>i < 3. ps ! i \<in> {pieces data 6 ! i, pieces data 7 ! i, pieces data 8 ! i})
    \<and> length (pieces data 6) = 3 \<and> length (pieces data 7) = 3 \<and> length (pieces data 8) = 3
    \<and> length (concat ps) = length data \<and> concat ps \<noteq> data"
proof -
  have n: "length (pieces data 6) = 3" "length (pieces data 7) = 3" "length (pieces data 8) = 3"
    by (simp_all add: data_def chunk_count_def ceil_div_def)
  define ps where "ps = [pieces data 6 ! 0, pieces data 8 ! 1, pieces data 7 ! 2]"
  have p: "pieces data 6 ! 0 = take 6 data" "pieces data 8 ! 1 = take 8 (drop 8 data)"
    "pieces data 7 ! 2 = take 7 (drop 14 data)"
    using n by (simp_all add: pieces_nth)
  have "\<forall>i < 3. ps ! i \<in> {pieces data 6 ! i, pieces data 7 ! i, pieces data 8 ! i}"
    by (auto simp: ps_def numeral_3_eq_3 numeral_2_eq_2 less_Suc_eq)
  moreover have ps: "ps = [take 6 data, take 8 (drop 8 data), take 7 (drop 14 data)]" unfolding ps_def p ..
  then have "length (concat ps) = length data" by (simp add: data_def)
  moreover have "concat ps ! 6 \<noteq> data ! 6" by (simp add: ps nth_append data_def)
  then have "concat ps \<noteq> data" by metis
  ultimately show ?thesis using n by (intro exI [of _ ps]) (simp add: ps_def)
qed

end
