(* ===== verification/Media_Store_Safe.thy ===== *)
theory Media_Store_Safe
  imports Media_Store_Steps Media_Chunks_Props
begin

text \<open>
  What can end up in the target file, under any interleaving and any deaths.  The locale \<open>assembly\<close> is the
  contract of the assembly: what is known of a part, of the bytes read so far, and of the finished file.  Its
  instances are the transfer of an honest household (every part is a chunk of one file) and a transfer of
  anybody (every call declares the same size).
\<close>

section \<open>Runs\<close>

definition calls_of :: "transfer \<Rightarrow> store_call list" where
  "calls_of s = map fst (fst s)"

definition tokens_distinct :: "store_call list \<Rightarrow> bool" where
  "tokens_distinct cs \<longleftrightarrow> distinct (map sc_part_token cs) \<and> distinct (map sc_out_token cs)"

inductive_cases progressE: "progress s t"
inductive_cases transfer_stepE: "transfer_step s t"

lemma calls_update: "k < length cs \<Longrightarrow> cs ! k = (c, p) \<Longrightarrow> map fst (cs[k := (c, p')]) = map fst cs"
  by (simp add: map_update list_update_same_conv)

lemma calls_of_step: "transfer_step s t \<Longrightarrow> calls_of t = calls_of s"
  by (auto simp: calls_of_def calls_update elim!: transfer_stepE progressE)

lemma calls_of_run: "transfer_step\<^sup>*\<^sup>* s t \<Longrightarrow> calls_of t = calls_of s"
  by (induction rule: rtranclp_induct) (simp_all add: calls_of_step)

lemma calls_of_arrivals [simp]: "calls_of (arrivals cs d) = cs"
  by (simp add: calls_of_def arrivals_def comp_def)

text \<open>A step of a transfer is a step of one call or its death; the others stay where they are.\<close>

lemma transfer_step_cases:
  assumes "transfer_step s t"
  obtains k c p p' where "k < length (fst s)" "fst s ! k = (c, p)" "\<forall>r. p \<noteq> Returned r"
    "fst t = (fst s)[k := (c, p')]"
    "call_step c p (snd s) = (p', snd t) \<or> (p' = Returned Failed \<and> snd t = snd s)"
  using assms
proof (rule transfer_stepE)
  assume "progress s t"
  then show ?thesis
  proof (rule progressE)
    fix k cs c p d p' d'
    assume "s = (cs, d)" "t = (cs[k := (c, p')], d')" "k < length cs" "cs ! k = (c, p)"
      "\<forall>r. p \<noteq> Returned r" "call_step c p d = (p', d')"
    then show ?thesis by (intro that [of k c p p']) simp_all
  qed
next
  fix k cs c p d
  assume "s = (cs, d)" "t = (cs[k := (c, Returned Failed)], d)" "k < length cs" "cs ! k = (c, p)"
    "\<forall>r. p \<noteq> Returned r"
  then show ?thesis by (intro that [of k c p "Returned Failed"]) simp_all
qed

lemma tokens_apart:
  assumes "tokens_distinct (calls_of s)" "i < length (fst s)" "k < length (fst s)" "i \<noteq> k"
  shows "sc_part_token (fst (fst s ! i)) \<noteq> sc_part_token (fst (fst s ! k))"
    and "sc_out_token (fst (fst s ! i)) \<noteq> sc_out_token (fst (fst s ! k))"
  using assms by (auto simp: tokens_distinct_def calls_of_def distinct_conv_nth)

section \<open>The contract of an assembly\<close>

definition size_matches :: "store_call \<Rightarrow> byte list \<Rightarrow> bool" where
  "size_matches c acc \<longleftrightarrow> \<not> (0 \<le> sc_expected c \<and> int (length acc) \<noteq> sc_expected c)"

locale assembly =
  fixes member :: "store_call \<Rightarrow> bool"
    and part_good :: "nat \<Rightarrow> byte list \<Rightarrow> bool"
    and acc_good :: "nat \<Rightarrow> byte list \<Rightarrow> bool"
    and file_good :: "byte list \<Rightarrow> bool"
  assumes nothing_read: "acc_good 0 []"
    and one_more_part: "acc_good i acc \<Longrightarrow> part_good i b \<Longrightarrow> acc_good (Suc i) (acc @ b)"
    and own_part: "member c \<Longrightarrow> part_good (sc_index c) (sc_data c)"
    and all_read: "member c \<Longrightarrow> sc_count c \<le> i \<Longrightarrow> acc_good i acc \<Longrightarrow> size_matches c acc \<Longrightarrow> file_good acc"
begin

definition parts_good :: "media_disk \<Rightarrow> bool" where
  "parts_good d \<longleftrightarrow> (\<forall>i b. entry d (part_name i) = Some b \<longrightarrow> part_good i b)"

definition out_good :: "store_call \<Rightarrow> media_disk \<Rightarrow> bool" where
  "out_good c d \<longleftrightarrow> (\<forall>b. entry d (assembling_name (sc_out_token c)) = Some b \<longrightarrow> file_good b)"

definition call_good :: "store_call \<Rightarrow> call_point \<Rightarrow> media_disk \<Rightarrow> bool" where
  "call_good c p d \<longleftrightarrow>
     (p = AtRenamePart \<longrightarrow> (\<forall>b. entry d (tmp_part_name (sc_part_token c)) = Some b \<longrightarrow> part_good (sc_index c) b))
     \<and> (\<forall>i acc. p = AtReadPart i acc \<longrightarrow> acc_good i acc)
     \<and> (\<forall>acc. p = AtCloseOut acc \<longrightarrow> (\<exists>i \<ge> sc_count c. acc_good i acc))
     \<and> (p \<in> {AtLink, AtFallbackCheck, AtFallbackReplace} \<longrightarrow> out_good c d)"

definition sound :: "transfer \<Rightarrow> bool" where
  "sound s \<longleftrightarrow> (\<forall>b. md_target (snd s) = Some b \<longrightarrow> file_good b) \<and> parts_good (snd s)
     \<and> (\<forall>k < length (fst s). member (fst (fst s ! k)) \<and> call_good (fst (fst s ! k)) (snd (fst s ! k)) (snd s))"

lemma call_good_step:
  assumes "call_step c p d = (p', d')" "member c" "parts_good d" "call_good c p d"
  shows "call_good c p' d'"
proof (cases p)
  case AtWritePart
  then show ?thesis using assms(1,2) own_part
    by (auto simp: call_good_def entry_write_file split: if_splits)
next
  case AtOpenOut
  then show ?thesis using assms(1) nothing_read by (auto simp: call_good_def split: option.splits)
next
  case (AtReadPart i acc)
  then show ?thesis using assms(1,3,4) one_more_part
    by (auto simp: call_good_def parts_good_def entry_def split: if_splits option.splits)
next
  case (AtCloseOut acc)
  then show ?thesis using assms(1,2,4) all_read
    by (auto simp: call_good_def out_good_def size_matches_def entry_write_file split: if_splits)
next
  case AtLink
  then have "publish_link (assembling_name (sc_out_token c)) d = (p', d')" using assms(1) by simp
  then show ?thesis
    using assms(4) AtLink by (cases rule: publish_link_cases) (simp_all add: call_good_def out_good_def)
next
  case AtFallbackCheck
  then show ?thesis using assms(1,4) by (auto simp: call_good_def split: if_splits)
next
  case AtFallbackReplace
  then have "publish_replace (assembling_name (sc_out_token c)) d = (p', d')" using assms(1) by simp
  then show ?thesis by (cases rule: publish_replace_cases) (simp_all add: call_good_def)
qed (use assms(1) in \<open>auto simp: call_good_def drop_defs drop_file_eq
    split: if_splits option.splits part_node.splits list.splits\<close>)

lemma call_good_frame:
  assumes "call_step c p d = (p', d')" "call_good c2 p2 d"
    and "sc_part_token c2 \<noteq> sc_part_token c" "sc_out_token c2 \<noteq> sc_out_token c"
  shows "call_good c2 p2 d'"
  using assms(2) step_frame [OF assms(1)] assms(3,4)
  by (fastforce simp: call_good_def out_good_def)

lemma sound_step:
  assumes "transfer_step s t" "sound s" "tokens_distinct (calls_of s)"
  shows "sound t"
  using assms(1)
proof (cases rule: transfer_step_cases)
  case (1 k c p p')
  from assms(2) 1(1,2) have c: "member c" "call_good c p (snd s)"
    by (auto simp: sound_def)
  have rest: "member (fst (fst t ! i)) \<and> call_good (fst (fst t ! i)) (snd (fst t ! i)) (snd t)"
    if "i < length (fst s)" "i \<noteq> k" for i
  proof -
    have i: "member (fst (fst s ! i))" "call_good (fst (fst s ! i)) (snd (fst s ! i)) (snd s)"
      using that(1) assms(2) by (simp_all add: sound_def)
    have "call_good (fst (fst s ! i)) (snd (fst s ! i)) (snd t)"
      using 1(5)
    proof
      assume "call_step c p (snd s) = (p', snd t)"
      then show ?thesis
        using call_good_frame [OF _ i(2)] tokens_apart [OF assms(3) that(1) 1(1) that(2)] 1(2) by simp
    qed (use i(2) in simp)
    then show ?thesis using i(1) that 1(4) by simp
  qed
  have every: "member (fst (fst t ! i)) \<and> call_good (fst (fst t ! i)) (snd (fst t ! i)) (snd t)"
    if "i < length (fst t)" "call_good c p' (snd t)" for i
    using that rest [of i] c(1) 1(1,4) by (cases "i = k") simp_all
  show ?thesis
  proof (cases "call_step c p (snd s) = (p', snd t)")
    case True
    have parts: "parts_good (snd t)"
      using step_parts [OF True] assms(2) c by (fastforce simp: sound_def parts_good_def call_good_def)
    have target: "file_good b" if "md_target (snd t) = Some b" for b
      using True
    proof (cases rule: step_target)
      case 1
      then show ?thesis using that assms(2) by (simp add: sound_def)
    qed (use that c(2) in \<open>simp_all add: call_good_def out_good_def\<close>)
    have "call_good c p' (snd t)"
      using call_good_step [OF True c(1) _ c(2)] assms(2) by (simp add: sound_def)
    then show ?thesis
      using parts target every unfolding sound_def by blast
  next
    case False
    then have dead: "p' = Returned Failed" "snd t = snd s" using 1(5) by simp_all
    then have "call_good c p' (snd t)" by (simp add: call_good_def)
    then show ?thesis
      using every assms(2) dead(2) unfolding sound_def by simp
  qed
qed

lemma sound_run:
  assumes "transfer_step\<^sup>*\<^sup>* (arrivals cs d) s" "tokens_distinct cs" "\<forall>c\<in>set cs. member c"
    and "parts_good d" "\<forall>b. md_target d = Some b \<longrightarrow> file_good b"
  shows "sound s"
  using assms(1)
proof (induction rule: rtranclp_induct)
  case base
  show ?case using assms(3-5) by (simp add: sound_def arrivals_def call_good_def)
next
  case (step t u)
  have "calls_of t = cs" using calls_of_run [OF step(1)] by simp
  then show ?case using sound_step [OF step(2,3)] assms(2) by simp
qed

end

section \<open>Transfers of an honest household and of anybody\<close>

definition honest_call :: "byte list list \<Rightarrow> store_call \<Rightarrow> bool" where
  "honest_call fs c \<longleftrightarrow> sc_count c = length fs \<and> sc_index c < length fs \<and> sc_data c = fs ! sc_index c"

definition own_parts_only :: "byte list list \<Rightarrow> media_disk \<Rightarrow> bool" where
  "own_parts_only fs d \<longleftrightarrow> (\<forall>i b. entry d (part_name i) = Some b \<longrightarrow> i < length fs \<and> b = fs ! i)"

interpretation honest: assembly "honest_call fs" "\<lambda>i b. i < length fs \<and> b = fs ! i"
    "\<lambda>i acc. acc = concat (take i fs)" "\<lambda>b. b = concat fs" for fs
  by unfold_locales (auto simp: honest_call_def take_Suc_conv_app_nth)

interpretation declared: assembly "\<lambda>c. sc_expected c = n \<and> 0 \<le> n" "\<lambda>_ _. True" "\<lambda>_ _. True"
    "\<lambda>b. int (length b) = n \<or> old = Some b" for n old
  by unfold_locales (auto simp: size_matches_def)

text \<open>A call a receiver makes for a chunk the sender cut from \<open>data\<close>, pushed once or many times.\<close>

definition sent_chunk :: "byte list \<Rightarrow> nat \<Rightarrow> store_call \<Rightarrow> bool" where
  "sent_chunk data chunk_bytes c \<longleftrightarrow>
     (\<exists>(sq, raw) \<in> set (split_into_chunks data chunk_bytes).
        \<exists>pt ot. space_call raw (sq_index sq) (sq_count sq) (int (length data)) pt ot = Some c)"

lemma sent_chunk_honest:
  assumes "sent_chunk data n c"
  shows "honest_call (pieces data n) c" and "sc_expected c = int (length data)"
proof -
  from assms obtain i pt ot where i: "i < length (pieces data n)"
    and c: "space_call (pieces data n ! i) (int i) (chunk_count (int (length data)) (int n)) (int (length data)) pt ot
      = Some c"
    by (fastforce simp: sent_chunk_def in_set_conv_nth length_split split_nth pieces_nth)
  show "honest_call (pieces data n) c" "sc_expected c = int (length data)"
    using c i by (auto simp: space_call_def honest_call_def split: if_splits)
qed

section \<open>Schedules\<close>

text \<open>The run a list of call numbers picks: the numbered call does its next step, unless it has returned.\<close>

fun returned :: "call_point \<Rightarrow> bool" where
  "returned (Returned r) = True"
| "returned _ = False"

lemma returned_iff: "returned p \<longleftrightarrow> (\<exists>r. p = Returned r)"
  by (cases p) simp_all

definition advance :: "nat \<Rightarrow> transfer \<Rightarrow> transfer" where
  "advance k s =
     (if k < length (fst s) \<and> \<not> returned (snd (fst s ! k))
      then case call_step (fst (fst s ! k)) (snd (fst s ! k)) (snd s) of
        (p', d') \<Rightarrow> ((fst s)[k := (fst (fst s ! k), p')], d')
      else s)"

lemma advance_progress: "progress\<^sup>*\<^sup>* s (advance k s)"
proof (cases "k < length (fst s) \<and> \<not> returned (snd (fst s ! k))")
  case True
  obtain cs d where s: "s = (cs, d)" by (cases s)
  obtain c p where k: "cs ! k = (c, p)" by (cases "cs ! k")
  obtain p' d' where "call_step c p d = (p', d')" by (cases "call_step c p d")
  then have "progress s (advance k s)"
    using True by (auto simp: s k advance_def returned_iff intro: progress.intros)
  then show ?thesis by simp
next
  case False
  then have "advance k s = s" unfolding advance_def by (rule if_not_P)
  then show ?thesis by simp
qed

lemma schedule_progress: "progress\<^sup>*\<^sup>* s (fold advance ks s)"
proof (induction ks arbitrary: s)
  case (Cons k ks)
  show ?case using rtranclp_trans [OF advance_progress Cons.IH] by simp
qed simp

lemma progress_run: "progress\<^sup>*\<^sup>* s t \<Longrightarrow> transfer_step\<^sup>*\<^sup>* s t"
  by (induction rule: rtranclp_induct) (auto intro: rtranclp.rtrancl_into_rtrancl goes_on)

lemmas schedule_run = progress_run [OF schedule_progress]

section \<open>What lands\<close>

definition empty_disk :: "bool \<Rightarrow> media_disk" where
  "empty_disk hard_links =
     \<lparr>md_root_link = False, md_parts = Absent, md_target = None, md_hard_links = hard_links\<rparr>"

lemma entry_empty_disk [simp]: "entry (empty_disk h) n = None"
  by (simp add: entry_def dir_files_def empty_disk_def)

lemma empty_disk_simps [simp]:
  "md_target (empty_disk h) = None" "md_hard_links (empty_disk h) = h" "md_root_link (empty_disk h) = False"
  "md_parts (empty_disk h) = Absent"
  by (simp_all add: empty_disk_def)

lemma own_parts_only_empty [simp]: "own_parts_only fs (empty_disk h)"
  by (simp add: own_parts_only_def)

text \<open>
  C8. Only the file the sender cut ever lands: in every run of any number of calls for its chunks, in any order,
  repeated, interleaved at every file operation, any of them dying anywhere, with or without hard links, the
  target is missing or is exactly that file, and every part on disk is the chunk of its index.
\<close>
theorem only_the_sent_file_lands:
  assumes "0 < chunk_bytes" and "\<forall>c\<in>set cs. sent_chunk data chunk_bytes c" and "tokens_distinct cs"
    and "md_target d = None" and "own_parts_only (map snd (split_into_chunks data chunk_bytes)) d"
    and "transfer_step\<^sup>*\<^sup>* (arrivals cs d) s"
  shows "md_target (snd s) \<in> {None, Some data}
    \<and> own_parts_only (map snd (split_into_chunks data chunk_bytes)) (snd s)"
proof -
  note pieces_def [symmetric, simp]
  have "honest.sound (pieces data chunk_bytes) s"
    using assms(2-5) sent_chunk_honest(1)
    by (intro honest.sound_run [OF assms(6)])
      (auto simp: own_parts_only_def honest.parts_good_def simp del: length_pieces)
  then have "\<forall>b. md_target (snd s) = Some b \<longrightarrow> b = concat (pieces data chunk_bytes)"
    and "own_parts_only (pieces data chunk_bytes) (snd s)"
    by (auto simp: honest.sound_def honest.parts_good_def own_parts_only_def simp del: length_pieces)
  then show ?thesis
    using concat_pieces [OF assms(1), of data] by (cases "md_target (snd s)") auto
qed

text \<open>Two calls of two chunks, interleaved, the first dying before its listing.\<close>

definition demo_call :: "nat \<Rightarrow> byte list \<Rightarrow> string \<Rightarrow> store_call" where
  "demo_call i raw token =
     \<lparr>sc_index = i, sc_count = 2, sc_data = raw, sc_expected = 3, sc_part_token = token, sc_out_token = token\<rparr>"

lemma demo_chunks:
  "split_into_chunks [1, 2, 3] 2 = [(\<lparr>sq_index = 0, sq_count = 2, sq_final = False\<rparr>, [1, 2]),
     (\<lparr>sq_index = 1, sq_count = 2, sq_final = True\<rparr>, [3])]"
proof -
  have "chunk_count 3 2 = 2" by (simp add: chunk_count_def ceil_div_def)
  then show ?thesis by (simp add: split_into_chunks_def Let_def upt_rec [of 0] upt_rec [of "Suc 0"])
qed

lemma demo_sent:
  "sent_chunk [1, 2, 3] 2 (demo_call 0 [1, 2] t)" "sent_chunk [1, 2, 3] 2 (demo_call 1 [3] t)"
  by (auto simp: sent_chunk_def demo_chunks demo_call_def space_call_def size_declared_def size_allowed_def
      inbound_size_refusal_def chunk_constants)

definition demo_calls :: "store_call list" where
  "demo_calls = [demo_call 0 [1, 2] ''a'', demo_call 1 [3] ''b'']"

lemma demo_calls_facts:
  "tokens_distinct demo_calls" "\<forall>c\<in>set demo_calls. sent_chunk [1, 2, 3] 2 c"
  using demo_sent by (simp_all add: demo_calls_def) (simp add: tokens_distinct_def demo_call_def)

theorem only_the_sent_file_lands_witness:
  "md_target (snd (fold advance [0, 1, 1, 0, 0, 1, 0] (arrivals demo_calls (empty_disk True))))
    \<in> {None, Some [1, 2, 3]}"
  by (rule only_the_sent_file_lands [OF _ demo_calls_facts(2,1) _ _ schedule_run, THEN conjunct1]) simp_all

end
