(* ===== verification/Media_Store_Once.thy ===== *)
theory Media_Store_Once
  imports Media_Store_Safe
begin

text \<open>
  What holds of the calls of anybody, honest or not: the target is written once, with the declared size, by one
  call at most, and no run goes on for ever.
\<close>

section \<open>Who published\<close>

fun heading :: "call_point \<Rightarrow> outcome option" where
  "heading (AtRemoveOut r) = Some r"
| "heading (AtDropStat r) = Some r"
| "heading (AtDropList r) = Some r"
| "heading (AtDropFile ns r) = Some r"
| "heading (AtDropDir r) = Some r"
| "heading (Returned r) = Some r"
| "heading _ = None"

definition claims :: "call_point \<Rightarrow> bool" where
  "claims p \<longleftrightarrow> heading p = Some Published"

definition written_once :: "transfer \<Rightarrow> bool" where
  "written_once s \<longleftrightarrow> md_hard_links (snd s)
     \<and> (\<forall>k < length (fst s). claims (snd (fst s ! k)) \<longrightarrow> md_target (snd s) \<noteq> None)
     \<and> (\<forall>i < length (fst s). \<forall>k < length (fst s).
          claims (snd (fst s ! i)) \<longrightarrow> claims (snd (fst s ! k)) \<longrightarrow> i = k)
     \<and> (\<forall>k < length (fst s). snd (fst s ! k) \<in> {AtFallbackCheck, AtFallbackReplace} \<longrightarrow>
          entry (snd s) (assembling_name (sc_out_token (fst (fst s ! k)))) = None)"

lemma heading_step:
  assumes "call_step c p d = (p', d')"
  shows "heading p = Some r \<Longrightarrow> heading p' = Some r"
    and "claims p' \<Longrightarrow> claims p \<or> p = AtLink \<or> p = AtFallbackReplace"
  using assms
  by (cases p; auto simp: claims_def drop_defs drop_file_eq
      split: if_splits option.splits part_node.splits list.splits)+

lemma step_publishes:
  assumes "call_step c p d = (p', d')" "md_hard_links d"
    and "p \<in> {AtFallbackCheck, AtFallbackReplace} \<Longrightarrow> entry d (assembling_name (sc_out_token c)) = None"
  shows "md_hard_links d'"
    and "md_target d = Some b \<Longrightarrow> md_target d' = Some b"
    and "claims p' \<Longrightarrow> claims p \<or> (md_target d = None \<and> md_target d' \<noteq> None)"
    and "p' \<in> {AtFallbackCheck, AtFallbackReplace} \<Longrightarrow> entry d' (assembling_name (sc_out_token c)) = None"
proof -
  have quiet: "md_target d' = md_target d \<and> md_hard_links d' = md_hard_links d" if "p \<noteq> AtLink"
    using assms that by (cases rule: step_target [OF assms(1)]) auto
  have link: "publish_link (assembling_name (sc_out_token c)) d = (p', d')" if "p = AtLink" using assms(1) that by simp
  show "md_hard_links d'"
    using quiet assms(2) link by (cases "p = AtLink") (auto elim!: publish_link_cases)
  show "md_target d = Some b \<Longrightarrow> md_target d' = Some b"
    using quiet link by (cases "p = AtLink") (auto elim!: publish_link_cases)
  show "p' \<in> {AtFallbackCheck, AtFallbackReplace} \<Longrightarrow> entry d' (assembling_name (sc_out_token c)) = None"
  proof (cases "p = AtLink")
    case True
    then show "p' \<in> {AtFallbackCheck, AtFallbackReplace} \<Longrightarrow> entry d' (assembling_name (sc_out_token c)) = None"
      using link assms(2) by (auto elim!: publish_link_cases)
  next
    case False
    then show "p' \<in> {AtFallbackCheck, AtFallbackReplace} \<Longrightarrow> entry d' (assembling_name (sc_out_token c)) = None"
      using assms(1,3) by (cases p) (auto simp: drop_defs drop_file_eq publish_replace_def
          split: if_splits option.splits part_node.splits list.splits)
  qed
  assume c: "claims p'"
  show "claims p \<or> (md_target d = None \<and> md_target d' \<noteq> None)"
    using heading_step(2) [OF assms(1) c]
  proof (elim disjE)
    assume "p = AtLink"
    then show ?thesis using link c by (auto simp: claims_def elim!: publish_link_cases)
  next
    assume "p = AtFallbackReplace"
    then show ?thesis using assms(1,3) c by (auto simp: claims_def publish_replace_def entry_def)
  qed simp
qed

lemma written_once_step:
  assumes "transfer_step s t" "written_once s" "tokens_distinct (calls_of s)"
  shows "written_once t \<and> (\<forall>b. md_target (snd s) = Some b \<longrightarrow> md_target (snd t) = Some b)"
  using assms(1)
proof (cases rule: transfer_step_cases)
  case (1 k c p p')
  note inv = assms(2) [unfolded written_once_def]
  have own: "p \<in> {AtFallbackCheck, AtFallbackReplace} \<Longrightarrow> entry (snd s) (assembling_name (sc_out_token c)) = None"
    using inv 1(1,2) by auto
  have facts: "md_hard_links (snd t) \<and> (\<forall>b. md_target (snd s) = Some b \<longrightarrow> md_target (snd t) = Some b)
      \<and> (claims p' \<longrightarrow> claims p \<or> (md_target (snd s) = None \<and> md_target (snd t) \<noteq> None))
      \<and> (p' \<in> {AtFallbackCheck, AtFallbackReplace} \<longrightarrow> entry (snd t) (assembling_name (sc_out_token c)) = None)"
    using 1(5)
  proof
    assume "call_step c p (snd s) = (p', snd t)"
    from step_publishes [OF this _ own] show ?thesis using inv by blast
  qed (use inv in \<open>simp add: claims_def\<close>)
  have others: "fst t ! i = fst s ! i" if "i \<noteq> k" for i using that 1(4) by simp
  have self: "fst t ! k = (c, p')" "snd (fst s ! k) = p" and len: "length (fst t) = length (fst s)"
    using 1(1,2,4) by simp_all
  have old: "claims (snd (fst s ! i))" if "i < length (fst s)" "claims (snd (fst t ! i))" "md_target (snd s) \<noteq> None" for i
    using that facts others [of i] self by (cases "i = k") auto
  have target: "md_target (snd t) \<noteq> None" if "i < length (fst s)" "claims (snd (fst t ! i))" for i
    using that facts inv others [of i] self by (cases "i = k") auto
  have unique: "i = j" if "i < length (fst s)" "j < length (fst s)" "claims (snd (fst t ! i))" "claims (snd (fst t ! j))" for i j
  proof (cases "md_target (snd s)")
    case None
    then have "\<not> claims (snd (fst s ! l))" if "l < length (fst s)" for l using that inv by blast
    then show ?thesis using that others by metis
  next
    case (Some b)
    then show ?thesis using that inv old by blast
  qed
  have fallback: "entry (snd t) (assembling_name (sc_out_token (fst (fst t ! i)))) = None"
    if i: "i < length (fst s)" "snd (fst t ! i) \<in> {AtFallbackCheck, AtFallbackReplace}" for i
  proof (cases "i = k")
    case False
    then have gone: "entry (snd s) (assembling_name (sc_out_token (fst (fst s ! i)))) = None"
      using i inv others [OF False] by auto
    have "entry (snd t) (assembling_name (sc_out_token (fst (fst s ! i)))) = None"
      using 1(5)
    proof
      assume step: "call_step c p (snd s) = (p', snd t)"
      have apart: "sc_out_token (fst (fst s ! i)) \<noteq> sc_out_token c"
        using tokens_apart(2) [OF assms(3) i(1) 1(1) False] 1(2) by simp
      show ?thesis
        using step_frame [OF step, of "assembling_name (sc_out_token (fst (fst s ! i)))"] gone apart
        by (cases "entry (snd t) (assembling_name (sc_out_token (fst (fst s ! i))))") auto
    qed (use gone in simp)
    then show ?thesis using others [OF False] by simp
  qed (use i facts self in auto)
  show ?thesis
    using facts target unique fallback len unfolding written_once_def by auto
qed

lemma written_once_run:
  assumes "transfer_step\<^sup>*\<^sup>* s t" "written_once s" "tokens_distinct (calls_of s)"
  shows "written_once t \<and> (\<forall>b. md_target (snd s) = Some b \<longrightarrow> md_target (snd t) = Some b)"
  using assms(1)
proof (induction rule: rtranclp_induct)
  case (step t u)
  then show ?case
    using written_once_step [OF step(2)] calls_of_run [OF step(1)] assms(3) by auto
qed (use assms(2) in simp)

lemma written_once_arrivals: "md_hard_links d \<Longrightarrow> written_once (arrivals cs d)"
  by (simp add: written_once_def arrivals_def claims_def)

text \<open>
  C15. Whoever sends, a file is written once: in every run of any number of calls, with any data, any deaths and any
  interleaving, a target that exists is never replaced, at most one call reports that it published, and what is
  published has the size every call declared.
\<close>
theorem targets_are_written_once:
  assumes "md_hard_links d" and "tokens_distinct cs" and "\<forall>c\<in>set cs. sc_expected c = n" and "0 \<le> n"
    and "transfer_step\<^sup>*\<^sup>* (arrivals cs d) s" and "transfer_step\<^sup>*\<^sup>* s t"
  shows "(\<forall>b. md_target (snd s) = Some b \<longrightarrow> md_target (snd t) = Some b)
    \<and> (\<forall>b. md_target (snd t) = Some b \<longrightarrow> md_target d = Some b \<or> int (length b) = n)
    \<and> (\<forall>i < length cs. \<forall>k < length cs. snd (fst t ! i) = Returned Published
         \<longrightarrow> snd (fst t ! k) = Returned Published \<longrightarrow> i = k)"
proof -
  have "tokens_distinct (calls_of (arrivals cs d))" using assms(2) by simp
  note once_s = written_once_run [OF assms(5) written_once_arrivals [OF assms(1)] this]
  have "tokens_distinct (calls_of s)" using calls_of_run [OF assms(5)] assms(2) by simp
  note once_t = written_once_run [OF assms(6) once_s [THEN conjunct1] this]
  have run: "transfer_step\<^sup>*\<^sup>* (arrivals cs d) t" using assms(5,6) by (rule rtranclp_trans)
  have len: "length (fst t) = length cs"
    using calls_of_run [OF run] by (metis calls_of_arrivals calls_of_def length_map)
  have "declared.sound n (md_target d) t"
    using assms(2-4) by (intro declared.sound_run [OF run]) (auto simp: declared.parts_good_def)
  then have "\<forall>b. md_target (snd t) = Some b \<longrightarrow> md_target d = Some b \<or> int (length b) = n"
    by (auto simp: declared.sound_def)
  moreover have "claims (Returned Published)" by (simp add: claims_def)
  ultimately show ?thesis
    using once_t len unfolding written_once_def by metis
qed

text \<open>Two more chunks for a name whose file has landed: other bytes of the same size.\<close>

definition forged_calls :: "store_call list" where
  "forged_calls = [demo_call 0 [1, 2] ''a'', demo_call 1 [9] ''b'', demo_call 0 [7, 7] ''c'', demo_call 1 [8] ''d'']"

lemma first_two_land:
  "md_target (snd (fold advance (replicate 25 0 @ replicate 25 1) (arrivals forged_calls (empty_disk True))))
     = Some [1, 2, 9]"
  by code_simp

theorem targets_are_written_once_witness:
  "md_target (snd (fold advance (replicate 25 2 @ replicate 25 3)
      (fold advance (replicate 25 0 @ replicate 25 1) (arrivals forged_calls (empty_disk True))))) = Some [1, 2, 9]"
proof -
  have hard: "md_hard_links (empty_disk True)" and some: "0 \<le> (3 :: int)" by simp_all
  have tokens: "tokens_distinct forged_calls" and sizes: "\<forall>c\<in>set forged_calls. sc_expected c = 3"
    by (simp_all add: forged_calls_def tokens_distinct_def demo_call_def)
  show ?thesis
    by (rule targets_are_written_once [OF hard tokens sizes some schedule_run schedule_run, THEN conjunct1,
          rule_format, OF first_two_land])
qed

section \<open>Every run ends\<close>

fun point_rank :: "call_point \<Rightarrow> nat" where
  "point_rank AtTargetCheck = 25"
| "point_rank AtRootCheck = 24"
| "point_rank AtMakeDir = 23"
| "point_rank AtDirCheck = 22"
| "point_rank AtOpenPart = 21"
| "point_rank AtWritePart = 20"
| "point_rank AtRenamePart = 19"
| "point_rank AtPartFailed = 18"
| "point_rank AtPartFailedCheck = 17"
| "point_rank AtListing = 16"
| "point_rank AtWaitCheck = 15"
| "point_rank AtOpenOut = 14"
| "point_rank (AtReadPart i acc) = 13"
| "point_rank (AtCloseOut acc) = 12"
| "point_rank AtVanished = 11"
| "point_rank AtVanishedCheck = 10"
| "point_rank AtWrongSize = 9"
| "point_rank AtLink = 8"
| "point_rank AtFallbackCheck = 7"
| "point_rank AtFallbackReplace = 6"
| "point_rank (AtRemoveOut r) = 5"
| "point_rank (AtDropStat r) = 4"
| "point_rank (AtDropList r) = 3"
| "point_rank (AtDropFile ns r) = 2"
| "point_rank (AtDropDir r) = 1"
| "point_rank (Returned r) = 0"

fun point_left :: "store_call \<Rightarrow> call_point \<Rightarrow> nat" where
  "point_left c (AtReadPart i acc) = sc_count c - i"
| "point_left c (AtDropFile ns r) = length ns"
| "point_left c _ = 0"

definition point_order :: "((store_call \<times> call_point) \<times> (store_call \<times> call_point)) set" where
  "point_order = inv_image (less_than <*lex*> less_than) (\<lambda>(c, p). (point_rank p, point_left c p))"

lemma wf_point_order: "wf point_order"
  unfolding point_order_def by (intro wf_inv_image wf_lex_prod wf_less_than)

lemma step_descends:
  assumes "call_step c p d = (p', d')" "\<forall>r. p \<noteq> Returned r"
  shows "((c, p'), (c, p)) \<in> point_order"
  using assms
  by (cases p) (auto simp: point_order_def drop_defs drop_file_eq publish_link_def publish_replace_def
      split: if_splits option.splits part_node.splits list.splits)

lemma death_descends: "\<forall>r. p \<noteq> Returned r \<Longrightarrow> ((c, Returned Failed), (c, p)) \<in> point_order"
  by (cases p) (simp_all add: point_order_def)

lemma listrel1_update:
  assumes "k < length xs" "(y, xs ! k) \<in> r"
  shows "(xs[k := y], xs) \<in> listrel1 r"
  using assms upd_conv_take_nth_drop [of k xs y] id_take_nth_drop [OF assms(1)]
  by (intro listrel1I [of y "xs ! k" r "xs[k := y]" "take k xs" "drop (Suc k) xs" xs])

lemma transfer_step_descends:
  assumes "transfer_step s t"
  shows "(fst t, fst s) \<in> listrel1 point_order"
  using assms
proof (cases rule: transfer_step_cases)
  case (1 k c p p')
  then have "((c, p'), fst s ! k) \<in> point_order"
    using step_descends [of c p "snd s" p' "snd t"] death_descends [of p c] by auto
  then show ?thesis using 1(1,4) by (simp add: listrel1_update)
qed

lemma can_progress: "(\<exists>t. progress s t) \<longleftrightarrow> (\<exists>x \<in> set (fst s). \<not> returned (snd x))"
proof
  assume "\<exists>t. progress s t"
  then obtain t where "progress s t" ..
  then show "\<exists>x \<in> set (fst s). \<not> returned (snd x)"
  proof (rule progressE)
    fix k cs c p d p' d'
    assume "s = (cs, d)" "k < length cs" "cs ! k = (c, p)" "\<forall>r. p \<noteq> Returned r"
    then have "(c, p) \<in> set (fst s)" "\<not> returned p" using nth_mem [of k cs] by (simp_all add: returned_iff)
    then show ?thesis by force
  qed
next
  assume "\<exists>x \<in> set (fst s). \<not> returned (snd x)"
  then obtain k where k: "k < length (fst s)" "\<forall>r. snd (fst s ! k) \<noteq> Returned r"
    by (auto simp: in_set_conv_nth returned_iff)
  obtain c p where "fst s ! k = (c, p)" by (cases "fst s ! k")
  moreover obtain p' d' where "call_step c p (snd s) = (p', d')" by (cases "call_step c p (snd s)")
  ultimately have "progress (fst s, snd s) ((fst s)[k := (c, p')], d')" using k by (intro progress.intros) simp_all
  then show "\<exists>t. progress s t" by auto
qed

text \<open>
  C32. Landing chunks always ends: no run of any number of calls goes on for ever, whatever is on the disk and
  however the calls interleave, and a run can only stop where every call has returned, so no call ever waits for
  another.
\<close>
theorem transfers_terminate:
  "wfp (\<lambda>t s. transfer_step s t)
    \<and> ((\<exists>t. progress s t) \<longleftrightarrow> (\<exists>call \<in> set (fst s). \<not> returned (snd call)))"
proof
  have "wf (inv_image (listrel1 point_order) fst :: (transfer \<times> transfer) set)"
    using wf_point_order by (intro wf_inv_image) simp
  then have "wfp (\<lambda>t s :: transfer. (t, s) \<in> inv_image (listrel1 point_order) fst)"
    unfolding wfp_def by (simp del: in_inv_image)
  then show "wfp (\<lambda>t s. transfer_step s t)"
    by (rule wfp_subset) (auto simp: le_fun_def dest: transfer_step_descends)
qed (rule can_progress)

end
