(* ===== verification/Media_Store_Live.thy ===== *)
theory Media_Store_Live
  imports Media_Store_Once
begin

text \<open>
  Why every file arrives: while the target is missing no part is ever taken away, and once the set is complete
  some call is on its way to assemble it.
\<close>

section \<open>Until the target is there\<close>

definition all_parts :: "nat \<Rightarrow> media_disk \<Rightarrow> bool" where
  "all_parts n d \<longleftrightarrow> (\<forall>i < n. entry d (part_name i) \<noteq> None)"

definition has_folder :: "media_disk \<Rightarrow> bool" where
  "has_folder d \<longleftrightarrow> (\<exists>fs. md_parts d = Folder fs)"

text \<open>What a call may rely on at its point while the target is missing; the points not listed are not reached.\<close>

fun on_track :: "store_call \<Rightarrow> call_point \<Rightarrow> media_disk \<Rightarrow> bool" where
  "on_track c AtTargetCheck d = True"
| "on_track c AtRootCheck d = True"
| "on_track c AtMakeDir d = True"
| "on_track c AtDirCheck d = has_folder d"
| "on_track c AtOpenPart d = has_folder d"
| "on_track c AtWritePart d = (entry d (tmp_part_name (sc_part_token c)) \<noteq> None)"
| "on_track c AtRenamePart d = (entry d (tmp_part_name (sc_part_token c)) \<noteq> None)"
| "on_track c AtListing d = (entry d (part_name (sc_index c)) \<noteq> None)"
| "on_track c AtWaitCheck d = (entry d (part_name (sc_index c)) \<noteq> None)"
| "on_track c (Returned Waiting) d = (entry d (part_name (sc_index c)) \<noteq> None)"
| "on_track c AtOpenOut d = (all_parts (sc_count c) d \<and> has_folder d)"
| "on_track c (AtReadPart i acc) d =
     (all_parts (sc_count c) d \<and> entry d (assembling_name (sc_out_token c)) \<noteq> None)"
| "on_track c (AtCloseOut acc) d =
     (all_parts (sc_count c) d \<and> entry d (assembling_name (sc_out_token c)) \<noteq> None)"
| "on_track c AtLink d =
     (all_parts (sc_count c) d \<and> entry d (assembling_name (sc_out_token c)) \<noteq> None)"
| "on_track c AtFallbackCheck d =
     (all_parts (sc_count c) d \<and> entry d (assembling_name (sc_out_token c)) \<noteq> None)"
| "on_track c AtFallbackReplace d =
     (all_parts (sc_count c) d \<and> entry d (assembling_name (sc_out_token c)) \<noteq> None)"
| "on_track c _ d = False"

definition gave_up :: "call_point \<Rightarrow> bool" where
  "gave_up p \<longleftrightarrow> p = AtWaitCheck \<or> p = Returned Waiting"

definition sane_disk :: "media_disk \<Rightarrow> bool" where
  "sane_disk d \<longleftrightarrow> \<not> md_root_link d \<and> md_parts d \<noteq> SymLink"

lemma entry_has_folder: "entry d n \<noteq> None \<Longrightarrow> has_folder d"
  using entry_Some_Folder [of d n] by (auto simp: has_folder_def)

lemma sane_open: "open_file n d = Some d' \<Longrightarrow> sane_disk d \<Longrightarrow> sane_disk d' \<and> has_folder d'"
  using open_file_Some [of n d d'] by (auto simp: sane_disk_def has_folder_def)

lemma sane_put: "sane_disk d \<Longrightarrow> sane_disk (put_files fs d)"
  by (simp add: sane_disk_def put_files_def split: part_node.split)

lemma sane_remove: "sane_disk d \<Longrightarrow> sane_disk (remove_file n d)"
  by (simp add: remove_file_def sane_put)

lemma sane_write: "sane_disk d \<Longrightarrow> sane_disk (write_file n b d)"
  by (simp add: write_file_def sane_put)

lemma sane_rename: "rename_file a b d = Some d' \<Longrightarrow> sane_disk d \<Longrightarrow> sane_disk d'"
  by (auto simp: rename_file_def intro: sane_put split: option.splits)

lemma sane_target: "sane_disk d \<Longrightarrow> sane_disk (d\<lparr>md_target := b\<rparr>)"
  by (simp add: sane_disk_def)

lemma sane_parts:
  "sane_disk d \<Longrightarrow> sane_disk (d\<lparr>md_parts := Folder fs\<rparr>)" "sane_disk d \<Longrightarrow> sane_disk (d\<lparr>md_parts := Absent\<rparr>)"
  by (simp_all add: sane_disk_def)

lemma entry_absent: "md_parts d = Absent \<Longrightarrow> entry d n = None"
  by (simp add: entry_def dir_files_def)

lemma sane_step:
  assumes "call_step c p d = (p', d')" "sane_disk d"
  shows "sane_disk d'"
  using assms
  by (cases p) (auto simp: drop_defs drop_file_eq publish_link_def publish_replace_def
      intro: sane_remove sane_write sane_rename sane_target sane_parts
      dest: sane_open split: if_splits option.splits part_node.splits list.splits)

text \<open>While the target is missing a step keeps every entry but the temporary part it renames.\<close>

lemma on_track_keeps:
  assumes "call_step c p d = (p', d')" "on_track c p d" "sane_disk d" "md_target d = None" "md_target d' = None"
    and "entry d n \<noteq> None" "n \<noteq> tmp_part_name (sc_part_token c)"
  shows "entry d' n \<noteq> None"
  using assms
  by (cases "(c, p, d)" rule: on_track.cases)
    (auto simp: publish_link_def publish_replace_def entry_write_file entry_absent
      elim!: rename_file_Some dest: open_file_Some(1) split: if_splits option.splits)

lemma has_folder_step:
  assumes "call_step c p d = (p', d')" "on_track c p d" "md_target d = None" "md_target d' = None" "has_folder d"
  shows "has_folder d'"
  using assms
  by (cases "(c, p, d)" rule: on_track.cases)
    (auto simp: has_folder_def publish_link_def publish_replace_def write_file_def put_files_def rename_file_def
      open_file_def split: if_splits option.splits part_node.splits)

lemma on_track_step:
  assumes step: "call_step c p d = (p', d')" and track: "on_track c p d" and sane: "sane_disk d"
    and open_target: "md_target d = None" "md_target d' = None"
    and few: "sc_count c \<le> 10 ^ 6" and right_size: "\<And>acc. p = AtCloseOut acc \<Longrightarrow> size_matches c acc"
  shows "on_track c p' d'"
proof -
  have parts: "all_parts n d \<Longrightarrow> all_parts n d'" for n
    using on_track_keeps [OF step track sane open_target] by (auto simp: all_parts_def)
  have folder: "has_folder d \<Longrightarrow> has_folder d'" by (rule has_folder_step [OF step track open_target])
  show ?thesis
    using step track sane open_target parts folder
  proof (cases "(c, p, d)" rule: on_track.cases)
    case (13 c' acc d'')
    then show ?thesis
      using step track parts right_size by (auto simp: size_matches_def entry_write_file)
  next
    case (7 c' d'')
    then have "rename_file (tmp_part_name (sc_part_token c)) (part_name (sc_index c)) d \<noteq> None"
      using track by (simp add: rename_file_None)
    then show ?thesis using 7 step by (auto elim!: rename_file_Some split: option.splits)
  next
    case (8 c' d'')
    then show ?thesis
      using step track few all_present [of "sc_count c" d] entry_has_folder [of d]
      by (auto simp: all_parts_def split: if_splits)
  next
    case (12 c' i acc d'')
    then have "map_of (dir_files d) (part_name i) \<noteq> None" if "i < sc_count c"
      using track that by (simp add: all_parts_def entry_def)
    then show ?thesis
      using 12 step track by (auto simp: not_le split: if_splits option.splits)
  next
    case (16 c' d'')
    then show ?thesis
      using step track open_target by (auto simp: publish_replace_def entry_def split: option.splits)
  next
    case (3 c' d'')
    then show ?thesis
      using step sane by (cases "md_parts d") (auto simp: sane_disk_def has_folder_def)
  qed (auto simp: sane_disk_def has_folder_def entry_write_file publish_link_def publish_replace_def open_file_def
      entry_def [of "d\<lparr>md_parts := _\<rparr>"] dir_files_def
      split: if_splits option.splits part_node.splits)
qed

section \<open>The invariant of a run without deaths\<close>

definition live :: "transfer \<Rightarrow> bool" where
  "live s \<longleftrightarrow> sane_disk (snd s)
     \<and> (md_target (snd s) = None \<longrightarrow>
          (\<forall>k < length (fst s). on_track (fst (fst s ! k)) (snd (fst s ! k)) (snd s))
          \<and> (\<forall>n. (\<forall>k < length (fst s). sc_count (fst (fst s ! k)) = n) \<longrightarrow> all_parts n (snd s) \<longrightarrow>
               (\<exists>k < length (fst s). \<not> gave_up (snd (fst s ! k)))))
     \<and> (md_target (snd s) \<noteq> None \<longrightarrow> (\<exists>k < length (fst s). claims (snd (fst s ! k))))"

lemma progress_cases:
  assumes "progress s t"
  obtains k c p p' where "k < length (fst s)" "fst s ! k = (c, p)" "\<forall>r. p \<noteq> Returned r"
    "fst t = (fst s)[k := (c, p')]" "call_step c p (snd s) = (p', snd t)"
  using assms by (auto elim!: progressE)

lemma on_track_frame:
  assumes "call_step c p d = (p', d')" "on_track c p d" "sane_disk d" "md_target d = None" "md_target d' = None"
    and "on_track c2 p2 d" "sc_part_token c2 \<noteq> sc_part_token c"
  shows "on_track c2 p2 d'"
proof -
  note keep = on_track_keeps [OF assms(1-5)]
  note folder = has_folder_step [OF assms(1,2,4,5)]
  show ?thesis
    using assms(6,7) keep folder by (cases "(c2, p2, d)" rule: on_track.cases) (simp_all add: all_parts_def)
qed

lemma publishing_claims:
  "call_step c p d = (p', d') \<Longrightarrow> md_target d = None \<Longrightarrow> md_target d' \<noteq> None \<Longrightarrow> claims p'"
  by (erule step_target) (auto simp: claims_def)

text \<open>A call only gives up for want of a part.\<close>

lemma gives_up_step:
  assumes "call_step c p d = (p', d')" "gave_up p'" "\<not> gave_up p" "sc_count c \<le> 10 ^ 6" "on_track c p d"
    and "md_target d = None"
  shows "\<not> all_parts (sc_count c) d'"
  using assms all_present [of "sc_count c" d]
  by (cases "(c, p, d)" rule: on_track.cases)
    (auto simp: gave_up_def all_parts_def publish_link_def publish_replace_def split: if_splits option.splits)

lemma live_step:
  assumes "progress s t" "live s" "tokens_distinct (calls_of s)"
    and few: "\<forall>c\<in>set (calls_of s). sc_count c \<le> 10 ^ 6"
    and right_size: "\<forall>k < length (fst s). \<forall>acc. snd (fst s ! k) = AtCloseOut acc \<longrightarrow> size_matches (fst (fst s ! k)) acc"
  shows "live t"
  using assms(1)
proof (cases rule: progress_cases)
  case (1 k c p p')
  note inv = assms(2) [unfolded live_def]
  have c_few: "sc_count c \<le> 10 ^ 6"
    using few 1(1,2) nth_mem [of k "fst s"] by (fastforce simp: calls_of_def)
  have self: "fst t ! k = (c, p')" and others: "\<And>i. i \<noteq> k \<Longrightarrow> fst t ! i = fst s ! i"
    and len: "length (fst t) = length (fst s)"
    using 1(1,4) by simp_all
  have sane: "sane_disk (snd s)" using inv by simp
  then have sane': "sane_disk (snd t)" by (rule sane_step [OF 1(5)])
  show ?thesis
  proof (cases "md_target (snd t)")
    case None
    have none: "md_target (snd s) = None"
      by (rule step_target [OF 1(5)]) (use None in simp_all)
    then have track: "on_track c p (snd s)" using inv 1(1,2) by auto
    have "on_track (fst (fst t ! i)) (snd (fst t ! i)) (snd t)" if i: "i < length (fst s)" for i
    proof (cases "i = k")
      case True
      have "size_matches c acc" if "p = AtCloseOut acc" for acc using right_size 1(1,2) that by auto
      then show ?thesis
        using on_track_step [OF 1(5) track sane none None c_few] True self by simp
    next
      case False
      have "sc_part_token (fst (fst s ! i)) \<noteq> sc_part_token c"
        using tokens_apart(1) [OF assms(3) i 1(1) False] 1(2) by simp
      then show ?thesis
        using on_track_frame [OF 1(5) track sane none None, of "fst (fst s ! i)" "snd (fst s ! i)"] inv none i others [OF False]
        by simp
    qed
    moreover have "\<exists>k < length (fst s). \<not> gave_up (snd (fst t ! k))"
      if n: "\<forall>k < length (fst s). sc_count (fst (fst t ! k)) = n" and all: "all_parts n (snd t)" for n
    proof (cases "gave_up p'")
      case False
      then show ?thesis using 1(1) self by auto
    next
      case True
      have "sc_count c = n" using n 1(1) self by auto
      then have p: "gave_up p"
        using gives_up_step [OF 1(5) True _ c_few track none] all by blast
      then have "p = AtWaitCheck" using 1(3) by (simp add: gave_up_def)
      then have same: "snd t = snd s" using 1(5) by simp
      have "\<forall>k < length (fst s). sc_count (fst (fst s ! k)) = n"
        using n others self 1(2) by (metis fst_conv)
      then obtain j where "j < length (fst s)" "\<not> gave_up (snd (fst s ! j))"
        using inv none all same by auto
      moreover have "j \<noteq> k" using calculation p 1(2) by auto
      ultimately show ?thesis using others by metis
    qed
    ultimately show ?thesis using sane' None unfolding live_def len by blast
  next
    case (Some b)
    have "\<exists>i < length (fst s). claims (snd (fst t ! i))"
    proof (cases "md_target (snd s)")
      case None
      then have "claims p'" using publishing_claims [OF 1(5)] Some by simp
      then show ?thesis using self 1(1) by auto
    next
      case (Some b')
      then obtain i where i: "i < length (fst s)" "claims (snd (fst s ! i))" using inv by auto
      show ?thesis
      proof (cases "i = k")
        case True
        then have "claims p'" using i(2) 1(2) heading_step(1) [OF 1(5)] by (simp add: claims_def)
        then show ?thesis using self 1(1) by auto
      next
        case False
        then show ?thesis using i others by metis
      qed
    qed
    then show ?thesis using sane' Some len by (simp add: live_def)
  qed
qed

text \<open>With hard links no call raises.\<close>

definition smooth :: "call_point \<Rightarrow> media_disk \<Rightarrow> bool" where
  "smooth p d \<longleftrightarrow> heading p \<noteq> Some Failed \<and> p \<noteq> AtFallbackReplace
     \<and> (p = AtFallbackCheck \<longrightarrow> md_target d \<noteq> None)"

lemma smooth_step:
  assumes "call_step c p d = (p', d')" "sane_disk d" "md_hard_links d" "smooth p d"
    and "md_target d = None \<longrightarrow> on_track c p d"
  shows "smooth p' d'"
proof (cases p)
  case AtLink
  then have "publish_link (assembling_name (sc_out_token c)) d = (p', d')" using assms(1) by simp
  then show ?thesis
    using assms(3,5) AtLink by (cases rule: publish_link_cases) (auto simp: smooth_def)
qed (use assms in \<open>auto simp: smooth_def sane_disk_def drop_defs drop_file_eq
    split: if_splits option.splits part_node.splits list.splits\<close>)

lemma target_stays:
  assumes "call_step c p d = (p', d')" "md_target d \<noteq> None"
  shows "md_target d' \<noteq> None"
  using assms by (metis option.distinct(1) step_target)

definition all_smooth :: "transfer \<Rightarrow> bool" where
  "all_smooth s \<longleftrightarrow> md_hard_links (snd s) \<and> (\<forall>k < length (fst s). smooth (snd (fst s ! k)) (snd s))"

lemma all_smooth_step:
  assumes "progress s t" "live s" "all_smooth s"
  shows "all_smooth t"
  using assms(1)
proof (cases rule: progress_cases)
  case (1 k c p p')
  have hard: "md_hard_links (snd t)"
    by (rule step_target [OF 1(5)]) (use assms(3) in \<open>simp_all add: all_smooth_def\<close>)
  have before: "smooth p (snd s)" "md_hard_links (snd s)"
    using assms(3) 1(1,2) unfolding all_smooth_def by (metis snd_conv)+
  have "md_target (snd s) = None \<longrightarrow> on_track c p (snd s)" "sane_disk (snd s)"
    using assms(2) 1(1,2) unfolding live_def by (metis fst_conv snd_conv)+
  then have own: "smooth p' (snd t)" by (intro smooth_step [OF 1(5)] before)
  have "smooth (snd (fst s ! i)) (snd t)" if "i < length (fst s)" for i
    using assms(3) that target_stays [OF 1(5)] by (auto simp: all_smooth_def smooth_def)
  then show ?thesis using own hard 1(1,4) by (auto simp: all_smooth_def nth_list_update)
qed

section \<open>Every file arrives\<close>

definition fresh_disk :: "byte list list \<Rightarrow> media_disk \<Rightarrow> bool" where
  "fresh_disk fs d \<longleftrightarrow> sane_disk d \<and> md_target d = None \<and> own_parts_only fs d"

lemma live_arrivals:
  assumes "sane_disk d" "md_target d = None" "cs \<noteq> []"
  shows "live (arrivals cs d)"
  using assms by (auto simp: live_def arrivals_def gave_up_def)

lemma close_size:
  assumes "honest.sound fs s" "\<forall>c\<in>set (calls_of s). sc_expected c < 0 \<or> sc_expected c = int (length (concat fs))"
  shows "\<forall>k < length (fst s). \<forall>acc. snd (fst s ! k) = AtCloseOut acc \<longrightarrow> size_matches (fst (fst s ! k)) acc"
proof (intro allI impI)
  fix k acc
  assume k: "k < length (fst s)" "snd (fst s ! k) = AtCloseOut acc"
  define c where "c = fst (fst s ! k)"
  have "honest_call fs c" "\<exists>i \<ge> sc_count c. acc = concat (take i fs)"
    using assms(1) k by (auto simp: honest.sound_def honest.call_good_def c_def)
  then have "acc = concat fs" by (auto simp: honest_call_def)
  moreover have "c \<in> set (calls_of s)" using k(1) by (simp add: calls_of_def c_def)
  ultimately show "size_matches (fst (fst s ! k)) acc"
    using assms(2) by (auto simp: size_matches_def c_def)
qed

lemma live_run:
  assumes "progress\<^sup>*\<^sup>* (arrivals cs d) s" "tokens_distinct cs" "cs \<noteq> []" "fresh_disk fs d"
    and "\<forall>c\<in>set cs. honest_call fs c \<and> (sc_expected c < 0 \<or> sc_expected c = int (length (concat fs)))"
    and "length fs \<le> 10 ^ 6"
  shows "live s \<and> (md_hard_links d \<longrightarrow> all_smooth s)"
  using assms(1)
proof (induction rule: rtranclp_induct)
  case base
  show ?case
    using assms(3,4) live_arrivals [of d cs]
    by (auto simp: fresh_disk_def all_smooth_def arrivals_def smooth_def)
next
  case (step t u)
  have run: "transfer_step\<^sup>*\<^sup>* (arrivals cs d) t" using step(1) by (rule progress_run)
  then have calls: "calls_of t = cs" by (simp add: calls_of_run)
  have "honest.sound fs t"
    using assms(2,4,5)
    by (intro honest.sound_run [OF run]) (auto simp: fresh_disk_def own_parts_only_def honest.parts_good_def)
  then have sizes: "\<forall>k < length (fst t). \<forall>acc. snd (fst t ! k) = AtCloseOut acc
      \<longrightarrow> size_matches (fst (fst t ! k)) acc"
    using assms(5) by (intro close_size) (auto simp: calls)
  have "\<forall>c\<in>set (calls_of t). sc_count c \<le> 10 ^ 6" using assms(5,6) by (simp add: calls honest_call_def)
  then show ?case
    using live_step [OF step(2) _ _ _ sizes] all_smooth_step [OF step(2)] step(3) assms(2) by (simp add: calls)
qed

lemma target_in_the_end:
  assumes "live s" "\<forall>k < length (fst s). returned (snd (fst s ! k))"
    and "\<forall>c\<in>set (calls_of s). sc_count c = n" "\<forall>i < n. \<exists>c\<in>set (calls_of s). sc_index c = i"
  shows "md_target (snd s) \<noteq> None"
proof
  assume none: "md_target (snd s) = None"
  have waiting: "snd (fst s ! k) = Returned Waiting \<and> entry (snd s) (part_name (sc_index (fst (fst s ! k)))) \<noteq> None"
    if "k < length (fst s)" for k
  proof -
    obtain r where r: "snd (fst s ! k) = Returned r" using assms(2) \<open>k < length (fst s)\<close> by (auto simp: returned_iff)
    moreover have "on_track (fst (fst s ! k)) (Returned r) (snd s)"
      using assms(1) none that r unfolding live_def by metis
    ultimately show ?thesis by (cases r) simp_all
  qed
  have "all_parts n (snd s)"
    unfolding all_parts_def
  proof (intro allI impI)
    fix i
    assume "i < n"
    then obtain c where "c \<in> set (calls_of s)" "sc_index c = i" using assms(4) by auto
    then obtain k where "k < length (fst s)" "sc_index (fst (fst s ! k)) = i"
      by (auto simp: calls_of_def in_set_conv_nth)
    then show "entry (snd s) (part_name i) \<noteq> None" using waiting by blast
  qed
  moreover have "\<forall>k < length (fst s). sc_count (fst (fst s ! k)) = n"
    using assms(3) by (auto simp: calls_of_def)
  ultimately obtain k where "k < length (fst s)" "\<not> gave_up (snd (fst s ! k))"
    using assms(1) none unfolding live_def by blast
  then show False using waiting by (auto simp: gave_up_def)
qed

text \<open>
  C7. Every file arrives: once calls for every chunk of a file have returned and none died, the target is the file,
  in whatever order and however often the chunks came and however the calls interleaved; with hard links
  exactly one call published it and none raised.
\<close>
theorem every_file_arrives:
  assumes "0 < chunk_bytes" and "\<forall>c\<in>set cs. sent_chunk data chunk_bytes c" and "tokens_distinct cs"
    and "int (length (split_into_chunks data chunk_bytes)) \<le> max_media_chunks"
    and "\<forall>(sq, raw) \<in> set (split_into_chunks data chunk_bytes). \<exists>c\<in>set cs. int (sc_index c) = sq_index sq"
    and "fresh_disk (map snd (split_into_chunks data chunk_bytes)) d"
    and "progress\<^sup>*\<^sup>* (arrivals cs d) s" and "\<forall>call \<in> set (fst s). returned (snd call)"
  shows "md_target (snd s) = Some data
    \<and> (md_hard_links d \<longrightarrow> (\<exists>!k. k < length cs \<and> snd (fst s ! k) = Returned Published)
         \<and> (\<forall>call \<in> set (fst s). snd call \<noteq> Returned Failed))"
proof -
  define fs where "fs = pieces data chunk_bytes"
  have len: "length fs = length (split_into_chunks data chunk_bytes)" by (simp add: fs_def pieces_def)
  have data: "concat fs = data" unfolding fs_def by (rule concat_pieces [OF assms(1)])
  have calls: "\<forall>c\<in>set cs. honest_call fs c \<and> (sc_expected c < 0 \<or> sc_expected c = int (length (concat fs)))"
    using assms(2) sent_chunk_honest data by (auto simp: fs_def)
  have few: "length fs \<le> 10 ^ 6" using assms(4) by (simp add: len max_media_chunks_def)
  have fresh: "fresh_disk fs d" using assms(6) by (simp add: fs_def pieces_def)
  have delivered: "\<exists>c\<in>set cs. sc_index c = i" if "i < length fs" for i
  proof -
    have "split_into_chunks data chunk_bytes ! i \<in> set (split_into_chunks data chunk_bytes)" using that len by simp
    from bspec [OF assms(5) this] show ?thesis using that by (simp add: split_nth fs_def)
  qed
  have "0 < length fs" by (simp add: fs_def chunk_count_def)
  then have "cs \<noteq> []" using delivered by fastforce
  from live_run [OF assms(7,3) this fresh calls few]
  have live: "live s" "md_hard_links d \<Longrightarrow> all_smooth s" by simp_all
  have run: "transfer_step\<^sup>*\<^sup>* (arrivals cs d) s" using assms(7) by (rule progress_run)
  have same: "calls_of s = cs" using calls_of_run [OF run] by simp
  then have lens: "length (fst s) = length cs" unfolding calls_of_def by (metis length_map)
  have ended: "\<forall>k < length (fst s). returned (snd (fst s ! k))" using assms(8) by simp
  have target: "md_target (snd s) \<noteq> None"
    using calls delivered by (intro target_in_the_end [OF live(1) ended, of "length fs"]) (auto simp: same honest_call_def)
  have "honest.sound fs s"
    using assms(3) calls fresh
    by (intro honest.sound_run [OF run]) (auto simp: fresh_disk_def own_parts_only_def honest.parts_good_def)
  then have "md_target (snd s) = Some data" using target data by (auto simp: honest.sound_def)
  moreover have "(\<exists>!k. k < length cs \<and> snd (fst s ! k) = Returned Published)
      \<and> (\<forall>call \<in> set (fst s). snd call \<noteq> Returned Failed)" if hard: "md_hard_links d"
  proof
    obtain k where k: "k < length (fst s)" "claims (snd (fst s ! k))"
      using live(1) target by (auto simp: live_def)
    then have "snd (fst s ! k) = Returned Published" using ended by (auto simp: claims_def returned_iff)
    moreover have "written_once s"
      using written_once_run [OF run written_once_arrivals [OF hard]] assms(3) by simp
    then have "i = k" if "i < length cs" "snd (fst s ! i) = Returned Published" for i
      using that k lens unfolding written_once_def by (metis claims_def heading.simps(6))
    ultimately show "\<exists>!k. k < length cs \<and> snd (fst s ! k) = Returned Published" using k(1) lens by metis
    show "\<forall>call \<in> set (fst s). snd call \<noteq> Returned Failed"
      using live(2) [OF hard] by (fastforce simp: all_smooth_def smooth_def in_set_conv_nth)
  qed
  ultimately show ?thesis by blast
qed

text \<open>The chunks of a three-byte file, the last one twice, the three calls taking turns at every file operation.\<close>

definition turn_calls :: "store_call list" where
  "turn_calls = [demo_call 1 [3] ''a'', demo_call 0 [1, 2] ''b'', demo_call 1 [3] ''c'']"

definition turns :: "nat list" where
  "turns = concat (replicate 30 [0, 1, 2])"

lemma turns_end:
  "list_all (\<lambda>call. returned (snd call)) (fst (fold advance turns (arrivals turn_calls (empty_disk True))))"
  by code_simp

theorem every_file_arrives_witness:
  "md_target (snd (fold advance turns (arrivals turn_calls (empty_disk True)))) = Some [1, 2, 3]"
proof -
  have tokens: "tokens_distinct turn_calls" and sent: "\<forall>c\<in>set turn_calls. sent_chunk [1, 2, 3] 2 c"
    using demo_sent by (simp_all add: turn_calls_def) (simp add: tokens_distinct_def demo_call_def)
  have all: "\<forall>(sq, raw) \<in> set (split_into_chunks [1, 2, 3] 2). \<exists>c\<in>set turn_calls. int (sc_index c) = sq_index sq"
    by (simp add: demo_chunks turn_calls_def demo_call_def)
  have few: "int (length (split_into_chunks [1, 2, 3] 2)) \<le> max_media_chunks"
    by (simp add: demo_chunks max_media_chunks_def)
  have fresh: "fresh_disk (map snd (split_into_chunks [1, 2, 3] 2)) (empty_disk True)"
    by (simp add: fresh_disk_def sane_disk_def)
  show ?thesis
    using every_file_arrives [OF _ sent tokens few all fresh schedule_progress] turns_end
    by (simp add: list_all_iff)
qed

end
