(* ===== verification/Media_Framing_Props.thy ===== *)
theory Media_Framing_Props
  imports Media_Framing "HOL-Library.Sublist"
begin

text \<open>
  What a channel delivers: a locale for the layout the two framing modules share, parametric in the payload
  ceiling, and its instances for media chunks and app messages.
\<close>

section \<open>Four big-endian bytes\<close>

lemma length_be32 [simp]: "length (be32 n) = 4"
  by (simp add: be32_def)

lemma base_256_digits:
  fixes n :: nat
  assumes "n < 2 ^ 32"
  shows "(((n div 256 ^ 3) mod 256 * 256 + (n div 256 ^ 2) mod 256) * 256 + (n div 256) mod 256) * 256 + n mod 256
    = n"
proof -
  have d: "m div 256 * 256 + m mod 256 = m" for m :: nat by simp
  have e2: "n div 256 ^ 2 = n div 256 div 256" by (simp add: div_mult2_eq [symmetric])
  have e3: "n div 256 ^ 3 = n div 256 div 256 div 256" by (simp add: div_mult2_eq [symmetric])
  have "n div 256 div 256 div 256 < 256" using assms by (simp add: div_mult2_eq [symmetric])
  then show ?thesis by (simp only: e2 e3 d mod_less)
qed

lemma unat_byte_of_nat: "unat (of_nat k :: byte) = k mod 256"
  by (simp add: unat_of_nat)

lemma u32_at_be32 [simp]:
  assumes "n < 2 ^ 32"
  shows "u32_at (be32 n @ post) 0 = n"
proof -
  have "u32_at (be32 n @ post) 0 = (((n div 256 ^ 3) mod 256 * 256 + (n div 256 ^ 2) mod 256) * 256
      + (n div 256) mod 256) * 256 + n mod 256"
    unfolding u32_at_def be32_def by (simp add: unat_byte_of_nat)
  then show ?thesis unfolding base_256_digits [OF assms] .
qed

lemma u32_at_append [simp]: "length pre \<le> off \<Longrightarrow> u32_at (pre @ buf) off = u32_at buf (off - length pre)"
  by (simp add: u32_at_def)

lemma four_bytes:
  fixes a b c d :: nat
  assumes "b < 256" "c < 256" "d < 256"
  shows "(((a * 256 + b) * 256 + c) * 256 + d) div 256 ^ 3 = a"
    and "(((a * 256 + b) * 256 + c) * 256 + d) div 256 ^ 2 = a * 256 + b"
    and "(((a * 256 + b) * 256 + c) * 256 + d) div 256 = (a * 256 + b) * 256 + c"
  using assms by simp_all

lemma be32_of_bytes:
  assumes "length bs = 4"
  shows "be32 (foldl (\<lambda>a b. a * 256 + unat b) 0 bs) = bs"
proof -
  obtain a b c d where bs: "bs = [a, b, c, d]"
    using assms by (auto simp: length_Suc_conv eval_nat_numeral)
  have lt: "unat x < 256" for x :: byte using unsigned_less [of x] by simp
  have m: "of_nat (x * 256 + unat y) = (y :: byte)" for x y
  proof -
    have "unat (of_nat (x * 256 + unat y) :: byte) = unat y"
      unfolding unat_byte_of_nat using lt [of y] by simp
    then show ?thesis by (rule unsigned_word_eqI)
  qed
  have m0: "of_nat (unat y) = (y :: byte)" for y by simp
  show ?thesis
    using four_bytes [OF lt [of b] lt [of c] lt [of d], of "unat a"] unfolding bs be32_def
    by (simp only: list.map foldl.simps mult_0 add_0 power_one_right power_0 div_by_1 m m0 list.inject
        simp_thms)
qed

lemma be32_u32_at: "off + 4 \<le> length buf \<Longrightarrow> be32 (u32_at buf off) = take 4 (drop off buf)"
  unfolding u32_at_def by (rule be32_of_bytes) simp

lemma u32_at_bound: "u32_at buf off < 2 ^ 32"
proof -
  have lt: "unat x < 256" for x :: byte using unsigned_less [of x] by simp
  have "length bs \<le> 4 \<Longrightarrow> foldl (\<lambda>a b. a * 256 + unat b) 0 bs < 256 ^ length bs" for bs :: "byte list"
  proof (induction bs rule: rev_induct)
    case (snoc x xs)
    then show ?case using lt [of x] by simp
  qed simp
  from this [of "take 4 (drop off buf)"]
  have "u32_at buf off < 256 ^ length (take 4 (drop off buf))" unfolding u32_at_def by simp
  also have "(256::nat) ^ length (take 4 (drop off buf)) \<le> 256 ^ 4" by (rule power_increasing) auto
  finally show ?thesis by simp
qed

section \<open>A frame in a buffer\<close>

definition frame_bytes :: "frame \<Rightarrow> byte list" where
  "frame_bytes f = of_int (fr_type f) # be32 (length (fr_header f)) @ fr_header f
     @ be32 (length (fr_payload f)) @ fr_payload f"

definition sendable :: "nat \<Rightarrow> frame \<Rightarrow> bool" where
  "sendable max_payload f \<longleftrightarrow> 0 \<le> fr_type f \<and> fr_type f \<le> 255 \<and> length (fr_header f) \<le> max_header_bytes
     \<and> length (fr_payload f) \<le> max_payload"

definition encode_of :: "nat \<Rightarrow> frame \<Rightarrow> framing_error + byte list" where
  "encode_of max_payload f = encode_frame max_payload (fr_header f) (fr_payload f) (fr_type f)"

lemma encode_of_eq:
  "encode_of max_payload f = Inr w \<longleftrightarrow> sendable max_payload f \<and> w = frame_bytes f"
  by (auto simp: encode_of_def encode_frame_def sendable_def frame_bytes_def)

lemma length_frame_bytes [simp]:
  "length (frame_bytes f) = 9 + length (fr_header f) + length (fr_payload f)"
  by (simp add: frame_bytes_def)

lemma max_header_bound: "max_header_bytes < 2 ^ 32"
  by (simp add: max_header_bytes_def)

section \<open>The layout, for any payload ceiling\<close>

locale frame_layer =
  fixes max_payload :: nat
  assumes payload_bound: "max_payload < 2 ^ 32"
begin

lemma lengths_fit:
  "sendable max_payload f \<Longrightarrow> length (fr_header f) < 2 ^ 32 \<and> length (fr_payload f) < 2 ^ 32"
  using payload_bound max_header_bound by (simp add: sendable_def)

lemma header_length_read:
  assumes "sendable max_payload f" and "t @ r = frame_bytes f" and "5 \<le> length t"
  shows "u32_at (pre @ t @ post) (length pre + 1) = length (fr_header f)"
proof -
  have split5: "t = take 5 (frame_bytes f) @ drop 5 t"
    unfolding assms(2) [symmetric] using assms(3) by simp
  have five: "take 5 (frame_bytes f) = of_int (fr_type f) # be32 (length (fr_header f))"
    by (simp add: frame_bytes_def)
  have t: "t = of_int (fr_type f) # be32 (length (fr_header f)) @ drop 5 t"
    using split5 unfolding five by simp
  have "u32_at (pre @ t @ post) (length pre + 1)
      = u32_at ((pre @ [of_int (fr_type f)]) @ be32 (length (fr_header f)) @ drop 5 t @ post)
         (length pre + 1)"
    by (subst t) simp
  also have "\<dots> = u32_at (be32 (length (fr_header f)) @ drop 5 t @ post) 0"
    by (subst u32_at_append) simp_all
  finally show ?thesis using lengths_fit [OF assms(1)] by simp
qed

lemma payload_length_read:
  assumes "sendable max_payload f" and "t @ r = frame_bytes f" and "9 + length (fr_header f) \<le> length t"
  shows "u32_at (pre @ t @ post) (length pre + 5 + length (fr_header f)) = length (fr_payload f)"
proof -
  define k where "k = 9 + length (fr_header f)"
  define h where "h = of_int (fr_type f) # be32 (length (fr_header f)) @ fr_header f"
  have "t = take k (frame_bytes f) @ drop k t"
    unfolding assms(2) [symmetric] using assms(3) by (simp add: k_def)
  moreover have "take k (frame_bytes f) = h @ be32 (length (fr_payload f))"
    by (simp add: frame_bytes_def k_def h_def take_Cons')
  ultimately have t: "t = h @ be32 (length (fr_payload f)) @ drop k t" by simp
  have lh: "length h = 5 + length (fr_header f)" by (simp add: h_def)
  have "u32_at (pre @ t @ post) (length pre + 5 + length (fr_header f))
      = u32_at ((pre @ h) @ be32 (length (fr_payload f)) @ drop k t @ post)
         (length pre + 5 + length (fr_header f))"
    by (subst t) simp
  also have "\<dots> = u32_at (be32 (length (fr_payload f)) @ drop k t @ post) 0"
    by (subst u32_at_append) (simp_all add: lh)
  finally show ?thesis using lengths_fit [OF assms(1)] by simp
qed

lemma span_of_frame:
  assumes "sendable max_payload f"
  shows "frame_span max_payload (pre @ frame_bytes f @ post) (length pre)
    = Inr (Some (length pre + 5, length (fr_header f), length pre + 9 + length (fr_header f),
        length (fr_payload f)))"
proof -
  have "frame_bytes f @ [] = frame_bytes f" by simp
  note hl = header_length_read [OF assms this, of pre post]
    and pl = payload_length_read [OF assms this, of pre post]
  show ?thesis
    using hl pl assms by (simp add: frame_span_def sendable_def Let_def)
qed

lemma frame_there:
  assumes "sendable max_payload f"
  shows "frame_at (pre @ frame_bytes f @ post) (length pre)
    (length pre + 5, length (fr_header f), length pre + 9 + length (fr_header f), length (fr_payload f)) = f"
proof -
  have "uint (of_int (fr_type f) :: byte) = fr_type f"
    using assms by (simp add: sendable_def uint_word_of_int)
  moreover have "drop (length pre + 9 + length (fr_header f)) (pre @ frame_bytes f @ post)
      = fr_payload f @ post"
    by (simp add: frame_bytes_def drop_Cons')
  ultimately show ?thesis by (simp add: frame_at_def frame_bytes_def nth_append)
qed

lemma span_of_cut_frame:
  assumes "sendable max_payload f" and "strict_prefix t (frame_bytes f)"
  shows "frame_span max_payload (pre @ t) (length pre) = Inr None"
proof -
  obtain r where r: "t @ r = frame_bytes f" using assms(2) by (auto simp: strict_prefix_def prefix_def)
  have lt: "length t < 9 + length (fr_header f) + length (fr_payload f)"
    using prefix_length_less [OF assms(2)] by simp
  note hl = header_length_read [OF assms(1) r, of pre "[]"]
    and pl = payload_length_read [OF assms(1) r, of pre "[]"]
  show ?thesis
  proof (cases "5 \<le> length t")
    case True
    then have h: "u32_at (pre @ t) (length pre + 1) = length (fr_header f)" using hl by simp
    show ?thesis
    proof (cases "9 + length (fr_header f) \<le> length t")
      case p: True
      then have "u32_at (pre @ t) (length pre + 5 + length (fr_header f)) = length (fr_payload f)"
        using pl by simp
      then show ?thesis using h lt assms(1) by (simp add: frame_span_def sendable_def Let_def)
    next
      case False
      then show ?thesis using h assms(1) by (simp add: frame_span_def sendable_def Let_def)
    qed
  qed (simp add: frame_span_def)
qed

end

section \<open>Cutting a stream into frames\<close>

text \<open>What a buffer holds while a stream arrives: whole frames, then nothing or the start of the next one.\<close>

definition stream_of :: "frame list \<Rightarrow> byte list" where
  "stream_of fs = concat (map frame_bytes fs)"

definition partial_frame :: "frame list \<Rightarrow> byte list \<Rightarrow> bool" where
  "partial_frame gs t \<longleftrightarrow> t = [] \<or> (gs \<noteq> [] \<and> strict_prefix t (frame_bytes (hd gs)))"

lemma stream_of_simps [simp]:
  "stream_of [] = []"
  "stream_of (f # fs) = frame_bytes f @ stream_of fs"
  "stream_of (fs @ gs) = stream_of fs @ stream_of gs"
  by (simp_all add: stream_of_def)

lemma prefix_of_stream:
  assumes "x @ r = stream_of gs"
  shows "\<exists>fs hs t. gs = fs @ hs \<and> x = stream_of fs @ t \<and> partial_frame hs t"
  using assms
proof (induction gs arbitrary: x)
  case Nil
  then show ?case by (auto simp: partial_frame_def)
next
  case (Cons g gs)
  show ?case
  proof (cases "length (frame_bytes g) \<le> length x")
    case True
    define y where "y = drop (length (frame_bytes g)) x"
    have "take (length (frame_bytes g)) (x @ r) = frame_bytes g"
      unfolding Cons.prems by (simp del: length_frame_bytes)
    then have "take (length (frame_bytes g)) x = frame_bytes g"
      using True by (simp del: length_frame_bytes)
    then have x: "x = frame_bytes g @ y"
      unfolding y_def using append_take_drop_id [of "length (frame_bytes g)" x] by (simp del: length_frame_bytes)
    then have y: "x = frame_bytes g @ y" "y @ r = stream_of gs" using Cons.prems by simp_all
    from Cons.IH [OF y(2)] obtain fs hs t where
      "gs = fs @ hs" "y = stream_of fs @ t" "partial_frame hs t" by blast
    then have "g # gs = (g # fs) @ hs \<and> x = stream_of (g # fs) @ t \<and> partial_frame hs t"
      using y by simp
    then show ?thesis by blast
  next
    case False
    then have "strict_prefix x (frame_bytes g)"
      using Cons.prems
      by (auto simp: append_eq_append_conv2 strict_prefix_def intro: prefixI [OF sym] simp del: length_frame_bytes)
    then have "g # gs = [] @ (g # gs) \<and> x = stream_of [] @ x \<and> partial_frame (g # gs) x"
      by (simp add: partial_frame_def)
    then show ?thesis by blast
  qed
qed

context frame_layer
begin

lemma frames_from_stream:
  assumes "\<forall>f\<in>set (fs @ hs). sendable max_payload f" and "partial_frame hs t"
  shows "frames_from max_payload (pre @ stream_of fs @ t) (length pre)
    = Inr (fs, length pre + length (stream_of fs))"
  using assms(1)
proof (induction fs arbitrary: pre)
  case Nil
  then show ?case
    using assms(2) span_of_cut_frame [of "hd hs" t pre]
    by (auto simp: frames_from.simps [of _ "pre @ t"] partial_frame_def)
next
  case (Cons f fs)
  have f: "sendable max_payload f" using Cons.prems by simp
  have span: "frame_span max_payload (pre @ stream_of (f # fs) @ t) (length pre)
      = Inr (Some (length pre + 5, length (fr_header f), length pre + 9 + length (fr_header f),
          length (fr_payload f)))"
    using span_of_frame [OF f, of pre "stream_of fs @ t"] by simp
  have there: "frame_at (pre @ stream_of (f # fs) @ t) (length pre)
      (length pre + 5, length (fr_header f), length pre + 9 + length (fr_header f), length (fr_payload f)) = f"
    using frame_there [OF f, of pre "stream_of fs @ t"] by simp
  have IH: "frames_from max_payload (pre @ stream_of (f # fs) @ t)
      (length pre + 9 + length (fr_header f) + length (fr_payload f))
      = Inr (fs, length pre + length (stream_of (f # fs)))"
    using Cons.IH [of "pre @ frame_bytes f"] Cons.prems by (simp add: add.assoc)
  have inside: "\<not> length (pre @ stream_of (f # fs) @ t) \<le> length pre" by simp
  show ?case
    by (subst frames_from.simps)
      (simp only: if_not_P [OF inside] span sum.case option.case fst_conv snd_conv IH prod.case there)
qed

lemma iter_stream:
  assumes "\<forall>f\<in>set (fs @ hs). sendable max_payload f" and "partial_frame hs t"
  shows "iter_complete_frames max_payload (stream_of fs @ t) = Inr (fs, t)"
  using frames_from_stream [OF assms, of "[]"] by (simp add: iter_complete_frames_def)

lemma drain_stream:
  assumes "\<forall>f\<in>set gs. sendable max_payload f"
    and "t @ concat msgs = stream_of gs" and "partial_frame gs t"
  shows "fold (drain_message (iter_complete_frames max_payload) k) msgs (t, out)
    = ([], out @ map (\<lambda>f. (fr_header f, fr_payload f)) (filter (\<lambda>f. fr_type f = k) gs))"
  using assms
proof (induction msgs arbitrary: gs t out)
  case Nil
  have "t = []"
  proof (rule ccontr)
    assume "t \<noteq> []"
    then have "gs \<noteq> []" "strict_prefix t (frame_bytes (hd gs))"
      using Nil.prems(3) by (auto simp: partial_frame_def)
    then show False
      using Nil.prems(2) by (cases gs) (auto simp: strict_prefix_def prefix_def)
  qed
  moreover have "gs = []"
  proof (cases gs)
    case (Cons g gs')
    then have "length (stream_of gs) \<noteq> 0" by simp
    then show ?thesis using Nil.prems(2) \<open>t = []\<close> by simp
  qed
  ultimately show ?case by simp
next
  case (Cons m msgs)
  from Cons.prems(2) have "(t @ m) @ concat msgs = stream_of gs" by simp
  from prefix_of_stream [OF this] obtain fs hs t' where
    gs: "gs = fs @ hs" "t @ m = stream_of fs @ t'" "partial_frame hs t'" by blast
  have step: "drain_message (iter_complete_frames max_payload) k m (t, out)
      = (t', out @ map (\<lambda>f. (fr_header f, fr_payload f)) (filter (\<lambda>f. fr_type f = k) fs))"
    using iter_stream [of fs hs t'] Cons.prems(1) gs by (simp add: drain_message_def)
  have rest: "t' @ concat msgs = stream_of hs"
  proof -
    have "stream_of fs @ t' @ concat msgs = stream_of fs @ stream_of hs"
      using Cons.prems(2) gs(2) unfolding gs(1) by (metis append_assoc concat.simps(2) stream_of_simps(3))
    then show ?thesis by simp
  qed
  show ?case
    using Cons.IH [OF _ rest gs(3)] Cons.prems(1) gs(1) by (simp add: step)
qed

end

section \<open>A decoded frame is the bytes it was cut from\<close>

lemma cut_three:
  assumes "i \<le> j" "j \<le> length xs"
  shows "drop i xs = take (j - i) (drop i xs) @ drop j xs"
  using append_take_drop_id [of "j - i" "drop i xs"] assms by simp

lemma frame_span_inverse:
  assumes "frame_span max_payload buf off = Inr (Some (ho, hl, po, pl))"
  shows "drop off buf = frame_bytes (frame_at buf off (ho, hl, po, pl)) @ drop (po + pl) buf"
    and "sendable max_payload (frame_at buf off (ho, hl, po, pl))"
proof -
  have n: "off + 5 \<le> length buf" and hl: "hl = u32_at buf (off + 1)" "hl \<le> max_header_bytes" and ho: "ho = off + 5"
    and po: "po = off + 9 + hl" and pl: "pl = u32_at buf (off + 5 + hl)" "pl \<le> max_payload"
    and fits: "po + pl \<le> length buf"
    using assms by (auto simp: frame_span_def Let_def split: if_splits)
  define f where "f = frame_at buf off (ho, hl, po, pl)"
  have f: "fr_type f = uint (buf ! off)" "fr_header f = take hl (drop ho buf)" "fr_payload f = take pl (drop po buf)"
    by (simp_all add: f_def frame_at_def)
  have lens: "length (fr_header f) = hl" "length (fr_payload f) = pl" using fits po ho f by simp_all
  have "drop off buf = buf ! off # drop (off + 1) buf"
    using n by (simp add: Cons_nth_drop_Suc)
  also have "drop (off + 1) buf = be32 hl @ drop ho buf"
    using cut_three [of "off + 1" "off + 5" buf] be32_u32_at [of "off + 1" buf] n hl ho by simp
  also have "drop ho buf = fr_header f @ drop (off + 5 + hl) buf"
    using cut_three [of "off + 5" "off + 5 + hl" buf] fits po ho f by simp
  also have "drop (off + 5 + hl) buf = be32 pl @ drop po buf"
    using cut_three [of "off + 5 + hl" po buf] be32_u32_at [of "off + 5 + hl" buf] fits po pl by simp
  also have "drop po buf = fr_payload f @ drop (po + pl) buf"
    using cut_three [of po "po + pl" buf] fits f by simp
  finally show "drop off buf = frame_bytes f @ drop (po + pl) buf"
    using lens by (simp add: frame_bytes_def f(1))
  show "sendable max_payload f"
    using hl pl f(1) lens unsigned_less [of "buf ! off"] uint_bounded [of "buf ! off"]
    by (simp add: sendable_def)
qed

lemma frame_span_none_short:
  "frame_span max_payload buf off = Inr None \<Longrightarrow> length buf < off + 9 + max_header_bytes + max_payload"
  by (auto simp: frame_span_def Let_def split: if_splits)

lemma frames_from_inverse:
  assumes "frames_from max_payload buf off = Inr (fs, tail)" and "off \<le> length buf"
  shows "drop off buf = stream_of fs @ drop tail buf \<and> (\<forall>f\<in>set fs. sendable max_payload f)
    \<and> length buf < tail + 9 + max_header_bytes + max_payload"
  using assms
proof (induction max_payload buf off arbitrary: fs tail rule: frames_from.induct)
  case (1 max_payload buf off)
  show ?case
  proof (cases "length buf \<le> off")
    case True
    then show ?thesis using "1.prems" by (simp add: frames_from.simps)
  next
    case False
    note run = "1.prems"(1) [unfolded frames_from.simps [of max_payload buf off] if_not_P [OF False]]
    show ?thesis
    proof (cases "frame_span max_payload buf off")
      case (Inl e)
      then show ?thesis using run by simp
    next
      case (Inr r)
      show ?thesis
      proof (cases r)
        case None
        then show ?thesis using run Inr frame_span_none_short [of max_payload buf off] by simp
      next
        case (Some s)
        obtain ho hl po pl where s: "s = (ho, hl, po, pl)" by (cases s) auto
        note span = Inr [unfolded Some s]
        from run obtain fs' where fs: "fs = frame_at buf off s # fs'"
          and rest: "frames_from max_payload buf (po + pl) = Inr (fs', tail)"
          by (auto simp: span s split: sum.splits)
        have "po + pl \<le> length buf" using frame_span_advances [OF span] by simp
        then have "drop (po + pl) buf = stream_of fs' @ drop tail buf \<and> (\<forall>f\<in>set fs'. sendable max_payload f)
            \<and> length buf < tail + 9 + max_header_bytes + max_payload"
          using "1.IH" [OF False Inr Some, of fs' tail] rest by (simp add: s)
        then show ?thesis using frame_span_inverse [OF span] by (simp add: fs s)
      qed
    qed
  qed
qed

lemma frames_from_inside:
  assumes "frames_from max_payload buf off = Inr (fs, tail)" and "off \<le> length buf"
  shows "tail \<le> length buf"
  using assms
proof (induction max_payload buf off arbitrary: fs tail rule: frames_from.induct)
  case (1 max_payload buf off)
  note run = "1.prems"(1) [unfolded frames_from.simps [of max_payload buf off]]
  show ?case
    using run "1.prems"(2) "1.IH"
    by (auto split: if_splits sum.splits option.splits dest: frame_span_advances)
qed

lemma iter_leftover_short:
  assumes "iter_complete_frames max_payload buf = Inr (fs, t)"
  shows "buf = stream_of fs @ t" and "length t < 9 + max_header_bytes + max_payload"
    and "\<forall>f\<in>set fs. sendable max_payload f"
proof -
  obtain off where off: "frames_from max_payload buf 0 = Inr (fs, off)" "t = drop off buf"
    using assms by (auto simp: iter_complete_frames_def res_bind_def split: sum.splits)
  note inv = frames_from_inverse [OF off(1)] frames_from_inside [OF off(1)]
  show "buf = stream_of fs @ t" "\<forall>f\<in>set fs. sendable max_payload f" using inv off(2) by simp_all
  show "length t < 9 + max_header_bytes + max_payload" using inv off(2) by auto
qed

lemma drain_buffer_bounded:
  assumes "length (fst st) < 9 + max_header_bytes + max_payload"
  shows "length (fst (fold (drain_message (iter_complete_frames max_payload) k) msgs st))
    < 9 + max_header_bytes + max_payload"
  using assms
proof (induction msgs arbitrary: st)
  case (Cons m msgs)
  have "length (fst (drain_message (iter_complete_frames max_payload) k m st)) < 9 + max_header_bytes + max_payload"
    by (auto simp: drain_message_def split: sum.splits dest: iter_leftover_short(2))
  from Cons.IH [OF this] show ?case by simp
qed simp

section \<open>The two channels\<close>

interpretation media: frame_layer media_max_payload_bytes
  by unfold_locales (simp add: media_max_payload_bytes_def)

interpretation app: frame_layer app_max_payload_bytes
  by unfold_locales (simp add: app_max_payload_bytes_def)

lemma encodings_are_a_stream:
  fixes fs :: "frame list"
  assumes "list_all2 (\<lambda>f w. encode_of max_payload f = Inr w) fs ws"
  shows "concat ws = stream_of fs" and "\<forall>f\<in>set fs. sendable max_payload f"
  using assms by (induction fs ws rule: list_all2_induct) (auto simp: encode_of_eq)

text \<open>
  C34. Whatever the peer sends in frames the encoder accepts arrives, in order and once: however the messages
  cut or join the encoded frames, each channel hands its handler exactly the frames of the type it knows,
  skips the others, and ends with an empty buffer.
\<close>
theorem channels_deliver_the_frames:
  fixes fs gs :: "frame list"
  assumes "list_all2 (\<lambda>f w. media_encode (fr_header f) (fr_payload f) (fr_type f) = Inr w) fs ws"
    and "concat msgs = concat ws"
    and "list_all2 (\<lambda>f w. app_encode (fr_header f) (fr_payload f) (fr_type f) = Inr w) gs vs"
    and "concat msgs' = concat vs"
  shows "drain_media msgs ([], out)
      = ([], out @ map (\<lambda>f. (fr_header f, fr_payload f)) (filter (\<lambda>f. fr_type f = frame_type_media_chunk) fs))
    \<and> drain_app msgs' ([], out')
      = ([], out' @ map (\<lambda>f. (fr_header f, fr_payload f)) (filter (\<lambda>f. fr_type f = frame_type_app_msg) gs))"
proof
  note enc = assms(1) [unfolded media_encode_def encode_of_def [symmetric]]
  have "[] @ concat msgs = stream_of fs" using assms(2) encodings_are_a_stream(1) [OF enc] by simp
  from media.drain_stream [OF encodings_are_a_stream(2) [OF enc] this]
  show "drain_media msgs ([], out)
      = ([], out @ map (\<lambda>f. (fr_header f, fr_payload f)) (filter (\<lambda>f. fr_type f = frame_type_media_chunk) fs))"
    by (simp add: drain_media_def media_iter_def [abs_def] partial_frame_def)
next
  note enc = assms(3) [unfolded app_encode_def encode_of_def [symmetric]]
  have "[] @ concat msgs' = stream_of gs" using assms(4) encodings_are_a_stream(1) [OF enc] by simp
  from app.drain_stream [OF encodings_are_a_stream(2) [OF enc] this]
  show "drain_app msgs' ([], out')
      = ([], out' @ map (\<lambda>f. (fr_header f, fr_payload f)) (filter (\<lambda>f. fr_type f = frame_type_app_msg) gs))"
    by (simp add: drain_app_def app_iter_def [abs_def] partial_frame_def)
qed

text \<open>Two frames, the second of a type nobody knows, cut in the middle of the first and joined after it.\<close>

definition demo_frames :: "frame list" where
  "demo_frames = [\<lparr>fr_type = 1, fr_header = [7], fr_payload = [8, 9]\<rparr>,
     \<lparr>fr_type = 2, fr_header = [], fr_payload = []\<rparr>]"

definition demo_wire :: "byte list list" where
  "demo_wire = [[1, 0, 0, 0, 1, 7, 0, 0, 0, 2, 8, 9], [2, 0, 0, 0, 0, 0, 0, 0, 0]]"

definition demo_messages :: "byte list list" where
  "demo_messages = [[1, 0, 0], [0, 1, 7, 0, 0, 0, 2, 8, 9, 2, 0], [], [0, 0, 0, 0, 0, 0, 0]]"

theorem channels_deliver_the_frames_witness:
  "drain_media demo_messages ([], []) = ([], [([7], [8, 9])])
    \<and> drain_app demo_messages ([], []) = ([], [([7], [8, 9])])"
proof -
  have m: "list_all2 (\<lambda>f w. media_encode (fr_header f) (fr_payload f) (fr_type f) = Inr w) demo_frames demo_wire"
    by (simp add: demo_frames_def demo_wire_def media_encode_def encode_frame_def max_header_bytes_def
        media_max_payload_bytes_def be32_def)
  have a: "list_all2 (\<lambda>f w. app_encode (fr_header f) (fr_payload f) (fr_type f) = Inr w) demo_frames demo_wire"
    by (simp add: demo_frames_def demo_wire_def app_encode_def encode_frame_def max_header_bytes_def
        app_max_payload_bytes_def be32_def)
  have c: "concat demo_messages = concat demo_wire" by (simp add: demo_messages_def demo_wire_def)
  show ?thesis
    using channels_deliver_the_frames [OF m c a c, of "[]" "[]"]
    by (simp add: demo_frames_def frame_type_media_chunk_def frame_type_app_msg_def)
qed

text \<open>
  C35. The memory a hostile peer can pin in a channel is bounded: after any messages at all, the buffer a channel
  keeps is shorter than one frame of the largest header and payload.
\<close>
theorem channel_buffers_stay_bounded:
  "length (fst (drain_media msgs ([], out))) < 9 + max_header_bytes + media_max_payload_bytes
    \<and> length (fst (drain_app msgs' ([], out'))) < 9 + max_header_bytes + app_max_payload_bytes"
  using drain_buffer_bounded [of "([], out)" media_max_payload_bytes]
    drain_buffer_bounded [of "([], out')" app_max_payload_bytes]
  by (simp add: drain_media_def drain_app_def media_iter_def [abs_def] app_iter_def [abs_def]
      media_max_payload_bytes_def app_max_payload_bytes_def)

section \<open>The HTTPS body\<close>

lemma is_media_body_prefix: "is_media_body buf \<longleftrightarrow> prefix media_body_magic buf"
  by (auto simp: is_media_body_def prefix_def) (metis append_take_drop_id)

lemma magic_length [simp]: "length media_body_magic = 4"
  by (simp add: media_body_magic_def)

lemma body_prefix_length: "length media_body_magic + 1 = (5 :: nat)"
  by simp

lemma suites: "map_of frame_suite_ids i = Some s \<longleftrightarrow> i = 1 \<and> s = media_frame_suite_v1"
  "map_of suite_id_by_name s = Some i \<longleftrightarrow> i = 1 \<and> s = media_frame_suite_v1"
  by (auto simp: frame_suite_ids_def suite_id_by_name_def)

lemma encode_body_v1:
  "encode_body header payload media_frame_suite_v1 =
     res_bind (encode_frame media_max_payload_bytes header payload frame_type_media_chunk)
       (\<lambda>f. Inr (media_body_magic @ [1] @ f))"
  by (simp add: encode_body_def suites(2) [THEN iffD2] media_encode_def)

lemma body_split:
  assumes "is_media_body buf" "5 \<le> length buf"
  shows "buf = media_body_magic @ [buf ! 4] @ drop 5 buf"
proof -
  have "buf = take 4 buf @ drop 4 buf" by simp
  also have "drop 4 buf = buf ! 4 # drop 5 buf" using assms(2) Cons_nth_drop_Suc [of 4 buf] by simp
  also have "take 4 buf = media_body_magic" using assms(1) by (simp add: is_media_body_def)
  finally show ?thesis by simp
qed

lemma decode_body_sound:
  assumes "decode_body buf = Inr (s, f)"
  shows "fr_type f = frame_type_media_chunk \<and> encode_body (fr_header f) (fr_payload f) s = Inr buf"
proof -
  note run = assms [unfolded decode_body_def body_prefix_length Let_def]
  have media: "is_media_body buf" "5 \<le> length buf"
    using run by (auto split: if_split_asm)
  then have head: "\<not> (\<not> is_media_body buf \<or> length buf < 5)" by simp
  obtain s' where suite': "map_of frame_suite_ids (buf ! 4) = Some s'"
    using run [unfolded if_not_P [OF head]] by (auto split: option.split_asm)
  have run': "res_bind (frame_span media_max_payload_bytes buf 5) (\<lambda>span. case span of
        None \<Rightarrow> Inl ShortBuffer
      | Some q \<Rightarrow> if fst (snd (snd q)) + snd (snd (snd q)) \<noteq> length buf then Inl TrailingBytes
          else if uint (buf ! 5) \<noteq> frame_type_media_chunk then Inl UnexpectedFrameType
          else Inr (s', frame_at buf 5 q)) = Inr (s, f)"
    using run [unfolded if_not_P [OF head]] suite' by simp
  then obtain q where q: "frame_span media_max_payload_bytes buf 5 = Inr (Some q)"
    by (auto simp: res_bind_Inr split: option.split_asm)
  obtain ho hl po pl where q': "q = (ho, hl, po, pl)" by (cases q) auto
  note span = q [unfolded q']
  have suite: "map_of frame_suite_ids (buf ! 4) = Some s"
    and whole: "po + pl = length buf" and kind: "uint (buf ! 5) = frame_type_media_chunk"
    and f: "f = frame_at buf 5 (ho, hl, po, pl)"
    using run' suite' by (simp_all add: q q' split: if_split_asm)
  note inv = frame_span_inverse [OF span]
  have type: "fr_type f = frame_type_media_chunk" using kind by (simp add: f frame_at_def)
  have "drop 5 buf = frame_bytes f" using inv(1) whole f by simp
  moreover have "encode_of media_max_payload_bytes f = Inr (frame_bytes f)"
    using inv(2) by (simp add: encode_of_eq f)
  ultimately show ?thesis
    using body_split [OF media] suite type
    by (auto simp: suites encode_body_v1 encode_of_def)
qed

lemma decode_body_complete:
  assumes "fr_type f = frame_type_media_chunk" "encode_body (fr_header f) (fr_payload f) s = Inr buf"
  shows "decode_body buf = Inr (s, f)"
proof -
  from assms have s: "s = media_frame_suite_v1" and "encode_of media_max_payload_bytes f = Inr (drop 5 buf)"
    and buf: "buf = media_body_magic @ [1] @ drop 5 buf"
    by (auto simp: encode_body_def suites encode_of_def media_encode_def res_bind_Inr media_body_magic_def
        split: option.splits)
  then have f: "sendable media_max_payload_bytes f" "buf = (media_body_magic @ [1]) @ frame_bytes f @ []"
    by (simp_all add: encode_of_eq)
  have len: "length (media_body_magic @ [1]) = 5" by (simp add: media_body_magic_def)
  note span = media.span_of_frame [OF f(1), of "media_body_magic @ [1]" "[]", folded f(2), unfolded len]
  note there = media.frame_there [OF f(1), of "media_body_magic @ [1]" "[]", folded f(2), unfolded len]
  have "is_media_body buf" by (simp add: is_media_body_def f(2))
  moreover have "buf ! 4 = 1" "uint (buf ! 5) = 1"
    using assms(1) by (simp_all add: f(2) media_body_magic_def frame_bytes_def frame_type_media_chunk_def)
  moreover have "length buf = 14 + length (fr_header f) + length (fr_payload f)"
    by (simp add: f(2) media_body_magic_def)
  ultimately show ?thesis
    unfolding decode_body_def body_prefix_length Let_def span
    using there by (simp add: suites(1) [THEN iffD2] s frame_type_media_chunk_def)
qed

text \<open>
  C36. The HTTPS media body has one meaning and one form: a body decodes to a suite and a frame exactly when it is
  the encoding of that chunk frame under that suite, so an unknown suite byte, bytes behind the frame, another
  frame type or an oversized length never decode, and no two bodies carry the same frame.
\<close>
theorem media_body_is_canonical:
  "decode_body buf = Inr (s, f) \<longleftrightarrow>
     fr_type f = frame_type_media_chunk \<and> encode_body (fr_header f) (fr_payload f) s = Inr buf"
  using decode_body_sound decode_body_complete by blast

end
