(* ===== verification/Outbox.thy ===== *)
theory Outbox
  imports Federation_Types Complex_Main "HOL-Library.List_Lexorder" "HOL-Library.Char_ord"
    "HOL-Library.Product_Lexorder"
begin

text \<open>
  The outbound queue: \<open>domain/federation_retention.py\<close> (what may be dropped, and when),
  \<open>domain/outbox.py\<close>, \<open>repositories/outbox_repo.py\<close> (the table) and
  \<open>infrastructure/outbox_processor.py\<close> (the retry loop).  Instants are microseconds since the epoch; SQLite's
  \<open>datetime()\<close> rounds a stored text to milliseconds and cuts it to seconds.  Delays are exact rationals where the
  code has floats.
\<close>

section \<open>Retention\<close>

definition never_drop :: "event_type list" where
  "never_drop = [''space_member_banned'', ''space_member_unbanned'', ''space_member_role_changed'',
     ''space_remote_admin_kick'', ''space_key_exchange'', ''space_key_exchange_rekey'',
     ''space_admin_key_share'', ''space_authority_rotated'', ''space_dissolved'', ''unpair'']"

definition short_lived :: "event_type list" where
  "short_lived = [''call_offer'', ''call_answer'', ''call_decline'', ''call_busy'', ''call_ice'',
     ''call_ice_candidate'', ''call_quality'']"

definition online_status :: "event_type list" where
  "online_status = [''user_online'', ''user_idle'', ''user_offline'']"

definition long_lived :: "event_type list" where "long_lived = [''moment_deleted'']"

definition max_pending_per_peer :: nat where "max_pending_per_peer = 1000"

definition seconds :: "int \<Rightarrow> int" where "seconds n = n * 1000000"

definition days :: "int \<Rightarrow> int" where "days n = seconds (n * 86400)"

definition retention_ttl :: int where "retention_ttl = days 7"

definition terminal_grace :: int where "terminal_grace = seconds (24 * 3600)"

definition short_lived_ttl :: int where "short_lived_ttl = seconds 120"

definition long_lived_ttl :: int where "long_lived_ttl = days 30"

definition max_long_lived_relayed_per_origin :: nat where "max_long_lived_relayed_per_origin = 100"

definition own_delete_key_prefix :: string where "own_delete_key_prefix = ''moment-delete:own:''"

definition relayed_delete_key_prefix :: string where "relayed_delete_key_prefix = ''moment-delete:relay:''"

definition capped_delete_key_prefix :: string where
  "capped_delete_key_prefix = ''moment-delete:relay-capped:''"

definition any_relayed_delete_key_prefix :: string where
  "any_relayed_delete_key_prefix = ''moment-delete:relay''"

definition relayed_delete_prefix :: "string \<Rightarrow> string" where
  "relayed_delete_prefix origin = relayed_delete_key_prefix @ origin @ '':''"

definition capped_delete_key :: "string \<Rightarrow> string \<Rightarrow> string" where
  "capped_delete_key origin moment_id = capped_delete_key_prefix @ origin @ '':'' @ moment_id"

fun nonempty_jstr :: "json \<Rightarrow> string option" where
  "nonempty_jstr (JStr s) = (if s = [] then None else Some s)"
| "nonempty_jstr _ = None"

definition moment_delete_key :: "event_type \<Rightarrow> jobj \<Rightarrow> string \<Rightarrow> string option" where
  "moment_delete_key event payload own_instance_id =
     (if event \<notin> set long_lived then None
      else case (nonempty_jstr (jget payload ''origin_instance_id''), nonempty_jstr (jget payload ''moment_id'')) of
        (Some origin, Some moment_id) \<Rightarrow>
          Some (if origin = own_instance_id then own_delete_key_prefix @ moment_id
                else relayed_delete_prefix origin @ moment_id)
      | _ \<Rightarrow> None)"

definition is_long_lived :: "event_type \<Rightarrow> string option \<Rightarrow> bool" where
  "is_long_lived event key =
     (event \<in> set long_lived \<and> (case key of None \<Rightarrow> True | Some k \<Rightarrow> \<not> has_prefix capped_delete_key_prefix k))"

definition supersede_key :: "event_type \<Rightarrow> string option \<Rightarrow> jobj \<Rightarrow> string option" where
  "supersede_key event space_id payload =
     (case nonempty_jstr (jget payload ''user_id'') of
        None \<Rightarrow> None
      | Some user_id \<Rightarrow>
          if event \<in> set online_status then Some (''online:'' @ user_id)
          else if event = ''space_location_updated'' \<and> space_id \<notin> {None, Some []}
          then Some (''location:'' @ the space_id @ '':'' @ user_id)
          else None)"

definition retention_expires_at :: "event_type \<Rightarrow> int \<Rightarrow> int option" where
  "retention_expires_at event now =
     (if event \<in> set never_drop then None
      else if event \<in> set short_lived then Some (now + short_lived_ttl)
      else if event \<in> set long_lived then Some (now + long_lived_ttl)
      else Some (now + retention_ttl))"

section \<open>The table\<close>

datatype entry_status = PENDING | DELIVERED | FAILED

record outbox_entry =
  ob_id :: string
  ob_instance :: string
  ob_event :: event_type
  ob_payload :: string
  ob_status :: entry_status
  ob_attempts :: int
  ob_next_attempt_at :: int
  ob_created_at :: int
  ob_authority :: "string option"
  ob_expires_at :: "int option"
  ob_delivered_at :: "int option"
  ob_failed_at :: "int option"
  ob_supersede_key :: "string option"

text \<open>The outbox rows in insertion order, and the \<open>status\<close> column of \<open>remote_instances\<close> the guards look at.\<close>

record outbox_db =
  od_rows :: "outbox_entry list"
  od_peers :: "(string \<times> pairing_status) list"

text \<open>\<open>datetime(x)\<close> of a stored instant and \<open>datetime('now')\<close>, in seconds.\<close>

definition sql_second :: "int \<Rightarrow> int" where
  "sql_second t = (t + 500) div 1000 div 1000"

definition sql_now :: "int \<Rightarrow> int" where
  "sql_now now = now div 1000000"

definition pending_of :: "string \<Rightarrow> outbox_entry \<Rightarrow> bool" where
  "pending_of peer r \<longleftrightarrow> ob_instance r = peer \<and> ob_status r = PENDING"

definition key_starts :: "string \<Rightarrow> outbox_entry \<Rightarrow> bool" where
  "key_starts prefix r = (case ob_supersede_key r of None \<Rightarrow> False | Some k \<Rightarrow> has_prefix prefix k)"

definition delete_rows :: "(outbox_entry \<Rightarrow> bool) \<Rightarrow> outbox_db \<Rightarrow> outbox_db" where
  "delete_rows P db = db\<lparr>od_rows := filter (\<lambda>r. \<not> P r) (od_rows db)\<rparr>"

definition count_rows :: "(outbox_entry \<Rightarrow> bool) \<Rightarrow> outbox_db \<Rightarrow> nat" where
  "count_rows P db = length (filter P (od_rows db))"

definition update_rows :: "(outbox_entry \<Rightarrow> bool) \<Rightarrow> (outbox_entry \<Rightarrow> outbox_entry) \<Rightarrow> outbox_db \<Rightarrow> outbox_db" where
  "update_rows P f db = db\<lparr>od_rows := map (\<lambda>r. if P r then f r else r) (od_rows db)\<rparr>"

definition count_pending_for :: "string \<Rightarrow> outbox_db \<Rightarrow> nat" where
  "count_pending_for peer db = count_rows (pending_of peer) db"

definition count_failed_for :: "string \<Rightarrow> outbox_db \<Rightarrow> nat" where
  "count_failed_for peer db = count_rows (\<lambda>r. ob_instance r = peer \<and> ob_status r = FAILED) db"

definition count_pending_with_key_prefix :: "string \<Rightarrow> string \<Rightarrow> outbox_db \<Rightarrow> nat" where
  "count_pending_with_key_prefix peer prefix db = count_rows (\<lambda>r. pending_of peer r \<and> key_starts prefix r) db"

definition drop_pending_with_key_prefix :: "string \<Rightarrow> string \<Rightarrow> outbox_db \<Rightarrow> nat \<times> outbox_db" where
  "drop_pending_with_key_prefix peer prefix db =
     (count_pending_with_key_prefix peer prefix db,
      delete_rows (\<lambda>r. pending_of peer r \<and> key_starts prefix r) db)"

definition drop_superseded :: "string \<Rightarrow> string \<Rightarrow> outbox_db \<Rightarrow> nat \<times> outbox_db" where
  "drop_superseded peer key db =
     (count_rows (\<lambda>r. pending_of peer r \<and> ob_supersede_key r = Some key) db,
      delete_rows (\<lambda>r. pending_of peer r \<and> ob_supersede_key r = Some key) db)"

text \<open>The row the cap gives up first: relayed deletes, then the oldest, then by id.\<close>

definition evict_rank :: "outbox_entry \<Rightarrow> nat \<times> int \<times> string" where
  "evict_rank r = (if key_starts any_relayed_delete_key_prefix r then 0 else 1, sql_second (ob_created_at r), ob_id r)"

definition droppable :: "string \<Rightarrow> outbox_entry \<Rightarrow> bool" where
  "droppable peer r \<longleftrightarrow> pending_of peer r \<and> ob_event r \<notin> set never_drop"

definition evict_oldest_droppable :: "string \<Rightarrow> outbox_db \<Rightarrow> bool \<times> outbox_db" where
  "evict_oldest_droppable peer db =
     (case sort_key evict_rank (filter (droppable peer) (od_rows db)) of
        [] \<Rightarrow> (False, db)
      | r # _ \<Rightarrow> (True, delete_rows (\<lambda>x. ob_id x = ob_id r) db))"

definition relayed_delete_class :: "string \<Rightarrow> string \<Rightarrow> int \<Rightarrow> outbox_db \<Rightarrow> string \<times> int option" where
  "relayed_delete_class peer key now db =
     (case partition_char CHR '':'' (drop (length relayed_delete_key_prefix) key) of
        (origin, _, moment_id) \<Rightarrow>
          if count_pending_with_key_prefix peer (relayed_delete_key_prefix @ origin @ '':'') db
             < max_long_lived_relayed_per_origin
          then (key, None)
          else (capped_delete_key origin moment_id, Some (now + retention_ttl)))"

definition still_paired :: "string \<Rightarrow> event_type \<Rightarrow> outbox_db \<Rightarrow> bool" where
  "still_paired peer event db =
     (case map_of (od_peers db) peer of None \<Rightarrow> False | Some st \<Rightarrow> st \<noteq> UNPAIRING \<or> event = ''unpair'')"

record enqueue_args =
  eq_instance :: string
  eq_event :: event_type
  eq_payload :: string
  eq_id :: string
  eq_authority :: "string option"
  eq_expires_at :: "int option"
  eq_supersede_key :: "string option"

datatype enqueue_result = Queued string | NotPaired | DuplicateId

definition new_row :: "enqueue_args \<Rightarrow> int \<Rightarrow> int option \<Rightarrow> string option \<Rightarrow> outbox_entry" where
  "new_row a now expires key =
     \<lparr>ob_id = eq_id a, ob_instance = eq_instance a, ob_event = eq_event a, ob_payload = eq_payload a,
      ob_status = PENDING, ob_attempts = 0, ob_next_attempt_at = seconds (sql_now now),
      ob_created_at = seconds (sql_now now), ob_authority = eq_authority a, ob_expires_at = expires,
      ob_delivered_at = None, ob_failed_at = None, ob_supersede_key = key\<rparr>"

text \<open>The key and the deadline a row is queued under, and the table once room is made for it.\<close>

definition queue_class :: "enqueue_args \<Rightarrow> int \<Rightarrow> outbox_db \<Rightarrow> string option \<times> int option" where
  "queue_class a now db =
     (case (case eq_supersede_key a of
          Some k \<Rightarrow>
            if has_prefix relayed_delete_key_prefix k \<and> eq_expires_at a = None
            then (case relayed_delete_class (eq_instance a) k now db of (k', e) \<Rightarrow> (Some k', e))
            else (Some k, eq_expires_at a)
        | None \<Rightarrow> (None, eq_expires_at a)) of
        (key, expires) \<Rightarrow>
          (key, case expires of None \<Rightarrow> retention_expires_at (eq_event a) now | Some e \<Rightarrow> Some e))"

definition make_room :: "string \<Rightarrow> string option \<Rightarrow> outbox_db \<Rightarrow> outbox_db" where
  "make_room peer key db =
     (let db = (case key of None \<Rightarrow> db | Some k \<Rightarrow> snd (drop_superseded peer k db))
      in if max_pending_per_peer \<le> count_pending_for peer db then snd (evict_oldest_droppable peer db) else db)"

definition insert_row :: "enqueue_args \<Rightarrow> int \<Rightarrow> int option \<Rightarrow> string option \<Rightarrow> outbox_db \<Rightarrow> enqueue_result \<times> outbox_db" where
  "insert_row a now expires key db =
     (if \<not> still_paired (eq_instance a) (eq_event a) db then (NotPaired, db)
      else if eq_id a \<in> ob_id ` set (od_rows db) then (DuplicateId, db)
      else (Queued (eq_id a), db\<lparr>od_rows := od_rows db @ [new_row a now expires key]\<rparr>))"

definition enqueue :: "enqueue_args \<Rightarrow> int \<Rightarrow> outbox_db \<Rightarrow> enqueue_result \<times> outbox_db" where
  "enqueue a now db =
     (case queue_class a now db of
        (key, expires) \<Rightarrow>
          insert_row a now expires key (make_room (eq_instance a) key db))"

section \<open>The awaits of enqueue\<close>

text \<open>
  Between the database calls of \<open>enqueue\<close> other tasks run: a call is a program counter, the key and the deadline it has
  settled on, and each of its steps is one database call.
\<close>

datatype enqueue_pc =
  Classify | FindSuperseded | DropFound | CountPending | PickVictim | DropVictim string | InsertRow | CallDone enqueue_result

record enqueue_call =
  ec_args :: enqueue_args
  ec_pc :: enqueue_pc
  ec_key :: "string option"
  ec_expires :: "int option"

definition start_call :: "enqueue_args \<Rightarrow> enqueue_call" where
  "start_call a = \<lparr>ec_args = a, ec_pc = Classify, ec_key = None, ec_expires = None\<rparr>"

definition enqueue_step :: "int \<Rightarrow> enqueue_call \<Rightarrow> outbox_db \<Rightarrow> enqueue_call \<times> outbox_db" where
  "enqueue_step now c db =
     (let a = ec_args c; peer = eq_instance a
      in case ec_pc c of
        Classify \<Rightarrow>
          (case queue_class a now db of
            (key, expires) \<Rightarrow>
              (c\<lparr>ec_key := key, ec_expires := expires, ec_pc := (if key = None then CountPending else FindSuperseded)\<rparr>, db))
      | FindSuperseded \<Rightarrow>
          (c\<lparr>ec_pc := (if fst (drop_superseded peer (the (ec_key c)) db) = 0 then CountPending else DropFound)\<rparr>, db)
      | DropFound \<Rightarrow> (c\<lparr>ec_pc := CountPending\<rparr>, snd (drop_superseded peer (the (ec_key c)) db))
      | CountPending \<Rightarrow>
          (c\<lparr>ec_pc := (if max_pending_per_peer \<le> count_pending_for peer db then PickVictim else InsertRow)\<rparr>, db)
      | PickVictim \<Rightarrow>
          (case sort_key evict_rank (filter (droppable peer) (od_rows db)) of
            [] \<Rightarrow> (c\<lparr>ec_pc := InsertRow\<rparr>, db)
          | r # _ \<Rightarrow> (c\<lparr>ec_pc := DropVictim (ob_id r)\<rparr>, db))
      | DropVictim i \<Rightarrow> (c\<lparr>ec_pc := InsertRow\<rparr>, delete_rows (\<lambda>r. ob_id r = i) db)
      | InsertRow \<Rightarrow>
          (case insert_row a now (ec_expires c) (ec_key c) db of (res, db') \<Rightarrow> (c\<lparr>ec_pc := CallDone res\<rparr>, db'))
      | CallDone res \<Rightarrow> (c, db))"

section \<open>Delivery bookkeeping\<close>

definition is_due :: "int \<Rightarrow> outbox_entry \<Rightarrow> bool" where
  "is_due now r \<longleftrightarrow> ob_status r = PENDING \<and> sql_second (ob_next_attempt_at r) \<le> sql_now now
     \<and> (case ob_expires_at r of None \<Rightarrow> True | Some e \<Rightarrow> sql_now now < sql_second e)"

definition list_due :: "int \<Rightarrow> nat \<Rightarrow> outbox_db \<Rightarrow> outbox_entry list" where
  "list_due now limit db =
     take limit (sort_key (\<lambda>r. sql_second (ob_next_attempt_at r)) (filter (is_due now) (od_rows db)))"

definition mark_delivered :: "string \<Rightarrow> outbox_db \<Rightarrow> outbox_db" where
  "mark_delivered entry_id db = delete_rows (\<lambda>r. ob_id r = entry_id) db"

definition mark_failed :: "string \<Rightarrow> int \<Rightarrow> outbox_db \<Rightarrow> outbox_db" where
  "mark_failed entry_id now db =
     update_rows (\<lambda>r. ob_id r = entry_id)
       (\<lambda>r. r\<lparr>ob_status := FAILED, ob_failed_at := Some (seconds (sql_now now))\<rparr>) db"

definition reschedule :: "string \<Rightarrow> int \<Rightarrow> int \<Rightarrow> outbox_db \<Rightarrow> outbox_db" where
  "reschedule entry_id next_at attempts db =
     update_rows (\<lambda>r. ob_id r = entry_id) (\<lambda>r. r\<lparr>ob_next_attempt_at := next_at, ob_attempts := attempts\<rparr>) db"

definition expired_by :: "int \<Rightarrow> outbox_entry \<Rightarrow> bool" where
  "expired_by now r \<longleftrightarrow> ob_status r = PENDING \<and> (case ob_expires_at r of None \<Rightarrow> False | Some e \<Rightarrow> e < now)"

definition expire_past_retention :: "int \<Rightarrow> outbox_db \<Rightarrow> nat \<times> outbox_db" where
  "expire_past_retention now db =
     (count_rows (expired_by now) db,
      update_rows (expired_by now) (\<lambda>r. r\<lparr>ob_status := FAILED, ob_failed_at := Some now\<rparr>) db)"

definition terminal_stamp :: "outbox_entry \<Rightarrow> int" where
  "terminal_stamp r =
     (case ob_delivered_at r of Some t \<Rightarrow> t
      | None \<Rightarrow> (case ob_failed_at r of Some t \<Rightarrow> t | None \<Rightarrow> ob_created_at r))"

definition purgeable :: "int \<Rightarrow> outbox_entry \<Rightarrow> bool" where
  "purgeable cutoff r \<longleftrightarrow> ob_status r \<noteq> PENDING \<and> sql_second (terminal_stamp r) < sql_second cutoff"

definition purge_batch :: nat where "purge_batch = 5000"

definition purge_terminal :: "int \<Rightarrow> nat \<Rightarrow> outbox_db \<Rightarrow> nat \<times> outbox_db" where
  "purge_terminal cutoff limit db =
     (let gone = take limit (filter (purgeable cutoff) (od_rows db))
      in (length gone, delete_rows (\<lambda>r. ob_id r \<in> ob_id ` set gone) db))"

definition delete_for_instance :: "string \<Rightarrow> outbox_db \<Rightarrow> outbox_db" where
  "delete_for_instance peer db = delete_rows (\<lambda>r. ob_instance r = peer) db"

definition delete_pending_of_types :: "string \<Rightarrow> event_type list \<Rightarrow> outbox_db \<Rightarrow> nat \<times> outbox_db" where
  "delete_pending_of_types peer types db =
     (count_rows (\<lambda>r. pending_of peer r \<and> ob_event r \<in> set types) db,
      delete_rows (\<lambda>r. pending_of peer r \<and> ob_event r \<in> set types) db)"

definition orphaned :: "outbox_db \<Rightarrow> outbox_entry \<Rightarrow> bool" where
  "orphaned db r \<longleftrightarrow> map_of (od_peers db) (ob_instance r) = None"

definition purge_orphaned :: "outbox_db \<Rightarrow> nat \<times> outbox_db" where
  "purge_orphaned db = (count_rows (orphaned db) db, delete_rows (orphaned db) db)"

definition parked :: "string \<Rightarrow> event_type \<Rightarrow> int \<Rightarrow> outbox_entry \<Rightarrow> bool" where
  "parked peer event now r \<longleftrightarrow>
     pending_of peer r \<and> ob_event r = event \<and> sql_now now < sql_second (ob_next_attempt_at r)"

definition expedite :: "string \<Rightarrow> event_type \<Rightarrow> int \<Rightarrow> outbox_db \<Rightarrow> bool \<times> outbox_db" where
  "expedite peer event now db =
     (if \<not> list_ex (parked peer event now) (od_rows db) then (False, db)
      else (True, update_rows (parked peer event now) (\<lambda>r. r\<lparr>ob_next_attempt_at := now\<rparr>) db))"

section \<open>The retry loop\<close>

definition backoff_seconds :: "int list" where
  "backoff_seconds = [5, 10, 20, 40, 80, 160, 320, 640, 1280, 2560, 5120, 10240, 14400]"

definition jitter_ratio :: rat where "jitter_ratio = 3 / 10"

definition max_attempts :: int where "max_attempts = int (length backoff_seconds)"

definition max_retry_after_s :: rat where "max_retry_after_s = of_int (last backoff_seconds)"

text \<open>What the delivery callback returns; one that raises counts as \<open>TRANSIENT\<close>.\<close>

datatype delivery_outcome = SUCCESS | PERMANENT | TRANSIENT | RETRY_AFTER rat | RAISED

definition retry_after_floor :: "rat \<Rightarrow> rat \<Rightarrow> rat" where
  "retry_after_floor jitter secs = min (max secs 0) max_retry_after_s * (1 + jitter * jitter_ratio)"

definition delay_for :: "rat \<Rightarrow> int \<Rightarrow> rat" where
  "delay_for jitter attempt =
     (let idx = min attempt max_attempts - 1;
          base = of_int (backoff_seconds ! nat idx);
          signed = jitter * 2 - 1
      in max 1 (base * (1 + signed * jitter_ratio)))"

text \<open>\<open>timedelta(seconds=x)\<close>: microseconds, rounded half to even.\<close>

definition round_half_even :: "rat \<Rightarrow> int" where
  "round_half_even x =
     (let n = \<lfloor>x\<rfloor>; d = x - of_int n
      in if d < 1 / 2 then n else if 1 / 2 < d then n + 1 else if even n then n else n + 1)"

definition timedelta_seconds :: "rat \<Rightarrow> int" where
  "timedelta_seconds x = round_half_even (x * 1000000)"

definition kept_pinned :: "outbox_entry \<Rightarrow> bool" where
  "kept_pinned e \<longleftrightarrow> ob_event e \<in> set never_drop \<or> is_long_lived (ob_event e) (ob_supersede_key e)"

text \<open>
  What \<open>drain_once\<close> does with one entry once its delivery has answered; \<open>floor_jitter\<close> and \<open>delay_jitter\<close> are the
  samples drawn from \<open>random.random\<close>.
\<close>

definition settle :: "outbox_entry \<Rightarrow> delivery_outcome \<Rightarrow> rat \<Rightarrow> rat \<Rightarrow> int \<Rightarrow> outbox_db \<Rightarrow> outbox_db" where
  "settle entry outcome floor_jitter delay_jitter now db =
     (if outcome = SUCCESS then mark_delivered (ob_id entry) db
      else if outcome = PERMANENT then mark_failed (ob_id entry) now db
      else
        let floor_s = (case outcome of RETRY_AFTER s \<Rightarrow> retry_after_floor floor_jitter s | _ \<Rightarrow> 0);
            new_attempts = ob_attempts entry + 1
        in if max_attempts \<le> new_attempts
           then if kept_pinned entry
             then reschedule (ob_id entry)
               (now + timedelta_seconds (max (delay_for delay_jitter max_attempts) floor_s)) new_attempts db
             else mark_failed (ob_id entry) now db
           else reschedule (ob_id entry)
             (now + timedelta_seconds (max (delay_for delay_jitter new_attempts) floor_s)) new_attempts db)"

text \<open>The purge loop of \<open>prune_once\<close>: at most twenty batches.\<close>

fun purge_loop :: "nat \<Rightarrow> int \<Rightarrow> outbox_db \<Rightarrow> nat \<times> outbox_db" where
  "purge_loop 0 cutoff db = (0, db)"
| "purge_loop (Suc k) cutoff db =
     (case purge_terminal cutoff purge_batch db of
        (n, db') \<Rightarrow>
          if n < purge_batch then (n, db')
          else (case purge_loop k cutoff db' of (m, db'') \<Rightarrow> (n + m, db'')))"

definition prune_once :: "int \<Rightarrow> outbox_db \<Rightarrow> nat \<times> outbox_db" where
  "prune_once now db =
     (case purge_orphaned db of
        (orphans, db1) \<Rightarrow>
          (case expire_past_retention now db1 of
             (expired, db2) \<Rightarrow>
               (case purge_loop 20 (now - terminal_grace) db2 of
                  (purged, db3) \<Rightarrow> (orphans + expired + purged, db3))))"

section \<open>A run of the queue\<close>

text \<open>
  The table, and the entries the current tick has read and not settled yet: deliveries are awaited, so other
  operations come between them, and \<open>stop\<close> may cancel the tick (\<open>Abandon\<close>); and the calls of \<open>enqueue\<close> under way.
  \<open>Enqueue\<close> is a call nothing comes between; \<open>Prune\<close> is a sweep nothing comes between, and its parts are operations of their own.
\<close>

record outbox_state =
  ox_db :: outbox_db
  ox_due :: "outbox_entry list"
  ox_calls :: "enqueue_call list"

datatype outbox_op =
    Enqueue int enqueue_args
  | Call enqueue_args
  | CallStep int nat
  | DropSuperseded string string
  | DropKeyPrefix string string
  | DropTypes string "event_type list"
  | DropPeer string
  | SetPeer string "pairing_status option"
  | Expedite int string event_type
  | Tick int nat
  | Abandon
  | Answer int delivery_outcome rat rat
  | PurgeOrphaned
  | ExpirePast int
  | PurgeTerminal int nat
  | Prune int

definition on_db :: "(outbox_db \<Rightarrow> outbox_db) \<Rightarrow> outbox_state \<Rightarrow> outbox_state" where
  "on_db f s = s\<lparr>ox_db := f (ox_db s)\<rparr>"

definition set_peer :: "string \<Rightarrow> pairing_status option \<Rightarrow> outbox_db \<Rightarrow> outbox_db" where
  "set_peer peer st db =
     db\<lparr>od_peers := (case st of None \<Rightarrow> AList.delete peer (od_peers db) | Some x \<Rightarrow> AList.update peer x (od_peers db))\<rparr>"

fun outbox_step :: "outbox_op \<Rightarrow> outbox_state \<Rightarrow> outbox_state" where
  "outbox_step (Enqueue now a) s = on_db (\<lambda>db. snd (enqueue a now db)) s"
| "outbox_step (Call a) s = s\<lparr>ox_calls := ox_calls s @ [start_call a]\<rparr>"
| "outbox_step (CallStep now k) s =
     (if k < length (ox_calls s)
      then (case enqueue_step now (ox_calls s ! k) (ox_db s) of
          (c, db) \<Rightarrow> s\<lparr>ox_calls := (ox_calls s)[k := c], ox_db := db\<rparr>)
      else s)"
| "outbox_step (DropSuperseded peer key) s = on_db (\<lambda>db. snd (drop_superseded peer key db)) s"
| "outbox_step (DropKeyPrefix peer prefix) s = on_db (\<lambda>db. snd (drop_pending_with_key_prefix peer prefix db)) s"
| "outbox_step (DropTypes peer types) s = on_db (\<lambda>db. snd (delete_pending_of_types peer types db)) s"
| "outbox_step (DropPeer peer) s = on_db (delete_for_instance peer) s"
| "outbox_step (SetPeer peer st) s = on_db (set_peer peer st) s"
| "outbox_step (Expedite now peer event) s = on_db (\<lambda>db. snd (expedite peer event now db)) s"
| "outbox_step (Tick now limit) s = (if ox_due s = [] then s\<lparr>ox_due := list_due now limit (ox_db s)\<rparr> else s)"
| "outbox_step Abandon s = s\<lparr>ox_due := []\<rparr>"
| "outbox_step (Answer now outcome fj dj) s =
     (case ox_due s of
        [] \<Rightarrow> s
      | e # es \<Rightarrow> s\<lparr>ox_due := es, ox_db := settle e outcome fj dj now (ox_db s)\<rparr>)"
| "outbox_step PurgeOrphaned s = on_db (\<lambda>db. snd (purge_orphaned db)) s"
| "outbox_step (ExpirePast now) s = on_db (\<lambda>db. snd (expire_past_retention now db)) s"
| "outbox_step (PurgeTerminal cutoff limit) s = on_db (\<lambda>db. snd (purge_terminal cutoff limit db)) s"
| "outbox_step (Prune now) s = on_db (\<lambda>db. snd (prune_once now db)) s"

definition outbox_run :: "outbox_op list \<Rightarrow> outbox_state \<Rightarrow> outbox_state" where
  "outbox_run ops s = fold outbox_step ops s"

definition empty_outbox :: "(string \<times> pairing_status) list \<Rightarrow> outbox_state" where
  "empty_outbox peers = \<lparr>ox_db = \<lparr>od_rows = [], od_peers = peers\<rparr>, ox_due = [], ox_calls = []\<rparr>"

end
