(* ===== verification/Outbox_Rows.thy ===== *)
theory Outbox_Rows
  imports Outbox "HOL-Library.Sublist"
begin

text \<open>
  How the operations of the queue change its rows: all but the insertion keep a sub-list of the rows, and of a kept row
  they change only the status (never back to pending), the attempts (\<open>reschedule\<close> alone), the next attempt and the
  terminal stamps.
\<close>

section \<open>Rows that stem from rows\<close>

definition stems :: "bool \<Rightarrow> outbox_entry \<Rightarrow> outbox_entry \<Rightarrow> bool" where
  "stems k r' r \<longleftrightarrow> ob_id r' = ob_id r \<and> ob_instance r' = ob_instance r \<and> ob_event r' = ob_event r
     \<and> ob_payload r' = ob_payload r \<and> ob_supersede_key r' = ob_supersede_key r \<and> ob_expires_at r' = ob_expires_at r
     \<and> (ob_status r' = PENDING \<longrightarrow> ob_status r = PENDING)
     \<and> (k \<longrightarrow> ob_attempts r' = ob_attempts r)"

definition shrinks :: "bool \<Rightarrow> outbox_db \<Rightarrow> outbox_db \<Rightarrow> bool" where
  "shrinks k db' db \<longleftrightarrow> list_emb (stems k) (od_rows db') (od_rows db)"

named_theorems row_ops

lemma stems_refl [simp]: "stems k r r"
  by (simp add: stems_def)

lemma stems_trans: "stems k a b \<Longrightarrow> stems k b c \<Longrightarrow> stems k a c"
  by (simp add: stems_def)

lemma shrinks_refl [simp]: "shrinks k db db"
  unfolding shrinks_def by (rule list_emb_refl) simp

lemma shrinks_trans [trans]: "shrinks k a b \<Longrightarrow> shrinks k b c \<Longrightarrow> shrinks k a c"
  unfolding shrinks_def by (rule list_emb_trans) (auto intro: stems_trans)

lemma list_emb_map_left: "(\<And>x. x \<in> set xs \<Longrightarrow> P (f x) x) \<Longrightarrow> list_emb P (map f xs) xs"
  by (induction xs) auto

lemma list_emb_filter_length:
  assumes "list_emb P xs ys" "\<And>x y. P x y \<Longrightarrow> Q x \<Longrightarrow> Q y"
  shows "length (filter Q xs) \<le> length (filter Q ys)"
  using assms(1) by induction (auto dest: assms(2))

lemma list_emb_map_subseq:
  assumes "list_emb P xs ys" "\<And>x y. P x y \<Longrightarrow> f x = f y"
  shows "subseq (map f xs) (map f ys)"
  using assms(1) by induction (auto dest: assms(2))

lemma shrinks_delete [row_ops]: "shrinks k (delete_rows P db) db"
proof -
  have "list_emb (stems k) (filter (\<lambda>r. \<not> P r) xs) xs" for xs by (induction xs) auto
  then show ?thesis by (simp add: shrinks_def delete_rows_def)
qed

lemma shrinks_update [row_ops]: "(\<And>r. stems k (f r) r) \<Longrightarrow> shrinks k (update_rows P f db) db"
  unfolding shrinks_def update_rows_def by (simp add: list_emb_map_left)

lemma shrinks_count:
  "shrinks k db' db \<Longrightarrow> (\<And>r' r. stems k r' r \<Longrightarrow> Q r' \<Longrightarrow> Q r) \<Longrightarrow> count_rows Q db' \<le> count_rows Q db"
  unfolding shrinks_def count_rows_def by (rule list_emb_filter_length)

lemma shrinks_ids: "shrinks k db' db \<Longrightarrow> subseq (map ob_id (od_rows db')) (map ob_id (od_rows db))"
  unfolding shrinks_def by (erule list_emb_map_subseq) (simp add: stems_def)

lemma subseq_keeps_distinct: "subseq xs ys \<Longrightarrow> distinct ys \<Longrightarrow> distinct xs"
  by (induction rule: list_emb.induct) (auto dest: list_emb_set)

lemma shrinks_distinct: "shrinks k db' db \<Longrightarrow> distinct (map ob_id (od_rows db)) \<Longrightarrow> distinct (map ob_id (od_rows db'))"
  by (rule subseq_keeps_distinct [OF shrinks_ids])

lemma shrinks_rowE:
  assumes "shrinks k db' db" "r' \<in> set (od_rows db')"
  obtains r where "r \<in> set (od_rows db)" "stems k r' r"
  using list_emb_set [of "stems k" "od_rows db'" "od_rows db" r'] assms by (auto simp: shrinks_def)

lemma shrinks_id_set: "shrinks k db' db \<Longrightarrow> i \<in> ob_id ` set (od_rows db') \<Longrightarrow> i \<in> ob_id ` set (od_rows db)"
  by (auto elim!: shrinks_rowE simp: stems_def)

section \<open>The operations\<close>

lemma shrinks_drop_superseded [row_ops]: "shrinks k (snd (drop_superseded peer key db)) db"
  by (simp add: drop_superseded_def row_ops)

lemma shrinks_drop_prefix [row_ops]: "shrinks k (snd (drop_pending_with_key_prefix peer key db)) db"
  by (simp add: drop_pending_with_key_prefix_def row_ops)

lemma shrinks_evict [row_ops]: "shrinks k (snd (evict_oldest_droppable peer db)) db"
  by (auto simp: evict_oldest_droppable_def row_ops split: list.splits)

lemma shrinks_make_room [row_ops]: "shrinks k (make_room peer key db) db"
  unfolding make_room_def Let_def
  by (auto split: option.split intro: row_ops shrinks_trans [OF shrinks_evict shrinks_drop_superseded])

lemma shrinks_mark_delivered [row_ops]: "shrinks k (mark_delivered i db) db"
  by (simp add: mark_delivered_def row_ops)

lemma shrinks_mark_failed [row_ops]: "shrinks k (mark_failed i now db) db"
  unfolding mark_failed_def by (rule shrinks_update) (simp add: stems_def)

lemma shrinks_reschedule [row_ops]: "shrinks False (reschedule i t n db) db"
  unfolding reschedule_def by (rule shrinks_update) (simp add: stems_def)

lemma shrinks_expire [row_ops]: "shrinks k (snd (expire_past_retention now db)) db"
  unfolding expire_past_retention_def snd_conv by (rule shrinks_update) (simp add: stems_def)

lemma shrinks_purge_terminal [row_ops]: "shrinks k (snd (purge_terminal c n db)) db"
  by (simp add: purge_terminal_def Let_def row_ops)

lemma shrinks_purge_loop [row_ops]: "shrinks k (snd (purge_loop n c db)) db"
proof (induction n arbitrary: db)
  case (Suc n)
  obtain m db' where p: "purge_terminal c purge_batch db = (m, db')" by (metis surj_pair)
  then have "shrinks k db' db" using shrinks_purge_terminal [of k c purge_batch db] by simp
  moreover have "shrinks k (snd (purge_loop n c db')) db'" by (rule Suc)
  ultimately show ?case using shrinks_trans by (auto simp: p split: prod.splits)
qed simp

lemma shrinks_orphaned [row_ops]: "shrinks k (snd (purge_orphaned db)) db"
  by (simp add: purge_orphaned_def row_ops)

lemma shrinks_prune [row_ops]: "shrinks k (snd (prune_once now db)) db"
proof -
  define db1 where "db1 = snd (purge_orphaned db)"
  define db2 where "db2 = snd (expire_past_retention now db1)"
  have "snd (prune_once now db) = snd (purge_loop 20 (now - terminal_grace) db2)"
    by (simp add: prune_once_def db1_def db2_def split: prod.split)
  also have "shrinks k \<dots> db2" by (rule shrinks_purge_loop)
  also have "shrinks k db2 db1" unfolding db2_def by (rule shrinks_expire)
  also have "shrinks k db1 db" unfolding db1_def by (simp add: purge_orphaned_def row_ops)
  finally show ?thesis .
qed

lemma shrinks_delete_for_instance [row_ops]: "shrinks k (delete_for_instance peer db) db"
  by (simp add: delete_for_instance_def row_ops)

lemma shrinks_delete_types [row_ops]: "shrinks k (snd (delete_pending_of_types peer ts db)) db"
  by (simp add: delete_pending_of_types_def row_ops)

lemma shrinks_expedite [row_ops]: "shrinks k (snd (expedite peer ev now db)) db"
  unfolding expedite_def by (auto intro!: shrinks_update simp: stems_def)

lemma shrinks_set_peer [row_ops]: "shrinks k (set_peer peer st db) db"
  by (simp add: shrinks_def set_peer_def list_emb_refl)

lemma shrinks_settle [row_ops]: "shrinks False (settle e out fj dj now db) db"
  by (simp add: settle_def Let_def row_ops)

text \<open>The insertion adds its row at the end, or leaves the table alone.\<close>

lemma insert_row_cases:
  obtains (refused) "snd (insert_row a now e k db) = db"
  | (inserted) "snd (insert_row a now e k db) = db\<lparr>od_rows := od_rows db @ [new_row a now e k]\<rparr>"
      "eq_id a \<notin> ob_id ` set (od_rows db)"
proof (cases "fst (insert_row a now e k db) = Queued (eq_id a)")
  case True
  then show ?thesis using inserted by (simp add: insert_row_def split: if_splits)
next
  case False
  then show ?thesis using refused by (simp add: insert_row_def split: if_splits)
qed

text \<open>What a step of a call does to the table: nothing, a deletion, or the insertion.\<close>

lemma enqueue_step_args [simp]: "ec_args (fst (enqueue_step now c db)) = ec_args c"
  by (simp add: enqueue_step_def Let_def split: enqueue_pc.split prod.split list.split)

lemma enqueue_step_cases:
  obtains (shrink) "shrinks k (snd (enqueue_step now c db)) db"
  | (inserted) "snd (enqueue_step now c db) = db\<lparr>od_rows := od_rows db @ [new_row (ec_args c) now (ec_expires c) (ec_key c)]\<rparr>"
      "ec_pc c = InsertRow"
proof (cases "ec_pc c")
  case InsertRow
  then show ?thesis
    using that by (cases rule: insert_row_cases [of "ec_args c" now "ec_expires c" "ec_key c" db])
      (auto simp: enqueue_step_def Let_def case_prod_beta)
next
  case PickVictim
  then show ?thesis using that(1) by (auto simp: enqueue_step_def Let_def split: list.splits)
qed (use that(1) in \<open>auto simp: enqueue_step_def Let_def row_ops split: prod.splits\<close>)

lemma sorted_hd_mem: "sort_key f (filter P xs) = r # rs \<Longrightarrow> r \<in> set xs \<and> P r"
  by (metis (no_types, lifting) filter_is_subset list.set_intros(1) mem_Collect_eq set_filter set_sort)

lemma enqueue_step_victim:
  assumes "ec_pc (fst (enqueue_step now c db)) = DropVictim i"
  obtains r where "r \<in> set (od_rows db)" "ob_id r = i" "ob_event r \<notin> set never_drop" "snd (enqueue_step now c db) = db"
proof -
  have pick: "ec_pc c = PickVictim"
    using assms by (auto simp: enqueue_step_def Let_def split: enqueue_pc.splits prod.splits list.splits if_splits)
  then obtain r rs where "sort_key evict_rank (filter (droppable (eq_instance (ec_args c))) (od_rows db)) = r # rs"
    and "ob_id r = i" and "snd (enqueue_step now c db) = db"
    using assms by (auto simp: enqueue_step_def Let_def split: list.splits)
  then show thesis using that by (auto dest: sorted_hd_mem simp: droppable_def)
qed

lemma enqueue_step_insert_returns:
  "ec_pc c = InsertRow \<Longrightarrow> \<exists>res. ec_pc (fst (enqueue_step now c db)) = CallDone res"
  by (simp add: enqueue_step_def Let_def split: prod.split)

lemma enqueue_step_returned: "ec_pc c = CallDone res \<Longrightarrow> enqueue_step now c db = (c, db)"
  by (simp add: enqueue_step_def Let_def)

end
