(* ===== verification/Outbox_Runs.thy ===== *)
theory Outbox_Runs
  imports Outbox_Rows
begin

text \<open>
  Runs of the queue in which no id is queued twice: the ids that are still to come are not seen anywhere yet, a due
  entry is a snapshot of its row, and the victim a call has picked is not a row that must never be dropped.
\<close>

fun op_ids :: "outbox_op \<Rightarrow> string list" where
  "op_ids (Enqueue now a) = [eq_id a]"
| "op_ids (Call a) = [eq_id a]"
| "op_ids _ = []"

definition queued_ids :: "outbox_op list \<Rightarrow> string list" where
  "queued_ids ops = concat (map op_ids ops)"

definition call_open :: "enqueue_call \<Rightarrow> bool" where
  "call_open c \<longleftrightarrow> (case ec_pc c of CallDone _ \<Rightarrow> False | _ \<Rightarrow> True)"

definition call_ids :: "enqueue_call list \<Rightarrow> string list" where
  "call_ids cs = map (\<lambda>c. eq_id (ec_args c)) (filter call_open cs)"

lemma call_ids_append [simp]: "call_ids (xs @ ys) = call_ids xs @ call_ids ys"
  by (simp add: call_ids_def)

lemma call_ids_Cons [simp]: "call_ids (c # cs) = (if call_open c then [eq_id (ec_args c)] else []) @ call_ids cs"
  by (simp add: call_ids_def)

lemma call_ids_Nil [simp]: "call_ids [] = []"
  by (simp add: call_ids_def)

definition open_ids :: "outbox_state \<Rightarrow> string list" where
  "open_ids s = call_ids (ox_calls s)"

definition victim_ids :: "outbox_state \<Rightarrow> string set" where
  "victim_ids s = {i. DropVictim i \<in> ec_pc ` set (ox_calls s)}"

definition seen_ids :: "outbox_state \<Rightarrow> string set" where
  "seen_ids s = ob_id ` set (od_rows (ox_db s)) \<union> ob_id ` set (ox_due s) \<union> victim_ids s"

section \<open>Invariants of runs\<close>

text \<open>An invariant that knows the ids still to be queued, and the operations it allows.\<close>

locale fresh_run =
  fixes I :: "string list \<Rightarrow> outbox_state \<Rightarrow> bool" and ok :: "outbox_op \<Rightarrow> bool"
  assumes step: "I (op_ids x @ F) s \<Longrightarrow> ok x \<Longrightarrow> I F (outbox_step x s)"
begin

lemma run_through: "I (queued_ids ops @ F) s \<Longrightarrow> list_all ok ops \<Longrightarrow> I F (outbox_run ops s)"
proof (induction ops arbitrary: s)
  case Nil
  then show ?case by (simp add: outbox_run_def queued_ids_def)
next
  case (Cons x ops)
  have "I (queued_ids ops @ F) (outbox_step x s)"
    using Cons.prems by (intro step) (simp_all add: queued_ids_def)
  then show ?case using Cons.IH Cons.prems(2) by (simp add: outbox_run_def)
qed

lemma run_all: "I (queued_ids ops) s \<Longrightarrow> list_all ok ops \<Longrightarrow> I [] (outbox_run ops s)"
  using run_through [of ops "[]" s] by simp

end

section \<open>Tidy states\<close>

definition unused :: "string list \<Rightarrow> outbox_state \<Rightarrow> bool" where
  "unused ids s \<longleftrightarrow> distinct ids \<and> set ids \<inter> seen_ids s = {}"

definition snapshots :: "outbox_state \<Rightarrow> bool" where
  "snapshots s \<longleftrightarrow> distinct (map ob_id (ox_due s))
     \<and> (\<forall>e \<in> set (ox_due s). \<forall>r \<in> set (od_rows (ox_db s)). ob_id e = ob_id r \<longrightarrow> stems False r e)"

definition safe_victims :: "outbox_state \<Rightarrow> bool" where
  "safe_victims s \<longleftrightarrow>
     (\<forall>r \<in> set (od_rows (ox_db s)). ob_id r \<in> victim_ids s \<longrightarrow> ob_event r \<notin> set never_drop)"

definition tidy :: "string list \<Rightarrow> outbox_state \<Rightarrow> bool" where
  "tidy F s \<longleftrightarrow> distinct (map ob_id (od_rows (ox_db s))) \<and> unused (open_ids s @ F) s \<and> snapshots s \<and> safe_victims s"

lemma tidy_empty: "distinct F \<Longrightarrow> tidy F (empty_outbox peers)"
  by (simp add: tidy_def empty_outbox_def open_ids_def seen_ids_def victim_ids_def unused_def snapshots_def
      safe_victims_def)

lemma unused_mono: "unused ids s \<Longrightarrow> seen_ids s' \<subseteq> seen_ids s \<Longrightarrow> unused ids s'"
  by (auto simp: unused_def)

lemma snapshots_mono:
  assumes "snapshots s" "ox_due s' = ox_due s"
    and "\<And>r. r \<in> set (od_rows (ox_db s')) \<Longrightarrow> ob_id r \<in> ob_id ` set (ox_due s)
      \<Longrightarrow> \<exists>r0 \<in> set (od_rows (ox_db s)). stems False r r0"
  shows "snapshots s'"
  unfolding snapshots_def
proof (intro conjI ballI impI)
  show "distinct (map ob_id (ox_due s'))" using assms(1,2) by (simp add: snapshots_def)
next
  fix e r assume er: "e \<in> set (ox_due s')" "r \<in> set (od_rows (ox_db s'))" "ob_id e = ob_id r"
  then have "ob_id r \<in> ob_id ` set (ox_due s)" using assms(2) by (metis image_eqI)
  then obtain r0 where r0: "r0 \<in> set (od_rows (ox_db s))" "stems False r r0" using assms(3) er by blast
  then have "stems False r0 e" using er assms(1,2) by (simp add: snapshots_def stems_def)
  with r0(2) show "stems False r e" by (rule stems_trans)
qed

lemma tidy_shrink:
  assumes "tidy F s" and sh: "shrinks False db' (ox_db s)"
  shows "tidy F (s\<lparr>ox_db := db'\<rparr>)"
  unfolding tidy_def
proof (intro conjI)
  show "distinct (map ob_id (od_rows (ox_db (s\<lparr>ox_db := db'\<rparr>))))"
    using assms by (auto simp: tidy_def intro: shrinks_distinct)
  show "unused (open_ids (s\<lparr>ox_db := db'\<rparr>) @ F) (s\<lparr>ox_db := db'\<rparr>)"
    using assms shrinks_id_set [OF sh]
    by - (rule unused_mono [of _ s], auto simp: tidy_def open_ids_def seen_ids_def victim_ids_def)
  show "snapshots (s\<lparr>ox_db := db'\<rparr>)"
    using assms by - (rule snapshots_mono [of s], auto simp: tidy_def elim: shrinks_rowE)
  show "safe_victims (s\<lparr>ox_db := db'\<rparr>)"
    using assms by (auto simp: tidy_def safe_victims_def victim_ids_def stems_def elim!: shrinks_rowE)
qed

lemma tidy_due:
  assumes "tidy F s" "distinct (map ob_id due)" "set due \<subseteq> set (ox_due s) \<union> set (od_rows (ox_db s))"
  shows "tidy F (s\<lparr>ox_due := due\<rparr>)"
  unfolding tidy_def
proof (intro conjI)
  show "unused (open_ids (s\<lparr>ox_due := due\<rparr>) @ F) (s\<lparr>ox_due := due\<rparr>)"
    using assms by - (rule unused_mono [of _ s], auto simp: tidy_def open_ids_def seen_ids_def victim_ids_def)
  have "stems False r e" if "e \<in> set due" "r \<in> set (od_rows (ox_db s))" "ob_id e = ob_id r" for e r
  proof (cases "e \<in> set (ox_due s)")
    case False
    then have "e \<in> set (od_rows (ox_db s))" using assms(3) that(1) by blast
    then have "e = r" using assms(1) that(2,3) unfolding tidy_def distinct_map by (metis inj_onD)
    then show ?thesis by simp
  next
    case True
    then show ?thesis using assms(1) that(2,3) by (simp add: tidy_def snapshots_def)
  qed
  then show "snapshots (s\<lparr>ox_due := due\<rparr>)" using assms(2) by (simp add: snapshots_def)
qed (use assms(1) in \<open>simp_all add: tidy_def safe_victims_def victim_ids_def\<close>)

lemma tidy_insert:
  assumes "tidy (eq_id a # F) s"
  shows "tidy F (s\<lparr>ox_db := (ox_db s)\<lparr>od_rows := od_rows (ox_db s) @ [new_row a now e k]\<rparr>\<rparr>)" (is "tidy F ?s")
proof -
  have new: "eq_id a \<notin> seen_ids s" "ob_id (new_row a now e k) = eq_id a"
    using assms by (auto simp: tidy_def unused_def new_row_def)
  have seen: "seen_ids ?s = insert (eq_id a) (seen_ids s)"
    by (auto simp: seen_ids_def victim_ids_def new(2))
  show ?thesis
    unfolding tidy_def
  proof (intro conjI)
    show "distinct (map ob_id (od_rows (ox_db ?s)))"
      using assms new by (auto simp: tidy_def seen_ids_def)
    show "unused (open_ids ?s @ F) ?s"
      using assms by (auto simp: seen unused_def tidy_def open_ids_def)
    show "snapshots ?s"
    proof (rule snapshots_mono [of s])
      fix r assume r: "r \<in> set (od_rows (ox_db ?s))" "ob_id r \<in> ob_id ` set (ox_due s)"
      then have "ob_id r \<noteq> eq_id a" using new(1) by (auto simp: seen_ids_def)
      then have "r \<in> set (od_rows (ox_db s))" using r(1) new(2) by auto
      then show "\<exists>r0 \<in> set (od_rows (ox_db s)). stems False r r0" using stems_refl by blast
    qed (use assms in \<open>simp_all add: tidy_def\<close>)
    show "safe_victims ?s"
      using assms new by (auto simp: tidy_def safe_victims_def seen_ids_def victim_ids_def)
  qed
qed

lemma tidy_weaken: "tidy (i # F) s \<Longrightarrow> tidy F s"
  by (auto simp: tidy_def unused_def)

text \<open>A call moves on: it may pick a row that can go, and it may return.\<close>

lemma tidy_call:
  assumes t: "tidy F s" and calls: "ox_calls s = xs @ c # ys" and args: "ec_args c' = ec_args c"
    and opn: "call_open c' \<Longrightarrow> call_open c"
    and victim: "\<And>i. ec_pc c' = DropVictim i \<Longrightarrow> \<exists>r \<in> set (od_rows (ox_db s)). ob_id r = i \<and> ob_event r \<notin> set never_drop"
  shows "tidy F (s\<lparr>ox_calls := xs @ c' # ys\<rparr>)" (is "tidy F ?s")
  unfolding tidy_def
proof (intro conjI)
  have victims: "i \<in> victim_ids s \<or> (\<exists>r \<in> set (od_rows (ox_db s)). ob_id r = i \<and> ob_event r \<notin> set never_drop)"
    if "i \<in> victim_ids ?s" for i
    using that calls victim [of i] by (auto simp: victim_ids_def)
  have seen: "seen_ids ?s \<subseteq> seen_ids s" using victims by (auto simp: seen_ids_def)
  have "unused (open_ids s @ F) s" using t by (simp add: tidy_def)
  then have "unused (open_ids ?s @ F) s" using calls args opn by (auto simp: unused_def open_ids_def)
  then show "unused (open_ids ?s @ F) ?s" using seen by (rule unused_mono)
  show "safe_victims ?s"
    unfolding safe_victims_def
  proof (intro ballI impI)
    fix r assume r: "r \<in> set (od_rows (ox_db ?s))" "ob_id r \<in> victim_ids ?s"
    then consider "ob_id r \<in> victim_ids s"
      | q where "q \<in> set (od_rows (ox_db s))" "ob_id q = ob_id r" "ob_event q \<notin> set never_drop"
      using victims by blast
    then show "ob_event r \<notin> set never_drop"
    proof cases
      case 1
      then show ?thesis using t r by (simp add: tidy_def safe_victims_def)
    next
      case 2
      then have "q = r" using t r unfolding tidy_def distinct_map by (simp add: inj_on_def)
      then show ?thesis using 2 by simp
    qed
  qed
qed (use t in \<open>simp_all add: tidy_def snapshots_def\<close>)

lemma tidy_call_returns:
  assumes "tidy F s" "ox_calls s = xs @ c # ys" "ec_args c' = ec_args c" "call_open c" "ec_pc c' = CallDone res"
  shows "tidy (eq_id (ec_args c) # F) (s\<lparr>ox_calls := xs @ c' # ys\<rparr>)" (is "tidy _ ?s")
proof -
  have t: "tidy F ?s" using assms by (intro tidy_call) (auto simp: call_open_def)
  have "unused (open_ids s @ F) s" "\<not> call_open c'" using assms(1,5) by (simp_all add: tidy_def call_open_def)
  then have "unused (open_ids ?s @ eq_id (ec_args c) # F) s"
    using assms(2-4) by (auto simp: unused_def open_ids_def)
  then have "unused (open_ids ?s @ eq_id (ec_args c) # F) ?s"
    by (rule unused_mono) (use assms(2,5) in \<open>auto simp: seen_ids_def victim_ids_def\<close>)
  with t show ?thesis by (simp add: tidy_def)
qed

lemma callE:
  assumes "k < length cs"
  obtains xs ys where "cs = xs @ (cs ! k) # ys" "\<And>c'. cs[k := c'] = xs @ c' # ys"
  using assms id_take_nth_drop upd_conv_take_nth_drop that [of "take k cs" "drop (Suc k) cs"] by metis

lemma tidy_enqueue_step:
  assumes t: "tidy F s"
  shows "tidy F (outbox_step (CallStep now k) s)"
proof (cases "k < length (ox_calls s)")
  case True
  define c where "c = ox_calls s ! k"
  obtain xs ys where xs: "ox_calls s = xs @ c # ys" and upd: "\<And>c'. (ox_calls s)[k := c'] = xs @ c' # ys"
    using callE [OF True] unfolding c_def by blast
  define c' where "c' = fst (enqueue_step now c (ox_db s))"
  define s1 where "s1 = s\<lparr>ox_calls := xs @ c' # ys\<rparr>"
  have out: "outbox_step (CallStep now k) s = s1\<lparr>ox_db := snd (enqueue_step now c (ox_db s))\<rparr>"
    using True upd by (simp add: s1_def c'_def c_def case_prod_beta)
  have args: "ec_args c' = ec_args c" by (simp add: c'_def)
  show ?thesis
  proof (cases rule: enqueue_step_cases [of False now c "ox_db s"])
    case shrink
    have "call_open c" if "call_open c'"
      using that enqueue_step_returned [of c _ now "ox_db s"] by (auto simp: call_open_def c'_def split: enqueue_pc.splits)
    moreover have "\<exists>r \<in> set (od_rows (ox_db s)). ob_id r = i \<and> ob_event r \<notin> set never_drop"
      if "ec_pc c' = DropVictim i" for i
      using that enqueue_step_victim [of now c "ox_db s" i] unfolding c'_def by blast
    ultimately have "tidy F s1" unfolding s1_def using t xs args by (intro tidy_call)
    then show ?thesis unfolding out by (rule tidy_shrink) (simp add: s1_def shrink)
  next
    case inserted
    then obtain res where "ec_pc c' = CallDone res" using enqueue_step_insert_returns c'_def by blast
    then have "tidy (eq_id (ec_args c) # F) s1"
      unfolding s1_def using t xs args inserted(2) by (intro tidy_call_returns) (auto simp: call_open_def)
    then have "tidy F (s1\<lparr>ox_db := (ox_db s1)\<lparr>od_rows := od_rows (ox_db s1) @ [new_row (ec_args c) now (ec_expires c) (ec_key c)]\<rparr>\<rparr>)"
      by (rule tidy_insert)
    then show ?thesis unfolding out inserted(1) by (simp add: s1_def)
  qed
qed (simp add: t)

lemma tidy_enqueue:
  assumes "tidy (eq_id a # F) s"
  shows "tidy F (outbox_step (Enqueue now a) s)"
proof -
  obtain key expires where q: "queue_class a now (ox_db s) = (key, expires)" by (metis surj_pair)
  define s1 where "s1 = s\<lparr>ox_db := make_room (eq_instance a) key (ox_db s)\<rparr>"
  have t: "tidy (eq_id a # F) s1" unfolding s1_def using assms by (rule tidy_shrink) (rule shrinks_make_room)
  have out: "outbox_step (Enqueue now a) s = s1\<lparr>ox_db := snd (insert_row a now expires key (ox_db s1))\<rparr>"
    by (simp add: on_db_def enqueue_def q s1_def)
  show ?thesis
  proof (cases rule: insert_row_cases [of a now expires key "ox_db s1"])
    case refused
    then show ?thesis unfolding out refused using tidy_weaken [OF t] by simp
  next
    case inserted
    show ?thesis unfolding out inserted(1) using t by (rule tidy_insert)
  qed
qed

lemma list_due_mem: "r \<in> set (list_due now n db) \<Longrightarrow> r \<in> set (od_rows db) \<and> is_due now r"
  by (auto simp: list_due_def dest: in_set_takeD)

lemma list_due_distinct: "distinct (map ob_id (od_rows db)) \<Longrightarrow> distinct (map ob_id (list_due now n db))"
  unfolding list_due_def take_map [symmetric]
  by (rule distinct_take) (auto simp: distinct_map intro: inj_on_subset)

lemma tidy_step: "tidy (op_ids x @ F) s \<Longrightarrow> tidy F (outbox_step x s)"
proof (cases x)
  case (Tick now n)
  assume "tidy (op_ids x @ F) s"
  then show ?thesis using Tick
    by (auto intro!: tidy_due list_due_distinct simp: tidy_def [of F s] dest: list_due_mem)
next
  case (Answer now out fj dj)
  assume t: "tidy (op_ids x @ F) s"
  show ?thesis
  proof (cases "ox_due s")
    case (Cons e es)
    then have "tidy F (s\<lparr>ox_due := es\<rparr>)" using t Answer
      by (intro tidy_due) (auto simp: tidy_def snapshots_def)
    then have "tidy F (s\<lparr>ox_due := es, ox_db := settle e out fj dj now (ox_db s)\<rparr>)"
      by (rule tidy_shrink) (simp add: shrinks_settle)
    then show ?thesis using Cons Answer by simp
  qed (use t Answer in simp)
next
  case (Call a)
  assume "tidy (op_ids x @ F) s"
  then show ?thesis using Call
    by (auto simp: tidy_def unused_def snapshots_def safe_victims_def open_ids_def seen_ids_def victim_ids_def
        start_call_def call_open_def)
next
  case (Enqueue now a)
  assume "tidy (op_ids x @ F) s"
  then show ?thesis using tidy_enqueue [of a F s now] Enqueue by (simp del: outbox_step.simps)
next
  case (CallStep now k)
  assume "tidy (op_ids x @ F) s"
  then show ?thesis using tidy_enqueue_step [of F s now k] CallStep by (simp del: outbox_step.simps)
qed (auto simp: on_db_def row_ops intro!: tidy_shrink tidy_due)

interpretation tidy_runs: fresh_run tidy "\<lambda>x. True"
  by unfold_locales (rule tidy_step)

lemma tidy_run: "tidy (queued_ids ops @ F) s \<Longrightarrow> tidy F (outbox_run ops s)"
  by (rule tidy_runs.run_through) (simp_all add: list_all_iff)

end
