(* ===== verification/Outbox_Keep.thy ===== *)
theory Outbox_Keep
  imports Outbox_Runs
begin

text \<open>
  What becomes of a pending row: a row that must never be dropped outlives everything but its own delivery, a teardown
  of the pairing and an explicit withdrawal; an ordinary row is given up after \<open>MAX_ATTEMPTS\<close> answers.
\<close>

fun answer_at :: "string \<Rightarrow> outbox_op \<Rightarrow> outbox_state \<Rightarrow> delivery_outcome list" where
  "answer_at i (Answer now out fj dj) s =
     (case ox_due s of [] \<Rightarrow> [] | e # _ \<Rightarrow> if ob_id e = i then [out] else [])"
| "answer_at i _ s = []"

text \<open>The answers the deliveries of one id got in a run.\<close>

primrec answers :: "string \<Rightarrow> outbox_op list \<Rightarrow> outbox_state \<Rightarrow> delivery_outcome list" where
  "answers i [] s = []"
| "answers i (x # xs) s = answer_at i x s @ answers i xs (outbox_step x s)"

fun takes_back :: "outbox_entry \<Rightarrow> outbox_op \<Rightarrow> bool" where
  "takes_back r (DropTypes peer types) \<longleftrightarrow> peer = ob_instance r \<and> ob_event r \<in> set types"
| "takes_back r (DropPeer peer) \<longleftrightarrow> peer = ob_instance r"
| "takes_back r (SetPeer peer None) \<longleftrightarrow> peer = ob_instance r"
| "takes_back r _ \<longleftrightarrow> False"

section \<open>Rows that must never be dropped\<close>

definition pinned :: "outbox_entry \<Rightarrow> bool" where
  "pinned r \<longleftrightarrow> ob_status r = PENDING \<and> ob_event r \<in> set never_drop \<and> ob_supersede_key r = None \<and> ob_expires_at r = None"

definition row_held :: "outbox_entry \<Rightarrow> outbox_entry \<Rightarrow> bool" where
  "row_held r r' \<longleftrightarrow> ob_id r' = ob_id r \<and> ob_instance r' = ob_instance r \<and> ob_event r' = ob_event r
     \<and> ob_payload r' = ob_payload r \<and> pinned r'"

definition held_in :: "outbox_entry \<Rightarrow> outbox_db \<Rightarrow> bool" where
  "held_in r db \<longleftrightarrow> list_ex (row_held r) (od_rows db)"

lemma never_drop_key: "ev \<in> set never_drop \<Longrightarrow> supersede_key ev space payload = None"
  by (auto simp: never_drop_def supersede_key_def online_status_def split: option.split)

lemma never_drop_moment_key: "ev \<in> set never_drop \<Longrightarrow> moment_delete_key ev payload own = None"
  by (auto simp: never_drop_def moment_delete_key_def long_lived_def)

lemma never_drop_expiry: "ev \<in> set never_drop \<Longrightarrow> retention_expires_at ev now = None"
  by (simp add: retention_expires_at_def)

lemma held_delete: "held_in r db \<Longrightarrow> (\<And>r'. r' \<in> set (od_rows db) \<Longrightarrow> row_held r r' \<Longrightarrow> \<not> P r') \<Longrightarrow> held_in r (delete_rows P db)"
  by (auto simp: held_in_def delete_rows_def list_ex_iff)

lemma held_update: "held_in r db \<Longrightarrow> (\<And>r'. row_held r r' \<Longrightarrow> P r' \<Longrightarrow> row_held r (f r')) \<Longrightarrow> held_in r (update_rows P f db)"
proof -
  assume "held_in r db" and f: "\<And>r'. row_held r r' \<Longrightarrow> P r' \<Longrightarrow> row_held r (f r')"
  then obtain r' where "r' \<in> set (od_rows db)" "row_held r r'" by (auto simp: held_in_def list_ex_iff)
  then have "(if P r' then f r' else r') \<in> set (od_rows (update_rows P f db))" "row_held r (if P r' then f r' else r')"
    using f by (simp_all add: update_rows_def)
  then show ?thesis unfolding held_in_def list_ex_iff by blast
qed

lemma held_insert: "held_in r db \<Longrightarrow> held_in r (snd (insert_row a now e k db))"
  by (auto simp: held_in_def insert_row_def)

lemma held_reschedule [simp]: "row_held r (r'\<lparr>ob_next_attempt_at := t, ob_attempts := n\<rparr>) = row_held r r'"
  "row_held r (r'\<lparr>ob_next_attempt_at := t\<rparr>) = row_held r r'"
  by (simp_all add: row_held_def pinned_def)

lemma held_superseded: "held_in r db \<Longrightarrow> held_in r (snd (drop_superseded peer k db))"
  by (auto simp: drop_superseded_def row_held_def pinned_def intro: held_delete)

lemma held_prefix: "held_in r db \<Longrightarrow> held_in r (snd (drop_pending_with_key_prefix peer k db))"
  by (auto simp: drop_pending_with_key_prefix_def row_held_def pinned_def key_starts_def intro: held_delete)

lemma held_types:
  "held_in r db \<Longrightarrow> \<not> takes_back r (DropTypes peer types) \<Longrightarrow> held_in r (snd (delete_pending_of_types peer types db))"
  by (auto simp: delete_pending_of_types_def row_held_def pending_of_def intro: held_delete)

lemma held_instance: "held_in r db \<Longrightarrow> \<not> takes_back r (DropPeer peer) \<Longrightarrow> held_in r (delete_for_instance peer db)"
  by (auto simp: delete_for_instance_def row_held_def intro: held_delete)

lemma held_expedite: "held_in r db \<Longrightarrow> held_in r (snd (expedite peer ev now db))"
  by (auto simp: expedite_def intro: held_update)

lemma held_expire: "held_in r db \<Longrightarrow> held_in r (snd (expire_past_retention now db))"
  by (auto simp: expire_past_retention_def expired_by_def row_held_def pinned_def intro: held_update)

text \<open>Deleting the row of one id, or the rows of some ids, spares the row when its id is another.\<close>

lemma held_id:
  "held_in r db \<Longrightarrow> distinct (map ob_id (od_rows db)) \<Longrightarrow> q \<in> set (od_rows db) \<Longrightarrow> \<not> pinned q
    \<Longrightarrow> ob_id q \<noteq> ob_id r"
  by (auto simp: held_in_def list_ex_iff row_held_def distinct_map) (metis inj_onD)

lemma held_evict:
  assumes "held_in r db" "distinct (map ob_id (od_rows db))"
  shows "held_in r (snd (evict_oldest_droppable peer db))"
proof (cases "sort_key evict_rank (filter (droppable peer) (od_rows db))")
  case (Cons q qs)
  from sorted_hd_mem [OF this] have "q \<in> set (od_rows db)" "droppable peer q" by simp_all
  then have "ob_id q \<noteq> ob_id r" using held_id [OF assms] by (auto simp: droppable_def pinned_def)
  then show ?thesis using assms(1) Cons by (auto simp: evict_oldest_droppable_def row_held_def intro!: held_delete)
qed (use assms in \<open>simp add: evict_oldest_droppable_def\<close>)

lemma held_make_room:
  "held_in r db \<Longrightarrow> distinct (map ob_id (od_rows db)) \<Longrightarrow> held_in r (make_room peer key db)"
  unfolding make_room_def Let_def
  by (auto split: option.split intro: held_evict held_superseded shrinks_distinct [OF shrinks_drop_superseded])

lemma held_purge:
  assumes "held_in r db" "distinct (map ob_id (od_rows db))"
  shows "held_in r (snd (purge_terminal c n db))"
proof -
  have "ob_id q \<noteq> ob_id r" if "q \<in> set (take n (filter (purgeable c) (od_rows db)))" for q
    using held_id [OF assms, of q] that by (auto simp: purgeable_def pinned_def dest: in_set_takeD)
  then show ?thesis using assms(1) by (auto simp: purge_terminal_def Let_def row_held_def intro!: held_delete)
qed

lemma held_purge_loop:
  "held_in r db \<Longrightarrow> distinct (map ob_id (od_rows db)) \<Longrightarrow> held_in r (snd (purge_loop k c db))"
proof (induction k arbitrary: db)
  case (Suc k)
  obtain n db' where p: "purge_terminal c purge_batch db = (n, db')" by (metis surj_pair)
  have "held_in r db'" using held_purge [OF Suc.prems, of c purge_batch] p by simp
  moreover have "distinct (map ob_id (od_rows db'))"
    using shrinks_distinct [OF shrinks_purge_terminal [of False c purge_batch db]] Suc.prems(2) p by simp
  ultimately show ?case using Suc.IH by (simp add: p case_prod_beta)
qed simp

definition known :: "outbox_entry \<Rightarrow> outbox_db \<Rightarrow> bool" where
  "known r db \<longleftrightarrow> map_of (od_peers db) (ob_instance r) \<noteq> None"

lemma held_orphaned: "held_in r db \<Longrightarrow> known r db \<Longrightarrow> held_in r (snd (purge_orphaned db))"
  by (auto simp: purge_orphaned_def orphaned_def known_def row_held_def intro!: held_delete)

lemma held_prune:
  assumes h: "held_in r db" and d: "distinct (map ob_id (od_rows db))" and k: "known r db"
  shows "held_in r (snd (prune_once now db))"
proof -
  define db1 where "db1 = snd (purge_orphaned db)"
  define db2 where "db2 = snd (expire_past_retention now db1)"
  have "held_in r db1"
    using h k by (simp add: db1_def held_orphaned)
  then have "held_in r db2" by (simp add: db2_def held_expire)
  moreover have "shrinks False db2 db1" "shrinks False db1 db"
    by (simp_all add: db1_def db2_def purge_orphaned_def row_ops)
  then have "distinct (map ob_id (od_rows db2))" using d shrinks_distinct by blast
  ultimately have "held_in r (snd (purge_loop 20 (now - terminal_grace) db2))" by (rule held_purge_loop)
  then show ?thesis by (simp add: prune_once_def db1_def db2_def case_prod_beta)
qed

section \<open>Runs of a pinned row\<close>

lemma od_peers_delete [simp]: "od_peers (delete_rows P db) = od_peers db"
  by (simp add: delete_rows_def)

lemma od_peers_update [simp]: "od_peers (update_rows P f db) = od_peers db"
  by (simp add: update_rows_def)

lemma od_peers_make_room [simp]: "od_peers (make_room peer key db) = od_peers db"
  by (simp add: make_room_def Let_def drop_superseded_def evict_oldest_droppable_def split: option.split list.split)

lemma od_peers_insert [simp]: "od_peers (snd (insert_row a now e k db)) = od_peers db"
  by (simp add: insert_row_def)

lemma od_peers_enqueue_step [simp]: "od_peers (snd (enqueue_step now c db)) = od_peers db"
  by (simp add: enqueue_step_def Let_def drop_superseded_def case_prod_beta split: enqueue_pc.split list.split)

lemma od_peers_purge_loop [simp]: "od_peers (snd (purge_loop n c db)) = od_peers db"
  by (induction n arbitrary: db) (simp_all add: purge_terminal_def Let_def case_prod_beta)

lemma od_peers_prune [simp]: "od_peers (snd (prune_once now db)) = od_peers db"
  by (simp add: prune_once_def purge_orphaned_def expire_past_retention_def case_prod_beta)

lemma od_peers_settle [simp]: "od_peers (settle e out fj dj now db) = od_peers db"
  by (simp add: settle_def Let_def mark_delivered_def mark_failed_def reschedule_def)

lemma known_step: "known r (ox_db s) \<Longrightarrow> \<not> takes_back r x \<Longrightarrow> known r (ox_db (outbox_step x s))"
proof (cases x)
  case (SetPeer peer st)
  assume "known r (ox_db s)" "\<not> takes_back r x"
  then show ?thesis using SetPeer
    by (cases st) (auto simp: known_def on_db_def set_peer_def update_conv' delete_conv')
next
  case (Answer now out fj dj)
  assume "known r (ox_db s)"
  then show ?thesis using Answer by (cases "ox_due s") (simp_all add: known_def)
qed (simp_all add: known_def on_db_def enqueue_def drop_superseded_def drop_pending_with_key_prefix_def
    delete_pending_of_types_def delete_for_instance_def expedite_def purge_orphaned_def expire_past_retention_def
    purge_terminal_def Let_def case_prod_beta)

lemma held_enqueue:
  "held_in r db \<Longrightarrow> distinct (map ob_id (od_rows db)) \<Longrightarrow> held_in r (snd (enqueue a now db))"
  by (simp add: enqueue_def case_prod_beta Let_def held_insert held_make_room)

lemma held_enqueue_step:
  assumes h: "held_in r db"
    and victim: "\<And>i. ec_pc c = DropVictim i \<Longrightarrow> i \<noteq> ob_id r"
  shows "held_in r (snd (enqueue_step now c db))"
proof (cases "ec_pc c")
  case (DropVictim i)
  then show ?thesis using h victim by (auto simp: enqueue_step_def Let_def row_held_def intro!: held_delete)
qed (use h in \<open>simp_all add: enqueue_step_def Let_def case_prod_beta held_superseded held_insert split: list.split\<close>)

lemma held_settle:
  assumes h: "held_in r db" and ev: "ob_id e = ob_id r \<Longrightarrow> ob_event e \<in> set never_drop"
    and out: "ob_id e = ob_id r \<Longrightarrow> out \<noteq> SUCCESS \<and> out \<noteq> PERMANENT"
  shows "held_in r (settle e out fj dj now db)"
proof (cases "ob_id e = ob_id r")
  case True
  then show ?thesis using h out ev
    by (auto simp: settle_def Let_def kept_pinned_def reschedule_def intro: held_update)
next
  case False
  then show ?thesis using h
    by (auto simp: settle_def Let_def reschedule_def mark_failed_def mark_delivered_def row_held_def
        intro: held_update held_delete)
qed

lemma held_step:
  assumes t: "tidy F s" and h: "held_in r (ox_db s)" and k: "known r (ox_db s)" and tb: "\<not> takes_back r x"
    and ans: "set (answer_at (ob_id r) x s) \<inter> {SUCCESS, PERMANENT} = {}"
  shows "held_in r (ox_db (outbox_step x s))"
proof -
  have d: "distinct (map ob_id (od_rows (ox_db s)))" using t by (simp add: tidy_def)
  obtain r' where r': "r' \<in> set (od_rows (ox_db s))" "row_held r r'" using h by (auto simp: held_in_def list_ex_iff)
  show ?thesis
  proof (cases x)
    case (CallStep now n)
    have "i \<noteq> ob_id r" if "n < length (ox_calls s)" "ec_pc (ox_calls s ! n) = DropVictim i" for i
    proof
      assume "i = ob_id r"
      have "ec_pc (ox_calls s ! n) \<in> ec_pc ` set (ox_calls s)" using that(1) by simp
      then have "ob_id r' \<in> victim_ids s"
        using that(2) r'(2) \<open>i = ob_id r\<close> by (simp add: victim_ids_def row_held_def)
      then show False using t r' by (auto simp: tidy_def safe_victims_def row_held_def pinned_def)
    qed
    then show ?thesis using CallStep h by (simp add: case_prod_beta held_enqueue_step)
  next
    case (Answer now out fj dj)
    show ?thesis
    proof (cases "ox_due s")
      case (Cons e es)
      have "ob_event e \<in> set never_drop" if "ob_id e = ob_id r"
        using t Cons r' that by (auto simp: tidy_def snapshots_def stems_def row_held_def pinned_def)
      then show ?thesis using h ans Cons Answer by (auto intro!: held_settle)
    qed (use h Answer in simp)
  qed (use h d k tb in \<open>simp_all add: on_db_def held_enqueue held_superseded held_prefix held_types held_instance
      held_expedite held_prune held_orphaned held_expire held_purge set_peer_def\<close>, auto simp: held_in_def)
qed

lemma held_run:
  assumes "tidy (queued_ids ops @ F) s" "held_in r (ox_db s)" "known r (ox_db s)" "\<forall>x \<in> set ops. \<not> takes_back r x"
    and "set (answers (ob_id r) ops s) \<inter> {SUCCESS, PERMANENT} = {}"
  shows "held_in r (ox_db (outbox_run ops s))"
  using assms
proof (induction ops arbitrary: s)
  case Nil
  then show ?case by (simp add: outbox_run_def)
next
  case (Cons x ops)
  have t: "tidy (op_ids x @ queued_ids ops @ F) s" using Cons.prems(1) by (simp add: queued_ids_def)
  have "held_in r (ox_db (outbox_run ops (outbox_step x s)))"
  proof (rule Cons.IH)
    show "tidy (queued_ids ops @ F) (outbox_step x s)" using t by (rule tidy_step)
    show "held_in r (ox_db (outbox_step x s))" using Cons.prems t by (intro held_step) auto
    show "known r (ox_db (outbox_step x s))" using Cons.prems by (intro known_step) auto
  qed (use Cons.prems in auto)
  then show ?case by (simp add: outbox_run_def)
qed

end
