(* ===== verification/Outbox_Bounds.thy ===== *)
theory Outbox_Bounds
  imports Outbox_Keep
begin

text \<open>
  The bounds of the queue: how often an ordinary row is tried, how many rows a peer can have pending, and how far ahead a
  retry is put.
\<close>

section \<open>Attempts\<close>

definition ordinary :: "event_type \<Rightarrow> bool" where
  "ordinary ev \<longleftrightarrow> ev \<notin> set never_drop \<and> ev \<notin> set long_lived"

definition tracked :: "string \<Rightarrow> nat \<Rightarrow> outbox_state \<Rightarrow> bool" where
  "tracked i n s \<longleftrightarrow> n \<le> 13
     \<and> (\<forall>r \<in> set (od_rows (ox_db s)). ob_id r = i \<longrightarrow>
          ordinary (ob_event r) \<and> (ob_status r = PENDING \<longrightarrow> ob_attempts r = int n \<and> n < 13))
     \<and> (\<forall>e \<in> set (ox_due s). ob_id e = i \<longrightarrow> ordinary (ob_event e) \<and> ob_attempts e = int n \<and> n < 13)
     \<and> (\<forall>c \<in> set (ox_calls s). eq_id (ec_args c) = i \<longrightarrow> ordinary (eq_event (ec_args c)))"

fun ordinary_op :: "string \<Rightarrow> outbox_op \<Rightarrow> bool" where
  "ordinary_op i (Enqueue now a) \<longleftrightarrow> eq_id a = i \<longrightarrow> ordinary (eq_event a)"
| "ordinary_op i (Call a) \<longleftrightarrow> eq_id a = i \<longrightarrow> ordinary (eq_event a)"
| "ordinary_op i _ \<longleftrightarrow> True"

lemma ordinary_not_kept: "ordinary (ob_event e) \<Longrightarrow> \<not> kept_pinned e"
  by (simp add: ordinary_def kept_pinned_def is_long_lived_def)

lemma max_attempts_13 [simp]: "max_attempts = 13"
  by (simp add: max_attempts_def backoff_seconds_def)

lemma tracked_shrink: "tracked i n s \<Longrightarrow> shrinks True db' (ox_db s) \<Longrightarrow> tracked i n (s\<lparr>ox_db := db'\<rparr>)"
  by (auto simp: tracked_def stems_def elim!: shrinks_rowE)

lemma tracked_due:
  assumes "tracked i n s"
    and "\<And>e. e \<in> set due \<Longrightarrow> e \<in> set (ox_due s) \<or> e \<in> set (od_rows (ox_db s)) \<and> ob_status e = PENDING"
  shows "tracked i n (s\<lparr>ox_due := due\<rparr>)"
  using assms unfolding tracked_def by fastforce

lemma tracked_insert:
  assumes "tracked i n s" "eq_id a = i \<Longrightarrow> n = 0 \<and> ordinary (eq_event a)"
  shows "tracked i n (s\<lparr>ox_db := (ox_db s)\<lparr>od_rows := od_rows (ox_db s) @ [new_row a now e k]\<rparr>\<rparr>)"
  using assms by (auto simp: tracked_def new_row_def)

lemma settle_other_row:
  "r \<in> set (od_rows (settle e out fj dj now db)) \<Longrightarrow> ob_id r \<noteq> ob_id e \<Longrightarrow> r \<in> set (od_rows db)"
  by (auto simp: settle_def Let_def mark_delivered_def mark_failed_def reschedule_def delete_rows_def update_rows_def
      split: if_splits)

lemma settle_own_row:
  assumes "r \<in> set (od_rows (settle e out fj dj now db))" "ob_id r = ob_id e"
  obtains r0 where "r0 \<in> set (od_rows db)" "ob_id r0 = ob_id e" "ob_event r = ob_event r0" "out \<noteq> SUCCESS"
    "ob_status r = PENDING \<Longrightarrow> ob_attempts r = ob_attempts e + 1 \<and> out \<noteq> PERMANENT
       \<and> (kept_pinned e \<or> ob_attempts e + 1 < 13)"
  using assms
  by (auto simp: settle_def Let_def mark_delivered_def mark_failed_def reschedule_def delete_rows_def update_rows_def
      split: if_splits)

lemma tracked_answer:
  assumes t: "tidy F s" and tr: "tracked i n s" and due: "ox_due s = e # es"
  shows "tracked i (n + (if ob_id e = i then 1 else 0)) (s\<lparr>ox_due := es, ox_db := settle e out fj dj now (ox_db s)\<rparr>)"
proof (cases "ob_id e = i")
  case True
  then have e: "ordinary (ob_event e)" "ob_attempts e = int n" "n < 13" using tr due by (auto simp: tracked_def)
  have "i \<notin> ob_id ` set es" using t due True by (auto simp: tidy_def snapshots_def)
  then have "\<forall>e' \<in> set es. ob_id e' \<noteq> i" by blast
  moreover have "ordinary (ob_event r) \<and> (ob_status r = PENDING \<longrightarrow> ob_attempts r = int (Suc n) \<and> Suc n < 13)"
    if "r \<in> set (od_rows (settle e out fj dj now (ox_db s)))" "ob_id r = i" for r
    using that True e tr ordinary_not_kept [OF e(1)]
    by (auto elim!: settle_own_row [of r e] simp: tracked_def)
  moreover have "\<forall>c \<in> set (ox_calls s). eq_id (ec_args c) = i \<longrightarrow> ordinary (eq_event (ec_args c))"
    using tr by (simp add: tracked_def)
  ultimately show ?thesis using True e(3) unfolding tracked_def by simp
next
  case False
  then show ?thesis using tr due by (auto simp: tracked_def dest: settle_other_row)
qed

lemma call_id_open: "c \<in> set cs \<Longrightarrow> call_open c \<Longrightarrow> eq_id (ec_args c) \<in> set (call_ids cs)"
  by (auto simp: call_ids_def)

lemma tracked_enqueue_step:
  assumes tr: "tracked i n s" and fresh: "i \<in> set (open_ids s) \<Longrightarrow> n = 0"
  shows "tracked i n (outbox_step (CallStep now k) s)"
proof (cases "k < length (ox_calls s)")
  case True
  define c where "c = ox_calls s ! k"
  define s1 where "s1 = s\<lparr>ox_calls := (ox_calls s)[k := fst (enqueue_step now c (ox_db s))]\<rparr>"
  have c: "c \<in> set (ox_calls s)" using True by (simp add: c_def)
  have out: "outbox_step (CallStep now k) s = s1\<lparr>ox_db := snd (enqueue_step now c (ox_db s))\<rparr>"
    using True by (simp add: s1_def c_def case_prod_beta)
  have "x \<in> set (ox_calls s) \<or> ec_args x = ec_args c" if "x \<in> set (ox_calls s1)" for x
    using that set_update_subset_insert by (fastforce simp: s1_def)
  then have s1: "tracked i n s1" using tr c by (fastforce simp: tracked_def s1_def)
  show ?thesis
  proof (cases rule: enqueue_step_cases [of True now c "ox_db s"])
    case shrink
    then show ?thesis unfolding out using s1 by (intro tracked_shrink) (simp_all add: s1_def)
  next
    case inserted
    have "n = 0 \<and> ordinary (eq_event (ec_args c))" if "eq_id (ec_args c) = i"
      using that c fresh tr inserted(2) call_id_open [OF c]
      by (auto simp: tracked_def open_ids_def call_open_def)
    from tracked_insert [OF s1 this] show ?thesis unfolding out inserted(1) by (simp add: s1_def)
  qed
qed (simp add: tr)

lemma tracked_enqueue:
  assumes tr: "tracked i n s" and fresh: "eq_id a = i \<Longrightarrow> n = 0 \<and> ordinary (eq_event a)"
  shows "tracked i n (outbox_step (Enqueue now a) s)"
proof -
  obtain key expires where q: "queue_class a now (ox_db s) = (key, expires)" by (metis surj_pair)
  define s1 where "s1 = s\<lparr>ox_db := make_room (eq_instance a) key (ox_db s)\<rparr>"
  have s1: "tracked i n s1" unfolding s1_def using tr by (rule tracked_shrink) (rule shrinks_make_room)
  have out: "outbox_step (Enqueue now a) s = s1\<lparr>ox_db := snd (insert_row a now expires key (ox_db s1))\<rparr>"
    by (simp add: on_db_def enqueue_def q s1_def)
  show ?thesis
  proof (cases rule: insert_row_cases [of a now expires key "ox_db s1"])
    case refused
    then show ?thesis unfolding out refused using s1 by simp
  next
    case inserted
    show ?thesis unfolding out inserted(1) using s1 fresh by (rule tracked_insert)
  qed
qed

lemma tracked_step:
  assumes t: "tidy (op_ids x @ F) s" and tr: "tracked i n s" and op: "ordinary_op i x"
    and fresh: "i \<in> set (open_ids s @ op_ids x) \<Longrightarrow> n = 0"
  shows "tracked i (n + length (answer_at i x s)) (outbox_step x s)"
proof (cases x)
  case (Enqueue now a)
  then show ?thesis using tracked_enqueue [OF tr, of a now] op fresh by (simp del: outbox_step.simps)
next
  case (CallStep now k)
  then show ?thesis using tracked_enqueue_step [OF tr] fresh by (simp del: outbox_step.simps)
next
  case (Answer now out fj dj)
  show ?thesis
  proof (cases "ox_due s")
    case (Cons e es)
    then show ?thesis using tracked_answer [OF t tr, of e es out fj dj now] Answer by (cases "ob_id e = i") simp_all
  qed (use Answer tr in simp)
next
  case (Tick now limit)
  then show ?thesis using tr by (auto intro!: tracked_due dest!: list_due_mem simp: is_due_def)
next
  case (Call a)
  then show ?thesis using tr op by (auto simp: tracked_def start_call_def)
qed (use tr in \<open>auto simp: on_db_def row_ops intro!: tracked_shrink tracked_due\<close>)

lemma fresh_step:
  assumes "tidy (op_ids x @ F) s" "i \<in> set (open_ids s @ op_ids x @ F) \<Longrightarrow> n = 0"
    and "i \<in> set (open_ids (outbox_step x s) @ F)"
  shows "n + length (answer_at i x s) = 0"
proof -
  have t': "tidy F (outbox_step x s)" using assms(1) by (rule tidy_step)
  have "i \<in> set (open_ids s @ op_ids x @ F)"
  proof (cases x)
    case (CallStep now k)
    have sub: "set (call_ids (cs[k := c'])) \<subseteq> set (call_ids cs)"
      if "ec_args c' = ec_args (cs ! k)" "call_open c' \<Longrightarrow> call_open (cs ! k)" for cs c'
      using that by (cases "k < length cs") (auto simp: call_ids_def image_iff in_set_conv_nth nth_list_update)
    show ?thesis
      using assms(3) CallStep sub [of "fst (enqueue_step now (ox_calls s ! k) (ox_db s))" "ox_calls s"] enqueue_step_returned
      by (fastforce simp: open_ids_def case_prod_beta call_open_def split: if_splits enqueue_pc.splits)
  next
    case (Answer now out fj dj)
    then show ?thesis using assms(3) by (auto simp: open_ids_def split: list.splits)
  next
    case (Call a)
    then show ?thesis using assms(3) by (auto simp: open_ids_def start_call_def call_open_def)
  qed (use assms(3) in \<open>auto simp: open_ids_def on_db_def split: if_splits\<close>)
  moreover from this have "i \<notin> seen_ids s" using assms(1) by (auto simp: tidy_def unused_def)
  then have "answer_at i x s = []"
    by (cases "(i, x, s)" rule: answer_at.cases) (auto simp: seen_ids_def split: list.split)
  ultimately show ?thesis using assms(2) by simp
qed

lemma attempts_run:
  assumes "tidy (queued_ids ops @ F) s" "tracked i n s" "list_all (ordinary_op i) ops"
    and "i \<in> set (open_ids s @ queued_ids ops @ F) \<Longrightarrow> n = 0"
  shows "n + length (answers i ops s) \<le> 13"
  using assms
proof (induction ops arbitrary: s n)
  case Nil
  then show ?case by (simp add: tracked_def)
next
  case (Cons x ops)
  have t: "tidy (op_ids x @ queued_ids ops @ F) s" using Cons.prems(1) by (simp add: queued_ids_def)
  have fresh: "i \<in> set (open_ids s @ op_ids x @ queued_ids ops @ F) \<Longrightarrow> n = 0"
    using Cons.prems(4) by (simp add: queued_ids_def)
  have "n + length (answer_at i x s) + length (answers i ops (outbox_step x s)) \<le> 13"
  proof (rule Cons.IH)
    show "tidy (queued_ids ops @ F) (outbox_step x s)" using t by (rule tidy_step)
    show "tracked i (n + length (answer_at i x s)) (outbox_step x s)"
      using t Cons.prems(2,3) fresh by (intro tracked_step) auto
    show "list_all (ordinary_op i) ops" using Cons.prems(3) by simp
  qed (use t fresh in \<open>rule fresh_step\<close>)
  then show ?case by simp
qed

section \<open>The latest-only rule and the cap\<close>

fun uninterrupted :: "outbox_op \<Rightarrow> bool" where
  "uninterrupted (Call a) = False"
| "uninterrupted (CallStep now k) = False"
| "uninterrupted _ = True"

definition keyed :: "string \<Rightarrow> string \<Rightarrow> outbox_entry \<Rightarrow> bool" where
  "keyed peer key r \<longleftrightarrow> pending_of peer r \<and> ob_supersede_key r = Some key"

definition roomy :: "outbox_db \<Rightarrow> bool" where
  "roomy db \<longleftrightarrow> (\<forall>peer key. count_rows (keyed peer key) db \<le> 1)
     \<and> (\<forall>peer. count_pending_for peer db \<le> max_pending_per_peer \<or> count_rows (droppable peer) db \<le> 1)"

lemma shrinks_keyed: "shrinks k db' db \<Longrightarrow> count_rows (keyed peer key) db' \<le> count_rows (keyed peer key) db"
  by (erule shrinks_count) (simp add: stems_def keyed_def pending_of_def)

lemma shrinks_droppable: "shrinks k db' db \<Longrightarrow> count_rows (droppable peer) db' \<le> count_rows (droppable peer) db"
  by (erule shrinks_count) (simp add: stems_def droppable_def pending_of_def)

lemma shrinks_pending: "shrinks k db' db \<Longrightarrow> count_pending_for peer db' \<le> count_pending_for peer db"
  unfolding count_pending_for_def by (erule shrinks_count) (simp add: stems_def pending_of_def)

lemma roomy_shrinks: "roomy db \<Longrightarrow> shrinks k db' db \<Longrightarrow> roomy db'"
  unfolding roomy_def by (meson le_trans shrinks_keyed shrinks_droppable shrinks_pending)

lemma count_append [simp]: "count_rows P (db\<lparr>od_rows := od_rows db @ [r]\<rparr>) = count_rows P db + (if P r then 1 else 0)"
  by (simp add: count_rows_def)

lemma count_delete_id: "q \<in> set (od_rows db) \<Longrightarrow> Q q \<Longrightarrow> count_rows Q (delete_rows (\<lambda>r. ob_id r = ob_id q) db) < count_rows Q db"
  using length_filter_less [of q "filter Q (od_rows db)" "\<lambda>r. ob_id r \<noteq> ob_id q"]
  by (simp add: count_rows_def delete_rows_def conj_commute)

lemma evict_count:
  assumes "count_rows (droppable peer) db \<noteq> 0"
  shows "count_pending_for peer (snd (evict_oldest_droppable peer db)) < count_pending_for peer db"
    and "count_rows (droppable peer) (snd (evict_oldest_droppable peer db)) < count_rows (droppable peer) db"
proof -
  have "sort_key evict_rank (filter (droppable peer) (od_rows db)) \<noteq> []"
    using assms by (metis count_rows_def length_0_conv length_sort)
  then obtain q qs where q: "sort_key evict_rank (filter (droppable peer) (od_rows db)) = q # qs" by (metis list.exhaust)
  from sorted_hd_mem [OF this] have "q \<in> set (od_rows db)" "droppable peer q" "pending_of peer q"
    by (simp_all add: droppable_def)
  then show "count_pending_for peer (snd (evict_oldest_droppable peer db)) < count_pending_for peer db"
    and "count_rows (droppable peer) (snd (evict_oldest_droppable peer db)) < count_rows (droppable peer) db"
    using count_delete_id [of q db] by (simp_all add: evict_oldest_droppable_def q count_pending_for_def)
qed

lemma make_room_keyed: "count_rows (keyed peer key) (make_room peer (Some key) db) = 0"
proof -
  have "count_rows (keyed peer key) (snd (drop_superseded peer key db)) = 0"
    by (auto simp: drop_superseded_def count_rows_def delete_rows_def filter_empty_conv keyed_def)
  moreover have "shrinks True (make_room peer (Some key) db) (snd (drop_superseded peer key db))"
    by (simp add: make_room_def Let_def row_ops)
  ultimately show ?thesis by (metis le_zero_eq shrinks_keyed)
qed

text \<open>Room for one more: below the cap, or at most one droppable row once it is in.\<close>

lemma make_room_cap:
  assumes "roomy db"
  shows "Suc (count_pending_for peer (make_room peer key db)) \<le> max_pending_per_peer
     \<or> count_rows (droppable peer) (make_room peer key db) = 0"
proof -
  define db1 where "db1 = (case key of None \<Rightarrow> db | Some k \<Rightarrow> snd (drop_superseded peer k db))"
  have "shrinks True db1 db" by (simp add: db1_def row_ops split: option.split)
  then have "roomy db1" using assms roomy_shrinks by blast
  then have r1: "count_pending_for peer db1 \<le> max_pending_per_peer \<or> count_rows (droppable peer) db1 \<le> 1"
    by (simp add: roomy_def)
  have out: "make_room peer key db =
      (if max_pending_per_peer \<le> count_pending_for peer db1 then snd (evict_oldest_droppable peer db1) else db1)"
    by (simp add: make_room_def db1_def Let_def)
  show ?thesis
  proof (cases "count_rows (droppable peer) db1 = 0")
    case True
    then have "count_rows (droppable peer) (make_room peer key db) = 0"
      unfolding out using shrinks_droppable [OF shrinks_evict [of True peer db1], of peer] by simp
    then show ?thesis ..
  next
    case False
    from evict_count [OF this] r1 show ?thesis unfolding out by (auto simp: max_pending_per_peer_def)
  qed
qed

lemma roomy_enqueue: "roomy db \<Longrightarrow> roomy (snd (enqueue a now db))"
proof -
  assume r: "roomy db"
  obtain key expires where q: "queue_class a now db = (key, expires)" by (metis surj_pair)
  let ?peer = "eq_instance a" and ?db = "make_room (eq_instance a) key db" and ?row = "new_row a now expires key"
  have m: "roomy ?db" using r shrinks_make_room roomy_shrinks by blast
  have "roomy (?db\<lparr>od_rows := od_rows ?db @ [?row]\<rparr>)"
    unfolding roomy_def
  proof (intro conjI allI)
    fix peer k
    show "count_rows (keyed peer k) (?db\<lparr>od_rows := od_rows ?db @ [?row]\<rparr>) \<le> 1"
      using m make_room_keyed [of ?peer k db]
      by (auto simp: roomy_def keyed_def pending_of_def new_row_def)
  next
    fix peer
    show "count_pending_for peer (?db\<lparr>od_rows := od_rows ?db @ [?row]\<rparr>) \<le> max_pending_per_peer \<or>
       count_rows (droppable peer) (?db\<lparr>od_rows := od_rows ?db @ [?row]\<rparr>) \<le> 1"
      using m make_room_cap [OF r, of ?peer key]
      by (cases "peer = ?peer") (auto simp: roomy_def count_pending_for_def droppable_def pending_of_def new_row_def)
  qed
  then show ?thesis using m
    by (cases rule: insert_row_cases [of a now expires key ?db]) (simp_all add: enqueue_def q)
qed

lemma roomy_step: "roomy (ox_db s) \<Longrightarrow> uninterrupted x \<Longrightarrow> roomy (ox_db (outbox_step x s))"
proof (cases x)
  case (Answer now out fj dj)
  assume "roomy (ox_db s)"
  then show ?thesis using Answer roomy_shrinks [OF _ shrinks_settle]
    by (cases "ox_due s") auto
qed (auto simp: on_db_def roomy_enqueue elim!: roomy_shrinks intro: row_ops)

interpretation roomy_runs: fresh_run "\<lambda>F s. roomy (ox_db s)" uninterrupted
  by unfold_locales (rule roomy_step)

lemma roomy_empty: "roomy (ox_db (empty_outbox peers))"
  by (simp add: roomy_def empty_outbox_def count_rows_def count_pending_for_def)

end
