(* ===== verification/Outbox_Props.thy ===== *)
theory Outbox_Props
  imports Outbox_Bounds
begin

text \<open>
  What the outbound queue promises: security events outlive every failure, ordinary ones are given up, a peer's backlog
  and its states stay bounded, and a retry lands in its band.  Then what overlapping calls of \<open>enqueue\<close> do to the cap.
\<close>

section \<open>Delays\<close>

lemma round_half_even_mono: "x \<le> y \<Longrightarrow> round_half_even x \<le> round_half_even y"
proof -
  assume xy: "x \<le> y"
  then have fl: "\<lfloor>x\<rfloor> \<le> \<lfloor>y\<rfloor>" by (rule floor_mono)
  show ?thesis
  proof (cases "\<lfloor>x\<rfloor> = \<lfloor>y\<rfloor>")
    case True
    then show ?thesis using xy by (auto simp: round_half_even_def Let_def)
  next
    case False
    then show ?thesis using fl by (auto simp: round_half_even_def Let_def)
  qed
qed

lemma timedelta_mono: "x \<le> y \<Longrightarrow> timedelta_seconds x \<le> timedelta_seconds y"
  unfolding timedelta_seconds_def by (rule round_half_even_mono) simp

lemma timedelta_int [simp]: "timedelta_seconds (of_int n) = seconds n"
proof -
  have "(of_int n :: rat) * 1000000 = of_int (n * 1000000)" by simp
  then show ?thesis unfolding timedelta_seconds_def seconds_def round_half_even_def Let_def
    by (simp only: floor_of_int) simp
qed

text \<open>The base delay of the attempt that follows \<open>n\<close> failures, and what a \<open>Retry-After\<close> asks for.\<close>

definition base_delay :: "int \<Rightarrow> rat" where
  "base_delay n = of_int (backoff_seconds ! nat (min (n + 1) max_attempts - 1))"

definition asked_delay :: "delivery_outcome \<Rightarrow> rat" where
  "asked_delay out = (case out of RETRY_AFTER s \<Rightarrow> min (max s 0) max_retry_after_s | _ \<Rightarrow> 0)"

lemma base_delay_range: "0 \<le> n \<Longrightarrow> 5 \<le> base_delay n \<and> base_delay n \<le> 14400"
proof -
  assume n: "0 \<le> n"
  define k where "k = nat (min (n + 1) max_attempts - 1)"
  have "k \<in> set [0 ..< 13]" using n by (auto simp: k_def)
  then show ?thesis unfolding base_delay_def k_def [symmetric]
    by (simp add: upt_rec backoff_seconds_def) (elim disjE; simp)
qed

lemma jitter_range: "0 \<le> (j::rat) \<Longrightarrow> j < 1 \<Longrightarrow> 7 / 10 \<le> 1 + (j * 2 - 1) * jitter_ratio \<and> 1 + (j * 2 - 1) * jitter_ratio \<le> 13 / 10"
  by (auto simp: jitter_ratio_def field_simps)

lemma delay_range:
  assumes "0 \<le> j" "j < 1" "0 \<le> n"
  shows "7 / 10 * base_delay n \<le> delay_for j (n + 1)" "delay_for j (n + 1) \<le> 13 / 10 * base_delay n"
proof -
  define b where "b = base_delay n"
  define f where "f = 1 + (j * 2 - 1) * jitter_ratio"
  have d: "delay_for j (n + 1) = max 1 (b * f)"
    by (simp add: delay_for_def b_def base_delay_def f_def max_attempts_def)
  have b: "5 \<le> b" using base_delay_range [OF assms(3)] by (simp add: b_def)
  have f: "7 / 10 \<le> f" "f \<le> 13 / 10" using jitter_range [OF assms(1,2)] by (simp_all add: f_def)
  have lo: "b * (7 / 10) \<le> b * f" and hi: "b * f \<le> b * (13 / 10)" using b f by (simp_all add: mult_left_mono)
  have "max 1 (b * f) = b * f" using lo b by linarith
  then show "7 / 10 * base_delay n \<le> delay_for j (n + 1)" "delay_for j (n + 1) \<le> 13 / 10 * base_delay n"
    unfolding d b_def [symmetric] using lo hi by linarith+
qed

lemma floor_range:
  assumes "0 \<le> j" "j < 1"
  shows "asked_delay (RETRY_AFTER s) \<le> retry_after_floor j s"
    "retry_after_floor j s \<le> 13 / 10 * asked_delay (RETRY_AFTER s)"
proof -
  define m where "m = min (max s 0) max_retry_after_s"
  have "0 \<le> m" by (simp add: m_def max_retry_after_s_def backoff_seconds_def)
  then have "m * 1 \<le> m * (1 + j * jitter_ratio)" "m * (1 + j * jitter_ratio) \<le> m * (13 / 10)"
    using assms by (intro mult_left_mono; simp add: jitter_ratio_def)+
  then show "asked_delay (RETRY_AFTER s) \<le> retry_after_floor j s"
    "retry_after_floor j s \<le> 13 / 10 * asked_delay (RETRY_AFTER s)"
    by (simp_all add: asked_delay_def retry_after_floor_def m_def)
qed

lemma delay_ceiling: "13 \<le> n \<Longrightarrow> delay_for j max_attempts = delay_for j n"
  by (simp add: delay_for_def)

lemma settle_next_attempt:
  assumes "r \<in> set (od_rows (settle e out fj dj now db))" "ob_id r = ob_id e" "ob_status r = PENDING"
  shows "ob_next_attempt_at r = now + timedelta_seconds (max (delay_for dj (ob_attempts e + 1))
     (case out of RETRY_AFTER s \<Rightarrow> retry_after_floor fj s | _ \<Rightarrow> 0))"
  using assms delay_ceiling [of "ob_attempts e + 1" dj]
  by (auto simp: settle_def Let_def mark_delivered_def mark_failed_def reschedule_def delete_rows_def update_rows_def
      split: if_splits)

lemma asked_range: "0 \<le> asked_delay out \<and> asked_delay out \<le> 14400"
  by (simp add: asked_delay_def max_retry_after_s_def backoff_seconds_def split: delivery_outcome.split)

section \<open>What the queue promises\<close>

text \<open>
  C16. A security or structural event stays queued: a pending row of a \<open>NEVER_DROP\<close> event without a deadline, once in the
  table, is still there and pending after any further operations, in any interleaving of enqueues, ticks, answers, prunes
  and drops, as long as no delivery of it is answered with success or a permanent refusal, its pairing is not torn down
  and nobody withdraws that event type for that peer.
\<close>

theorem never_drop_rows_stay:
  assumes "distinct (queued_ids (pre @ post))"
    and "s = outbox_run pre (empty_outbox peers)"
    and "r \<in> set (od_rows (ox_db s))" "pinned r" "known r (ox_db s)"
    and "\<forall>x \<in> set post. \<not> takes_back r x"
    and "set (answers (ob_id r) post s) \<inter> {SUCCESS, PERMANENT} = {}"
  shows "\<exists>r' \<in> set (od_rows (ox_db (outbox_run post s))).
     ob_id r' = ob_id r \<and> ob_instance r' = ob_instance r \<and> ob_event r' = ob_event r \<and> ob_payload r' = ob_payload r
     \<and> ob_status r' = PENDING"
proof -
  have "tidy (queued_ids post @ []) s"
    unfolding assms(2) using assms(1) by (intro tidy_run tidy_empty) (simp add: queued_ids_def)
  moreover have "held_in r (ox_db s)" using assms(3,4) by (auto simp: held_in_def list_ex_iff row_held_def)
  ultimately have "held_in r (ox_db (outbox_run post s))" using assms(5-7) by (rule held_run)
  then show ?thesis by (auto simp: held_in_def list_ex_iff row_held_def pinned_def)
qed

text \<open>
  C37. An ordinary row is given up: however operations interleave, the deliveries of a row whose event is neither
  \<open>NEVER_DROP\<close> nor long-lived are answered at most \<open>MAX_ATTEMPTS\<close> = 13 times.
\<close>

theorem ordinary_rows_are_given_up:
  assumes "distinct (queued_ids ops)" "list_all (ordinary_op i) ops"
  shows "length (answers i ops (empty_outbox peers)) \<le> 13"
proof -
  have "tidy (queued_ids ops @ []) (empty_outbox peers)" using assms(1) by (simp add: tidy_empty)
  moreover have "tracked i 0 (empty_outbox peers)" by (simp add: tracked_def empty_outbox_def)
  ultimately show ?thesis using attempts_run [of ops "[]" "empty_outbox peers" i 0] assms(2) by simp
qed

text \<open>
  C17. In a run whose enqueues are not interrupted, a peer has at most one pending row per latest-only key, and more than
  \<open>MAX_PENDING_PER_PEER\<close> pending rows only when all of them but at most one are never to be dropped.
\<close>

theorem queue_keeps_to_its_limits:
  assumes "list_all uninterrupted ops"
  shows "count_rows (keyed peer key) (ox_db (outbox_run ops (empty_outbox peers))) \<le> 1 \<and>
     (count_pending_for peer (ox_db (outbox_run ops (empty_outbox peers))) \<le> max_pending_per_peer \<or>
      count_rows (droppable peer) (ox_db (outbox_run ops (empty_outbox peers))) \<le> 1)"
  using roomy_runs.run_all [OF roomy_empty assms] by (simp add: roomy_def)

text \<open>
  C38. A retry lands in its band: the next attempt of a row that stays pending is at least 0.7 times the base delay of its
  attempt, and what a \<open>Retry-After\<close> asked for (up to four hours), after now, and at most 1.3 times the larger of the
  two, so at most 5.2 hours.
\<close>

theorem retries_land_in_their_band:
  assumes "0 \<le> fj" "fj < 1" "0 \<le> dj" "dj < 1" "0 \<le> ob_attempts e"
    and "r \<in> set (od_rows (settle e out fj dj now db))" "ob_id r = ob_id e" "ob_status r = PENDING"
  shows "timedelta_seconds (max (7 / 10 * base_delay (ob_attempts e)) (asked_delay out)) \<le> ob_next_attempt_at r - now
     \<and> ob_next_attempt_at r - now \<le> timedelta_seconds (13 / 10 * max (base_delay (ob_attempts e)) (asked_delay out))
     \<and> ob_next_attempt_at r - now \<le> seconds 18720"
proof -
  let ?b = "base_delay (ob_attempts e)" and ?n = "ob_attempts e + 1"
  define fl where "fl = (case out of RETRY_AFTER s \<Rightarrow> retry_after_floor fj s | _ \<Rightarrow> 0)"
  have nxt: "ob_next_attempt_at r - now = timedelta_seconds (max (delay_for dj ?n) fl)"
    using settle_next_attempt [OF assms(6-8)] by (simp add: fl_def)
  have d: "7 / 10 * ?b \<le> delay_for dj ?n" "delay_for dj ?n \<le> 13 / 10 * ?b" using delay_range assms by blast+
  have f: "asked_delay out \<le> fl" "fl \<le> 13 / 10 * asked_delay out"
    using floor_range [OF assms(1,2)] by (auto simp: fl_def asked_delay_def split: delivery_outcome.split)
  have top: "13 / 10 * max ?b (asked_delay out) \<le> of_int 18720"
    using base_delay_range [OF assms(5)] asked_range [of out] by simp
  have "timedelta_seconds (max (7 / 10 * ?b) (asked_delay out)) \<le> timedelta_seconds (max (delay_for dj ?n) fl)"
    using d f by (intro timedelta_mono) auto
  moreover have up: "timedelta_seconds (max (delay_for dj ?n) fl) \<le> timedelta_seconds (13 / 10 * max ?b (asked_delay out))"
    using d f by (intro timedelta_mono) (auto simp: max_def)
  moreover have "\<dots> \<le> timedelta_seconds (of_int 18720)" using top by (rule timedelta_mono)
  ultimately show ?thesis unfolding nxt timedelta_int by simp
qed

section \<open>Overlapping calls\<close>

text \<open>Two overlapping calls with one latest-only key leave two pending rows with it.\<close>

definition status_call :: "string \<Rightarrow> enqueue_args" where
  "status_call i =
     \<lparr>eq_instance = ''peer'', eq_event = ''user_online'', eq_payload = ''env'', eq_id = i, eq_authority = None,
      eq_expires_at = None, eq_supersede_key = Some ''online:u''\<rparr>"

lemma overlapping_calls_queue_both:
  "count_rows (keyed ''peer'' ''online:u'') (ox_db (outbox_run
     [Call (status_call ''a''), Call (status_call ''b''),
      CallStep 0 0, CallStep 0 1, CallStep 0 0, CallStep 0 1, CallStep 0 0, CallStep 0 1, CallStep 0 0, CallStep 0 1]
     (empty_outbox [(''peer'', CONFIRMED)]))) = 2"
  by code_simp

text \<open>An uninterrupted call is \<open>enqueue\<close>.\<close>

primrec call_steps :: "nat \<Rightarrow> int \<Rightarrow> enqueue_call \<times> outbox_db \<Rightarrow> enqueue_call \<times> outbox_db" where
  "call_steps 0 now cd = cd"
| "call_steps (Suc n) now cd = call_steps n now (enqueue_step now (fst cd) (snd cd))"

lemma delete_none: "count_rows P db = 0 \<Longrightarrow> delete_rows P db = db"
  by (simp add: count_rows_def delete_rows_def filter_empty_conv)

lemma call_steps_returned [simp]: "ec_pc c = CallDone res \<Longrightarrow> call_steps n now (c, db) = (c, db)"
  by (induction n) (simp_all add: enqueue_step_returned)

lemma steps_insert:
  "ec_pc c = InsertRow \<Longrightarrow> call_steps (Suc n) now (c, db) =
     (c\<lparr>ec_pc := CallDone (fst (insert_row (ec_args c) now (ec_expires c) (ec_key c) db))\<rparr>,
      snd (insert_row (ec_args c) now (ec_expires c) (ec_key c) db))"
  by (simp add: enqueue_step_def Let_def case_prod_beta)

definition evict_if_full :: "string \<Rightarrow> outbox_db \<Rightarrow> outbox_db" where
  "evict_if_full peer db =
     (if max_pending_per_peer \<le> count_pending_for peer db then snd (evict_oldest_droppable peer db) else db)"

lemma steps_count:
  assumes "ec_pc c = CountPending"
  shows "call_steps (Suc (Suc (Suc (Suc n)))) now (c, db) =
     (let db' = evict_if_full (eq_instance (ec_args c)) db; out = insert_row (ec_args c) now (ec_expires c) (ec_key c) db'
      in (c\<lparr>ec_pc := CallDone (fst out)\<rparr>, snd out))"
proof (cases "max_pending_per_peer \<le> count_pending_for (eq_instance (ec_args c)) db")
  case False
  then show ?thesis using assms steps_insert [of "c\<lparr>ec_pc := InsertRow\<rparr>" "Suc (Suc n)" now db]
    by (simp add: enqueue_step_def [of now c] evict_if_full_def Let_def)
next
  case True
  show ?thesis
  proof (cases "sort_key evict_rank (filter (droppable (eq_instance (ec_args c))) (od_rows db))")
    case Nil
    then show ?thesis using True assms steps_insert [of "c\<lparr>ec_pc := InsertRow\<rparr>" "Suc n" now db]
      by (simp add: enqueue_step_def evict_if_full_def evict_oldest_droppable_def Let_def)
  next
    case (Cons r rs)
    then show ?thesis
      using True assms steps_insert [of "c\<lparr>ec_pc := InsertRow\<rparr>" n now "delete_rows (\<lambda>x. ob_id x = ob_id r) db"]
      by (simp add: enqueue_step_def evict_if_full_def evict_oldest_droppable_def Let_def)
  qed
qed

lemma uninterrupted_call_is_enqueue:
  "call_steps 7 now (start_call a, db) =
     ((start_call a)\<lparr>ec_pc := CallDone (fst (enqueue a now db)), ec_key := fst (queue_class a now db),
        ec_expires := snd (queue_class a now db)\<rparr>,
      snd (enqueue a now db))"
proof -
  obtain key expires where q: "queue_class a now db = (key, expires)" by (metis surj_pair)
  define c where "c = (\<lambda>pc. \<lparr>ec_args = a, ec_pc = pc, ec_key = key, ec_expires = expires\<rparr>)"
  define peer where "peer = eq_instance a"
  define db1 where "db1 = (case key of None \<Rightarrow> db | Some k \<Rightarrow> snd (drop_superseded peer k db))"
  have room: "make_room peer key db = evict_if_full peer db1"
    by (simp add: make_room_def evict_if_full_def Let_def db1_def)
  have enq: "enqueue a now db = insert_row a now expires key (evict_if_full peer db1)"
    by (simp add: enqueue_def q room peer_def [symmetric])
  have first: "enqueue_step now (start_call a) db = (c (if key = None then CountPending else FindSuperseded), db)"
    by (simp add: enqueue_step_def start_call_def q c_def)
  have count: "call_steps (Suc (Suc (Suc (Suc n)))) now (c CountPending, db1) =
      (c (CallDone (fst (enqueue a now db))), snd (enqueue a now db))" for n
    by (subst steps_count) (simp_all add: c_def enq Let_def peer_def [symmetric])
  have "call_steps (Suc (Suc (Suc (Suc (Suc (Suc 0)))))) now (c (if key = None then CountPending else FindSuperseded), db)
      = (c (CallDone (fst (enqueue a now db))), snd (enqueue a now db))"
  proof (cases key)
    case None
    then show ?thesis using count [of "Suc (Suc 0)"] by (simp add: db1_def del: call_steps.simps)
  next
    case (Some k)
    show ?thesis
    proof (cases "fst (drop_superseded peer k db) = 0")
      case True
      then have "db1 = db" using Some by (simp add: db1_def drop_superseded_def delete_none)
      moreover have "enqueue_step now (c FindSuperseded) db = (c CountPending, db)"
        using Some True by (simp add: enqueue_step_def c_def peer_def)
      ultimately show ?thesis using Some count [of "Suc 0"] by (simp add: call_steps.simps(2) [of "Suc _"] del: call_steps.simps)
    next
      case False
      then have "enqueue_step now (c FindSuperseded) db = (c DropFound, db)"
        using Some by (simp add: enqueue_step_def c_def peer_def)
      moreover have "enqueue_step now (c DropFound) db = (c CountPending, db1)"
        using Some by (simp add: enqueue_step_def c_def peer_def db1_def)
      ultimately show ?thesis using Some count [of 0] by (simp del: count)
    qed
  qed
  then have "call_steps (Suc (Suc (Suc (Suc (Suc (Suc (Suc 0))))))) now (start_call a, db)
      = (c (CallDone (fst (enqueue a now db))), snd (enqueue a now db))"
    by (subst call_steps.simps(2)) (simp add: first del: call_steps.simps)
  then show ?thesis by (simp add: eval_nat_numeral c_def start_call_def q del: call_steps.simps)
qed

text \<open>
  Two overlapping calls that both find the peer at the cap pick one victim between them, so the backlog grows by one row:
  from any table with distinct ids, at the cap, with a droppable row of a peer that is still paired.
\<close>

lemma overlapping_calls_pass_the_cap:
  assumes calls: "ox_calls s = [c1, c2]" "ec_pc c1 = CountPending" "ec_pc c2 = CountPending"
    and peer: "eq_instance (ec_args c1) = p" "eq_instance (ec_args c2) = p" "map_of (od_peers (ox_db s)) p = Some CONFIRMED"
    and ids: "distinct (map ob_id (od_rows (ox_db s)))" "eq_id (ec_args c1) \<noteq> eq_id (ec_args c2)"
      "eq_id (ec_args c1) \<notin> ob_id ` set (od_rows (ox_db s))" "eq_id (ec_args c2) \<notin> ob_id ` set (od_rows (ox_db s))"
    and full: "max_pending_per_peer \<le> count_pending_for p (ox_db s)" "count_rows (droppable p) (ox_db s) \<noteq> 0"
  shows "count_pending_for p (ox_db (outbox_run (concat (replicate 4 [CallStep now 0, CallStep now 1])) s))
     = Suc (count_pending_for p (ox_db s))"
proof -
  let ?db = "ox_db s"
  obtain q qs where q: "sort_key evict_rank (filter (droppable p) (od_rows ?db)) = q # qs"
    using full(2) by (metis count_rows_def length_0_conv length_sort list.exhaust)
  define db1 where "db1 = delete_rows (\<lambda>r. ob_id r = ob_id q) ?db"
  have mem: "q \<in> set (od_rows ?db)" "pending_of p q" using sorted_hd_mem [OF q] by (simp_all add: droppable_def)
  have again: "delete_rows (\<lambda>r. ob_id r = ob_id q) db1 = db1" by (simp add: db1_def delete_rows_def)
  have peers: "od_peers db1 = od_peers ?db" by (simp add: db1_def)
  have fresh: "eq_id (ec_args c1) \<notin> ob_id ` set (od_rows db1)" "eq_id (ec_args c2) \<notin> ob_id ` set (od_rows db1)"
    using ids(3,4) by (auto simp: db1_def delete_rows_def)
  have id: "ob_id (new_row a now e k) = eq_id a" for a e k by (simp add: new_row_def)
  have paired: "still_paired p ev db" if "od_peers db = od_peers ?db" for ev db
    using peer(3) that by (simp add: still_paired_def)
  have "Suc (count_pending_for p db1) = count_pending_for p ?db"
  proof -
    obtain xs ys where rows: "od_rows ?db = xs @ q # ys" using mem(1) by (meson split_list)
    have "ob_id r \<noteq> ob_id q" if "r \<in> set xs \<union> set ys" for r
    proof -
      have "ob_id q \<notin> ob_id ` (set xs \<union> set ys)" using ids(1) by (simp add: rows image_Un)
      then show ?thesis using that by (metis imageI)
    qed
    then have "od_rows db1 = xs @ ys" by (auto simp: db1_def delete_rows_def rows filter_id_conv)
    then show ?thesis using mem(2) by (simp add: count_pending_for_def count_rows_def rows)
  qed
  moreover have "ox_db (outbox_run (concat (replicate 4 [CallStep now 0, CallStep now 1])) s) =
      db1\<lparr>od_rows := od_rows db1 @ [new_row (ec_args c1) now (ec_expires c1) (ec_key c1),
        new_row (ec_args c2) now (ec_expires c2) (ec_key c2)]\<rparr>"
    using calls peer ids(2) full(1) q fresh paired
    by (simp add: outbox_run_def eval_nat_numeral enqueue_step_def Let_def db1_def [symmetric] again peers insert_row_def id)
  ultimately show ?thesis using peer by (simp add: count_pending_for_def count_rows_def new_row_def pending_of_def)
qed


section \<open>Witnesses\<close>

definition ban_args :: enqueue_args where
  "ban_args =
     \<lparr>eq_instance = ''peer'', eq_event = ''space_member_banned'', eq_payload = ''env'', eq_id = ''b1'', eq_authority = None,
      eq_expires_at = None, eq_supersede_key = None\<rparr>"

definition post_args :: enqueue_args where
  "post_args = ban_args\<lparr>eq_event := ''space_post_created'', eq_id := ''p1''\<rparr>"

definition ban_run :: "outbox_op list" where
  "ban_run = [Tick 2000000 50, Enqueue 2500000 post_args, DropTypes ''peer'' [''space_post_created''],
     Answer 3000000 RAISED 0 0, Prune 4000000]"

lemma never_drop_rows_stay_witness:
  "\<exists>r' \<in> set (od_rows (ox_db (outbox_run ban_run (outbox_run [Enqueue 1000000 ban_args] (empty_outbox [(''peer'', CONFIRMED)]))))).
     ob_id r' = ''b1'' \<and> ob_instance r' = ''peer'' \<and> ob_event r' = ''space_member_banned'' \<and> ob_payload r' = ''env''
     \<and> ob_status r' = PENDING"
proof -
  define s where "s = outbox_run [Enqueue 1000000 ban_args] (empty_outbox [(''peer'', CONFIRMED)])"
  have s: "s = \<lparr>ox_db = \<lparr>od_rows = [new_row ban_args 1000000 None None], od_peers = [(''peer'', CONFIRMED)]\<rparr>, ox_due = [],
      ox_calls = []\<rparr>"
    unfolding s_def by code_simp
  have "distinct (queued_ids ([Enqueue 1000000 ban_args] @ ban_run))" by code_simp
  moreover have "s = outbox_run [Enqueue 1000000 ban_args] (empty_outbox [(''peer'', CONFIRMED)])" by (rule s_def)
  moreover have "new_row ban_args 1000000 None None \<in> set (od_rows (ox_db s))" by (simp add: s)
  moreover have "pinned (new_row ban_args 1000000 None None)" by code_simp
  moreover have "known (new_row ban_args 1000000 None None) (ox_db s)" unfolding s by code_simp
  moreover have "\<forall>x \<in> set ban_run. \<not> takes_back (new_row ban_args 1000000 None None) x" by code_simp
  moreover have "set (answers (ob_id (new_row ban_args 1000000 None None)) ban_run s) \<inter> {SUCCESS, PERMANENT} = {}"
    unfolding s by code_simp
  ultimately show ?thesis
    using never_drop_rows_stay [of "[Enqueue 1000000 ban_args]" ban_run s "[(''peer'', CONFIRMED)]"
        "new_row ban_args 1000000 None None"]
    by (simp add: s_def new_row_def ban_args_def)
qed

lemma ordinary_rows_are_given_up_witness:
  "length (answers ''p1'' [Enqueue 1000000 post_args, Tick 2000000 50, Answer 3000000 RAISED 0 0]
     (empty_outbox [(''peer'', CONFIRMED)])) \<le> 13"
  by (rule ordinary_rows_are_given_up)
    (simp_all add: queued_ids_def post_args_def ban_args_def ordinary_def never_drop_def long_lived_def)

lemma queue_keeps_to_its_limits_witness:
  "count_rows (keyed ''peer'' ''online:u'') (ox_db (outbox_run
       [Enqueue 0 (status_call ''a''), Enqueue 0 (status_call ''b'')] (empty_outbox [(''peer'', CONFIRMED)]))) \<le> 1 \<and>
   (count_pending_for ''peer'' (ox_db (outbox_run
       [Enqueue 0 (status_call ''a''), Enqueue 0 (status_call ''b'')] (empty_outbox [(''peer'', CONFIRMED)])))
      \<le> max_pending_per_peer \<or>
    count_rows (droppable ''peer'') (ox_db (outbox_run
       [Enqueue 0 (status_call ''a''), Enqueue 0 (status_call ''b'')] (empty_outbox [(''peer'', CONFIRMED)]))) \<le> 1)"
  by (rule queue_keeps_to_its_limits) simp

lemma retries_land_in_their_band_witness:
  "timedelta_seconds (max (7 / 10 * base_delay 0) (asked_delay TRANSIENT)) \<le> 5000000 \<and>
   5000000 \<le> timedelta_seconds (13 / 10 * max (base_delay 0) (asked_delay TRANSIENT)) \<and> (5000000 :: int) \<le> seconds 18720"
proof -
  define r where "r = new_row ban_args 1000000 None None"
  define db where "db = \<lparr>od_rows = [r], od_peers = [(''peer'', CONFIRMED)]\<rparr>"
  have "timedelta_seconds (max (delay_for (1 / 2) 1) 0) = seconds 5"
  proof -
    have "max (delay_for (1 / 2) 1) 0 = of_int 5" by (simp add: delay_for_def backoff_seconds_def)
    then show ?thesis by (simp only: timedelta_int)
  qed
  then have "od_rows (settle r TRANSIENT 0 (1 / 2) 0 db) = [r\<lparr>ob_next_attempt_at := 5000000, ob_attempts := 1\<rparr>]"
    by (simp add: settle_def r_def new_row_def db_def reschedule_def update_rows_def seconds_def)
  then show ?thesis
    using retries_land_in_their_band [of 0 "1 / 2" r "r\<lparr>ob_next_attempt_at := 5000000, ob_attempts := 1\<rparr>" TRANSIENT 0 db]
    by (simp add: r_def new_row_def)
qed

end
