(* ===== verification/Seat_Action.thy ===== *)
theory Seat_Action
  imports Prelude
begin

text \<open>
  Methods that read and write the database step by step and may raise in the middle: an action takes the state and
  gives the exception or the result together with the state at that point, so that what was written before a
  \<open>raise\<close> stays written.  Weakest preconditions are computed by the simplifier (the collection \<open>wp_simps\<close>).
\<close>

type_synonym ('s, 'e, 'a) action = "'s \<Rightarrow> ('e + 'a) \<times> 's"

named_theorems wp_simps \<open>weakest preconditions of actions\<close>

section \<open>Actions\<close>

definition ret :: "'a \<Rightarrow> ('s, 'e, 'a) action" where
  "ret x = (\<lambda>s. (Inr x, s))"

definition raise :: "'e \<Rightarrow> ('s, 'e, 'a) action" where
  "raise e = (\<lambda>s. (Inl e, s))"

definition reads :: "('s \<Rightarrow> 'a) \<Rightarrow> ('s, 'e, 'a) action" where
  "reads f = (\<lambda>s. (Inr (f s), s))"

definition writes :: "('s \<Rightarrow> 's) \<Rightarrow> ('s, 'e, unit) action" where
  "writes f = (\<lambda>s. (Inr (), f s))"

definition andthen :: "('s, 'e, 'a) action \<Rightarrow> ('a \<Rightarrow> ('s, 'e, 'b) action) \<Rightarrow> ('s, 'e, 'b) action" where
  "andthen m k = (\<lambda>s. case m s of (Inl e, s') \<Rightarrow> (Inl e, s') | (Inr x, s') \<Rightarrow> k x s')"

definition afterwards :: "('s, 'e, 'a) action \<Rightarrow> ('s, 'e, 'b) action \<Rightarrow> ('s, 'e, 'b) action" where
  "afterwards m k = andthen m (\<lambda>_. k)"

text \<open>\<open>try: m except Exception: h\<close>, \<open>if b: raise e\<close> and \<open>if b: m\<close>.\<close>

definition trying :: "('s, 'e, 'a) action \<Rightarrow> ('e \<Rightarrow> ('s, 'e, 'a) action) \<Rightarrow> ('s, 'e, 'a) action" where
  "trying m h = (\<lambda>s. case m s of (Inl e, s') \<Rightarrow> h e s' | (Inr x, s') \<Rightarrow> (Inr x, s'))"

definition raise_if :: "bool \<Rightarrow> 'e \<Rightarrow> ('s, 'e, unit) action" where
  "raise_if b e = (if b then raise e else ret ())"

definition doing_if :: "bool \<Rightarrow> ('s, 'e, unit) action \<Rightarrow> ('s, 'e, unit) action" where
  "doing_if b m = (if b then m else ret ())"

primrec for_each :: "('a \<Rightarrow> ('s, 'e, unit) action) \<Rightarrow> 'a list \<Rightarrow> ('s, 'e, unit) action" where
  "for_each f [] = ret ()"
| "for_each f (x # xs) = afterwards (f x) (for_each f xs)"

primrec gather :: "('a \<Rightarrow> ('s, 'e, 'b option) action) \<Rightarrow> 'a list \<Rightarrow> ('s, 'e, 'b list) action" where
  "gather f [] = ret []"
| "gather f (x # xs) = andthen (f x) (\<lambda>y. andthen (gather f xs) (\<lambda>ys.
     ret (case y of None \<Rightarrow> ys | Some b \<Rightarrow> b # ys)))"

section \<open>Weakest preconditions\<close>

text \<open>\<open>Q\<close> for the result and the state of a return, \<open>E\<close> for those of a raise.\<close>

definition wp :: "('s, 'e, 'a) action \<Rightarrow> ('a \<Rightarrow> 's \<Rightarrow> bool) \<Rightarrow> ('e \<Rightarrow> 's \<Rightarrow> bool) \<Rightarrow> 's \<Rightarrow> bool" where
  "wp m Q E s = (case m s of (Inl e, s') \<Rightarrow> E e s' | (Inr x, s') \<Rightarrow> Q x s')"

lemma wp_ret [wp_simps]: "wp (ret x) Q E s = Q x s"
  by (simp add: wp_def ret_def)

lemma wp_raise [wp_simps]: "wp (raise e) Q E s = E e s"
  by (simp add: wp_def raise_def)

lemma wp_reads [wp_simps]: "wp (reads f) Q E s = Q (f s) s"
  by (simp add: wp_def reads_def)

lemma wp_writes [wp_simps]: "wp (writes f) Q E s = Q () (f s)"
  by (simp add: wp_def writes_def)

lemma wp_andthen [wp_simps]: "wp (andthen m k) Q E s = wp m (\<lambda>x s'. wp (k x) Q E s') E s"
  by (auto simp: wp_def andthen_def split: prod.splits sum.splits)

lemma wp_afterwards [wp_simps]: "wp (afterwards m k) Q E s = wp m (\<lambda>_ s'. wp k Q E s') E s"
  by (simp add: afterwards_def wp_andthen)

lemma wp_trying [wp_simps]: "wp (trying m h) Q E s = wp m Q (\<lambda>e s'. wp (h e) Q E s') s"
  by (auto simp: wp_def trying_def split: prod.splits sum.splits)

lemma wp_raise_if [wp_simps]: "wp (raise_if b e) Q E s = (if b then E e s else Q () s)"
  by (simp add: raise_if_def wp_simps)

lemma wp_doing_if [wp_simps]: "wp (doing_if b m) Q E s = (if b then wp m Q E s else Q () s)"
  by (simp add: doing_if_def wp_simps)

lemma wp_if [wp_simps]: "wp (if b then m else m') Q E s = (if b then wp m Q E s else wp m' Q E s)"
  by simp

lemma wp_option [wp_simps]:
  "wp (case x of None \<Rightarrow> m | Some y \<Rightarrow> f y) Q E s = (case x of None \<Rightarrow> wp m Q E s | Some y \<Rightarrow> wp (f y) Q E s)"
  by (cases x) simp_all

lemma wp_mono: "wp m Q E s \<Longrightarrow> (\<And>x s'. Q x s' \<Longrightarrow> Q' x s') \<Longrightarrow> (\<And>e s'. E e s' \<Longrightarrow> E' e s') \<Longrightarrow> wp m Q' E' s"
  by (auto simp: wp_def split: prod.splits sum.splits)

text \<open>What a call leaves, whether it returned or raised.\<close>

definition leaves :: "('s, 'e, 'a) action \<Rightarrow> 's \<Rightarrow> 's" where
  "leaves m s = snd (m s)"

lemma leaves_wp: "wp m (\<lambda>_ s'. P s') (\<lambda>_ s'. P s') s \<longleftrightarrow> P (leaves m s)"
  by (auto simp: wp_def leaves_def split: prod.splits sum.splits)

text \<open>An action that keeps a predicate, however it ends.\<close>

definition keeps :: "('s \<Rightarrow> bool) \<Rightarrow> ('s, 'e, 'a) action \<Rightarrow> bool" where
  "keeps P m \<longleftrightarrow> (\<forall>s. P s \<longrightarrow> P (leaves m s))"

lemma keeps_wp: "keeps P m \<longleftrightarrow> (\<forall>s. P s \<longrightarrow> wp m (\<lambda>_. P) (\<lambda>_. P) s)"
  by (simp add: keeps_def leaves_wp)

lemma keepsI: "(\<And>s. P s \<Longrightarrow> wp m (\<lambda>_. P) (\<lambda>_. P) s) \<Longrightarrow> keeps P m"
  by (simp add: keeps_wp)

lemma wp_keeps: "keeps P m \<Longrightarrow> P s \<Longrightarrow> (\<And>x s'. P s' \<Longrightarrow> Q x s') \<Longrightarrow> (\<And>e s'. P s' \<Longrightarrow> E e s') \<Longrightarrow> wp m Q E s"
  by (auto simp: keeps_wp intro: wp_mono)

text \<open>One statement at a time.\<close>

lemma wp_reads_then: "wp (k (f s)) Q E s \<Longrightarrow> wp (andthen (reads f) k) Q E s"
  and wp_writes_then: "wp m Q E' (g s) \<Longrightarrow> wp (afterwards (writes g) m) Q E' s"
  by (simp_all add: wp_simps)

lemma wp_keeps_then: "wp m (\<lambda>_. P) (\<lambda>_. P) s \<Longrightarrow> keeps P m' \<Longrightarrow> wp (afterwards m m') (\<lambda>_. P) (\<lambda>_. P) s"
  by (auto simp: wp_simps keeps_wp intro: wp_mono)

lemma keeps_ret: "keeps P (ret x)"
  and keeps_raise: "keeps P (raise e)"
  and keeps_reads: "keeps P (reads f)"
  by (simp_all add: keeps_wp wp_simps)

lemma keeps_writes: "(\<And>s. P s \<Longrightarrow> P (f s)) \<Longrightarrow> keeps P (writes f)"
  by (simp add: keeps_wp wp_simps)

lemma keeps_andthen: "keeps P m \<Longrightarrow> (\<And>x. keeps P (k x)) \<Longrightarrow> keeps P (andthen m k)"
  by (auto simp: keeps_wp wp_simps intro: wp_mono)

lemma keeps_afterwards: "keeps P m \<Longrightarrow> keeps P k \<Longrightarrow> keeps P (afterwards m k)"
  by (simp add: afterwards_def keeps_andthen)

lemma keeps_trying: "keeps P m \<Longrightarrow> (\<And>e. keeps P (h e)) \<Longrightarrow> keeps P (trying m h)"
  by (auto simp: keeps_wp wp_simps intro: wp_mono)

lemma keeps_raise_if: "keeps P (raise_if b e)"
  by (simp add: keeps_wp wp_simps)

lemma keeps_doing_if: "keeps P m \<Longrightarrow> keeps P (doing_if b m)"
  by (simp add: keeps_wp wp_simps)

lemma keeps_if: "keeps P m \<Longrightarrow> keeps P m' \<Longrightarrow> keeps P (if b then m else m')"
  by simp

lemma keeps_option: "keeps P m \<Longrightarrow> (\<And>y. keeps P (f y)) \<Longrightarrow> keeps P (case x of None \<Rightarrow> m | Some y \<Rightarrow> f y)"
  by (cases x) simp_all

lemma keeps_for_each: "(\<And>x. keeps P (f x)) \<Longrightarrow> keeps P (for_each f xs)"
  by (induction xs) (simp_all add: keeps_ret keeps_afterwards)

lemma keeps_gather: "(\<And>x. keeps P (f x)) \<Longrightarrow> keeps P (gather f xs)"
  by (induction xs) (simp_all add: keeps_ret keeps_andthen)

lemmas keeps_rules = keeps_ret keeps_raise keeps_reads keeps_andthen keeps_afterwards keeps_trying keeps_raise_if
  keeps_doing_if keeps_option keeps_for_each keeps_gather keeps_writes

end
