(* ===== verification/Space_Seat_Rows.thy ===== *)
theory Space_Seat_Rows
  imports Seat_Action Space_Domain
begin

text \<open>
  The rows a household keeps about who sits in one space (\<open>repositories/space_repo.py\<close>,
  \<open>repositories/space_remote_member_repo.py\<close>): the space itself, the seats of \<open>space_members\<close>, the mirrored seats of
  other households, bans, member households, invitations, join requests and invite tokens, with the statements that
  read and write them.  Rows stand in insertion order, which is the order of \<open>joined_at\<close> and \<open>requested_at\<close>.  The
  state also keeps the log of what was announced: bus events and federation messages, oldest first.
\<close>

section \<open>Rows\<close>

datatype space_tier = PRIVATE_SPACE | HOUSEHOLD_SPACE | PUBLIC_SPACE | GLOBAL_SPACE

definition public_tiers :: "space_tier list" where
  "public_tiers = [PUBLIC_SPACE, GLOBAL_SPACE]"

datatype join_mode = JOIN_INVITE_ONLY | JOIN_OPEN | JOIN_REQUEST

record seat_space =
  ss_host :: string
  ss_owner :: string
  ss_owner_seat :: "string option"
  ss_tier :: space_tier
  ss_join :: join_mode
  ss_features :: space_features
  ss_dissolved :: bool
  ss_min_age :: nat
  ss_area :: bool
  ss_config_sequence :: nat
  ss_roster_sequence :: nat
  ss_authority_epoch :: nat
  ss_seed :: bool
  ss_seed_shared :: "nat option"

record seat_row =
  sr_role :: space_role
  sr_history :: "string option"
  sr_shares :: bool
  sr_name :: "string option"
  sr_picture :: "string option"

definition new_seat :: "space_role \<Rightarrow> seat_row" where
  "new_seat role = \<lparr>sr_role = role, sr_history = None, sr_shares = False, sr_name = None, sr_picture = None\<rparr>"

record remote_row =
  rr_instance :: string
  rr_user :: string
  rr_pk :: "string option"
  rr_name :: "string option"
  rr_role :: space_role
  rr_version :: nat
  rr_dead :: bool
  rr_epoch :: nat
  rr_removed :: "int option"

datatype row_status = ROW_PENDING | ROW_ACCEPTED | ROW_DECLINED | ROW_APPROVED | ROW_DENIED | ROW_EXPIRED | ROW_WITHDRAWN

record invitation_row =
  iv_user :: string
  iv_by :: string
  iv_instance :: "string option"
  iv_status :: row_status

datatype eligibility = INSIDE_AREA | AREA_EDGE

record request_row =
  jr_user :: string
  jr_instance :: "string option"
  jr_role :: "space_role option"
  jr_verdict :: "eligibility option"
  jr_status :: row_status
  jr_reviewer :: "string option"

record token_row =
  tk_uses :: nat
  tk_total :: "nat option"
  tk_role :: space_role
  tk_expires :: "int option"

datatype role_change_kind = ADMIN_GRANTED | ADMIN_REVOKED | ROLE_CHANGED

datatype forwarded_action =
    AskBan string
  | AskUnban string
  | AskRole string string string string

datatype seat_event =
    MemberJoined string space_role bool
  | MemberLeft string space_role
  | InviteCreated string string
  | InviteAnswered string bool
  | JoinRequested string string
  | JoinApproved string string
  | JoinDenied string string
  | RoleEvent role_change_kind string space_role nat
  | MemberBanned string nat
  | MemberUnbanned string nat
  | OwnershipTransferred string nat
  | RemoteSeatLive string string
  | RemoteSeatEnded string string
  | AuthorityRevoked string
  | MembershipRecorded string string string
  | RosterSent bool string string space_role nat "string list"
  | RoleBroadcast string string space_role "string list"
  | SeedShared string
  | RosterSnapshot string
  | KickForwarded string string string
  | ActionForwarded string string forwarded_action
  | LeaveNotice string string
  | RemovedNotice string string
  | ApprovalSent string string string
  | DenialSent string string
  | EpochAnnounced
  | Rekeyed nat "string list"
  | KeySealed nat "string list"
  | AuthorityBundle string nat "nat option"
  | OwnerRekey string nat
  | SessionChecked string
  | GfsUnsubscribed

record seat_db =
  sd_space :: "seat_space option"
  sd_members :: "(string \<times> seat_row) list"
  sd_bans :: "string list"
  sd_remote :: "remote_row list"
  sd_households :: "string list"
  sd_household_bans :: "string list"
  sd_invitations :: "(string \<times> invitation_row) list"
  sd_requests :: "(string \<times> request_row) list"
  sd_tokens :: "(string \<times> token_row) list"
  sd_epoch :: "nat option"
  sd_log :: "seat_event list"

definition announce :: "seat_event \<Rightarrow> seat_db \<Rightarrow> seat_db" where
  "announce ev s = s\<lparr>sd_log := sd_log s @ [ev]\<rparr>"

section \<open>Local seats and bans\<close>

definition get_member :: "seat_db \<Rightarrow> string \<Rightarrow> seat_row option" where
  "get_member s user_id = map_of (sd_members s) user_id"

definition save_member :: "string \<Rightarrow> seat_row \<Rightarrow> seat_db \<Rightarrow> seat_db" where
  "save_member user_id r s = s\<lparr>sd_members := AList.update user_id
     (case get_member s user_id of
        None \<Rightarrow> r
      | Some old \<Rightarrow> r\<lparr>sr_picture := (case sr_picture r of None \<Rightarrow> sr_picture old | Some p \<Rightarrow> Some p)\<rparr>) (sd_members s)\<rparr>"

definition delete_member :: "string \<Rightarrow> seat_db \<Rightarrow> seat_db" where
  "delete_member user_id s = s\<lparr>sd_members := AList.delete user_id (sd_members s)\<rparr>"

text \<open>\<open>UPDATE \<dots> SET role\<close>; the caller has refused the role \<open>ValueError\<close> is raised for.\<close>

definition set_member_role :: "string \<Rightarrow> space_role \<Rightarrow> seat_db \<Rightarrow> seat_db" where
  "set_member_role user_id role s = s\<lparr>sd_members := AList.map_entry user_id (sr_role_update (\<lambda>_. role)) (sd_members s)\<rparr>"

definition ban_member :: "string \<Rightarrow> seat_db \<Rightarrow> seat_db" where
  "ban_member user_id s =
     delete_member user_id (s\<lparr>sd_bans := (if user_id \<in> set (sd_bans s) then sd_bans s else sd_bans s @ [user_id])\<rparr>)"

definition unban_member :: "string \<Rightarrow> seat_db \<Rightarrow> seat_db" where
  "unban_member user_id s = s\<lparr>sd_bans := filter (\<lambda>u. u \<noteq> user_id) (sd_bans s)\<rparr>"

definition is_banned :: "seat_db \<Rightarrow> string \<Rightarrow> bool" where
  "is_banned s user_id \<longleftrightarrow> user_id \<in> set (sd_bans s)"

text \<open>\<open>space_member_guard.seat_of\<close>.\<close>

definition seat_of :: "seat_db \<Rightarrow> string \<Rightarrow> seat_row option" where
  "seat_of s user_id = (if is_banned s user_id then None else get_member s user_id)"

section \<open>Member households\<close>

definition add_space_instance :: "string \<Rightarrow> seat_db \<Rightarrow> seat_db" where
  "add_space_instance i s = s\<lparr>sd_households := (if i \<in> set (sd_households s) then sd_households s else sd_households s @ [i])\<rparr>"

definition remove_space_instance :: "string \<Rightarrow> seat_db \<Rightarrow> seat_db" where
  "remove_space_instance i s = s\<lparr>sd_households := filter (\<lambda>j. j \<noteq> i) (sd_households s)\<rparr>"

definition list_member_instance_ids :: "seat_db \<Rightarrow> string list" where
  "list_member_instance_ids s = sort (filter (\<lambda>i. i \<notin> set (sd_household_bans s)) (sd_households s))"

section \<open>Sequences of the space row\<close>

definition on_space :: "(seat_space \<Rightarrow> seat_space) \<Rightarrow> seat_db \<Rightarrow> seat_db" where
  "on_space f s = s\<lparr>sd_space := map_option f (sd_space s)\<rparr>"

definition increment_roster_sequence :: "(seat_db, unit, nat) action" where
  "increment_roster_sequence = (\<lambda>s. case sd_space s of
     None \<Rightarrow> (Inl (), s)
   | Some sp \<Rightarrow> (Inr (Suc (ss_roster_sequence sp)), on_space (ss_roster_sequence_update Suc) s))"

definition increment_config_sequence :: "seat_db \<Rightarrow> seat_db" where
  "increment_config_sequence = on_space (ss_config_sequence_update Suc)"

definition record_owner_change :: "string \<Rightarrow> seat_db \<Rightarrow> seat_db" where
  "record_owner_change owner_username = on_space (\<lambda>sp. sp\<lparr>ss_owner := owner_username, ss_owner_seat := None\<rparr>)"

text \<open>\<open>SELECT authority_key_epoch FROM spaces\<close>.\<close>

definition key_epoch :: "seat_db \<Rightarrow> nat" where
  "key_epoch s = (case sd_space s of None \<Rightarrow> 0 | Some sp \<Rightarrow> ss_authority_epoch sp)"

section \<open>Seats of other households\<close>

definition same_remote :: "string \<Rightarrow> string \<Rightarrow> remote_row \<Rightarrow> bool" where
  "same_remote i user_id r \<longleftrightarrow> rr_instance r = i \<and> rr_user r = user_id"

definition get_remote :: "seat_db \<Rightarrow> string \<Rightarrow> string \<Rightarrow> remote_row option" where
  "get_remote s i user_id = find (\<lambda>r. same_remote i user_id r \<and> \<not> rr_dead r) (sd_remote s)"

definition get_including_tombstones :: "seat_db \<Rightarrow> string \<Rightarrow> remote_row option" where
  "get_including_tombstones s user_id = find (\<lambda>r. rr_user r = user_id) (sd_remote s)"

definition list_for_space :: "seat_db \<Rightarrow> remote_row list" where
  "list_for_space s = filter (\<lambda>r. \<not> rr_dead r) (sd_remote s)"

text \<open>\<open>SELECT DISTINCT instance_id \<dots> ORDER BY instance_id\<close>.\<close>

definition list_admin_instances :: "seat_db \<Rightarrow> string list" where
  "list_admin_instances s = sort (remdups (map rr_instance (filter (\<lambda>r. rr_role r = ADMIN \<and> \<not> rr_dead r) (sd_remote s))))"

text \<open>\<open>list_for_instance(\<dots>, include_tombstoned=False)\<close>.\<close>

definition live_of_instance :: "seat_db \<Rightarrow> string \<Rightarrow> remote_row list" where
  "live_of_instance s i = filter (\<lambda>r. rr_instance r = i \<and> \<not> rr_dead r) (sd_remote s)"

definition on_remote :: "string \<Rightarrow> string \<Rightarrow> (remote_row \<Rightarrow> remote_row) \<Rightarrow> seat_db \<Rightarrow> seat_db" where
  "on_remote i user_id f s = s\<lparr>sd_remote := map (\<lambda>r. if same_remote i user_id r then f r else r) (sd_remote s)\<rparr>"

definition remove_remote :: "int \<Rightarrow> string \<Rightarrow> string \<Rightarrow> seat_db \<Rightarrow> seat_db" where
  "remove_remote now i user_id s = on_remote i user_id
     (\<lambda>r. r\<lparr>rr_dead := True, rr_version := Suc (rr_version r), rr_removed := Some now, rr_epoch := key_epoch s\<rparr>) s"

definition set_remote_role :: "string \<Rightarrow> string \<Rightarrow> space_role \<Rightarrow> seat_db \<Rightarrow> seat_db" where
  "set_remote_role i user_id role = on_remote i user_id (\<lambda>r. r\<lparr>rr_role := role\<rparr>)"

text \<open>\<open>INSERT \<dots> ON CONFLICT(space_id, instance_id, user_id) DO UPDATE\<close>: \<open>f\<close> merges the new row into the old one.\<close>

definition upsert_remote :: "(remote_row \<Rightarrow> remote_row) \<Rightarrow> remote_row \<Rightarrow> seat_db \<Rightarrow> seat_db" where
  "upsert_remote f r s =
     (if list_ex (same_remote (rr_instance r) (rr_user r)) (sd_remote s)
      then on_remote (rr_instance r) (rr_user r) f s
      else s\<lparr>sd_remote := sd_remote s @ [r]\<rparr>)"

definition add_remote :: "string \<Rightarrow> string \<Rightarrow> string option \<Rightarrow> string option \<Rightarrow> space_role \<Rightarrow> seat_db \<Rightarrow> seat_db" where
  "add_remote i user_id pk name role s = upsert_remote
     (\<lambda>r. r\<lparr>rr_pk := pk, rr_name := name, rr_role := role, rr_epoch := key_epoch s, rr_dead := False, rr_removed := None,
            rr_version := rr_version r + (if rr_dead r then 1 else 0)\<rparr>)
     \<lparr>rr_instance = i, rr_user = user_id, rr_pk = pk, rr_name = name, rr_role = role, rr_version = 0, rr_dead = False,
      rr_epoch = key_epoch s, rr_removed = None\<rparr> s"

text \<open>The version guard of \<open>apply_member_event\<close>: strictly newer, or a removal at the same version of a live row.\<close>

definition outranks :: "nat \<Rightarrow> bool \<Rightarrow> remote_row option \<Rightarrow> bool" where
  "outranks version tombstoned current = (case current of
     None \<Rightarrow> True
   | Some c \<Rightarrow> rr_version c < version \<or> (version = rr_version c \<and> tombstoned \<and> \<not> rr_dead c))"

definition merge_remote :: "int \<Rightarrow> remote_row \<Rightarrow> remote_row \<Rightarrow> remote_row" where
  "merge_remote now new old = new\<lparr>rr_removed :=
     (if \<not> rr_dead new then None
      else if rr_dead old \<and> rr_removed old \<noteq> None then rr_removed old
      else Some now)\<rparr>"

record member_event =
  me_user :: string
  me_instance :: string
  me_name :: "string option"
  me_pk :: "string option"
  me_role :: space_role
  me_version :: nat
  me_dead :: bool

definition event_row :: "int \<Rightarrow> nat \<Rightarrow> member_event \<Rightarrow> remote_row" where
  "event_row now epoch ev = \<lparr>rr_instance = me_instance ev, rr_user = me_user ev, rr_pk = me_pk ev, rr_name = me_name ev,
     rr_role = me_role ev, rr_version = me_version ev, rr_dead = me_dead ev, rr_epoch = epoch,
     rr_removed = (if me_dead ev then Some now else None)\<rparr>"

definition put_event :: "int \<Rightarrow> nat \<Rightarrow> member_event \<Rightarrow> seat_db \<Rightarrow> seat_db" where
  "put_event now epoch ev s = upsert_remote (merge_remote now (event_row now epoch ev)) (event_row now epoch ev) s"

definition apply_member_event :: "int \<Rightarrow> nat option \<Rightarrow> member_event \<Rightarrow> seat_db \<Rightarrow> bool \<times> seat_db" where
  "apply_member_event now verified_epoch ev s =
     (if \<not> outranks (me_version ev) (me_dead ev) (get_including_tombstones s (me_user ev)) then (False, s)
      else case verified_epoch of
        None \<Rightarrow> (True, put_event now (key_epoch s) ev s)
      | Some k \<Rightarrow> if map_option ss_authority_epoch (sd_space s) = Some k then (True, put_event now k ev s) else (False, s))"

definition reset_member_state :: "int \<Rightarrow> member_event \<Rightarrow> seat_db \<Rightarrow> seat_db" where
  "reset_member_state now ev s = put_event now (key_epoch s) ev s"

section \<open>Invitations, join requests and invite tokens\<close>

definition save_invitation :: "string \<Rightarrow> string \<Rightarrow> string \<Rightarrow> seat_db \<Rightarrow> seat_db" where
  "save_invitation invitation_id user_id invited_by s = s\<lparr>sd_invitations := sd_invitations s @
     [(invitation_id, \<lparr>iv_user = user_id, iv_by = invited_by, iv_instance = None, iv_status = ROW_PENDING\<rparr>)]\<rparr>"

definition pending_invite :: "seat_db \<Rightarrow> string \<Rightarrow> string option" where
  "pending_invite s user_id = map_option fst
     (find (\<lambda>(i, r). iv_user r = user_id \<and> iv_instance r = None \<and> iv_status r = ROW_PENDING) (rev (sd_invitations s)))"

definition update_invitation_status :: "string \<Rightarrow> row_status \<Rightarrow> seat_db \<Rightarrow> seat_db" where
  "update_invitation_status i st s = s\<lparr>sd_invitations := AList.map_entry i (iv_status_update (\<lambda>_. st)) (sd_invitations s)\<rparr>"

definition save_join_request ::
  "string \<Rightarrow> string \<Rightarrow> string option \<Rightarrow> space_role option \<Rightarrow> eligibility option \<Rightarrow> seat_db \<Rightarrow> seat_db" where
  "save_join_request rid user_id i role v s = (if rid \<in> fst ` set (sd_requests s) then s else s\<lparr>sd_requests := sd_requests s @
     [(rid, \<lparr>jr_user = user_id, jr_instance = i, jr_role = role, jr_verdict = v, jr_status = ROW_PENDING, jr_reviewer = None\<rparr>)]\<rparr>)"

definition pending_requests :: "seat_db \<Rightarrow> (string \<times> request_row) list" where
  "pending_requests s = filter (\<lambda>(i, r). jr_status r = ROW_PENDING) (sd_requests s)"

definition pending_join_request_id :: "seat_db \<Rightarrow> string \<Rightarrow> string option \<Rightarrow> string option" where
  "pending_join_request_id s user_id household = map_option fst
     (find (\<lambda>(i, r). jr_user r = user_id \<and> jr_instance r = household \<and> jr_role r \<noteq> Some ADMIN) (pending_requests s))"

text \<open>\<open>UPDATE \<dots> WHERE id=? AND status='pending'\<close>: whether a row moved.\<close>

definition answer_join_request :: "string \<Rightarrow> row_status \<Rightarrow> string \<Rightarrow> seat_db \<Rightarrow> bool \<times> seat_db" where
  "answer_join_request rid st reviewed_by s = (case map_of (sd_requests s) rid of
     Some r \<Rightarrow> if jr_status r = ROW_PENDING
       then (True, s\<lparr>sd_requests := AList.update rid (r\<lparr>jr_status := st, jr_reviewer := Some reviewed_by\<rparr>) (sd_requests s)\<rparr>)
       else (False, s)
   | None \<Rightarrow> (False, s))"

definition token_live :: "int \<Rightarrow> token_row \<Rightarrow> bool" where
  "token_live now t \<longleftrightarrow> 0 < tk_uses t \<and> (case tk_expires t of None \<Rightarrow> True | Some x \<Rightarrow> now < x)"

definition get_live_invite_token :: "int \<Rightarrow> seat_db \<Rightarrow> string \<Rightarrow> token_row option" where
  "get_live_invite_token now s token = (case map_of (sd_tokens s) token of
     Some t \<Rightarrow> if token_live now t then Some t else None | None \<Rightarrow> None)"

definition consume_invite_token :: "int \<Rightarrow> string \<Rightarrow> string \<Rightarrow> seat_db \<Rightarrow> token_row option \<times> seat_db" where
  "consume_invite_token now token redeemer s = (case get_live_invite_token now s token of
     None \<Rightarrow> (None, s)
   | Some t \<Rightarrow> if is_banned s redeemer then (None, s)
       else let t' = t\<lparr>tk_uses := tk_uses t - 1\<rparr>
            in (Some t', s\<lparr>sd_tokens := AList.update token t' (sd_tokens s)\<rparr>))"

definition release_invite_token_use :: "string \<Rightarrow> seat_db \<Rightarrow> seat_db" where
  "release_invite_token_use token s = s\<lparr>sd_tokens := AList.map_entry token
     (\<lambda>t. if (case tk_total t of None \<Rightarrow> True | Some n \<Rightarrow> tk_uses t < n) then t\<lparr>tk_uses := Suc (tk_uses t)\<rparr> else t) (sd_tokens s)\<rparr>"

end
