(* ===== verification/Space_Seat_Roles.thy ===== *)
theory Space_Seat_Roles
  imports Space_Seat_Rows
begin

text \<open>
  Authority over the seats of one space (\<open>services/space_service.py\<close>): who may ask, the roster gossip every change
  sends, the writer entitlement of a household and the rotation of the content key, role changes on the hosting
  household and on a member household, and the moves of ownership.

  What the other services answer while a call runs is its environment: the household's own accounts, clock and
  identity, the child-protection records, the local-community verdict, the versions other households speak, whether
  an envelope arrived, whether a rotation of a key succeeds, and whom the connection servers list as followers.
\<close>

section \<open>The environment of a call\<close>

record account =
  ac_id :: string
  ac_active :: bool
  ac_admin :: bool
  ac_name :: string
  ac_pk :: "string option"

datatype delivery = ARRIVED | QUEUED | LOST

text \<open>
  A follower a connection server lists: whether its key-wrap key is there and bound to its identity, and the epoch
  this process last sealed to it.  A follower listed by several servers stands once.
\<close>

record follower =
  fo_household :: string
  fo_bound :: bool
  fo_sealed :: "nat option"

text \<open>
  \<open>en_rotates\<close> and \<open>en_exports\<close>: minting a content epoch succeeds, and the minted key can be read back;
  \<open>en_rotation\<close>: the authority rotation and the federation are wired and the compare-and-set of the new authority key
  wins; \<open>en_restored\<close>: a restore has not been rotated for yet; \<open>en_known\<close>: the household has an instance row.
\<close>

record seat_env =
  en_own :: string
  en_now :: int
  en_accounts :: "(string \<times> account) list"
  en_declared_age :: "string \<Rightarrow> nat option"
  en_verdict :: "eligibility option"
  en_fresh :: string
  en_version :: "string \<Rightarrow> nat"
  en_member_version :: "string \<Rightarrow> nat"
  en_paired :: "string \<Rightarrow> bool"
  en_relay_only :: "string \<Rightarrow> bool"
  en_sends :: "string \<Rightarrow> delivery"
  en_rotates :: bool
  en_exports :: bool
  en_rotation :: bool
  en_restored :: bool
  en_known :: "string \<Rightarrow> bool"
  en_followers :: "follower list"
  en_mirror :: "seat_space option"
  en_gfs_seats :: bool
  en_in_grace :: bool
  en_gfs_listed :: bool

datatype seat_error =
    MissingKey
  | BadValue
  | NotPermitted
  | UserBannedError
  | BannedFromSpaceError
  | UserAlreadyMemberError
  | AlreadyMemberError
  | AgeRestrictedError
  | InviteOnlyError
  | InviteExpiredError
  | JoinRequestSentError string
  | JoinRequestHandledError
  | ReviewRequiredError "string list"
  | AreaRefusedError
  | SubscribeNotAllowedError
  | HouseholdUpgradeRequiredError
  | OwnerTransferSelfError
  | OwnerTransferNotLocalError
  | OwnerTransferFollowerError
  | OwnerStillActiveError
  | HostTooOldError
  | HostUnreachableError
  | GfsRefusedError
  | AssertionError

text \<open>\<open>except SpacePermissionError\<close>: the class and its subclasses.\<close>

fun is_permission_error :: "seat_error \<Rightarrow> bool" where
  "is_permission_error NotPermitted = True"
| "is_permission_error UserBannedError = True"
| "is_permission_error BannedFromSpaceError = True"
| "is_permission_error UserAlreadyMemberError = True"
| "is_permission_error AgeRestrictedError = True"
| "is_permission_error InviteOnlyError = True"
| "is_permission_error (JoinRequestSentError rid) = True"
| "is_permission_error AreaRefusedError = True"
| "is_permission_error SubscribeNotAllowedError = True"
| "is_permission_error HouseholdUpgradeRequiredError = True"
| "is_permission_error _ = False"

type_synonym 'a seat_action = "(seat_db, seat_error, 'a) action"

definition min_for_remote_admin_action :: nat where "min_for_remote_admin_action = 15"
definition min_for_space_admin_key_share :: nat where "min_for_space_admin_key_share = 22"
definition min_for_space_roster_gossip :: nat where "min_for_space_roster_gossip = 23"
definition min_for_remote_subscriber_role :: nat where "min_for_remote_subscriber_role = 30"
definition min_for_space_moderator_role :: nat where "min_for_space_moderator_role = 41"
definition min_for_space_authority_rotation :: nat where "min_for_space_authority_rotation = 44"
definition min_for_forwarded_role_change :: nat where "min_for_forwarded_role_change = 47"
definition min_for_member_gfs_publish :: nat where "min_for_member_gfs_publish = 49"

definition account_by_id :: "seat_env \<Rightarrow> string \<Rightarrow> (string \<times> account) option" where
  "account_by_id e user_id = find (\<lambda>(n, a). ac_id a = user_id) (en_accounts e)"

section \<open>Guards\<close>

definition require_space :: "seat_space seat_action" where
  "require_space = andthen (reads sd_space) (\<lambda>found. case found of
     None \<Rightarrow> raise MissingKey
   | Some sp \<Rightarrow> if ss_dissolved sp then raise MissingKey else ret sp)"

definition actor_or_raise :: "seat_env \<Rightarrow> string \<Rightarrow> account seat_action" where
  "actor_or_raise e username = (case map_of (en_accounts e) username of None \<Rightarrow> raise MissingKey | Some a \<Rightarrow> ret a)"

text \<open>\<open>assert actor is not None\<close>, where the code looks the actor up itself.\<close>

definition asserted_actor :: "seat_env \<Rightarrow> string \<Rightarrow> account seat_action" where
  "asserted_actor e username = (case map_of (en_accounts e) username of None \<Rightarrow> raise AssertionError | Some a \<Rightarrow> ret a)"

definition role_or_raise :: "string \<Rightarrow> space_role list \<Rightarrow> seat_row seat_action" where
  "role_or_raise user_id roles = andthen (reads (\<lambda>s. get_member s user_id)) (\<lambda>found. case found of
     None \<Rightarrow> raise NotPermitted
   | Some seat \<Rightarrow> if sr_role seat \<in> set roles then ret seat else raise NotPermitted)"

definition require_admin_or_owner :: "seat_env \<Rightarrow> string \<Rightarrow> seat_row seat_action" where
  "require_admin_or_owner e actor = andthen (actor_or_raise e actor) (\<lambda>a. role_or_raise (ac_id a) settings_authority_roles)"

text \<open>\<open>_require_owner\<close>, with the id of the actor's seat.\<close>

definition require_owner :: "seat_env \<Rightarrow> string \<Rightarrow> string seat_action" where
  "require_owner e actor = andthen (actor_or_raise e actor) (\<lambda>a.
     andthen (role_or_raise (ac_id a) [OWNER]) (\<lambda>_. ret (ac_id a)))"

definition hosted_elsewhere :: "seat_env \<Rightarrow> seat_space \<Rightarrow> bool" where
  "hosted_elsewhere e sp \<longleftrightarrow> ss_host sp \<noteq> en_own e"

definition executes_locally_as_delegated_admin :: "seat_env \<Rightarrow> seat_space \<Rightarrow> bool" where
  "executes_locally_as_delegated_admin e sp \<longleftrightarrow>
     ss_host sp \<noteq> [] \<and> ss_host sp \<noteq> en_own e \<and> sf_delegated_admin_authority (ss_features sp) \<and> ss_seed sp"

definition age_allowed :: "seat_env \<Rightarrow> nat \<Rightarrow> string \<Rightarrow> bool" where
  "age_allowed e min_age user_id \<longleftrightarrow>
     min_age = 0 \<or> (case en_declared_age e user_id of None \<Rightarrow> True | Some age \<Rightarrow> min_age \<le> age)"

definition check_space_age_gate :: "seat_env \<Rightarrow> string \<Rightarrow> unit seat_action" where
  "check_space_age_gate e user_id = andthen (reads sd_space) (\<lambda>found.
     raise_if (\<not> age_allowed e (case found of None \<Rightarrow> 0 | Some sp \<Rightarrow> ss_min_age sp) user_id) AgeRestrictedError)"

section \<open>Forwarding to the host\<close>

definition forward_admin_action_if_remote :: "seat_env \<Rightarrow> seat_space \<Rightarrow> string \<Rightarrow> forwarded_action \<Rightarrow> bool seat_action" where
  "forward_admin_action_if_remote e sp actor action =
     (if ss_host sp = [] \<or> ss_host sp = en_own e then ret False
      else afterwards (raise_if (en_version e (ss_host sp) < min_for_remote_admin_action) NotPermitted)
          (andthen (actor_or_raise e actor) (\<lambda>a.
           afterwards (writes (announce (ActionForwarded (ss_host sp) (ac_id a) action)))
          (afterwards (raise_if (en_sends e (ss_host sp) = LOST) HostUnreachableError)
          (ret True)))))"

definition forward_role_change :: "seat_env \<Rightarrow> seat_space \<Rightarrow> string \<Rightarrow> string \<Rightarrow> string \<Rightarrow> space_role \<Rightarrow> string \<Rightarrow> unit seat_action" where
  "forward_role_change e sp actor i user_id from_role role =
     afterwards (raise_if (ss_host sp = []) HostUnreachableError)
    (afterwards (raise_if (en_version e (ss_host sp) < min_for_forwarded_role_change) HostTooOldError)
    (andthen (forward_admin_action_if_remote e sp actor (AskRole i user_id (role_value from_role) role)) (\<lambda>_. ret ())))"

section \<open>The content key\<close>

definition member_households :: "seat_env \<Rightarrow> nat \<Rightarrow> seat_db \<Rightarrow> string list" where
  "member_households e min_version s =
     filter (\<lambda>i. i \<noteq> en_own e \<and> (min_version = 0 \<or> min_version \<le> en_member_version e i)) (list_member_instance_ids s)"

text \<open>The fresh epoch, if it can be shipped, after \<open>rotate_epoch\<close> and \<open>export_current_key\<close>.\<close>

definition fresh_content_key :: "seat_env \<Rightarrow> seat_db \<Rightarrow> nat option \<times> seat_db" where
  "fresh_content_key e s =
     (if \<not> en_rotates e then (None, s)
      else let epoch = (case sd_epoch s of None \<Rightarrow> 0 | Some n \<Rightarrow> Suc n)
           in (if en_exports e then Some epoch else None, s\<lparr>sd_epoch := Some epoch\<rparr>))"

text \<open>
  \<open>reconcile_space_everywhere\<close>: the current key is sealed to every follower the connection servers list whose key-wrap
  key is bound to its identity and who has not got this epoch from this process yet, if the space is publicly readable
  and its seed at hand.  Nobody asks whether the follower is a member household, or was one.
\<close>

definition publicly_readable :: "seat_space \<Rightarrow> bool" where
  "publicly_readable sp \<longleftrightarrow> ss_tier sp \<in> set public_tiers \<and> sf_allow_subscribers (ss_features sp)"

definition due_followers :: "seat_env \<Rightarrow> nat \<Rightarrow> string list" where
  "due_followers e epoch = map fo_household (filter (\<lambda>f. fo_bound f \<and> fo_sealed f \<noteq> Some epoch) (en_followers e))"

definition reseal_followers :: "seat_env \<Rightarrow> seat_db \<Rightarrow> seat_db" where
  "reseal_followers e s = (case (sd_space s, sd_epoch s) of
     (Some sp, Some epoch) \<Rightarrow>
       if publicly_readable sp \<and> ss_seed sp \<and> en_exports e \<and> due_followers e epoch \<noteq> []
       then announce (KeySealed epoch (due_followers e epoch)) s else s
   | _ \<Rightarrow> s)"

text \<open>
  \<open>_rotate_and_distribute_space_key\<close>: the connection servers are told of the epoch (the call is logged, what it sends
  carries no key), the fresh key goes to the member households the space has at this moment, and the followers get
  theirs sealed.
\<close>

definition rotate_and_distribute_space_key :: "seat_env \<Rightarrow> seat_db \<Rightarrow> seat_db" where
  "rotate_and_distribute_space_key e s = (case fresh_content_key e s of
     (None, s1) \<Rightarrow> s1
   | (Some epoch, s1) \<Rightarrow>
       reseal_followers e (announce (Rekeyed epoch (member_households e 0 s1)) (announce EpochAnnounced s1)))"

section \<open>The authority rotation\<close>

text \<open>
  \<open>SpaceAuthorityRotationService.rotate\<close> (\<open>services/space_authority_rotation_service.py\<close>).  The seed is handed to an
  admin household under the conditions of \<open>share_admin_signing_seed\<close>; within the rotation the seed is at hand.
\<close>

definition seed_share_refused :: "seat_env \<Rightarrow> seat_space \<Rightarrow> string \<Rightarrow> seat_db \<Rightarrow> bool" where
  "seed_share_refused e sp i s \<longleftrightarrow>
     en_relay_only e i \<or> ss_host sp \<noteq> en_own e \<or> en_version e i < min_for_space_admin_key_share
     \<or> (0 < ss_authority_epoch (case sd_space s of None \<Rightarrow> sp | Some now \<Rightarrow> now)
        \<and> en_version e i < min_for_space_authority_rotation)"

definition hand_over_seed :: "string \<Rightarrow> seat_db \<Rightarrow> seat_db" where
  "hand_over_seed i s = announce (SeedShared i) (on_space (\<lambda>x. x\<lparr>ss_seed_shared := Some (ss_authority_epoch x)\<rparr>) s)"

definition share_seed_with_admins :: "seat_env \<Rightarrow> seat_space \<Rightarrow> seat_db \<Rightarrow> seat_db" where
  "share_seed_with_admins e sp s =
     fold (\<lambda>i t. if seed_share_refused e sp i t then t else hand_over_seed i t) (list_admin_instances s) s"

text \<open>\<open>_distribute\<close>: households of the list that still hold a live seat; those below v_44 get the key unsigned.\<close>

definition bundle_targets :: "seat_env \<Rightarrow> seat_db \<Rightarrow> string list" where
  "bundle_targets e s = filter (\<lambda>i. live_of_instance s i \<noteq> []) (member_households e 0 s)"

definition authority_messages :: "seat_env \<Rightarrow> nat \<Rightarrow> nat option \<Rightarrow> string \<Rightarrow> seat_event list" where
  "authority_messages e authority content i =
     (let aware = (min_for_space_authority_rotation \<le> en_version e i)
      in (if aware \<or> \<not> en_known e i then [AuthorityBundle i authority content] else [])
         @ (case content of Some n \<Rightarrow> if aware then [] else [OwnerRekey i n] | None \<Rightarrow> []))"

definition distribute_bundle :: "seat_env \<Rightarrow> nat \<Rightarrow> nat option \<Rightarrow> seat_db \<Rightarrow> seat_db" where
  "distribute_bundle e authority content s =
     fold announce (concat (map (authority_messages e authority content) (bundle_targets e s))) s"

definition refresh_gfs :: "seat_env \<Rightarrow> seat_db \<Rightarrow> seat_db" where
  "refresh_gfs e s = (case sd_space s of
     None \<Rightarrow> s
   | Some sp \<Rightarrow> if ss_tier sp \<in> set public_tiers then reseal_followers e (announce EpochAnnounced s) else s)"

definition rotate_authority :: "seat_env \<Rightarrow> bool \<Rightarrow> seat_db \<Rightarrow> seat_db" where
  "rotate_authority e share_seed s = (case sd_space s of
     None \<Rightarrow> s
   | Some sp \<Rightarrow>
       if \<not> en_rotation e \<or> ss_host sp \<noteq> en_own e then s
       else let authority = max (Suc (ss_authority_epoch sp)) (nat (en_now e));
                (content, s1) = fresh_content_key e (on_space (\<lambda>x. x\<lparr>ss_authority_epoch := authority, ss_seed := True\<rparr>) s);
                s2 = (if share_seed \<and> sf_delegated_admin_authority (ss_features sp) then share_seed_with_admins e sp s1 else s1)
            in refresh_gfs e (distribute_bundle e authority content s2))"

text \<open>\<open>_on_revoked\<close>: the handler of \<open>SpaceAdminAuthorityRevoked\<close>, which the bus runs before \<open>publish\<close> returns.\<close>

definition on_revoked :: "seat_env \<Rightarrow> string \<Rightarrow> seat_db \<Rightarrow> seat_db" where
  "on_revoked e i s = (case sd_space s of
     None \<Rightarrow> s
   | Some sp \<Rightarrow>
       if ss_host sp \<noteq> en_own e then s
       else if \<not> sf_delegated_admin_authority (ss_features sp) \<and> ss_seed_shared sp \<noteq> Some (ss_authority_epoch sp) then s
       else if \<exists>r \<in> set (live_of_instance s i). rr_role r = ADMIN then s
       else rotate_authority e (\<not> en_restored e) s)"

definition announce_revoked :: "seat_env \<Rightarrow> string \<Rightarrow> seat_db \<Rightarrow> seat_db" where
  "announce_revoked e i s = on_revoked e i (announce (AuthorityRevoked i) s)"

section \<open>Roster gossip\<close>

text \<open>
  \<open>ensure_space_seed\<close>: whether a seed is at hand afterwards.  On a rotated key the seed is re-minted by the authority
  rotation.
\<close>

definition has_seed :: "seat_db \<Rightarrow> bool" where
  "has_seed s \<longleftrightarrow> (case sd_space s of None \<Rightarrow> False | Some sp \<Rightarrow> ss_seed sp)"

definition ensure_space_seed :: "seat_env \<Rightarrow> bool seat_action" where
  "ensure_space_seed e = andthen (reads sd_space) (\<lambda>found. case found of
     None \<Rightarrow> raise MissingKey
   | Some sp \<Rightarrow>
       if ss_seed sp then ret True
       else if ss_host sp \<noteq> en_own e then ret False
       else if 0 < ss_authority_epoch sp then afterwards (writes (rotate_authority e True)) (reads has_seed)
       else afterwards (writes (on_space (ss_seed_update (\<lambda>_. True)))) (ret True))"

definition mirror_role :: "space_role \<Rightarrow> space_role" where
  "mirror_role role = (if role = OWNER then MEMBER else role)"

definition gossip_floor :: "space_role \<Rightarrow> nat" where
  "gossip_floor role = (if role \<in> {SUBSCRIBER, MODERATOR} then min_for_remote_subscriber_role else min_for_space_roster_gossip)"

definition send_roster_event :: "seat_env \<Rightarrow> member_event \<Rightarrow> seat_db \<Rightarrow> seat_db" where
  "send_roster_event e ev s =
     (let s1 = (if me_instance ev \<noteq> [] \<and> me_instance ev \<noteq> en_own e
                then snd (apply_member_event (en_now e) None (ev\<lparr>me_role := mirror_role (me_role ev)\<rparr>) s) else s)
      in announce (RosterSent (me_dead ev) (me_user ev) (me_instance ev) (me_role ev) (me_version ev)
           (member_households e (gossip_floor (me_role ev)) s1)) s1)"

definition emit_member_roster_gossip ::
  "seat_env \<Rightarrow> string \<Rightarrow> string \<Rightarrow> string option \<Rightarrow> string option \<Rightarrow> space_role \<Rightarrow> bool \<Rightarrow> unit seat_action" where
  "emit_member_roster_gossip e user_id i name pk role tombstoned =
     andthen (trying (ensure_space_seed e) (\<lambda>_. ret False)) (\<lambda>seed.
       if \<not> seed then ret ()
       else (\<lambda>s. case increment_roster_sequence s of
           (Inl _, s') \<Rightarrow> (Inr (), s')
         | (Inr version, s') \<Rightarrow> (Inr (), send_roster_event e
             \<lparr>me_user = user_id, me_instance = i, me_name = name, me_pk = pk,
              me_role = (if tombstoned \<and> role = MODERATOR then MEMBER else role), me_version = version, me_dead = tombstoned\<rparr> s')))"

text \<open>The gossip of a local user's seat carries the account's name and key when there is an account.\<close>

definition emit_local_gossip :: "seat_env \<Rightarrow> string \<Rightarrow> space_role \<Rightarrow> unit seat_action" where
  "emit_local_gossip e user_id role = emit_member_roster_gossip e user_id (en_own e)
     (map_option (ac_name \<circ> snd) (account_by_id e user_id))
     (case account_by_id e user_id of None \<Rightarrow> None | Some a \<Rightarrow> ac_pk (snd a)) role False"

section \<open>Writer entitlement\<close>

datatype writer_scope = SCOPE_COMMENT | SCOPE_WRITE

fun posting_roles :: "feature_access \<Rightarrow> space_role list" where
  "posting_roles ACC_OPEN = writer_roles"
| "posting_roles ACC_MODERATED = content_authority_roles"
| "posting_roles ACC_ADMIN_ONLY = settings_authority_roles"

definition household_seats :: "seat_env \<Rightarrow> string \<Rightarrow> seat_db \<Rightarrow> (string \<times> space_role) list" where
  "household_seats e i s =
     (if i = en_own e
      then map (\<lambda>(u, r). (u, sr_role r)) (filter (\<lambda>(u, r). account_by_id e u \<noteq> None) (sd_members s))
      else map (\<lambda>r. (rr_user r, rr_role r)) (live_of_instance s i))"

definition writer_entitlement :: "seat_env \<Rightarrow> seat_space \<Rightarrow> string \<Rightarrow> seat_db \<Rightarrow> (writer_scope \<times> string set) option" where
  "writer_entitlement e sp i s =
     (let seats = household_seats e i s;
          posting = posting_roles (sf_posts_access (ss_features sp));
          writing = filter (\<lambda>(u, role). role \<in> set posting) seats;
          commenting = filter (\<lambda>(u, role). role \<notin> set posting \<and> (role \<in> set writer_roles
             \<or> role = SUBSCRIBER \<and> sf_allow_subscriber_comment (ss_features sp))) seats
      in if writing \<noteq> [] then Some (SCOPE_WRITE, fst ` set writing)
         else if commenting \<noteq> [] then Some (SCOPE_COMMENT, fst ` set commenting)
         else None)"

fun scope_rank :: "(writer_scope \<times> string set) option \<Rightarrow> nat" where
  "scope_rank None = 0"
| "scope_rank (Some (SCOPE_COMMENT, _)) = 1"
| "scope_rank (Some (SCOPE_WRITE, _)) = 2"

fun scope_users :: "(writer_scope \<times> string set) option \<Rightarrow> string set" where
  "scope_users None = {}"
| "scope_users (Some (_, us)) = us"

definition scope_weakened :: "(writer_scope \<times> string set) option \<Rightarrow> (writer_scope \<times> string set) option \<Rightarrow> bool" where
  "scope_weakened before after \<longleftrightarrow>
     scope_rank after < scope_rank before
     \<or> scope_rank after = scope_rank before \<and> \<not> scope_users before \<subseteq> scope_users after"

text \<open>\<open>_writer_scope_weakened\<close>, against the space as it is stored now.\<close>

definition writer_scope_weakened :: "seat_env \<Rightarrow> string \<Rightarrow> (writer_scope \<times> string set) option \<Rightarrow> seat_db \<Rightarrow> bool" where
  "writer_scope_weakened e i before s = (case sd_space s of
     None \<Rightarrow> False
   | Some sp \<Rightarrow> scope_weakened before (writer_entitlement e sp i s))"

definition rotate_if_writer_scope_weakened ::
  "seat_env \<Rightarrow> string \<Rightarrow> (writer_scope \<times> string set) option \<Rightarrow> bool \<Rightarrow> bool seat_action" where
  "rotate_if_writer_scope_weakened e i before authority_rotation_follows =
     andthen (reads (writer_scope_weakened e i before)) (\<lambda>weakened.
       if \<not> weakened \<or> authority_rotation_follows then ret False
       else afterwards (writes (rotate_and_distribute_space_key e)) (ret True))"

definition authority_rotation_follows :: "seat_env \<Rightarrow> seat_space \<Rightarrow> string \<Rightarrow> seat_db \<Rightarrow> bool" where
  "authority_rotation_follows e sp i s \<longleftrightarrow>
     ss_host sp = en_own e
     \<and> (\<forall>r \<in> set (live_of_instance s i). rr_role r \<noteq> ADMIN)
     \<and> (sf_delegated_admin_authority (ss_features sp)
        \<or> (case sd_space s of None \<Rightarrow> False | Some now \<Rightarrow> ss_seed_shared now = Some (ss_authority_epoch sp)))"

definition publish_admin_revoked :: "seat_env \<Rightarrow> string \<Rightarrow> bool \<Rightarrow> seat_db \<Rightarrow> seat_db" where
  "publish_admin_revoked e i deferred s =
     (let s1 = announce_revoked e i s
      in if deferred \<and> sd_epoch s1 = sd_epoch s then rotate_and_distribute_space_key e s1 else s1)"

end
