(* ===== verification/Space_Seat_Changes.thy ===== *)
theory Space_Seat_Changes
  imports Space_Seat_Roles
begin

text \<open>
  Changes to the seats a space already has (\<open>services/space_service.py\<close>): role changes of local and remote members,
  moves of ownership, removals, bans, a household that leaves, and the forwarded actions of remote admins.
\<close>

section \<open>Role changes\<close>

fun role_change_event_type :: "space_role \<Rightarrow> space_role \<Rightarrow> role_change_kind" where
  "role_change_event_type old new =
     (if new = ADMIN then ADMIN_GRANTED else if old = ADMIN then ADMIN_REVOKED else ROLE_CHANGED)"

definition apply_local_role :: "seat_env \<Rightarrow> seat_space \<Rightarrow> string \<Rightarrow> space_role \<Rightarrow> space_role \<Rightarrow> unit seat_action" where
  "apply_local_role e sp user_id old role =
     andthen (reads (writer_entitlement e sp (en_own e))) (\<lambda>before.
     afterwards (writes (set_member_role user_id role))
    (afterwards (writes (announce (RoleEvent (role_change_event_type old role) user_id role (ss_config_sequence sp))))
    (afterwards (emit_local_gossip e user_id role)
    (andthen (rotate_if_writer_scope_weakened e (en_own e) before False) (\<lambda>_. ret ())))))"

definition check_role_change :: "space_role \<Rightarrow> space_role \<Rightarrow> string \<Rightarrow> unit seat_action" where
  "check_role_change actor target role =
     raise_if (target = OWNER \<or> \<not> role_change_allowed (role_value actor) (role_value target) role) NotPermitted"

text \<open>\<open>set_role\<close>: whether the change was forwarded.  An unknown role name is refused by the matrix.\<close>

definition set_role :: "seat_env \<Rightarrow> string \<Rightarrow> string \<Rightarrow> string \<Rightarrow> bool seat_action" where
  "set_role e actor user_id role =
     andthen require_space (\<lambda>sp.
     afterwards (raise_if (role = role_value OWNER) BadValue)
    (andthen (require_admin_or_owner e actor) (\<lambda>seat.
     andthen (reads (\<lambda>s. get_member s user_id)) (\<lambda>found. case found of
       None \<Rightarrow> raise MissingKey
     | Some target \<Rightarrow>
         afterwards (check_role_change (sr_role seat) (sr_role target) role)
        (if hosted_elsewhere e sp then
           if role_value (sr_role target) = role then ret False
           else afterwards (forward_role_change e sp actor (en_own e) user_id (sr_role target) role) (ret True)
         else afterwards (apply_local_role e sp user_id (sr_role target) (the (space_role role))) (ret False))))))"

definition share_admin_signing_seed :: "seat_env \<Rightarrow> seat_space \<Rightarrow> string \<Rightarrow> unit seat_action" where
  "share_admin_signing_seed e sp i = andthen (reads (seed_share_refused e sp i)) (\<lambda>refused.
     if refused then ret ()
     else andthen (ensure_space_seed e) (\<lambda>seed. doing_if seed (writes (hand_over_seed i))))"

definition apply_remote_role :: "seat_env \<Rightarrow> seat_space \<Rightarrow> remote_row \<Rightarrow> space_role \<Rightarrow> unit seat_action" where
  "apply_remote_role e sp target role =
     (let i = rr_instance target; u = rr_user target; admin_ended = (rr_role target = ADMIN \<and> role \<noteq> ADMIN) in
     andthen (reads (writer_entitlement e sp i)) (\<lambda>before.
     afterwards (writes (set_remote_role i u role))
    (afterwards (writes (announce (RoleEvent (role_change_event_type (rr_role target) role) u role (ss_config_sequence sp))))
    (afterwards (writes (\<lambda>s. announce (RoleBroadcast u i role (member_households e 0 s)) s))
    (afterwards (emit_member_roster_gossip e u i (rr_name target) (rr_pk target) role False)
    (andthen (reads (\<lambda>s. admin_ended \<and> authority_rotation_follows e sp i s)) (\<lambda>follows.
     andthen (reads (\<lambda>s. follows \<and> writer_scope_weakened e i before s)) (\<lambda>deferred.
     andthen (rotate_if_writer_scope_weakened e i before follows) (\<lambda>rotated.
     afterwards (writes (\<lambda>s. if \<not> rotated \<and> writer_entitlement e sp i s \<noteq> before then announce (RosterSnapshot i) s else s))
    (afterwards (doing_if (role = ADMIN \<and> sf_delegated_admin_authority (ss_features sp) \<and> ss_host sp = en_own e)
       (share_admin_signing_seed e sp i))
    (doing_if admin_ended (writes (publish_admin_revoked e i deferred)))))))))))))"

definition remote_assignable_roles :: "space_role list" where
  "remote_assignable_roles = [ADMIN, MODERATOR, MEMBER]"

definition set_remote_member_role :: "seat_env \<Rightarrow> string \<Rightarrow> string \<Rightarrow> string \<Rightarrow> string \<Rightarrow> bool seat_action" where
  "set_remote_member_role e actor i user_id role =
     afterwards (raise_if (role \<notin> role_value ` set remote_assignable_roles) BadValue)
    (andthen require_space (\<lambda>sp.
     andthen (require_admin_or_owner e actor) (\<lambda>seat.
     andthen (reads (\<lambda>s. get_remote s i user_id)) (\<lambda>found. case found of
       None \<Rightarrow> raise MissingKey
     | Some target \<Rightarrow>
         if role_value (rr_role target) = role then ret False
         else afterwards (check_role_change (sr_role seat) (rr_role target) role)
        (if hosted_elsewhere e sp then
           afterwards (raise_if (i = ss_host sp \<and> ss_owner_seat sp = Some user_id) NotPermitted)
          (afterwards (forward_role_change e sp actor i user_id (rr_role target) role) (ret True))
         else
           afterwards (raise_if (role = role_value MODERATOR \<and> en_version e i < min_for_space_moderator_role)
             HouseholdUpgradeRequiredError)
          (afterwards (apply_remote_role e sp target (the (space_role role))) (ret False)))))))"

section \<open>Ownership\<close>

definition require_hosted_here :: "seat_env \<Rightarrow> seat_space \<Rightarrow> unit seat_action" where
  "require_hosted_here e sp = raise_if (ss_host sp \<noteq> en_own e) NotPermitted"

definition live_remote_seat :: "seat_db \<Rightarrow> string \<Rightarrow> remote_row option" where
  "live_remote_seat s user_id = find (\<lambda>r. rr_user r = user_id) (list_for_space s)"

text \<open>\<open>_check_new_owner\<close>: the username of the account that may own the space.\<close>

definition check_new_owner :: "seat_env \<Rightarrow> seat_space \<Rightarrow> string \<Rightarrow> string seat_action" where
  "check_new_owner e sp user_id = andthen (reads (\<lambda>s. (get_member s user_id, live_remote_seat s user_id))) (\<lambda>(found, remote).
     case found of
       None \<Rightarrow> raise (if remote \<noteq> None then OwnerTransferNotLocalError else MissingKey)
     | Some seat \<Rightarrow>
         if sr_role seat = SUBSCRIBER then raise OwnerTransferFollowerError
         else if sr_role seat = OWNER then raise OwnerTransferSelfError
         else case account_by_id e user_id of
           None \<Rightarrow> raise OwnerTransferNotLocalError
         | Some (username, a) \<Rightarrow>
             if \<not> ac_active a then raise OwnerTransferNotLocalError
             else if ss_tier sp \<in> set public_tiers \<and> en_declared_age e user_id \<noteq> None then raise NotPermitted
             else ret username)"

definition move_ownership :: "string option \<Rightarrow> space_role \<Rightarrow> string \<Rightarrow> string \<Rightarrow> seat_db \<Rightarrow> seat_db" where
  "move_ownership outgoing outgoing_role new_owner username s =
     (let s1 = (case outgoing of None \<Rightarrow> s | Some u \<Rightarrow> set_member_role u outgoing_role s);
          s2 = increment_config_sequence (record_owner_change username (set_member_role new_owner OWNER s1))
      in announce (OwnershipTransferred new_owner
           (case sd_space s2 of None \<Rightarrow> 0 | Some sp \<Rightarrow> ss_config_sequence sp)) s2)"

definition transfer_ownership :: "seat_env \<Rightarrow> string \<Rightarrow> string \<Rightarrow> unit seat_action" where
  "transfer_ownership e actor to_user_id =
     andthen require_space (\<lambda>sp.
     andthen (require_owner e actor) (\<lambda>outgoing.
     afterwards (require_hosted_here e sp)
    (afterwards (raise_if (to_user_id = outgoing) OwnerTransferSelfError)
    (andthen (check_new_owner e sp to_user_id) (\<lambda>username.
     writes (move_ownership (Some outgoing) ADMIN to_user_id username))))))"

definition owner_seat :: "seat_db \<Rightarrow> string option" where
  "owner_seat s = map_option fst (find (\<lambda>(u, r). sr_role r = OWNER) (sd_members s))"

definition reassign_orphaned_ownership :: "seat_env \<Rightarrow> string \<Rightarrow> string \<Rightarrow> unit seat_action" where
  "reassign_orphaned_ownership e actor to_user_id =
     andthen (actor_or_raise e actor) (\<lambda>a.
     afterwards (raise_if (\<not> ac_admin a) NotPermitted)
    (andthen require_space (\<lambda>sp.
     afterwards (require_hosted_here e sp)
    (afterwards (raise_if (case map_of (en_accounts e) (ss_owner sp) of None \<Rightarrow> False | Some o' \<Rightarrow> ac_active o')
       OwnerStillActiveError)
    (andthen (check_new_owner e sp to_user_id) (\<lambda>username.
     writes (\<lambda>s. move_ownership (owner_seat s) MEMBER to_user_id username s)))))))"

section \<open>Removals\<close>

definition notify_host_of_leave :: "seat_env \<Rightarrow> seat_space \<Rightarrow> string \<Rightarrow> seat_db \<Rightarrow> seat_db" where
  "notify_host_of_leave e sp user_id s =
     (if ss_host sp = [] \<or> en_version e (ss_host sp) < min_for_member_gfs_publish then s
      else announce (LeaveNotice (ss_host sp) user_id) s)"

definition remove_member :: "seat_env \<Rightarrow> string \<Rightarrow> string \<Rightarrow> unit seat_action" where
  "remove_member e actor user_id =
     andthen require_space (\<lambda>sp.
     andthen (actor_or_raise e actor) (\<lambda>a.
     let is_self = (ac_id a = user_id) in
     afterwards (doing_if (\<not> is_self) (andthen (require_admin_or_owner e actor) (\<lambda>_. ret ())))
    (if \<not> is_self \<and> \<not> executes_locally_as_delegated_admin e sp \<and> ss_host sp \<noteq> [] \<and> ss_host sp \<noteq> en_own e
     then writes (announce (KickForwarded (ss_host sp) (ac_id a) user_id))
     else andthen (reads (\<lambda>s. get_member s user_id)) (\<lambda>found. case found of
       None \<Rightarrow> ret ()
     | Some target \<Rightarrow>
         afterwards (raise_if (sr_role target = OWNER) NotPermitted)
        (afterwards (writes (announce (MemberLeft user_id (sr_role target)) \<circ> delete_member user_id))
        (afterwards (emit_member_roster_gossip e user_id (en_own e) None None (sr_role target) True)
        (afterwards (writes (announce (MembershipRecorded user_id ''removed'' (ac_id a))))
        (afterwards (doing_if (is_self \<and> hosted_elsewhere e sp) (writes (notify_host_of_leave e sp user_id)))
        (writes (rotate_and_distribute_space_key e)))))))))) "

text \<open>\<open>_send_invite_envelope\<close>: anything but a confirmed delivery raises, an envelope parked in the outbox included.\<close>

definition send_invite_envelope :: "seat_env \<Rightarrow> string \<Rightarrow> seat_event \<Rightarrow> unit seat_action" where
  "send_invite_envelope e i ev =
     afterwards (writes (announce ev)) (raise_if (en_sends e i \<noteq> ARRIVED) NotPermitted)"

definition remove_remote_member :: "seat_env \<Rightarrow> string \<Rightarrow> string \<Rightarrow> string \<Rightarrow> unit seat_action" where
  "remove_remote_member e actor i user_id =
     andthen require_space (\<lambda>sp.
     andthen (require_admin_or_owner e actor) (\<lambda>_.
     andthen (reads (\<lambda>s. get_remote s i user_id)) (\<lambda>removed.
     andthen (reads (\<lambda>s. if removed \<noteq> None then removed else get_including_tombstones s user_id)) (\<lambda>last.
     afterwards (writes (announce (RemoteSeatEnded i user_id) \<circ> remove_remote (en_now e) i user_id))
    (andthen (reads (\<lambda>s. live_of_instance s i \<noteq> [])) (\<lambda>still_present.
     afterwards (doing_if (\<not> still_present) (writes (remove_space_instance i)))
    (afterwards (send_invite_envelope e i (RemovedNotice i user_id))
    (afterwards (case removed of
        None \<Rightarrow> emit_member_roster_gossip e user_id i None None MEMBER True
      | Some r \<Rightarrow> emit_member_roster_gossip e user_id i (rr_name r) (rr_pk r) (rr_role r) True)
    (afterwards (writes (rotate_and_distribute_space_key e))
    (afterwards (doing_if (case last of None \<Rightarrow> False
        | Some l \<Rightarrow> rr_instance l = i \<and> rr_role l = ADMIN \<and> ss_host sp = en_own e) (writes (announce_revoked e i)))
    (doing_if (\<not> still_present) (writes (announce (SessionChecked i))))))))))))))"

definition on_remote_member_left :: "seat_env \<Rightarrow> string \<Rightarrow> string option \<Rightarrow> bool seat_action" where
  "on_remote_member_left e i user_id = andthen (reads sd_space) (\<lambda>found. case found of
     None \<Rightarrow> ret False
   | Some sp \<Rightarrow>
       if en_own e = [] \<or> ss_host sp \<noteq> en_own e then ret False
       else andthen (reads (\<lambda>s. live_of_instance s i)) (\<lambda>live.
       let ending = filter (\<lambda>r. user_id = None \<or> user_id = Some (rr_user r)) live;
           admin_ended = (\<exists>r \<in> set ending. rr_role r = ADMIN) in
       if ending = [] then afterwards (doing_if (live = []) (writes (remove_space_instance i))) (ret True)
       else andthen (reads (writer_entitlement e sp i)) (\<lambda>before.
       afterwards (for_each (\<lambda>r. writes (remove_remote (en_now e) i (rr_user r))) ending)
      (andthen (reads (\<lambda>s. live_of_instance s i \<noteq> [])) (\<lambda>remaining.
       afterwards (doing_if (\<not> remaining) (writes (remove_space_instance i)))
      (afterwards (for_each (\<lambda>r. emit_member_roster_gossip e (rr_user r) i (rr_name r) (rr_pk r) (rr_role r) True) ending)
      (andthen (reads (\<lambda>s. admin_ended \<and> authority_rotation_follows e sp i s)) (\<lambda>follows.
       andthen (rotate_if_writer_scope_weakened e i before follows) (\<lambda>_.
       afterwards (doing_if admin_ended (writes (\<lambda>s. publish_admin_revoked e i
         (follows \<and> writer_scope_weakened e i before s) s)))
      (afterwards (doing_if (\<not> remaining) (writes (announce (SessionChecked i)))) (ret True)))))))))))"

section \<open>Bans\<close>

definition ban :: "seat_env \<Rightarrow> string \<Rightarrow> string \<Rightarrow> unit seat_action" where
  "ban e actor user_id =
     andthen require_space (\<lambda>sp.
     andthen (require_admin_or_owner e actor) (\<lambda>_.
     andthen (if executes_locally_as_delegated_admin e sp then ret False
              else forward_admin_action_if_remote e sp actor (AskBan user_id)) (\<lambda>forwarded.
     if forwarded then ret ()
     else andthen (reads (\<lambda>s. get_member s user_id)) (\<lambda>target.
     afterwards (raise_if (case target of None \<Rightarrow> False | Some t \<Rightarrow> sr_role t = OWNER) NotPermitted)
    (andthen (asserted_actor e actor) (\<lambda>a.
     andthen (reads (\<lambda>s. if target = None then live_remote_seat s user_id else None)) (\<lambda>remote_seat.
     andthen (reads (\<lambda>s. if target = None \<and> remote_seat = None then get_including_tombstones s user_id else None)) (\<lambda>stale.
     afterwards (writes (announce (MemberBanned user_id (ss_config_sequence sp)) \<circ> ban_member user_id))
    (case remote_seat of
       Some r \<Rightarrow> remove_remote_member e actor (rr_instance r) user_id
     | None \<Rightarrow> (case stale of
         Some r \<Rightarrow>
           afterwards (emit_member_roster_gossip e user_id (rr_instance r) (rr_name r) (rr_pk r) (rr_role r) True)
             (doing_if (rr_role r = ADMIN \<and> ss_host sp = en_own e) (writes (announce_revoked e (rr_instance r))))
       | None \<Rightarrow>
           afterwards (emit_member_roster_gossip e user_id (en_own e) None None
             (case target of None \<Rightarrow> MEMBER | Some t \<Rightarrow> sr_role t) True)
          (afterwards (writes (announce (MembershipRecorded user_id ''blocked'' (ac_id a))))
          (writes (rotate_and_distribute_space_key e)))))))))))))"

definition unban :: "seat_env \<Rightarrow> string \<Rightarrow> string \<Rightarrow> unit seat_action" where
  "unban e actor user_id =
     andthen require_space (\<lambda>sp.
     andthen (require_admin_or_owner e actor) (\<lambda>_.
     andthen (forward_admin_action_if_remote e sp actor (AskUnban user_id)) (\<lambda>forwarded.
     doing_if (\<not> forwarded)
       (writes (announce (MemberUnbanned user_id (ss_config_sequence sp)) \<circ> unban_member user_id)))))"

end
