(* ===== verification/Space_Seat_Joins.thy ===== *)
theory Space_Seat_Joins
  imports Space_Seat_Changes
begin

text \<open>
  The ways a local user gets a seat (\<open>services/space_service.py\<close>): the creation of the space, a direct add, the
  automatic seats of a household space, an invitation, an invite token, a join request and its answer, a follow; and
  the way a follower leaves.
\<close>

section \<open>Seating\<close>

definition seat_local_member :: "seat_env \<Rightarrow> string \<Rightarrow> space_role \<Rightarrow> string \<Rightarrow> bool \<Rightarrow> seat_row seat_action" where
  "seat_local_member e user_id role actor_id automatic =
     afterwards (writes (announce (MemberJoined user_id role automatic) \<circ> save_member user_id (new_seat role)))
    (afterwards (emit_local_gossip e user_id role)
    (afterwards (writes (announce (MembershipRecorded user_id ''joined'' actor_id))) (ret (new_seat role))))"

text \<open>
  \<open>require_local_seat\<close>: \<open>None\<close> where there is no local community to check; a refusal is raised.  The budget a
  person's check spends is part of the verdict.
\<close>

definition hosted_local_area :: "seat_env \<Rightarrow> seat_space \<Rightarrow> bool" where
  "hosted_local_area e sp \<longleftrightarrow> en_own e \<noteq> [] \<and> ss_host sp = en_own e \<and> ss_area sp"

definition require_local_seat :: "seat_env \<Rightarrow> seat_space \<Rightarrow> eligibility option seat_action" where
  "require_local_seat e sp =
     (if \<not> hosted_local_area e sp then ret None
      else case en_verdict e of None \<Rightarrow> raise AreaRefusedError | Some v \<Rightarrow> ret (Some v))"

definition file_local_join_request :: "seat_env \<Rightarrow> string \<Rightarrow> eligibility option \<Rightarrow> string seat_action" where
  "file_local_join_request e user_id v =
     afterwards (writes (announce (JoinRequested user_id (en_fresh e)) \<circ> save_join_request (en_fresh e) user_id None None v))
       (ret (en_fresh e))"

definition seat_or_review :: "seat_env \<Rightarrow> seat_space \<Rightarrow> string \<Rightarrow> unit seat_action" where
  "seat_or_review e sp user_id =
     (if \<not> hosted_local_area e sp then ret ()
      else andthen (reads (\<lambda>s. pending_join_request_id s user_id None)) (\<lambda>pending. case pending of
        Some rid \<Rightarrow> raise (JoinRequestSentError rid)
      | None \<Rightarrow> andthen (require_local_seat e sp) (\<lambda>v.
          if v = Some AREA_EDGE
          then andthen (file_local_join_request e user_id v) (\<lambda>rid. raise (JoinRequestSentError rid))
          else ret ())))"

definition add_member :: "seat_env \<Rightarrow> string \<Rightarrow> string \<Rightarrow> space_role \<Rightarrow> seat_row seat_action" where
  "add_member e actor user_id role =
     andthen require_space (\<lambda>sp.
     andthen (require_admin_or_owner e actor) (\<lambda>_.
     andthen (reads (\<lambda>s. is_banned s user_id)) (\<lambda>banned.
     afterwards (raise_if banned UserBannedError)
    (afterwards (check_space_age_gate e user_id)
    (andthen (require_local_seat e sp) (\<lambda>_.
     andthen (actor_or_raise e actor) (\<lambda>a.
     seat_local_member e user_id role (ac_id a) False)))))))"

definition seat_household_members :: "seat_env \<Rightarrow> seat_space \<Rightarrow> string \<Rightarrow> string list option \<Rightarrow> string list seat_action" where
  "seat_household_members e sp actor_id only =
     (if ss_tier sp \<noteq> HOUSEHOLD_SPACE \<or> ss_host sp \<noteq> en_own e \<or> ss_dissolved sp then ret []
      else gather (\<lambda>(n, a). let u = ac_id a in
        andthen (reads (\<lambda>s. get_member s u \<noteq> None \<or> is_banned s u
          \<or> \<not> age_allowed e (case sd_space s of None \<Rightarrow> 0 | Some now \<Rightarrow> ss_min_age now) u)) (\<lambda>skipped.
        if \<not> ac_active a \<or> (case only of None \<Rightarrow> False | Some us \<Rightarrow> u \<notin> set us) \<or> skipped then ret None
        else afterwards (seat_local_member e u MEMBER actor_id True) (ret (Some u)))) (en_accounts e))"

definition seat_provisioned_user :: "seat_env \<Rightarrow> string \<Rightarrow> unit seat_action" where
  "seat_provisioned_user e user_id = andthen (reads sd_space) (\<lambda>found. case found of
     None \<Rightarrow> ret ()
   | Some sp \<Rightarrow> doing_if (ss_tier sp = HOUSEHOLD_SPACE \<and> \<not> ss_dissolved sp)
       (trying (andthen (seat_household_members e sp user_id (Some [user_id])) (\<lambda>_. ret ())) (\<lambda>_. ret ())))"

text \<open>The seats of a fresh space: the last statements of \<open>create_space\<close>.\<close>

definition create_space_seats :: "seat_env \<Rightarrow> seat_space \<Rightarrow> string \<Rightarrow> unit seat_action" where
  "create_space_seats e sp owner_id =
     afterwards (writes (\<lambda>s. s\<lparr>sd_space := Some (sp\<lparr>ss_seed := True\<rparr>)\<rparr>))
    (afterwards (writes (add_space_instance (en_own e) \<circ> save_member owner_id (new_seat OWNER)))
    (afterwards (doing_if (ss_tier sp \<in> set public_tiers)
       (writes (\<lambda>s. s\<lparr>sd_epoch := (case sd_epoch s of None \<Rightarrow> Some 0 | Some n \<Rightarrow> Some n)\<rparr>)))
    (andthen (seat_household_members e sp owner_id None) (\<lambda>_. ret ()))))"

section \<open>Invitations of local users\<close>

definition invite_local_user :: "seat_env \<Rightarrow> string \<Rightarrow> string \<Rightarrow> string seat_action" where
  "invite_local_user e actor user_id =
     andthen require_space (\<lambda>sp.
     andthen (require_admin_or_owner e actor) (\<lambda>_.
     andthen (reads (\<lambda>s. (is_banned s user_id, get_member s user_id \<noteq> None))) (\<lambda>(banned, seated).
     afterwards (raise_if banned UserBannedError)
    (afterwards (raise_if seated UserAlreadyMemberError)
    (afterwards (check_space_age_gate e user_id)
    (andthen (require_local_seat e sp) (\<lambda>_.
     andthen (reads (\<lambda>s. pending_invite s user_id)) (\<lambda>pending. case pending of
       Some i \<Rightarrow> ret i
     | None \<Rightarrow> andthen (actor_or_raise e actor) (\<lambda>a.
         afterwards (writes (announce (InviteCreated (en_fresh e) user_id) \<circ> save_invitation (en_fresh e) user_id (ac_id a)))
           (ret (en_fresh e)))))))))))"

definition own_invitation :: "string \<Rightarrow> string \<Rightarrow> invitation_row seat_action" where
  "own_invitation i user_id = andthen (reads (\<lambda>s. map_of (sd_invitations s) i)) (\<lambda>found. case found of
     None \<Rightarrow> raise MissingKey
   | Some row \<Rightarrow>
       afterwards (raise_if (iv_user row \<noteq> user_id) NotPermitted)
      (afterwards (raise_if (iv_instance row \<noteq> None) NotPermitted) (ret row)))"

definition accept_local_invite :: "seat_env \<Rightarrow> string \<Rightarrow> string \<Rightarrow> seat_row seat_action" where
  "accept_local_invite e i user_id =
     andthen (own_invitation i user_id) (\<lambda>row.
     afterwards (raise_if (iv_status row \<noteq> ROW_PENDING) NotPermitted)
    (andthen require_space (\<lambda>sp.
     andthen (reads (\<lambda>s. is_banned s user_id)) (\<lambda>banned.
     if banned then afterwards (writes (update_invitation_status i ROW_DECLINED)) (raise BannedFromSpaceError)
     else afterwards (check_space_age_gate e user_id)
    (afterwards (seat_or_review e sp user_id)
    (afterwards (writes (announce (MemberJoined user_id MEMBER False) \<circ> announce (InviteAnswered user_id True)
       \<circ> update_invitation_status i ROW_ACCEPTED \<circ> save_member user_id (new_seat MEMBER)))
    (ret (new_seat MEMBER))))))))"

definition decline_local_invite :: "string \<Rightarrow> string \<Rightarrow> unit seat_action" where
  "decline_local_invite i user_id =
     andthen (own_invitation i user_id) (\<lambda>row. doing_if (iv_status row = ROW_PENDING)
       (writes (announce (InviteAnswered user_id False) \<circ> update_invitation_status i ROW_DECLINED)))"

section \<open>Invite tokens\<close>

definition file_admin_elevation :: "seat_env \<Rightarrow> string \<Rightarrow> string option \<Rightarrow> unit seat_action" where
  "file_admin_elevation e user_id i =
     andthen (reads (\<lambda>s. (i = None \<and> (case get_member s user_id of None \<Rightarrow> False | Some r \<Rightarrow> sr_role r \<in> {ADMIN, OWNER}))
       \<or> (\<exists>(rid, r) \<in> set (pending_requests s). jr_user r = user_id \<and> jr_role r = Some ADMIN))) (\<lambda>covered.
     doing_if (\<not> covered) (writes (announce (JoinRequested user_id (en_fresh e))
       \<circ> save_join_request (en_fresh e) user_id i (Some ADMIN) None)))"

text \<open>
  \<open>accept_invite_token\<close>: the use is spent first, together with the ban check; a refusal by the local-community check
  gives it back, the age gate does not.
\<close>

definition take_token_use :: "seat_env \<Rightarrow> string \<Rightarrow> string \<Rightarrow> token_row option seat_action" where
  "take_token_use e token user_id = (\<lambda>s. let (found, s') = consume_invite_token (en_now e) token user_id s in (Inr found, s'))"

definition refused_token :: "seat_env \<Rightarrow> string \<Rightarrow> string \<Rightarrow> seat_db \<Rightarrow> seat_error" where
  "refused_token e token user_id s =
     (if get_live_invite_token (en_now e) s token \<noteq> None \<and> is_banned s user_id then BannedFromSpaceError else InviteExpiredError)"

definition accept_invite_token :: "seat_env \<Rightarrow> string \<Rightarrow> string \<Rightarrow> seat_row seat_action" where
  "accept_invite_token e token user_id =
     andthen (take_token_use e token user_id) (\<lambda>found. case found of
       None \<Rightarrow> andthen (reads (refused_token e token user_id)) raise
     | Some t \<Rightarrow>
         (let role = (if tk_role t = ADMIN then MEMBER else tk_role t) in
         andthen (reads sd_space) (\<lambda>hosted.
         afterwards (case hosted of None \<Rightarrow> ret ()
           | Some sp \<Rightarrow> trying (seat_or_review e sp user_id) (\<lambda>err.
               afterwards (doing_if (is_permission_error err) (writes (release_invite_token_use token))) (raise err)))
        (afterwards (check_space_age_gate e user_id)
        (afterwards (writes (announce (MemberJoined user_id role False) \<circ> save_member user_id (new_seat role)))
        (andthen (reads sd_space) (\<lambda>now.
         afterwards (doing_if (now \<noteq> None) (emit_local_gossip e user_id role))
        (afterwards (doing_if (tk_role t = ADMIN) (file_admin_elevation e user_id None))
        (ret (new_seat role))))))))))"

section \<open>Join requests\<close>

definition has_landing :: "seat_env \<Rightarrow> seat_space \<Rightarrow> bool" where
  "has_landing e sp \<longleftrightarrow> ss_tier sp \<in> set public_tiers \<or> (ss_tier sp = HOUSEHOLD_SPACE \<and> ss_host sp = en_own e)"

definition read_space :: "seat_env \<Rightarrow> string \<Rightarrow> (seat_space \<times> seat_row option) seat_action" where
  "read_space e user_id = andthen (reads (\<lambda>s. (seat_of s user_id, sd_space s))) (\<lambda>(seat, found).
     case seat of
       Some r \<Rightarrow> andthen require_space (\<lambda>sp. ret (sp, Some r))
     | None \<Rightarrow> (case found of
         None \<Rightarrow> raise NotPermitted
       | Some sp \<Rightarrow>
           afterwards (raise_if (ss_dissolved sp \<or> \<not> has_landing e sp) NotPermitted)
          (afterwards (trying (check_space_age_gate e user_id) (\<lambda>_. raise NotPermitted)) (ret (sp, None)))))"

definition request_join :: "seat_env \<Rightarrow> string \<Rightarrow> string option seat_action" where
  "request_join e user_id =
     andthen (read_space e user_id) (\<lambda>(sp, seat).
     afterwards (raise_if (seat \<noteq> None) AlreadyMemberError)
    (afterwards (raise_if (ss_join sp = JOIN_INVITE_ONLY) InviteOnlyError)
    (andthen (reads (\<lambda>s. (is_banned s user_id, pending_join_request_id s user_id None))) (\<lambda>(banned, pending).
     afterwards (raise_if banned BannedFromSpaceError)
    (if (ss_join sp \<noteq> JOIN_OPEN \<or> hosted_local_area e sp) \<and> pending \<noteq> None then ret pending
     else andthen (require_local_seat e sp) (\<lambda>v.
       if ss_join sp = JOIN_OPEN \<and> ss_host sp = en_own e \<and> v \<noteq> Some AREA_EDGE
       then afterwards (check_space_age_gate e user_id)
           (afterwards (seat_local_member e user_id MEMBER user_id False) (ret None))
       else andthen (file_local_join_request e user_id v) (\<lambda>rid. ret (Some rid))))))))"

text \<open>\<open>_pending_join_request\<close>: the row an admin answers, and the admin's seat.\<close>

definition pending_join_request :: "seat_env \<Rightarrow> string \<Rightarrow> string \<Rightarrow> (request_row \<times> seat_space \<times> seat_row) seat_action" where
  "pending_join_request e rid actor = andthen (reads (\<lambda>s. map_of (sd_requests s) rid)) (\<lambda>found. case found of
     None \<Rightarrow> raise MissingKey
   | Some row \<Rightarrow>
       andthen require_space (\<lambda>sp.
       andthen (require_admin_or_owner e actor) (\<lambda>seat.
       afterwards (raise_if (jr_status row \<noteq> ROW_PENDING) JoinRequestHandledError) (ret (row, sp, seat)))))"

definition join_request_flags :: "seat_env \<Rightarrow> seat_space \<Rightarrow> request_row \<Rightarrow> string list" where
  "join_request_flags e sp row =
     (if jr_role row = Some ADMIN then [''admin''] else [])
     @ (if 0 < ss_min_age sp then [''age''] else [])
     @ (if jr_verdict row = Some AREA_EDGE then [''edge''] else [])
     @ (case jr_instance row of None \<Rightarrow> [] | Some i \<Rightarrow> if en_paired e i then [] else [''unpaired''])"

text \<open>The atomic step two admins race on: the loser raises before any side effect.\<close>

definition answer_join_request_or_raise :: "string \<Rightarrow> row_status \<Rightarrow> string \<Rightarrow> unit seat_action" where
  "answer_join_request_or_raise rid st reviewer = (\<lambda>s.
     let (moved, s') = answer_join_request rid st reviewer s
     in if moved then (Inr (), s')
        else if map_of (sd_requests s) rid = None then (Inl MissingKey, s')
        else (Inl JoinRequestHandledError, s'))"

datatype approve_via = INLINE | REVIEW

definition seat_role_of :: "seat_db \<Rightarrow> request_row \<Rightarrow> space_role" where
  "seat_role_of s row = (case jr_instance row of
     Some i \<Rightarrow> (case get_remote s i (jr_user row) of None \<Rightarrow> MEMBER | Some r \<Rightarrow> rr_role r)
   | None \<Rightarrow> (case get_member s (jr_user row) of None \<Rightarrow> MEMBER | Some r \<Rightarrow> sr_role r))"

definition approve_elevation :: "seat_env \<Rightarrow> string \<Rightarrow> string \<Rightarrow> account \<Rightarrow> request_row \<Rightarrow> seat_space \<Rightarrow> seat_row \<Rightarrow> unit seat_action" where
  "approve_elevation e rid actor a row sp seat =
     afterwards (raise_if (hosted_elsewhere e sp) NotPermitted)
    (andthen (reads (\<lambda>s. seat_role_of s row)) (\<lambda>current.
     afterwards (raise_if (\<not> role_change_allowed (role_value (sr_role seat)) (role_value current) (role_value ADMIN)) NotPermitted)
    (afterwards (answer_join_request_or_raise rid ROW_APPROVED (ac_id a))
    (afterwards (case jr_instance row of
        Some i \<Rightarrow> andthen (set_remote_member_role e actor i (jr_user row) (role_value ADMIN)) (\<lambda>_. ret ())
      | None \<Rightarrow> andthen (set_role e actor (jr_user row) (role_value ADMIN)) (\<lambda>_. ret ()))
    (writes (announce (JoinApproved (jr_user row) rid)))))))"

text \<open>A remote applicant gets a fresh single-use token of the plain seat, valid for five minutes.\<close>

definition approve_join_request :: "seat_env \<Rightarrow> string \<Rightarrow> string \<Rightarrow> approve_via \<Rightarrow> unit seat_action" where
  "approve_join_request e rid actor via =
     andthen (asserted_actor e actor) (\<lambda>a.
     andthen (pending_join_request e rid actor) (\<lambda>(row, sp, seat).
     afterwards (raise_if (via = INLINE \<and> join_request_flags e sp row \<noteq> []) (ReviewRequiredError (join_request_flags e sp row)))
    (if jr_role row = Some ADMIN then approve_elevation e rid actor a row sp seat
     else afterwards (doing_if (jr_instance row = None) (check_space_age_gate e (jr_user row)))
    (afterwards (answer_join_request_or_raise rid ROW_APPROVED (ac_id a))
    (case jr_instance row of
       Some i \<Rightarrow> writes (announce (JoinApproved (jr_user row) rid) \<circ> announce (ApprovalSent i rid (en_fresh e))
         \<circ> (\<lambda>s. s\<lparr>sd_tokens := sd_tokens s @ [(en_fresh e, \<lparr>tk_uses = 1, tk_total = Some 1, tk_role = MEMBER,
              tk_expires = Some (en_now e + 300)\<rparr>)]\<rparr>))
     | None \<Rightarrow> writes (announce (MemberJoined (jr_user row) MEMBER False) \<circ> announce (JoinApproved (jr_user row) rid)
         \<circ> save_member (jr_user row) (new_seat MEMBER)))))))"

definition deny_join_request :: "seat_env \<Rightarrow> string \<Rightarrow> string \<Rightarrow> unit seat_action" where
  "deny_join_request e rid actor =
     andthen (asserted_actor e actor) (\<lambda>a.
     andthen (pending_join_request e rid actor) (\<lambda>(row, sp, seat).
     afterwards (answer_join_request_or_raise rid ROW_DENIED (ac_id a))
    (afterwards (case jr_instance row of None \<Rightarrow> ret () | Some i \<Rightarrow> writes (announce (DenialSent i rid)))
    (writes (announce (JoinDenied (jr_user row) rid))))))"

section \<open>Followers\<close>

text \<open>A space without a row is mirrored from the connection server that lists it first, when one does.\<close>

definition mirror_first :: "seat_env \<Rightarrow> bool seat_action" where
  "mirror_first e = andthen (reads sd_space) (\<lambda>found. case (found, en_mirror e) of
     (None, Some sp) \<Rightarrow> afterwards (writes (\<lambda>s. s\<lparr>sd_space := Some sp\<rparr>)) (ret True)
   | _ \<Rightarrow> ret False)"

definition subscribe_to_space :: "seat_env \<Rightarrow> string \<Rightarrow> unit seat_action" where
  "subscribe_to_space e user_id =
     andthen (mirror_first e) (\<lambda>via_gfs.
     andthen require_space (\<lambda>sp.
     andthen (reads (\<lambda>s. (is_banned s user_id, get_member s user_id \<noteq> None))) (\<lambda>(banned, seated).
     if ss_tier sp \<notin> set public_tiers
     then raise (if \<not> has_landing e sp \<and> \<not> seated then MissingKey else SubscribeNotAllowedError)
     else afterwards (raise_if banned BannedFromSpaceError)
    (if seated then ret ()
     else afterwards (raise_if (\<not> sf_allow_subscribers (ss_features sp)) SubscribeNotAllowedError)
    (afterwards (check_space_age_gate e user_id)
    (afterwards (seat_or_review e sp user_id)
    (afterwards (raise_if (via_gfs \<and> \<not> en_gfs_seats e) GfsRefusedError)
    (writes (announce (MembershipRecorded user_id ''joined'' user_id) \<circ> announce (MemberJoined user_id SUBSCRIBER False)
       \<circ> save_member user_id (new_seat SUBSCRIBER))))))))))"

text \<open>\<open>_purge_gfs_mirror_if_unused\<close>: the row goes with everything that hangs on it.\<close>

definition mirror_unused :: "seat_env \<Rightarrow> seat_db \<Rightarrow> bool" where
  "mirror_unused e s \<longleftrightarrow> (case sd_space s of
     None \<Rightarrow> False
   | Some sp \<Rightarrow> ss_host sp \<noteq> en_own e \<and> \<not> ss_seed sp
       \<and> (\<forall>(u, r) \<in> set (sd_members s). account_by_id e u = None)
       \<and> \<not> en_in_grace e \<and> ss_tier sp = GLOBAL_SPACE \<and> en_gfs_listed e)"

definition purge_space :: "seat_db \<Rightarrow> seat_db" where
  "purge_space s = s\<lparr>sd_space := None, sd_members := [], sd_bans := [], sd_remote := [], sd_households := [],
     sd_household_bans := [], sd_invitations := [], sd_requests := [], sd_tokens := [], sd_epoch := None\<rparr>"

definition unsubscribe_from_space :: "seat_env \<Rightarrow> string \<Rightarrow> unit seat_action" where
  "unsubscribe_from_space e user_id = andthen (reads (\<lambda>s. get_member s user_id)) (\<lambda>found. case found of
     None \<Rightarrow> ret ()
   | Some r \<Rightarrow> if sr_role r \<noteq> SUBSCRIBER then ret ()
       else afterwards (writes (announce (MembershipRecorded user_id ''removed'' user_id) \<circ> announce (MemberLeft user_id SUBSCRIBER)
         \<circ> delete_member user_id))
         (writes (\<lambda>s. if mirror_unused e s then purge_space (announce GfsUnsubscribed s) else s)))"

end
