(* ===== verification/Space_Seat_Steps.thy ===== *)
theory Space_Seat_Steps
  imports Space_Seat_Joins
begin

text \<open>
  What a host does with the actions remote admins forward to it, and the steps a space's seats go through: one request
  to the service, in an environment of its own.  A run is any sequence of requests; each may return or raise.
\<close>

section \<open>Forwarded actions on the host\<close>

text \<open>\<open>_validate_forwarded_role_change\<close>, against the host's own roster: the new role and the target's seat.\<close>

definition validate_forwarded_role_change ::
  "seat_env \<Rightarrow> space_role \<Rightarrow> string \<Rightarrow> string \<Rightarrow> string \<Rightarrow> string \<Rightarrow> seat_db \<Rightarrow> (space_role \<times> (seat_row + remote_row)) option" where
  "validate_forwarded_role_change e actor_role i user_id from_role role s =
     (case space_role role of
        None \<Rightarrow> None
      | Some new \<Rightarrow>
          if i = [] \<or> user_id = [] \<or> new \<notin> set remote_assignable_roles then None
          else case (if i = en_own e then map_option Inl (get_member s user_id) else map_option Inr (get_remote s i user_id)) of
            None \<Rightarrow> None
          | Some target \<Rightarrow>
              let current = (case target of Inl r \<Rightarrow> sr_role r | Inr r \<Rightarrow> rr_role r) in
              if role_value current \<noteq> from_role \<or> current = new \<or> current = OWNER
                 \<or> \<not> role_change_allowed (role_value actor_role) (role_value current) role
                 \<or> (new = MODERATOR \<and> i \<noteq> en_own e \<and> en_version e i < min_for_space_moderator_role)
              then None else Some (new, target))"

definition live_remote_admin :: "string \<Rightarrow> string \<Rightarrow> seat_db \<Rightarrow> bool" where
  "live_remote_admin i user_id s \<longleftrightarrow>
     i \<noteq> [] \<and> user_id \<noteq> [] \<and> (case get_remote s i user_id of None \<Rightarrow> False | Some r \<Rightarrow> rr_role r = ADMIN)"

definition apply_forwarded_role_change ::
  "seat_env \<Rightarrow> seat_space \<Rightarrow> string \<Rightarrow> string \<Rightarrow> string \<Rightarrow> string \<Rightarrow> string \<Rightarrow> string \<Rightarrow> unit seat_action" where
  "apply_forwarded_role_change e sp actor_i actor_u i user_id from_role role =
     andthen (reads (\<lambda>s. (live_remote_admin actor_i actor_u s,
         validate_forwarded_role_change e ADMIN i user_id from_role role s))) (\<lambda>(admin, change).
     if \<not> admin then ret ()
     else case change of
       None \<Rightarrow> ret ()
     | Some (new, Inl seat) \<Rightarrow> apply_local_role e sp user_id (sr_role seat) new
     | Some (new, Inr target) \<Rightarrow> apply_remote_role e sp target new)"

text \<open>The forwardable actions that touch seats; config edits, archiving and invitations across households are not modelled.\<close>

definition run_admin_action :: "seat_env \<Rightarrow> seat_space \<Rightarrow> string \<Rightarrow> string \<Rightarrow> forwarded_action \<Rightarrow> unit seat_action" where
  "run_admin_action e sp actor_i actor_u action = (case action of
     AskBan u \<Rightarrow> doing_if (u \<noteq> []) (ban e (ss_owner sp) u)
   | AskUnban u \<Rightarrow> doing_if (u \<noteq> []) (unban e (ss_owner sp) u)
   | AskRole i u from_role role \<Rightarrow> apply_forwarded_role_change e sp actor_i actor_u i u from_role role)"

datatype remote_admin_outcome = EXECUTED | NEEDS_OWNER_APPROVAL | DROPPED

definition apply_remote_admin_action :: "seat_env \<Rightarrow> string \<Rightarrow> string \<Rightarrow> forwarded_action \<Rightarrow> remote_admin_outcome seat_action" where
  "apply_remote_admin_action e actor_i actor_u action =
     andthen (reads (\<lambda>s. (sd_space s, case get_remote s actor_i actor_u of None \<Rightarrow> False | Some r \<Rightarrow> rr_role r = ADMIN)))
       (\<lambda>(found, admin). case found of
         None \<Rightarrow> ret DROPPED
       | Some sp \<Rightarrow>
           if ss_host sp \<noteq> en_own e \<or> \<not> admin then ret DROPPED
           else andthen (reads (\<lambda>s. case action of
               AskRole i u from_role role \<Rightarrow> validate_forwarded_role_change e ADMIN i u from_role role s = None
             | _ \<Rightarrow> False)) (\<lambda>refused.
             if refused then ret DROPPED
             else if \<not> sf_delegated_admin_authority (ss_features sp) then ret NEEDS_OWNER_APPROVAL
             else afterwards (run_admin_action e sp actor_i actor_u action) (ret EXECUTED)))"

definition apply_approved_admin_action :: "seat_env \<Rightarrow> string \<Rightarrow> string \<Rightarrow> forwarded_action \<Rightarrow> unit seat_action" where
  "apply_approved_admin_action e actor_i actor_u action = andthen (reads sd_space) (\<lambda>found. case found of
     None \<Rightarrow> ret ()
   | Some sp \<Rightarrow> doing_if (ss_host sp = en_own e) (run_admin_action e sp actor_i actor_u action))"

definition apply_remote_admin_kick :: "seat_env \<Rightarrow> string \<Rightarrow> string \<Rightarrow> string \<Rightarrow> unit seat_action" where
  "apply_remote_admin_kick e actor_i actor_u user_id =
     andthen (reads (\<lambda>s. (sd_space s, case get_remote s actor_i actor_u of None \<Rightarrow> False | Some r \<Rightarrow> rr_role r = ADMIN)))
       (\<lambda>(found, admin). case found of
         None \<Rightarrow> ret ()
       | Some sp \<Rightarrow>
           if ss_host sp \<noteq> en_own e \<or> \<not> admin then ret ()
           else andthen (reads (\<lambda>s. (get_member s user_id, live_remote_seat s user_id))) (\<lambda>(local, remote).
             case local of
               Some r \<Rightarrow> if sr_role r = OWNER then ret () else remove_member e (ss_owner sp) user_id
             | None \<Rightarrow> (case remote of
                 None \<Rightarrow> ret ()
               | Some r \<Rightarrow> remove_remote_member e (ss_owner sp) (rr_instance r) user_id)))"

section \<open>Gossip from other households\<close>

text \<open>
  \<open>_merge_roster_entry\<close> (\<open>federation/private_invite_handler.py\<close>): an entry whose signature verified under the
  authority key of epoch \<open>k\<close>.  The household that hosts the space refuses an entry that would raise a seat; \<open>raw\<close> is the
  role on the wire.  A live entry makes its household a fan-out target, whether it was newer than the row or not.
\<close>

definition hosts_space :: "seat_env \<Rightarrow> seat_db \<Rightarrow> bool" where
  "hosts_space e s \<longleftrightarrow> (case sd_space s of None \<Rightarrow> False | Some sp \<Rightarrow> en_own e \<noteq> [] \<and> ss_host sp = en_own e)"

definition some_text :: "string option \<Rightarrow> string option" where
  "some_text v = (if v = Some [] then None else v)"

definition heard_event :: "string \<Rightarrow> member_event \<Rightarrow> member_event" where
  "heard_event raw ev = ev\<lparr>me_role := the (space_role (mirrorable_str raw)),
     me_name := some_text (me_name ev), me_pk := some_text (me_pk ev)\<rparr>"

definition gossip_ceiling :: "seat_db \<Rightarrow> string \<Rightarrow> space_role" where
  "gossip_ceiling s user_id = (case get_including_tombstones s user_id of
     None \<Rightarrow> MEMBER | Some prior \<Rightarrow> if rr_dead prior then MEMBER else rr_role prior)"

definition raises_seat :: "seat_env \<Rightarrow> seat_db \<Rightarrow> member_event \<Rightarrow> bool" where
  "raises_seat e s ev \<longleftrightarrow> hosts_space e s \<and> \<not> me_dead ev
     \<and> cap_remote_role (role_value (me_role ev)) (role_value (gossip_ceiling s (me_user ev))) \<noteq> role_value (me_role ev)"

definition admin_seat_ends :: "seat_env \<Rightarrow> seat_db \<Rightarrow> member_event \<Rightarrow> bool" where
  "admin_seat_ends e s ev \<longleftrightarrow> hosts_space e s \<and> (case get_including_tombstones s (me_user ev) of
     None \<Rightarrow> False
   | Some prior \<Rightarrow> \<not> rr_dead prior \<and> rr_role prior = ADMIN \<and> (me_dead ev \<or> me_role ev \<noteq> ADMIN))"

definition merge_roster_entry :: "seat_env \<Rightarrow> nat \<Rightarrow> string \<Rightarrow> member_event \<Rightarrow> seat_db \<Rightarrow> seat_db" where
  "merge_roster_entry e k raw ev s =
     (let i = me_instance ev; u = me_user ev; heard = heard_event raw ev
      in if u = [] \<or> i = [] \<or> raises_seat e s heard then s
         else let (applied, s1) = apply_member_event (en_now e) (Some k) heard s;
                  s2 = (if applied then announce (if me_dead ev then RemoteSeatEnded i u else RemoteSeatLive i u) s1 else s1);
                  s3 = (if applied \<and> admin_seat_ends e s heard then announce_revoked e i s2 else s2)
              in if \<not> me_dead ev then add_space_instance i s3
                 else if applied \<and> (case sd_space s of None \<Rightarrow> False | Some sp \<Rightarrow> i \<noteq> ss_host sp) \<and> live_of_instance s3 i = []
                 then remove_space_instance i s3 else s3)"

text \<open>\<open>_apply_roster_gossip\<close>: an entry of a space without a row has no key to verify under.\<close>

definition apply_roster_gossip :: "seat_env \<Rightarrow> nat \<Rightarrow> string \<Rightarrow> member_event \<Rightarrow> seat_db \<Rightarrow> seat_db" where
  "apply_roster_gossip e k raw ev s = (case sd_space s of None \<Rightarrow> s | Some sp \<Rightarrow> merge_roster_entry e k raw ev s)"

section \<open>Requests and runs\<close>

datatype seat_request =
    AddMember string string space_role
  | SeatProvisioned string
  | InviteLocal string string
  | AcceptInvite string string
  | DeclineInvite string string
  | RedeemToken string string
  | RequestJoin string
  | ApproveRequest string string approve_via
  | DenyRequest string string
  | Subscribe string
  | Unsubscribe string
  | SetRole string string string
  | SetRemoteRole string string string string
  | TransferOwnership string string
  | ReassignOwnership string string
  | RemoveMember string string
  | RemoveRemote string string string
  | HouseholdLeft string "string option"
  | Ban string string
  | Unban string string
  | RemoteKick string string string
  | RemoteAction string string forwarded_action
  | ApprovedAction string string forwarded_action
  | RosterEvent nat string member_event

fun perform :: "seat_env \<Rightarrow> seat_request \<Rightarrow> unit seat_action" where
  "perform e (AddMember actor u role) = andthen (add_member e actor u role) (\<lambda>_. ret ())"
| "perform e (SeatProvisioned u) = seat_provisioned_user e u"
| "perform e (InviteLocal actor u) = andthen (invite_local_user e actor u) (\<lambda>_. ret ())"
| "perform e (AcceptInvite i u) = andthen (accept_local_invite e i u) (\<lambda>_. ret ())"
| "perform e (DeclineInvite i u) = decline_local_invite i u"
| "perform e (RedeemToken t u) = andthen (accept_invite_token e t u) (\<lambda>_. ret ())"
| "perform e (RequestJoin u) = andthen (request_join e u) (\<lambda>_. ret ())"
| "perform e (ApproveRequest rid actor via) = approve_join_request e rid actor via"
| "perform e (DenyRequest rid actor) = deny_join_request e rid actor"
| "perform e (Subscribe u) = subscribe_to_space e u"
| "perform e (Unsubscribe u) = unsubscribe_from_space e u"
| "perform e (SetRole actor u role) = andthen (set_role e actor u role) (\<lambda>_. ret ())"
| "perform e (SetRemoteRole actor i u role) = andthen (set_remote_member_role e actor i u role) (\<lambda>_. ret ())"
| "perform e (TransferOwnership actor u) = transfer_ownership e actor u"
| "perform e (ReassignOwnership actor u) = reassign_orphaned_ownership e actor u"
| "perform e (RemoveMember actor u) = remove_member e actor u"
| "perform e (RemoveRemote actor i u) = remove_remote_member e actor i u"
| "perform e (HouseholdLeft i u) = andthen (on_remote_member_left e i u) (\<lambda>_. ret ())"
| "perform e (Ban actor u) = ban e actor u"
| "perform e (Unban actor u) = unban e actor u"
| "perform e (RemoteKick i a u) = apply_remote_admin_kick e i a u"
| "perform e (RemoteAction i a action) = andthen (apply_remote_admin_action e i a action) (\<lambda>_. ret ())"
| "perform e (ApprovedAction i a action) = apply_approved_admin_action e i a action"
| "perform e (RosterEvent k raw ev) = writes (apply_roster_gossip e k raw ev)"

definition seat_step :: "seat_env \<times> seat_request \<Rightarrow> seat_db \<Rightarrow> seat_db" where
  "seat_step c = leaves (perform (fst c) (snd c))"

definition seat_run :: "(seat_env \<times> seat_request) list \<Rightarrow> seat_db \<Rightarrow> seat_db" where
  "seat_run = fold seat_step"

end
