(* ===== verification/Space_Seat_Laws.thy ===== *)
theory Space_Seat_Laws
  imports Space_Seat_Steps
begin

text \<open>
  The contract between the seats of a space and the requests that change them: a law that speaks about local seats and
  bans only, that a new seat, a removal, a role change the matrix allows, a move of ownership and a ban each keep, is
  kept by every request, whoever makes it and however it ends.
\<close>

section \<open>What most statements leave alone\<close>

definition local_view :: "seat_db \<Rightarrow> (string \<times> seat_row) list \<times> string list \<times> string option" where
  "local_view s = (sd_members s, sd_bans s, map_option ss_host (sd_space s))"

lemma view_announce [simp]: "local_view (announce ev s) = local_view s"
  by (simp add: local_view_def announce_def)

lemma view_on_space: "(\<And>sp. ss_host (f sp) = ss_host sp) \<Longrightarrow> local_view (on_space f s) = local_view s"
  by (simp add: local_view_def on_space_def option.map_comp comp_def)

lemma view_sequences [simp]:
  "local_view (increment_config_sequence s) = local_view s"
  "local_view (record_owner_change n s) = local_view s"
  "local_view (on_space (ss_seed_update f) s) = local_view s"
  "local_view (on_space (ss_roster_sequence_update g) s) = local_view s"
  "local_view (on_space (ss_seed_shared_update h) s) = local_view s"
  by (simp_all add: increment_config_sequence_def record_owner_change_def view_on_space)

lemma view_households [simp]:
  "local_view (add_space_instance i s) = local_view s"
  "local_view (remove_space_instance i s) = local_view s"
  by (simp_all add: local_view_def add_space_instance_def remove_space_instance_def)

lemma view_remote [simp]:
  "local_view (on_remote i u f s) = local_view s"
  "local_view (remove_remote now i u s) = local_view s"
  "local_view (set_remote_role i u r s) = local_view s"
  by (simp_all add: local_view_def on_remote_def remove_remote_def set_remote_role_def)

lemma view_put_event [simp]: "local_view (put_event now k ev s) = local_view s"
  by (simp add: put_event_def upsert_remote_def local_view_def on_remote_def)

lemma view_apply_event [simp]: "local_view (snd (apply_member_event now k ev s)) = local_view s"
  by (simp add: apply_member_event_def split: option.split)

lemma view_rows [simp]:
  "local_view (save_invitation i u b s) = local_view s"
  "local_view (update_invitation_status i st s) = local_view s"
  "local_view (save_join_request rid u j r v s) = local_view s"
  "local_view (release_invite_token_use t s) = local_view s"
  "local_view (s\<lparr>sd_tokens := ts\<rparr>) = local_view s"
  "local_view (s\<lparr>sd_requests := rs\<rparr>) = local_view s"
  "local_view (s\<lparr>sd_epoch := k\<rparr>) = local_view s"
  by (simp_all add: local_view_def save_invitation_def update_invitation_status_def save_join_request_def
      release_invite_token_use_def)

lemma view_answer [simp]: "local_view (snd (answer_join_request rid st u s)) = local_view s"
  by (simp add: answer_join_request_def local_view_def split: option.split)

lemma view_consume [simp]: "local_view (snd (consume_invite_token now t u s)) = local_view s"
  by (simp add: consume_invite_token_def local_view_def Let_def split: option.split)

lemma view_send_roster [simp]: "local_view (send_roster_event e ev s) = local_view s"
  by (simp add: send_roster_event_def Let_def)

lemma view_fresh [simp]: "local_view (snd (fresh_content_key e s)) = local_view s"
  by (simp add: fresh_content_key_def Let_def)

lemma view_reseal [simp]: "local_view (reseal_followers e s) = local_view s"
  by (simp add: reseal_followers_def split: option.split)

lemma view_rotate [simp]: "local_view (rotate_and_distribute_space_key e s) = local_view s"
  by (simp add: rotate_and_distribute_space_key_def case_prod_unfold split: option.split)

lemma view_hand_over [simp]: "local_view (hand_over_seed i s) = local_view s"
  by (simp add: hand_over_seed_def view_on_space)

lemma view_fold: "(\<And>x t. local_view (f x t) = local_view t) \<Longrightarrow> local_view (fold f xs s) = local_view s"
  by (induction xs arbitrary: s) simp_all

lemma view_bundle [simp]:
  "local_view (share_seed_with_admins e sp s) = local_view s"
  "local_view (distribute_bundle e authority content s) = local_view s"
  "local_view (refresh_gfs e s) = local_view s"
  by (simp_all add: share_seed_with_admins_def distribute_bundle_def refresh_gfs_def view_fold split: option.split)

lemma view_authority [simp]: "local_view (rotate_authority e share s) = local_view s"
  by (simp add: rotate_authority_def Let_def case_prod_unfold view_on_space split: option.split)

lemma view_revoked [simp]:
  "local_view (on_revoked e i s) = local_view s"
  "local_view (announce_revoked e i s) = local_view s"
  "local_view (publish_admin_revoked e i d s) = local_view s"
  "local_view (notify_host_of_leave e sp u s) = local_view s"
  by (simp_all add: on_revoked_def announce_revoked_def publish_admin_revoked_def notify_host_of_leave_def Let_def split: option.split)

lemma view_roster_entry [simp]:
  "local_view (merge_roster_entry e k raw ev s) = local_view s"
  "local_view (apply_roster_gossip e k raw ev s) = local_view s"
  by (simp_all add: merge_roster_entry_def apply_roster_gossip_def Let_def case_prod_unfold split: option.split)

lemma view_get_member: "local_view s = local_view s' \<Longrightarrow> get_member s u = get_member s' u"
  by (simp add: local_view_def get_member_def)

lemma view_is_banned: "local_view s = local_view s' \<Longrightarrow> is_banned s u = is_banned s' u"
  by (simp add: local_view_def is_banned_def)

text \<open>An action that leaves the local seats, the bans and the host alone.\<close>

definition aside :: "(seat_db, 'e, 'a) action \<Rightarrow> bool" where
  "aside m \<longleftrightarrow> (\<forall>s. local_view (leaves m s) = local_view s)"

lemma aside_keeps: "aside m \<longleftrightarrow> (\<forall>v. keeps (\<lambda>s. local_view s = v) m)"
  unfolding aside_def keeps_def by metis

lemma aside_wp:
  assumes "aside m" "\<And>x s'. local_view s' = local_view s \<Longrightarrow> Q x s'" "\<And>e s'. local_view s' = local_view s \<Longrightarrow> E e s'"
  shows "wp m Q E s"
  by (rule wp_keeps [where P = "\<lambda>s'. local_view s' = local_view s"]) (use assms in \<open>simp_all add: aside_def keeps_def\<close>)

lemma aside_basic: "aside (ret x)" "aside (raise e)" "aside (reads f)" "aside (raise_if b e)"
  by (simp_all add: aside_keeps keeps_rules)

lemma aside_writes: "(\<And>s. local_view (f s) = local_view s) \<Longrightarrow> aside (writes f)"
  by (simp add: aside_def leaves_def writes_def)

lemma aside_andthen: "aside m \<Longrightarrow> (\<And>x. aside (k x)) \<Longrightarrow> aside (andthen m k)"
  by (simp add: aside_keeps keeps_rules)

lemma aside_afterwards: "aside m \<Longrightarrow> aside k \<Longrightarrow> aside (afterwards m k)"
  by (simp add: aside_keeps keeps_rules)

lemma aside_trying: "aside m \<Longrightarrow> (\<And>e. aside (h e)) \<Longrightarrow> aside (trying m h)"
  by (simp add: aside_keeps keeps_rules)

lemma aside_doing_if: "aside m \<Longrightarrow> aside (doing_if b m)"
  by (simp add: aside_keeps keeps_rules)

lemma aside_if: "aside m \<Longrightarrow> aside m' \<Longrightarrow> aside (if b then m else m')"
  by simp

lemma aside_option: "aside m \<Longrightarrow> (\<And>y. aside (f y)) \<Longrightarrow> aside (case x of None \<Rightarrow> m | Some y \<Rightarrow> f y)"
  by (cases x) simp_all

lemma aside_for_each: "(\<And>x. aside (f x)) \<Longrightarrow> aside (for_each f xs)"
  by (simp add: aside_keeps keeps_rules)

lemmas aside_rules = aside_basic aside_writes aside_andthen aside_afterwards aside_trying aside_doing_if aside_if
  aside_option aside_for_each

lemma aside_guards:
  "aside require_space" "aside (actor_or_raise e a)" "aside (asserted_actor e a)" "aside (role_or_raise u rs)" "aside (require_admin_or_owner e a)"
  "aside (require_owner e a)" "aside (check_space_age_gate e u)" "aside (check_role_change old new r)"
  "aside (require_hosted_here e sp)" "aside (own_invitation i u)" "aside (require_local_seat e sp)"
  by (auto simp: require_space_def actor_or_raise_def asserted_actor_def role_or_raise_def require_admin_or_owner_def require_owner_def
      check_space_age_gate_def check_role_change_def require_hosted_here_def own_invitation_def require_local_seat_def
      intro!: aside_rules)

lemma aside_forward: "aside (forward_admin_action_if_remote e sp a x)" "aside (forward_role_change e sp a i u f r)"
  by (auto simp: forward_admin_action_if_remote_def forward_role_change_def intro!: aside_rules aside_guards)

lemma aside_gossip: "aside (emit_member_roster_gossip e u i n pk r t)"
proof -
  have "aside (\<lambda>s. case increment_roster_sequence s of (Inl _, s') \<Rightarrow> (Inr (), s')
      | (Inr version, s') \<Rightarrow> (Inr (), send_roster_event e (ev version) s'))" for ev :: "nat \<Rightarrow> member_event"
    by (auto simp: aside_def leaves_def increment_roster_sequence_def split: option.split)
  moreover have "aside (ensure_space_seed e)"
    by (auto simp: ensure_space_seed_def intro!: aside_rules)
  ultimately show ?thesis
    by (auto simp: emit_member_roster_gossip_def intro!: aside_rules)
qed

end
