(* ===== verification/Space_Seat_Merge.thy ===== *)
theory Space_Seat_Merge
  imports Space_Seat_Laws
begin

text \<open>
  The roster merge as a function of one row: which of two statements about a member a household ends up believing.
  A user id belongs to one household (\<open>user_id\<close> is derived from the home's key), so the row a version is read from and
  the row an event is written to are the same; under that hypothesis delivery order only matters between two different
  statements of the same version and kind.
\<close>

definition deliver_events :: "int \<Rightarrow> nat option \<Rightarrow> member_event list \<Rightarrow> seat_db \<Rightarrow> seat_db" where
  "deliver_events now verified = fold (\<lambda>ev s. snd (apply_member_event now verified ev s))"

text \<open>What a row says of its member; \<open>removed_at\<close>, the local time of the removal, is not part of it.\<close>

definition statement :: "remote_row \<Rightarrow> remote_row" where
  "statement r = r\<lparr>rr_removed := None\<rparr>"

definition standing :: "seat_db \<Rightarrow> string \<Rightarrow> remote_row option" where
  "standing s u = map_option statement (get_including_tombstones s u)"

definition at_home :: "(string \<Rightarrow> string) \<Rightarrow> seat_db \<Rightarrow> bool" where
  "at_home home s \<longleftrightarrow> (\<forall>r \<in> set (sd_remote s). rr_instance r = home (rr_user r))"

definition claim_row :: "nat \<Rightarrow> member_event \<Rightarrow> remote_row" where
  "claim_row k ev = statement (event_row 0 k ev)"

definition believe :: "nat \<Rightarrow> member_event \<Rightarrow> remote_row option \<Rightarrow> remote_row option" where
  "believe k ev cur = (if outranks (me_version ev) (me_dead ev) cur then Some (claim_row k ev) else cur)"

lemma statement_fields [simp]:
  "rr_instance (statement r) = rr_instance r" "rr_user (statement r) = rr_user r" "rr_version (statement r) = rr_version r"
  "rr_dead (statement r) = rr_dead r" "rr_role (statement r) = rr_role r"
  by (simp_all add: statement_def)

lemma claim_fields [simp]:
  "rr_instance (claim_row k ev) = me_instance ev" "rr_user (claim_row k ev) = me_user ev"
  "rr_version (claim_row k ev) = me_version ev" "rr_dead (claim_row k ev) = me_dead ev" "rr_role (claim_row k ev) = me_role ev"
  by (simp_all add: claim_row_def event_row_def)

lemma statement_rows [simp]:
  "statement (event_row now k ev) = claim_row k ev"
  "statement (merge_remote now (event_row now k ev) old) = claim_row k ev"
  by (simp_all add: statement_def claim_row_def event_row_def merge_remote_def)

lemma event_fields [simp]:
  "rr_instance (event_row now k ev) = me_instance ev" "rr_user (event_row now k ev) = me_user ev"
  "rr_instance (merge_remote now r old) = rr_instance r" "rr_user (merge_remote now r old) = rr_user r"
  by (simp_all add: event_row_def merge_remote_def)

lemma outranks_standing: "outranks v d (standing s u) = outranks v d (get_including_tombstones s u)"
  by (simp add: outranks_def standing_def split: option.split)

section \<open>One delivery\<close>

lemma find_map_first:
  assumes "find P xs = Some x" "f x = y" "\<And>z. z \<in> set xs \<Longrightarrow> P (f z) = P z"
  shows "find P (map f xs) = Some y"
  using assms by (induction xs) (auto split: if_splits)

lemma find_map_other: "(\<And>z. z \<in> set xs \<Longrightarrow> P z \<Longrightarrow> f z = z) \<Longrightarrow> (\<And>z. z \<in> set xs \<Longrightarrow> P (f z) = P z)
    \<Longrightarrow> find P (map f xs) = find P xs"
  by (induction xs) auto

lemma standing_put:
  assumes "at_home home s" "me_instance ev = home (me_user ev)"
  shows "standing (put_event now k ev s) u = (if me_user ev = u then Some (claim_row k ev) else standing s u)"
proof (cases "list_ex (same_remote (me_instance ev) (me_user ev)) (sd_remote s)")
  case True
  let ?f = "\<lambda>r. if same_remote (me_instance ev) (me_user ev) r then merge_remote now (event_row now k ev) r else r"
  have put: "sd_remote (put_event now k ev s) = map ?f (sd_remote s)"
    using True by (simp add: put_event_def upsert_remote_def on_remote_def)
  have users: "rr_user (?f r) = rr_user r" for r by (simp add: same_remote_def)
  show ?thesis
  proof (cases "me_user ev = u")
    case ev: True
    obtain r where r: "find (\<lambda>r. rr_user r = u) (sd_remote s) = Some r"
      using True ev
      by (cases "find (\<lambda>r. rr_user r = u) (sd_remote s)") (auto simp: list_ex_iff same_remote_def find_None_iff)
    then have "rr_user r = u" "r \<in> set (sd_remote s)" by (auto simp: find_Some_iff)
    then have "same_remote (me_instance ev) (me_user ev) r" using assms ev by (simp add: same_remote_def at_home_def)
    then have "?f r = merge_remote now (event_row now k ev) r" by simp
    then have "find (\<lambda>r. rr_user r = u) (map ?f (sd_remote s)) = Some (merge_remote now (event_row now k ev) r)"
      using r by (intro find_map_first [where f = ?f]) (simp_all only: users)
    with ev show ?thesis by (simp add: standing_def get_including_tombstones_def put)
  next
    case False
    have "find (\<lambda>r. rr_user r = u) (map ?f (sd_remote s)) = find (\<lambda>r. rr_user r = u) (sd_remote s)"
      by (rule find_map_other) (use False in \<open>auto simp: same_remote_def\<close>)
    with False show ?thesis by (simp add: standing_def get_including_tombstones_def put)
  qed
next
  case False
  then have none: "find (\<lambda>r. rr_user r = me_user ev) (sd_remote s) = None"
    using assms by (auto simp: find_None_iff list_ex_iff same_remote_def at_home_def)
  have app: "find P (xs @ ys) = (case find P xs of None \<Rightarrow> find P ys | Some x \<Rightarrow> Some x)" for P :: "remote_row \<Rightarrow> bool" and xs ys
    by (induction xs) auto
  from False none show ?thesis
    by (auto simp: put_event_def upsert_remote_def standing_def get_including_tombstones_def app split: option.split)
qed

lemma at_home_put: "at_home home s \<Longrightarrow> me_instance ev = home (me_user ev) \<Longrightarrow> at_home home (put_event now k ev s)"
  by (auto simp: at_home_def put_event_def upsert_remote_def on_remote_def)

lemma put_space [simp]: "sd_space (put_event now k ev s) = sd_space s"
  by (simp add: put_event_def upsert_remote_def on_remote_def)

text \<open>Whether events are taken at all, and the key epoch they are stamped with, does not change under deliveries.\<close>

definition takes :: "nat option \<Rightarrow> seat_db \<Rightarrow> bool" where
  "takes verified s \<longleftrightarrow> (case verified of None \<Rightarrow> True | Some k \<Rightarrow> map_option ss_authority_epoch (sd_space s) = Some k)"

definition stamp :: "nat option \<Rightarrow> seat_db \<Rightarrow> nat" where
  "stamp verified s = (case verified of None \<Rightarrow> key_epoch s | Some k \<Rightarrow> k)"

lemma apply_event_put: "snd (apply_member_event now verified ev s) =
    (if takes verified s \<and> outranks (me_version ev) (me_dead ev) (standing s (me_user ev)) then put_event now (stamp verified s) ev s else s)"
  by (auto simp: apply_member_event_def takes_def stamp_def outranks_standing split: option.split)

lemma standing_apply:
  assumes "at_home home s" "me_instance ev = home (me_user ev)"
  shows "standing (snd (apply_member_event now verified ev s)) u =
    (if takes verified s \<and> me_user ev = u then believe (stamp verified s) ev (standing s u) else standing s u)"
  by (auto simp: apply_event_put standing_put [OF assms] believe_def)

lemma takes_apply [simp]:
  "takes verified (snd (apply_member_event now v ev s)) = takes verified s"
  "stamp verified (snd (apply_member_event now v ev s)) = stamp verified s"
  by (simp_all add: apply_event_put takes_def stamp_def key_epoch_def split: option.split)

section \<open>Many deliveries\<close>

lemma standing_deliver:
  assumes "at_home home s" "\<forall>ev \<in> set evs. me_instance ev = home (me_user ev)"
  shows "standing (deliver_events now verified evs s) u =
    (if takes verified s then fold (believe (stamp verified s)) (filter (\<lambda>ev. me_user ev = u) evs) (standing s u) else standing s u)"
  using assms
proof (induction evs arbitrary: s)
  case Nil
  then show ?case by (simp add: deliver_events_def)
next
  case (Cons ev evs)
  let ?s = "snd (apply_member_event now verified ev s)"
  have "at_home home ?s" using Cons.prems by (simp add: apply_event_put at_home_put)
  with Cons have "standing (deliver_events now verified evs ?s) u =
    (if takes verified s then fold (believe (stamp verified s)) (filter (\<lambda>ev. me_user ev = u) evs) (standing ?s u) else standing ?s u)"
    by simp
  moreover have "deliver_events now verified (ev # evs) s = deliver_events now verified evs ?s" by (simp add: deliver_events_def)
  moreover have "standing ?s u = (if takes verified s \<and> me_user ev = u then believe (stamp verified s) ev (standing s u) else standing s u)"
    using Cons.prems by (intro standing_apply) auto
  ultimately show ?case by simp
qed

text \<open>Two statements about a user that a household cannot rank: same version, both live or both removals.\<close>

definition unranked :: "member_event \<Rightarrow> member_event \<Rightarrow> bool" where
  "unranked x y \<longleftrightarrow> me_user x = me_user y \<and> me_version x = me_version y \<and> me_dead x = me_dead y"

definition ranked_apart :: "member_event list \<Rightarrow> bool" where
  "ranked_apart evs \<longleftrightarrow> (\<forall>x \<in> set evs. \<forall>y \<in> set evs. unranked x y \<longrightarrow> x = y)"

lemma believe_commute:
  assumes "unranked x y \<Longrightarrow> x = y" "me_user x = me_user y"
  shows "believe k x (believe k y cur) = believe k y (believe k x cur)"
  using assms by (cases cur) (auto simp: believe_def outranks_def unranked_def split: if_splits)

lemma believe_again: "believe k x (believe k x cur) = believe k x cur"
  by (cases cur) (auto simp: believe_def outranks_def)

lemma believe_fold: "ranked_apart evs \<Longrightarrow> \<forall>ev \<in> set evs. me_user ev = u \<Longrightarrow> comp_fun_idem_on (set evs) (believe k)"
  by unfold_locales (auto simp: fun_eq_iff believe_again ranked_apart_def intro!: believe_commute)

text \<open>What is believed in the end depends on which events came, not on their order or how often they came.\<close>

lemma fold_believe:
  assumes "ranked_apart evs" "\<forall>ev \<in> set evs. me_user ev = u" "set evs' = set evs"
  shows "fold (believe k) evs' cur = fold (believe k) evs cur"
  using comp_fun_idem_on.fold_set_fold [OF believe_fold [OF assms(1,2)], of evs]
    comp_fun_idem_on.fold_set_fold [OF believe_fold [OF assms(1,2)], of evs'] assms(3) by (metis subset_refl)

text \<open>The statement a household ends up with is the newest of those it saw.\<close>

lemma believe_rank:
  "case believe k ev cur of None \<Rightarrow> False
     | Some r \<Rightarrow> (me_version ev, me_dead ev) = (rr_version r, rr_dead r) \<or> me_version ev < rr_version r
         \<or> me_version ev = rr_version r \<and> rr_dead r"
  by (cases cur) (auto simp: believe_def outranks_def)

end
