(* ===== verification/Space_Seat_Law.thy ===== *)
theory Space_Seat_Law
  imports Space_Seat_Laws
begin

text \<open>
  The law of a space's seats, as a locale: what it asks of the statements that write seats and bans, and that every
  request keeps it.
\<close>

section \<open>Requests that leave the local seats alone\<close>

lemma aside_local_gossip: "aside (emit_local_gossip e u r)"
  by (simp add: emit_local_gossip_def aside_gossip)

lemma aside_rotate_if: "aside (rotate_if_writer_scope_weakened e i b f)"
  by (auto simp: rotate_if_writer_scope_weakened_def intro!: aside_rules)

lemma aside_share: "aside (share_admin_signing_seed e sp i)"
  by (auto simp: share_admin_signing_seed_def Let_def ensure_space_seed_def view_on_space intro!: aside_rules)

lemmas aside_parts = aside_rules aside_guards aside_forward aside_gossip aside_local_gossip aside_rotate_if aside_share

lemma aside_remote_role: "aside (apply_remote_role e sp t r)"
  by (auto simp: apply_remote_role_def Let_def intro!: aside_parts)

lemma aside_set_remote_role: "aside (set_remote_member_role e a i u r)"
  by (auto simp: set_remote_member_role_def intro!: aside_parts aside_remote_role)

lemma aside_remove_remote: "aside (remove_remote_member e a i u)"
  by (auto simp: remove_remote_member_def send_invite_envelope_def intro!: aside_parts)

lemma aside_left: "aside (on_remote_member_left e i u)"
  by (auto simp: on_remote_member_left_def Let_def intro!: aside_parts)

lemma aside_seat_or_review: "aside (seat_or_review e sp u)"
  by (auto simp: seat_or_review_def file_local_join_request_def intro!: aside_parts)

lemma aside_file: "aside (file_local_join_request e u v)" "aside (file_admin_elevation e u i)"
  by (auto simp: file_local_join_request_def file_admin_elevation_def intro!: aside_parts)

lemma aside_answer: "aside (answer_join_request_or_raise rid st u)"
  by (auto simp: aside_def leaves_def answer_join_request_or_raise_def Let_def split: prod.split
      intro: view_answer [THEN trans] dest: arg_cong [where f = "local_view \<circ> snd"])

lemma aside_take: "aside (take_token_use e t u)"
  by (simp add: aside_def leaves_def take_token_use_def case_prod_unfold Let_def)

lemma aside_invite: "aside (invite_local_user e a u)" "aside (decline_local_invite i u)"
  by (auto simp: invite_local_user_def decline_local_invite_def split: prod.split intro!: aside_parts)

lemma aside_pending: "aside (pending_join_request e rid a)"
  by (auto simp: pending_join_request_def intro!: aside_parts)

lemma aside_deny: "aside (deny_join_request e rid a)"
  by (auto simp: deny_join_request_def split: prod.split intro!: aside_parts aside_pending aside_answer)

lemma aside_read_space: "aside (read_space e u)"
  by (auto simp: read_space_def split: prod.split intro!: aside_parts)

section \<open>Who asks\<close>

definition actor_seat :: "seat_env \<Rightarrow> string \<Rightarrow> seat_db \<Rightarrow> seat_row option" where
  "actor_seat e actor s = (case map_of (en_accounts e) actor of None \<Rightarrow> None | Some a \<Rightarrow> get_member s (ac_id a))"

definition owner_asks :: "seat_env \<Rightarrow> string \<Rightarrow> seat_db \<Rightarrow> bool" where
  "owner_asks e actor s \<longleftrightarrow> (case actor_seat e actor s of None \<Rightarrow> False | Some q \<Rightarrow> sr_role q = OWNER)"

lemma owner_asks_view: "local_view s' = local_view s \<Longrightarrow> owner_asks e actor s' = owner_asks e actor s"
  by (auto simp: owner_asks_def actor_seat_def view_get_member [of s' s] split: option.split)

lemma wp_take [wp_simps]: "wp (take_token_use e t u) Q E s
    = Q (fst (consume_invite_token (en_now e) t u s)) (snd (consume_invite_token (en_now e) t u s))"
  by (simp add: take_token_use_def wp_def Let_def case_prod_unfold)

lemma space_role_text: "space_role v = Some r \<Longrightarrow> role_value r = v"
  by (auto simp: space_role_def find_Some_iff)

lemma role_value_space_role [simp]: "space_role (role_value r) = Some r"
  by (cases r) (simp_all add: space_role_def all_roles_def)

lemma allowed_role: "role_change_allowed a c v \<Longrightarrow> role_value (the (space_role v)) = v"
  by (auto simp: role_change_allowed_def dest: space_role_text split: option.splits)

lemma allowed_owner: "role_change_allowed (role_value a) (role_value c) v \<Longrightarrow> c \<noteq> OWNER"
  by (auto simp: role_change_allowed_def split: option.splits)

lemmas guard_defs = require_space_def require_admin_or_owner_def require_owner_def actor_or_raise_def asserted_actor_def role_or_raise_def
  check_role_change_def require_hosted_here_def

text \<open>The seat a request may write over an existing one: these paths look at the ban list at most.\<close>

fun entrant :: "seat_env \<Rightarrow> seat_request \<Rightarrow> seat_db \<Rightarrow> (string \<times> space_role) option" where
  "entrant e (AddMember actor u role) s = (if is_banned s u then None else Some (u, role))"
| "entrant e (AcceptInvite i u) s = (if is_banned s u then None else Some (u, MEMBER))"
| "entrant e (RedeemToken t u) s = (if is_banned s u then None else case get_live_invite_token (en_now e) s t of
     None \<Rightarrow> None | Some tk \<Rightarrow> Some (u, if tk_role tk = ADMIN then MEMBER else tk_role tk))"
| "entrant e (ApproveRequest rid actor via) s = (case map_of (sd_requests s) rid of
     None \<Rightarrow> None | Some row \<Rightarrow> if jr_role row \<noteq> Some ADMIN \<and> jr_instance row = None then Some (jr_user row, MEMBER) else None)"
| "entrant e _ s = None"

fun owner_act :: "seat_env \<Rightarrow> seat_request \<Rightarrow> seat_db \<Rightarrow> bool" where
  "owner_act e (SetRole actor u role) s = owner_asks e actor s"
| "owner_act e (SetRemoteRole actor i u role) s = owner_asks e actor s"
| "owner_act e (ApproveRequest rid actor via) s = owner_asks e actor s"
| "owner_act e (TransferOwnership actor u) s = owner_asks e actor s"
| "owner_act e (ReassignOwnership actor u) s = (case map_of (en_accounts e) actor of None \<Rightarrow> False | Some a \<Rightarrow> ac_admin a)"
| "owner_act e _ s = False"

text \<open>A condition on every request of a run, at the state the request finds.\<close>

fun along :: "(seat_env \<Rightarrow> seat_request \<Rightarrow> seat_db \<Rightarrow> bool) \<Rightarrow> (seat_env \<times> seat_request) list \<Rightarrow> seat_db \<Rightarrow> bool" where
  "along P [] s = True"
| "along P (c # cs) s = (P (fst c) (snd c) s \<and> along P cs (seat_step c s))"

section \<open>The law\<close>

text \<open>
  \<open>fit\<close>: a seat the law allows to be written over whatever was there; \<open>sovereign\<close>: the requests only the owner, or
  the household's admin in the owner's place, may make are among those the law has to bear.
\<close>

locale seat_law =
  fixes I :: "seat_db \<Rightarrow> bool" and fit :: "seat_db \<Rightarrow> string \<Rightarrow> space_role \<Rightarrow> bool" and sovereign :: bool and own :: string
  assumes view: "I s \<Longrightarrow> local_view s' = local_view s \<Longrightarrow> I s'"
    and fit_view: "fit s u r \<Longrightarrow> local_view s' = local_view s \<Longrightarrow> fit s' u r"
    and fresh: "I s \<Longrightarrow> get_member s u = None \<Longrightarrow> \<not> is_banned s u \<Longrightarrow> r \<in> {MEMBER, SUBSCRIBER} \<Longrightarrow> fit s u r"
    and seat: "I s \<Longrightarrow> fit s u r \<Longrightarrow> I (save_member u (new_seat r) s)"
    and drop: "I s \<Longrightarrow> get_member s u = Some q \<Longrightarrow> sr_role q \<noteq> OWNER \<Longrightarrow> I (delete_member u s)"
    and banning: "I s \<Longrightarrow> (\<And>q. get_member s u = Some q \<Longrightarrow> sr_role q \<noteq> OWNER) \<Longrightarrow> I (ban_member u s)"
    and unbanning: "I s \<Longrightarrow> I (unban_member u s)"
    and role: "I s \<Longrightarrow> get_member s u = Some q \<Longrightarrow> role_change_allowed (role_value a) (role_value (sr_role q)) (role_value new)
      \<Longrightarrow> (a = OWNER \<Longrightarrow> sovereign) \<Longrightarrow> I (set_member_role u new s)"
    and move: "I s \<Longrightarrow> sovereign \<Longrightarrow> get_member s to_user = Some t \<Longrightarrow> sr_role t \<noteq> OWNER
      \<Longrightarrow> out = owner_seat s \<or> (\<exists>u q. out = Some u \<and> get_member s u = Some q \<and> sr_role q = OWNER)
      \<Longrightarrow> out_role \<in> {ADMIN, MEMBER} \<Longrightarrow> I (move_ownership out out_role to_user name s)"
    and purge: "I s \<Longrightarrow> sd_space s = Some sp \<Longrightarrow> ss_host sp \<noteq> own \<Longrightarrow> I (purge_space s)"
    and mirror: "I s \<Longrightarrow> sd_space s = None \<Longrightarrow> I (s\<lparr>sd_space := Some sp\<rparr>)"
begin

lemma kept [simp]:
  assumes "I s"
  shows "I (announce ev s)" "I (rotate_and_distribute_space_key e s)" "I (notify_host_of_leave e sp u s)"
    "I (announce_revoked e i s)" "I (publish_admin_revoked e i d s)" "I (update_invitation_status i st s)"
    "I (release_invite_token_use t s)" "I (s\<lparr>sd_tokens := ts\<rparr>)" "I (s\<lparr>sd_epoch := k\<rparr>)"
    "I (add_space_instance i s)" "I (snd (apply_member_event now ver mev s))" "I (apply_roster_gossip e n raw mev s)"
  by (rule view [OF assms], simp)+

lemma aside_keeps_law: "aside m \<Longrightarrow> keeps I m"
  unfolding aside_def keeps_def by (blast intro: view)

text \<open>Reading an aside action: the law still holds and the local view is the one from before.\<close>

lemma past: "aside m \<Longrightarrow> I s \<Longrightarrow> (\<And>x s'. I s' \<Longrightarrow> local_view s' = local_view s \<Longrightarrow> Q x s')
    \<Longrightarrow> (\<And>e s'. I s' \<Longrightarrow> E e s') \<Longrightarrow> wp m Q E s"
  by (rule aside_wp) (blast intro: view)+

lemma local_role:
  assumes "I s" "get_member s u = Some q" "role_change_allowed (role_value a) (role_value (sr_role q)) (role_value new)"
    "a = OWNER \<Longrightarrow> sovereign"
  shows "wp (apply_local_role e sp u old new) (\<lambda>_. I) (\<lambda>_. I) s"
proof -
  have "I (set_member_role u new s)" using assms by (rule role)
  moreover have "keeps I (afterwards (emit_local_gossip e u new)
      (andthen (rotate_if_writer_scope_weakened e (en_own e) b False) (\<lambda>_. ret ())))" for b
    by (intro aside_keeps_law) (auto intro!: aside_parts)
  ultimately show ?thesis
    by (auto simp: apply_local_role_def wp_simps keeps_wp)
qed

lemma set_role_law:
  assumes "I s" "owner_asks e actor s \<Longrightarrow> sovereign"
  shows "wp (set_role e actor u v) (\<lambda>_. I) (\<lambda>_. I) s"
proof -
  have fwd: "wp (forward_role_change e sp actor i u r v) (\<lambda>_. I) (\<lambda>_. I) s" for sp i r
    using assms(1) by (intro past) (simp_all add: aside_forward)
  have "wp (apply_local_role e sp u old (the (space_role v))) (\<lambda>_. I) (\<lambda>_. I) s"
    if "map_of (en_accounts e) actor = Some a" "get_member s (ac_id a) = Some seat" "get_member s u = Some t"
      "role_change_allowed (role_value (sr_role seat)) (role_value (sr_role t)) v" for sp a seat t old
    using assms that by (intro local_role [of s u t "sr_role seat"]) (auto simp: allowed_role owner_asks_def actor_seat_def)
  with fwd assms(1) show ?thesis
    by (auto simp: set_role_def guard_defs wp_simps split: option.split)
qed

lemma transfer_law:
  assumes "I s" "owner_asks e actor s \<Longrightarrow> sovereign"
  shows "wp (transfer_ownership e actor u) (\<lambda>_. I) (\<lambda>_. I) s"
  using assms
  by (auto simp: transfer_ownership_def check_new_owner_def guard_defs wp_simps owner_asks_def actor_seat_def
      split: option.split intro!: move)

lemma reassign_law:
  assumes "I s" "owner_act e (ReassignOwnership actor u) s \<Longrightarrow> sovereign"
  shows "wp (reassign_orphaned_ownership e actor u) (\<lambda>_. I) (\<lambda>_. I) s"
  using assms
  by (auto simp: reassign_orphaned_ownership_def check_new_owner_def guard_defs wp_simps split: option.split intro!: move)

lemma remove_member_law:
  assumes "I s"
  shows "wp (remove_member e actor u) (\<lambda>_. I) (\<lambda>_. I) s"
  using assms drop
  by (auto simp: remove_member_def guard_defs Let_def wp_simps comp_def split: option.split intro!: past [OF aside_gossip])

lemma ban_law:
  assumes "I s"
  shows "wp (ban e actor u) (\<lambda>_. I) (\<lambda>_. I) s"
  using assms
  by (auto simp: ban_def guard_defs wp_simps split: option.split
      intro!: past [OF aside_gossip] past [OF aside_forward(1)] past [OF aside_remove_remote] kept(1) banning)

lemma unban_law: "I s \<Longrightarrow> wp (unban e actor u) (\<lambda>_. I) (\<lambda>_. I) s"
  by (auto simp: unban_def guard_defs wp_simps split: option.split intro!: past [OF aside_forward(1)] kept(1) unbanning)

lemma space_announce: "sd_space (announce ev s) = sd_space s"
  by (simp add: announce_def)

lemma later_fresh:
  assumes "I s'" "local_view s' = local_view s" "get_member s u = None" "\<not> is_banned s u" "r \<in> {MEMBER, SUBSCRIBER}"
  shows "I (save_member u (new_seat r) s')"
  using assms by (intro seat fresh) (simp_all add: view_get_member [of s' s] view_is_banned [of s' s])

text \<open>A seat that fits now still fits after actions that leave the local seats alone.\<close>

lemma later_seat: "local_view s' = local_view s \<Longrightarrow> I s' \<Longrightarrow> fit s u r \<Longrightarrow> I (save_member u (new_seat r) s')"
  by (rule seat) (auto intro: fit_view)

lemma seat_local_law: "I s \<Longrightarrow> fit s u r \<Longrightarrow> wp (seat_local_member e u r a auto) (\<lambda>_. I) (\<lambda>_. I) s"
  by (auto simp: seat_local_member_def wp_simps intro!: past [OF aside_local_gossip] kept(1) seat)

lemma add_member_law:
  assumes "I s" "\<not> is_banned s u \<Longrightarrow> fit s u r"
  shows "wp (add_member e actor u r) (\<lambda>_. I) (\<lambda>_. I) s"
  using assms
  by (auto simp: add_member_def check_space_age_gate_def require_local_seat_def guard_defs wp_simps split: option.split
      intro!: seat_local_law)

lemma household_law: "I s \<Longrightarrow> wp (seat_household_members e sp a only) (\<lambda>_. I) (\<lambda>_. I) s"
proof -
  have "keeps I (seat_household_members e sp a only)"
    unfolding seat_household_members_def
    by (intro keeps_if keeps_ret keeps_gather)
      (auto simp: keeps_wp wp_simps Let_def fresh intro!: seat_local_law split: prod.split)
  then show "I s \<Longrightarrow> wp (seat_household_members e sp a only) (\<lambda>_. I) (\<lambda>_. I) s" by (simp add: keeps_wp)
qed

lemma provisioned_law: "I s \<Longrightarrow> wp (seat_provisioned_user e u) (\<lambda>_. I) (\<lambda>_. I) s"
  by (auto simp: seat_provisioned_user_def wp_simps split: option.split intro: household_law)

lemma accept_law:
  assumes "I s" "\<not> is_banned s u \<Longrightarrow> fit s u MEMBER"
  shows "wp (accept_local_invite e i u) (\<lambda>_. I) (\<lambda>_. I) s"
  using assms
  by (auto simp: accept_local_invite_def own_invitation_def check_space_age_gate_def guard_defs wp_simps later_seat
      split: option.split intro!: past [OF aside_seat_or_review])

lemma redeem_law:
  assumes "I s" "case entrant e (RedeemToken t u) s of None \<Rightarrow> True | Some (v, r) \<Rightarrow> fit s v r"
  shows "wp (accept_invite_token e t u) (\<lambda>_. I) (\<lambda>_. I) s"
proof (cases "fst (consume_invite_token (en_now e) t u s)")
  case None
  then show ?thesis using assms(1)
    by (auto simp: accept_invite_token_def wp_simps intro: view)
next
  case (Some tk)
  obtain tk0 where tk0: "get_live_invite_token (en_now e) s t = Some tk0" "\<not> is_banned s u" "tk_role tk = tk_role tk0"
    using Some by (auto simp: consume_invite_token_def Let_def split: option.splits if_splits)
  define s1 where "s1 = snd (consume_invite_token (en_now e) t u s)"
  have s1: "I s1" "local_view s1 = local_view s" using assms(1) by (auto simp: s1_def intro: view)
  have "fit s u (if tk_role tk = ADMIN then MEMBER else tk_role tk)" using assms(2) tk0 by (simp split: if_splits)
  then show ?thesis using s1 Some
    by (auto simp: accept_invite_token_def Let_def check_space_age_gate_def wp_simps simp flip: s1_def split: option.split
        intro!: past [OF aside_seat_or_review] past [OF aside_local_gossip] past [OF aside_file(2)]
        simp: later_seat)
qed

lemma request_join_law: "I s \<Longrightarrow> wp (request_join e u) (\<lambda>_. I) (\<lambda>_. I) s"
  by (auto simp: request_join_def read_space_def seat_of_def require_local_seat_def check_space_age_gate_def
      file_local_join_request_def guard_defs wp_simps split: option.split if_splits
      intro!: seat_local_law fresh intro: view)

lemma approve_law:
  assumes "I s" "case entrant e (ApproveRequest rid actor via) s of None \<Rightarrow> True | Some (v, r) \<Rightarrow> fit s v r"
    "owner_asks e actor s \<Longrightarrow> sovereign"
  shows "wp (approve_join_request e rid actor via) (\<lambda>_. I) (\<lambda>_. I) s"
proof -
  have sov: "local_view s' = local_view s \<Longrightarrow> owner_asks e actor s' \<Longrightarrow> sovereign" for s'
    using assms(3) owner_asks_view by blast
  have elevation: "wp (approve_elevation e rid actor a row sp q) (\<lambda>_. I) (\<lambda>_. I) s" for a row sp q
    using assms(1)
    by (auto simp: approve_elevation_def wp_simps split: option.split
        intro!: past [OF aside_answer] past [OF aside_set_remote_role] wp_mono [OF set_role_law] intro: sov)
  show ?thesis
  proof (cases "map_of (sd_requests s) rid")
    case None
    then show ?thesis using assms(1)
      by (auto simp: approve_join_request_def pending_join_request_def asserted_actor_def wp_simps split: option.split)
  next
    case (Some row)
    have "jr_role row \<noteq> Some ADMIN \<Longrightarrow> jr_instance row = None \<Longrightarrow> fit s (jr_user row) MEMBER"
      using assms(2) Some by simp
    with Some assms(1) show ?thesis
      by (auto simp: approve_join_request_def pending_join_request_def check_space_age_gate_def guard_defs wp_simps
          elevation later_seat split: option.split intro!: past [OF aside_answer])
  qed
qed

lemma subscribe_law: "I s \<Longrightarrow> wp (subscribe_to_space e u) (\<lambda>_. I) (\<lambda>_. I) s"
  by (auto simp: subscribe_to_space_def mirror_first_def check_space_age_gate_def guard_defs wp_simps mirror
      split: option.split intro!: past [OF aside_seat_or_review] kept(1) intro: later_fresh)

lemma unsubscribe_law:
  assumes "I s" "en_own e = own"
  shows "wp (unsubscribe_from_space e u) (\<lambda>_. I) (\<lambda>_. I) s"
proof -
  have "I (if mirror_unused e s' then purge_space (announce GfsUnsubscribed s') else s')" if "I s'" for s'
    using that assms(2) purge [of "announce GfsUnsubscribed s'"]
    by (auto simp: mirror_unused_def space_announce split: option.splits)
  then show ?thesis using assms(1) drop [OF assms(1)]
    by (auto simp: unsubscribe_from_space_def wp_simps simp del: if_split_asm split: option.split)
qed

lemma kick_law: "I s \<Longrightarrow> wp (apply_remote_admin_kick e i a u) (\<lambda>_. I) (\<lambda>_. I) s"
  by (auto simp: apply_remote_admin_kick_def wp_simps split: option.split
      intro!: remove_member_law past [OF aside_remove_remote])

lemma forwarded_law: "I s \<Longrightarrow> wp (apply_forwarded_role_change e sp i a j u f v) (\<lambda>_. I) (\<lambda>_. I) s"
proof -
  assume I: "I s"
  have "wp (apply_local_role e sp u (sr_role q) new) (\<lambda>_. I) (\<lambda>_. I) s"
    if v: "validate_forwarded_role_change e ADMIN j u f v s = Some (new, Inl q)" for q new
  proof (rule local_role [OF I, where a = ADMIN])
    have "space_role v = Some new" using v by (auto simp: validate_forwarded_role_change_def Let_def split: option.splits if_splits)
    with v show "role_change_allowed (role_value ADMIN) (role_value (sr_role q)) (role_value new)"
      by (auto simp: validate_forwarded_role_change_def Let_def space_role_text split: option.splits if_splits)
    from v show "get_member s u = Some q"
      by (auto simp: validate_forwarded_role_change_def Let_def split: option.splits if_splits)
  qed simp
  with I show ?thesis
    by (auto simp: apply_forwarded_role_change_def wp_simps split: option.split sum.split intro!: past [OF aside_remote_role])
qed

lemma admin_action_law: "I s \<Longrightarrow> wp (run_admin_action e sp i a action) (\<lambda>_. I) (\<lambda>_. I) s"
  by (cases action) (auto simp: run_admin_action_def wp_simps intro: ban_law unban_law forwarded_law)

lemma remote_action_law:
  "I s \<Longrightarrow> wp (apply_remote_admin_action e i a action) (\<lambda>_. I) (\<lambda>_. I) s"
  "I s \<Longrightarrow> wp (apply_approved_admin_action e i a action) (\<lambda>_. I) (\<lambda>_. I) s"
  by (auto simp: apply_remote_admin_action_def apply_approved_admin_action_def wp_simps admin_action_law split: option.split)

lemma aside_law: "aside m \<Longrightarrow> I s \<Longrightarrow> wp m (\<lambda>_. I) (\<lambda>_. I) s"
  by (rule past)

text \<open>Every request keeps the law, if it is one the law has to bear and the seat it writes over another one fits.\<close>

theorem request_law:
  assumes "I s" "en_own e = own" "owner_act e req s \<Longrightarrow> sovereign"
    and "case entrant e req s of None \<Rightarrow> True | Some (u, r) \<Rightarrow> fit s u r"
  shows "wp (perform e req) (\<lambda>_. I) (\<lambda>_. I) s"
  using assms
proof (cases req)
  case (RosterEvent k raw ev)
  then show ?thesis using assms(1) by (simp add: wp_simps)
qed (simp_all only: perform.simps wp_andthen wp_ret owner_act.simps;
    auto intro: add_member_law provisioned_law accept_law redeem_law request_join_law approve_law subscribe_law
      unsubscribe_law set_role_law transfer_law reassign_law remove_member_law ban_law unban_law kick_law remote_action_law
      aside_law aside_invite aside_deny aside_set_remote_role aside_remove_remote aside_left)+

lemma step_law:
  assumes "I s" "en_own e = own" "owner_act e req s \<Longrightarrow> sovereign"
    "case entrant e req s of None \<Rightarrow> True | Some (u, r) \<Rightarrow> fit s u r"
  shows "I (seat_step (e, req) s)"
  using request_law [OF assms] by (simp add: leaves_wp seat_step_def)

lemma run_law:
  "I s \<Longrightarrow> along (\<lambda>e req s. en_own e = own \<and> (owner_act e req s \<longrightarrow> sovereign)
      \<and> (case entrant e req s of None \<Rightarrow> True | Some (u, r) \<Rightarrow> fit s u r)) cs s
    \<Longrightarrow> I (seat_run cs s)"
proof (induction cs arbitrary: s)
  case Nil
  then show ?case by (simp add: seat_run_def)
next
  case (Cons c cs)
  then have "I (seat_step c s)" by (cases c) (auto intro: step_law)
  with Cons show ?case by (simp add: seat_run_def)
qed

end

end
