(* ===== verification/Space_Seat_Owner.thy ===== *)
theory Space_Seat_Owner
  imports Space_Seat_Law
begin

text \<open>
  Three laws of a space's seats: it has exactly one owner, a banned user holds no seat, and nobody but the owner makes
  an admin.  Each is an interpretation of the locale \<open>seat_law\<close>.
\<close>

section \<open>Seats after a statement\<close>

lemma get_save: "get_member (save_member u x s) v =
    (if v = u then Some (case get_member s u of None \<Rightarrow> x | Some old \<Rightarrow>
       x\<lparr>sr_picture := (case sr_picture x of None \<Rightarrow> sr_picture old | Some p \<Rightarrow> Some p)\<rparr>) else get_member s v)"
  by (simp add: get_member_def save_member_def update_conv')

lemma get_delete: "get_member (delete_member u s) v = (if v = u then None else get_member s v)"
  by (simp add: get_member_def delete_member_def delete_conv')

lemma get_set_role: "get_member (set_member_role u r s) v =
    (if v = u then map_option (\<lambda>x. x\<lparr>sr_role := r\<rparr>) (get_member s u) else get_member s v)"
proof -
  have "map_of (AList.map_entry u f xs) v = (if v = u then map_option f (map_of xs u) else map_of xs v)" for f :: "seat_row \<Rightarrow> seat_row" and xs
    by (induction xs) auto
  then show ?thesis by (simp add: get_member_def set_member_role_def)
qed

lemma get_ban: "get_member (ban_member u s) v = (if v = u then None else get_member s v)"
  by (simp add: ban_member_def get_delete) (simp add: get_member_def)

lemma get_move: "get_member (move_ownership out out_role to_user name s) =
    get_member (set_member_role to_user OWNER (case out of None \<Rightarrow> s | Some u \<Rightarrow> set_member_role u out_role s))"
  by (simp add: move_ownership_def Let_def get_member_def announce_def increment_config_sequence_def
      record_owner_change_def on_space_def fun_eq_iff)

lemma banned_statements [simp]:
  "is_banned (save_member u x s) v = is_banned s v"
  "is_banned (delete_member u s) v = is_banned s v"
  "is_banned (set_member_role u r s) v = is_banned s v"
  "is_banned (ban_member u s) v = (v = u \<or> is_banned s v)"
  "is_banned (unban_member u s) v = (v \<noteq> u \<and> is_banned s v)"
  "is_banned (move_ownership out out_role to_user name s) v = is_banned s v"
  by (auto simp: is_banned_def save_member_def delete_member_def set_member_role_def ban_member_def unban_member_def
      move_ownership_def Let_def announce_def increment_config_sequence_def record_owner_change_def on_space_def
      split: option.split)

lemma role_save: "map_option sr_role (get_member (save_member u (new_seat r) s) v) =
    (if v = u then Some r else map_option sr_role (get_member s v))"
  by (simp add: get_save new_seat_def split: option.split)

section \<open>One owner\<close>

definition owns :: "seat_db \<Rightarrow> string \<Rightarrow> bool" where
  "owns s u \<longleftrightarrow> map_option sr_role (get_member s u) = Some OWNER"

definition owners :: "seat_db \<Rightarrow> string list" where
  "owners s = map fst (filter (\<lambda>(u, r). sr_role r = OWNER) (sd_members s))"

definition one_row_each :: "seat_db \<Rightarrow> bool" where
  "one_row_each s \<longleftrightarrow> distinct (map fst (sd_members s))"

definition hosted_by :: "string \<Rightarrow> seat_db \<Rightarrow> bool" where
  "hosted_by own s \<longleftrightarrow> map_option ss_host (sd_space s) = Some own"

definition sole_owner :: "string \<Rightarrow> seat_db \<Rightarrow> bool" where
  "sole_owner own s \<longleftrightarrow> hosted_by own s \<and> one_row_each s \<and> length (owners s) = 1"

lemma set_owners: "one_row_each s \<Longrightarrow> set (owners s) = {u. owns s u}"
  by (force simp: owners_def owns_def get_member_def one_row_each_def)

lemma distinct_owners: "one_row_each s \<Longrightarrow> distinct (owners s)"
  unfolding owners_def one_row_each_def by (rule distinct_map_filter)

lemma sole_owner_iff: "sole_owner own s \<longleftrightarrow> hosted_by own s \<and> one_row_each s \<and> (\<exists>u. {v. owns s v} = {u})"
proof -
  have "length (owners s) = 1 \<longleftrightarrow> (\<exists>u. {v. owns s v} = {u})" if "one_row_each s"
  proof -
    have "length (owners s) = card {v. owns s v}"
      using that by (metis distinct_card distinct_owners set_owners)
    then show ?thesis by (simp add: card_1_singleton_iff)
  qed
  then show ?thesis by (auto simp: sole_owner_def)
qed

lemma find_filter: "find P xs = (case filter P xs of [] \<Rightarrow> None | x # _ \<Rightarrow> Some x)"
  by (induction xs) auto

lemma owner_seat_owners: "owner_seat s = (case owners s of [] \<Rightarrow> None | u # _ \<Rightarrow> Some u)"
  by (auto simp: owner_seat_def owners_def find_filter split: list.split)

lemma owner_seat_owns:
  assumes "one_row_each s" "{v. owns s v} = {u}"
  shows "owner_seat s = Some u"
proof -
  have "set (owners s) = {u}" using assms by (simp add: set_owners)
  then show ?thesis by (cases "owners s") (auto simp: owner_seat_owners)
qed

lemma one_row_statements [simp]:
  "one_row_each s \<Longrightarrow> one_row_each (save_member u x s)"
  "one_row_each s \<Longrightarrow> one_row_each (delete_member u s)"
  "one_row_each s \<Longrightarrow> one_row_each (set_member_role u r s)"
  "one_row_each s \<Longrightarrow> one_row_each (ban_member u s)"
  "one_row_each (unban_member u s) = one_row_each s"
  by (auto simp: one_row_each_def save_member_def delete_member_def set_member_role_def ban_member_def unban_member_def
      distinct_update distinct_delete distinct_map_entry)

lemma one_row_move: "one_row_each s \<Longrightarrow> one_row_each (move_ownership out r u n s)"
  by (auto simp: one_row_each_def move_ownership_def Let_def announce_def increment_config_sequence_def
      record_owner_change_def on_space_def set_member_role_def distinct_map_entry split: option.split)

lemma hosted_statements [simp]:
  "hosted_by own (save_member u x s) = hosted_by own s"
  "hosted_by own (delete_member u s) = hosted_by own s"
  "hosted_by own (set_member_role u r s) = hosted_by own s"
  "hosted_by own (ban_member u s) = hosted_by own s"
  "hosted_by own (unban_member u s) = hosted_by own s"
  by (simp_all add: hosted_by_def save_member_def delete_member_def set_member_role_def ban_member_def unban_member_def)

lemma hosted_move: "hosted_by own (move_ownership out r u n s) = hosted_by own s"
  by (auto simp: hosted_by_def move_ownership_def Let_def announce_def increment_config_sequence_def
      record_owner_change_def on_space_def set_member_role_def option.map_comp comp_def split: option.split)

lemma owns_statements:
  "owns (save_member u (new_seat r) s) v = (if v = u then r = OWNER else owns s v)"
  "owns (delete_member u s) v = (v \<noteq> u \<and> owns s v)"
  "owns (ban_member u s) v = (v \<noteq> u \<and> owns s v)"
  "owns (unban_member u s) v = owns s v"
  "owns (set_member_role u r s) v = (if v = u then get_member s u \<noteq> None \<and> r = OWNER else owns s v)"
  by (auto simp: owns_def role_save get_delete get_ban get_set_role) (auto simp: get_member_def unban_member_def)

lemma owns_move: "owns (move_ownership out r u n s) v =
    owns (set_member_role u OWNER (case out of None \<Rightarrow> s | Some w \<Rightarrow> set_member_role w r s)) v"
  by (simp add: owns_def get_move)

lemma owns_view: "local_view s' = local_view s \<Longrightarrow> owns s' u = owns s u"
  by (simp add: owns_def view_get_member [of s' s])

text \<open>A statement that leaves everybody's ownership as it was.\<close>

lemma sole_owner_same: "sole_owner own s \<Longrightarrow> (\<And>v. owns s' v = owns s v) \<Longrightarrow> hosted_by own s' \<Longrightarrow> one_row_each s'
    \<Longrightarrow> sole_owner own s'"
  by (simp add: sole_owner_iff)

lemma sole_ownerD: "sole_owner own s \<Longrightarrow> hosted_by own s" "sole_owner own s \<Longrightarrow> one_row_each s"
  by (simp_all add: sole_owner_iff)

interpretation owner: seat_law "sole_owner own" "\<lambda>s u r. r \<noteq> OWNER \<and> \<not> owns s u" True own for own
proof
  fix s s' :: seat_db
  assume "sole_owner own s" "local_view s' = local_view s"
  then show "sole_owner own s'"
    by (simp add: sole_owner_def hosted_by_def one_row_each_def owners_def local_view_def)
next
  fix s u r assume "sole_owner own s" "r \<noteq> OWNER \<and> \<not> owns s u"
  then show "sole_owner own (save_member u (new_seat r) s)"
    using sole_ownerD [of own s] by - (rule sole_owner_same [of own s], simp_all, auto simp: owns_statements)
next
  fix s u and q :: seat_row
  assume "sole_owner own s" "get_member s u = Some q" "sr_role q \<noteq> OWNER"
  then show "sole_owner own (delete_member u s)"
    using sole_ownerD [of own s] by - (rule sole_owner_same [of own s], simp_all, auto simp: owns_def get_delete get_ban get_set_role split: if_splits)
next
  fix s u assume "sole_owner own s" "\<And>q. get_member s u = Some q \<Longrightarrow> sr_role q \<noteq> OWNER"
  then show "sole_owner own (ban_member u s)"
    using sole_ownerD [of own s] by - (rule sole_owner_same [of own s], simp_all, auto simp: owns_def get_delete get_ban get_set_role split: if_splits)
next
  fix s u assume "sole_owner own s"
  then show "sole_owner own (unban_member u s)" by (simp add: sole_owner_iff owns_statements)
next
  fix s u a new and q :: seat_row
  assume h: "sole_owner own s" "get_member s u = Some q"
    "role_change_allowed (role_value a) (role_value (sr_role q)) (role_value new)"
  then have "sr_role q \<noteq> OWNER" "new \<noteq> OWNER"
    by (auto simp: role_change_allowed_def)
  with h(1,2) show "sole_owner own (set_member_role u new s)"
    using sole_ownerD [of own s] by - (rule sole_owner_same [of own s], simp_all, auto simp: owns_def get_delete get_ban get_set_role split: if_splits)
next
  fix s to_user out name and t :: seat_row and out_role
  assume h: "sole_owner own s" "get_member s to_user = Some t" "sr_role t \<noteq> OWNER"
    and out: "out = owner_seat s \<or> (\<exists>u q. out = Some u \<and> get_member s u = Some q \<and> sr_role q = OWNER)"
    and r: "out_role \<in> {ADMIN, MEMBER}"
  from h(1) obtain u where u: "one_row_each s" "{v. owns s v} = {u}" by (auto simp: sole_owner_iff)
  with out have "out = Some u" by (auto simp: owner_seat_owns owns_def set_eq_iff)
  have o': "owns s v \<longleftrightarrow> v = u" for v using u(2) by auto
  have "owns (move_ownership out out_role to_user name s) v \<longleftrightarrow> v = to_user" for v
    using \<open>out = Some u\<close> h(2) r by (auto simp: owns_move owns_statements get_set_role o')
  then have "{v. owns (move_ownership out out_role to_user name s) v} = {to_user}" by simp
  with h(1) show "sole_owner own (move_ownership out out_role to_user name s)"
    unfolding sole_owner_iff by (blast intro: one_row_move hosted_move [THEN iffD2])
next
  fix s sp assume "sole_owner own s" "sd_space s = Some sp" "ss_host sp \<noteq> own"
  then show "sole_owner own (purge_space s)" by (simp add: sole_owner_def hosted_by_def)
next
  fix s sp assume "sole_owner own s" "sd_space s = None"
  then show "sole_owner own (s\<lparr>sd_space := Some sp\<rparr>)" by (simp add: sole_owner_def hosted_by_def)
next
  fix s s' :: seat_db and u r assume "r \<noteq> OWNER \<and> \<not> owns s u" "local_view s' = local_view s"
  then show "r \<noteq> OWNER \<and> \<not> owns s' u" by (simp add: owns_view [of s' s])
next
  fix s u r assume "get_member s u = None" "r \<in> {MEMBER, SUBSCRIBER}"
  then show "r \<noteq> OWNER \<and> \<not> owns s u" by (auto simp: owns_def)
qed

section \<open>Bans\<close>

definition local_bans_hold :: "seat_db \<Rightarrow> bool" where
  "local_bans_hold s \<longleftrightarrow> (\<forall>u \<in> set (sd_bans s). get_member s u = None)"

lemma local_bans_iff: "local_bans_hold s \<longleftrightarrow> (\<forall>u. is_banned s u \<longrightarrow> get_member s u = None)"
  by (auto simp: local_bans_hold_def is_banned_def)

lemma get_unban: "get_member (unban_member u s) v = get_member s v"
  by (simp add: get_member_def unban_member_def)

interpretation bans: seat_law local_bans_hold "\<lambda>s u r. \<not> is_banned s u" True own for own
proof
  fix s s' :: seat_db
  assume "local_bans_hold s" "local_view s' = local_view s"
  then show "local_bans_hold s'" by (simp add: local_bans_hold_def local_view_def get_member_def)
next
  fix s s' :: seat_db and u assume "\<not> is_banned s u" "local_view s' = local_view s"
  then show "\<not> is_banned s' u" by (simp add: view_is_banned [of s' s])
next
  fix s u a new and q :: seat_row
  assume "local_bans_hold s"
  then show "local_bans_hold (set_member_role u new s)" by (auto simp: local_bans_iff get_set_role)
next
  fix s to_user out name and t :: seat_row and out_role
  assume "local_bans_hold s" "get_member s to_user = Some t"
  then show "local_bans_hold (move_ownership out out_role to_user name s)"
    by (auto simp: local_bans_iff get_move get_set_role split: option.split)
next
  fix s sp assume "local_bans_hold s"
  then show "local_bans_hold (purge_space s)" by (simp add: local_bans_hold_def purge_space_def)
next
  fix s sp assume "local_bans_hold s"
  then show "local_bans_hold (s\<lparr>sd_space := Some sp\<rparr>)" by (simp add: local_bans_hold_def get_member_def)
qed (auto simp: local_bans_iff get_save get_delete get_ban get_unban)

text \<open>The one way in that does not look at the ban list: the approval of a local user's plain request.\<close>

fun approves_banned :: "seat_request \<Rightarrow> seat_db \<Rightarrow> bool" where
  "approves_banned (ApproveRequest rid actor via) s = (case map_of (sd_requests s) rid of
     None \<Rightarrow> False
   | Some row \<Rightarrow> jr_role row \<noteq> Some ADMIN \<and> jr_instance row = None \<and> is_banned s (jr_user row))"
| "approves_banned _ s = False"

lemma entrant_banned: "entrant e req s = Some (u, r) \<Longrightarrow> is_banned s u \<Longrightarrow> approves_banned req s"
  by (cases "(e, req, s)" rule: entrant.cases) (auto split: if_splits option.splits)

section \<open>Authority\<close>

definition local_powers :: "seat_db \<Rightarrow> string set" where
  "local_powers s = fst ` set (filter (\<lambda>(u, r). get_member s u = Some r \<and> sr_role r \<in> {OWNER, ADMIN}) (sd_members s))"

lemma local_powers_iff: "u \<in> local_powers s \<longleftrightarrow> map_option sr_role (get_member s u) \<in> {Some OWNER, Some ADMIN}"
  by (force simp: local_powers_def get_member_def dest: map_of_SomeD)

lemma local_powers_view: "local_view s' = local_view s \<Longrightarrow> local_powers s' = local_powers s"
  by (simp add: local_powers_def local_view_def get_member_def)

interpretation power: seat_law "\<lambda>s. local_powers s \<subseteq> A" "\<lambda>s u r. r \<notin> {OWNER, ADMIN}" False own for A own
proof
  fix s s' :: seat_db assume "local_powers s \<subseteq> A" "local_view s' = local_view s"
  then show "local_powers s' \<subseteq> A" by (simp add: local_powers_view [of s' s])
next
  fix s u r assume "local_powers s \<subseteq> A" "r \<notin> {OWNER, ADMIN}"
  then show "local_powers (save_member u (new_seat r) s) \<subseteq> A" by (auto simp: local_powers_iff role_save subset_iff)
next
  fix s u assume "local_powers s \<subseteq> A"
  then show "local_powers (delete_member u s) \<subseteq> A" "local_powers (ban_member u s) \<subseteq> A" "local_powers (unban_member u s) \<subseteq> A"
    by (auto simp: local_powers_iff get_delete get_ban get_unban subset_iff split: if_splits)
next
  fix s u a new and q :: seat_row
  assume h: "local_powers s \<subseteq> A" "role_change_allowed (role_value a) (role_value (sr_role q)) (role_value new)" "a = OWNER \<Longrightarrow> False"
  then have "new \<notin> {OWNER, ADMIN}" by (auto simp: role_change_allowed_def split: if_splits)
  with h(1) show "local_powers (set_member_role u new s) \<subseteq> A"
    by (auto simp: local_powers_iff get_set_role subset_iff split: if_splits)
next
  fix s sp show "local_powers (purge_space s) \<subseteq> A" by (simp add: local_powers_def purge_space_def)
next
  fix s sp assume "local_powers s \<subseteq> A"
  then show "local_powers (s\<lparr>sd_space := Some sp\<rparr>) \<subseteq> A" by (simp add: local_powers_def get_member_def)
qed auto

end
