(* ===== verification/Space_Seat_Keys.thy ===== *)
theory Space_Seat_Keys
  imports Space_Seat_Laws
begin

text \<open>
  Who a fresh content key goes to.  While a request runs, a household that loses its last seat is taken off the list
  of member households before the key is rotated; the state between the two statements is the only one that is not
  clean.
\<close>

section \<open>Clean states\<close>

definition seated_household :: "seat_db \<Rightarrow> string \<Rightarrow> bool" where
  "seated_household s h \<longleftrightarrow> (\<exists>r \<in> set (sd_remote s). rr_instance r = h \<and> \<not> rr_dead r)"

definition new_events :: "seat_db \<Rightarrow> seat_db \<Rightarrow> seat_event list" where
  "new_events s0 s = drop (length (sd_log s0)) (sd_log s)"

text \<open>The messages that carry a fresh content key to a household as a member, and those that seal it to a follower.\<close>

fun key_reaches :: "string \<Rightarrow> seat_event \<Rightarrow> bool" where
  "key_reaches h (Rekeyed n hs) = (h \<in> set hs)"
| "key_reaches h (AuthorityBundle i k content) = (i = h \<and> content \<noteq> None)"
| "key_reaches h (OwnerRekey i n) = (i = h)"
| "key_reaches h _ = False"

fun sealed_to :: "string \<Rightarrow> seat_event \<Rightarrow> bool" where
  "sealed_to h (KeySealed n hs) = (h \<in> set hs)"
| "sealed_to h _ = False"

definition bound_follower :: "seat_env \<Rightarrow> string \<Rightarrow> bool" where
  "bound_follower e h \<longleftrightarrow> (\<exists>f \<in> set (en_followers e). fo_household f = h \<and> fo_bound f)"

definition readable :: "seat_db \<Rightarrow> bool" where
  "readable s \<longleftrightarrow> (case sd_space s of None \<Rightarrow> False | Some sp \<Rightarrow> publicly_readable sp)"

text \<open>
  Seen from the state \<open>s0\<close> a request started in: the keys sent so far went to nobody who is out by now, and as a
  follower's copy only where anybody may follow; nobody who is out is on the list of member households.
\<close>

definition sent_right :: "seat_env \<Rightarrow> seat_db \<Rightarrow> seat_db \<Rightarrow> bool" where
  "sent_right e s0 s \<longleftrightarrow> length (sd_log s0) \<le> length (sd_log s) \<and> (readable s \<longrightarrow> readable s0)
     \<and> (\<forall>ev \<in> set (new_events s0 s). \<forall>h. (key_reaches h ev \<longrightarrow> seated_household s0 h \<longrightarrow> seated_household s h)
          \<and> (sealed_to h ev \<longrightarrow> bound_follower e h \<and> readable s0))"

definition off_list :: "seat_db \<Rightarrow> seat_db \<Rightarrow> bool" where
  "off_list s0 s \<longleftrightarrow> (\<forall>h. seated_household s0 h \<longrightarrow> \<not> seated_household s h \<longrightarrow> h \<notin> set (sd_households s))"

definition clean :: "seat_env \<Rightarrow> seat_db \<Rightarrow> seat_db \<Rightarrow> bool" where
  "clean e s0 s \<longleftrightarrow> sent_right e s0 s \<and> off_list s0 s"

lemma clean_refl: "clean e s s"
  by (simp add: clean_def sent_right_def off_list_def new_events_def)

lemma clean_sent: "clean e s0 s \<Longrightarrow> sent_right e s0 s"
  by (simp add: clean_def)

definition key_view :: "seat_db \<Rightarrow> remote_row list \<times> string list \<times> seat_event list \<times> bool" where
  "key_view s = (sd_remote s, sd_households s, sd_log s, readable s)"

lemma sent_view:
  assumes "key_view s' = key_view s"
  shows "sent_right e s0 s' = sent_right e s0 s"
proof -
  have "sd_remote s' = sd_remote s" "sd_log s' = sd_log s" "readable s' = readable s" using assms by (simp_all add: key_view_def)
  then show ?thesis by (simp only: sent_right_def new_events_def seated_household_def)
qed

lemma clean_view:
  assumes "key_view s' = key_view s"
  shows "clean e s0 s' = clean e s0 s"
proof -
  have "sd_remote s' = sd_remote s" "sd_households s' = sd_households s" using assms by (simp_all add: key_view_def)
  then show ?thesis by (simp only: clean_def sent_view [OF assms] off_list_def seated_household_def)
qed

lemma publicly_readable_fields [simp]:
  "publicly_readable (ss_seed_update f1 sp) = publicly_readable sp"
  "publicly_readable (ss_roster_sequence_update f2 sp) = publicly_readable sp"
  "publicly_readable (ss_config_sequence_update f3 sp) = publicly_readable sp"
  "publicly_readable (ss_seed_shared_update f4 sp) = publicly_readable sp"
  "publicly_readable (ss_authority_epoch_update f5 sp) = publicly_readable sp"
  "publicly_readable (ss_owner_update f6 sp) = publicly_readable sp"
  "publicly_readable (ss_owner_seat_update f7 sp) = publicly_readable sp"
  by (simp_all add: publicly_readable_def)

lemma key_view_on_space: "(\<And>sp. publicly_readable (f sp) = publicly_readable sp) \<Longrightarrow> key_view (on_space f s) = key_view s"
  by (simp add: key_view_def on_space_def readable_def split: option.split)

lemma clean_on_space: "(\<And>sp. publicly_readable (f sp) = publicly_readable sp) \<Longrightarrow> clean e s0 (on_space f s) = clean e s0 s"
  by (rule clean_view [OF key_view_on_space])

lemma sent_on_space: "(\<And>sp. publicly_readable (f sp) = publicly_readable sp) \<Longrightarrow> sent_right e s0 (on_space f s) = sent_right e s0 s"
  by (rule sent_view [OF key_view_on_space])

lemma key_view_rows [simp]:
  "key_view (save_member u x s) = key_view s"
  "key_view (delete_member u s) = key_view s"
  "key_view (set_member_role u r s) = key_view s"
  "key_view (ban_member u s) = key_view s"
  "key_view (unban_member u s) = key_view s"
  "key_view (increment_config_sequence s) = key_view s"
  "key_view (record_owner_change n s) = key_view s"
  "key_view (save_invitation i u b s) = key_view s"
  "key_view (update_invitation_status i st s) = key_view s"
  "key_view (save_join_request rid u j ro v s) = key_view s"
  "key_view (release_invite_token_use t s) = key_view s"
  "key_view (s\<lparr>sd_tokens := ts\<rparr>) = key_view s"
  "key_view (s\<lparr>sd_epoch := k\<rparr>) = key_view s"
  "key_view (snd (answer_join_request rid st u s)) = key_view s"
  "key_view (snd (consume_invite_token now t u s)) = key_view s"
  by (simp_all add: increment_config_sequence_def record_owner_change_def key_view_on_space)
    (simp_all add: key_view_def readable_def save_member_def delete_member_def set_member_role_def ban_member_def unban_member_def
      save_invitation_def update_invitation_status_def
      save_join_request_def release_invite_token_use_def answer_join_request_def consume_invite_token_def Let_def
      split: option.split)

lemma clean_rows [simp]:
  "clean e s0 (save_member u x s) = clean e s0 s"
  "clean e s0 (delete_member u s) = clean e s0 s"
  "clean e s0 (set_member_role u r s) = clean e s0 s"
  "clean e s0 (ban_member u s) = clean e s0 s"
  "clean e s0 (unban_member u s) = clean e s0 s"
  "clean e s0 (on_space (ss_seed_update f1) s) = clean e s0 s"
  "clean e s0 (on_space (ss_roster_sequence_update f2) s) = clean e s0 s"
  "clean e s0 (save_invitation i u b s) = clean e s0 s"
  "clean e s0 (update_invitation_status i st s) = clean e s0 s"
  "clean e s0 (save_join_request rid u j ro v s) = clean e s0 s"
  "clean e s0 (release_invite_token_use t s) = clean e s0 s"
  "clean e s0 (s\<lparr>sd_tokens := ts\<rparr>) = clean e s0 s"
  "clean e s0 (s\<lparr>sd_epoch := k\<rparr>) = clean e s0 s"
  by (rule clean_view, simp add: key_view_on_space)+

lemma new_events_announce: "length (sd_log s0) \<le> length (sd_log s) \<Longrightarrow> new_events s0 (announce ev s) = new_events s0 s @ [ev]"
  by (simp add: new_events_def announce_def)

lemma announce_fields [simp]:
  "sd_remote (announce ev s) = sd_remote s" "sd_households (announce ev s) = sd_households s"
  "sd_space (announce ev s) = sd_space s" "sd_epoch (announce ev s) = sd_epoch s"
  "sd_household_bans (announce ev s) = sd_household_bans s"
  "seated_household (announce ev s) h = seated_household s h" "readable (announce ev s) = readable s"
  by (simp_all add: announce_def seated_household_def readable_def)

lemma sent_announce:
  assumes "sent_right e s0 s" "\<And>h. key_reaches h ev \<Longrightarrow> seated_household s0 h \<Longrightarrow> seated_household s h"
    "\<And>h. sealed_to h ev \<Longrightarrow> bound_follower e h \<and> readable s0"
  shows "sent_right e s0 (announce ev s)"
proof -
  have "length (sd_log s) \<le> length (sd_log (announce ev s))" by (simp add: announce_def)
  with assms show ?thesis by (auto simp: sent_right_def new_events_announce)
qed

lemma clean_announce [simp]:
  "clean e s0 s \<Longrightarrow> (\<And>h. \<not> key_reaches h ev) \<Longrightarrow> (\<And>h. \<not> sealed_to h ev) \<Longrightarrow> clean e s0 (announce ev s)"
  by (auto simp: clean_def off_list_def intro!: sent_announce)

text \<open>A step that sends the right keys and touches neither seats of other households nor the list.\<close>

lemma clean_sends:
  assumes "clean e s0 s" "sent_right e s0 s'" "sd_remote s' = sd_remote s" "sd_households s' = sd_households s"
  shows "clean e s0 s'"
  using assms by (simp add: clean_def off_list_def seated_household_def)

section \<open>The rotation of the content key\<close>

lemma fresh_fields [simp]:
  "key_view (snd (fresh_content_key e s)) = key_view s"
  "sd_remote (snd (fresh_content_key e s)) = sd_remote s"
  "sd_households (snd (fresh_content_key e s)) = sd_households s"
  "sd_household_bans (snd (fresh_content_key e s)) = sd_household_bans s"
  "sd_space (snd (fresh_content_key e s)) = sd_space s"
  "sd_log (snd (fresh_content_key e s)) = sd_log s"
  by (simp_all add: fresh_content_key_def Let_def)

lemma reseal_fields [simp]:
  "sd_remote (reseal_followers e s) = sd_remote s" "sd_households (reseal_followers e s) = sd_households s"
  "sd_household_bans (reseal_followers e s) = sd_household_bans s" "sd_epoch (reseal_followers e s) = sd_epoch s"
  "sd_space (reseal_followers e s) = sd_space s"
  by (simp_all add: reseal_followers_def split: option.split)

lemma due_bound: "h \<in> set (due_followers e n) \<Longrightarrow> bound_follower e h"
  by (auto simp: due_followers_def bound_follower_def)

lemma sent_reseal: "sent_right e s0 s \<Longrightarrow> sent_right e s0 (reseal_followers e s)"
  by (auto simp: reseal_followers_def due_bound split: option.split intro!: sent_announce)
    (simp add: sent_right_def readable_def)

lemma households_sent: "set (member_households e n s) \<subseteq> set (sd_households s)"
  by (auto simp: member_households_def list_member_instance_ids_def)

lemma rotate_fields [simp]:
  "sd_remote (rotate_and_distribute_space_key e s) = sd_remote s"
  "sd_households (rotate_and_distribute_space_key e s) = sd_households s"
  "sd_household_bans (rotate_and_distribute_space_key e s) = sd_household_bans s"
  by (simp_all add: rotate_and_distribute_space_key_def case_prod_unfold split: option.split)

lemma clean_rotate [simp]:
  assumes "clean e s0 s"
  shows "clean e s0 (rotate_and_distribute_space_key e s)"
proof -
  define t where "t = snd (fresh_content_key e s)"
  have t: "clean e s0 t" using assms by (simp add: t_def clean_view [OF fresh_fields(1)])
  have "sent_right e s0 (announce (Rekeyed n (member_households e 0 t)) (announce EpochAnnounced t))" for n
    using t households_sent [of e 0 t]
    by (intro sent_announce) (auto simp: clean_def off_list_def)
  then have "clean e s0 (reseal_followers e (announce (Rekeyed n (member_households e 0 t)) (announce EpochAnnounced t)))" for n
    by (intro clean_sends [OF t sent_reseal]) simp_all
  with t show ?thesis
    by (simp add: rotate_and_distribute_space_key_def case_prod_unfold flip: t_def split: option.split)
qed

section \<open>The rotation of the authority key\<close>

lemma hand_over_fields [simp]:
  "sd_remote (hand_over_seed i s) = sd_remote s" "sd_households (hand_over_seed i s) = sd_households s"
  "sd_household_bans (hand_over_seed i s) = sd_household_bans s" "sd_epoch (hand_over_seed i s) = sd_epoch s"
  by (simp_all add: hand_over_seed_def on_space_def)

lemma sent_hand_over: "sent_right e s0 s \<Longrightarrow> sent_right e s0 (hand_over_seed i s)"
  by (auto simp: hand_over_seed_def sent_on_space intro!: sent_announce)

lemma clean_hand_over [simp]: "clean e s0 s \<Longrightarrow> clean e s0 (hand_over_seed i s)"
  by (rule clean_sends) (simp_all add: clean_sent sent_hand_over)

lemma fold_keeps: "P s \<Longrightarrow> (\<And>x t. x \<in> set xs \<Longrightarrow> P t \<Longrightarrow> P (f x t)) \<Longrightarrow> P (fold f xs s)"
  by (induction xs arbitrary: s) simp_all

lemma bundle_seated:
  "ev \<in> set (concat (map (authority_messages e k c) (bundle_targets e s))) \<Longrightarrow> key_reaches h ev \<Longrightarrow> seated_household s h"
  by (auto simp: bundle_targets_def authority_messages_def Let_def seated_household_def live_of_instance_def filter_empty_conv
      split: if_splits option.splits)

lemma bundle_not_sealed:
  "ev \<in> set (concat (map (authority_messages e k c) (bundle_targets e s))) \<Longrightarrow> \<not> sealed_to h ev"
  by (auto simp: authority_messages_def Let_def split: if_splits option.splits)

lemma sent_bundle: "sent_right e s0 s \<Longrightarrow> sent_right e s0 (distribute_bundle e k c s) \<and> sd_remote (distribute_bundle e k c s) = sd_remote s"
  unfolding distribute_bundle_def
proof (rule fold_keeps [where P = "\<lambda>t. sent_right e s0 t \<and> sd_remote t = sd_remote s"])
  fix ev t
  assume "ev \<in> set (concat (map (authority_messages e k c) (bundle_targets e s)))" "sent_right e s0 t \<and> sd_remote t = sd_remote s"
  then show "sent_right e s0 (announce ev t) \<and> sd_remote (announce ev t) = sd_remote s"
    using bundle_seated [of ev e k c s] bundle_not_sealed [of ev e k c s]
    by (auto simp: seated_household_def intro!: sent_announce)
qed simp

lemma fold_fields:
  "(\<And>x t. f (g x t) = f t) \<Longrightarrow> f (fold g xs s) = f s"
  by (induction xs arbitrary: s) simp_all

lemma bundle_fields [simp]:
  "sd_remote (share_seed_with_admins e sp s) = sd_remote s"
  "sd_households (share_seed_with_admins e sp s) = sd_households s"
  "sd_household_bans (share_seed_with_admins e sp s) = sd_household_bans s"
  "sd_epoch (share_seed_with_admins e sp s) = sd_epoch s"
  "sd_remote (distribute_bundle e k c s) = sd_remote s"
  "sd_households (distribute_bundle e k c s) = sd_households s"
  "sd_household_bans (distribute_bundle e k c s) = sd_household_bans s"
  "sd_epoch (distribute_bundle e k c s) = sd_epoch s"
  "sd_remote (refresh_gfs e s) = sd_remote s"
  "sd_households (refresh_gfs e s) = sd_households s"
  "sd_household_bans (refresh_gfs e s) = sd_household_bans s"
  "sd_epoch (refresh_gfs e s) = sd_epoch s"
  by (simp_all add: share_seed_with_admins_def distribute_bundle_def refresh_gfs_def fold_fields split: option.split)

lemma authority_fields [simp]:
  "sd_remote (rotate_authority e share s) = sd_remote s"
  "sd_households (rotate_authority e share s) = sd_households s"
  "sd_household_bans (rotate_authority e share s) = sd_household_bans s"
  by (simp_all add: rotate_authority_def Let_def case_prod_unfold on_space_def split: option.split)

lemma sent_authority: "sent_right e s0 s \<Longrightarrow> sent_right e s0 (rotate_authority e share s)"
proof -
  assume s: "sent_right e s0 s"
  have shared: "sent_right e s0 (share_seed_with_admins e sp t)" if "sent_right e s0 t" for sp t
    unfolding share_seed_with_admins_def using that by (rule fold_keeps) (simp add: sent_hand_over)
  have refreshed: "sent_right e s0 (refresh_gfs e t)" if "sent_right e s0 t" for t
    using that by (auto simp: refresh_gfs_def split: option.split intro!: sent_reseal sent_announce)
  have "sent_right e s0 (snd (fresh_content_key e (on_space (\<lambda>x. x\<lparr>ss_authority_epoch := n, ss_seed := True\<rparr>) s)))" for n
    using s by (simp add: sent_view [OF fresh_fields(1)] sent_on_space)
  with s show ?thesis
    by (simp add: rotate_authority_def Let_def case_prod_unfold refreshed shared sent_bundle [THEN conjunct1] split: option.split)
qed

lemma clean_authority [simp]: "clean e s0 s \<Longrightarrow> clean e s0 (rotate_authority e share s)"
  by (rule clean_sends) (simp_all add: clean_sent sent_authority)

lemma sent_revoked: "sent_right e s0 s \<Longrightarrow> sent_right e s0 (announce_revoked e i s)"
  by (auto simp: announce_revoked_def on_revoked_def split: option.split intro!: sent_authority sent_announce)

lemma revoked_fields [simp]:
  "sd_remote (announce_revoked e i s) = sd_remote s" "sd_households (announce_revoked e i s) = sd_households s"
  "sd_household_bans (announce_revoked e i s) = sd_household_bans s"
  by (simp_all add: announce_revoked_def on_revoked_def split: option.split)

lemma clean_revoked [simp]:
  "clean e s0 s \<Longrightarrow> clean e s0 (announce_revoked e i s)"
  "clean e s0 s \<Longrightarrow> clean e s0 (publish_admin_revoked e i d s)"
  "clean e s0 s \<Longrightarrow> clean e s0 (notify_host_of_leave e sp u s)"
proof -
  show r: "clean e s0 s \<Longrightarrow> clean e s0 (announce_revoked e i s)" for s
    by (rule clean_sends) (simp_all add: clean_sent sent_revoked)
  then show "clean e s0 s \<Longrightarrow> clean e s0 (publish_admin_revoked e i d s)"
    by (simp add: publish_admin_revoked_def Let_def)
  show "clean e s0 s \<Longrightarrow> clean e s0 (notify_host_of_leave e sp u s)"
    by (simp add: notify_host_of_leave_def)
qed

section \<open>Seats of other households\<close>

text \<open>A change to the rows of other households that takes no live household out.\<close>

lemma clean_no_exit:
  assumes "clean e s0 s" "sd_households s' = sd_households s" "sd_log s' = sd_log s" "readable s' = readable s"
    "\<And>h. seated_household s h \<Longrightarrow> seated_household s' h"
  shows "clean e s0 s'"
  using assms by (auto simp: clean_def sent_right_def off_list_def new_events_def)

lemma put_fields [simp]:
  "sd_households (put_event now k ev s) = sd_households s" "sd_log (put_event now k ev s) = sd_log s"
  "sd_household_bans (put_event now k ev s) = sd_household_bans s" "sd_epoch (put_event now k ev s) = sd_epoch s"
  "sd_space (put_event now k ev s) = sd_space s"
  by (simp_all add: put_event_def upsert_remote_def on_remote_def)

lemma readable_put [simp]: "readable (put_event now k ev s) = readable s"
  by (simp add: readable_def)

lemma put_seated:
  assumes key: "\<not> me_dead ev \<or> (\<forall>r \<in> set (sd_remote s). same_remote (me_instance ev) (me_user ev) r \<longrightarrow> rr_dead r)"
    and "seated_household s h"
  shows "seated_household (put_event now k ev s) h"
proof -
  obtain r where r: "r \<in> set (sd_remote s)" "rr_instance r = h" "\<not> rr_dead r"
    using assms(2) by (auto simp: seated_household_def)
  let ?new = "event_row now k ev"
  let ?f = "\<lambda>x. if same_remote (me_instance ev) (me_user ev) x then merge_remote now ?new x else x"
  have new: "rr_instance ?new = me_instance ev" "rr_user ?new = me_user ev" by (simp_all add: event_row_def)
  show ?thesis
  proof (cases "list_ex (same_remote (me_instance ev) (me_user ev)) (sd_remote s)")
    case True
    then have rows: "sd_remote (put_event now k ev s) = map ?f (sd_remote s)"
      by (simp add: put_event_def upsert_remote_def on_remote_def new)
    have "rr_instance (?f r) = h \<and> \<not> rr_dead (?f r)"
      using r key by (auto simp: same_remote_def merge_remote_def event_row_def)
    moreover have "?f r \<in> set (sd_remote (put_event now k ev s))" unfolding rows using r(1) by simp
    ultimately show ?thesis unfolding seated_household_def by blast
  next
    case False
    then have "sd_remote (put_event now k ev s) = sd_remote s @ [?new]"
      by (simp add: put_event_def upsert_remote_def new)
    with r show ?thesis by (auto simp: seated_household_def)
  qed
qed

definition dead_key :: "string \<Rightarrow> string \<Rightarrow> seat_db \<Rightarrow> bool" where
  "dead_key i u s \<longleftrightarrow> (\<forall>r \<in> set (sd_remote s). same_remote i u r \<longrightarrow> rr_dead r)"

lemma clean_apply_event:
  assumes "clean e s0 s" "\<not> me_dead ev \<or> dead_key (me_instance ev) (me_user ev) s"
  shows "clean e s0 (snd (apply_member_event now v ev s))"
  using assms
  by (auto simp: apply_member_event_def dead_key_def put_seated split: option.split intro!: clean_no_exit [of e s0 s])

section \<open>Gossip\<close>

lemma dead_key_rows [simp]:
  "dead_key i u (announce ev s) = dead_key i u s"
  "dead_key i u (on_space f s) = dead_key i u s"
  by (simp_all add: dead_key_def on_space_def)

lemma dead_key_put: "dead_key i u s \<Longrightarrow> me_dead ev \<Longrightarrow> dead_key i u (put_event now k ev s)"
  by (auto simp: dead_key_def put_event_def upsert_remote_def on_remote_def merge_remote_def event_row_def same_remote_def)

lemma dead_key_send: "dead_key i u s \<Longrightarrow> me_dead ev \<Longrightarrow> dead_key i u (send_roster_event e ev s)"
  by (auto simp: send_roster_event_def Let_def apply_member_event_def dead_key_put split: option.split)

lemma clean_send:
  assumes "clean e s0 s" "\<not> me_dead ev \<or> me_instance ev = [] \<or> me_instance ev = en_own e \<or> dead_key (me_instance ev) (me_user ev) s"
  shows "clean e s0 (send_roster_event e ev s)"
  using assms by (auto simp: send_roster_event_def Let_def intro!: clean_announce clean_apply_event)

text \<open>A gossip keeps a clean state clean, and dead keys dead, when it announces nobody's end or the end of a dead key.\<close>

definition clean_dead :: "seat_env \<Rightarrow> seat_db \<Rightarrow> string \<Rightarrow> string set \<Rightarrow> seat_db \<Rightarrow> bool" where
  "clean_dead e s0 i U s \<longleftrightarrow> clean e s0 s \<and> (\<forall>u \<in> U. dead_key i u s)"

lemma wp_sequence:
  "wp (\<lambda>s. case increment_roster_sequence s of (Inl _, s') \<Rightarrow> (Inr (), s') | (Inr version, s') \<Rightarrow> (Inr (), f version s')) Q E s =
    (case sd_space s of None \<Rightarrow> Q () s
     | Some sp \<Rightarrow> Q () (f (Suc (ss_roster_sequence sp)) (on_space (ss_roster_sequence_update Suc) s)))"
  by (simp add: wp_def increment_roster_sequence_def split: option.split)

lemma gossip_dead:
  assumes "u \<in> U"
  shows "keeps (clean_dead e s0 i U) (emit_member_roster_gossip e u i n pk r True)"
proof (rule keepsI)
  fix s assume s: "clean_dead e s0 i U s"
  have send: "clean_dead e s0 i U (send_roster_event e ev t)"
    if "clean_dead e s0 i U t" "me_dead ev" "me_user ev = u" "me_instance ev = i" for ev t
    using that assms by (auto simp: clean_dead_def intro!: clean_send dead_key_send)
  have row: "clean_dead e s0 i U (on_space (ss_seed_update f) t) = clean_dead e s0 i U t"
    "clean_dead e s0 i U (on_space (ss_roster_sequence_update g) t) = clean_dead e s0 i U t"
    "clean_dead e s0 i U (rotate_authority e share t)" if "clean_dead e s0 i U t" for f g t share
    using that by (simp_all add: clean_dead_def) (simp add: dead_key_def)
  show "wp (emit_member_roster_gossip e u i n pk r True) (\<lambda>_. clean_dead e s0 i U) (\<lambda>_. clean_dead e s0 i U) s"
    using s by (auto simp: emit_member_roster_gossip_def ensure_space_seed_def wp_simps wp_sequence row send split: option.split)
qed

lemma gossip_live:
  assumes "\<not> t \<or> i = en_own e"
  shows "keeps (clean e s0) (emit_member_roster_gossip e u i n pk r t)"
  using assms
  by (intro keepsI) (auto simp: emit_member_roster_gossip_def ensure_space_seed_def wp_simps wp_sequence
      split: option.split intro!: clean_send)

lemma local_gossip_clean: "keeps (clean e s0) (emit_local_gossip e u r)"
  by (simp add: emit_local_gossip_def gossip_live)

section \<open>Requests that end no seat of another household\<close>

lemma keeps_if_asm: "(b \<Longrightarrow> keeps P m) \<Longrightarrow> (\<not> b \<Longrightarrow> keeps P m') \<Longrightarrow> keeps P (if b then m else m')"
  by simp

lemmas clean_rules = keeps_ret keeps_raise keeps_reads keeps_andthen keeps_afterwards keeps_trying keeps_raise_if
  keeps_doing_if keeps_if keeps_option keeps_for_each keeps_gather keeps_writes local_gossip_clean

lemma guards_clean:
  "keeps (clean e s0) require_space" "keeps (clean e s0) (actor_or_raise e a)" "keeps (clean e s0) (asserted_actor e a)" "keeps (clean e s0) (role_or_raise u rs)"
  "keeps (clean e s0) (require_admin_or_owner e a)" "keeps (clean e s0) (require_owner e a)"
  "keeps (clean e s0) (check_space_age_gate e u)" "keeps (clean e s0) (check_role_change old new v)"
  "keeps (clean e s0) (require_hosted_here e sp)" "keeps (clean e s0) (own_invitation i u)"
  "keeps (clean e s0) (require_local_seat e sp)" "keeps (clean e s0) (ensure_space_seed e)"
  by (auto simp: require_space_def actor_or_raise_def asserted_actor_def role_or_raise_def require_admin_or_owner_def require_owner_def
      check_space_age_gate_def check_role_change_def require_hosted_here_def own_invitation_def require_local_seat_def
      ensure_space_seed_def intro!: clean_rules)

lemma forward_clean:
  "keeps (clean e s0) (forward_admin_action_if_remote e sp a x)" "keeps (clean e s0) (forward_role_change e sp a i u f v)"
  by (auto simp: forward_admin_action_if_remote_def forward_role_change_def intro!: clean_rules guards_clean)

lemma seat_local_clean: "keeps (clean e s0) (seat_local_member e u r a auto)"
  by (auto simp: seat_local_member_def intro!: clean_rules)

lemma roles_clean:
  "keeps (clean e s0) (apply_local_role e sp u old new)"
  "keeps (clean e s0) (share_admin_signing_seed e sp i)"
  "keeps (clean e s0) (rotate_if_writer_scope_weakened e i b f)"
  by (auto simp: apply_local_role_def share_admin_signing_seed_def rotate_if_writer_scope_weakened_def Let_def
      intro!: clean_rules guards_clean)

lemma seated_on_remote: "seated_household (on_remote i u f s) h \<longleftrightarrow>
    (\<exists>r \<in> set (sd_remote s). if same_remote i u r then rr_instance (f r) = h \<and> \<not> rr_dead (f r) else rr_instance r = h \<and> \<not> rr_dead r)"
proof -
  let ?g = "\<lambda>r. if same_remote i u r then f r else r"
  have "sd_remote (on_remote i u f s) = map ?g (sd_remote s)" by (simp add: on_remote_def)
  then have "seated_household (on_remote i u f s) h \<longleftrightarrow> (\<exists>r \<in> ?g ` set (sd_remote s). rr_instance r = h \<and> \<not> rr_dead r)"
    by (simp only: seated_household_def set_map)
  also have "\<dots> \<longleftrightarrow> (\<exists>r \<in> set (sd_remote s). rr_instance (?g r) = h \<and> \<not> rr_dead (?g r))" by blast
  also have "\<dots> \<longleftrightarrow> (\<exists>r \<in> set (sd_remote s). if same_remote i u r then rr_instance (f r) = h \<and> \<not> rr_dead (f r)
      else rr_instance r = h \<and> \<not> rr_dead r)" by (intro bex_cong refl) simp
  finally show ?thesis .
qed

lemma clean_role_row [simp]: "clean e s0 s \<Longrightarrow> clean e s0 (set_remote_role i u r s)"
proof (rule clean_no_exit [of e s0 s])
  show "seated_household s h \<Longrightarrow> seated_household (set_remote_role i u r s) h" for h
    by (simp add: set_remote_role_def seated_on_remote) (auto simp: seated_household_def)
qed (simp_all add: set_remote_role_def on_remote_def readable_def)

lemma clean_move [simp]: "clean e s0 (move_ownership out r u n s) = clean e s0 (announce (OwnershipTransferred u
    (case sd_space (increment_config_sequence (record_owner_change n (set_member_role u OWNER
       (case out of None \<Rightarrow> s | Some w \<Rightarrow> set_member_role w r s)))) of None \<Rightarrow> 0 | Some sp \<Rightarrow> ss_config_sequence sp)) s)"
proof (rule clean_view)
  let ?s = "set_member_role u OWNER (case out of None \<Rightarrow> s | Some w \<Rightarrow> set_member_role w r s)"
  have "key_view ?s = key_view s" by (simp split: option.split)
  then have "key_view (increment_config_sequence (record_owner_change n ?s)) = key_view s" by simp
  then show "key_view (move_ownership out r u n s) = key_view (announce (OwnershipTransferred u
      (case sd_space (increment_config_sequence (record_owner_change n ?s)) of None \<Rightarrow> 0 | Some sp \<Rightarrow> ss_config_sequence sp)) s)"
    by (simp add: move_ownership_def Let_def key_view_def) (simp add: announce_def)
qed

lemma remote_role_clean: "keeps (clean e s0) (apply_remote_role e sp t r)"
  by (auto simp: apply_remote_role_def Let_def intro!: clean_rules gossip_live roles_clean)

lemma answers_clean:
  "keeps (clean e s0) (answer_join_request_or_raise rid st u)"
  "keeps (clean e s0) (take_token_use e t u)"
proof -
  have "clean e s0 (snd (answer_join_request rid st u s)) = clean e s0 s" for s by (rule clean_view) simp
  then show "keeps (clean e s0) (answer_join_request_or_raise rid st u)"
    by (auto simp: keeps_def leaves_def answer_join_request_or_raise_def Let_def case_prod_unfold)
  have "clean e s0 (snd (consume_invite_token (en_now e) t u s)) = clean e s0 s" for s by (rule clean_view) simp
  then show "keeps (clean e s0) (take_token_use e t u)"
    by (auto simp: keeps_def leaves_def take_token_use_def Let_def case_prod_unfold)
qed

lemma changes_clean:
  "keeps (clean e s0) (set_role e a u v)"
  "keeps (clean e s0) (set_remote_member_role e a i u v)"
  "keeps (clean e s0) (transfer_ownership e a u)"
  "keeps (clean e s0) (reassign_orphaned_ownership e a u)"
  by (auto simp: set_role_def set_remote_member_role_def transfer_ownership_def reassign_orphaned_ownership_def
      check_new_owner_def intro!: clean_rules guards_clean forward_clean roles_clean remote_role_clean)

lemma remove_member_clean: "keeps (clean e s0) (remove_member e a u)"
  by (auto simp: remove_member_def Let_def intro!: clean_rules guards_clean gossip_live)

lemma unban_clean: "keeps (clean e s0) (unban e a u)"
  by (auto simp: unban_def intro!: clean_rules guards_clean forward_clean)

lemma review_clean:
  "keeps (clean e s0) (file_local_join_request e u v)"
  "keeps (clean e s0) (seat_or_review e sp u)"
  "keeps (clean e s0) (file_admin_elevation e u i)"
  by (auto simp: seat_or_review_def file_local_join_request_def file_admin_elevation_def intro!: clean_rules guards_clean)

lemma household_seats_clean: "keeps (clean e s0) (seat_household_members e sp a only)"
  unfolding seat_household_members_def
  by (intro clean_rules) (auto simp: Let_def split: prod.split intro!: clean_rules seat_local_clean)

lemma joins_clean:
  "keeps (clean e s0) (add_member e a u r)"
  "keeps (clean e s0) (seat_provisioned_user e u)"
  "keeps (clean e s0) (invite_local_user e a u)"
  "keeps (clean e s0) (accept_local_invite e i u)"
  "keeps (clean e s0) (decline_local_invite i u)"
  "keeps (clean e s0) (accept_invite_token e t u)"
  "keeps (clean e s0) (read_space e u)"
  "keeps (clean e s0) (request_join e u)"
  by (auto simp: add_member_def seat_provisioned_user_def invite_local_user_def accept_local_invite_def
      decline_local_invite_def accept_invite_token_def read_space_def request_join_def Let_def
      split: prod.split intro!: clean_rules guards_clean seat_local_clean household_seats_clean review_clean answers_clean)

lemma pending_clean: "keeps (clean e s0) (pending_join_request e rid a)"
  by (auto simp: pending_join_request_def intro!: clean_rules guards_clean)

lemma answer_requests_clean:
  "keeps (clean e s0) (approve_elevation e rid a acc row sp seat)"
  "keeps (clean e s0) (approve_join_request e rid a via)"
  "keeps (clean e s0) (deny_join_request e rid a)"
  by (auto simp: approve_elevation_def approve_join_request_def deny_join_request_def
      split: prod.split intro!: clean_rules guards_clean answers_clean pending_clean changes_clean)

section \<open>Requests that end seats of another household\<close>

definition quiet :: "seat_db \<Rightarrow> seat_db \<Rightarrow> bool" where
  "quiet s0 s \<longleftrightarrow> length (sd_log s0) \<le> length (sd_log s)
     \<and> (\<forall>ev \<in> set (new_events s0 s). \<forall>h. \<not> key_reaches h ev \<and> \<not> sealed_to h ev)"

lemma quiet_refl: "quiet s s"
  by (simp add: quiet_def new_events_def)

lemma quiet_announce: "quiet s0 s \<Longrightarrow> (\<And>h. \<not> key_reaches h ev) \<Longrightarrow> (\<And>h. \<not> sealed_to h ev) \<Longrightarrow> quiet s0 (announce ev s)"
  by (auto simp: quiet_def new_events_announce) (simp add: announce_def)

lemma quiet_log: "quiet s0 s \<Longrightarrow> sd_log s' = sd_log s \<Longrightarrow> quiet s0 s'"
  by (simp add: quiet_def new_events_def)

text \<open>Household \<open>i\<close> is out, off the list, and no key went out in this request so far.\<close>

lemma quiet_sent: "quiet s0 s \<Longrightarrow> (readable s \<Longrightarrow> readable s0) \<Longrightarrow> sent_right e s0 s"
  by (simp add: quiet_def sent_right_def)

lemma clean_exit:
  assumes "clean e s0 s" "quiet s0 s'" "set (sd_households s') \<subseteq> set (sd_households s)" "sd_space s' = sd_space s"
    "\<And>h. h \<noteq> i \<Longrightarrow> seated_household s h \<Longrightarrow> seated_household s' h"
    "seated_household s' i \<or> i \<notin> set (sd_households s')"
  shows "clean e s0 s'"
proof -
  have "off_list s0 s'" using assms(1,3,5,6) by (fastforce simp: clean_def off_list_def)
  moreover have "sent_right e s0 s'"
    using assms(1,2,4) by (intro quiet_sent) (auto simp: clean_def sent_right_def readable_def)
  ultimately show ?thesis by (simp add: clean_def)
qed

lemma seated_live: "seated_household s i \<longleftrightarrow> live_of_instance s i \<noteq> []"
  by (auto simp: seated_household_def live_of_instance_def filter_empty_conv)

lemma remove_remote_fields [simp]:
  "sd_households (remove_remote now i u s) = sd_households s" "sd_log (remove_remote now i u s) = sd_log s"
  "sd_space (remove_remote now i u s) = sd_space s"
  by (simp_all add: remove_remote_def on_remote_def)

lemma remove_remote_others: "h \<noteq> i \<Longrightarrow> seated_household s h \<Longrightarrow> seated_household (remove_remote now i u s) h"
  unfolding remove_remote_def seated_on_remote unfolding seated_household_def
  by (elim bexE) (rule bexI, auto simp: same_remote_def)

lemma dead_on_remote: "dead_key i u (on_remote j v f s) \<longleftrightarrow>
    (\<forall>r \<in> set (sd_remote s). let x = (if same_remote j v r then f r else r) in same_remote i u x \<longrightarrow> rr_dead x)"
proof -
  have "sd_remote (on_remote j v f s) = map (\<lambda>r. if same_remote j v r then f r else r) (sd_remote s)"
    by (simp add: on_remote_def)
  then show ?thesis by (simp only: dead_key_def set_map ball_simps Let_def)
qed

lemma remove_remote_dead: "dead_key i u (remove_remote now i u s)"
  by (simp add: remove_remote_def dead_on_remote Let_def)

lemma remove_remote_keeps_dead: "dead_key i v s \<Longrightarrow> dead_key i v (remove_remote now i u s)"
  by (simp add: remove_remote_def dead_on_remote Let_def) (simp add: dead_key_def)

lemma remove_instance_fields [simp]:
  "sd_log (remove_space_instance i s) = sd_log s" "sd_space (remove_space_instance i s) = sd_space s" "set (sd_households (remove_space_instance i s)) = set (sd_households s) - {i}"
  "seated_household (remove_space_instance i s) h = seated_household s h"
  "dead_key j u (remove_space_instance i s) = dead_key j u s"
  by (auto simp: remove_space_instance_def seated_household_def dead_key_def)

lemma wp_live: "wp (emit_member_roster_gossip e u i n pk r True) Q E s"
  if "clean_dead e s0 i {u} s" "\<And>s'. clean e s0 s' \<Longrightarrow> Q () s'" "\<And>x s'. clean e s0 s' \<Longrightarrow> E x s'"
  using gossip_dead [of u "{u}" e s0 i n pk r] that(1)
  by (rule wp_keeps) (auto simp: clean_dead_def intro: that(2,3))

lemma remove_remote_clean:
  assumes "clean e s0 s" "quiet s0 s"
  shows "wp (remove_remote_member e a i u) (\<lambda>_. clean e s0) (\<lambda>_. clean e s0) s"
proof -
  define s1 where "s1 = announce (RemoteSeatEnded i u) (remove_remote (en_now e) i u s)"
  have q: "quiet s0 s1" unfolding s1_def by (rule quiet_announce [OF quiet_log [OF assms(2)]]) simp_all
  have others: "h \<noteq> i \<Longrightarrow> seated_household s h \<Longrightarrow> seated_household s1 h" for h
    by (simp add: s1_def remove_remote_others)
  have dead: "dead_key i u s1" by (simp add: s1_def remove_remote_dead)
  have hs: "sd_households s1 = sd_households s" by (simp add: s1_def)
  have stays: "clean_dead e s0 i {u} s1" if "live_of_instance s1 i \<noteq> []"
  proof -
    have "clean e s0 s1"
      by (rule clean_exit [OF assms(1) q]) (use that others hs in \<open>auto simp: seated_live s1_def\<close>)
    with dead show ?thesis by (simp add: clean_dead_def)
  qed
  have gone: "clean_dead e s0 i {u} (remove_space_instance i s1)"
  proof -
    have "quiet s0 (remove_space_instance i s1)" using q by (rule quiet_log) simp
    then have "clean e s0 (remove_space_instance i s1)"
      by (rule clean_exit [OF assms(1)]) (use others hs in \<open>auto simp: s1_def\<close>)
    with dead show ?thesis by (simp add: clean_dead_def)
  qed
  have told: "clean_dead e s0 i {u} (announce (RemovedNotice i u) t)" "clean e s0 (announce (RemovedNotice i u) t)"
    if "clean_dead e s0 i {u} t" for t
    using that by (simp_all add: clean_dead_def)
  have tail: "wp (send_invite_envelope e i (RemovedNotice i u)) (\<lambda>_. wp (afterwards (emit_member_roster_gossip e u i n pk r True)
    (afterwards (writes (rotate_and_distribute_space_key e))
    (afterwards (doing_if b (writes (announce_revoked e i)))
    (doing_if c (writes (announce (SessionChecked i))))))) (\<lambda>_. clean e s0) (\<lambda>_. clean e s0)) (\<lambda>_. clean e s0) t"
    if "clean_dead e s0 i {u} t" for t n pk r b c
    by (auto simp: send_invite_envelope_def wp_simps told [OF that] split: option.split intro!: wp_live [OF told(1) [OF that]])
  show ?thesis
    using assms(1) stays gone
    by (auto simp: remove_remote_member_def require_space_def require_admin_or_owner_def actor_or_raise_def role_or_raise_def
        wp_simps(1-4) wp_andthen wp_option wp_if wp_doing_if wp_afterwards [of "writes f" for f] wp_afterwards [of "doing_if d f" for d f]
        wp_afterwards [of "send_invite_envelope x y z" for x y z] comp_def simp flip: s1_def split: option.split intro!: tail)
qed

lemma wp_for_each_writes: "wp (for_each (\<lambda>x. writes (f x)) xs) Q E s = Q () (fold f xs s)"
  by (induction xs arbitrary: s) (simp_all add: wp_simps)

lemma keeps_for_each_set: "(\<And>x. x \<in> set xs \<Longrightarrow> keeps P (f x)) \<Longrightarrow> keeps P (for_each f xs)"
  by (induction xs) (simp_all add: keeps_ret keeps_afterwards)

definition end_seats :: "int \<Rightarrow> string \<Rightarrow> remote_row list \<Rightarrow> seat_db \<Rightarrow> seat_db" where
  "end_seats now i = fold (\<lambda>r. remove_remote now i (rr_user r))"

lemma removals:
  "sd_households (end_seats now i rs s) = sd_households s"
  "sd_log (end_seats now i rs s) = sd_log s"
  "sd_space (end_seats now i rs s) = sd_space s"
  "h \<noteq> i \<Longrightarrow> seated_household s h \<Longrightarrow> seated_household (end_seats now i rs s) h"
  "r \<in> set rs \<or> dead_key i (rr_user r) s \<Longrightarrow> dead_key i (rr_user r) (end_seats now i rs s)"
  unfolding end_seats_def
  by (induction rs arbitrary: s) (auto simp: remove_remote_others remove_remote_dead remove_remote_keeps_dead)

lemma left_clean:
  assumes "clean e s0 s" "quiet s0 s"
  shows "wp (on_remote_member_left e i uo) (\<lambda>_. clean e s0) (\<lambda>_. clean e s0) s"
proof -
  let ?ending = "filter (\<lambda>r. uo = None \<or> uo = Some (rr_user r)) (live_of_instance s i)"
  define s1 where "s1 = end_seats (en_now e) i ?ending s"
  define U where "U = rr_user ` set ?ending"
  note s1 = removals [where now = "en_now e" and i = i and rs = ?ending and s = s, folded s1_def]
  have q: "quiet s0 s1" using assms(2) s1(2) by (rule quiet_log)
  have dead: "\<forall>u \<in> U. dead_key i u s1" using s1(5) by (auto simp: U_def)
  have stays: "clean_dead e s0 i U s1" if "live_of_instance s1 i \<noteq> []"
    using clean_exit [OF assms(1) q, of i] that s1(1,3,4) dead by (auto simp: clean_dead_def seated_live)
  have gone: "clean_dead e s0 i U (remove_space_instance i s1)"
  proof -
    have "quiet s0 (remove_space_instance i s1)" using q by (rule quiet_log) simp
    then have "clean e s0 (remove_space_instance i s1)"
      by (rule clean_exit [OF assms(1)]) (use s1(1,3,4) in auto)
    with dead show ?thesis by (simp add: clean_dead_def)
  qed
  have empty: "clean e s0 (remove_space_instance i s)"
    using assms by (intro clean_exit [OF assms(1) quiet_log [OF assms(2)]]) auto
  have gossip: "wp (for_each (\<lambda>r. emit_member_roster_gossip e (rr_user r) i (rr_name r) (rr_pk r) (rr_role r) True) ?ending) Q E t"
    if "clean_dead e s0 i U t" "\<And>s'. clean e s0 s' \<Longrightarrow> Q () s'" "\<And>x s'. clean e s0 s' \<Longrightarrow> E x s'" for Q E t
  proof (rule wp_keeps)
    show "keeps (clean_dead e s0 i U) (for_each (\<lambda>r. emit_member_roster_gossip e (rr_user r) i (rr_name r) (rr_pk r) (rr_role r) True) ?ending)"
      by (rule keeps_for_each_set) (auto simp: U_def intro: gossip_dead)
  qed (use that in \<open>auto simp: clean_dead_def\<close>)
  have rotate: "wp (rotate_if_writer_scope_weakened e i b f) Q E t"
    if "clean e s0 t" "\<And>x s'. clean e s0 s' \<Longrightarrow> Q x s'" "\<And>x s'. clean e s0 s' \<Longrightarrow> E x s'" for b f Q E t
    using roles_clean(3) that(1) by (rule wp_keeps) (auto intro: that(2,3))
  show ?thesis
    using assms(1) stays gone empty
    by (auto simp: on_remote_member_left_def Let_def wp_simps wp_for_each_writes simp flip: end_seats_def s1_def split: option.split
        intro!: gossip rotate)
qed

lemma no_live_seat: "live_remote_seat s u = None \<Longrightarrow> dead_key i u s"
  by (auto simp: live_remote_seat_def find_None_iff list_for_space_def dead_key_def same_remote_def)

lemma forward_ban:
  "wp (forward_admin_action_if_remote e sp a x) Q E s"
  if "clean e s0 s" "Q False s" "\<And>t. clean e s0 t \<Longrightarrow> Q True t" "\<And>err t. clean e s0 t \<Longrightarrow> E err t"
  using that
  by (auto simp: forward_admin_action_if_remote_def actor_or_raise_def wp_simps split: option.split intro!: that(3,4))

lemma ban_clean:
  assumes "clean e s0 s" "quiet s0 s"
  shows "wp (ban e a u) (\<lambda>_. clean e s0) (\<lambda>_. clean e s0) s"
proof -
  define t where "t = (\<lambda>k. announce (MemberBanned u k) (ban_member u s))"
  have t: "clean e s0 (t k)" "quiet s0 (t k)" "dead_key i u s \<Longrightarrow> dead_key i u (t k)" for k i
  proof -
    show "clean e s0 (t k)" using assms(1) by (simp add: t_def)
    show "quiet s0 (t k)" unfolding t_def
      by (rule quiet_announce [OF quiet_log [OF assms(2)]]) (simp_all add: ban_member_def delete_member_def)
    show "dead_key i u s \<Longrightarrow> dead_key i u (t k)"
      by (simp add: t_def) (simp add: dead_key_def ban_member_def delete_member_def)
  qed
  have stale: "wp (emit_member_roster_gossip e u i n pk r True) Q E (t k)"
    if "live_remote_seat s u = None" "\<And>s'. clean e s0 s' \<Longrightarrow> Q () s'" "\<And>x s'. clean e s0 s' \<Longrightarrow> E x s'" for i n pk r Q E k
  proof (rule wp_live)
    show "clean_dead e s0 i {u} (t k)" using t(1,3) no_live_seat [OF that(1)] by (simp add: clean_dead_def)
  qed (use that in auto)
  have own: "wp (emit_member_roster_gossip e u (en_own e) n pk r True) Q E (t k)"
    if "\<And>s'. clean e s0 s' \<Longrightarrow> Q () s'" "\<And>x s'. clean e s0 s' \<Longrightarrow> E x s'" for n pk r Q E k
  proof (rule wp_keeps [where P = "clean e s0"])
    show "keeps (clean e s0) (emit_member_roster_gossip e u (en_own e) n pk r True)" by (simp add: gossip_live)
  qed (use that t(1) in auto)
  have remove: "wp (remove_remote_member e a i u) (\<lambda>_. clean e s0) (\<lambda>_. clean e s0) (t k)" for i k
    by (rule remove_remote_clean [OF t(1,2)])
  have forward: "wp (forward_admin_action_if_remote e sp a x) Q E s"
    if "Q False s" "\<And>t. clean e s0 t \<Longrightarrow> Q True t" "\<And>err t. clean e s0 t \<Longrightarrow> E err t" for sp x Q E
    using assms(1) that by (rule forward_ban)
  show ?thesis
    using assms(1)
    by (auto simp: ban_def require_space_def require_admin_or_owner_def actor_or_raise_def asserted_actor_def role_or_raise_def wp_simps comp_def
        t_def [THEN fun_cong, symmetric] split: option.split intro!: forward remove own stale)
qed

lemma kick_clean:
  assumes "clean e s0 s" "quiet s0 s"
  shows "wp (apply_remote_admin_kick e i a u) (\<lambda>_. clean e s0) (\<lambda>_. clean e s0) s"
  using assms remove_member_clean
  by (auto simp: apply_remote_admin_kick_def wp_simps keeps_wp split: option.split intro!: remove_remote_clean)

lemma admin_action_clean:
  assumes "clean e s0 s" "quiet s0 s"
  shows "wp (run_admin_action e sp i a x) (\<lambda>_. clean e s0) (\<lambda>_. clean e s0) s"
proof -
  have "keeps (clean e s0) (apply_forwarded_role_change e sp i a j u f v)" for j u f v
    by (auto simp: apply_forwarded_role_change_def split: prod.split option.split sum.split
        intro!: clean_rules roles_clean remote_role_clean)
  then show ?thesis using assms unban_clean
    by (cases x) (auto simp: run_admin_action_def wp_simps keeps_wp intro: ban_clean)
qed

lemma actions_clean:
  assumes "clean e s0 s" "quiet s0 s"
  shows "wp (apply_remote_admin_action e i a x) (\<lambda>_. clean e s0) (\<lambda>_. clean e s0) s"
    "wp (apply_approved_admin_action e i a x) (\<lambda>_. clean e s0) (\<lambda>_. clean e s0) s"
  using assms
  by (auto simp: apply_remote_admin_action_def apply_approved_admin_action_def wp_simps split: option.split
      intro!: admin_action_clean)

section \<open>Every request\<close>

text \<open>Requests that send no key at all.\<close>

lemma quiet_unsubscribe: "wp (unsubscribe_from_space e u) (\<lambda>_. quiet s) (\<lambda>_. quiet s) s"
proof -
  have "quiet s t \<Longrightarrow> quiet s (purge_space (announce GfsUnsubscribed t))" for t
    by (rule quiet_log [OF quiet_announce]) (simp_all add: purge_space_def)
  moreover have "quiet s (announce ev2 (announce ev1 (delete_member u s)))"
    if "\<And>h. \<not> key_reaches h ev1" "\<And>h. \<not> key_reaches h ev2" "\<And>h. \<not> sealed_to h ev1" "\<And>h. \<not> sealed_to h ev2" for ev1 ev2
    using that by (intro quiet_announce quiet_log [OF quiet_refl]) (simp_all add: delete_member_def)
  ultimately show ?thesis
    by (auto simp: unsubscribe_from_space_def wp_simps quiet_refl split: option.split intro!: quiet_announce)
qed

lemma quiet_subscribe: "keeps (quiet s0) (subscribe_to_space e u)"
proof -
  have rows: "quiet s0 s \<Longrightarrow> quiet s0 (s\<lparr>sd_space := sp\<rparr>)" "quiet s0 s \<Longrightarrow> quiet s0 (save_member v r s)"
    "quiet s0 s \<Longrightarrow> quiet s0 (save_join_request rid v i ro w s)" for s sp v r rid i ro w
    by (erule quiet_log, simp add: save_member_def save_join_request_def)+
  have review: "keeps (quiet s0) (seat_or_review e sp u)" for sp
    by (auto simp: seat_or_review_def file_local_join_request_def require_local_seat_def keeps_if
        intro!: keeps_rules quiet_announce rows)
  show ?thesis
    by (auto simp: subscribe_to_space_def mirror_first_def check_space_age_gate_def require_space_def keeps_if
        split: prod.split option.split intro!: keeps_rules quiet_announce rows review)
qed

text \<open>What a request does about keys: nobody it leaves out hears of a new one.\<close>

definition key_safe :: "seat_env \<Rightarrow> seat_db \<Rightarrow> seat_db \<Rightarrow> bool" where
  "key_safe e s s' \<longleftrightarrow> (\<forall>ev \<in> set (new_events s s'). \<forall>h.
     (key_reaches h ev \<longrightarrow> seated_household s h \<longrightarrow> seated_household s' h)
     \<and> (sealed_to h ev \<longrightarrow> bound_follower e h \<and> readable s))"

lemma sent_safe: "sent_right e s s' \<Longrightarrow> key_safe e s s'"
  by (simp add: sent_right_def key_safe_def)

lemma quiet_safe: "quiet s s' \<Longrightarrow> key_safe e s s'"
  by (simp add: quiet_def key_safe_def)

lemma clean_safe: "clean e s s' \<Longrightarrow> key_safe e s s'"
  by (simp add: clean_def sent_safe)

lemma step_clean: "keeps (clean e s) m \<Longrightarrow> key_safe e s (leaves m s)"
  unfolding keeps_def by (blast intro: clean_safe clean_refl)

lemma wp_step_clean: "wp m (\<lambda>_. clean e s) (\<lambda>_. clean e s) s \<Longrightarrow> key_safe e s (leaves m s)"
  by (auto simp: leaves_wp intro: clean_safe)

text \<open>An entry of another household's gossip: a seat it ends gets nothing of the rotation it sets off.\<close>

lemma instance_views [simp]:
  "sent_right e s0 (add_space_instance i s) = sent_right e s0 s"
  "sent_right e s0 (remove_space_instance i s) = sent_right e s0 s"
  by (simp_all add: sent_right_def new_events_def seated_household_def readable_def add_space_instance_def remove_space_instance_def)

lemma roster_entry_sent: "sent_right e s (merge_roster_entry e k raw ev s)"
proof -
  have applied: "sent_right e s (snd (apply_member_event now v x s))" for now v x
    by (rule quiet_sent, rule quiet_log [OF quiet_refl])
      (auto simp: apply_member_event_def readable_def split: option.splits if_splits)
  have "sent_right e s (announce b t)" "sent_right e s (announce_revoked e i (announce b t))"
    if "sent_right e s t" "b = RemoteSeatEnded i u \<or> b = RemoteSeatLive i u" for i u b t
    using that by (auto intro!: sent_revoked sent_announce)
  with applied show ?thesis
    by (auto simp: merge_roster_entry_def Let_def case_prod_unfold sent_revoked clean_sent [OF clean_refl])
qed

lemma roster_event_safe: "key_safe e s (apply_roster_gossip e k raw ev s)"
  using roster_entry_sent clean_safe [OF clean_refl]
  by (auto simp: apply_roster_gossip_def sent_safe split: option.split)

lemma request_key_safe: "key_safe e s (leaves (perform e req) s)"
proof (cases req)
  case (RosterEvent k raw ev)
  then show ?thesis using roster_event_safe by (simp add: leaves_def writes_def)
next
  case (Subscribe u)
  then show ?thesis using quiet_subscribe [of s e u] quiet_refl [of s] by (auto simp: keeps_def intro: quiet_safe)
next
  case (Unsubscribe u)
  then show ?thesis using quiet_unsubscribe [of e u s] by (simp add: leaves_wp quiet_safe)
next
  case (RemoveRemote a i u)
  then show ?thesis by (auto intro: wp_step_clean remove_remote_clean clean_refl quiet_refl)
next
  case (HouseholdLeft i u)
  then show ?thesis by (auto simp: wp_simps intro!: wp_step_clean left_clean clean_refl quiet_refl)
next
  case (Ban a u)
  then show ?thesis by (auto intro: wp_step_clean ban_clean clean_refl quiet_refl)
next
  case (RemoteKick i a u)
  then show ?thesis by (auto intro: wp_step_clean kick_clean clean_refl quiet_refl)
next
  case (RemoteAction i a x)
  then show ?thesis by (auto simp: wp_simps intro!: wp_step_clean actions_clean clean_refl quiet_refl)
next
  case (ApprovedAction i a x)
  then show ?thesis by (auto intro: wp_step_clean actions_clean clean_refl quiet_refl)
qed (simp_all only: perform.simps,
    (rule step_clean keeps_andthen keeps_ret joins_clean answer_requests_clean changes_clean
      remove_member_clean unban_clean)+)

end
