(* ===== verification/Space_Seat_Kick.thy ===== *)
theory Space_Seat_Kick
  imports Space_Seat_Owner Space_Seat_Keys
begin

text \<open>
  How the removal of a member of another household ends: what is written by the time it returns, and what has been
  written when the notice to that household is not delivered and the call raises.
\<close>

section \<open>Steps that leave an ended seat ended\<close>

fun next_epoch :: "nat option \<Rightarrow> nat" where
  "next_epoch None = 0"
| "next_epoch (Some n) = Suc n"

definition targets :: "seat_env \<Rightarrow> seat_db \<Rightarrow> string set" where
  "targets e s = {j \<in> set (sd_households s) - set (sd_household_bans s). j \<noteq> en_own e}"

lemma set_member_households: "set (member_households e 0 s) = targets e s"
  by (auto simp: member_households_def list_member_instance_ids_def targets_def)

text \<open>
  The list of member households stays, whatever is sent carries a key to households of that list only, and a seat that
  has ended stays ended; the content key may have moved on, never back.
\<close>

definition aside_of_seat :: "seat_env \<Rightarrow> string \<Rightarrow> string \<Rightarrow> seat_db \<Rightarrow> seat_db \<Rightarrow> bool" where
  "aside_of_seat e i u s s' \<longleftrightarrow> next_epoch (sd_epoch s) \<le> next_epoch (sd_epoch s') \<and> sd_households s' = sd_households s
     \<and> sd_household_bans s' = sd_household_bans s \<and> (dead_key i u s \<longrightarrow> dead_key i u s')
     \<and> (\<exists>evs. sd_log s' = sd_log s @ evs \<and> (\<forall>ev \<in> set evs. \<forall>h. key_reaches h ev \<longrightarrow> h \<in> targets e s))"

lemma aside_refl: "aside_of_seat e i u s s"
  by (simp add: aside_of_seat_def)

lemma aside_targets: "aside_of_seat e i u s t \<Longrightarrow> targets e t = targets e s"
  by (simp add: aside_of_seat_def targets_def)

lemma aside_trans:
  assumes "aside_of_seat e i u s t" "aside_of_seat e i u t t'"
  shows "aside_of_seat e i u s t'"
proof -
  obtain evs evs' where "sd_log t = sd_log s @ evs" "sd_log t' = sd_log t @ evs'"
    "\<forall>ev \<in> set evs. \<forall>h. key_reaches h ev \<longrightarrow> h \<in> targets e s" "\<forall>ev \<in> set evs'. \<forall>h. key_reaches h ev \<longrightarrow> h \<in> targets e s"
    using assms aside_targets [OF assms(1)] by (auto simp: aside_of_seat_def)
  then have "sd_log t' = sd_log s @ evs @ evs' \<and> (\<forall>ev \<in> set (evs @ evs'). \<forall>h. key_reaches h ev \<longrightarrow> h \<in> targets e s)" by auto
  then have "\<exists>es. sd_log t' = sd_log s @ es \<and> (\<forall>ev \<in> set es. \<forall>h. key_reaches h ev \<longrightarrow> h \<in> targets e s)" by blast
  with assms show ?thesis by (simp add: aside_of_seat_def)
qed

lemma aside_same:
  assumes "sd_epoch s' = sd_epoch s" "sd_households s' = sd_households s" "sd_household_bans s' = sd_household_bans s"
    "sd_log s' = sd_log s" "sd_remote s' = sd_remote s"
  shows "aside_of_seat e i u s s'"
  using assms by (simp add: aside_of_seat_def dead_key_def)

lemma aside_announce: "(\<And>h. key_reaches h ev \<Longrightarrow> h \<in> targets e s) \<Longrightarrow> aside_of_seat e i u s (announce ev s)"
  by (simp add: aside_of_seat_def) (simp add: announce_def)

lemma aside_on_space: "aside_of_seat e i u s (on_space f s)"
  by (rule aside_same) (simp_all add: on_space_def)

lemma aside_fold:
  assumes "\<And>x t. x \<in> set xs \<Longrightarrow> aside_of_seat e i u s t \<Longrightarrow> aside_of_seat e i u t (f x t)"
  shows "aside_of_seat e i u s (fold f xs s)"
  by (rule fold_keeps [where P = "aside_of_seat e i u s"]) (use assms in \<open>auto intro: aside_refl aside_trans\<close>)

lemma aside_fresh: "aside_of_seat e i u s (snd (fresh_content_key e s))"
  by (cases "sd_epoch s") (simp_all add: aside_of_seat_def fresh_content_key_def Let_def dead_key_def)

lemma aside_reseal: "aside_of_seat e i u s (reseal_followers e s)"
  by (auto simp: reseal_followers_def split: option.split intro: aside_refl aside_announce)

lemma aside_rotate: "aside_of_seat e i u s (rotate_and_distribute_space_key e s)"
proof -
  have "aside_of_seat e i u t (reseal_followers e (announce (Rekeyed n (member_households e 0 t)) (announce EpochAnnounced t)))" for t n
    by (rule aside_trans [OF aside_trans [OF aside_announce aside_announce] aside_reseal])
      (simp_all add: set_member_households targets_def)
  then show ?thesis using aside_fresh [of e i u s]
    by (auto simp: rotate_and_distribute_space_key_def case_prod_unfold split: option.split intro: aside_trans)
qed

lemma aside_hand_over: "aside_of_seat e i u s (hand_over_seed j s)"
  unfolding hand_over_seed_def by (rule aside_trans [OF aside_on_space aside_announce]) simp

lemma aside_bundle: "aside_of_seat e i u s (distribute_bundle e k c s)"
  unfolding distribute_bundle_def
proof (rule aside_fold)
  fix ev t assume "ev \<in> set (concat (map (authority_messages e k c) (bundle_targets e s)))" "aside_of_seat e i u s t"
  then show "aside_of_seat e i u t (announce ev t)"
    using set_member_households [of e s] aside_targets [of e i u s t]
    by (intro aside_announce) (auto simp: bundle_targets_def authority_messages_def Let_def split: if_splits option.splits)
qed

lemma aside_authority: "aside_of_seat e i u s (rotate_authority e share s)"
proof -
  have shared: "aside_of_seat e i u t (share_seed_with_admins e sp t)" for sp t
    unfolding share_seed_with_admins_def by (rule aside_fold) (simp add: aside_refl aside_hand_over)
  have refreshed: "aside_of_seat e i u t (refresh_gfs e t)" for t
    by (auto simp: refresh_gfs_def split: option.split intro: aside_refl aside_trans [OF aside_announce aside_reseal])
  have fresh: "aside_of_seat e i u s (snd (fresh_content_key e (on_space f s)))" for f
    by (rule aside_trans [OF aside_on_space aside_fresh])
  have sent: "aside_of_seat e i u s (refresh_gfs e (distribute_bundle e k c t))" if "aside_of_seat e i u s t" for k c t
    by (rule aside_trans [OF aside_trans [OF that aside_bundle] refreshed])
  show ?thesis
    by (auto simp: rotate_authority_def Let_def case_prod_unfold aside_refl split: option.split
        intro!: sent fresh aside_trans [OF fresh shared])
qed

lemma aside_revoked: "aside_of_seat e i u s (announce_revoked e j s)"
  by (auto simp: announce_revoked_def on_revoked_def split: option.split
      intro: aside_announce aside_trans [OF aside_announce aside_authority])

lemma send_aside: "me_dead ev \<Longrightarrow> aside_of_seat e i u s (send_roster_event e ev s)"
  by (auto simp: aside_of_seat_def dead_key_send targets_def)
    (auto simp: send_roster_event_def Let_def announce_def apply_member_event_def split: option.split)

lemma gossip_aside:
  assumes "\<And>s'. aside_of_seat e i u s s' \<Longrightarrow> Q () s'"
  shows "wp (emit_member_roster_gossip e u i n pk r True) Q E s"
  by (auto simp: emit_member_roster_gossip_def ensure_space_seed_def wp_simps wp_sequence split: option.split
      intro!: assms aside_refl aside_on_space aside_authority aside_trans [OF aside_on_space send_aside]
        aside_trans [OF aside_trans [OF aside_on_space aside_on_space] send_aside]
        aside_trans [OF aside_trans [OF aside_authority aside_on_space] send_aside])

section \<open>The kick\<close>

text \<open>The households the fresh key of a kick goes to.\<close>

definition remaining_households :: "seat_env \<Rightarrow> string \<Rightarrow> string \<Rightarrow> seat_db \<Rightarrow> string set" where
  "remaining_households e i u s = {j \<in> set (sd_households s) - set (sd_household_bans s). j \<noteq> en_own e
     \<and> (j \<noteq> i \<or> live_of_instance (remove_remote (en_now e) i u s) i \<noteq> [])}"

lemma rotation_log:
  assumes "en_rotates e" "en_exports e"
  shows "\<exists>hs evs. sd_log (rotate_and_distribute_space_key e s) = sd_log s @ EpochAnnounced # Rekeyed (next_epoch (sd_epoch s)) hs # evs
    \<and> set hs = targets e s"
proof -
  let ?t = "s\<lparr>sd_epoch := Some (next_epoch (sd_epoch s))\<rparr>"
  have "rotate_and_distribute_space_key e s
      = reseal_followers e (announce (Rekeyed (next_epoch (sd_epoch s)) (member_households e 0 ?t)) (announce EpochAnnounced ?t))"
    using assms by (cases "sd_epoch s") (simp_all add: rotate_and_distribute_space_key_def fresh_content_key_def Let_def)
  moreover obtain evs where "sd_log (reseal_followers e (announce (Rekeyed (next_epoch (sd_epoch s)) (member_households e 0 ?t))
      (announce EpochAnnounced ?t))) = sd_log (announce (Rekeyed (next_epoch (sd_epoch s)) (member_households e 0 ?t))
      (announce EpochAnnounced ?t)) @ evs"
    using aside_reseal unfolding aside_of_seat_def by blast
  ultimately have "\<exists>evs. sd_log (rotate_and_distribute_space_key e s)
      = sd_log s @ EpochAnnounced # Rekeyed (next_epoch (sd_epoch s)) (member_households e 0 ?t) # evs"
    by (simp add: announce_def)
  moreover have "set (member_households e 0 ?t) = targets e s" by (simp add: set_member_households targets_def)
  ultimately show ?thesis by blast
qed

definition ended :: "seat_env \<Rightarrow> string \<Rightarrow> string \<Rightarrow> seat_db \<Rightarrow> seat_db" where
  "ended e i u s = (let s1 = announce (RemoteSeatEnded i u) (remove_remote (en_now e) i u s)
     in announce (RemovedNotice i u) (if live_of_instance s1 i \<noteq> [] then s1 else remove_space_instance i s1))"

lemma live_announce [simp]: "live_of_instance (announce ev s) i = live_of_instance s i"
  by (simp add: live_of_instance_def announce_def)

lemma ended_fields:
  "sd_epoch (ended e i u s) = sd_epoch s"
  "sd_log (ended e i u s) = sd_log s @ [RemoteSeatEnded i u, RemovedNotice i u]"
  "dead_key i u (ended e i u s)"
  "targets e (ended e i u s) = remaining_households e i u s"
  by (auto simp: ended_def Let_def remove_remote_dead)
    (auto simp: announce_def remove_remote_def remove_space_instance_def on_remote_def remaining_households_def targets_def)

lemma dead_get: "get_remote s i u = None \<longleftrightarrow> dead_key i u s"
  by (auto simp: get_remote_def find_None_iff dead_key_def)

lemma wp_send: "wp (send_invite_envelope e i ev) Q E s =
    (if en_sends e i = ARRIVED then Q () (announce ev s) else E NotPermitted (announce ev s))"
  by (simp add: send_invite_envelope_def wp_simps)

text \<open>
  After the notice: the state the call returns in, with the fresh key sent to every household that remains and no key
  sent to any other.
\<close>

definition rekeyed_for :: "seat_env \<Rightarrow> string \<Rightarrow> string \<Rightarrow> seat_db \<Rightarrow> seat_db \<Rightarrow> bool" where
  "rekeyed_for e i u s s' \<longleftrightarrow> dead_key i u s'
     \<and> (\<exists>n hs. Rekeyed n hs \<in> set (new_events s s') \<and> next_epoch (sd_epoch s) \<le> n \<and> set hs = remaining_households e i u s)
     \<and> (\<forall>ev \<in> set (new_events s s'). \<forall>h. key_reaches h ev \<longrightarrow> h \<in> remaining_households e i u s)"

lemma rekeyed_after:
  assumes rot: "en_rotates e" "en_exports e"
    and "aside_of_seat e i u (ended e i u s) t" "aside_of_seat e i u (rotate_and_distribute_space_key e t) t'"
  shows "rekeyed_for e i u s t'"
proof -
  let ?H = "remaining_households e i u s" and ?s = "ended e i u s" and ?r = "rotate_and_distribute_space_key e t"
  obtain hs evs where hs: "sd_log ?r = sd_log t @ EpochAnnounced # Rekeyed (next_epoch (sd_epoch t)) hs # evs" "set hs = targets e t"
    using rotation_log [OF rot, of t] by blast
  have H: "targets e ?s = ?H" "targets e t = ?H" using ended_fields(4) aside_targets [OF assms(3)] by simp_all
  have all: "aside_of_seat e i u ?s t'" by (rule aside_trans [OF aside_trans [OF assms(3) aside_rotate] assms(4)])
  then obtain es where es: "sd_log t' = sd_log ?s @ es" "\<forall>ev \<in> set es. \<forall>h. key_reaches h ev \<longrightarrow> h \<in> ?H"
    by (auto simp: aside_of_seat_def H)
  have new: "new_events s t' = RemoteSeatEnded i u # RemovedNotice i u # es"
    by (simp add: new_events_def es(1) ended_fields(2))
  obtain es1 es2 where "sd_log t = sd_log ?s @ es1" "sd_log t' = sd_log ?r @ es2"
    using assms(3,4) by (auto simp: aside_of_seat_def)
  then have "Rekeyed (next_epoch (sd_epoch t)) hs \<in> set es" using es(1) hs(1) by simp
  moreover have "next_epoch (sd_epoch s) \<le> next_epoch (sd_epoch t)" using assms(3) by (simp add: aside_of_seat_def ended_fields(1))
  moreover have "dead_key i u t'" using all ended_fields(3) by (simp add: aside_of_seat_def)
  ultimately show ?thesis using hs(2) H(2) es(2) by (auto simp: rekeyed_for_def new)
qed

lemma kick_splits:
  assumes "sd_space s = Some sp" "\<not> ss_dissolved sp" "actor_seat e actor s = Some q" "sr_role q \<in> set settings_authority_roles"
    "en_rotates e" "en_exports e"
    and lost: "en_sends e i \<noteq> ARRIVED \<Longrightarrow> E NotPermitted (ended e i u s)"
    and sent: "\<And>s'. en_sends e i = ARRIVED \<Longrightarrow> rekeyed_for e i u s s' \<Longrightarrow> Q () s'"
  shows "wp (remove_remote_member e actor i u) Q E s"
proof -
  have rest: "wp (afterwards (emit_member_roster_gossip e u i n pk r True) (afterwards (writes (rotate_and_distribute_space_key e))
      (afterwards (doing_if a (writes (announce_revoked e i))) (doing_if b (writes (announce (SessionChecked i))))))) Q E (ended e i u s)"
    if "en_sends e i = ARRIVED" for n pk r a b
  proof (unfold wp_afterwards, rule gossip_aside, unfold wp_writes)
    fix t assume t: "aside_of_seat e i u (ended e i u s) t"
    have fin: "Q () t'" if "aside_of_seat e i u (rotate_and_distribute_space_key e t) t'" for t'
      using sent [OF \<open>en_sends e i = ARRIVED\<close> rekeyed_after [OF assms(5,6) t that]] .
    show "wp (doing_if a (writes (announce_revoked e i))) (\<lambda>_ s'. wp (doing_if b (writes (announce (SessionChecked i)))) Q E s') E
      (rotate_and_distribute_space_key e t)"
      by (auto simp: wp_simps intro!: fin aside_refl aside_revoked aside_announce aside_trans [OF aside_revoked aside_announce])
  qed
  show ?thesis
    using assms(1-4) lost rest
    by (auto simp: remove_remote_member_def require_space_def require_admin_or_owner_def actor_or_raise_def role_or_raise_def
        actor_seat_def wp_simps(1-4) wp_andthen wp_option wp_if wp_doing_if wp_raise_if wp_send wp_afterwards [of "writes f" for f]
        wp_afterwards [of "doing_if d f" for d f] wp_afterwards [of "send_invite_envelope x y z" for x y z] comp_def ended_def
        Let_def split: option.splits)
qed

end
