(* ===== verification/Space_Seat_Remote.thy ===== *)
theory Space_Seat_Remote
  imports Space_Seat_Owner Space_Seat_Keys
begin

text \<open>
  The contract between the mirrored seats of other households and the requests that change them, the counterpart of
  \<open>seat_law\<close>: a law about remote seats and bans that a removal, a role change the matrix allows, a fitting entry of
  gossip and a ban each keep is kept by every request.
\<close>

section \<open>What most statements leave alone\<close>

definition remote_view :: "seat_db \<Rightarrow> remote_row list \<times> string list" where
  "remote_view s = (sd_remote s, sd_bans s)"

lemma remote_viewI: "sd_remote s' = sd_remote s \<Longrightarrow> local_view s' = local_view s \<Longrightarrow> remote_view s' = remote_view s"
  by (simp add: remote_view_def local_view_def)

lemma remote_view_sends [simp]:
  "remote_view (announce ev s) = remote_view s"
  "remote_view (rotate_and_distribute_space_key e s) = remote_view s"
  "remote_view (rotate_authority e share s) = remote_view s"
  "remote_view (announce_revoked e i s) = remote_view s"
  "remote_view (publish_admin_revoked e i d s) = remote_view s"
  "remote_view (notify_host_of_leave e sp u s) = remote_view s"
  "remote_view (hand_over_seed i s) = remote_view s"
  by (rule remote_viewI; simp add: publish_admin_revoked_def notify_host_of_leave_def Let_def)+

lemma remote_view_rows [simp]:
  "remote_view (on_space f s) = remote_view s"
  "remote_view (save_member u x s) = remote_view s"
  "remote_view (delete_member u s) = remote_view s"
  "remote_view (set_member_role u r s) = remote_view s"
  "remote_view (add_space_instance i s) = remote_view s"
  "remote_view (remove_space_instance i s) = remote_view s"
  "remote_view (save_invitation i u b s) = remote_view s"
  "remote_view (update_invitation_status i st s) = remote_view s"
  "remote_view (save_join_request rid u j ro v s) = remote_view s"
  "remote_view (release_invite_token_use t s) = remote_view s"
  "remote_view (s\<lparr>sd_tokens := ts\<rparr>) = remote_view s"
  "remote_view (s\<lparr>sd_space := sp\<rparr>) = remote_view s"
  "remote_view (snd (answer_join_request rid st u s)) = remote_view s"
  "remote_view (snd (consume_invite_token now t u s)) = remote_view s"
  by (simp_all add: remote_view_def on_space_def save_member_def delete_member_def set_member_role_def add_space_instance_def
      remove_space_instance_def save_invitation_def update_invitation_status_def save_join_request_def
      release_invite_token_use_def answer_join_request_def consume_invite_token_def Let_def split: option.split)

lemma remote_view_move [simp]: "remote_view (move_ownership out r u n s) = remote_view s"
  by (simp add: move_ownership_def Let_def increment_config_sequence_def record_owner_change_def split: option.split)

lemma remote_view_send: "me_instance ev = en_own e \<Longrightarrow> remote_view (send_roster_event e ev s) = remote_view s"
  by (simp add: send_roster_event_def)

text \<open>An action that leaves the seats of other households and the bans alone.\<close>

definition still :: "(seat_db, 'e, 'a) action \<Rightarrow> bool" where
  "still m \<longleftrightarrow> (\<forall>s. remote_view (leaves m s) = remote_view s)"

lemma still_keeps: "still m \<longleftrightarrow> (\<forall>v. keeps (\<lambda>s. remote_view s = v) m)"
  unfolding still_def keeps_def by metis

lemma still_basic: "still (ret x)" "still (raise e)" "still (reads f)" "still (raise_if b e)"
  by (simp_all add: still_keeps keeps_rules)

lemma still_writes: "(\<And>s. remote_view (f s) = remote_view s) \<Longrightarrow> still (writes f)"
  by (simp add: still_def leaves_def writes_def)

lemma still_andthen: "still m \<Longrightarrow> (\<And>x. still (k x)) \<Longrightarrow> still (andthen m k)"
  and still_afterwards: "still m \<Longrightarrow> still m' \<Longrightarrow> still (afterwards m m')"
  and still_trying: "still m \<Longrightarrow> (\<And>e. still (h e)) \<Longrightarrow> still (trying m h)"
  and still_doing_if: "still n \<Longrightarrow> still (doing_if b n)"
  by (simp_all add: still_keeps keeps_rules)

lemma still_if: "still m \<Longrightarrow> still m' \<Longrightarrow> still (if b then m else m')"
  by simp

lemma still_option: "still m \<Longrightarrow> (\<And>y. still (f y)) \<Longrightarrow> still (case x of None \<Rightarrow> m | Some y \<Rightarrow> f y)"
  by (cases x) simp_all

lemma still_gather: "(\<And>x. still (f x)) \<Longrightarrow> still (gather f xs)"
  by (simp add: still_keeps keeps_rules)

lemmas still_rules = still_basic still_writes still_andthen still_afterwards still_trying still_doing_if still_if
  still_option still_gather

lemma still_guards:
  "still require_space" "still (actor_or_raise e a)" "still (asserted_actor e a)" "still (role_or_raise u rs)"
  "still (require_admin_or_owner e a)" "still (require_owner e a)" "still (check_space_age_gate e u)"
  "still (check_role_change old new r)" "still (require_hosted_here e sp)" "still (own_invitation i u)"
  "still (require_local_seat e sp)" "still (ensure_space_seed e)" "still (check_new_owner e sp u)"
  by (auto simp: require_space_def actor_or_raise_def asserted_actor_def role_or_raise_def require_admin_or_owner_def require_owner_def
      check_space_age_gate_def check_role_change_def require_hosted_here_def own_invitation_def require_local_seat_def
      ensure_space_seed_def check_new_owner_def split: prod.split intro!: still_rules)

lemma still_forward: "still (forward_admin_action_if_remote e sp a x)" "still (forward_role_change e sp a i u f r)"
  by (auto simp: forward_admin_action_if_remote_def forward_role_change_def intro!: still_rules still_guards)

lemma still_sequence: "(\<And>n. me_instance (ev n) = en_own e) \<Longrightarrow>
    still (\<lambda>s. case increment_roster_sequence s of (Inl _, s') \<Rightarrow> (Inr (), s') | (Inr n, s') \<Rightarrow> (Inr (), send_roster_event e (ev n) s'))"
  by (auto simp: still_def leaves_def increment_roster_sequence_def remote_view_send split: option.split)

lemma still_gossip: "still (emit_member_roster_gossip e u (en_own e) n pk r t)"
  unfolding emit_member_roster_gossip_def by (intro still_rules still_guards still_sequence) simp_all

lemma still_rotate_if: "still (rotate_if_writer_scope_weakened e i b f)"
  by (auto simp: rotate_if_writer_scope_weakened_def intro!: still_rules)

lemma still_local_role: "still (emit_local_gossip e u r)" "still (apply_local_role e sp u old r)"
  by (auto simp: apply_local_role_def emit_local_gossip_def intro!: still_rules still_gossip still_rotate_if)

lemma still_share: "still (share_admin_signing_seed e sp i)"
  by (auto simp: share_admin_signing_seed_def intro!: still_rules still_guards)

lemmas still_parts = still_rules still_guards still_forward still_gossip still_rotate_if still_local_role still_share

lemma still_changes:
  "still (set_role e a u v)" "still (transfer_ownership e a u)" "still (reassign_orphaned_ownership e a u)" "still (remove_member e a u)"
  by (auto simp: set_role_def transfer_ownership_def reassign_orphaned_ownership_def remove_member_def Let_def
      intro!: still_parts)

lemma still_review: "still (file_local_join_request e u v)" "still (seat_or_review e sp u)" "still (file_admin_elevation e u i)"
  by (auto simp: seat_or_review_def file_local_join_request_def file_admin_elevation_def intro!: still_parts)

lemma still_answer: "still (answer_join_request_or_raise rid st u)"
proof -
  have "remote_view (snd (answer_join_request rid st u s)) = remote_view s" for s by simp
  then show ?thesis by (simp add: still_def leaves_def answer_join_request_or_raise_def Let_def case_prod_unfold)
qed

lemma still_take: "still (take_token_use e t u)"
  by (simp add: still_def leaves_def take_token_use_def case_prod_unfold Let_def)

lemma still_seat: "still (seat_local_member e u r a auto)" "still (seat_household_members e sp a only)"
proof -
  show seat: "still (seat_local_member e u r a auto)" for u r a auto
    by (auto simp: seat_local_member_def intro!: still_parts)
  show "still (seat_household_members e sp a only)"
    unfolding seat_household_members_def by (intro still_rules) (auto simp: Let_def split: prod.split intro!: still_rules seat)
qed

lemma still_joins:
  "still (add_member e a u r)" "still (seat_provisioned_user e u)" "still (invite_local_user e a u)"
  "still (accept_local_invite e i u)" "still (decline_local_invite i u)" "still (accept_invite_token e t u)"
  "still (read_space e u)" "still (request_join e u)" "still (pending_join_request e rid a)" "still (deny_join_request e rid a)"
  "still (mirror_first e)" "still (subscribe_to_space e u)"
  by (auto simp: add_member_def seat_provisioned_user_def invite_local_user_def accept_local_invite_def
      decline_local_invite_def accept_invite_token_def read_space_def request_join_def pending_join_request_def
      deny_join_request_def mirror_first_def subscribe_to_space_def Let_def
      split: prod.split option.split intro!: still_parts still_review still_answer still_take still_seat)

section \<open>Rows after a statement\<close>

definition live_seat :: "seat_db \<Rightarrow> string \<Rightarrow> string \<Rightarrow> space_role \<Rightarrow> bool" where
  "live_seat s i u role \<longleftrightarrow> (\<exists>r \<in> set (sd_remote s). rr_instance r = i \<and> rr_user r = u \<and> \<not> rr_dead r \<and> rr_role r = role)"

lemma live_seat_view: "remote_view s' = remote_view s \<Longrightarrow> live_seat s' i u role = live_seat s i u role"
  by (simp add: live_seat_def remote_view_def)

lemma live_seat_announce [simp]: "live_seat (announce ev s) i u role = live_seat s i u role"
  by (rule live_seat_view) simp

lemma rows_on_remote: "set (sd_remote (on_remote i u f s)) = (\<lambda>r. if same_remote i u r then f r else r) ` set (sd_remote s)"
  by (simp add: on_remote_def)

lemma rows_put:
  assumes "r \<in> set (sd_remote (put_event now k ev s))"
  shows "r \<in> set (sd_remote s)
    \<or> rr_instance r = me_instance ev \<and> rr_user r = me_user ev \<and> rr_role r = me_role ev \<and> rr_dead r = me_dead ev"
  using assms
  by (auto simp: put_event_def upsert_remote_def rows_on_remote event_row_def merge_remote_def split: if_splits)

lemma bans_put [simp]: "sd_bans (put_event now k ev s) = sd_bans s" "sd_bans (on_remote i u f s) = sd_bans s"
  by (simp_all add: put_event_def upsert_remote_def on_remote_def)

lemma rows_removed: "r \<in> set (sd_remote (remove_remote now i u s)) \<Longrightarrow> \<not> rr_dead r \<Longrightarrow> r \<in> set (sd_remote s) \<and> \<not> same_remote i u r"
  by (auto simp: remove_remote_def rows_on_remote split: if_splits)

lemma rows_role:
  "r \<in> set (sd_remote (set_remote_role i u new s)) \<Longrightarrow>
     r \<in> set (sd_remote s) \<or> (\<exists>x \<in> set (sd_remote s). same_remote i u x \<and> r = x\<lparr>rr_role := new\<rparr>)"
  by (auto simp: set_remote_role_def rows_on_remote split: if_splits)

lemma get_remote_row: "get_remote s i u = Some r \<Longrightarrow> r \<in> set (sd_remote s) \<and> same_remote i u r \<and> \<not> rr_dead r"
  by (auto simp: get_remote_def find_Some_iff)

lemma live_seat_role: "get_remote s i u = Some r \<Longrightarrow> live_seat (set_remote_role i u new s) i u new"
  unfolding live_seat_def set_remote_role_def rows_on_remote
  by (drule get_remote_row) (rule bexI [of _ "r\<lparr>rr_role := new\<rparr>"], auto simp: same_remote_def image_iff)

text \<open>The user a request bans.\<close>

fun exiled :: "seat_request \<Rightarrow> string option" where
  "exiled (Ban actor u) = Some u"
| "exiled (RemoteAction i a (AskBan u)) = Some u"
| "exiled (ApprovedAction i a (AskBan u)) = Some u"
| "exiled _ = None"

section \<open>The law\<close>

text \<open>
  \<open>joins\<close>: a live entry of gossip the law can bear; \<open>apart\<close>: what it asks of the seats of a user who gets banned;
  \<open>sovereign\<close>: the role changes the owner may make are among those it has to bear.
\<close>

locale remote_law =
  fixes J :: "seat_db \<Rightarrow> bool" and joins :: "seat_db \<Rightarrow> member_event \<Rightarrow> bool" and apart :: "seat_db \<Rightarrow> string \<Rightarrow> bool"
    and sovereign :: bool
  assumes view: "J s \<Longrightarrow> remote_view s' = remote_view s \<Longrightarrow> J s'"
    and heard: "J s \<Longrightarrow> me_dead ev \<or> joins s ev \<Longrightarrow> J (put_event now k ev s)"
    and retold: "J s \<Longrightarrow> live_seat s (me_instance ev) (me_user ev) (me_role ev) \<Longrightarrow> joins s ev"
    and removal: "J s \<Longrightarrow> J (remove_remote now i u s)"
    and role: "J s \<Longrightarrow> get_remote s i u = Some r \<Longrightarrow> role_change_allowed (role_value a) (role_value (rr_role r)) (role_value new)
      \<Longrightarrow> (a = OWNER \<Longrightarrow> sovereign) \<Longrightarrow> J (set_remote_role i u new s)"
    and banning: "J s \<Longrightarrow> apart s u \<Longrightarrow> get_member s u \<noteq> None \<or> live_remote_seat s u = None \<Longrightarrow> J (ban_member u s)"
    and exile: "J s \<Longrightarrow> apart s u \<Longrightarrow> live_remote_seat s u = Some r \<Longrightarrow> J (remove_remote now (rr_instance r) u (ban_member u s))"
    and unbanning: "J s \<Longrightarrow> J (unban_member u s)"
    and purge: "J s \<Longrightarrow> J (purge_space s)"
begin

lemma kept [simp]:
  assumes "J s"
  shows "J (announce ev s)" "J (rotate_and_distribute_space_key e s)" "J (announce_revoked e i s)"
    "J (publish_admin_revoked e i d s)" "J (remove_space_instance i s)" "J (add_space_instance i s)" "J (on_space f s)"
    "J (rotate_authority e share s)"
  by (rule view [OF assms], simp)+

lemma still_law: "still m \<Longrightarrow> keeps J m"
  unfolding still_def keeps_def by (blast intro: view)

lemma past: "still m \<Longrightarrow> J s \<Longrightarrow> (\<And>x s'. J s' \<Longrightarrow> remote_view s' = remote_view s \<Longrightarrow> Q x s')
    \<Longrightarrow> (\<And>e s'. J s' \<Longrightarrow> E e s') \<Longrightarrow> wp m Q E s"
  by (rule wp_keeps [where P = "\<lambda>s'. remote_view s' = remote_view s"]) (simp_all add: still_def keeps_def view)

lemma apply_law: "J s \<Longrightarrow> me_dead ev \<or> joins s ev \<Longrightarrow> J (snd (apply_member_event now v ev s))"
  by (auto simp: apply_member_event_def heard split: option.split)

lemma send_law:
  assumes "J s" "me_dead ev \<or> live_seat s (me_instance ev) (me_user ev) (mirror_role (me_role ev))"
  shows "J (send_roster_event e ev s)"
  using assms by (auto simp: send_roster_event_def Let_def intro!: kept(1) apply_law retold)

lemma gossip_law:
  assumes "J s" "t \<or> role \<noteq> OWNER \<and> live_seat s i u role"
  shows "wp (emit_member_roster_gossip e u i n pk role t) (\<lambda>_. J) (\<lambda>_. J) s"
proof -
  have live: "live_seat (on_space f s') i u role = live_seat s' i u role" for f s'
    by (rule live_seat_view) simp
  show ?thesis unfolding emit_member_roster_gossip_def wp_andthen
  proof (rule past [OF still_trying [OF still_guards(12) still_basic(1)] assms(1)], goal_cases)
    case (1 x s')
    then have "live_seat s' i u role = live_seat s i u role" by (intro live_seat_view)
    with 1 assms(2) show ?case
      by (auto simp: wp_simps wp_sequence mirror_role_def live split: option.split intro!: send_law)
  qed
qed

lemma gossip_end: "keeps J (emit_member_roster_gossip e u i n pk role True)"
  by (rule keepsI) (simp add: gossip_law)

lemma remote_role_law:
  assumes "J s" "get_remote s (rr_instance t) (rr_user t) = Some t"
    and allowed: "role_change_allowed (role_value a) (role_value (rr_role t)) (role_value new)" and "a = OWNER \<Longrightarrow> sovereign"
  shows "wp (apply_remote_role e sp t new) (\<lambda>_. J) (\<lambda>_. J) s"
proof -
  let ?i = "rr_instance t" and ?u = "rr_user t"
  have J: "J (set_remote_role ?i ?u new s)" using assms by (rule role)
  have "new \<noteq> OWNER" using allowed by (auto simp: role_change_allowed_def)
  then have tell: "wp (emit_member_roster_gossip e ?u ?i n pk new False) (\<lambda>_. J) (\<lambda>_. J)
      (announce x (announce y (set_remote_role ?i ?u new s)))" for n pk x y
    using J live_seat_role [OF assms(2), of new] by (intro gossip_law) simp_all
  show ?thesis
    unfolding apply_remote_role_def Let_def
  proof (rule wp_reads_then, rule wp_writes_then, rule wp_writes_then, rule wp_writes_then, rule wp_keeps_then [OF tell])
  qed (intro keeps_rules; auto intro: still_law still_rotate_if still_share)
qed

lemma set_remote_role_law:
  assumes "J s" "owner_asks e actor s \<Longrightarrow> sovereign"
  shows "wp (set_remote_member_role e actor i u v) (\<lambda>_. J) (\<lambda>_. J) s"
proof -
  have fwd: "wp (forward_role_change e sp actor i u r v) (\<lambda>_. J) (\<lambda>_. J) s" for sp r
    using assms(1) by (intro past) (simp_all add: still_forward)
  have "wp (apply_remote_role e sp t (the (space_role v))) (\<lambda>_. J) (\<lambda>_. J) s"
    if "map_of (en_accounts e) actor = Some a" "get_member s (ac_id a) = Some seat" "get_remote s i u = Some t"
      "role_change_allowed (role_value (sr_role seat)) (role_value (rr_role t)) v" for sp a seat t
    using assms that get_remote_row [OF that(3)]
    by (intro remote_role_law [where a = "sr_role seat"]) (auto simp: allowed_role same_remote_def owner_asks_def actor_seat_def)
  with fwd assms(1) show ?thesis
    by (auto simp: set_remote_member_role_def guard_defs wp_simps split: option.split)
qed

lemma approve_law:
  assumes "J s" "owner_asks e actor s \<Longrightarrow> sovereign"
  shows "wp (approve_join_request e rid actor via) (\<lambda>_. J) (\<lambda>_. J) s"
proof -
  have answered: "wp (answer_join_request_or_raise rid ROW_APPROVED x) Q (\<lambda>_. J) s"
    if "\<And>s'. J s' \<Longrightarrow> (owner_asks e actor s' \<Longrightarrow> sovereign) \<Longrightarrow> Q () s'" for x Q
  proof -
    have "keeps (\<lambda>s'. remote_view s' = remote_view s \<and> local_view s' = local_view s) (answer_join_request_or_raise rid ROW_APPROVED x)"
      using still_answer aside_answer by (simp add: keeps_def still_def aside_def)
    then show ?thesis
    proof (rule wp_keeps)
      fix y :: unit and s' assume v: "remote_view s' = remote_view s \<and> local_view s' = local_view s"
      then have "J s'" using view [OF assms(1)] by blast
      moreover have "owner_asks e actor s' \<Longrightarrow> sovereign" using assms(2) owner_asks_view [of s' s e actor] v by simp
      ultimately show "Q y s'" using that by simp
    qed (use view [OF assms(1)] in auto)
  qed
  have elevation: "wp (approve_elevation e rid actor a row sp q) (\<lambda>_. J) (\<lambda>_. J) s" for a row sp q
    using assms(1)
    by (auto simp: approve_elevation_def wp_simps split: option.split
        intro!: answered wp_mono [OF set_remote_role_law] past [OF still_changes(1)])
  show ?thesis using assms(1)
    by (auto simp: approve_join_request_def pending_join_request_def asserted_actor_def guard_defs check_space_age_gate_def wp_simps elevation
        split: option.split intro!: answered intro: view)
qed

lemma removal_tail: "keeps J (afterwards (doing_if b (writes (remove_space_instance i)))
    (afterwards (send_invite_envelope e i ev)
    (afterwards (emit_member_roster_gossip e u i n pk role True)
    (afterwards (writes (rotate_and_distribute_space_key e))
    (afterwards (doing_if c (writes (announce_revoked e i)))
    (doing_if d (writes (announce (SessionChecked i)))))))))"
  unfolding send_invite_envelope_def by (intro keeps_rules gossip_end) simp_all

lemma remove_remote_law:
  assumes "J (remove_remote (en_now e) i u s)"
    and "J s \<or> (\<exists>sp q. sd_space s = Some sp \<and> \<not> ss_dissolved sp \<and> actor_seat e actor s = Some q \<and> sr_role q \<in> set settings_authority_roles)"
  shows "wp (remove_remote_member e actor i u) (\<lambda>_. J) (\<lambda>_. J) s"
  using assms
  by (auto simp: remove_remote_member_def require_space_def require_admin_or_owner_def actor_or_raise_def role_or_raise_def
      actor_seat_def wp_simps(1-4) wp_andthen wp_option wp_if wp_afterwards [of "writes f" for f] comp_def
      split: option.splits intro!: removal_tail [unfolded keeps_wp, rule_format])

lemma left_law: "keeps J (on_remote_member_left e i uo)"
  unfolding on_remote_member_left_def Let_def
  by (intro keeps_rules keeps_if gossip_end still_law still_rotate_if) (simp_all add: removal)

lemma ban_law:
  assumes "J s" "apart s u"
  shows "wp (ban e actor u) (\<lambda>_. J) (\<lambda>_. J) s"
proof -
  have forward: "wp (forward_admin_action_if_remote e sp a x) Q (\<lambda>_. J) s"
    if "Q False s" "\<And>t. J t \<Longrightarrow> Q True t" for sp a x Q
    using that assms(1) by (auto simp: forward_admin_action_if_remote_def actor_or_raise_def wp_simps split: option.split)
  have exiled: "wp (remove_remote_member e actor (rr_instance r) u) (\<lambda>_. J) (\<lambda>_. J) (announce ev (ban_member u s))"
    if "sd_space s = Some sp" "\<not> ss_dissolved sp" "map_of (en_accounts e) actor = Some a" "get_member s (ac_id a) = Some q"
      "sr_role q \<in> set settings_authority_roles" "get_member s u = None" "live_remote_seat s u = Some r" for ev sp a q r
  proof (rule remove_remote_law)
    have "remote_view (remove_remote (en_now e) (rr_instance r) u (announce ev t)) = remote_view (remove_remote (en_now e) (rr_instance r) u t)" for t
      by (simp add: remove_remote_def on_remote_def remote_view_def key_epoch_def announce_def)
    then show "J (remove_remote (en_now e) (rr_instance r) u (announce ev (ban_member u s)))"
      using exile [OF assms that(7), of "en_now e"] by (blast intro: view)
    have "get_member (announce ev (ban_member u s)) (ac_id a) = Some q"
      using that(4,6) by (auto simp: get_ban view_get_member [OF view_announce])
    then show "J (announce ev (ban_member u s)) \<or> (\<exists>sp q. sd_space (announce ev (ban_member u s)) = Some sp \<and> \<not> ss_dissolved sp
        \<and> actor_seat e actor (announce ev (ban_member u s)) = Some q \<and> sr_role q \<in> set settings_authority_roles)"
      using that(1-3,5) by (auto simp: actor_seat_def ban_member_def delete_member_def)
  qed
  have told: "wp (emit_member_roster_gossip e u i n pk ro True) (\<lambda>_ t. Q t) (\<lambda>_. J) (announce ev (ban_member u s))"
    if "get_member s u \<noteq> None \<or> live_remote_seat s u = None" "\<And>t. J t \<Longrightarrow> Q t" for i n pk ro ev Q
    using banning [OF assms that(1)] by (intro wp_keeps [OF gossip_end]) (auto intro: that(2))
  show ?thesis
    using assms(1)
    by (auto simp: ban_def guard_defs wp_simps comp_def split: option.split intro!: forward exiled told)
qed

lemma unban_law: "J s \<Longrightarrow> wp (unban e actor u) (\<lambda>_. J) (\<lambda>_. J) s"
  by (auto simp: unban_def guard_defs wp_simps split: option.split intro!: past [OF still_forward(1)] kept(1) unbanning)

lemma unsubscribe_law: "J s \<Longrightarrow> wp (unsubscribe_from_space e u) (\<lambda>_. J) (\<lambda>_. J) s"
  by (auto simp: unsubscribe_from_space_def wp_simps split: option.split intro!: kept(1) purge intro: view)

lemma kick_law: "J s \<Longrightarrow> wp (apply_remote_admin_kick e i a u) (\<lambda>_. J) (\<lambda>_. J) s"
  by (auto simp: apply_remote_admin_kick_def wp_simps split: option.split
      intro!: remove_remote_law removal past [OF still_changes(4)])

lemma forwarded_law:
  assumes "J s"
  shows "wp (apply_forwarded_role_change e sp i a j u f v) (\<lambda>_. J) (\<lambda>_. J) s"
proof -
  have "wp (apply_remote_role e sp t new) (\<lambda>_. J) (\<lambda>_. J) s"
    if v: "validate_forwarded_role_change e ADMIN j u f v s = Some (new, Inr t)" for t new
  proof (rule remote_role_law [OF assms, where a = ADMIN])
    have "space_role v = Some new" "get_remote s j u = Some t"
      using v by (auto simp: validate_forwarded_role_change_def Let_def split: option.splits if_splits)
    with v show "role_change_allowed (role_value ADMIN) (role_value (rr_role t)) (role_value new)"
      "get_remote s (rr_instance t) (rr_user t) = Some t"
      using get_remote_row [of s j u t]
      by (auto simp: validate_forwarded_role_change_def Let_def space_role_text same_remote_def split: option.splits if_splits)
  qed simp
  with assms show ?thesis
    by (auto simp: apply_forwarded_role_change_def wp_simps split: option.split sum.split intro!: past [OF still_local_role(2)])
qed

lemma admin_action_law: "J s \<Longrightarrow> (\<And>v. action = AskBan v \<Longrightarrow> apart s v) \<Longrightarrow> wp (run_admin_action e sp i a action) (\<lambda>_. J) (\<lambda>_. J) s"
  by (cases action) (auto simp: run_admin_action_def wp_simps intro: ban_law unban_law forwarded_law)

lemma remote_action_law:
  assumes "J s" "\<And>v. action = AskBan v \<Longrightarrow> apart s v"
  shows "wp (apply_remote_admin_action e i a action) (\<lambda>_. J) (\<lambda>_. J) s"
    "wp (apply_approved_admin_action e i a action) (\<lambda>_. J) (\<lambda>_. J) s"
  using assms by (auto simp: apply_remote_admin_action_def apply_approved_admin_action_def wp_simps admin_action_law split: option.split)

lemma roster_law:
  assumes "J s" "me_dead ev \<or> raises_seat e s (heard_event raw ev) \<or> joins s (heard_event raw ev)"
  shows "J (apply_roster_gossip e k raw ev s)"
proof -
  have "J (snd (apply_member_event (en_now e) (Some k) (heard_event raw ev) s))" if "\<not> raises_seat e s (heard_event raw ev)"
    using assms that by (intro apply_law) (auto simp: heard_event_def)
  with assms(1) show ?thesis
    by (auto simp: apply_roster_gossip_def merge_roster_entry_def Let_def case_prod_unfold split: option.split)
qed

text \<open>Every request keeps the law, if it is one the law has to bear and the user it bans or the entry it hears fits.\<close>

theorem request_law:
  assumes "J s" "owner_act e req s \<Longrightarrow> sovereign" "\<And>v. exiled req = Some v \<Longrightarrow> apart s v"
    and "\<And>k raw ev. req = RosterEvent k raw ev \<Longrightarrow>
      me_dead ev \<or> raises_seat e s (heard_event raw ev) \<or> joins s (heard_event raw ev)"
  shows "wp (perform e req) (\<lambda>_. J) (\<lambda>_. J) s"
proof (cases req)
  case (RosterEvent k raw ev)
  then show ?thesis using assms(1,4) by (simp add: wp_simps roster_law)
next
  case (HouseholdLeft i u)
  then show ?thesis using assms(1) left_law by (simp add: wp_simps keeps_wp)
qed (use assms in \<open>simp_all only: perform.simps wp_andthen wp_ret owner_act.simps\<close>,
    auto intro!: set_remote_role_law approve_law remove_remote_law removal ban_law unban_law unsubscribe_law kick_law remote_action_law
      past [OF still_joins(1)] past [OF still_joins(2)] past [OF still_joins(3)] past [OF still_joins(4)] past [OF still_joins(5)]
      past [OF still_joins(6)] past [OF still_joins(8)] past [OF still_joins(10)] past [OF still_joins(12)]
      past [OF still_changes(1)] past [OF still_changes(2)] past [OF still_changes(3)] past [OF still_changes(4)]
      split: forwarded_action.splits)

end

section \<open>Admins of other households\<close>

definition remote_powers :: "seat_db \<Rightarrow> (string \<times> string) set" where
  "remote_powers s = (\<lambda>r. (rr_instance r, rr_user r)) ` set (filter (\<lambda>r. \<not> rr_dead r \<and> rr_role r = ADMIN) (sd_remote s))"

lemma remote_powers_iff: "(i, u) \<in> remote_powers s \<longleftrightarrow> live_seat s i u ADMIN"
  by (force simp: remote_powers_def live_seat_def)

lemma remote_powersI: "r \<in> set (sd_remote s) \<Longrightarrow> \<not> rr_dead r \<Longrightarrow> rr_role r = ADMIN \<Longrightarrow> (rr_instance r, rr_user r) \<in> remote_powers s"
  by (auto simp: remote_powers_iff live_seat_def)

lemma remote_powers_subset: "remote_powers s \<subseteq> A \<longleftrightarrow>
    (\<forall>r \<in> set (sd_remote s). \<not> rr_dead r \<longrightarrow> rr_role r = ADMIN \<longrightarrow> (rr_instance r, rr_user r) \<in> A)"
  by (auto simp: remote_powers_def)

lemma rows_ban [simp]: "sd_remote (ban_member u s) = sd_remote s" "sd_remote (unban_member u s) = sd_remote s"
  "sd_remote (purge_space s) = []"
  by (simp_all add: ban_member_def delete_member_def unban_member_def purge_space_def)

lemma bans_removed [simp]: "sd_bans (remove_remote now i u s) = sd_bans s" "sd_bans (set_remote_role i u r s) = sd_bans s"
  by (simp_all add: remove_remote_def set_remote_role_def)

interpretation remote_power: remote_law "\<lambda>s. remote_powers s \<subseteq> A"
  "\<lambda>s ev. me_role ev = ADMIN \<longrightarrow> (me_instance ev, me_user ev) \<in> A" "\<lambda>s u. True" False for A
proof
  fix s s' :: seat_db assume "remote_powers s \<subseteq> A" "remote_view s' = remote_view s"
  then show "remote_powers s' \<subseteq> A" by (simp add: remote_powers_def remote_view_def)
next
  fix s now k and ev :: member_event
  assume "remote_powers s \<subseteq> A" "me_dead ev \<or> (me_role ev = ADMIN \<longrightarrow> (me_instance ev, me_user ev) \<in> A)"
  then show "remote_powers (put_event now k ev s) \<subseteq> A" by (auto simp: remote_powers_subset dest!: rows_put)
next
  fix s and ev :: member_event assume "remote_powers s \<subseteq> A" "live_seat s (me_instance ev) (me_user ev) (me_role ev)"
  then show "me_role ev = ADMIN \<longrightarrow> (me_instance ev, me_user ev) \<in> A" by (auto simp: remote_powers_iff [symmetric])
next
  fix s now i u assume "remote_powers s \<subseteq> A"
  then show "remote_powers (remove_remote now i u s) \<subseteq> A" by (auto simp: remote_powers_subset dest: rows_removed)
next
  fix s i u r a new
  assume h: "remote_powers s \<subseteq> A" "role_change_allowed (role_value a) (role_value (rr_role r)) (role_value new)" "a = OWNER \<Longrightarrow> False"
  then have "new \<noteq> ADMIN" by (auto simp: role_change_allowed_def split: if_splits)
  with h(1) show "remote_powers (set_remote_role i u new s) \<subseteq> A" by (auto simp: remote_powers_subset dest!: rows_role)
qed (auto simp: remote_powers_subset dest: rows_removed)

text \<open>Who is in charge: the owner and the admins at home, and the live admins of other households.\<close>

definition powers :: "seat_db \<Rightarrow> (string + string \<times> string) set" where
  "powers s = Inl ` local_powers s \<union> Inr ` remote_powers s"

lemma powers_subset: "powers s' \<subseteq> powers s \<longleftrightarrow> local_powers s' \<subseteq> local_powers s \<and> remote_powers s' \<subseteq> remote_powers s"
  by (auto simp: powers_def)

text \<open>
  An entry of gossip the household that hosts the space hears, about a user all of whose rows are at the household the
  entry names.
\<close>

fun heard_by_host :: "seat_env \<Rightarrow> seat_request \<Rightarrow> seat_db \<Rightarrow> bool" where
  "heard_by_host e (RosterEvent k raw ev) s =
     (hosts_space e s \<and> list_all (\<lambda>r. rr_user r \<noteq> me_user ev \<or> rr_instance r = me_instance ev) (sd_remote s))"
| "heard_by_host e _ s = True"

lemma capped_admin: "cap_remote_role (role_value ADMIN) (role_value c) = role_value ADMIN \<Longrightarrow> c = ADMIN"
proof -
  have "list_all (\<lambda>c. cap_remote_role (role_value ADMIN) (role_value c) = role_value ADMIN \<longrightarrow> c = ADMIN) all_roles" by code_simp
  moreover have "c \<in> set all_roles" by (cases c) (simp_all add: all_roles_def)
  ultimately show "cap_remote_role (role_value ADMIN) (role_value c) = role_value ADMIN \<Longrightarrow> c = ADMIN" by (simp add: list_all_iff)
qed

lemma heard_raises: "heard_by_host e (RosterEvent k raw ev) s \<Longrightarrow> \<not> me_dead ev \<Longrightarrow> \<not> raises_seat e s (heard_event raw ev)
    \<Longrightarrow> me_role (heard_event raw ev) = ADMIN \<Longrightarrow> (me_instance ev, me_user ev) \<in> remote_powers s"
proof -
  assume h: "heard_by_host e (RosterEvent k raw ev) s" "\<not> me_dead ev" "\<not> raises_seat e s (heard_event raw ev)"
    "me_role (heard_event raw ev) = ADMIN"
  then have "gossip_ceiling s (me_user ev) = ADMIN"
    by (intro capped_admin) (simp add: raises_seat_def, simp add: heard_event_def)
  then obtain r where r: "get_including_tombstones s (me_user ev) = Some r" "\<not> rr_dead r" "rr_role r = ADMIN"
    by (auto simp: gossip_ceiling_def split: option.splits if_splits)
  then have "r \<in> set (sd_remote s)" "rr_user r = me_user ev" by (auto simp: get_including_tombstones_def find_Some_iff)
  moreover from this have "rr_instance r = me_instance ev" using h(1) by (auto simp: list_all_iff)
  ultimately show ?thesis using r(2,3) remote_powersI [of r s] by simp
qed

lemma request_powers:
  assumes "\<not> owner_act e req s" "heard_by_host e req s"
  shows "remote_powers (seat_step (e, req) s) \<subseteq> remote_powers s"
proof -
  have "wp (perform e req) (\<lambda>_ s'. remote_powers s' \<subseteq> remote_powers s) (\<lambda>_ s'. remote_powers s' \<subseteq> remote_powers s) s"
  proof (rule remote_power.request_law)
    fix k raw ev assume "req = RosterEvent k raw ev"
    then show "me_dead ev \<or> raises_seat e s (heard_event raw ev)
        \<or> (me_role (heard_event raw ev) = ADMIN \<longrightarrow> (me_instance (heard_event raw ev), me_user (heard_event raw ev)) \<in> remote_powers s)"
      using heard_raises [of e k raw ev s] assms(2) by (auto simp: heard_event_def)
  qed (use assms(1) in auto)
  then show ?thesis by (simp add: leaves_wp seat_step_def)
qed

section \<open>Bans\<close>

definition remote_bans_hold :: "seat_db \<Rightarrow> bool" where
  "remote_bans_hold s \<longleftrightarrow> (\<forall>r \<in> set (sd_remote s). is_banned s (rr_user r) \<longrightarrow> rr_dead r)"

definition bans_hold :: "seat_db \<Rightarrow> bool" where
  "bans_hold s \<longleftrightarrow> (\<forall>u \<in> set (sd_bans s). get_member s u = None \<and> list_all (\<lambda>r. rr_user r = u \<longrightarrow> rr_dead r) (sd_remote s))"

lemma bans_hold_iff: "bans_hold s \<longleftrightarrow> local_bans_hold s \<and> remote_bans_hold s"
  by (auto simp: bans_hold_def local_bans_hold_def remote_bans_hold_def is_banned_def list_all_iff)

text \<open>A user sits at one household: here, or where all live rows of the user are.\<close>

definition seated_once :: "seat_db \<Rightarrow> string \<Rightarrow> bool" where
  "seated_once s u \<longleftrightarrow> (get_member s u = None \<or> live_remote_seat s u = None)
     \<and> list_all (\<lambda>r. rr_user r = u \<longrightarrow> \<not> rr_dead r \<longrightarrow> map_option rr_instance (live_remote_seat s u) = Some (rr_instance r)) (sd_remote s)"

lemma live_remote_seat_None: "live_remote_seat s u = None \<longleftrightarrow> (\<forall>r \<in> set (sd_remote s). rr_user r = u \<longrightarrow> rr_dead r)"
  by (auto simp: live_remote_seat_def find_None_iff list_for_space_def)

lemma is_banned_ban: "is_banned (ban_member u s) v \<longleftrightarrow> v = u \<or> is_banned s v" "is_banned (unban_member u s) v \<longrightarrow> is_banned s v"
  by (auto simp: is_banned_def ban_member_def delete_member_def unban_member_def)

lemma is_banned_bans: "sd_bans s' = sd_bans s \<Longrightarrow> is_banned s' u = is_banned s u"
  by (simp add: is_banned_def)

interpretation remote_bans: remote_law remote_bans_hold "\<lambda>s ev. \<not> is_banned s (me_user ev)" seated_once True
proof
  fix s s' :: seat_db assume "remote_bans_hold s" "remote_view s' = remote_view s"
  then show "remote_bans_hold s'" by (simp add: remote_bans_hold_def remote_view_def is_banned_def)
next
  fix s now k and ev :: member_event assume "remote_bans_hold s" "me_dead ev \<or> \<not> is_banned s (me_user ev)"
  then show "remote_bans_hold (put_event now k ev s)"
    by (auto simp: remote_bans_hold_def is_banned_def dest!: rows_put)
next
  fix s and ev :: member_event assume "remote_bans_hold s" "live_seat s (me_instance ev) (me_user ev) (me_role ev)"
  then show "\<not> is_banned s (me_user ev)" by (auto simp: remote_bans_hold_def live_seat_def)
next
  fix s now i u assume "remote_bans_hold s"
  then show "remote_bans_hold (remove_remote now i u s)"
    by (auto simp: remote_bans_hold_def is_banned_def dest: rows_removed)
next
  fix s i u new assume "remote_bans_hold s"
  then show "remote_bans_hold (set_remote_role i u new s)"
    by (auto simp: remote_bans_hold_def is_banned_def dest!: rows_role)
next
  fix s u assume "remote_bans_hold s" "seated_once s u" "get_member s u \<noteq> None \<or> live_remote_seat s u = None"
  then have "remote_bans_hold s" "live_remote_seat s u = None" by (auto simp: seated_once_def)
  then show "remote_bans_hold (ban_member u s)" by (auto simp: remote_bans_hold_def is_banned_ban live_remote_seat_None)
next
  fix s u r now assume h: "remote_bans_hold s" "seated_once s u" "live_remote_seat s u = Some r"
  show "remote_bans_hold (remove_remote now (rr_instance r) u (ban_member u s))"
    unfolding remote_bans_hold_def
  proof (intro ballI impI, rule ccontr)
    fix x assume x: "x \<in> set (sd_remote (remove_remote now (rr_instance r) u (ban_member u s)))"
      "is_banned (remove_remote now (rr_instance r) u (ban_member u s)) (rr_user x)" "\<not> rr_dead x"
    then have row: "x \<in> set (sd_remote s)" "\<not> same_remote (rr_instance r) u x" by (auto dest: rows_removed)
    have "rr_user x = u \<or> is_banned s (rr_user x)" using x(2) by (simp add: is_banned_def ban_member_def delete_member_def split: if_splits)
    with h row x(3) show False by (auto simp: remote_bans_hold_def seated_once_def list_all_iff same_remote_def)
  qed
next
  fix s u assume "remote_bans_hold s"
  then show "remote_bans_hold (unban_member u s)" using is_banned_ban(2) by (auto simp: remote_bans_hold_def)
qed (simp_all add: remote_bans_hold_def)

text \<open>A live entry of gossip about a banned user.\<close>

fun gossips_banned :: "seat_request \<Rightarrow> seat_db \<Rightarrow> bool" where
  "gossips_banned (RosterEvent k raw ev) s = (\<not> me_dead ev \<and> is_banned s (me_user ev))"
| "gossips_banned _ s = False"

lemma step_bans:
  assumes "bans_hold s" "\<not> approves_banned req s" "\<not> gossips_banned req s"
    "case exiled req of None \<Rightarrow> True | Some u \<Rightarrow> seated_once s u"
  shows "bans_hold (seat_step (e, req) s)"
proof -
  have "local_bans_hold (seat_step (e, req) s)"
    using assms(1,2) by (intro bans.step_law [where own = "en_own e"])
      (auto simp: bans_hold_iff split: option.split dest: entrant_banned)
  moreover have "wp (perform e req) (\<lambda>_. remote_bans_hold) (\<lambda>_. remote_bans_hold) s"
    using assms by (intro remote_bans.request_law) (auto simp: bans_hold_iff heard_event_def)
  ultimately show ?thesis by (simp add: bans_hold_iff leaves_wp seat_step_def)
qed

end
