(* ===== verification/Space_Seat_Props.thy ===== *)
theory Space_Seat_Props
  imports Space_Seat_Merge Space_Seat_Kick Space_Seat_Remote
begin

text \<open>
  What holds of the seats of a space through any run of requests, each in an environment of its own and each free to
  return or to raise: one owner, bans that hold, admins only by the owner's hand, keys only for the households that
  stay.  Each property rests on an interpretation of \<open>seat_law\<close> or on the library of its theory.
\<close>

section \<open>A household to try requests in\<close>

definition account_of :: "string \<Rightarrow> bool \<Rightarrow> account" where
  "account_of u adm = \<lparr>ac_id = u, ac_active = True, ac_admin = adm, ac_name = u, ac_pk = None\<rparr>"

definition some_env :: seat_env where
  "some_env = \<lparr>en_own = ''home'', en_now = 0, en_accounts = [(''ann'', account_of ''a'' True), (''bob'', account_of ''b'' False),
     (''cy'', account_of ''c'' False)], en_declared_age = (\<lambda>_. None), en_verdict = Some INSIDE_AREA, en_fresh = ''f'',
     en_version = (\<lambda>_. 60), en_member_version = (\<lambda>_. 60), en_paired = (\<lambda>_. True), en_relay_only = (\<lambda>_. False),
     en_sends = (\<lambda>_. ARRIVED), en_rotates = True, en_exports = True, en_rotation = True, en_restored = False, en_known = (\<lambda>_. True),
     en_followers = [],
     en_mirror = None, en_gfs_seats = True, en_in_grace = False, en_gfs_listed = False\<rparr>"

definition some_space :: seat_space where
  "some_space = \<lparr>ss_host = ''home'', ss_owner = ''ann'', ss_owner_seat = None, ss_tier = PRIVATE_SPACE, ss_join = JOIN_REQUEST,
     ss_features = default_features, ss_dissolved = False, ss_min_age = 0, ss_area = False, ss_config_sequence = 0,
     ss_roster_sequence = 0, ss_authority_epoch = 0, ss_seed = True, ss_seed_shared = None\<rparr>"

definition empty_db :: seat_db where
  "empty_db = \<lparr>sd_space = None, sd_members = [], sd_bans = [], sd_remote = [], sd_households = [], sd_household_bans = [],
     sd_invitations = [], sd_requests = [], sd_tokens = [], sd_epoch = None, sd_log = []\<rparr>"

definition some_db :: seat_db where
  "some_db = empty_db\<lparr>sd_space := Some some_space, sd_members := [(''a'', new_seat OWNER), (''b'', new_seat ADMIN)],
     sd_bans := [''d''], sd_households := [''home'', ''far'', ''near''], sd_epoch := Some 4,
     sd_remote := [\<lparr>rr_instance = ''far'', rr_user = ''x'', rr_pk = None, rr_name = None, rr_role = MEMBER, rr_version = 3,
       rr_dead = False, rr_epoch = 0, rr_removed = None\<rparr>]\<rparr>"

section \<open>One owner\<close>

lemma hosted_fields [simp]:
  "hosted_by own (announce ev s) = hosted_by own s" "hosted_by own (add_space_instance i s) = hosted_by own s"
  by (simp_all add: hosted_by_def announce_def add_space_instance_def)

lemma create_owner:
  assumes "en_own e = ss_host sp" "sd_members s = []"
  shows "sole_owner (ss_host sp) (leaves (create_space_seats e sp u) s)"
proof -
  let ?s = "add_space_instance (en_own e) (save_member u (new_seat OWNER) (s\<lparr>sd_space := Some (sp\<lparr>ss_seed := True\<rparr>)\<rparr>))"
  have "sole_owner (ss_host sp) ?s"
    using assms(2) by (simp add: sole_owner_def hosted_by_def one_row_each_def owners_def add_space_instance_def save_member_def
        get_member_def new_seat_def)
  moreover have "sole_owner (ss_host sp) (t\<lparr>sd_epoch := k\<rparr>) = sole_owner (ss_host sp) t" for t k
    by (simp add: sole_owner_def hosted_by_def one_row_each_def owners_def)
  ultimately show ?thesis
    by (auto simp: create_space_seats_def wp_simps comp_def simp flip: leaves_wp intro!: owner.household_law)
qed

text \<open>
  C5.  From the creation of a space on, whatever requests its household serves and whether they return or raise, the
  space is hosted there, no user has two seats, and exactly one seat is the owner's.  The requests that write a seat
  over an existing one without looking at it (a direct add, an accepted invitation, a redeemed token, an approved join
  request) must not name the owner; \<open>redeemed_owner_is_demoted\<close> shows what they do otherwise.
\<close>

theorem a_space_has_one_owner:
  assumes "en_own e = ss_host sp" "sd_members s = []"
    and "along (\<lambda>e' req t. en_own e' = ss_host sp \<and> (case entrant e' req t of None \<Rightarrow> True | Some (v, r) \<Rightarrow> r \<noteq> OWNER \<and> \<not> owns t v))
      cs (leaves (create_space_seats e sp u) s)"
  shows "sole_owner (ss_host sp) (seat_run cs (leaves (create_space_seats e sp u) s))"
  using create_owner [OF assms(1,2)] assms(3) by (intro owner.run_law) simp_all

theorem a_space_has_one_owner_witness:
  "sole_owner ''home'' (seat_run [(some_env, AddMember ''ann'' ''b'' MEMBER), (some_env, TransferOwnership ''ann'' ''b''),
      (some_env, RemoveMember ''bob'' ''a''), (some_env, RemoveMember ''bob'' ''b'')]
    (leaves (create_space_seats some_env some_space ''a'') empty_db))"
proof -
  have "ss_host some_space = ''home''" by code_simp
  moreover have "en_own some_env = ''home''" "sd_members empty_db = []" by code_simp+
  moreover have "along (\<lambda>e' req t. en_own e' = ''home'' \<and> (case entrant e' req t of None \<Rightarrow> True | Some (v, r) \<Rightarrow> r \<noteq> OWNER \<and> \<not> owns t v))
      [(some_env, AddMember ''ann'' ''b'' MEMBER), (some_env, TransferOwnership ''ann'' ''b''),
       (some_env, RemoveMember ''bob'' ''a''), (some_env, RemoveMember ''bob'' ''b'')]
      (leaves (create_space_seats some_env some_space ''a'') empty_db)" by code_simp
  ultimately show ?thesis
    using a_space_has_one_owner [of some_env some_space empty_db] by simp
qed

text \<open>A redeemed token writes a plain seat over the owner's: the space is left without an owner.\<close>

lemma redeemed_owner_is_demoted:
  "let s = some_db\<lparr>sd_tokens := [(''t'', \<lparr>tk_uses = 1, tk_total = Some 1, tk_role = MEMBER, tk_expires = None\<rparr>)]\<rparr>;
       s' = seat_step (some_env, RedeemToken ''t'' ''a'') s
   in owners s = [''a''] \<and> owners s' = [] \<and> map_option sr_role (get_member s' ''a'') = Some MEMBER"
  by code_simp

section \<open>Bans\<close>

text \<open>
  C10.  A banned user holds no seat, neither at home nor as a live member of another household, through any run of
  requests: invitations, tokens, requests, role changes, forwarded actions, removals and gossip.  Three kinds of
  request are left out: the approval of a banned applicant's join request and a live entry of gossip about a banned
  user, which do not look at the ban list, and a ban of somebody who sits at two households at once.
\<close>

theorem banned_users_hold_no_seat:
  assumes "bans_hold s"
    and "along (\<lambda>e req t. \<not> approves_banned req t \<and> \<not> gossips_banned req t
      \<and> (case exiled req of None \<Rightarrow> True | Some u \<Rightarrow> seated_once t u)) cs s"
  shows "bans_hold (seat_run cs s)"
  using assms
proof (induction cs arbitrary: s)
  case Nil
  then show ?case by (simp add: seat_run_def)
next
  case (Cons c cs)
  then have "bans_hold (seat_step c s)" by (cases c) (auto intro: step_bans)
  with Cons show ?case by (simp add: seat_run_def)
qed

theorem banned_users_hold_no_seat_witness:
  "bans_hold (seat_run [(some_env, Ban ''ann'' ''b''), (some_env, Ban ''ann'' ''x''), (some_env, AddMember ''ann'' ''b'' MEMBER),
     (some_env, Subscribe ''d'')] some_db)"
  by (rule banned_users_hold_no_seat) code_simp+

text \<open>The approval of a join request does not look at the ban list: a user banned while the request waits gets a seat.\<close>

lemma approval_seats_the_banned:
  "let s = some_db\<lparr>sd_requests := [(''r'', \<lparr>jr_user = ''d'', jr_instance = None, jr_role = None, jr_verdict = None,
         jr_status = ROW_PENDING, jr_reviewer = None\<rparr>)]\<rparr>;
       s' = seat_step (some_env, ApproveRequest ''r'' ''ann'' INLINE) s
   in bans_hold s \<and> is_banned s' ''d'' \<and> get_member s' ''d'' \<noteq> None"
  by code_simp

text \<open>
  Nor does the merge of a roster entry: a live one about a banned user, with a version the household has not seen, seats
  the user again.
\<close>

definition some_event :: "nat \<Rightarrow> bool \<Rightarrow> space_role \<Rightarrow> member_event" where
  "some_event n dead role = \<lparr>me_user = ''x'', me_instance = ''far'', me_name = None, me_pk = None, me_role = role,
     me_version = n, me_dead = dead\<rparr>"

lemma gossip_seats_the_banned:
  "let s = seat_step (some_env, Ban ''ann'' ''x'') some_db;
       s' = seat_step (some_env, RosterEvent 0 ''member'' (some_event 9 False MEMBER)) s
   in bans_hold s \<and> is_banned s' ''x'' \<and> live_seat s' ''far'' ''x'' MEMBER"
  by code_simp

section \<open>Authority\<close>

text \<open>
  C6.  On the household that hosts a space, nobody comes into charge of it, neither at home nor as an admin of another
  household, unless the owner changes a role there or abroad, approves an elevation or hands the space on, or the
  household's admin reassigns an orphaned space, or somebody is seated with such a role directly.  Every other request,
  a redeemed admin token, a forwarded role change and an entry of gossip included, leaves no one in charge who was not
  before; an entry of gossip must name the household its user's seats are at.
\<close>

theorem only_the_owner_makes_admins:
  assumes "\<not> owner_act e req s" "case entrant e req s of None \<Rightarrow> True | Some (u, r) \<Rightarrow> r \<notin> {OWNER, ADMIN}"
    "heard_by_host e req s"
  shows "powers (seat_step (e, req) s) \<subseteq> powers s"
  unfolding powers_subset
proof
  show "local_powers (seat_step (e, req) s) \<subseteq> local_powers s"
    using assms(1,2) by (intro power.step_law [where own = "en_own e"]) auto
  show "remote_powers (seat_step (e, req) s) \<subseteq> remote_powers s"
    using assms(1,3) by (rule request_powers)
qed

theorem only_the_owner_makes_admins_witness:
  "powers (seat_step (some_env, SetRemoteRole ''bob'' ''far'' ''x'' ''admin'') some_db) \<subseteq> powers some_db
   \<and> powers (seat_step (some_env, SetRemoteRole ''ann'' ''far'' ''x'' ''admin'') some_db) \<noteq> powers some_db"
proof
  show "powers (seat_step (some_env, SetRemoteRole ''bob'' ''far'' ''x'' ''admin'') some_db) \<subseteq> powers some_db"
    by (rule only_the_owner_makes_admins) code_simp+
  show "powers (seat_step (some_env, SetRemoteRole ''ann'' ''far'' ''x'' ''admin'') some_db) \<noteq> powers some_db" by code_simp
qed

text \<open>
  The ceiling of gossip is read from the row of the user, whichever household it is at: an entry that names an admin's
  user id under another household makes an admin there.
\<close>

lemma gossip_borrows_a_ceiling:
  "let s = seat_step (some_env, SetRemoteRole ''ann'' ''far'' ''x'' ''admin'') some_db;
       s' = seat_step (some_env, RosterEvent 0 ''admin'' ((some_event 9 False ADMIN)\<lparr>me_instance := ''other''\<rparr>)) s
   in remote_powers s = {(''far'', ''x'')} \<and> remote_powers s' = {(''far'', ''x''), (''other'', ''x'')}"
  by code_simp

section \<open>Keys\<close>

text \<open>
  C9.  No request sends a fresh content key, as a member's copy, to a household that lost its last seat in the request:
  not the copy of a rekey, not the bundle of an authority rotation, not the owner's rekey of an older household,
  whichever way the seat ended and whether or not the call raised later.  A sealed copy, the one every listed follower
  gets, reaches such a household only if the space is publicly readable and the household follows it with a bound key.
\<close>

theorem ended_households_get_no_key:
  assumes "seated_household s h" "\<not> seated_household (seat_step (e, req) s) h"
    "ev \<in> set (new_events s (seat_step (e, req) s))"
  shows "\<not> key_reaches h ev \<and> (sealed_to h ev \<longrightarrow> bound_follower e h \<and> readable s)"
  using request_key_safe [of e s req] assms by (auto simp: key_safe_def seat_step_def)

theorem ended_households_get_no_key_witness:
  "\<not> key_reaches ''far'' (Rekeyed 5 [''near''])"
  by (rule ended_households_get_no_key [of some_db _ some_env "RemoveRemote ''ann'' ''far'' ''x''", THEN conjunct1]) code_simp+

text \<open>
  The sealed copy is the gap: a household that followed a publicly readable space as a member household is still listed
  by the connection server when its last seat has ended, and the rekey of the removal seals the fresh key to it.
\<close>

definition public_db :: seat_db where
  "public_db = some_db\<lparr>sd_space := Some (some_space\<lparr>ss_tier := GLOBAL_SPACE,
     ss_features := default_features\<lparr>sf_allow_subscribers := True\<rparr>\<rparr>)\<rparr>"

definition followed_env :: seat_env where
  "followed_env = some_env\<lparr>en_followers := [\<lparr>fo_household = ''far'', fo_bound = True, fo_sealed = Some 4\<rparr>]\<rparr>"

lemma removed_follower_gets_the_key:
  "let s' = seat_step (followed_env, RemoveRemote ''ann'' ''far'' ''x'') public_db
   in \<not> seated_household s' ''far'' \<and> ''far'' \<notin> set (sd_households s') \<and> KeySealed 5 [''far''] \<in> set (new_events public_db s')"
  by code_simp

text \<open>
  And a live entry of gossip the household has long seen, refused by the version guard, puts a removed household back
  on the list: the next rekey goes to it.
\<close>

lemma stale_join_restores_a_household:
  "let s = seat_step (some_env, RemoveRemote ''ann'' ''far'' ''x'') some_db;
       s1 = seat_step (some_env, RosterEvent 0 ''member'' (some_event 2 False MEMBER)) s;
       s2 = seat_step (some_env, RemoveMember ''ann'' ''b'') s1
   in ''far'' \<notin> set (sd_households s) \<and> sd_remote s1 = sd_remote s \<and> \<not> seated_household s2 ''far''
     \<and> (\<exists>ev \<in> set (new_events s1 s2). key_reaches ''far'' ev)"
  by code_simp

text \<open>
  C39.  When an admin or the owner removes a member of another household and a content key can be minted and read back,
  the call either returns or raises on the delivery of its notice, with the seat ended both times.  When it returns, a
  key newer than the one before has gone to all the households that remain, and no member's copy of any key to another
  one.  When it raises, nothing but the end of the seat and the notice has happened, and the key is the old one.
\<close>

theorem kick_ends_with_the_notice:
  assumes "sd_space s = Some sp" "\<not> ss_dissolved sp" "actor_seat e actor s = Some q" "sr_role q \<in> {OWNER, ADMIN}"
    "en_rotates e" "en_exports e"
  shows "case remove_remote_member e actor i u s of
      (Inr _, s') \<Rightarrow> en_sends e i = ARRIVED \<and> get_remote s' i u = None
        \<and> (\<exists>n hs. Rekeyed n hs \<in> set (new_events s s') \<and> next_epoch (sd_epoch s) \<le> n \<and> set hs = remaining_households e i u s)
        \<and> (\<forall>ev \<in> set (new_events s s'). \<forall>h. key_reaches h ev \<longrightarrow> h \<in> remaining_households e i u s)
    | (Inl err, s') \<Rightarrow> en_sends e i \<noteq> ARRIVED \<and> err = NotPermitted \<and> get_remote s' i u = None
        \<and> sd_epoch s' = sd_epoch s \<and> new_events s s' = [RemoteSeatEnded i u, RemovedNotice i u]"
proof -
  have "sr_role q \<in> set settings_authority_roles" using assms(4) by (auto simp: settings_authority_roles_def)
  from assms(1-3) this assms(5,6)
  have "wp (remove_remote_member e actor i u)
      (\<lambda>_ s'. en_sends e i = ARRIVED \<and> rekeyed_for e i u s s')
      (\<lambda>err s'. en_sends e i \<noteq> ARRIVED \<and> err = NotPermitted \<and> get_remote s' i u = None
        \<and> sd_epoch s' = sd_epoch s \<and> new_events s s' = [RemoteSeatEnded i u, RemovedNotice i u]) s"
    by (rule kick_splits) (auto simp: dead_get ended_fields new_events_def)
  then show ?thesis by (auto simp: wp_def rekeyed_for_def dead_get split: prod.splits sum.splits)
qed

theorem kick_ends_with_the_notice_witness:
  "fst (remove_remote_member (some_env\<lparr>en_sends := \<lambda>_. QUEUED\<rparr>) ''bob'' ''far'' ''x'' some_db) = Inl NotPermitted
   \<and> en_sends (some_env\<lparr>en_sends := \<lambda>_. QUEUED\<rparr>) ''far'' \<noteq> ARRIVED"
proof -
  let ?e = "some_env\<lparr>en_sends := \<lambda>_. QUEUED\<rparr>"
  have "sd_space some_db = Some some_space" "\<not> ss_dissolved some_space" "actor_seat ?e ''bob'' some_db = Some (new_seat ADMIN)"
    "sr_role (new_seat ADMIN) \<in> {OWNER, ADMIN}" "en_rotates ?e" "en_exports ?e" "en_sends ?e ''far'' \<noteq> ARRIVED"
    by code_simp+
  then show ?thesis
    using kick_ends_with_the_notice [of some_db some_space ?e "''bob''" "new_seat ADMIN" "''far''" "''x''"]
    by (auto split: prod.splits sum.splits)
qed

text \<open>A key that cannot be minted is passed over: the removal returns with the old key still in use.\<close>

lemma removal_survives_a_failed_rotation:
  "case remove_remote_member (some_env\<lparr>en_rotates := False\<rparr>) ''bob'' ''far'' ''x'' some_db of
     (Inr _, s') \<Rightarrow> sd_epoch s' = sd_epoch some_db \<and> get_remote s' ''far'' ''x'' = None
       \<and> list_all (\<lambda>ev. \<not> key_reaches ''near'' ev) (new_events some_db s')
   | (Inl err, s') \<Rightarrow> False"
  by code_simp

section \<open>Rosters\<close>

text \<open>
  C40.  Two households that start from the same roster and take in the same roster events in different orders, each as
  often as it likes, believe the same of every member, if the events tell apart by version or by whether they end the
  seat.  The home of a user is the same in every row and event.
\<close>

theorem roster_order_is_irrelevant:
  assumes "at_home home s" "\<forall>ev \<in> set evs. me_instance ev = home (me_user ev)" "ranked_apart evs" "set evs' = set evs"
  shows "standing (deliver_events now verified evs s) u = standing (deliver_events now' verified evs' s) u"
proof -
  let ?es = "filter (\<lambda>ev. me_user ev = u) evs" and ?es' = "filter (\<lambda>ev. me_user ev = u) evs'"
  have "ranked_apart ?es" "\<forall>ev \<in> set ?es. me_user ev = u" "set ?es' = set ?es"
    using assms(3,4) by (auto simp: ranked_apart_def)
  then have "fold (believe k) ?es' cur = fold (believe k) ?es cur" for k cur by (rule fold_believe)
  then show ?thesis using assms by (simp add: standing_deliver [of home])
qed

theorem roster_order_is_irrelevant_witness:
  "standing (deliver_events 0 (Some 0) [some_event 4 False ADMIN, some_event 5 True MEMBER, some_event 5 False MEMBER] some_db) ''x''
   = standing (deliver_events 9 (Some 0) [some_event 5 False MEMBER, some_event 5 True MEMBER, some_event 4 False ADMIN,
       some_event 5 False MEMBER] some_db) ''x''"
  by (rule roster_order_is_irrelevant [where home = "\<lambda>_. ''far''"]) code_simp+

text \<open>Two live statements of one version are not told apart: the household keeps the one that arrived first.\<close>

lemma equal_versions_depend_on_order:
  "standing (deliver_events 0 (Some 0) [some_event 4 False ADMIN, some_event 4 False MEMBER] some_db) ''x''
   \<noteq> standing (deliver_events 0 (Some 0) [some_event 4 False MEMBER, some_event 4 False ADMIN] some_db) ''x''"
  by code_simp

end
