(* ===== verification/Spec2Isabelle.thy ===== *)
theory Spec2Isabelle
  imports Wait_Buffers Event_Classification Rate_Limiter Inbound_Errors Timetable_Roundtrip Page_End_To_End
    Media_Store_Live Media_Framing_Props Outbox_Props Space_Seat_Props
begin

text \<open>
  Social Home is a federated application: every household runs one server, and households exchange signed,
  encrypted events about the spaces they share.  This development models the parts of the server that decide:
  what an inbound event must pass before it may change anything, how often it can take effect, what a space's
  roles and features allow, what a valid timetable is, how concurrent edits of a shared page converge, and how a
  file sent in chunks lands.

  \<^bold>\<open>Conventions.\<close>  A Python object is a record, an enum a datatype (a \<open>str\<close> enum that is only compared keeps its
  wire values), a dict an association list in insertion order where order matters and a map otherwise, a raised
  exception a value of an error type on the left of a sum.  A method is one function from the state (and what it
  reads from outside: clocks, fresh ids, repositories) to the new state and its result; a coroutine that holds a
  lock for its whole body is one step.  Integers are unbounded as in Python; strings are lists of 8-bit
  characters, so texts beyond U+00FF are represented only by their Latin-1 part; JSON numbers are integers.

  \<^bold>\<open>Prelude\<close> (theory Prelude): exceptions as values, decoded JSON, truthiness, insertion-ordered dicts, stable
  sorting.  Civil\_Date: the proleptic calendar, \<open>isoformat\<close> and \<open>fromisoformat\<close> of dates.

  \<^bold>\<open>The inbound path\<close> (federation/).  Federation\_Types and Event\_Classification hold the vocabulary of
  domain/federation.py and show that every space event is classified exactly once.  Bounded\_Hold models
  bounded\_hold.py; its contract is the locale \<open>hold_buffer\<close>, on which Wait\_Buffers builds pending\_seat\_buffer.py
  and pending\_parent\_buffer.py: what is handed back was put in and is handed back once, the caps hold in every
  run, and the recursive parent release returns.  Dedup models the replay cache of crypto.py and
  infrastructure/idempotency.py behind the locale \<open>dedup\<close>: a key passes once per window.  Space\_Domain (domain/space.py)
  holds roles, features, access levels and their wire forms.  Space\_Scope (space\_scope.py, host\_equivalence.py) says
  which space an event may write to.  Inbound models inbound\_validator.py step by step, the signature check
  of encoder.py and crypto\_suite.py, and the composition and dispatch in federation\_service.py; a step is a
  function on the service's mutable state and the context.  Inbound\_Gates proves, through the locales
  \<open>quiet_step\<close> and its extensions interpreted on every step, what a context that passes satisfies;
  Inbound\_Props, Inbound\_Runs and Inbound\_Errors derive the properties of one call, of interleaved runs
  and of the error exits.  Signature verification, decryption, JSON and ISO parsing, JSON encoding (which
  may refuse a value), the repositories and the clock are the fields of \<open>inbound_env\<close>.

  \<^bold>\<open>Rate limiting\<close> (theory Rate\_Limiter): rate\_limiter.py, the limiter and its middleware, over exact rationals.

  \<^bold>\<open>Timetables\<close> (domain/timetable.py).  Timetable\_Data, Timetable\_Wire and Timetable model the whole module: values,
  strict parsers, validation loops, overrides, mutators, week resolution.  Timetable\_Valid gives the declarative
  meaning of \<open>validate\<close>; Timetable\_Props, Timetable\_More and Timetable\_Roundtrip hold its equivalence with the loops,
  preservation by every mutator, progress of removals, pruning, weeks and the wire round trip.

  \<^bold>\<open>Shared pages\<close> (services/page\_conflict\_service.py, repositories/page\_repo.py, domain/page.py,
  domain/page\_version.py).  Page\_Diff is the three-way merge: paragraphs, a Myers difference with its budget,
  hunks, \<open>diff3_merge\<close>.  Page\_Diff\_Correct proves the search against the furthest-reaching points of
  edit paths and that the walk back is an edit script; Page\_Merge and Page\_Merge\_Props say what a merge contains.
  Page\_Data is the data and the version hash, Page\_Store the three tables as functions, Page\_Wire the wire
  shapes and their tolerant parsers.  Page\_Host and Page\_Member are the two sides of the engine; Page\_Store\_Facts,
  Page\_Host\_Props and Page\_Host\_Safety show that sequencing loses no version, keeps the sides capped and only
  raises the number; Page\_Wire\_Props that published versions read back; Page\_Converge that members agree
  whatever order versions arrive in; Page\_End\_To\_End composes host, wire and member.  The byte cap on sides binds
  two or more of them; a lone side is kept whatever its size (\<open>lone_side_has_no_byte_cap\<close>).  SHA-256 is the
  parameter \<open>digest\<close>; where a property needs that it tells bodies apart, it says for which.

  \<^bold>\<open>Membership of a space\<close> (services/space\_service.py with space\_member\_guard.py, space\_writer\_cert\_service.py,
  local\_community.py, space\_authority\_rotation\_service.py, space\_subscriber\_key\_outbound.py;
  federation/private\_invite\_handler.py for roster gossip; repositories/space\_repo.py, space\_remote\_member\_repo.py).
  Seat\_Action is the monad of a method that writes and may raise in the middle, with weakest preconditions by
  simplification.  Space\_Seat\_Rows holds the rows and statements of one space, Space\_Seat\_Roles guards, roster gossip,
  writer entitlement, the rotation of the content key with the copies sealed for followers, and the authority rotation
  a revocation sets off with its bundle; Space\_Seat\_Changes role changes, ownership, removals and bans,
  Space\_Seat\_Joins every way to a local seat, Space\_Seat\_Steps forwarded actions, the merge of a roster entry with the
  host's ceiling, and the requests a run consists of.  What other services answer (accounts, clock, versions and
  reachability of households, the verdict of a local community, whether a rotation succeeds, the followers the
  connection servers list) is the record \<open>seat_env\<close>, free in every request; the log keeps what was announced and sent,
  every message that carries a content key included.  Space\_Seat\_Laws frames the actions that leave local seats alone,
  Space\_Seat\_Law proves in the locale \<open>seat_law\<close> that every request keeps a law of the local seats, and Space\_Seat\_Owner
  interprets it for one owner, bans and authority; Space\_Seat\_Remote does the same for the seats of other households
  (locale \<open>remote_law\<close>, interpreted for remote admins and for bans) and puts both halves together as \<open>powers\<close> and
  \<open>bans_hold\<close>.  Space\_Seat\_Keys says who a fresh key reaches, Space\_Seat\_Kick how a kick ends, Space\_Seat\_Merge what a
  roster converges to.  Space\_Seat\_Props holds the properties and the inputs on which the code breaks its own
  promises.  A request is one step: interleaving inside a request is not modelled, nor are writer certificates and
  channel grants, which the same messages carry.

  \<^bold>\<open>Media transfer\<close> (federation/media\_framing.py, federation/app\_framing.py, the receive loops of
  federation/transport.py, domain/media\_chunking.py, services/inbound\_media\_store.py).  Media\_Framing is the binary frame
  and the reassembly of a stream, on bytes as 8-bit words; Media\_Framing\_Props proves, in the locale \<open>frame_layer\<close>
  interpreted for the media and the app channel, that any cutting of the stream delivers the frames.
  Media\_Chunks holds chunk sizes, the length a chunk has as text in an envelope (federation\_service.py, encoder.py,
  routed\_crypto.py) and the checks of a receiver; Media\_Chunks\_Props that honest chunks pass them and fit the inbox and
  that two cuttings of one file cannot mix unseen.  Media\_Store is \<open>store_chunk\<close> as a step relation: one step is
  one file operation, any number of calls interleave, any call may die.  Media\_Store\_Names and Media\_Store\_Steps
  hold what the operations do to the directory; Media\_Store\_Safe (locale \<open>assembly\<close>) what can land,
  Media\_Store\_Once that a target is written once and every run ends, Media\_Store\_Live that every file arrives.
  Only the files of one transfer are modelled; hard links may be missing, and an I/O error is a death.

  \<^bold>\<open>The outbound queue\<close> (domain/federation\_retention.py, domain/outbox.py, repositories/outbox\_repo.py,
  infrastructure/outbox\_processor.py).  Outbox models the table, the retention rules and the retry loop as operations
  that interleave at every await: a call of \<open>enqueue\<close> is a program counter over its database calls, a tick a list of
  entries still to settle.  Outbox\_Rows says how operations change rows; Outbox\_Runs (locale \<open>fresh_run\<close>) what holds in
  runs without repeated ids; Outbox\_Keep which rows survive; Outbox\_Bounds attempts and the cap; Outbox\_Props the
  promises, and what overlapping calls do to the cap.  Instants are microseconds, delays exact rationals.

  \<^bold>\<open>Bounds.\<close>  No definition runs on fuel.  Loops are structural or carry a measure: the Myers search ends with its
  row list (one row per possible edit count) or its budget, the parent release with the entries held, the
  fresh time stamp with the last instant Python can represent (then \<open>OverflowError\<close>), the frame loop with the
  bytes left.

  \<^bold>\<open>Not modelled.\<close>  Outbound transport, pairing, space synchronisation, the handlers behind the inbound
  registry, the remaining application services and routes, app assembly, the global federation server, media names and their
  scope checks, and the UI-facing
  services: their work is I/O around the rules above, or they are listed in the plan of the manifest's
  components.  Of the space service, config edits, invite links, invitations across households and moderation are
  left out.  Of the page engine, media files that travel with a version, moderation approvals on outgoing payloads
  and household pages are left out; JSON text inside snapshot rows is kept as the fields it encodes.
\<close>

end
